(* ===== verification/Kai_Prelude.thy ===== *)
theory Kai_Prelude
  imports Complex_Main "HOL-Library.Multiset" "HOL-Library.AList"
begin

text \<open>
  Shared notions of the development.

  \<^item> Numbers. A Go \<^verbatim>\<open>float64\<close> is modelled by an exact rational (\<open>float64\<close>): every finite
    IEEE value is one, and IEEE addition, subtraction and multiplication return the exact result
    whenever it is representable (milli-CPUs, bytes and GPU counts are integers far below
    \<open>2 ^ 53\<close>). Rounding of results that are not representable, overflow to infinity and NaN are
    not modelled. Go's \<^verbatim>\<open>int\<close> and \<^verbatim>\<open>int32\<close> are \<open>int\<close>; a narrowing conversion is written
    out with \<open>int32_of\<close>.
  \<^item> Maps. A Go map that the code ranges over is an association list: its order is the order in
    which \<^verbatim>\<open>range\<close> visits the keys, so a theorem over all lists covers every order.
  \<^item> Orders. \<^verbatim>\<open>common_info.LessFn\<close> is a bool-valued function; the locale \<open>less_fn\<close> holds what
    the sorting code needs of one (a strict weak order), and the lemmas proved there serve the
    heap, the task orders and the fair-share remainder order.
  \<^item> Sorting. \<^verbatim>\<open>sort.Slice\<close> is the insertion sort \<open>go_sort\<close> (what Go runs on up to 12 elements;
    on longer slices Go may order ties differently, which the theorems do not depend on).
\<close>

subsection \<open>Types\<close>

type_synonym float64 = rat
type_synonym ('k, 'v) gomap = "('k \<times> 'v) list"
type_synonym 'a LessFn = "'a \<Rightarrow> 'a \<Rightarrow> bool"
type_synonym QueueID = string
type_synonym PodID = string

definition int32_of :: "int \<Rightarrow> int" where
  "int32_of n = signed_take_bit 31 n"

text \<open>A float that comes from a division: the only places where infinities and NaN arise.\<close>

datatype fval = Fin float64 | PInf | NInf | NaN

definition fdiv :: "float64 \<Rightarrow> float64 \<Rightarrow> fval" where
  "fdiv x y = (if y \<noteq> 0 then Fin (x / y) else if x > 0 then PInf else if x < 0 then NInf else NaN)"

fun fless :: "fval \<Rightarrow> fval \<Rightarrow> bool" where
  "fless (Fin x) (Fin y) \<longleftrightarrow> x < y"
| "fless (Fin x) PInf \<longleftrightarrow> True"
| "fless NInf (Fin y) \<longleftrightarrow> True"
| "fless NInf PInf \<longleftrightarrow> True"
| "fless _ _ \<longleftrightarrow> False"

fun fmax :: "fval \<Rightarrow> fval \<Rightarrow> fval" where
  "fmax NaN PInf = PInf"
| "fmax PInf NaN = PInf"
| "fmax NaN _ = NaN"
| "fmax _ NaN = NaN"
| "fmax x y = (if fless x y then y else x)"

named_theorems go_defs \<open>definitions of accessor-like operations, unfolded on demand\<close>
named_theorems gomap_simps \<open>lookup and key laws of association-list maps\<close>

lemma int32_of_id: "- (2 ^ 31) \<le> n \<Longrightarrow> n < 2 ^ 31 \<Longrightarrow> int32_of n = n"
  by (simp add: int32_of_def signed_take_bit_int_eq_self)

subsection \<open>Maps as association lists\<close>

abbreviation gokeys :: "('k, 'v) gomap \<Rightarrow> 'k list" where
  "gokeys m \<equiv> map fst m"

definition wf_gomap :: "('k, 'v) gomap \<Rightarrow> bool" where
  "wf_gomap m \<longleftrightarrow> distinct (gokeys m)"

lemma wf_gomap_update [gomap_simps, simp]: "wf_gomap m \<Longrightarrow> wf_gomap (AList.update k v m)"
  by (simp add: wf_gomap_def distinct_update)

lemma wf_gomap_delete [gomap_simps, simp]: "wf_gomap m \<Longrightarrow> wf_gomap (AList.delete k m)"
  by (simp add: wf_gomap_def distinct_delete)

lemma wf_gomap_Nil [simp]: "wf_gomap []"
  by (simp add: wf_gomap_def)

lemma map_of_AList_update [gomap_simps, simp]: "map_of (AList.update k v m) = (map_of m)(k \<mapsto> v)"
  by (rule update_conv')

lemma map_of_AList_delete [gomap_simps, simp]: "map_of (AList.delete k m) = (map_of m)(k := None)"
  by (rule delete_conv')

lemma set_AList_delete [gomap_simps, simp]: "set (AList.delete k m) = {e \<in> set m. fst e \<noteq> k}"
  by (auto simp: AList.delete_eq)

lemma AList_update_new: "map_of m k = None \<Longrightarrow> AList.update k v m = m @ [(k, v)]"
  by (induction m) (auto split: if_splits)

lemma set_gomap_conv: "wf_gomap m \<Longrightarrow> (k, v) \<in> set m \<longleftrightarrow> map_of m k = Some v"
  by (auto simp: wf_gomap_def map_of_eq_Some_iff)

lemma fold_range:
  assumes "\<And>x a. g (f x a) \<subseteq> h x \<union> g a"
  shows "g (fold f xs a) \<subseteq> (\<Union>x\<in>set xs. h x) \<union> g a"
proof (induction xs arbitrary: a)
  case (Cons x xs)
  have "g (fold f (x # xs) a) \<subseteq> (\<Union>x\<in>set xs. h x) \<union> g (f x a)" using Cons by simp
  also have "\<dots> \<subseteq> (\<Union>x\<in>set xs. h x) \<union> (h x \<union> g a)" using assms by blast
  finally show ?case by auto
qed simp

lemma sum_list_fun_upd:
  fixes f :: "'k \<Rightarrow> 'n :: ab_group_add"
  assumes "distinct xs" and "k \<in> set xs"
  shows "(\<Sum>x\<leftarrow>xs. (f(k := y)) x) = (\<Sum>x\<leftarrow>xs. f x) - f k + y"
  using assms
proof (induction xs)
  case Nil
  then show ?case by simp
next
  case (Cons a xs)
  show ?case
  proof (cases "a = k")
    case True
    with Cons.prems have "k \<notin> set xs" by simp
    then have "map (f(k := y)) xs = map f xs" by (intro map_cong) auto
    then show ?thesis using True by (simp only: list.map sum_list.Cons) simp
  next
    case False
    with Cons show ?thesis by (simp add: algebra_simps)
  qed
qed

lemma sum_list_mset_eq:
  fixes f :: "'a \<Rightarrow> 'n :: comm_monoid_add"
  assumes "mset xs = mset ys"
  shows "(\<Sum>x\<leftarrow>xs. f x) = (\<Sum>x\<leftarrow>ys. f x)"
proof -
  have "sum_mset (mset (map f xs)) = sum_mset (mset (map f ys))"
    using assms by simp
  then show ?thesis by (simp only: sum_mset_sum_list)
qed

subsection \<open>Less functions\<close>

text \<open>What the sorting code assumes of a \<open>LessFn\<close>: a strict weak order.\<close>

locale less_fn =
  fixes lt :: "'a LessFn"
  assumes less_asym: "lt x y \<Longrightarrow> \<not> lt y x"
    and not_less_trans: "\<not> lt y x \<Longrightarrow> \<not> lt z y \<Longrightarrow> \<not> lt z x"
begin

lemma less_irrefl [simp]: "\<not> lt x x"
  using less_asym by blast

lemma not_less_total: "\<not> lt y x \<or> \<not> lt x y"
  using less_asym by blast

lemma less_trans: "lt x y \<Longrightarrow> lt y z \<Longrightarrow> lt x z"
  using less_asym not_less_trans by blast

lemma less_not_less_trans: "lt x y \<Longrightarrow> \<not> lt z y \<Longrightarrow> lt x z"
  using not_less_trans by blast

end

lemma less_fn_flip: "less_fn lt \<Longrightarrow> less_fn (\<lambda>l r. lt r l)"
  unfolding less_fn_def by blast

subsection \<open>Sorting\<close>

fun go_insert :: "'a LessFn \<Rightarrow> 'a \<Rightarrow> 'a list \<Rightarrow> 'a list" where
  "go_insert lt x [] = [x]"
| "go_insert lt x (y # ys) = (if lt y x then y # go_insert lt x ys else x # y # ys)"

fun go_sort :: "'a LessFn \<Rightarrow> 'a list \<Rightarrow> 'a list" where
  "go_sort lt [] = []"
| "go_sort lt (x # xs) = go_insert lt x (go_sort lt xs)"

lemma mset_go_insert [simp]: "mset (go_insert lt x xs) = add_mset x (mset xs)"
  by (induction xs) auto

lemma mset_go_sort [simp]: "mset (go_sort lt xs) = mset xs"
  by (induction xs) auto

lemma set_go_sort [simp]: "set (go_sort lt xs) = set xs"
  by (metis mset_go_sort set_mset_mset)

lemma length_go_sort [simp]: "length (go_sort lt xs) = length xs"
  by (metis mset_go_sort size_mset)

lemma distinct_go_sort [simp]: "distinct (go_sort lt xs) = distinct xs"
  by (metis mset_go_sort mset_eq_imp_distinct_iff)

context less_fn
begin

lemma sorted_go_insert:
  "sorted_wrt (\<lambda>x y. \<not> lt y x) xs \<Longrightarrow> sorted_wrt (\<lambda>x y. \<not> lt y x) (go_insert lt x xs)"
proof (induction xs)
  case Nil
  then show ?case by simp
next
  case (Cons y ys)
  show ?case
  proof (cases "lt y x")
    case True
    have "set (go_insert lt x ys) = insert x (set ys)"
      by (metis mset_go_insert set_mset_add_mset_insert set_mset_mset)
    with True Cons show ?thesis using less_asym by auto
  next
    case False
    with Cons.prems show ?thesis using not_less_trans by auto
  qed
qed

text \<open>Sorting is deterministic when the order separates the elements.\<close>

lemma sorted_perm_unique:
  assumes "mset xs = mset ys" and "sorted_wrt (\<lambda>x y. \<not> lt y x) xs" and "sorted_wrt (\<lambda>x y. \<not> lt y x) ys"
    and "\<And>x y. x \<in> set xs \<Longrightarrow> y \<in> set xs \<Longrightarrow> x \<noteq> y \<Longrightarrow> lt x y \<or> lt y x"
  shows "xs = ys"
  using assms
proof (induction xs arbitrary: ys)
  case Nil
  then show ?case by simp
next
  case (Cons x xs)
  then obtain y ys' where ys: "ys = y # ys'" by (cases ys) auto
  have set: "insert x (set xs) = insert y (set ys')"
    using Cons.prems(1) unfolding ys by (metis list.simps(15) set_mset_mset)
  have "x = y"
  proof (rule ccontr)
    assume ne: "x \<noteq> y"
    then have "y \<in> set xs" "x \<in> set ys'" using set by auto
    then have "\<not> lt y x" "\<not> lt x y" using Cons.prems(2,3) ys by auto
    then show False using Cons.prems(4) [of x y] ne \<open>y \<in> set xs\<close> by auto
  qed
  moreover have "xs = ys'"
    using Cons.prems \<open>x = y\<close> ys by (intro Cons.IH) auto
  ultimately show ?case using ys by simp
qed

lemma sorted_go_sort: "sorted_wrt (\<lambda>x y. \<not> lt y x) (go_sort lt xs)"
  by (induction xs) (auto intro: sorted_go_insert)

end

text \<open>A sorted list of distinct keys under a total strict order is determined by its set.\<close>

lemma sorted_wrt_unique:
  assumes "sorted_wrt (>) xs" and "sorted_wrt (>) ys" and "set xs = set (ys :: 'a :: linorder list)"
  shows "xs = ys"
proof -
  have "sorted_wrt (<) (rev xs)" and "sorted_wrt (<) (rev ys)"
    using assms(1,2) by (simp_all add: sorted_wrt_rev)
  then have "rev xs = rev ys"
    using assms(3) by (metis set_rev strict_sorted_equal)
  then show ?thesis by simp
qed

subsection \<open>Counting\<close>

definition count_if :: "('a \<Rightarrow> bool) \<Rightarrow> 'a list \<Rightarrow> int" where
  "count_if P xs = int (length (filter P xs))"

lemma count_if_Nil [simp]: "count_if P [] = 0"
  by (simp add: count_if_def)

lemma count_if_Cons [simp]: "count_if P (x # xs) = (if P x then 1 else 0) + count_if P xs"
  by (simp add: count_if_def)

lemma count_if_append [simp]: "count_if P (xs @ ys) = count_if P xs + count_if P ys"
  by (simp add: count_if_def)

lemma count_if_nonneg [simp]: "0 \<le> count_if P xs"
  by (simp add: count_if_def)

lemma count_if_le_length: "count_if P xs \<le> int (length xs)"
  by (simp add: count_if_def)

lemma count_if_cong: "(\<And>x. x \<in> set xs \<Longrightarrow> P x = Q x) \<Longrightarrow> count_if P xs = count_if Q xs"
  unfolding count_if_def by (metis filter_cong)

lemma count_if_mono: "(\<And>x. x \<in> set xs \<Longrightarrow> P x \<Longrightarrow> Q x) \<Longrightarrow> count_if P xs \<le> count_if Q xs"
  by (induction xs) force+

lemma count_if_mset: "mset xs = mset ys \<Longrightarrow> count_if P xs = count_if P ys"
  unfolding count_if_def by (metis mset_filter size_mset)

end
