(* ===== verification/Resource_Vector.thy ===== *)
theory Resource_Vector
  imports Kai_Prelude
begin

text \<open>
  Resource vectors, \<^verbatim>\<open>api/resource_info/resource_vector.go\<close>, \<^verbatim>\<open>float_comparison.go\<close> and
  \<^verbatim>\<open>common_info/resources/mig.go\<close>. A vector is a list of amounts, indexed through a
  \<open>ResourceVectorMap\<close>; reading past the end gives 0. The names of the Kubernetes core resources
  and the scheduler's own GPU resource name are constants of other modules: the record
  \<open>resource_consts\<close>, a parameter of the definitions that use them.

  The lemmas give the pointwise reading of addition, subtraction, maximum and comparison under
  zero padding, and the invariant of the index map.
\<close>

subsection \<open>Vectors\<close>

type_synonym ResourceVector = "float64 list"

definition CPUIndex :: int where "CPUIndex = 0"
definition MemoryIndex :: int where "MemoryIndex = 1"
definition GPUIndex :: int where "GPUIndex = 2"
definition PodsIndex :: int where "PodsIndex = 3"

definition Get :: "ResourceVector \<Rightarrow> int \<Rightarrow> float64" where
  "Get v index = (if index < 0 \<or> index \<ge> int (length v) then 0 else v ! nat index)"

definition Set :: "ResourceVector \<Rightarrow> int \<Rightarrow> float64 \<Rightarrow> ResourceVector" where
  "Set v index value = (if index \<ge> 0 \<and> index < int (length v) then v[nat index := value] else v)"

text \<open>The copy into a longer zeroed slice that \<open>Add\<close>, \<open>Sub\<close> and \<open>SetMax\<close> start with.\<close>

definition extended :: "ResourceVector \<Rightarrow> ResourceVector \<Rightarrow> ResourceVector" where
  "extended v other =
     (if length v < length other then v @ replicate (length other - length v) 0 else v)"

text \<open>\<^verbatim>\<open>for i := range other { (*v)[i] = f((*v)[i], other[i]) }\<close>.\<close>

fun update_prefix :: "(float64 \<Rightarrow> float64 \<Rightarrow> float64) \<Rightarrow> ResourceVector \<Rightarrow> ResourceVector \<Rightarrow> ResourceVector"
  where
  "update_prefix f (x # xs) (y # ys) = f x y # update_prefix f xs ys"
| "update_prefix f xs _ = xs"

definition Vector_Add :: "ResourceVector \<Rightarrow> ResourceVector \<Rightarrow> ResourceVector" where
  "Vector_Add v other = update_prefix (+) (extended v other) other"

definition Vector_Sub :: "ResourceVector \<Rightarrow> ResourceVector \<Rightarrow> ResourceVector" where
  "Vector_Sub v other = update_prefix (-) (extended v other) other"

definition SetMax :: "ResourceVector \<Rightarrow> ResourceVector \<Rightarrow> ResourceVector" where
  "SetMax v other = update_prefix (\<lambda>x y. if y > x then y else x) (extended v other) other"

fun Vector_LessEqual :: "ResourceVector \<Rightarrow> ResourceVector \<Rightarrow> bool" where
  "Vector_LessEqual (x # v) (y # other) = (if x > y then False else Vector_LessEqual v other)"
| "Vector_LessEqual v [] = (\<forall>x \<in> set v. \<not> x > 0)"
| "Vector_LessEqual [] other = (\<forall>y \<in> set other. \<not> y < 0)"

definition IsZero :: "ResourceVector \<Rightarrow> bool" where
  "IsZero v \<longleftrightarrow> (\<forall>val \<in> set v. val = 0)"

definition floatComparisonTolerance :: float64 where
  "floatComparisonTolerance = 1 / 1000000000"

definition LessOrEqualWithTolerance :: "float64 \<Rightarrow> float64 \<Rightarrow> bool" where
  "LessOrEqualWithTolerance quantity limit \<longleftrightarrow>
     quantity \<le> limit \<or> \<bar>quantity - limit\<bar> \<le> floatComparisonTolerance"

subsection \<open>MIG resource names\<close>

definition IsMigResource :: "string \<Rightarrow> bool" where
  "IsMigResource rName \<longleftrightarrow> take (length ''nvidia.com/mig-'') rName = ''nvidia.com/mig-''"

definition is_digit :: "char \<Rightarrow> bool" where
  "is_digit c \<longleftrightarrow> of_char c \<ge> (48 :: int) \<and> of_char c \<le> (57 :: int)"

text \<open>\<^verbatim>\<open>strconv.Atoi\<close> on a string of digits: an error beyond the 64-bit range.\<close>

definition Atoi_digits :: "string \<Rightarrow> int option" where
  "Atoi_digits ds =
     (let n = foldl (\<lambda>acc c. 10 * acc + (of_char c - 48)) 0 ds
      in if n < 2 ^ 63 then Some n else None)"

text \<open>
  The match of \<^verbatim>\<open>^nvidia.com/mig-(\d+)g\.(\d+)gb$\<close>; the unescaped dot of the pattern matches
  any character but a newline.
\<close>

definition match_mig :: "string \<Rightarrow> (string \<times> string) option" where
  "match_mig s =
     (let pre = take 6 s; dot = drop 6 s;
          mid = take 8 (drop 1 dot); rest = drop 8 (drop 1 dot);
          d1 = takeWhile is_digit rest; rest1 = dropWhile is_digit rest;
          d2 = takeWhile is_digit (drop 2 rest1); rest2 = dropWhile is_digit (drop 2 rest1)
      in if pre = ''nvidia'' \<and> dot \<noteq> [] \<and> hd dot \<noteq> CHR 0x0A \<and> mid = ''com/mig-'' \<and> d1 \<noteq> [] \<and>
            take 2 rest1 = ''g.'' \<and> d2 \<noteq> [] \<and> rest2 = ''gb''
         then Some (d1, d2) else None)"

definition ExtractGpuAndMemoryFromMigResourceName :: "string \<Rightarrow> (int \<times> int) option" where
  "ExtractGpuAndMemoryFromMigResourceName name =
     (case match_mig name of
        None \<Rightarrow> None
      | Some (d1, d2) \<Rightarrow>
          (case Atoi_digits d1 of
             None \<Rightarrow> None
           | Some gpu \<Rightarrow> (case Atoi_digits d2 of None \<Rightarrow> None | Some mem \<Rightarrow> Some (gpu, mem))))"

subsection \<open>The index map\<close>

record resource_consts =
  ResourceCPU :: string
  ResourceMemory :: string
  constants_GpuResource :: string
  ResourcePods :: string

record ResourceVectorMap =
  resourceNames :: "string list"
  namesToIndex :: "string \<rightharpoonup> int"

definition isGpuResource :: "resource_consts \<Rightarrow> string \<Rightarrow> bool" where
  "isGpuResource rc resourceName \<longleftrightarrow>
     resourceName = constants_GpuResource rc \<or> resourceName = ''nvidia.com/gpu'' \<or> resourceName = ''amd.com/gpu''"

definition normalizeResourceName :: "resource_consts \<Rightarrow> string \<Rightarrow> string" where
  "normalizeResourceName rc resourceName =
     (if isGpuResource rc resourceName then constants_GpuResource rc else resourceName)"

definition GetIndex :: "resource_consts \<Rightarrow> ResourceVectorMap \<Rightarrow> string \<Rightarrow> int" where
  "GetIndex rc m resourceName =
     (case namesToIndex m (normalizeResourceName rc resourceName) of Some idx \<Rightarrow> idx | None \<Rightarrow> -1)"

definition AddResource :: "resource_consts \<Rightarrow> ResourceVectorMap \<Rightarrow> string \<Rightarrow> ResourceVectorMap" where
  "AddResource rc m resourceName =
     (let name = normalizeResourceName rc resourceName
      in case namesToIndex m name of
           Some _ \<Rightarrow> m
         | None \<Rightarrow> m\<lparr>namesToIndex := (namesToIndex m)(name \<mapsto> int (length (resourceNames m))),
                     resourceNames := resourceNames m @ [name]\<rparr>)"

definition AddResourceList :: "resource_consts \<Rightarrow> ResourceVectorMap \<Rightarrow> string list \<Rightarrow> ResourceVectorMap"
  where
  "AddResourceList rc m resourceList = foldl (AddResource rc) m resourceList"

definition NewResourceVectorMap :: "resource_consts \<Rightarrow> ResourceVectorMap" where
  "NewResourceVectorMap rc =
     foldl (AddResource rc) \<lparr>resourceNames = [], namesToIndex = Map.empty\<rparr>
       [ResourceCPU rc, ResourceMemory rc, constants_GpuResource rc, ResourcePods rc]"

definition BuildResourceVectorMap :: "resource_consts \<Rightarrow> string list list \<Rightarrow> ResourceVectorMap" where
  "BuildResourceVectorMap rc nodeResources =
     foldl (AddResourceList rc) (NewResourceVectorMap rc) nodeResources"

definition Map_Len :: "ResourceVectorMap \<Rightarrow> int" where
  "Map_Len m = int (length (resourceNames m))"

definition ResourceAt :: "ResourceVectorMap \<Rightarrow> int \<Rightarrow> string" where
  "ResourceAt m index =
     (if index < 0 \<or> index \<ge> int (length (resourceNames m)) then '''' else resourceNames m ! nat index)"

definition NewResourceVector :: "ResourceVectorMap \<Rightarrow> ResourceVector" where
  "NewResourceVector indexMap = replicate (length (resourceNames indexMap)) 0"

definition NewSingleGpuVector :: "ResourceVectorMap \<Rightarrow> ResourceVector" where
  "NewSingleGpuVector indexMap = Set (NewResourceVector indexMap) GPUIndex 1"

definition NewResourceVectorWithValues ::
  "float64 \<Rightarrow> float64 \<Rightarrow> float64 \<Rightarrow> ResourceVectorMap \<Rightarrow> ResourceVector" where
  "NewResourceVectorWithValues milliCPU memory gpus indexMap =
     Set (Set (Set (NewResourceVector indexMap) CPUIndex milliCPU) MemoryIndex memory) GPUIndex gpus"

text \<open>\<open>convert\<close> stands for \<^verbatim>\<open>convertResourceToFloat64\<close> on Kubernetes quantities.\<close>

definition NewResourceVectorFromResourceList ::
  "resource_consts \<Rightarrow> (string \<Rightarrow> 'q \<Rightarrow> float64) \<Rightarrow> (string, 'q) gomap \<Rightarrow> ResourceVectorMap \<Rightarrow> ResourceVector"
  where
  "NewResourceVectorFromResourceList rc convert resourceList indexMap =
     foldl (\<lambda>vec (name, q).
              let idx = GetIndex rc indexMap name
              in if idx \<ge> 0 then Set vec idx (Get vec idx + convert name q) else vec)
           (NewResourceVector indexMap) resourceList"

definition TotalGPUs :: "ResourceVector \<Rightarrow> ResourceVectorMap \<Rightarrow> float64" where
  "TotalGPUs v indexMap =
     foldl (\<lambda>total i.
              let name = ResourceAt indexMap i
              in if \<not> IsMigResource name then total
                 else case ExtractGpuAndMemoryFromMigResourceName name of
                        None \<Rightarrow> total
                      | Some (gpuPortion, _) \<Rightarrow> total + of_int gpuPortion * Get v i)
           (Get v GPUIndex) [0 .. Map_Len indexMap - 1]"

definition ToResourceQuantities :: "ResourceVector \<Rightarrow> ResourceVectorMap \<Rightarrow> (string \<rightharpoonup> float64)" where
  "ToResourceQuantities v indexMap =
     foldl (\<lambda>result i. result(ResourceAt indexMap i \<mapsto> Get v i)) Map.empty [0 .. Map_Len indexMap - 1]"

subsection \<open>Pointwise laws\<close>

lemma update_prefix_length [simp]: "length (update_prefix f xs ys) = length xs"
  by (induction f xs ys rule: update_prefix.induct) auto

lemma update_prefix_nth:
  "i < length xs \<Longrightarrow> update_prefix f xs ys ! i = (if i < length ys then f (xs ! i) (ys ! i) else xs ! i)"
  by (induction f xs ys arbitrary: i rule: update_prefix.induct) (auto simp: nth_Cons split: nat.splits)

lemma length_extended [simp]: "length (extended v other) = max (length v) (length other)"
  by (simp add: extended_def)

lemma extended_nth: "i < max (length v) (length other) \<Longrightarrow> extended v other ! i = (if i < length v then v ! i else 0)"
  by (auto simp: extended_def nth_append)

lemma Get_outside [simp]: "i < 0 \<Longrightarrow> Get v i = 0" "int (length v) \<le> i \<Longrightarrow> Get v i = 0"
  by (simp_all add: Get_def)

lemma Get_update_extended:
  "Get (update_prefix f (extended v other) other) i =
     (if 0 \<le> i \<and> i < int (length other) then f (Get v i) (Get other i) else Get v i)"
  by (auto simp: Get_def update_prefix_nth extended_nth)

lemma Get_Add [simp]: "Get (Vector_Add v other) i = Get v i + Get other i"
  by (auto simp: Vector_Add_def Get_update_extended)

lemma Get_Sub [simp]: "Get (Vector_Sub v other) i = Get v i - Get other i"
  by (auto simp: Vector_Sub_def Get_update_extended)

lemma Get_SetMax:
  "Get (SetMax v other) i = (if 0 \<le> i \<and> i < int (length other) then max (Get v i) (Get other i) else Get v i)"
  by (auto simp: SetMax_def Get_update_extended)

lemma length_Vector_Add [simp]: "length (Vector_Add v other) = max (length v) (length other)"
  by (simp add: Vector_Add_def)

lemma length_Vector_Sub [simp]: "length (Vector_Sub v other) = max (length v) (length other)"
  by (simp add: Vector_Sub_def)

lemma length_Set [simp]: "length (Set v i x) = length v"
  by (simp add: Set_def)

lemma Get_Set: "Get (Set v i x) j = (if i = j \<and> 0 \<le> i \<and> i < int (length v) then x else Get v j)"
  by (auto simp: Get_def Set_def nth_list_update nat_eq_iff)

lemma Get_Cons: "Get (x # v) i = (if i = 0 then x else Get v (i - 1))"
  by (auto simp: Get_def nth_Cons' nat_diff_distrib')

lemma Get_Nil [simp]: "Get [] i = 0"
  by (simp add: Get_def)

lemma Get_NewResourceVector [simp]: "Get (NewResourceVector m) i = 0"
  by (auto simp: Get_def NewResourceVector_def)

lemma vector_eqI: "length v = length w \<Longrightarrow> (\<And>i. Get v i = Get w i) \<Longrightarrow> v = w"
proof (rule nth_equalityI)
  fix i assume "length v = length w" "\<And>i. Get v i = Get w i" "i < length v"
  then have "Get v (int i) = Get w (int i)" by blast
  with \<open>length v = length w\<close> \<open>i < length v\<close> show "v ! i = w ! i" by (simp add: Get_def)
qed simp

lemma all_Get_iff: "(\<forall>i. P (Get v i)) \<longleftrightarrow> P 0 \<and> (\<forall>x \<in> set v. P x)"
proof
  assume all: "\<forall>i. P (Get v i)"
  then have "P (Get v (-1))" by blast
  moreover have "P (v ! i)" if "i < length v" for i
    using spec [OF all, of "int i"] that by (simp add: Get_def)
  ultimately show "P 0 \<and> (\<forall>x \<in> set v. P x)" by (auto simp: in_set_conv_nth)
next
  assume "P 0 \<and> (\<forall>x \<in> set v. P x)"
  then show "\<forall>i. P (Get v i)" by (auto simp: Get_def)
qed

lemma Vector_LessEqual_pointwise: "Vector_LessEqual v w \<longleftrightarrow> (\<forall>i. Get v i \<le> Get w i)"
proof (induction v w rule: Vector_LessEqual.induct)
  case (1 x v y other)
  have "(\<forall>i. Get (x # v) i \<le> Get (y # other) i) \<longleftrightarrow> x \<le> y \<and> (\<forall>i. i \<noteq> 0 \<longrightarrow> Get v (i - 1) \<le> Get other (i - 1))"
    by (auto simp: Get_Cons)
  also have "(\<forall>i. i \<noteq> 0 \<longrightarrow> Get v (i - 1) \<le> Get other (i - 1)) \<longleftrightarrow> (\<forall>i. Get v i \<le> Get other i)"
  proof safe
    fix i :: int
    assume all: "\<forall>i. i \<noteq> 0 \<longrightarrow> Get v (i - 1) \<le> Get other (i - 1)"
    show "Get v i \<le> Get other i"
    proof (cases "i = -1")
      case False
      then show ?thesis using spec [OF all, of "i + 1"] by simp
    qed simp
  qed simp
  finally show ?case using 1 by auto
next
  case (2 v)
  then show ?case using all_Get_iff [of "\<lambda>z. z \<le> 0" v] by (simp add: not_less)
next
  case (3 y other)
  then show ?case using all_Get_iff [of "\<lambda>z. 0 \<le> z" "y # other"] by (simp add: not_less)
qed

lemma Sub_Add_cancel: "length other \<le> length v \<Longrightarrow> Vector_Sub (Vector_Add v other) other = v"
  by (rule vector_eqI) simp_all

lemma IsZero_iff: "IsZero v \<longleftrightarrow> (\<forall>i. Get v i = 0)"
  using all_Get_iff [of "\<lambda>x. x = 0" v] by (simp add: IsZero_def)

lemma foldl_mig:
  "foldl (\<lambda>total i. let name = ResourceAt m i
              in if \<not> IsMigResource name then total
                 else case ExtractGpuAndMemoryFromMigResourceName name of
                        None \<Rightarrow> total
                      | Some (gpuPortion, _) \<Rightarrow> total + of_int gpuPortion * Get v i) t is =
     t + (\<Sum>i\<leftarrow>is. (if \<not> IsMigResource (ResourceAt m i) then 0
             else case ExtractGpuAndMemoryFromMigResourceName (ResourceAt m i) of
                    None \<Rightarrow> 0 | Some (g, _) \<Rightarrow> of_int g) * Get v i)"
  by (induction "is" arbitrary: t) (auto simp: Let_def split: option.split)

text \<open>\<open>TotalGPUs\<close> is linear, so accounting by vectors and by totals agrees.\<close>

lemma TotalGPUs_Add [simp]: "TotalGPUs (Vector_Add v w) m = TotalGPUs v m + TotalGPUs w m"
  by (simp add: TotalGPUs_def foldl_mig distrib_left sum_list_addf)

lemma TotalGPUs_Sub [simp]: "TotalGPUs (Vector_Sub v w) m = TotalGPUs v m - TotalGPUs w m"
  by (simp add: TotalGPUs_def foldl_mig right_diff_distrib sum_list_subtractf)

subsection \<open>The index map invariant\<close>

definition wf_vmap :: "ResourceVectorMap \<Rightarrow> bool" where
  "wf_vmap m \<longleftrightarrow> distinct (resourceNames m) \<and>
     (\<forall>n i. namesToIndex m n = Some i \<longleftrightarrow>
        0 \<le> i \<and> i < int (length (resourceNames m)) \<and> resourceNames m ! nat i = n)"

lemma wf_vmap_names: "wf_vmap m \<Longrightarrow> n \<in> set (resourceNames m) \<longleftrightarrow> namesToIndex m n \<noteq> None"
proof
  assume wf: "wf_vmap m" and "n \<in> set (resourceNames m)"
  then obtain k where "k < length (resourceNames m)" "resourceNames m ! k = n"
    by (auto simp: in_set_conv_nth)
  then have "namesToIndex m n = Some (int k)" using wf by (simp add: wf_vmap_def)
  then show "namesToIndex m n \<noteq> None" by simp
qed (auto simp: wf_vmap_def)

lemma wf_vmap_AddResource [simp]: "wf_vmap m \<Longrightarrow> wf_vmap (AddResource rc m n)"
proof -
  assume wf: "wf_vmap m"
  define name where "name = normalizeResourceName rc n"
  show ?thesis
  proof (cases "namesToIndex m name")
    case None
    then have "name \<notin> set (resourceNames m)" using wf_vmap_names [OF wf] by simp
    then show ?thesis
      using wf None by (auto simp: AddResource_def wf_vmap_def nth_append Let_def simp flip: name_def)
  next
    case (Some i)
    then show ?thesis using wf by (simp add: AddResource_def Let_def name_def)
  qed
qed

lemma AddResource_prefix: "\<exists>ns. resourceNames (AddResource rc m n) = resourceNames m @ ns"
  by (simp add: AddResource_def Let_def split: option.split)

lemma AddResourceList_wf_prefix:
  "wf_vmap m \<Longrightarrow> wf_vmap (AddResourceList rc m ns) \<and>
     (\<exists>ms. resourceNames (AddResourceList rc m ns) = resourceNames m @ ms)"
proof (induction ns arbitrary: m)
  case Nil
  then show ?case by (simp add: AddResourceList_def)
next
  case (Cons n ns)
  have "wf_vmap (AddResource rc m n)" using Cons.prems by simp
  then obtain ms where IH: "wf_vmap (AddResourceList rc (AddResource rc m n) ns)"
    "resourceNames (AddResourceList rc (AddResource rc m n) ns) = resourceNames (AddResource rc m n) @ ms"
    using Cons.IH by blast
  moreover obtain ms' where "resourceNames (AddResource rc m n) = resourceNames m @ ms'"
    using AddResource_prefix by blast
  ultimately show ?case by (simp add: AddResourceList_def)
qed

lemma BuildResourceVectorMap_wf_prefix:
  "wf_vmap (NewResourceVectorMap rc) \<Longrightarrow> wf_vmap (BuildResourceVectorMap rc rls) \<and>
     (\<exists>ms. resourceNames (BuildResourceVectorMap rc rls) = resourceNames (NewResourceVectorMap rc) @ ms)"
  unfolding BuildResourceVectorMap_def
proof (induction rls rule: rev_induct)
  case (snoc ns rls)
  then show ?case
    using AddResourceList_wf_prefix [of "foldl (AddResourceList rc) (NewResourceVectorMap rc) rls" rc ns]
    by fastforce
qed simp

definition wf_consts :: "resource_consts \<Rightarrow> bool" where
  "wf_consts rc \<longleftrightarrow> distinct [ResourceCPU rc, ResourceMemory rc, constants_GpuResource rc, ResourcePods rc] \<and>
     \<not> isGpuResource rc (ResourceCPU rc) \<and> \<not> isGpuResource rc (ResourceMemory rc) \<and>
     \<not> isGpuResource rc (ResourcePods rc)"

lemma NewResourceVectorMap_names:
  "wf_consts rc \<Longrightarrow>
     resourceNames (NewResourceVectorMap rc) = [ResourceCPU rc, ResourceMemory rc, constants_GpuResource rc, ResourcePods rc]"
  by (auto simp: NewResourceVectorMap_def AddResource_def normalizeResourceName_def wf_consts_def
      isGpuResource_def Let_def)

lemma wf_NewResourceVectorMap [simp]: "wf_vmap (NewResourceVectorMap rc)"
proof -
  have "wf_vmap (foldl (AddResource rc) m ns)" if "wf_vmap m" for m ns
    using that by (induction ns arbitrary: m) auto
  moreover have "wf_vmap \<lparr>resourceNames = [], namesToIndex = Map.empty\<rparr>" by (simp add: wf_vmap_def)
  ultimately show ?thesis unfolding NewResourceVectorMap_def by blast
qed

lemma GetIndex_at:
  assumes "wf_vmap m" and "k < length (resourceNames m)"
    and "resourceNames m ! k = normalizeResourceName rc n"
  shows "GetIndex rc m n = int k"
proof -
  have "namesToIndex m (normalizeResourceName rc n) = Some (int k)"
    using assms by (simp add: wf_vmap_def)
  then show ?thesis by (simp add: GetIndex_def)
qed

end
