(* ===== verification/Resource_Share.thy ===== *)
theory Resource_Share
  imports Resource_Vector
begin

text \<open>
  Queue shares, \<^verbatim>\<open>plugins/proportion/resource_share\<close> (\<^verbatim>\<open>resource_quantities.go\<close>,
  \<^verbatim>\<open>resource_share.go\<close>, \<^verbatim>\<open>queue_resource_share.go\<close>, \<^verbatim>\<open>resource_share_defaults.go\<close>) and
  \<^verbatim>\<open>proportion/utils\<close>. A \<^verbatim>\<open>ResourceQuantities\<close> map is a function: reading a missing key gives
  0 in Go too. The constant \<^verbatim>\<open>UnlimitedResourceQuantity\<close> lives in another module
  (\<^verbatim>\<open>kai-scheduler/api/constants\<close>): it is the argument \<open>unl\<close>; the documentation gives -1.

  The lemmas characterise the comparison with tolerance and unlimited amounts, bound the
  requestable and allocatable share, and show that the caches of the fair and deserved share
  always agree with the fields they cache.
\<close>

subsection \<open>Resource quantities\<close>

datatype ResourceName = CpuResource | MemoryResource | GpuResource

type_synonym ResourceQuantities = "ResourceName \<Rightarrow> float64"

definition AllResources :: "ResourceName list" where
  "AllResources = [CpuResource, MemoryResource, GpuResource]"

fun NewResourceQuantities :: "float64 \<Rightarrow> float64 \<Rightarrow> float64 \<Rightarrow> ResourceQuantities" where
  "NewResourceQuantities cpuQty memoryQty gpuQty CpuResource = cpuQty"
| "NewResourceQuantities cpuQty memoryQty gpuQty MemoryResource = memoryQty"
| "NewResourceQuantities cpuQty memoryQty gpuQty GpuResource = gpuQty"

definition EmptyResourceQuantities :: ResourceQuantities where
  "EmptyResourceQuantities = NewResourceQuantities 0 0 0"

definition Quantities_Clone :: "ResourceQuantities \<Rightarrow> ResourceQuantities" where
  "Quantities_Clone rq = NewResourceQuantities (rq CpuResource) (rq MemoryResource) (rq GpuResource)"

definition Quantities_Add :: "ResourceQuantities \<Rightarrow> ResourceQuantities \<Rightarrow> ResourceQuantities" where
  "Quantities_Add rq other = fold (\<lambda>r q. q(r := q r + other r)) AllResources rq"

definition Quantities_Sub :: "ResourceQuantities \<Rightarrow> ResourceQuantities \<Rightarrow> ResourceQuantities" where
  "Quantities_Sub rq other = fold (\<lambda>r q. q(r := q r - other r)) AllResources rq"

definition Quantities_Less :: "ResourceQuantities \<Rightarrow> ResourceQuantities \<Rightarrow> bool" where
  "Quantities_Less rq other \<longleftrightarrow> list_all (\<lambda>r. \<not> rq r \<ge> other r) AllResources"

definition compareQuantities :: "float64 \<Rightarrow> float64 \<Rightarrow> float64 \<Rightarrow> int" where
  "compareQuantities unl quantity other =
     (if quantity = unl then (if other = unl then 0 else 1)
      else if other = unl then -1
      else if \<not> LessOrEqualWithTolerance quantity other then 1
      else if \<not> LessOrEqualWithTolerance other quantity then -1
      else 0)"

definition Quantities_LessEqual :: "float64 \<Rightarrow> ResourceQuantities \<Rightarrow> ResourceQuantities \<Rightarrow> bool" where
  "Quantities_LessEqual unl rq other \<longleftrightarrow>
     list_all (\<lambda>r. \<not> compareQuantities unl (rq r) (other r) > 0) AllResources"

definition LessInAtLeastOneResource :: "float64 \<Rightarrow> ResourceQuantities \<Rightarrow> ResourceQuantities \<Rightarrow> bool" where
  "LessInAtLeastOneResource unl rq other \<longleftrightarrow> \<not> Quantities_LessEqual unl other rq"

definition QuantifyVector :: "ResourceVector \<Rightarrow> ResourceVectorMap \<Rightarrow> ResourceQuantities" where
  "QuantifyVector vec vectorMap =
     NewResourceQuantities (Get vec CPUIndex) (Get vec MemoryIndex) (TotalGPUs vec vectorMap)"

subsection \<open>One resource of one queue\<close>

record ResourceShare =
  deserved :: float64
  fairShare :: float64
  maxAllowed :: float64
  overQuotaWeight :: float64
  allocated :: float64
  allocatedNotPreemptible :: float64
  request :: float64
  usage :: float64

definition EmptyResource :: ResourceShare where
  "EmptyResource = \<lparr>deserved = 0, fairShare = 0, maxAllowed = 0, overQuotaWeight = 0, allocated = 0,
     allocatedNotPreemptible = 0, request = 0, usage = 0\<rparr>"

definition GetRequestableShare :: "float64 \<Rightarrow> ResourceShare \<Rightarrow> float64" where
  "GetRequestableShare unl rs =
     (if maxAllowed rs = unl then request rs else min (maxAllowed rs) (request rs))"

definition GetAllocatableShare :: "float64 \<Rightarrow> ResourceShare \<Rightarrow> float64" where
  "GetAllocatableShare unl rs =
     (if deserved rs = unl then maxAllowed rs
      else let a = max (deserved rs) (fairShare rs)
           in if maxAllowed rs \<noteq> unl then min (maxAllowed rs) a else a)"

subsection \<open>The shares of one queue\<close>

record QueueResourceShare =
  CPU :: ResourceShare
  Memory :: ResourceShare
  GPU :: ResourceShare
  lastDeservedShare :: "ResourceQuantities option"
  lastFairShare :: "ResourceQuantities option"

fun ResourceShareOf :: "QueueResourceShare \<Rightarrow> ResourceName \<Rightarrow> ResourceShare" where
  "ResourceShareOf qrs CpuResource = CPU qrs"
| "ResourceShareOf qrs MemoryResource = Memory qrs"
| "ResourceShareOf qrs GpuResource = GPU qrs"

text \<open>A write through the pointer that \<^verbatim>\<open>ResourceShare(resource)\<close> returns.\<close>

fun upd_ResourceShare :: "ResourceName \<Rightarrow> (ResourceShare \<Rightarrow> ResourceShare) \<Rightarrow> QueueResourceShare \<Rightarrow> QueueResourceShare"
  where
  "upd_ResourceShare CpuResource f qrs = qrs\<lparr>CPU := f (CPU qrs)\<rparr>"
| "upd_ResourceShare MemoryResource f qrs = qrs\<lparr>Memory := f (Memory qrs)\<rparr>"
| "upd_ResourceShare GpuResource f qrs = qrs\<lparr>GPU := f (GPU qrs)\<rparr>"

definition buildResourceQuantities :: "QueueResourceShare \<Rightarrow> (ResourceShare \<Rightarrow> float64) \<Rightarrow> ResourceQuantities"
  where
  "buildResourceQuantities qrs f =
     fold (\<lambda>r q. q(r := f (ResourceShareOf qrs r))) AllResources (\<lambda>_. 0)"

definition GetAllocatableShares :: "float64 \<Rightarrow> QueueResourceShare \<Rightarrow> ResourceQuantities" where
  "GetAllocatableShares unl qrs = buildResourceQuantities qrs (GetAllocatableShare unl)"

definition GetFairShare :: "QueueResourceShare \<Rightarrow> ResourceQuantities \<times> QueueResourceShare" where
  "GetFairShare qrs =
     (case lastFairShare qrs of
        None \<Rightarrow> (let q = buildResourceQuantities qrs fairShare in (q, qrs\<lparr>lastFairShare := Some q\<rparr>))
      | Some q \<Rightarrow> (q, qrs))"

definition GetAllocatedShare :: "QueueResourceShare \<Rightarrow> ResourceQuantities" where
  "GetAllocatedShare qrs = buildResourceQuantities qrs allocated"

definition GetAllocatedNonPreemptible :: "QueueResourceShare \<Rightarrow> ResourceQuantities" where
  "GetAllocatedNonPreemptible qrs = buildResourceQuantities qrs allocatedNotPreemptible"

definition GetDeservedShare :: "QueueResourceShare \<Rightarrow> ResourceQuantities \<times> QueueResourceShare" where
  "GetDeservedShare qrs =
     (case lastDeservedShare qrs of
        None \<Rightarrow> (let q = buildResourceQuantities qrs deserved in (q, qrs\<lparr>lastDeservedShare := Some q\<rparr>))
      | Some q \<Rightarrow> (q, qrs))"

definition GetMaxAllowedShare :: "QueueResourceShare \<Rightarrow> ResourceQuantities" where
  "GetMaxAllowedShare qrs = buildResourceQuantities qrs maxAllowed"

definition GetRequestableShares :: "float64 \<Rightarrow> QueueResourceShare \<Rightarrow> ResourceQuantities" where
  "GetRequestableShares unl qrs = buildResourceQuantities qrs (GetRequestableShare unl)"

definition GetRequestShare :: "QueueResourceShare \<Rightarrow> ResourceQuantities" where
  "GetRequestShare qrs = buildResourceQuantities qrs request"

definition FairShareLessThanAllocated :: "QueueResourceShare \<Rightarrow> bool" where
  "FairShareLessThanAllocated qrs \<longleftrightarrow>
     list_all (\<lambda>r. \<not> fairShare (ResourceShareOf qrs r) \<ge> allocated (ResourceShareOf qrs r)) AllResources"

text \<open>\<open>None\<close> stands for a nil \<^verbatim>\<open>*ResourceVectorMap\<close>.\<close>

fun ResourceQuantityFromVector :: "ResourceName \<Rightarrow> ResourceVector \<Rightarrow> ResourceVectorMap option \<Rightarrow> float64"
  where
  "ResourceQuantityFromVector CpuResource resources vectorMap = Get resources CPUIndex"
| "ResourceQuantityFromVector MemoryResource resources vectorMap = Get resources MemoryIndex"
| "ResourceQuantityFromVector GpuResource resources vectorMap =
     (case vectorMap of None \<Rightarrow> Get resources GPUIndex | Some m \<Rightarrow> TotalGPUs resources m)"

definition AllocatedPlusResourcesLessEqualDeserved ::
  "float64 \<Rightarrow> QueueResourceShare \<Rightarrow> ResourceVector \<Rightarrow> ResourceVectorMap option \<Rightarrow> bool" where
  "AllocatedPlusResourcesLessEqualDeserved unl qrs resources vectorMap \<longleftrightarrow>
     list_all (\<lambda>r. let share = ResourceShareOf qrs r;
                       a = allocated share + ResourceQuantityFromVector r resources vectorMap
                   in \<not> compareQuantities unl a (deserved share) > 0) AllResources"

definition QuantitiesLessEqualAllocatable :: "float64 \<Rightarrow> QueueResourceShare \<Rightarrow> ResourceQuantities \<Rightarrow> bool"
  where
  "QuantitiesLessEqualAllocatable unl qrs quantities \<longleftrightarrow>
     list_all (\<lambda>r. \<not> compareQuantities unl (quantities r)
                       (GetAllocatableShare unl (ResourceShareOf qrs r)) > 0) AllResources"

definition noFairShareDrfMultiplier :: float64 where
  "noFairShareDrfMultiplier = 1000"

definition dominantValue :: "float64 \<Rightarrow> ResourceQuantities \<Rightarrow> QueueResourceShare \<Rightarrow> ResourceName \<Rightarrow> float64"
  where
  "dominantValue unl totalResources qrs r =
     (let share = ResourceShareOf qrs r;
          a0 = GetAllocatableShare unl share;
          a = (if a0 = unl then totalResources r else a0)
      in if a = 0 then allocated share * noFairShareDrfMultiplier else allocated share / a)"

definition GetDominantResourceShare :: "float64 \<Rightarrow> QueueResourceShare \<Rightarrow> ResourceQuantities \<Rightarrow> float64"
  where
  "GetDominantResourceShare unl qrs totalResources =
     fold (\<lambda>r d. max d (dominantValue unl totalResources qrs r)) AllResources 0"

definition AddResourceShare :: "ResourceName \<Rightarrow> float64 \<Rightarrow> QueueResourceShare \<Rightarrow> QueueResourceShare" where
  "AddResourceShare resource amount qrs =
     (upd_ResourceShare resource (\<lambda>rs. rs\<lparr>fairShare := fairShare rs + amount\<rparr>) qrs)\<lparr>lastFairShare := None\<rparr>"

definition SetQuotaResources ::
  "ResourceName \<Rightarrow> float64 \<Rightarrow> float64 \<Rightarrow> float64 \<Rightarrow> QueueResourceShare \<Rightarrow> QueueResourceShare" where
  "SetQuotaResources resource d m w qrs =
     (upd_ResourceShare resource (\<lambda>rs. rs\<lparr>deserved := d, maxAllowed := m, overQuotaWeight := w\<rparr>) qrs)
       \<lparr>lastDeservedShare := None\<rparr>"

definition SetResourceUsage :: "(ResourceName \<Rightarrow> float64) \<Rightarrow> QueueResourceShare \<Rightarrow> QueueResourceShare" where
  "SetResourceUsage u qrs =
     upd_ResourceShare MemoryResource (\<lambda>rs. rs\<lparr>usage := u MemoryResource\<rparr>)
       (upd_ResourceShare CpuResource (\<lambda>rs. rs\<lparr>usage := u CpuResource\<rparr>)
          (upd_ResourceShare GpuResource (\<lambda>rs. rs\<lparr>usage := u GpuResource\<rparr>) qrs))"

subsection \<open>Queues\<close>

record QueueAttributes =
  UID :: QueueID
  QueueName :: string
  DisplayName :: string
  ParentQueue :: QueueID
  ChildQueues :: "QueueID list"
  CreationTimestamp :: int
  Priority :: int
  QShare :: QueueResourceShare

definition IsTopQueue :: "QueueAttributes \<Rightarrow> bool" where
  "IsTopQueue q \<longleftrightarrow> ParentQueue q = ''''"

definition queue_share :: "QueueAttributes \<Rightarrow> ResourceName \<Rightarrow> ResourceShare" where
  "queue_share q r = ResourceShareOf (QShare q) r"

subsection \<open>Defaults for simulated queues\<close>

record ResourceShareOverrides =
  o_Deserved :: "float64 option"
  o_FairShare :: "float64 option"
  o_MaxAllowed :: "float64 option"
  o_OverQuotaWeight :: "float64 option"
  o_Allocated :: "float64 option"
  o_AllocatedNotPreemptible :: "float64 option"
  o_Request :: "float64 option"

definition emptyOverrides :: ResourceShareOverrides where
  "emptyOverrides = \<lparr>o_Deserved = None, o_FairShare = None, o_MaxAllowed = None, o_OverQuotaWeight = None,
     o_Allocated = None, o_AllocatedNotPreemptible = None, o_Request = None\<rparr>"

definition orElse :: "'a option \<Rightarrow> 'a \<Rightarrow> 'a" where
  "orElse ov d = (case ov of None \<Rightarrow> d | Some x \<Rightarrow> x)"

definition defaultRequest :: float64 where
  "defaultRequest = 100000"

definition Overrides_ResourceShare :: "float64 \<Rightarrow> ResourceShareOverrides \<Rightarrow> ResourceShare" where
  "Overrides_ResourceShare unl r =
     \<lparr>deserved = orElse (o_Deserved r) 0, fairShare = orElse (o_FairShare r) 0,
      maxAllowed = orElse (o_MaxAllowed r) unl, overQuotaWeight = orElse (o_OverQuotaWeight r) 1,
      allocated = orElse (o_Allocated r) 0,
      allocatedNotPreemptible = orElse (o_AllocatedNotPreemptible r) 0,
      request = orElse (o_Request r) defaultRequest, usage = 0\<rparr>"

record QueueResourceShareOverrides =
  o_GPU :: "ResourceShareOverrides option"
  o_CPU :: "ResourceShareOverrides option"
  o_Memory :: "ResourceShareOverrides option"

definition QueueOverrides_ResourceShare :: "float64 \<Rightarrow> QueueResourceShareOverrides \<Rightarrow> QueueResourceShare" where
  "QueueOverrides_ResourceShare unl q =
     (let gpu = orElse (o_GPU q) emptyOverrides;
          cpu = orElse (o_CPU q) (emptyOverrides\<lparr>o_Deserved := Some unl\<rparr>);
          mem = orElse (o_Memory q) (emptyOverrides\<lparr>o_Deserved := Some unl\<rparr>)
      in \<lparr>CPU = Overrides_ResourceShare unl cpu, Memory = Overrides_ResourceShare unl mem,
          GPU = Overrides_ResourceShare unl gpu, lastDeservedShare = None, lastFairShare = None\<rparr>)"

record QueueOverrides =
  o_UID :: QueueID
  o_Name :: string
  o_ParentQueue :: QueueID
  o_ChildQueues :: "QueueID list"
  o_CreationTimestamp :: "string option"
  o_Priority :: "int option"
  o_ResourceShare :: QueueResourceShareOverrides

text \<open>\<open>parse\<close> is \<^verbatim>\<open>time.Parse(time.RFC3339, _)\<close> and \<open>now\<close> the clock reading.\<close>

definition ToQueueAttributes :: "float64 \<Rightarrow> (string \<Rightarrow> int option) \<Rightarrow> int \<Rightarrow> QueueOverrides \<Rightarrow> QueueAttributes" where
  "ToQueueAttributes unl parse now qo =
     \<lparr>UID = o_UID qo, QueueName = o_Name qo, DisplayName = '''', ParentQueue = o_ParentQueue qo,
      ChildQueues = o_ChildQueues qo,
      CreationTimestamp =
        (case o_CreationTimestamp qo of
           None \<Rightarrow> now | Some s \<Rightarrow> (case parse s of Some t \<Rightarrow> t | None \<Rightarrow> now)),
      Priority = orElse (o_Priority qo) 0,
      QShare = QueueOverrides_ResourceShare unl (o_ResourceShare qo)\<rparr>"

subsection \<open>Laws of quantities\<close>

lemma all_resources: "(\<forall>r. P r) \<longleftrightarrow> P CpuResource \<and> P MemoryResource \<and> P GpuResource"
  by (metis ResourceName.exhaust)

lemma list_all_AllResources [simp]: "list_all P AllResources \<longleftrightarrow> (\<forall>r. P r)"
  by (simp add: AllResources_def all_resources)

lemma Quantities_Add_apply [simp]: "Quantities_Add p q r = p r + q r"
  by (cases r) (simp_all add: Quantities_Add_def AllResources_def)

lemma Quantities_Sub_apply [simp]: "Quantities_Sub p q r = p r - q r"
  by (cases r) (simp_all add: Quantities_Sub_def AllResources_def)

lemma EmptyResourceQuantities_apply [simp]: "EmptyResourceQuantities r = 0"
  by (cases r) (simp_all add: EmptyResourceQuantities_def)

lemma Quantities_Clone_id [simp]: "Quantities_Clone q = q"
  unfolding fun_eq_iff all_resources by (simp add: Quantities_Clone_def)

lemma buildResourceQuantities_apply [simp]: "buildResourceQuantities qrs f r = f (ResourceShareOf qrs r)"
  by (cases r) (simp_all add: buildResourceQuantities_def AllResources_def)

lemma ResourceShareOf_upd [simp]:
  "ResourceShareOf (upd_ResourceShare r f qrs) r' = (if r = r' then f (ResourceShareOf qrs r') else ResourceShareOf qrs r')"
  by (cases r; cases r') auto

lemma upd_ResourceShare_cache [simp]:
  "lastFairShare (upd_ResourceShare r f qrs) = lastFairShare qrs"
  "lastDeservedShare (upd_ResourceShare r f qrs) = lastDeservedShare qrs"
  by (cases r; simp)+

lemma ResourceShareOf_cache [simp]:
  "ResourceShareOf (qrs\<lparr>lastFairShare := c\<rparr>) r = ResourceShareOf qrs r"
  "ResourceShareOf (qrs\<lparr>lastDeservedShare := c\<rparr>) r = ResourceShareOf qrs r"
  by (cases r; simp)+

lemma tolerance_nonneg: "0 \<le> floatComparisonTolerance"
  by (simp add: floatComparisonTolerance_def)

lemma LessOrEqualWithTolerance_iff: "LessOrEqualWithTolerance a b \<longleftrightarrow> a \<le> b + floatComparisonTolerance"
  using tolerance_nonneg by (auto simp: LessOrEqualWithTolerance_def)

text \<open>An unlimited amount is above every limited one; limited amounts compare up to the tolerance.\<close>

definition quantity_le :: "float64 \<Rightarrow> float64 \<Rightarrow> float64 \<Rightarrow> bool" where
  "quantity_le unl a b \<longleftrightarrow> b = unl \<or> a \<noteq> unl \<and> a \<le> b + floatComparisonTolerance"

lemma compareQuantities_pos: "\<not> compareQuantities unl a b > 0 \<longleftrightarrow> quantity_le unl a b"
  by (simp add: compareQuantities_def quantity_le_def LessOrEqualWithTolerance_iff)

lemma compareQuantities_flip: "compareQuantities unl b a = - compareQuantities unl a b"
  using tolerance_nonneg by (auto simp: compareQuantities_def LessOrEqualWithTolerance_iff)

lemma Quantities_LessEqual_iff: "Quantities_LessEqual unl p q \<longleftrightarrow> (\<forall>r. quantity_le unl (p r) (q r))"
  by (simp add: Quantities_LessEqual_def compareQuantities_pos)

lemma quantity_le_refl [simp]: "quantity_le unl a a"
  using tolerance_nonneg by (simp add: quantity_le_def)

lemma QuantifyVector_apply: "QuantifyVector v m r = ResourceQuantityFromVector r v (Some m)"
  by (cases r) (simp_all add: QuantifyVector_def)

lemma QuantifyVector_Add: "QuantifyVector (Vector_Add v w) m r = QuantifyVector v m r + QuantifyVector w m r"
  by (cases r) (simp_all add: QuantifyVector_def)

lemma AllocatedPlusResourcesLessEqualDeserved_iff:
  "AllocatedPlusResourcesLessEqualDeserved unl qrs v m \<longleftrightarrow>
     (\<forall>r. quantity_le unl (allocated (ResourceShareOf qrs r) + ResourceQuantityFromVector r v m)
           (deserved (ResourceShareOf qrs r)))"
  by (simp add: AllocatedPlusResourcesLessEqualDeserved_def compareQuantities_pos Let_def)

lemma QuantitiesLessEqualAllocatable_iff:
  "QuantitiesLessEqualAllocatable unl qrs q \<longleftrightarrow>
     (\<forall>r. quantity_le unl (q r) (GetAllocatableShare unl (ResourceShareOf qrs r)))"
  by (simp add: QuantitiesLessEqualAllocatable_def compareQuantities_pos)

subsection \<open>Shares stay within limits\<close>

lemma requestable_le_request: "GetRequestableShare unl rs \<le> request rs"
  by (simp add: GetRequestableShare_def)

lemma requestable_le_limit: "maxAllowed rs \<noteq> unl \<Longrightarrow> GetRequestableShare unl rs \<le> maxAllowed rs"
  by (simp add: GetRequestableShare_def)

lemma requestable_fairShare [simp]: "GetRequestableShare unl (rs\<lparr>fairShare := x\<rparr>) = GetRequestableShare unl rs"
  by (simp add: GetRequestableShare_def)

lemma allocatable_le_limit: "maxAllowed rs \<noteq> unl \<Longrightarrow> GetAllocatableShare unl rs \<le> maxAllowed rs"
  by (simp add: GetAllocatableShare_def Let_def)

subsection \<open>The caches\<close>

definition cache_ok :: "QueueResourceShare \<Rightarrow> bool" where
  "cache_ok qrs \<longleftrightarrow>
     (\<forall>q. lastFairShare qrs = Some q \<longrightarrow> q = buildResourceQuantities qrs fairShare) \<and>
     (\<forall>q. lastDeservedShare qrs = Some q \<longrightarrow> q = buildResourceQuantities qrs deserved)"

lemma build_cong:
  "(\<And>r. f (ResourceShareOf p r) = f (ResourceShareOf q r)) \<Longrightarrow>
     buildResourceQuantities p f = buildResourceQuantities q f"
  by (simp add: fun_eq_iff)

lemma cache_ok_GetFairShare: "cache_ok qrs \<Longrightarrow> cache_ok (snd (GetFairShare qrs))"
  by (auto simp: cache_ok_def GetFairShare_def Let_def fun_eq_iff split: option.split)

lemma cache_ok_GetDeservedShare: "cache_ok qrs \<Longrightarrow> cache_ok (snd (GetDeservedShare qrs))"
  by (auto simp: cache_ok_def GetDeservedShare_def Let_def fun_eq_iff split: option.split)

lemma cache_ok_AddResourceShare: "cache_ok qrs \<Longrightarrow> cache_ok (AddResourceShare r x qrs)"
  by (auto simp: cache_ok_def AddResourceShare_def fun_eq_iff)

lemma cache_ok_SetQuotaResources: "cache_ok qrs \<Longrightarrow> cache_ok (SetQuotaResources r d m w qrs)"
  by (auto simp: cache_ok_def SetQuotaResources_def fun_eq_iff)

lemma cache_ok_SetResourceUsage: "cache_ok qrs \<Longrightarrow> cache_ok (SetResourceUsage u qrs)"
  unfolding cache_ok_def SetResourceUsage_def fun_eq_iff all_resources by auto

text \<open>Writes to fields that are not cached need no invalidation.\<close>

lemma cache_ok_upd_uncached:
  "cache_ok qrs \<Longrightarrow> (\<And>rs. fairShare (f rs) = fairShare rs \<and> deserved (f rs) = deserved rs) \<Longrightarrow>
     cache_ok (upd_ResourceShare r f qrs)"
  by (simp add: cache_ok_def fun_eq_iff)

lemma GetFairShare_value: "cache_ok qrs \<Longrightarrow> fst (GetFairShare qrs) = buildResourceQuantities qrs fairShare"
  by (auto simp: cache_ok_def GetFairShare_def Let_def split: option.split)

lemma GetDeservedShare_value:
  "cache_ok qrs \<Longrightarrow> fst (GetDeservedShare qrs) = buildResourceQuantities qrs deserved"
  by (auto simp: cache_ok_def GetDeservedShare_def Let_def split: option.split)

lemmas cache_ok_ops =
  cache_ok_GetFairShare cache_ok_GetDeservedShare cache_ok_AddResourceShare
  cache_ok_SetQuotaResources cache_ok_SetResourceUsage

lemma AddResourceShare_sel [simp]:
  "ResourceShareOf (AddResourceShare r x qrs) r' =
     (if r = r' then (ResourceShareOf qrs r')\<lparr>fairShare := fairShare (ResourceShareOf qrs r') + x\<rparr>
      else ResourceShareOf qrs r')"
  by (simp add: AddResourceShare_def)

lemma dominant_share_ge: "dominantValue unl tot qrs r \<le> GetDominantResourceShare unl qrs tot"
  by (cases r) (simp_all add: GetDominantResourceShare_def AllResources_def)

lemma dominant_share_cases:
  "GetDominantResourceShare unl qrs tot = 0 \<or> (\<exists>r. GetDominantResourceShare unl qrs tot = dominantValue unl tot qrs r)"
  by (simp add: GetDominantResourceShare_def AllResources_def max_def) blast

end
