(* ===== verification/Queue_Tree.thy ===== *)
theory Queue_Tree
  imports Resource_Share
begin

text \<open>
  The queue hierarchy: \<^verbatim>\<open>api/queue_info\<close>, \<^verbatim>\<open>cache/cluster_info/queue.go\<close> and the loop
  \<^verbatim>\<open>for queue, ok := queues[id]; ok; queue, ok = queues[queue.ParentQueue]\<close> that the proportion plugin, the
  capacity policy and the reclaim check all use to climb from a queue to the top.

  A queue object of the Kubernetes API is the record \<open>QueueCR\<close> of the fields the code reads. The maps of
  queues are association lists from queue ids to the objects the Go maps point to, so a write through the
  pointer is an update of the entry. \<open>parentWalk\<close> is the loop: \<open>None\<close> means that it does not return. The
  locale \<open>parent_walk\<close> holds what a loop body may do; there, the loop is shown to return on every chain of
  queues that ends, with the value of a plain iteration over the chain.

  The main lemmas: a chain is unique and duplicate-free, a queue without a chain makes every loop without
  an early exit diverge, and \<open>UpdateQueueHierarchy\<close> returns and leaves exactly the queues none of whose
  ancestors is missing.
\<close>

subsection \<open>Queues of the snapshot\<close>

record ResourceQuota =
  Quota :: float64
  OverQuotaWeight :: float64
  Limit :: float64

record QueueQuota =
  quota_GPU :: ResourceQuota
  quota_CPU :: ResourceQuota
  quota_Memory :: ResourceQuota

record QueueInfo =
  qi_UID :: QueueID
  qi_Name :: string
  qi_DisplayName :: string
  qi_ParentQueue :: QueueID
  qi_ChildQueues :: "QueueID list"
  qi_Resources :: QueueQuota
  qi_ResourceUsage :: "ResourceName \<Rightarrow> float64"
  qi_Priority :: int
  qi_CreationTimestamp :: int
  qi_PreemptMinRuntime :: "int option"
  qi_ReclaimMinRuntime :: "int option"

record QueueCR =
  cr_Name :: string
  cr_CreationTimestamp :: int
  cr_DisplayName :: string
  cr_ParentQueue :: string
  cr_Resources :: "QueueQuota option"
  cr_Priority :: "int option"
  cr_PreemptMinRuntime :: "int option"
  cr_ReclaimMinRuntime :: "int option"

definition noQuota :: ResourceQuota where
  "noQuota = \<lparr>Quota = 0, OverQuotaWeight = 0, Limit = 0\<rparr>"

definition getQueueQuota :: "QueueCR \<Rightarrow> QueueQuota" where
  "getQueueQuota q =
     (case cr_Resources q of
        None \<Rightarrow> \<lparr>quota_GPU = noQuota, quota_CPU = noQuota, quota_Memory = noQuota\<rparr>
      | Some res \<Rightarrow> \<lparr>quota_GPU = quota_GPU res, quota_CPU = quota_CPU res, quota_Memory = quota_Memory res\<rparr>)"

text \<open>\<open>defaultQueuePriority\<close> is \<^verbatim>\<open>commonconstants.DefaultQueuePriority\<close> of the module \<^verbatim>\<open>kai-scheduler/api\<close>.\<close>

definition NewQueueInfo :: "int \<Rightarrow> QueueCR \<Rightarrow> QueueInfo" where
  "NewQueueInfo defaultQueuePriority q =
     \<lparr>qi_UID = cr_Name q,
      qi_Name = (if cr_DisplayName q \<noteq> '''' then cr_DisplayName q else cr_Name q),
      qi_DisplayName = cr_DisplayName q,
      qi_ParentQueue = cr_ParentQueue q,
      qi_ChildQueues = [],
      qi_Resources = getQueueQuota q,
      qi_ResourceUsage = (\<lambda>_. 0),
      qi_Priority = (case cr_Priority q of None \<Rightarrow> defaultQueuePriority | Some p \<Rightarrow> p),
      qi_CreationTimestamp = cr_CreationTimestamp q,
      qi_PreemptMinRuntime = cr_PreemptMinRuntime q,
      qi_ReclaimMinRuntime = cr_ReclaimMinRuntime q\<rparr>"

definition IsLeafQueue :: "QueueInfo \<Rightarrow> bool" where
  "IsLeafQueue q \<longleftrightarrow> length (qi_ChildQueues q) = 0"

definition AddChildQueue :: "QueueID \<Rightarrow> QueueInfo \<Rightarrow> QueueInfo" where
  "AddChildQueue child q =
     (if child \<in> set (qi_ChildQueues q) then q else q\<lparr>qi_ChildQueues := qi_ChildQueues q @ [child]\<rparr>)"

subsection \<open>Listing the queues\<close>

datatype FairnessLevelType = FullFairness | ProjectLevelFairness

definition defaultQueueName :: string where
  "defaultQueueName = ''default''"

definition getDefaultParentQueue :: "int \<Rightarrow> int \<Rightarrow> QueueInfo" where
  "getDefaultParentQueue defaultQueuePriority now =
     (let unlimited = \<lparr>Quota = - 1, OverQuotaWeight = 1, Limit = - 1\<rparr>
      in NewQueueInfo defaultQueuePriority
           \<lparr>cr_Name = defaultQueueName, cr_CreationTimestamp = now, cr_DisplayName = '''', cr_ParentQueue = '''',
            cr_Resources = Some \<lparr>quota_GPU = unlimited, quota_CPU = unlimited, quota_Memory = unlimited\<rparr>,
            cr_Priority = None, cr_PreemptMinRuntime = None, cr_ReclaimMinRuntime = None\<rparr>)"

text \<open>\<open>listed\<close> is the answer of \<^verbatim>\<open>dataLister.ListQueues\<close>, \<open>Inl\<close> its error.\<close>

definition snapshotQueues ::
  "int \<Rightarrow> int \<Rightarrow> FairnessLevelType \<Rightarrow> string + QueueCR list \<Rightarrow> string + (QueueID, QueueInfo) gomap" where
  "snapshotQueues defaultQueuePriority now fairnessLevelType listed =
     (case listed of
        Inl err \<Rightarrow> Inl (''error listing queues: '' @ err)
      | Inr crs \<Rightarrow> Inr (
          case fairnessLevelType of
            FullFairness \<Rightarrow>
              fold (\<lambda>q m. let qi = NewQueueInfo defaultQueuePriority q in AList.update (qi_UID qi) qi m) crs []
          | ProjectLevelFairness \<Rightarrow>
              (let d = getDefaultParentQueue defaultQueuePriority now
               in fold (\<lambda>q m. if length (cr_ParentQueue q) > 0
                        then let qi = NewQueueInfo defaultQueuePriority (q\<lparr>cr_ParentQueue := defaultQueueName\<rparr>)
                             in AList.update (qi_UID qi) qi m
                        else m) crs [(qi_UID d, d)])))"

subsection \<open>Children and orphans\<close>

definition updateQueueChildren :: "(QueueID, QueueInfo) gomap \<Rightarrow> (QueueID, QueueInfo) gomap" where
  "updateQueueChildren queues =
     fold (\<lambda>queueId m.
         case map_of m queueId of
           None \<Rightarrow> m
         | Some q \<Rightarrow>
             if qi_ParentQueue q \<noteq> ''''
             then (case map_of m (qi_ParentQueue q) of
                     Some parent \<Rightarrow> AList.update (qi_ParentQueue q) (AddChildQueue queueId parent) m
                   | None \<Rightarrow> m)
             else m)
       (gokeys queues) queues"

text \<open>\<open>deleteQueues\<close> runs \<^verbatim>\<open>deleteQueueAndChildren\<close> on a list of ids, one after the other: the recursive call
  on a queue is the loop over its children followed by the removal of the queue itself.\<close>

partial_function (option) deleteQueues ::
  "(QueueID, QueueInfo) gomap \<Rightarrow> QueueID list \<Rightarrow> (QueueID, QueueInfo) gomap option" where
  "deleteQueues queues ids =
     (case ids of
        [] \<Rightarrow> Some queues
      | queueID # rest \<Rightarrow>
          (case map_of queues queueID of
             None \<Rightarrow> deleteQueues queues rest
           | Some q \<Rightarrow>
               Option.bind (deleteQueues queues (qi_ChildQueues q)) (\<lambda>m.
                 deleteQueues (AList.delete queueID m) rest)))"

definition deleteQueueAndChildren :: "(QueueID, QueueInfo) gomap \<Rightarrow> QueueID \<Rightarrow> (QueueID, QueueInfo) gomap option" where
  "deleteQueueAndChildren queues queueID = deleteQueues queues [queueID]"

text \<open>The loop of \<^verbatim>\<open>cleanQueueOrphans\<close> over the keys \<open>ids\<close>: an entry deleted during the loop is not visited.\<close>

fun cleanOrphansLoop :: "QueueID list \<Rightarrow> (QueueID, QueueInfo) gomap \<Rightarrow> (QueueID, QueueInfo) gomap option" where
  "cleanOrphansLoop [] queues = Some queues"
| "cleanOrphansLoop (queueId # ids) queues =
     (case map_of queues queueId of
        None \<Rightarrow> cleanOrphansLoop ids queues
      | Some q \<Rightarrow>
          if qi_ParentQueue q \<noteq> '''' \<and> map_of queues (qi_ParentQueue q) = None
          then Option.bind (deleteQueueAndChildren queues queueId) (cleanOrphansLoop ids)
          else cleanOrphansLoop ids queues)"

definition cleanQueueOrphans :: "(QueueID, QueueInfo) gomap \<Rightarrow> (QueueID, QueueInfo) gomap option" where
  "cleanQueueOrphans queues = cleanOrphansLoop (gokeys queues) queues"

definition UpdateQueueHierarchy :: "(QueueID, QueueInfo) gomap \<Rightarrow> (QueueID, QueueInfo) gomap option" where
  "UpdateQueueHierarchy queues = cleanQueueOrphans (updateQueueChildren queues)"

subsection \<open>Climbing the hierarchy\<close>

text \<open>The loop \<^verbatim>\<open>for queue, ok := queues[id]; ok; queue, ok = queues[queue.ParentQueue]\<close>. The state \<open>s\<close> is what
  the body changes (\<open>lk s\<close> is the map \<^verbatim>\<open>queues\<close>); \<open>Inr\<close> is a \<^verbatim>\<open>return\<close> inside the body.\<close>

partial_function (option) parentWalk ::
  "('s \<Rightarrow> QueueID \<Rightarrow> 'q option) \<Rightarrow> ('q \<Rightarrow> QueueID) \<Rightarrow> (QueueID \<Rightarrow> 'q \<Rightarrow> 's \<Rightarrow> 's + 'r) \<Rightarrow> QueueID \<Rightarrow> 's \<Rightarrow> ('s + 'r) option"
  where
  "parentWalk lk parent body queueId s =
     (case lk s queueId of
        None \<Rightarrow> Some (Inl s)
      | Some q \<Rightarrow>
          (case body queueId q s of
             Inr r \<Rightarrow> Some (Inr r)
           | Inl s' \<Rightarrow> parentWalk lk parent body (parent q) s'))"

declare parentWalk.simps [code] deleteQueues.simps [code]

text \<open>The chain of a queue: the queue, its parent, its parent's parent and so on, up to a queue whose parent is
  not in the map (a top queue has the parent \<open>''''\<close>). \<open>par\<close> gives the parent of each queue of the map.\<close>

fun queue_chain :: "(QueueID \<Rightarrow> QueueID option) \<Rightarrow> QueueID \<Rightarrow> QueueID list \<Rightarrow> bool" where
  "queue_chain par q [] \<longleftrightarrow> par q = None"
| "queue_chain par q (p # ps) \<longleftrightarrow> p = q \<and> (case par q of None \<Rightarrow> False | Some q' \<Rightarrow> queue_chain par q' ps)"

fun walkChain :: "('s \<Rightarrow> QueueID \<Rightarrow> 'q option) \<Rightarrow> (QueueID \<Rightarrow> 'q \<Rightarrow> 's \<Rightarrow> 's + 'r) \<Rightarrow> QueueID list \<Rightarrow> 's \<Rightarrow> 's + 'r" where
  "walkChain lk body [] s = Inl s"
| "walkChain lk body (q # ps) s =
     (case lk s q of
        None \<Rightarrow> Inl s
      | Some a \<Rightarrow> (case body q a s of Inr r \<Rightarrow> Inr r | Inl s' \<Rightarrow> walkChain lk body ps s'))"

text \<open>A queue that its ancestors lead back to.\<close>

definition grounded :: "(QueueID \<Rightarrow> QueueID option) \<Rightarrow> QueueID \<Rightarrow> bool" where
  "grounded par q \<longleftrightarrow> (\<exists>ps. queue_chain par q ps)"

subsection \<open>Chains\<close>

lemma queue_chain_unique: "queue_chain par q ps \<Longrightarrow> queue_chain par q ps' \<Longrightarrow> ps = ps'"
proof (induction ps arbitrary: q ps')
  case Nil
  then show ?case by (cases ps') auto
next
  case (Cons p ps)
  then show ?case by (cases ps') (auto split: option.splits)
qed

text \<open>The tail of a chain is the chain of each of its members.\<close>

lemma queue_chain_suffix: "queue_chain par q ps \<Longrightarrow> x \<in> set ps \<Longrightarrow> \<exists>xs ys. ps = xs @ ys \<and> queue_chain par x ys \<and> ys \<noteq> []"
proof (induction ps arbitrary: q)
  case (Cons p ps)
  obtain q' where q': "par q = Some q'" "queue_chain par q' ps" "p = q" using Cons.prems(1) by (auto split: option.splits)
  show ?case
  proof (cases "x = p")
    case True
    then show ?thesis using Cons.prems(1) q' by (intro exI [of _ "[]"] exI [of _ "p # ps"]) auto
  next
    case False
    then obtain xs ys where "ps = xs @ ys" "queue_chain par x ys" "ys \<noteq> []" using Cons.IH [OF q'(2)] Cons.prems(2) by auto
    then show ?thesis by (intro exI [of _ "p # xs"] exI [of _ ys]) auto
  qed
qed simp

lemma queue_chain_distinct: "queue_chain par q ps \<Longrightarrow> distinct ps"
proof (induction ps arbitrary: q)
  case (Cons p ps)
  obtain q' where q': "par q = Some q'" "queue_chain par q' ps" "p = q" using Cons.prems by (auto split: option.splits)
  have "p \<notin> set ps"
  proof
    assume "p \<in> set ps"
    then obtain xs ys where "ps = xs @ ys" "queue_chain par p ys" using queue_chain_suffix [OF q'(2)] by blast
    moreover have "queue_chain par p (p # ps)" using Cons.prems q' by simp
    ultimately show False using queue_chain_unique [of par p ys "p # ps"] by auto
  qed
  then show ?case using Cons.IH [OF q'(2)] by simp
qed simp

lemma queue_chain_dom: "queue_chain par q ps \<Longrightarrow> set ps \<subseteq> dom par"
  by (induction ps arbitrary: q) (auto split: option.splits)

lemma queue_chain_length: "queue_chain par q ps \<Longrightarrow> finite (dom par) \<Longrightarrow> length ps \<le> card (dom par)"
  by (metis card_mono distinct_card queue_chain_distinct queue_chain_dom)

lemma grounded_None: "par q = None \<Longrightarrow> grounded par q"
  unfolding grounded_def by (intro exI [of _ "[]"]) simp

lemma grounded_Some: "par q = Some p \<Longrightarrow> grounded par q \<longleftrightarrow> grounded par p"
proof
  assume "par q = Some p"
  then show "grounded par q \<Longrightarrow> grounded par p"
    unfolding grounded_def by (metis (no_types, lifting) list.exhaust option.case(2) option.distinct(1) queue_chain.simps)
  show "grounded par p \<Longrightarrow> grounded par q" if "par q = Some p"
    unfolding grounded_def using that by (metis (no_types, lifting) option.case(2) queue_chain.simps(2))
qed

text \<open>A rank that grows towards the parent grounds every queue: what an acyclic hierarchy gives.\<close>

lemma grounded_rank:
  assumes "\<And>q p. par q = Some p \<Longrightarrow> par p \<noteq> None \<Longrightarrow> rank p < (rank q :: nat)"
  shows "grounded par q"
proof (induction "rank q" arbitrary: q rule: less_induct)
  case less
  show ?case
  proof (cases "par q")
    case None
    then show ?thesis by (rule grounded_None)
  next
    case (Some p)
    then show ?thesis using less [of p] assms [OF Some] grounded_Some [of par q p] grounded_None [of par p] by (cases "par p") auto
  qed
qed

subsection \<open>The loop\<close>

text \<open>What the body of such a loop may do: it keeps the parents of the queues (\<open>par\<close>) as they are.\<close>

locale parent_walk =
  fixes lk :: "'s \<Rightarrow> QueueID \<Rightarrow> 'q option"
    and parent :: "'q \<Rightarrow> QueueID"
    and body :: "QueueID \<Rightarrow> 'q \<Rightarrow> 's \<Rightarrow> 's + 'r"
    and inv :: "'s \<Rightarrow> bool"
    and par :: "QueueID \<Rightarrow> QueueID option"
  assumes lookup_par: "inv s \<Longrightarrow> map_option parent (lk s x) = par x"
    and body_inv: "inv s \<Longrightarrow> lk s x = Some a \<Longrightarrow> body x a s = Inl s' \<Longrightarrow> inv s'"
begin

text \<open>The loop returns on every chain that ends.\<close>

lemma walk_chain: "queue_chain par q ps \<Longrightarrow> inv s \<Longrightarrow> parentWalk lk parent body q s = Some (walkChain lk body ps s)"
proof (induction ps arbitrary: q s)
  case Nil
  then have "lk s q = None" using lookup_par [of s q] by simp
  then show ?case by (subst parentWalk.simps) simp
next
  case (Cons p ps)
  obtain q' where q': "par q = Some q'" "queue_chain par q' ps" "p = q" using Cons.prems(1) by (auto split: option.splits)
  then obtain a where a: "lk s q = Some a" "parent a = q'" using lookup_par [OF Cons.prems(2), of q] by auto
  show ?case
  proof (cases "body q a s")
    case (Inl s')
    then show ?thesis using Cons.IH [OF q'(2) body_inv [OF Cons.prems(2) a(1) Inl]] a q' by (subst parentWalk.simps) simp
  next
    case (Inr r)
    then show ?thesis using a q' by (subst parentWalk.simps) simp
  qed
qed

text \<open>A loop that runs off the top of the hierarchy climbed a chain.\<close>

lemma walk_grounded: "parentWalk lk parent body q s = Some (Inl s') \<Longrightarrow> inv s \<Longrightarrow> grounded par q"
proof -
  have "lk' = lk \<longrightarrow> parent' = parent \<longrightarrow> body' = body \<longrightarrow> v = Inl s' \<longrightarrow> inv t \<longrightarrow> grounded par x"
    if "parentWalk lk' parent' body' x t = Some v" for lk' parent' body' x t v
  proof (rule parentWalk.raw_induct [OF _ that])
    fix walk :: "('s \<Rightarrow> QueueID \<Rightarrow> 'q option) \<Rightarrow> ('q \<Rightarrow> QueueID) \<Rightarrow> (QueueID \<Rightarrow> 'q \<Rightarrow> 's \<Rightarrow> 's + 'r) \<Rightarrow> QueueID \<Rightarrow> 's \<Rightarrow> ('s + 'r) option"
      and lk' parent' body' x t v
    assume 1: "\<And>lk' parent' body' x t v. walk lk' parent' body' x t = Some v \<Longrightarrow>
        lk' = lk \<longrightarrow> parent' = parent \<longrightarrow> body' = body \<longrightarrow> v = Inl s' \<longrightarrow> inv t \<longrightarrow> grounded par x"
      "(case lk' t x of None \<Rightarrow> Some (Inl t) | Some q \<Rightarrow> (case body' x q t of Inl s' \<Rightarrow> walk lk' parent' body' (parent' q) s' | Inr r \<Rightarrow> Some (Inr r))) = Some v"
    show "lk' = lk \<longrightarrow> parent' = parent \<longrightarrow> body' = body \<longrightarrow> v = Inl s' \<longrightarrow> inv t \<longrightarrow> grounded par x"
    proof (intro impI)
      assume eqs: "lk' = lk" "parent' = parent" "body' = body" "v = Inl s'" "inv t"
      show "grounded par x"
      proof (cases "lk t x")
        case None
        then show ?thesis using lookup_par [OF eqs(5), of x] by (intro grounded_None) simp
      next
        case (Some a)
        then obtain t' where t': "body x a t = Inl t'" "walk lk parent body (parent a) t' = Some (Inl s')"
          using 1(2) eqs by (cases "body x a t") auto
        then have "grounded par (parent a)" using 1(1) [OF t'(2)] body_inv [OF eqs(5) Some t'(1)] by simp
        then show ?thesis using grounded_Some [of par x "parent a"] lookup_par [OF eqs(5), of x] Some by simp
      qed
    qed
  qed
  then show "parentWalk lk parent body q s = Some (Inl s') \<Longrightarrow> inv s \<Longrightarrow> grounded par q" by blast
qed

lemma walk_inv: "queue_chain par q ps \<Longrightarrow> inv s \<Longrightarrow> walkChain lk body ps s = Inl s' \<Longrightarrow> inv s'"
proof (induction ps arbitrary: q s)
  case (Cons p ps)
  obtain q' where q': "par q = Some q'" "queue_chain par q' ps" "p = q" using Cons.prems(1) by (auto split: option.splits)
  then obtain a where a: "lk s q = Some a" using lookup_par [OF Cons.prems(2), of q] by auto
  then obtain t where t: "body q a s = Inl t" "walkChain lk body ps t = Inl s'" using Cons.prems(3) q' by (auto split: sum.splits)
  then show ?case using Cons.IH [OF q'(2) body_inv [OF Cons.prems(2) a t(1)]] by simp
qed simp

end

text \<open>A loop whose body only looks (its state is \<open>()\<close>): \<open>body q a\<close> is the value it returns with, if any.\<close>

definition queueParents :: "(QueueID, QueueAttributes) gomap \<Rightarrow> QueueID \<Rightarrow> QueueID option" where
  "queueParents queues q = map_option ParentQueue (map_of queues q)"

definition searchQueues :: "(QueueID, QueueAttributes) gomap \<Rightarrow> (QueueAttributes \<Rightarrow> 'r option) \<Rightarrow> QueueID \<Rightarrow> 'r option option" where
  "searchQueues queues check q =
     map_option (\<lambda>v. case v of Inl _ \<Rightarrow> None | Inr r \<Rightarrow> Some r)
       (parentWalk (\<lambda>_. map_of queues) ParentQueue
          (\<lambda>_ a s. case check a of Some r \<Rightarrow> Inr r | None \<Rightarrow> Inl s) q ())"

interpretation search: parent_walk "\<lambda>_ :: unit. map_of queues" ParentQueue
  "\<lambda>_ a s. case check a of Some r \<Rightarrow> Inr r | None \<Rightarrow> Inl s" "\<lambda>_. True" "queueParents queues" for queues check
  by unfold_locales (simp_all add: queueParents_def)

text \<open>The queues on a chain, lowest first.\<close>

definition chainQueues :: "(QueueID, QueueAttributes) gomap \<Rightarrow> QueueID list \<Rightarrow> QueueAttributes list" where
  "chainQueues queues ps = map (\<lambda>p. the (map_of queues p)) ps"

lemma searchQueues_chain:
  assumes "queue_chain (queueParents queues) q ps"
  shows "searchQueues queues check q =
    Some (case filter (\<lambda>a. check a \<noteq> None) (chainQueues queues ps) of [] \<Rightarrow> None | a # _ \<Rightarrow> check a)"
proof -
  have "(case walkChain (\<lambda>_ :: unit. map_of queues) (\<lambda>_ a s. case check a of Some r \<Rightarrow> Inr r | None \<Rightarrow> Inl s) ps () of
      Inl _ \<Rightarrow> None | Inr r \<Rightarrow> Some r) =
      (case filter (\<lambda>a. check a \<noteq> None) (chainQueues queues ps) of [] \<Rightarrow> None | a # _ \<Rightarrow> check a)"
    if "set ps \<subseteq> dom (queueParents queues)" for ps
    using that by (induction ps) (auto simp: chainQueues_def queueParents_def dom_def split: option.splits)
  then show ?thesis
    unfolding searchQueues_def search.walk_chain [OF assms TrueI, where check = check] using queue_chain_dom [OF assms] by simp
qed

lemma searchQueues_None:
  assumes "queue_chain (queueParents queues) q ps"
  shows "searchQueues queues check q = Some None \<longleftrightarrow> (\<forall>a \<in> set (chainQueues queues ps). check a = None)"
  unfolding searchQueues_chain [OF assms]
  by (induction "chainQueues queues ps" rule: list.induct) (auto split: list.splits simp: filter_eq_Cons_iff filter_empty_conv)

text \<open>A loop that returns early does so on some queue of the map.\<close>

lemma parentWalk_Inr:
  fixes lk :: "'s \<Rightarrow> QueueID \<Rightarrow> 'q option" and body :: "QueueID \<Rightarrow> 'q \<Rightarrow> 's \<Rightarrow> 's + 'r"
  assumes "parentWalk lk parent body q s = Some (Inr r)"
  shows "\<exists>x a t. lk t x = Some a \<and> body x a t = Inr r"
proof -
  have "v = Inr r \<longrightarrow> (\<exists>x a t. lk' t x = Some a \<and> body' x a t = Inr r)"
    if "parentWalk lk' parent' body' x t = Some v" for lk' :: "'s \<Rightarrow> QueueID \<Rightarrow> 'q option" and parent' and body' :: "QueueID \<Rightarrow> 'q \<Rightarrow> 's \<Rightarrow> 's + 'r" and x t v
    by (rule parentWalk.raw_induct [OF _ that, of "\<lambda>lk' parent' body' x t v. v = Inr r \<longrightarrow> (\<exists>x a t. lk' t x = Some a \<and> body' x a t = Inr r)"])
      (auto split: option.splits sum.splits)
  then show ?thesis using assms by blast
qed

lemma searchQueues_first:
  assumes "queue_chain (queueParents queues) q ps" and "searchQueues queues check q = Some (Some res)"
  shows "\<exists>lower a upper. chainQueues queues ps = lower @ a # upper \<and> check a = Some res \<and> (\<forall>p \<in> set lower. check p = None)"
proof -
  obtain a rest where a: "filter (\<lambda>a. check a \<noteq> None) (chainQueues queues ps) = a # rest" "check a = Some res"
    using assms(2) unfolding searchQueues_chain [OF assms(1)] by (auto split: list.splits)
  from a(1) obtain lower upper where "chainQueues queues ps = lower @ a # upper" "\<forall>p \<in> set lower. \<not> check p \<noteq> None"
    unfolding filter_eq_Cons_iff by blast
  then show ?thesis using a(2) by blast
qed

lemma searchQueues_diverges:
  assumes "\<not> grounded (queueParents queues) q" and "\<And>x a. map_of queues x = Some a \<Longrightarrow> check a = None"
  shows "searchQueues queues check q = None"
proof (rule ccontr)
  assume "searchQueues queues check q \<noteq> None"
  then obtain v where v: "parentWalk (\<lambda>_. map_of queues) ParentQueue (\<lambda>_ a s. case check a of Some r \<Rightarrow> Inr r | None \<Rightarrow> Inl s) q () = Some v"
    by (auto simp: searchQueues_def)
  show False
  proof (cases v)
    case (Inl s)
    then show False using search.walk_grounded v assms(1) by blast
  next
    case (Inr r)
    then show False using parentWalk_Inr [of _ _ _ q "()" r] v assms(2) by fastforce
  qed
qed

subsection \<open>Children\<close>

definition infoParents :: "(QueueID, QueueInfo) gomap \<Rightarrow> QueueID \<Rightarrow> QueueID option" where
  "infoParents queues q = map_option qi_ParentQueue (map_of queues q)"

lemma AddChildQueue_fields [simp]:
  "qi_ParentQueue (AddChildQueue c q) = qi_ParentQueue q"
  "set (qi_ChildQueues (AddChildQueue c q)) = insert c (set (qi_ChildQueues q))"
  "distinct (qi_ChildQueues (AddChildQueue c q)) = distinct (qi_ChildQueues q)"
  "(AddChildQueue c q)\<lparr>qi_ChildQueues := cs\<rparr> = q\<lparr>qi_ChildQueues := cs\<rparr>"
  by (auto simp: AddChildQueue_def)

lemma fold_AddChildQueue:
  "qi_ParentQueue (fold AddChildQueue cs q) = qi_ParentQueue q"
  "set (qi_ChildQueues (fold AddChildQueue cs q)) = set cs \<union> set (qi_ChildQueues q)"
  "distinct (qi_ChildQueues (fold AddChildQueue cs q)) = distinct (qi_ChildQueues q)"
  "(fold AddChildQueue cs q)\<lparr>qi_ChildQueues := ds\<rparr> = q\<lparr>qi_ChildQueues := ds\<rparr>"
  by (induction cs arbitrary: q) auto

text \<open>One iteration of \<^verbatim>\<open>updateQueueChildren\<close>.\<close>

definition childStep :: "QueueID \<Rightarrow> (QueueID, QueueInfo) gomap \<Rightarrow> (QueueID, QueueInfo) gomap" where
  "childStep queueId m =
     (case map_of m queueId of
        None \<Rightarrow> m
      | Some q \<Rightarrow>
          if qi_ParentQueue q \<noteq> ''''
          then (case map_of m (qi_ParentQueue q) of
                  Some parent \<Rightarrow> AList.update (qi_ParentQueue q) (AddChildQueue queueId parent) m
                | None \<Rightarrow> m)
          else m)"

definition isChild :: "(QueueID, QueueInfo) gomap \<Rightarrow> QueueID \<Rightarrow> QueueID \<Rightarrow> bool" where
  "isChild m q c \<longleftrightarrow> q \<noteq> '''' \<and> infoParents m c = Some q"

lemma map_of_childStep: "map_of (childStep c m) q = map_option (if isChild m q c then AddChildQueue c else id) (map_of m q)"
  by (cases "map_of m q") (auto simp: childStep_def isChild_def infoParents_def split: option.splits)

lemma gokeys_childStep: "gokeys (childStep c m) = gokeys m"
proof -
  have "gokeys (AList.update k v m) = gokeys m" if "map_of m k = Some w" for k v w
    using that by (induction m) (auto split: if_splits)
  then show ?thesis by (auto simp: childStep_def split: option.splits)
qed

lemma isChild_childStep: "isChild (childStep c m) = isChild m"
  by (intro ext) (auto simp: isChild_def infoParents_def map_of_childStep option.map_comp comp_def)

lemma fold_childStep:
  "map_of (fold childStep ids m) q = map_option (fold AddChildQueue (filter (isChild m q) ids)) (map_of m q)"
  "gokeys (fold childStep ids m) = gokeys m"
proof (induction ids arbitrary: m)
  case (Cons c ids)
  {
    case 1
    show ?case using Cons(1) [of "childStep c m"] by (simp add: isChild_childStep map_of_childStep option.map_comp comp_def)
  next
    case 2
    show ?case using Cons(2) [of "childStep c m"] by (simp add: gokeys_childStep)
  }
qed (simp_all add: option.map_id0)

lemma updateQueueChildren_eq: "updateQueueChildren queues = fold childStep (gokeys queues) queues"
  by (simp add: updateQueueChildren_def childStep_def [abs_def] cong: option.case_cong)

text \<open>After the update, the children of a queue are the queues that name it as their parent.\<close>

lemma updateQueueChildren_children:
  fixes queues defines "m \<equiv> updateQueueChildren queues"
  shows "gokeys m = gokeys queues" "infoParents m = infoParents queues"
    "map_of m q = Some a \<Longrightarrow> set (qi_ChildQueues a) = {c. isChild queues q c} \<union> set (qi_ChildQueues (the (map_of queues q)))"
    "map_of m q = Some a \<Longrightarrow> distinct (qi_ChildQueues (the (map_of queues q))) \<Longrightarrow> distinct (qi_ChildQueues a)"
    "map_of m q = Some a \<Longrightarrow> map_of queues q = Some (a\<lparr>qi_ChildQueues := qi_ChildQueues (the (map_of queues q))\<rparr>)"
proof -
  have m: "map_of m q = map_option (fold AddChildQueue (filter (isChild queues q) (gokeys queues))) (map_of queues q)" for q
    unfolding m_def updateQueueChildren_eq by (rule fold_childStep)
  show "gokeys m = gokeys queues" unfolding m_def updateQueueChildren_eq by (rule fold_childStep)
  show "infoParents m = infoParents queues" by (auto simp: infoParents_def m option.map_comp comp_def fold_AddChildQueue)
  have keys: "{c \<in> set (gokeys queues). isChild queues q c} = {c. isChild queues q c}"
    by (auto simp: isChild_def infoParents_def dest: map_of_SomeD intro: rev_image_eqI)
  show "map_of m q = Some a \<Longrightarrow> set (qi_ChildQueues a) = {c. isChild queues q c} \<union> set (qi_ChildQueues (the (map_of queues q)))"
    using keys by (auto simp: m fold_AddChildQueue)
  show "map_of m q = Some a \<Longrightarrow> distinct (qi_ChildQueues (the (map_of queues q))) \<Longrightarrow> distinct (qi_ChildQueues a)"
    by (auto simp: m fold_AddChildQueue)
  show "map_of m q = Some a \<Longrightarrow> map_of queues q = Some (a\<lparr>qi_ChildQueues := qi_ChildQueues (the (map_of queues q))\<rparr>)"
    by (auto simp: m fold_AddChildQueue)
qed

subsection \<open>Orphans\<close>

text \<open>A queue one of whose ancestors is missing from the map.\<close>

inductive orphan :: "(QueueID, QueueInfo) gomap \<Rightarrow> QueueID \<Rightarrow> bool" for queues where
  orphan_direct: "infoParents queues q = Some p \<Longrightarrow> p \<noteq> '''' \<Longrightarrow> infoParents queues p = None \<Longrightarrow> orphan queues q"
| orphan_inherited: "infoParents queues q = Some p \<Longrightarrow> orphan queues p \<Longrightarrow> orphan queues q"

inductive_cases orphan_E [elim]: "orphan queues q"

text \<open>Induction down a hierarchy: from the children of a grounded queue to the queue.\<close>

lemma grounded_children_induct [consumes 2]:
  assumes "grounded par q" and "finite (dom par)"
    and step: "\<And>q. grounded par q \<Longrightarrow> (\<And>c. par c = Some q \<Longrightarrow> P c) \<Longrightarrow> P q"
  shows "P q"
proof -
  have "P q" if "queue_chain par q ps" for ps
    using that
  proof (induction "Suc (card (dom par)) - length ps" arbitrary: q ps rule: less_induct)
    case less
    show ?case
    proof (rule step)
      show "grounded par q" using less.prems grounded_def by blast
      fix c
      assume "par c = Some q"
      then have chain: "queue_chain par c (c # ps)" using less.prems by simp
      show "P c" using queue_chain_length [OF chain assms(2)] by (intro less.hyps [OF _ chain]) auto
    qed
  qed
  then show ?thesis using assms(1) grounded_def by blast
qed

definition without :: "QueueID set \<Rightarrow> (QueueID, QueueInfo) gomap \<Rightarrow> (QueueID, QueueInfo) gomap" where
  "without D queues = filter (\<lambda>e. fst e \<notin> D) queues"

lemma map_of_without: "map_of (without D queues) q = (if q \<in> D then None else map_of queues q)"
  unfolding without_def by (induction queues) auto

lemma delete_without: "AList.delete q (without D queues) = without (insert q D) queues"
  by (auto simp: without_def AList.delete_eq intro!: filter_cong)

lemma deleteQueues_Cons: "deleteQueues m (q # qs) = Option.bind (deleteQueues m [q]) (\<lambda>m. deleteQueues m qs)"
proof (cases "map_of m q")
  case None
  then show ?thesis by (subst (1 2) deleteQueues.simps) (simp add: deleteQueues.simps [of _ "[]"])
next
  case (Some a)
  show ?thesis
    by (subst (1 2) deleteQueues.simps) (simp add: Some deleteQueues.simps [of _ "[]"] Option.bind_assoc)
qed

lemma deleteQueues_Nil [simp]: "deleteQueues m [] = Some m"
  by (simp add: deleteQueues.simps)

definition descendants :: "(QueueID, QueueInfo) gomap \<Rightarrow> QueueID \<Rightarrow> QueueID set" where
  "descendants queues q = {c. (c, q) \<in> {(c, p). isChild queues p c}\<^sup>*}"

definition childClosed :: "(QueueID, QueueInfo) gomap \<Rightarrow> QueueID set \<Rightarrow> bool" where
  "childClosed queues D \<longleftrightarrow> (\<forall>p c. isChild queues p c \<longrightarrow> p \<in> D \<longrightarrow> c \<in> D)"

lemma childClosed_descendants: "childClosed queues (descendants queues q)"
  unfolding childClosed_def descendants_def by (auto intro: converse_rtrancl_into_rtrancl)

lemma descendants_unfold: "descendants queues q = insert q (\<Union>c \<in> {c. isChild queues q c}. descendants queues c)"
  unfolding descendants_def by (auto elim: rtranclE intro: rtrancl_into_rtrancl)

lemma descendants_closed: "childClosed queues D \<Longrightarrow> q \<in> D \<Longrightarrow> descendants queues q \<subseteq> D"
proof
  fix c assume D: "childClosed queues D" "q \<in> D" and "c \<in> descendants queues q"
  then have "(c, q) \<in> {(c, p). isChild queues p c}\<^sup>*" by (simp add: descendants_def)
  then show "c \<in> D" using D by (induction rule: converse_rtrancl_induct) (auto simp: childClosed_def)
qed

lemma childClosed_Un: "childClosed queues D \<Longrightarrow> childClosed queues E \<Longrightarrow> childClosed queues (D \<union> E)"
  by (auto simp: childClosed_def)

definition allChildren :: "(QueueID, QueueInfo) gomap \<Rightarrow> bool" where
  "allChildren queues \<longleftrightarrow> (\<forall>q a. map_of queues q = Some a \<longrightarrow> set (qi_ChildQueues a) = {c. isChild queues q c})"

lemma finite_infoParents: "finite (dom (infoParents queues))"
proof -
  have "dom (infoParents queues) = dom (map_of queues)" by (auto simp: infoParents_def)
  then show ?thesis by (simp add: finite_dom_map_of)
qed

lemma isChild_dom: "isChild queues p c \<Longrightarrow> map_of queues c \<noteq> None"
  by (auto simp: isChild_def infoParents_def)

text \<open>Deleting a queue and its children removes exactly its descendants, and returns if the queue is grounded.\<close>

lemma deleteQueue_descendants:
  assumes "allChildren queues" and "'''' \<notin> dom (map_of queues)" and "grounded (infoParents queues) q"
  shows "map_of queues q \<noteq> None \<Longrightarrow> childClosed queues D \<Longrightarrow>
    deleteQueues (without D queues) [q] = Some (without (D \<union> descendants queues q) queues)"
  using assms(3) finite_infoParents
proof (induction arbitrary: D rule: grounded_children_induct)
  case (1 q)
  show ?case
  proof (cases "q \<in> D")
    case True
    then have "D \<union> descendants queues q = D" using descendants_closed [OF 1(4)] by blast
    then show ?thesis using True by (subst deleteQueues.simps) (simp add: map_of_without)
  next
    case False
    obtain a where a: "map_of queues q = Some a" using 1(3) by auto
    have kids: "set (qi_ChildQueues a) = {c. isChild queues q c}" using assms(1) a by (simp add: allChildren_def)
    have sub: "deleteQueues (without E queues) cs = Some (without (E \<union> (\<Union>c \<in> set cs. descendants queues c)) queues)"
      if "childClosed queues E" "\<forall>c \<in> set cs. isChild queues q c" for E cs
      using that
    proof (induction cs arbitrary: E)
      case (Cons c cs)
      then have c: "infoParents queues c = Some q" "isChild queues q c" by (auto simp: isChild_def)
      show ?case
        using 1(2) [OF c(1) isChild_dom [OF c(2)] Cons.prems(1)] Cons.IH [of "E \<union> descendants queues c"] Cons.prems
          childClosed_Un [OF Cons.prems(1) childClosed_descendants [of queues c]]
        by (subst deleteQueues_Cons) (simp add: Un_assoc)
    qed simp
    have "deleteQueues (without D queues) [q] =
        Some (without (insert q (D \<union> (\<Union>c \<in> set (qi_ChildQueues a). descendants queues c))) queues)"
      using sub [OF 1(4), of "qi_ChildQueues a"] kids a False
      by (subst deleteQueues.simps) (simp add: map_of_without delete_without)
    then show ?thesis unfolding kids by (subst descendants_unfold) simp
  qed
qed

lemma orphan_grounded: "orphan queues q \<Longrightarrow> grounded (infoParents queues) q"
  by (induction rule: orphan.induct) (simp_all add: grounded_Some grounded_None)

text \<open>The loop removes the descendants of every queue it finds without its parent.\<close>

definition directOrphan :: "(QueueID, QueueInfo) gomap \<Rightarrow> QueueID \<Rightarrow> bool" where
  "directOrphan queues q \<longleftrightarrow> (\<exists>p. infoParents queues q = Some p \<and> p \<noteq> '''' \<and> infoParents queues p = None)"

lemma cleanOrphansLoop_effect:
  assumes "allChildren queues" and "'''' \<notin> dom (map_of queues)" and "set ids \<subseteq> dom (map_of queues)" and "childClosed queues D"
  shows "cleanOrphansLoop ids (without D queues) =
    Some (without (D \<union> (\<Union>q \<in> {q \<in> set ids. directOrphan queues q}. descendants queues q)) queues)"
  using assms(3,4)
proof (induction ids arbitrary: D)
  case (Cons q ids)
  let ?D = "\<lambda>ids. \<Union>q \<in> {q \<in> set ids. directOrphan queues q}. descendants queues q"
  obtain a where a: "map_of queues q = Some a" using Cons.prems(1) by auto
  consider (gone) "q \<in> D" | (keep) "q \<notin> D" "\<not> directOrphan queues q" | (del) "q \<notin> D" "directOrphan queues q" by blast
  then show ?case
  proof cases
    case gone
    then have "D \<union> ?D (q # ids) = D \<union> ?D ids" using descendants_closed [OF Cons.prems(2)] by auto
    then show ?thesis using gone Cons by (simp add: map_of_without)
  next
    case keep
    then have "qi_ParentQueue a \<notin> D" if "qi_ParentQueue a \<noteq> ''''"
      using Cons.prems(2) a that by (auto simp: childClosed_def isChild_def infoParents_def)
    then have "\<not> (qi_ParentQueue a \<noteq> '''' \<and> map_of (without D queues) (qi_ParentQueue a) = None)"
      using keep a by (auto simp: map_of_without directOrphan_def infoParents_def)
    moreover have "?D (q # ids) = ?D ids" using keep by auto
    ultimately have "cleanOrphansLoop (q # ids) (without D queues) = cleanOrphansLoop ids (without D queues)"
      using keep a by (auto simp: map_of_without)
    then show ?thesis using Cons \<open>?D (q # ids) = ?D ids\<close> by simp
  next
    case del
    then have parent: "qi_ParentQueue a \<noteq> ''''" "map_of queues (qi_ParentQueue a) = None" using a by (auto simp: directOrphan_def infoParents_def)
    have "grounded (infoParents queues) q" using del(2) by (auto simp: directOrphan_def intro!: orphan_grounded orphan_direct)
    then have "deleteQueueAndChildren (without D queues) q = Some (without (D \<union> descendants queues q) queues)"
      unfolding deleteQueueAndChildren_def using a Cons.prems(2) assms by (intro deleteQueue_descendants) auto
    moreover have "?D (q # ids) = descendants queues q \<union> ?D ids" using del by auto
    moreover have "childClosed queues (D \<union> descendants queues q)"
      by (rule childClosed_Un [OF Cons.prems(2) childClosed_descendants])
    ultimately show ?thesis using del a parent Cons.IH [of "D \<union> descendants queues q"] Cons.prems
      by (simp add: map_of_without Un_assoc)
  qed
qed simp

lemma orphan_descendants: "'''' \<notin> dom (map_of queues) \<Longrightarrow> (\<Union>q \<in> {q. directOrphan queues q}. descendants queues q) = {q. orphan queues q}"
proof (intro equalityI subsetI)
  fix c
  assume "'''' \<notin> dom (map_of queues)" and "c \<in> {q. orphan queues q}"
  then have "orphan queues c" by simp
  then have "\<exists>q. directOrphan queues q \<and> c \<in> descendants queues q"
  proof (induction rule: orphan.induct)
    case (orphan_direct q p)
    then show ?case using descendants_unfold [of queues q] by (intro exI [of _ q]) (auto simp: directOrphan_def)
  next
    case (orphan_inherited q p)
    then obtain d where d: "directOrphan queues d" "p \<in> descendants queues d" by blast
    have "p \<noteq> ''''" using orphan_inherited(2) \<open>'''' \<notin> dom (map_of queues)\<close> by (auto simp: infoParents_def)
    then have "isChild queues p q" using orphan_inherited(1) by (simp add: isChild_def)
    then show ?case using d childClosed_descendants [of queues d] by (auto simp: childClosed_def)
  qed
  then show "c \<in> (\<Union>q \<in> {q. directOrphan queues q}. descendants queues q)" by blast
next
  fix c
  assume "c \<in> (\<Union>q \<in> {q. directOrphan queues q}. descendants queues q)"
  then obtain d where d: "directOrphan queues d" "(c, d) \<in> {(c, p). isChild queues p c}\<^sup>*" by (auto simp: descendants_def)
  have "orphan queues d" using d(1) by (auto simp: directOrphan_def intro: orphan_direct)
  with d(2) show "c \<in> {q. orphan queues q}"
    by (induction rule: converse_rtrancl_induct) (auto simp: isChild_def intro: orphan_inherited)
qed

lemma cleanQueueOrphans_effect:
  assumes "allChildren queues" and "'''' \<notin> dom (map_of queues)"
  shows "cleanQueueOrphans queues = Some (without {q. orphan queues q} queues)"
proof -
  have "{q \<in> set (gokeys queues). directOrphan queues q} = {q. directOrphan queues q}"
    by (auto simp: directOrphan_def infoParents_def dest: map_of_SomeD intro: rev_image_eqI)
  moreover have "set (gokeys queues) \<subseteq> dom (map_of queues)" by (simp add: dom_map_of_conv_image_fst)
  ultimately show ?thesis
    using cleanOrphansLoop_effect [OF assms, of "gokeys queues" "{}"] orphan_descendants [OF assms(2)]
    by (simp add: cleanQueueOrphans_def childClosed_def without_def)
qed

lemma orphan_cong: "infoParents m = infoParents queues \<Longrightarrow> orphan m q \<longleftrightarrow> orphan queues q"
proof -
  have "orphan m q \<Longrightarrow> infoParents m = infoParents queues \<Longrightarrow> orphan queues q" for m queues
    by (induction rule: orphan.induct) (auto intro: orphan.intros)
  then show "infoParents m = infoParents queues \<Longrightarrow> orphan m q \<longleftrightarrow> orphan queues q" by metis
qed

text \<open>The chain of a queue none of whose ancestors is missing ends in a top queue.\<close>

lemma rooted_chain:
  "queue_chain (infoParents queues) q ps \<Longrightarrow> ps \<noteq> [] \<Longrightarrow> \<not> orphan queues q \<Longrightarrow> infoParents queues (last ps) = Some ''''"
proof (induction ps arbitrary: q)
  case (Cons p ps)
  obtain q' where q': "infoParents queues q = Some q'" "queue_chain (infoParents queues) q' ps" "p = q"
    using Cons.prems(1) by (auto split: option.splits)
  show ?case
  proof (cases ps)
    case Nil
    then have "infoParents queues q' = None" using q' by simp
    then show ?thesis using Nil q' Cons.prems(3) orphan_direct [OF q'(1)] by auto
  next
    case (Cons p' ps')
    have "\<not> orphan queues q'" using Cons.prems(3) q' by (blast intro: orphan_inherited)
    then show ?thesis using Cons.IH [OF q'(2)] Cons by simp
  qed
qed simp

subsection \<open>The hierarchy of a snapshot\<close>

definition snap_ok :: "(QueueID, QueueInfo) gomap \<Rightarrow> bool" where
  "snap_ok m \<longleftrightarrow> wf_gomap m \<and> '''' \<notin> dom (map_of m) \<and> (\<forall>q a. map_of m q = Some a \<longrightarrow> qi_UID a = q \<and> qi_ChildQueues a = [])"

lemma snap_ok_update: "snap_ok m \<Longrightarrow> cr_Name q \<noteq> '''' \<Longrightarrow> snap_ok (AList.update (cr_Name q) (NewQueueInfo dp q) m)"
  by (auto simp: snap_ok_def NewQueueInfo_def split: if_splits)

lemma snapshotQueues_ok:
  assumes "\<forall>q \<in> set crs. cr_Name q \<noteq> ''''" and "snapshotQueues dp now fairness (Inr crs) = Inr queues"
  shows "snap_ok queues"
proof -
  have fold_ok: "snap_ok (fold f xs m)" if "snap_ok m" "\<And>q m. q \<in> set xs \<Longrightarrow> snap_ok m \<Longrightarrow> snap_ok (f q m)" for f and xs :: "QueueCR list" and m
    using that by (induction xs arbitrary: m) auto
  have start: "snap_ok []" "snap_ok [(qi_UID (getDefaultParentQueue dp now), getDefaultParentQueue dp now)]"
    by (auto simp: snap_ok_def wf_gomap_def getDefaultParentQueue_def NewQueueInfo_def defaultQueueName_def Let_def)
  have upd: "snap_ok (AList.update (qi_UID (NewQueueInfo dp q)) (NewQueueInfo dp q) m)"
    if "cr_Name q \<noteq> ''''" "snap_ok m" for q m
    using snap_ok_update [OF that(2,1)] by (simp add: NewQueueInfo_def)
  have "cr_Name (q\<lparr>cr_ParentQueue := p\<rparr>) = cr_Name q" for q p by simp
  then show ?thesis using assms start
    by (cases fairness) (auto simp: snapshotQueues_def Let_def intro!: fold_ok upd)
qed

text \<open>C15. Building the queue hierarchy of a snapshot returns, under both fairness levels and for every order in
  which the maps are visited. It keeps exactly the queues none of whose ancestors is missing, and changes
  nothing of them but their lists of children, which become duplicate-free lists of the kept queues that name
  them as their parent. Every chain of parents that ends does so in a top queue.\<close>

theorem queue_snapshot_hierarchy:
  assumes "\<forall>q \<in> set crs. cr_Name q \<noteq> ''''" and "snapshotQueues dp now fairness (Inr crs) = Inr queues"
  shows "\<exists>m. UpdateQueueHierarchy queues = Some m \<and>
    dom (map_of m) = {q \<in> dom (map_of queues). \<not> orphan queues q} \<and>
    (\<forall>q a. map_of m q = Some a \<longrightarrow> map_of queues q = Some (a\<lparr>qi_ChildQueues := []\<rparr>) \<and>
       distinct (qi_ChildQueues a) \<and> set (qi_ChildQueues a) = {c. infoParents m c = Some q}) \<and>
    (\<forall>q ps. queue_chain (infoParents m) q ps \<longrightarrow> ps \<noteq> [] \<longrightarrow> infoParents m (last ps) = Some '''')"
proof -
  have ok: "snap_ok queues" by (rule snapshotQueues_ok [OF assms])
  define m where "m = updateQueueChildren queues"
  note kids = updateQueueChildren_children [of queues, folded m_def]
  have dom: "dom (map_of m) = dom (map_of queues)" using kids(1) by (metis dom_map_of_conv_image_fst list.set_map)
  have empty: "qi_ChildQueues (the (map_of queues q)) = []" if "map_of m q = Some a" for q a
    using ok kids(5) [OF that] unfolding snap_ok_def by (metis option.sel)
  have child: "isChild m = isChild queues" by (intro ext) (simp add: isChild_def kids(2))
  have all: "allChildren m" unfolding allChildren_def child using kids(3) empty by simp
  have eq: "UpdateQueueHierarchy queues = Some (without {q. orphan queues q} m)"
    using cleanQueueOrphans_effect [OF all] ok orphan_cong [OF kids(2)] dom by (simp add: UpdateQueueHierarchy_def m_def snap_ok_def)
  let ?m = "without {q. orphan queues q} m"
  have par: "infoParents ?m q = (if orphan queues q then None else infoParents queues q)" for q
    by (simp add: infoParents_def map_of_without kids(2) [unfolded infoParents_def fun_eq_iff, rule_format, symmetric])
  have "set (qi_ChildQueues a) = {c. infoParents ?m c = Some q}" "distinct (qi_ChildQueues a)"
    "map_of queues q = Some (a\<lparr>qi_ChildQueues := []\<rparr>)" if "map_of ?m q = Some a" for q a
  proof -
    have q: "map_of m q = Some a" "\<not> orphan queues q" using that by (auto simp: map_of_without split: if_splits)
    then have "q \<noteq> ''''" using ok dom by (auto simp: snap_ok_def)
    have "\<not> orphan queues c" if "infoParents queues c = Some q" for c
    proof
      assume "orphan queues c"
      then show False
      proof cases
        case (orphan_direct p)
        then have "p \<notin> dom (map_of m)" "p = q" using that dom by (auto simp: infoParents_def)
        then show False using q(1) by auto
      qed (use that q(2) in auto)
    qed
    then show "set (qi_ChildQueues a) = {c. infoParents ?m c = Some q}"
      using kids(3) [OF q(1)] empty [OF q(1)] \<open>q \<noteq> ''''\<close> by (auto simp: par isChild_def)
    show "distinct (qi_ChildQueues a)" using kids(4) [OF q(1)] empty [OF q(1)] by simp
    show "map_of queues q = Some (a\<lparr>qi_ChildQueues := []\<rparr>)" using kids(5) [OF q(1)] empty [OF q(1)] by simp
  qed
  moreover have "infoParents ?m (last ps) = Some ''''" if ps: "queue_chain (infoParents ?m) q ps" "ps \<noteq> []" for q ps
  proof (rule rooted_chain [OF ps])
    show "\<not> orphan ?m q"
    proof
      assume "orphan ?m q"
      then show False
      proof (induction rule: orphan.induct)
        case (orphan_direct q p)
        then have q: "\<not> orphan queues q" "infoParents queues q = Some p" by (auto simp: par split: if_splits)
        then have "infoParents queues p \<noteq> None" using orphan_direct(2) orphan.orphan_direct by blast
        then have "orphan queues p" using orphan_direct(3) by (auto simp: par split: if_splits)
        then show False using q orphan.orphan_inherited by blast
      qed
    qed
  qed
  moreover have "dom (map_of ?m) = {q \<in> dom (map_of queues). \<not> orphan queues q}" by (auto simp: map_of_without dom [symmetric] split: if_splits)
  ultimately show ?thesis using eq by (intro exI [of _ ?m]) blast
qed

definition exampleCR :: "string \<Rightarrow> string \<Rightarrow> QueueCR" where
  "exampleCR name parent =
     \<lparr>cr_Name = name, cr_CreationTimestamp = 0, cr_DisplayName = '''', cr_ParentQueue = parent, cr_Resources = None,
      cr_Priority = None, cr_PreemptMinRuntime = None, cr_ReclaimMinRuntime = None\<rparr>"

theorem queue_snapshot_hierarchy_witness:
  "\<exists>queues m. snapshotQueues 100 0 FullFairness (Inr [exampleCR ''a'' '''', exampleCR ''b'' ''a'', exampleCR ''c'' ''x'', exampleCR ''d'' ''c'']) = Inr queues \<and>
     UpdateQueueHierarchy queues = Some m \<and> dom (map_of m) = {q \<in> dom (map_of queues). \<not> orphan queues q}"
proof -
  let ?crs = "[exampleCR ''a'' '''', exampleCR ''b'' ''a'', exampleCR ''c'' ''x'', exampleCR ''d'' ''c'']"
  obtain queues where q: "snapshotQueues 100 0 FullFairness (Inr ?crs) = Inr queues" by (simp add: snapshotQueues_def)
  have "\<forall>q \<in> set ?crs. cr_Name q \<noteq> ''''" by (simp add: exampleCR_def)
  from queue_snapshot_hierarchy [OF this q] show ?thesis using q by blast
qed

text \<open>C16. Under project-level fairness every queue has the parent \<^verbatim>\<open>default\<close>, so every chain of parents ends,
  unless a listed queue that has a parent is itself called \<^verbatim>\<open>default\<close>: that queue becomes its own parent.\<close>

theorem project_level_default_queue:
  assumes "\<forall>q \<in> set crs. cr_Name q \<noteq> ''''" and "snapshotQueues dp now ProjectLevelFairness (Inr crs) = Inr queues"
  shows "(\<forall>q. grounded (infoParents queues) q) \<longleftrightarrow> (\<forall>cr \<in> set crs. cr_ParentQueue cr \<noteq> '''' \<longrightarrow> cr_Name cr \<noteq> ''default'')"
proof -
  let ?f = "\<lambda>q m. if length (cr_ParentQueue q) > 0
      then let qi = NewQueueInfo dp (q\<lparr>cr_ParentQueue := defaultQueueName\<rparr>) in AList.update (qi_UID qi) qi m else m"
  have step: "infoParents (fold ?f crs m) q =
      (if \<exists>cr \<in> set crs. cr_ParentQueue cr \<noteq> '''' \<and> cr_Name cr = q then Some ''default'' else infoParents m q)" for m q
    by (induction crs arbitrary: m) (auto simp: infoParents_def NewQueueInfo_def defaultQueueName_def Let_def)
  have par: "infoParents queues q =
      (if \<exists>cr \<in> set crs. cr_ParentQueue cr \<noteq> '''' \<and> cr_Name cr = q then Some ''default''
       else if q = ''default'' then Some '''' else None)" for q
    using assms(2) step [of "[(''default'', getDefaultParentQueue dp now)]" q]
    by (auto simp: snapshotQueues_def Let_def infoParents_def getDefaultParentQueue_def NewQueueInfo_def defaultQueueName_def)
  show ?thesis
  proof (intro iffI allI ballI impI)
    fix cr
    assume all: "\<forall>q. grounded (infoParents queues) q" and "cr \<in> set crs" "cr_ParentQueue cr \<noteq> ''''"
    show "cr_Name cr \<noteq> ''default''"
    proof
      assume "cr_Name cr = ''default''"
      then have self: "infoParents queues ''default'' = Some ''default''" using par \<open>cr \<in> set crs\<close> \<open>cr_ParentQueue cr \<noteq> ''''\<close> by auto
      obtain ps where ps: "queue_chain (infoParents queues) ''default'' ps" using all by (auto simp: grounded_def)
      then have "queue_chain (infoParents queues) ''default'' (''default'' # ps)" using self by simp
      then show False using queue_chain_unique [OF ps] by fastforce
    qed
  next
    fix q
    assume ok: "\<forall>cr \<in> set crs. cr_ParentQueue cr \<noteq> '''' \<longrightarrow> cr_Name cr \<noteq> ''default''"
    have top: "infoParents queues '''' = None" using par [of "''''"] assms(1) by auto
    have default: "infoParents queues ''default'' = Some ''''" using par [of "''default''"] ok by auto
    have gd: "grounded (infoParents queues) ''default''" using grounded_Some [of "infoParents queues" "''default''" "''''"] grounded_None [of "infoParents queues" "''''"] default top by simp
    show "grounded (infoParents queues) q"
    proof (cases "infoParents queues q")
      case None
      then show ?thesis by (rule grounded_None)
    next
      case (Some p)
      then have "p = ''default'' \<or> q = ''default''" using par [of q] by (auto split: if_splits)
      then show ?thesis using gd grounded_Some [of "infoParents queues" q p] Some by auto
    qed
  qed
qed

theorem project_level_default_queue_witness:
  "\<exists>queues. snapshotQueues 100 0 ProjectLevelFairness (Inr [exampleCR ''default'' ''org'', exampleCR ''team'' ''default'']) = Inr queues \<and>
     (\<exists>q. \<not> grounded (infoParents queues) q)"
proof -
  let ?crs = "[exampleCR ''default'' ''org'', exampleCR ''team'' ''default'']"
  obtain queues where q: "snapshotQueues 100 0 ProjectLevelFairness (Inr ?crs) = Inr queues" by (simp add: snapshotQueues_def)
  have "\<forall>q \<in> set ?crs. cr_Name q \<noteq> ''''" by (simp add: exampleCR_def)
  from project_level_default_queue [OF this q] show ?thesis using q by (auto simp: exampleCR_def)
qed

end
