(* ===== verification/Gpu_Requirement.thy ===== *)
theory Gpu_Requirement
  imports Resource_Vector
begin

text \<open>
  GPU requirements of a pod, \<^verbatim>\<open>api/resource_info/gpu_resource_requirment.go\<close>, and the saturating
  addition of \<^verbatim>\<open>pkg/common/math/saturating.go\<close>. An \<^verbatim>\<open>int64\<close> is an \<open>int\<close>; where the code can wrap,
  the wrap is written out with \<open>int64_of\<close>. The two maps are association lists. The float formatting
  of \<^verbatim>\<open>GpusAsString\<close> is left out.

  The lemmas show that saturating addition is clamping, that the DRA count is the clamped sum of
  the claims in any order of the map, and that adding requirements adds their GPUs or fails.
\<close>

subsection \<open>Saturating addition\<close>

definition int64_of :: "int \<Rightarrow> int" where
  "int64_of n = signed_take_bit 63 n"

definition MaxInt64 :: int where "MaxInt64 = 2 ^ 63 - 1"
definition MinInt64 :: int where "MinInt64 = - (2 ^ 63)"

definition SaturatingAdd :: "int \<Rightarrow> int \<Rightarrow> int" where
  "SaturatingAdd a b =
     (let sm = int64_of (a + b)
      in if a > 0 \<and> b > 0 \<and> sm < 0 then MaxInt64
         else if a < 0 \<and> b < 0 \<and> sm \<ge> 0 then MinInt64
         else sm)"

subsection \<open>The requirement\<close>

definition minGPUs :: float64 where "minGPUs = 1 / 100"

record GpuResourceRequirement =
  gpu_count :: int
  gpu_portion :: float64
  gpuMemory :: int
  draGpuCounts :: "(string, int) gomap"
  migResources :: "(string, int) gomap"

definition NewGpuResourceRequirement :: GpuResourceRequirement where
  "NewGpuResourceRequirement =
     \<lparr>gpu_count = 0, gpu_portion = 0, gpuMemory = 0, draGpuCounts = [], migResources = []\<rparr>"

definition NewGpuResourceRequirementWithGpus :: "float64 \<Rightarrow> int \<Rightarrow> GpuResourceRequirement" where
  "NewGpuResourceRequirementWithGpus gpus mem =
     (let g = NewGpuResourceRequirement\<lparr>gpu_portion := gpus, gpuMemory := mem\<rparr>
      in if gpus \<ge> 1 then g\<lparr>gpu_count := \<lfloor>gpus\<rfloor>, gpu_portion := 1\<rparr>
         else if gpus > 0 \<or> mem > 0 then g\<lparr>gpu_count := 1\<rparr>
         else g)"

definition NewGpuResourceRequirementWithMultiFraction :: "int \<Rightarrow> float64 \<Rightarrow> int \<Rightarrow> GpuResourceRequirement" where
  "NewGpuResourceRequirementWithMultiFraction c p mem =
     NewGpuResourceRequirement\<lparr>gpu_count := c, gpu_portion := p, gpuMemory := mem\<rparr>"

definition NewGpuResourceRequirementWithMig :: "(string, int) gomap \<Rightarrow> GpuResourceRequirement" where
  "NewGpuResourceRequirementWithMig mig = NewGpuResourceRequirement\<lparr>migResources := mig\<rparr>"

text \<open>Reading a missing key of a Go map gives zero.\<close>

definition gomap_get :: "('k, int) gomap \<Rightarrow> 'k \<Rightarrow> int" where
  "gomap_get m k = (case map_of m k of None \<Rightarrow> 0 | Some v \<Rightarrow> v)"

definition SetDraGpus :: "(string, int) gomap \<Rightarrow> GpuResourceRequirement \<Rightarrow> GpuResourceRequirement" where
  "SetDraGpus draGpus g =
     g\<lparr>draGpuCounts := fold (\<lambda>(name, c) m. AList.update name (int64_of (gomap_get m name + c)) m) draGpus []\<rparr>"

text \<open>\<^verbatim>\<open>math.Round\<close>: half away from zero.\<close>

definition go_round :: "float64 \<Rightarrow> int" where
  "go_round x = (if x \<ge> 0 then \<lfloor>x + 1 / 2\<rfloor> else - \<lfloor>- x + 1 / 2\<rfloor>)"

definition getExtendedResourceGpus :: "float64 \<Rightarrow> int \<Rightarrow> float64" where
  "getExtendedResourceGpus portion c =
     of_int (int64_of (int64_of (go_round (portion * 100)) * c)) / 100"

definition GpuReq_IsEmpty :: "GpuResourceRequirement \<Rightarrow> bool" where
  "GpuReq_IsEmpty g =
     (if getExtendedResourceGpus (gpu_portion g) (gpu_count g) > minGPUs then False
      else if \<exists>e \<in> set (draGpuCounts g). snd e > 0 then False
      else if \<exists>e \<in> set (migResources g). snd e > 0 then False
      else True)"

datatype gpu_error = DifferentPortions float64 float64

definition GpuReq_Add ::
  "GpuResourceRequirement \<Rightarrow> GpuResourceRequirement option \<Rightarrow> gpu_error + GpuResourceRequirement" where
  "GpuReq_Add g other =
     (case other of
        None \<Rightarrow> Inr g
      | Some gg \<Rightarrow>
          let addMaps = (\<lambda>g. g\<lparr>
                draGpuCounts := fold (\<lambda>(name, q) m. AList.update name (SaturatingAdd (gomap_get m name) q) m)
                                  (draGpuCounts gg) (draGpuCounts g),
                migResources := fold (\<lambda>(name, q) m. AList.update name (int64_of (gomap_get m name + q)) m)
                                  (migResources gg) (migResources g)\<rparr>)
          in if gpu_portion g = 0 \<and> gpu_count g = 0
             then Inr (addMaps (g\<lparr>gpu_count := gpu_count gg, gpu_portion := gpu_portion gg\<rparr>))
             else if gpu_portion gg \<noteq> 0 \<or> gpu_count gg \<noteq> 0
             then (if gpu_portion g \<noteq> gpu_portion gg then Inl (DifferentPortions (gpu_portion g) (gpu_portion gg))
                   else Inr (addMaps (g\<lparr>gpu_count := int64_of (gpu_count g + gpu_count gg)\<rparr>)))
             else Inr (addMaps g))"

definition maxInto :: "('k, int) gomap \<Rightarrow> ('k, int) gomap \<Rightarrow> ('k, int) gomap" where
  "maxInto src m =
     fold (\<lambda>(name, q) m. case map_of m name of
             None \<Rightarrow> AList.update name q m
           | Some q0 \<Rightarrow> if q > q0 then AList.update name q m else m) src m"

definition SetMaxResource ::
  "GpuResourceRequirement \<Rightarrow> GpuResourceRequirement \<Rightarrow> gpu_error + GpuResourceRequirement" where
  "SetMaxResource g gg =
     (if gpu_portion g \<noteq> 0 \<and> gpu_portion gg \<noteq> 0 \<and> gpu_portion g \<noteq> gpu_portion gg
      then Inl (DifferentPortions (gpu_portion g) (gpu_portion gg))
      else let g' = (if getExtendedResourceGpus (gpu_portion gg) (gpu_count gg) >
                        getExtendedResourceGpus (gpu_portion g) (gpu_count g)
                     then g\<lparr>gpu_count := gpu_count gg, gpu_portion := gpu_portion gg\<rparr> else g)
           in Inr (g'\<lparr>draGpuCounts := maxInto (draGpuCounts gg) (draGpuCounts g'),
                      migResources := maxInto (migResources gg) (migResources g')\<rparr>))"

definition lessEqualWithMinDiff :: "float64 \<Rightarrow> float64 \<Rightarrow> float64 \<Rightarrow> bool" where
  "lessEqualWithMinDiff l r minDiff \<longleftrightarrow> l < r \<or> \<bar>l - r\<bar> < minDiff"

definition GpuReq_LessEqual :: "GpuResourceRequirement \<Rightarrow> GpuResourceRequirement \<Rightarrow> bool" where
  "GpuReq_LessEqual g gg =
     (if gpu_count g > gpu_count gg then False
      else if \<not> lessEqualWithMinDiff (gpu_portion g) (gpu_portion gg) minGPUs then False
      else list_all (\<lambda>(name, q). case map_of (migResources gg) name of None \<Rightarrow> False | Some q' \<Rightarrow> \<not> q > q')
             (migResources g))"

definition GetDraGpusCount :: "GpuResourceRequirement \<Rightarrow> int" where
  "GetDraGpusCount g = fold (\<lambda>e c. SaturatingAdd c (snd e)) (draGpuCounts g) 0"

definition GetGpusQuota :: "GpuResourceRequirement \<Rightarrow> float64" where
  "GetGpusQuota g =
     fold (\<lambda>(name, q) t. case ExtractGpuAndMemoryFromMigResourceName name of
             None \<Rightarrow> t | Some (gpuPortion, _) \<Rightarrow> t + of_int gpuPortion * of_int q) (migResources g) 0
     + of_int (GetDraGpusCount g) + getExtendedResourceGpus (gpu_portion g) (gpu_count g)"

definition ClearMigResources :: "GpuResourceRequirement \<Rightarrow> GpuResourceRequirement" where
  "ClearMigResources g = g\<lparr>migResources := []\<rparr>"

definition GPUs :: "GpuResourceRequirement \<Rightarrow> float64" where
  "GPUs g = getExtendedResourceGpus (gpu_portion g) (gpu_count g)"

definition GpuMemoryAsGpuFraction :: "GpuResourceRequirement \<Rightarrow> int \<Rightarrow> float64" where
  "GpuMemoryAsGpuFraction g gpuDeviceMemory =
     (if gpuMemory g \<le> 0 \<or> gpuDeviceMemory \<le> 0 then 0
      else of_int (gpu_count g) * (of_int (gpuMemory g) / of_int gpuDeviceMemory))"

definition GetNumOfGpuDevices :: "GpuResourceRequirement \<Rightarrow> int" where
  "GetNumOfGpuDevices g = gpu_count g"

definition GpuFractionalPortion :: "GpuResourceRequirement \<Rightarrow> float64" where
  "GpuFractionalPortion g = gpu_portion g"

definition IsFractionalRequest :: "GpuResourceRequirement \<Rightarrow> bool" where
  "IsFractionalRequest g = (if gpuMemory g > 0 then True else gpu_count g > 0 \<and> gpu_portion g < 1)"

subsection \<open>Saturation is clamping\<close>

definition int64_range :: "int \<Rightarrow> bool" where
  "int64_range n \<longleftrightarrow> MinInt64 \<le> n \<and> n \<le> MaxInt64"

definition clamp64 :: "int \<Rightarrow> int" where
  "clamp64 n = max MinInt64 (min MaxInt64 n)"

lemmas int64_defs = MinInt64_def MaxInt64_def

lemma gomap_get_update: "gomap_get (AList.update k v m) r = (if r = k then v else gomap_get m r)"
  by (simp add: gomap_get_def)

lemma int64_of_mod: "int64_of n = (n + 2 ^ 63) mod 2 ^ 64 - 2 ^ 63"
  by (simp add: int64_of_def signed_take_bit_eq_take_bit_shift take_bit_eq_mod)

lemma int64_of_id [simp]: "int64_range n \<Longrightarrow> int64_of n = n"
  by (simp add: int64_of_mod int64_range_def int64_defs)

lemma int64_of_above: "MaxInt64 < n \<Longrightarrow> n \<le> 2 * MaxInt64 \<Longrightarrow> int64_of n = n - 2 ^ 64"
proof -
  assume "MaxInt64 < n" "n \<le> 2 * MaxInt64"
  then have "(n + 2 ^ 63 - 2 ^ 64) mod 2 ^ 64 = n + 2 ^ 63 - 2 ^ 64"
    by (intro mod_pos_pos_trivial) (auto simp: int64_defs)
  then have "(n + 2 ^ 63) mod 2 ^ 64 = n + 2 ^ 63 - 2 ^ 64" by (simp only: minus_mod_self2)
  then show ?thesis by (simp add: int64_of_mod)
qed

lemma int64_of_below: "n < MinInt64 \<Longrightarrow> 2 * MinInt64 \<le> n \<Longrightarrow> int64_of n = n + 2 ^ 64"
proof -
  assume "n < MinInt64" "2 * MinInt64 \<le> n"
  then have "(n + 2 ^ 63 + 2 ^ 64) mod 2 ^ 64 = n + 2 ^ 63 + 2 ^ 64"
    by (intro mod_pos_pos_trivial) (auto simp: int64_defs)
  then have "(n + 2 ^ 63) mod 2 ^ 64 = n + 2 ^ 63 + 2 ^ 64" by (simp only: mod_add_self2)
  then show ?thesis by (simp add: int64_of_mod)
qed

lemma SaturatingAdd_clamps:
  assumes "int64_range a" and "int64_range b"
  shows "SaturatingAdd a b = clamp64 (a + b)"
proof -
  consider "int64_range (a + b)" | "MaxInt64 < a + b" | "a + b < MinInt64"
    unfolding int64_range_def by linarith
  then show ?thesis
  proof cases
    case 1
    then show ?thesis using assms by (auto simp: SaturatingAdd_def clamp64_def Let_def int64_range_def)
  next
    case 2
    then have "int64_of (a + b) = a + b - 2 ^ 64"
      using assms by (intro int64_of_above) (auto simp: int64_range_def)
    then show ?thesis using 2 assms by (simp add: SaturatingAdd_def clamp64_def Let_def int64_range_def int64_defs)
  next
    case 3
    then have "int64_of (a + b) = a + b + 2 ^ 64"
      using assms by (intro int64_of_below) (auto simp: int64_range_def)
    then show ?thesis using 3 assms by (simp add: SaturatingAdd_def clamp64_def Let_def int64_range_def int64_defs)
  qed
qed

lemma fold_SaturatingAdd:
  assumes "\<forall>x\<in>set xs. 0 \<le> x \<and> x \<le> MaxInt64" and "0 \<le> c" and "c \<le> MaxInt64"
  shows "fold (\<lambda>x c. SaturatingAdd c x) xs c = min MaxInt64 (c + sum_list xs)"
  using assms
proof (induction xs arbitrary: c)
  case (Cons x xs)
  then have x: "0 \<le> x" "x \<le> MaxInt64" by auto
  have nn: "0 \<le> sum_list xs" using Cons.prems(1) by (intro sum_list_nonneg) auto
  have "SaturatingAdd c x = clamp64 (c + x)"
    using x Cons.prems by (intro SaturatingAdd_clamps) (auto simp: int64_range_def int64_defs)
  then have s: "SaturatingAdd c x = min MaxInt64 (c + x)"
    using x Cons.prems(2) by (simp add: clamp64_def int64_defs)
  have "0 \<le> SaturatingAdd c x" "SaturatingAdd c x \<le> MaxInt64"
    using s x Cons.prems(2,3) by (auto simp: int64_defs)
  then show ?case using Cons.IH [of "SaturatingAdd c x"] Cons.prems(1) s nn by (simp add: min_def)
qed simp

subsection \<open>Properties of requirements\<close>

lemma DraGpus_sum:
  assumes "\<forall>e\<in>set (draGpuCounts g). 0 \<le> snd e \<and> snd e \<le> MaxInt64"
  shows "GetDraGpusCount g = min MaxInt64 (\<Sum>e\<leftarrow>draGpuCounts g. snd e)"
proof -
  have "fold (\<lambda>e c. SaturatingAdd c (snd e)) xs c = fold (\<lambda>x c. SaturatingAdd c x) (map snd xs) c"
    for xs :: "(string, int) gomap" and c
    by (induction xs arbitrary: c) auto
  then show ?thesis
    using fold_SaturatingAdd [of "map snd (draGpuCounts g)" 0] assms by (simp add: GetDraGpusCount_def int64_defs)
qed

text \<open>GPUs in hundredths; no wrap-around when the product fits.\<close>

definition gpus_fit :: "float64 \<Rightarrow> int \<Rightarrow> bool" where
  "gpus_fit portion c \<longleftrightarrow> int64_range (go_round (portion * 100)) \<and> int64_range (go_round (portion * 100) * c)"

lemma getExtendedResourceGpus_fit:
  "gpus_fit portion c \<Longrightarrow> getExtendedResourceGpus portion c = of_int (go_round (portion * 100)) * of_int c / 100"
  by (simp add: getExtendedResourceGpus_def gpus_fit_def)

lemma getExtendedResourceGpus_zero [simp]: "getExtendedResourceGpus p 0 = 0"
  by (simp add: getExtendedResourceGpus_def int64_of_mod)

text \<open>\<open>SaturatingAdd\<close> computed with wrapping 64-bit addition is addition clamped to the int64 range.\<close>

lemma saturating_add_is_clamp:
  assumes "int64_range a" and "int64_range b"
  shows "SaturatingAdd a b = max MinInt64 (min MaxInt64 (a + b))"
  using SaturatingAdd_clamps [OF assms] by (simp add: clamp64_def)

text \<open>Adding GPU requirements: it fails exactly when both sides ask for devices of different
  portions; otherwise, where nothing overflows, the GPUs of the sum are the sum of the GPUs.\<close>

lemma gpu_requirement_Add:
  assumes "gpus_fit (gpu_portion g) (gpu_count g)" and "gpus_fit (gpu_portion gg) (gpu_count gg)"
    and "int64_range (gpu_count g + gpu_count gg)" and "gpus_fit (gpu_portion g) (gpu_count g + gpu_count gg)"
  shows "case GpuReq_Add g (Some gg) of
      Inl e \<Rightarrow> (gpu_portion g \<noteq> 0 \<or> gpu_count g \<noteq> 0) \<and> (gpu_portion gg \<noteq> 0 \<or> gpu_count gg \<noteq> 0) \<and>
               gpu_portion g \<noteq> gpu_portion gg
    | Inr g' \<Rightarrow> GPUs g' = GPUs g + GPUs gg"
proof -
  have "(gpu_portion g = gpu_portion gg \<Longrightarrow>
    getExtendedResourceGpus (gpu_portion gg) (int64_of (gpu_count g + gpu_count gg)) =
    getExtendedResourceGpus (gpu_portion gg) (gpu_count g) + getExtendedResourceGpus (gpu_portion gg) (gpu_count gg))"
    using assms by (simp add: getExtendedResourceGpus_fit ring_distribs add_divide_distrib)
  then show ?thesis by (auto simp: GpuReq_Add_def GPUs_def Let_def)
qed

end
