(* ===== verification/Resources.thy ===== *)
theory Resources
  imports Gpu_Requirement
begin

text \<open>
  Amounts of resources: \<^verbatim>\<open>api/resource_info/base_resources.go\<close>, \<^verbatim>\<open>resource_info.go\<close> (what a node holds) and
  \<^verbatim>\<open>resource_requirment.go\<close> (what a pod asks for).

  A \<^verbatim>\<open>resource.Quantity\<close> is built with \<open>MilliQuantity\<close> or \<open>WholeQuantity\<close>, the two constructors the code calls;
  a quantity the code reads is opaque, with \<open>isZero\<close>, \<open>milliValue\<close> and \<open>value\<close> as arguments, and
  \<^verbatim>\<open>k8s_internal.IsScalarResourceName\<close> is the argument \<open>isScalar\<close>. Scalar amounts are 64-bit (\<open>int64_of\<close>). The
  human-readable strings are not modelled.

  The lemmas show that adding and then subtracting the same amounts restores every amount, at the width of
  the scalar counters, and that the comparison is the pointwise one.
\<close>

subsection \<open>Base resources\<close>

definition minMilliCPU :: float64 where "minMilliCPU = 10"
definition minScalarResources :: int where "minScalarResources = 1"
definition MinMemory :: float64 where "MinMemory = 10 * 1024 * 1024"

record BaseResource =
  milliCpu :: float64
  base_memory :: float64
  scalarResources :: "(string, int) gomap"

definition NewBaseResourceWithValues :: "float64 \<Rightarrow> float64 \<Rightarrow> BaseResource" where
  "NewBaseResourceWithValues milliCPU mem = \<lparr>milliCpu = milliCPU, base_memory = mem, scalarResources = []\<rparr>"

definition EmptyBaseResource :: BaseResource where
  "EmptyBaseResource = \<lparr>milliCpu = 0, base_memory = 0, scalarResources = []\<rparr>"

definition Base_Clone :: "BaseResource \<Rightarrow> BaseResource" where
  "Base_Clone r = \<lparr>milliCpu = milliCpu r, base_memory = base_memory r, scalarResources = scalarResources r\<rparr>"

text \<open>\<^verbatim>\<open>m[name] += v\<close> on an \<^verbatim>\<open>int64\<close> map, and the same followed by the removal of a zero entry.\<close>

definition addScalar :: "string \<Rightarrow> int \<Rightarrow> (string, int) gomap \<Rightarrow> (string, int) gomap" where
  "addScalar name v m = AList.update name (int64_of (gomap_get m name + v)) m"

definition addScalarDropZero :: "string \<Rightarrow> int \<Rightarrow> (string, int) gomap \<Rightarrow> (string, int) gomap" where
  "addScalarDropZero name v m =
     (let m' = addScalar name v m in if gomap_get m' name = 0 then AList.delete name m' else m')"

definition Base_Add :: "BaseResource \<Rightarrow> BaseResource \<Rightarrow> BaseResource" where
  "Base_Add r other =
     \<lparr>milliCpu = milliCpu r + milliCpu other, base_memory = base_memory r + base_memory other,
      scalarResources = fold (\<lambda>(rName, rrValue). addScalarDropZero rName rrValue) (scalarResources other) (scalarResources r)\<rparr>"

definition Base_Sub :: "BaseResource \<Rightarrow> BaseResource \<Rightarrow> BaseResource" where
  "Base_Sub r other =
     \<lparr>milliCpu = milliCpu r - milliCpu other, base_memory = base_memory r - base_memory other,
      scalarResources = fold (\<lambda>(rName, rrValue). addScalarDropZero rName (- rrValue)) (scalarResources other) (scalarResources r)\<rparr>"

definition Base_Get :: "resource_consts \<Rightarrow> BaseResource \<Rightarrow> string \<Rightarrow> float64" where
  "Base_Get rc r rn =
     (if rn = ResourceCPU rc then milliCpu r
      else if rn = ResourceMemory rc then base_memory r
      else case map_of (scalarResources r) rn of None \<Rightarrow> 0 | Some rQuan \<Rightarrow> of_int rQuan)"

definition Base_LessEqual :: "BaseResource \<Rightarrow> BaseResource \<Rightarrow> bool" where
  "Base_LessEqual r rr =
     (if milliCpu r > milliCpu rr then False
      else if base_memory r > base_memory rr then False
      else list_all (\<lambda>(rName, rQuant). case map_of (scalarResources rr) rName of None \<Rightarrow> False | Some rrQuant \<Rightarrow> \<not> rQuant > rrQuant)
             (scalarResources r))"

datatype Quantity = MilliQuantity int | WholeQuantity int

text \<open>\<^verbatim>\<open>int64(x)\<close> on a float within the range of \<^verbatim>\<open>int64\<close>.\<close>

definition int64_trunc :: "float64 \<Rightarrow> int" where
  "int64_trunc x = (if x \<ge> 0 then \<lfloor>x\<rfloor> else - \<lfloor>- x\<rfloor>)"

definition Base_ToResourceList :: "resource_consts \<Rightarrow> BaseResource \<Rightarrow> (string, Quantity) gomap" where
  "Base_ToResourceList rc r =
     fold (\<lambda>(rName, rQuant). AList.update rName (WholeQuantity rQuant)) (scalarResources r)
       (AList.update (ResourceMemory rc) (WholeQuantity (int64_trunc (base_memory r)))
          (AList.update (ResourceCPU rc) (MilliQuantity (int64_trunc (milliCpu r))) []))"

definition Base_IsEmpty :: "BaseResource \<Rightarrow> bool" where
  "Base_IsEmpty r =
     (if milliCpu r \<ge> minMilliCPU \<or> base_memory r \<ge> MinMemory then False
      else list_all (\<lambda>(_, rQuant). \<not> rQuant \<ge> minScalarResources) (scalarResources r))"

definition Base_SetMaxResource :: "BaseResource \<Rightarrow> BaseResource \<Rightarrow> BaseResource" where
  "Base_SetMaxResource r rr =
     \<lparr>milliCpu = (if milliCpu rr > milliCpu r then milliCpu rr else milliCpu r),
      base_memory = (if base_memory rr > base_memory r then base_memory rr else base_memory r),
      scalarResources = maxInto (scalarResources rr) (scalarResources r)\<rparr>"

subsection \<open>What a pod asks for\<close>

record ResourceRequirements =
  rr_Base :: BaseResource
  rr_Gpu :: GpuResourceRequirement

definition GPUResourceName :: string where "GPUResourceName = ''nvidia.com/gpu''"
definition amdGpuResourceName :: string where "amdGpuResourceName = ''amd.com/gpu''"

definition EmptyResourceRequirements :: ResourceRequirements where
  "EmptyResourceRequirements = \<lparr>rr_Base = EmptyBaseResource, rr_Gpu = NewGpuResourceRequirement\<rparr>"

definition NewResourceRequirements :: "float64 \<Rightarrow> float64 \<Rightarrow> float64 \<Rightarrow> ResourceRequirements" where
  "NewResourceRequirements gpus milliCpus mem =
     \<lparr>rr_Base = NewBaseResourceWithValues milliCpus mem, rr_Gpu = NewGpuResourceRequirementWithGpus gpus 0\<rparr>"

definition NewResourceRequirementsWithGpus :: "float64 \<Rightarrow> ResourceRequirements" where
  "NewResourceRequirementsWithGpus gpus = NewResourceRequirements gpus 0 0"

definition RequirementsFromResourceList ::
  "resource_consts \<Rightarrow> string list \<Rightarrow> (string \<Rightarrow> bool) \<Rightarrow> ('q \<Rightarrow> int) \<Rightarrow> ('q \<Rightarrow> int) \<Rightarrow> (string, 'q) gomap \<Rightarrow> ResourceRequirements" where
  "RequirementsFromResourceList rc storageNames isScalar milliValue val rl =
     fold (\<lambda>(rName, rQuant) r.
         if rName = ResourceCPU rc then r\<lparr>rr_Base := (rr_Base r)\<lparr>milliCpu := milliCpu (rr_Base r) + of_int (milliValue rQuant)\<rparr>\<rparr>
         else if rName = ResourceMemory rc then r\<lparr>rr_Base := (rr_Base r)\<lparr>base_memory := base_memory (rr_Base r) + of_int (val rQuant)\<rparr>\<rparr>
         else if rName = GPUResourceName \<or> rName = amdGpuResourceName
         then (if val rQuant \<ge> 1
               then r\<lparr>rr_Gpu := (rr_Gpu r)\<lparr>gpu_count := int64_of (gpu_count (rr_Gpu r) + val rQuant), gpu_portion := 1\<rparr>\<rparr>
               else r\<lparr>rr_Gpu := (rr_Gpu r)\<lparr>gpu_portion := gpu_portion (rr_Gpu r) + of_int (val rQuant), gpu_count := 1\<rparr>\<rparr>)
         else if IsMigResource rName
         then r\<lparr>rr_Gpu := (rr_Gpu r)\<lparr>migResources := addScalar rName (val rQuant) (migResources (rr_Gpu r))\<rparr>\<rparr>
         else if isScalar rName \<or> rName \<in> set storageNames
         then r\<lparr>rr_Base := (rr_Base r)\<lparr>scalarResources := addScalar rName (val rQuant) (scalarResources (rr_Base r))\<rparr>\<rparr>
         else r) rl EmptyResourceRequirements"

definition Req_ToResourceList :: "resource_consts \<Rightarrow> ResourceRequirements \<Rightarrow> (string, Quantity) gomap" where
  "Req_ToResourceList rc r =
     (let gpus = GPUs (rr_Gpu r);
          rl = AList.update GPUResourceName
                 (if gpus > 0 \<and> gpus < 1 then MilliQuantity (int64_trunc (gpus * 1000))
                  else WholeQuantity (GetNumOfGpuDevices (rr_Gpu r)))
                 (Base_ToResourceList rc (rr_Base r))
      in fold (\<lambda>(rName, rQuant). AList.update rName (WholeQuantity rQuant)) (migResources (rr_Gpu r)) rl)"

definition Req_Clone :: "ResourceRequirements \<Rightarrow> ResourceRequirements" where
  "Req_Clone r = \<lparr>rr_Base = Base_Clone (rr_Base r), rr_Gpu = rr_Gpu r\<rparr>"

definition Req_IsEmpty :: "ResourceRequirements \<Rightarrow> bool" where
  "Req_IsEmpty r = (if \<not> GpuReq_IsEmpty (rr_Gpu r) then False else Base_IsEmpty (rr_Base r))"

text \<open>An error of the GPU part leaves the base part already changed.\<close>

definition Req_SetMaxResource :: "ResourceRequirements \<Rightarrow> ResourceRequirements \<Rightarrow> gpu_error option \<times> ResourceRequirements" where
  "Req_SetMaxResource r rr =
     (let r' = r\<lparr>rr_Base := Base_SetMaxResource (rr_Base r) (rr_Base rr)\<rparr>
      in case SetMaxResource (rr_Gpu r) (rr_Gpu rr) of
           Inl err \<Rightarrow> (Some err, r') | Inr g \<Rightarrow> (None, r'\<lparr>rr_Gpu := g\<rparr>))"

definition Req_Add :: "ResourceRequirements \<Rightarrow> ResourceRequirements \<Rightarrow> gpu_error option \<times> ResourceRequirements" where
  "Req_Add r rr =
     (let r' = r\<lparr>rr_Base := Base_Add (rr_Base r) (rr_Base rr)\<rparr>
      in case GpuReq_Add (rr_Gpu r) (Some (rr_Gpu rr)) of
           Inl err \<Rightarrow> (Some err, r') | Inr g \<Rightarrow> (None, r'\<lparr>rr_Gpu := g\<rparr>))"

definition Req_LessEqual :: "ResourceRequirements \<Rightarrow> ResourceRequirements \<Rightarrow> bool" where
  "Req_LessEqual r rr =
     (if \<not> Base_LessEqual (rr_Base r) (rr_Base rr) then False
      else if \<not> GpuReq_LessEqual (rr_Gpu r) (rr_Gpu rr) then False
      else True)"

definition Req_LessInAtLeastOneResource :: "ResourceRequirements \<Rightarrow> ResourceRequirements \<Rightarrow> bool" where
  "Req_LessInAtLeastOneResource r rr \<longleftrightarrow> \<not> Req_LessEqual rr r"

definition Req_Get :: "resource_consts \<Rightarrow> ResourceRequirements \<Rightarrow> string \<Rightarrow> float64" where
  "Req_Get rc r rn =
     (if rn = GPUResourceName \<or> rn = amdGpuResourceName then GPUs (rr_Gpu r)
      else if IsMigResource rn
      then (case map_of (migResources (rr_Gpu r)) rn of None \<Rightarrow> 0 | Some q \<Rightarrow> of_int q)
      else Base_Get rc (rr_Base r) rn)"

subsection \<open>What a node holds\<close>

record Resource =
  res_Base :: BaseResource
  res_gpus :: float64

definition EmptyNodeResource :: Resource where
  "EmptyNodeResource = \<lparr>res_Base = EmptyBaseResource, res_gpus = 0\<rparr>"

definition NewResource :: "float64 \<Rightarrow> float64 \<Rightarrow> float64 \<Rightarrow> Resource" where
  "NewResource milliCPU mem gpus = \<lparr>res_Base = NewBaseResourceWithValues milliCPU mem, res_gpus = gpus\<rparr>"

definition ResourceFromResourceList ::
  "resource_consts \<Rightarrow> string list \<Rightarrow> (string \<Rightarrow> bool) \<Rightarrow> ('q \<Rightarrow> bool) \<Rightarrow> ('q \<Rightarrow> int) \<Rightarrow> ('q \<Rightarrow> int) \<Rightarrow> (string, 'q) gomap \<Rightarrow> Resource" where
  "ResourceFromResourceList rc storageNames isScalar isZero milliValue val rList =
     fold (\<lambda>(rName, rQuant) r.
         if isZero rQuant then r
         else if rName = ResourceCPU rc then r\<lparr>res_Base := (res_Base r)\<lparr>milliCpu := milliCpu (res_Base r) + of_int (milliValue rQuant)\<rparr>\<rparr>
         else if rName = ResourceMemory rc then r\<lparr>res_Base := (res_Base r)\<lparr>base_memory := base_memory (res_Base r) + of_int (val rQuant)\<rparr>\<rparr>
         else if rName = GPUResourceName \<or> rName = amdGpuResourceName then r\<lparr>res_gpus := res_gpus r + of_int (val rQuant)\<rparr>
         else if rName = ResourcePods rc \<or> IsMigResource rName \<or> rName \<in> set storageNames \<or> isScalar rName
         then r\<lparr>res_Base := (res_Base r)\<lparr>scalarResources := addScalar rName (val rQuant) (scalarResources (res_Base r))\<rparr>\<rparr>
         else r) rList EmptyNodeResource"

definition Resource_Add :: "Resource \<Rightarrow> Resource \<Rightarrow> Resource" where
  "Resource_Add r other = \<lparr>res_Base = Base_Add (res_Base r) (res_Base other), res_gpus = res_gpus r + res_gpus other\<rparr>"

definition Resource_Sub :: "Resource \<Rightarrow> Resource \<Rightarrow> Resource" where
  "Resource_Sub r other = \<lparr>res_Base = Base_Sub (res_Base r) (res_Base other), res_gpus = res_gpus r - res_gpus other\<rparr>"

definition Resource_Get :: "resource_consts \<Rightarrow> Resource \<Rightarrow> string \<Rightarrow> float64" where
  "Resource_Get rc r rn =
     (if rn = GPUResourceName \<or> rn = amdGpuResourceName then res_gpus r else Base_Get rc (res_Base r) rn)"

definition Resource_Clone :: "Resource \<Rightarrow> Resource" where
  "Resource_Clone r = \<lparr>res_Base = Base_Clone (res_Base r), res_gpus = res_gpus r\<rparr>"

definition Resource_LessEqual :: "Resource \<Rightarrow> Resource \<Rightarrow> bool" where
  "Resource_LessEqual r rr = (if res_gpus r > res_gpus rr then False else Base_LessEqual (res_Base r) (res_Base rr))"

definition Resource_SetMaxResource :: "Resource \<Rightarrow> Resource \<Rightarrow> Resource" where
  "Resource_SetMaxResource r rr =
     \<lparr>res_Base = Base_SetMaxResource (res_Base r) (res_Base rr),
      res_gpus = (if res_gpus rr > res_gpus r then res_gpus rr else res_gpus r)\<rparr>"

definition AddResourceRequirements :: "Resource \<Rightarrow> ResourceRequirements option \<Rightarrow> Resource" where
  "AddResourceRequirements r reqo =
     (case reqo of
        None \<Rightarrow> r
      | Some req \<Rightarrow>
          let b = Base_Add (res_Base r) (rr_Base req)
          in \<lparr>res_Base = b\<lparr>scalarResources := fold (\<lambda>(p, c). addScalar p c) (migResources (rr_Gpu req)) (scalarResources b)\<rparr>,
              res_gpus = fold (\<lambda>e g. g + of_int (snd e)) (draGpuCounts (rr_Gpu req)) (res_gpus r + GPUs (rr_Gpu req))\<rparr>)"

definition SubResourceRequirements :: "Resource \<Rightarrow> ResourceRequirements \<Rightarrow> Resource" where
  "SubResourceRequirements r req =
     (let b = Base_Sub (res_Base r) (rr_Base req)
      in \<lparr>res_Base = b\<lparr>scalarResources := fold (\<lambda>(p, c). addScalar p (- c)) (migResources (rr_Gpu req)) (scalarResources b)\<rparr>,
          res_gpus = fold (\<lambda>e g. g - of_int (snd e)) (draGpuCounts (rr_Gpu req)) (res_gpus r - GPUs (rr_Gpu req))\<rparr>)"

text \<open>The loop over the indexes of a vector beyond CPU, memory and GPU; \<open>sg\<close> is 1 to add, -1 to subtract.\<close>

definition addVectorScalars :: "int \<Rightarrow> ResourceVector \<Rightarrow> ResourceVectorMap \<Rightarrow> (string, int) gomap \<Rightarrow> (string, int) gomap" where
  "addVectorScalars sg vec vectorMap m =
     fold (\<lambda>i m.
         if i = CPUIndex \<or> i = MemoryIndex \<or> i = GPUIndex then m
         else let v = Get vec i in if v \<noteq> 0 then addScalar (ResourceAt vectorMap i) (sg * int64_trunc v) m else m)
       [0 .. Map_Len vectorMap - 1] m"

definition AddVectorAndGpuReq :: "Resource \<Rightarrow> ResourceVector \<Rightarrow> ResourceVectorMap \<Rightarrow> GpuResourceRequirement \<Rightarrow> Resource" where
  "AddVectorAndGpuReq r vec vectorMap gpuReq =
     \<lparr>res_Base = \<lparr>milliCpu = milliCpu (res_Base r) + Get vec CPUIndex, base_memory = base_memory (res_Base r) + Get vec MemoryIndex,
        scalarResources = fold (\<lambda>(p, c). addScalar p c) (migResources gpuReq)
          (addVectorScalars 1 vec vectorMap (scalarResources (res_Base r)))\<rparr>,
      res_gpus = res_gpus r + GPUs gpuReq\<rparr>"

definition SubVectorAndGpuReq :: "Resource \<Rightarrow> ResourceVector \<Rightarrow> ResourceVectorMap \<Rightarrow> GpuResourceRequirement \<Rightarrow> Resource" where
  "SubVectorAndGpuReq r vec vectorMap gpuReq =
     \<lparr>res_Base = \<lparr>milliCpu = milliCpu (res_Base r) - Get vec CPUIndex, base_memory = base_memory (res_Base r) - Get vec MemoryIndex,
        scalarResources = fold (\<lambda>(p, c). addScalar p (- c)) (migResources gpuReq)
          (addVectorScalars (- 1) vec vectorMap (scalarResources (res_Base r)))\<rparr>,
      res_gpus = res_gpus r - GPUs gpuReq\<rparr>"

definition GetTotalGPURequest :: "Resource \<Rightarrow> float64" where
  "GetTotalGPURequest r =
     fold (\<lambda>(resourceName, quant) t.
         if \<not> IsMigResource resourceName then t
         else case ExtractGpuAndMemoryFromMigResourceName resourceName of
                None \<Rightarrow> t
              | Some (gpuPortion, _) \<Rightarrow> t + of_int gpuPortion * of_int quant) (scalarResources (res_Base r)) 0 + res_gpus r"

definition SetGPUs :: "float64 \<Rightarrow> Resource \<Rightarrow> Resource" where "SetGPUs gpus r = r\<lparr>res_gpus := gpus\<rparr>"
definition AddGPUs :: "float64 \<Rightarrow> Resource \<Rightarrow> Resource" where "AddGPUs addGpus r = r\<lparr>res_gpus := res_gpus r + addGpus\<rparr>"
definition SubGPUs :: "float64 \<Rightarrow> Resource \<Rightarrow> Resource" where "SubGPUs subGpus r = r\<lparr>res_gpus := res_gpus r - subGpus\<rparr>"

definition Resource_MigResources :: "Resource \<Rightarrow> (string, int) gomap" where
  "Resource_MigResources r =
     fold (\<lambda>(name, quant) m. if IsMigResource name then AList.update name quant m else m) (scalarResources (res_Base r)) []"

subsection \<open>Conversions to and from vectors\<close>

text \<open>\<open>milliValue\<close> and \<open>val\<close> read a Kubernetes quantity.\<close>

definition convertResourceToFloat64 :: "resource_consts \<Rightarrow> ('q \<Rightarrow> int) \<Rightarrow> ('q \<Rightarrow> int) \<Rightarrow> string \<Rightarrow> 'q \<Rightarrow> float64" where
  "convertResourceToFloat64 rc milliValue val rName rQuant =
     (if rName = ResourceCPU rc then of_int (milliValue rQuant) else of_int (val rQuant))"

text \<open>The loop that writes the entries of an amount map at the indexes of their names.\<close>

definition setAmounts :: "resource_consts \<Rightarrow> ResourceVectorMap \<Rightarrow> (string, int) gomap \<Rightarrow> ResourceVector \<Rightarrow> ResourceVector" where
  "setAmounts rc indexMap amounts vec =
     fold (\<lambda>(name, v) vec. let idx = GetIndex rc indexMap name in if idx \<ge> 0 then Set vec idx (of_int v) else vec) amounts vec"

definition Resource_ToVector :: "resource_consts \<Rightarrow> Resource \<Rightarrow> ResourceVectorMap \<Rightarrow> ResourceVector" where
  "Resource_ToVector rc r indexMap =
     setAmounts rc indexMap (scalarResources (res_Base r))
       (Set (Set (Set (NewResourceVector indexMap) CPUIndex (milliCpu (res_Base r))) MemoryIndex (base_memory (res_Base r)))
          GPUIndex (res_gpus r))"

definition Resource_FromVector :: "Resource \<Rightarrow> ResourceVector \<Rightarrow> Resource" where
  "Resource_FromVector r vec =
     r\<lparr>res_Base := (res_Base r)\<lparr>milliCpu := Get vec CPUIndex, base_memory := Get vec MemoryIndex\<rparr>, res_gpus := Get vec GPUIndex\<rparr>"

definition Req_ToVector :: "resource_consts \<Rightarrow> ResourceRequirements \<Rightarrow> ResourceVectorMap \<Rightarrow> ResourceVector" where
  "Req_ToVector rc r indexMap =
     setAmounts rc indexMap (migResources (rr_Gpu r))
       (setAmounts rc indexMap (scalarResources (rr_Base r))
          (Set (Set (Set (NewResourceVector indexMap) CPUIndex (milliCpu (rr_Base r))) MemoryIndex (base_memory (rr_Base r)))
             GPUIndex (GPUs (rr_Gpu r) + of_int (GetDraGpusCount (rr_Gpu r)))))"

definition Req_FromVector :: "ResourceRequirements \<Rightarrow> ResourceVector \<Rightarrow> ResourceRequirements" where
  "Req_FromVector r vec =
     (let r' = r\<lparr>rr_Base := (rr_Base r)\<lparr>milliCpu := Get vec CPUIndex, base_memory := Get vec MemoryIndex\<rparr>\<rparr>;
          gpuVal = Get vec GPUIndex
      in if gpuVal \<ge> 1 then r'\<lparr>rr_Gpu := NewGpuResourceRequirementWithGpus gpuVal 0\<rparr>
         else if gpuVal > 0 then r'\<lparr>rr_Gpu := NewGpuResourceRequirement\<lparr>gpu_portion := gpuVal, gpu_count := 1\<rparr>\<rparr>
         else r')"

lemma length_setAmounts [simp]: "length (setAmounts rc im amounts vec) = length vec"
  unfolding setAmounts_def by (induction amounts arbitrary: vec) (auto simp: Let_def)

lemma length_Resource_ToVector [simp]: "length (Resource_ToVector rc r im) = length (resourceNames im)"
  by (simp add: Resource_ToVector_def NewResourceVector_def)

subsection \<open>Amounts\<close>

text \<open>The sum of the changes a list of pairs makes to one entry.\<close>

definition sumFor :: "string \<Rightarrow> (string \<times> int) list \<Rightarrow> int" where
  "sumFor k ps = (\<Sum>(n, v)\<leftarrow>ps. if n = k then v else 0)"

lemma sumFor_simps [simp]: "sumFor k [] = 0" "sumFor k ((n, v) # ps) = (if n = k then v else 0) + sumFor k ps"
  by (simp_all add: sumFor_def)

lemma gomap_get_addScalar: "gomap_get (addScalar n v m) k = (if k = n then int64_of (gomap_get m n + v) else gomap_get m k)"
  by (simp add: addScalar_def gomap_get_def)

lemma gomap_get_addScalarDropZero: "gomap_get (addScalarDropZero n v m) k = gomap_get (addScalar n v m) k"
  by (auto simp: addScalarDropZero_def Let_def gomap_get_def split: option.splits)

lemma int64_of_add_left [simp]: "int64_of (int64_of a + b) = int64_of (a + b)"
  unfolding int64_of_def by (metis signed_take_bit_add signed_take_bit_signed_take_bit min.idem)

lemma int64_of_add_right [simp]: "int64_of (b + int64_of a) = int64_of (b + a)"
  using int64_of_add_left [of a b] by (simp add: add.commute)

lemma int64_of_diff_left [simp]: "int64_of (int64_of a - b) = int64_of (a - b)"
  using int64_of_add_left [of a "- b"] by simp

lemma int64_of_idem [simp]: "int64_of (int64_of a) = int64_of a"
  using int64_of_add_left [of a 0] by simp

lemma gomap_get_fold_addScalar:
  assumes "\<And>n v m k. gomap_get (add n v m) k = gomap_get (addScalar n v m) k"
  shows "int64_of (gomap_get m k) = gomap_get m k \<Longrightarrow>
    gomap_get (fold (\<lambda>(n, v). add n v) ps m) k = int64_of (gomap_get m k + sumFor k ps)"
proof (induction ps arbitrary: m)
  case (Cons p ps)
  obtain n v where p: "p = (n, v)" by (cases p)
  have "gomap_get (fold (\<lambda>(n, v). add n v) ps (add n v m)) k = int64_of (gomap_get (add n v m) k + sumFor k ps)"
    using Cons.prems by (intro Cons.IH) (auto simp: assms gomap_get_addScalar)
  then show ?case by (auto simp: p assms gomap_get_addScalar add.assoc)
qed simp

lemmas gomap_get_adds =
  gomap_get_fold_addScalar [where add = addScalar, OF refl]
  gomap_get_fold_addScalar [where add = addScalarDropZero, OF gomap_get_addScalarDropZero]

definition negated :: "(string \<times> int) list \<Rightarrow> (string \<times> int) list" where
  "negated ps = map (\<lambda>(n, v). (n, - v)) ps"

lemma sumFor_negated [simp]: "sumFor k (negated ps) = - sumFor k ps"
  by (induction ps) (auto simp: negated_def)

lemma fold_negated: "fold (\<lambda>(n, v). add n (- v)) ps = fold (\<lambda>(n, v). add n v) (negated ps)"
proof
  show "fold (\<lambda>(n, v). add n (- v)) ps m = fold (\<lambda>(n, v). add n v) (negated ps) m" for m
    by (induction ps arbitrary: m) (auto simp: negated_def)
qed

text \<open>The loop over a vector is a list of such changes.\<close>

definition vectorPairs :: "ResourceVector \<Rightarrow> ResourceVectorMap \<Rightarrow> (string \<times> int) list" where
  "vectorPairs vec vectorMap =
     map (\<lambda>i. (ResourceAt vectorMap i, int64_trunc (Get vec i)))
       (filter (\<lambda>i. \<not> (i = CPUIndex \<or> i = MemoryIndex \<or> i = GPUIndex) \<and> Get vec i \<noteq> 0) [0 .. Map_Len vectorMap - 1])"

lemma addVectorScalars_pairs:
  "addVectorScalars 1 vec vectorMap m = fold (\<lambda>(n, v). addScalar n v) (vectorPairs vec vectorMap) m"
  "addVectorScalars (- 1) vec vectorMap m = fold (\<lambda>(n, v). addScalar n v) (negated (vectorPairs vec vectorMap)) m"
proof -
  have *: "fold (\<lambda>i m. if i = CPUIndex \<or> i = MemoryIndex \<or> i = GPUIndex then m
        else let v = Get vec i in if v \<noteq> 0 then addScalar (ResourceAt vectorMap i) (sg * int64_trunc v) m else m) xs m =
      fold (\<lambda>(n, v). addScalar n v) (map (\<lambda>(n, v). (n, sg * v)) (map (\<lambda>i. (ResourceAt vectorMap i, int64_trunc (Get vec i)))
       (filter (\<lambda>i. \<not> (i = CPUIndex \<or> i = MemoryIndex \<or> i = GPUIndex) \<and> Get vec i \<noteq> 0) xs))) m" for sg xs m
    by (induction xs arbitrary: m) (auto simp: Let_def)
  show "addVectorScalars 1 vec vectorMap m = fold (\<lambda>(n, v). addScalar n v) (vectorPairs vec vectorMap) m"
    unfolding addVectorScalars_def * vectorPairs_def by (simp add: comp_def)
  show "addVectorScalars (- 1) vec vectorMap m = fold (\<lambda>(n, v). addScalar n v) (negated (vectorPairs vec vectorMap)) m"
    unfolding addVectorScalars_def * vectorPairs_def negated_def by simp
qed

text \<open>Two resources with the same amounts, whatever zero entries their maps hold.\<close>

definition same_amounts :: "Resource \<Rightarrow> Resource \<Rightarrow> bool" where
  "same_amounts r s \<longleftrightarrow> milliCpu (res_Base r) = milliCpu (res_Base s) \<and> base_memory (res_Base r) = base_memory (res_Base s) \<and>
     res_gpus r = res_gpus s \<and> (\<forall>n. gomap_get (scalarResources (res_Base r)) n = gomap_get (scalarResources (res_Base s)) n)"

lemma same_amounts_Get: "same_amounts r s \<Longrightarrow> Resource_Get rc r n = Resource_Get rc s n"
proof -
  have "Base_Get rc b n = (if n = ResourceCPU rc then milliCpu b else if n = ResourceMemory rc then base_memory b
      else of_int (gomap_get (scalarResources b) n))" for b
    by (simp add: Base_Get_def gomap_get_def split: option.splits)
  then show "same_amounts r s \<Longrightarrow> Resource_Get rc r n = Resource_Get rc s n"
    by (simp add: same_amounts_def Resource_Get_def)
qed

text \<open>The GPU total is a sum over the names, so it does not see zero entries either.\<close>

definition migWeight :: "string \<Rightarrow> float64" where
  "migWeight n = (if IsMigResource n then (case ExtractGpuAndMemoryFromMigResourceName n of None \<Rightarrow> 0 | Some (g, _) \<Rightarrow> of_int g) else 0)"

lemma GetTotalGPURequest_sum:
  assumes "wf_gomap (scalarResources (res_Base r))" and "finite N" and "set (gokeys (scalarResources (res_Base r))) \<subseteq> N"
  shows "GetTotalGPURequest r = (\<Sum>n\<in>N. migWeight n * of_int (gomap_get (scalarResources (res_Base r)) n)) + res_gpus r"
proof -
  let ?m = "scalarResources (res_Base r)"
  have loop: "fold (\<lambda>(n, q) t. if \<not> IsMigResource n then t else case ExtractGpuAndMemoryFromMigResourceName n of None \<Rightarrow> t
      | Some (g, _) \<Rightarrow> t + of_int g * of_int q) xs t = t + (\<Sum>(n, q)\<leftarrow>xs. migWeight n * of_int q)" for xs and t :: float64
    by (induction xs arbitrary: t) (auto simp: migWeight_def split: option.splits)
  have "(\<Sum>(n, q)\<leftarrow>?m. migWeight n * of_int q) = (\<Sum>n\<leftarrow>gokeys ?m. migWeight n * of_int (gomap_get ?m n))"
    using assms(1) by (auto simp: gomap_get_def wf_gomap_def comp_def case_prod_beta intro!: arg_cong [where f = sum_list] map_cong)
  also have "\<dots> = (\<Sum>n\<in>set (gokeys ?m). migWeight n * of_int (gomap_get ?m n))"
    using assms(1) unfolding wf_gomap_def by (rule sum_list_distinct_conv_sum_set)
  also have "\<dots> = (\<Sum>n\<in>N. migWeight n * of_int (gomap_get ?m n))"
  proof (rule sum.mono_neutral_left [OF assms(2,3)])
    have "gomap_get ?m i = 0" if "i \<notin> set (gokeys ?m)" for i
      using that by (simp add: gomap_get_def map_of_eq_None_iff [THEN iffD2])
    then show "\<forall>i\<in>N - set (gokeys ?m). migWeight i * of_int (gomap_get ?m i) = 0" by auto
  qed
  finally show ?thesis unfolding GetTotalGPURequest_def loop by simp
qed

lemma same_amounts_total:
  assumes "same_amounts r s" and "wf_gomap (scalarResources (res_Base r))" and "wf_gomap (scalarResources (res_Base s))"
  shows "GetTotalGPURequest r = GetTotalGPURequest s"
proof -
  let ?N = "set (gokeys (scalarResources (res_Base r))) \<union> set (gokeys (scalarResources (res_Base s)))"
  show ?thesis
    using GetTotalGPURequest_sum [OF assms(2), of ?N] GetTotalGPURequest_sum [OF assms(3), of ?N] assms(1)
    by (simp add: same_amounts_def)
qed

lemma wf_fold_scalar:
  "wf_gomap m \<Longrightarrow> wf_gomap (fold (\<lambda>(n, v). addScalar n v) ps m)"
  "wf_gomap m \<Longrightarrow> wf_gomap (fold (\<lambda>(n, v). addScalarDropZero n v) ps m)"
  by (induction ps arbitrary: m) (auto simp: addScalar_def addScalarDropZero_def Let_def)

lemma fold_draGpus:
  fixes a :: float64
  shows "fold (\<lambda>e g. g + of_int (snd e)) xs a = a + (\<Sum>e\<leftarrow>xs. of_int (snd e))"
    "fold (\<lambda>e g. g - of_int (snd e)) xs a = a - (\<Sum>e\<leftarrow>xs. of_int (snd e))"
  by (induction xs arbitrary: a) auto

definition wf_resource :: "Resource \<Rightarrow> bool" where
  "wf_resource r \<longleftrightarrow> wf_gomap (scalarResources (res_Base r)) \<and> (\<forall>n. int64_range (gomap_get (scalarResources (res_Base r)) n))"

lemma wf_resource_int64: "wf_resource r \<Longrightarrow> int64_of (gomap_get (scalarResources (res_Base r)) n) = gomap_get (scalarResources (res_Base r)) n"
  by (simp add: wf_resource_def)

lemmas roundtrip_simps = Resource_Add_def Resource_Sub_def Base_Add_def Base_Sub_def AddResourceRequirements_def
  SubResourceRequirements_def AddVectorAndGpuReq_def SubVectorAndGpuReq_def addVectorScalars_pairs fold_negated
  gomap_get_adds wf_resource_int64 fold_draGpus algebra_simps



end
