(* ===== verification/Pod_Status.thy ===== *)
theory Pod_Status
  imports Kai_Prelude
begin

text \<open>
  Pod statuses, \<^verbatim>\<open>api/pod_status/pod_status.go\<close>: an enumeration whose values are single bits
  (\<^verbatim>\<open>1 << iota\<close>), and the status groups as bit masks. The lemmas show that every mask test is
  membership in the group the mask lists, and how the groups relate.
\<close>

unbundle bit_operations_syntax

datatype PodStatus =
    Pending | Gated | Allocated | Pipelined | Binding | Bound | Running | Releasing
  | Succeeded | Failed | Unknown | Deleted | StuckInReleasing

fun status_bit :: "PodStatus \<Rightarrow> int" where
  "status_bit Pending = push_bit 0 1"
| "status_bit Gated = push_bit 1 1"
| "status_bit Allocated = push_bit 2 1"
| "status_bit Pipelined = push_bit 3 1"
| "status_bit Binding = push_bit 4 1"
| "status_bit Bound = push_bit 5 1"
| "status_bit Running = push_bit 6 1"
| "status_bit Releasing = push_bit 7 1"
| "status_bit Succeeded = push_bit 8 1"
| "status_bit Failed = push_bit 9 1"
| "status_bit Unknown = push_bit 10 1"
| "status_bit Deleted = push_bit 11 1"
| "status_bit StuckInReleasing = push_bit 12 1"

definition activeUsedStatuses :: int where
  "activeUsedStatuses = status_bit Allocated OR status_bit Pipelined OR status_bit Binding OR
     status_bit Bound OR status_bit Running OR status_bit Releasing OR status_bit StuckInReleasing"

definition activeAllocatedStatuses :: int where
  "activeAllocatedStatuses = status_bit Allocated OR status_bit Pipelined OR status_bit Binding OR
     status_bit Bound OR status_bit Running"

definition aliveStatuses :: int where
  "aliveStatuses = status_bit Allocated OR status_bit Pipelined OR status_bit Binding OR
     status_bit Bound OR status_bit Running OR status_bit Pending OR status_bit Gated"

definition boundStatuses :: int where
  "boundStatuses = status_bit Allocated OR status_bit Bound OR status_bit Running OR
     status_bit Releasing OR status_bit StuckInReleasing"

definition allocatedStatuses :: int where
  "allocatedStatuses = status_bit Allocated OR status_bit Bound OR status_bit Binding OR
     status_bit Running"

fun PodStatus_String :: "PodStatus \<Rightarrow> string" where
  "PodStatus_String Pending = ''Pending''"
| "PodStatus_String Gated = ''Gated''"
| "PodStatus_String Allocated = ''Allocated''"
| "PodStatus_String Pipelined = ''Pipelined''"
| "PodStatus_String Binding = ''Binding''"
| "PodStatus_String Bound = ''Bound''"
| "PodStatus_String Running = ''Running''"
| "PodStatus_String Releasing = ''Releasing''"
| "PodStatus_String Succeeded = ''Succeeded''"
| "PodStatus_String Failed = ''Failed''"
| "PodStatus_String Deleted = ''Deleted''"
| "PodStatus_String StuckInReleasing = ''StuckInReleasing''"
| "PodStatus_String _ = ''Unknown''"

definition IsAliveStatus :: "PodStatus \<Rightarrow> bool" where
  "IsAliveStatus s \<longleftrightarrow> aliveStatuses AND status_bit s \<noteq> 0"

definition IsActiveUsedStatus :: "PodStatus \<Rightarrow> bool" where
  "IsActiveUsedStatus s \<longleftrightarrow> activeUsedStatuses AND status_bit s \<noteq> 0"

definition IsActiveAllocatedStatus :: "PodStatus \<Rightarrow> bool" where
  "IsActiveAllocatedStatus s \<longleftrightarrow> activeAllocatedStatuses AND status_bit s \<noteq> 0"

definition IsPodBound :: "PodStatus \<Rightarrow> bool" where
  "IsPodBound s \<longleftrightarrow> boundStatuses AND status_bit s \<noteq> 0"

definition AllocatedStatus :: "PodStatus \<Rightarrow> bool" where
  "AllocatedStatus s \<longleftrightarrow> allocatedStatuses AND status_bit s \<noteq> 0"

lemmas status_mask_defs =
  activeUsedStatuses_def activeAllocatedStatuses_def aliveStatuses_def boundStatuses_def
  allocatedStatuses_def

lemma IsActiveUsedStatus_iff:
  "IsActiveUsedStatus s \<longleftrightarrow>
     s \<in> {Allocated, Pipelined, Binding, Bound, Running, Releasing, StuckInReleasing}"
  by (cases s) (simp_all add: IsActiveUsedStatus_def status_mask_defs)

lemma IsActiveAllocatedStatus_iff:
  "IsActiveAllocatedStatus s \<longleftrightarrow> s \<in> {Allocated, Pipelined, Binding, Bound, Running}"
  by (cases s) (simp_all add: IsActiveAllocatedStatus_def status_mask_defs)

lemma IsAliveStatus_iff:
  "IsAliveStatus s \<longleftrightarrow> s \<in> {Allocated, Pipelined, Binding, Bound, Running, Pending, Gated}"
  by (cases s) (simp_all add: IsAliveStatus_def status_mask_defs)

lemma IsPodBound_iff:
  "IsPodBound s \<longleftrightarrow> s \<in> {Allocated, Bound, Running, Releasing, StuckInReleasing}"
  by (cases s) (simp_all add: IsPodBound_def status_mask_defs)

lemma AllocatedStatus_iff: "AllocatedStatus s \<longleftrightarrow> s \<in> {Allocated, Bound, Binding, Running}"
  by (cases s) (simp_all add: AllocatedStatus_def status_mask_defs)

lemmas status_iffs =
  IsActiveUsedStatus_iff IsActiveAllocatedStatus_iff IsAliveStatus_iff IsPodBound_iff
  AllocatedStatus_iff

lemma allocated_active: "AllocatedStatus s \<Longrightarrow> IsActiveAllocatedStatus s"
  by (auto simp: status_iffs)

lemma active_allocated_used: "IsActiveAllocatedStatus s \<Longrightarrow> IsActiveUsedStatus s"
  by (auto simp: status_iffs)

lemma active_allocated_alive: "IsActiveAllocatedStatus s \<Longrightarrow> IsAliveStatus s"
  by (auto simp: status_iffs)

end
