(* ===== verification/Pod_Info.thy ===== *)
theory Pod_Info
  imports Pod_Status Gpu_Requirement Numa_Placement
begin

text \<open>
  Tasks, \<^verbatim>\<open>api/pod_info/pod_info.go\<close> and the storage claims of
  \<^verbatim>\<open>api/storageclaim_info/storageclaim_info.go\<close>. A \<open>PodInfo\<close> is a value; where the code shares one
  object between several maps, the components that own the maps keep the copies equal. Of the
  Kubernetes pod only the fields that the modelled code reads are kept (\<open>k8s_pod\<close>); times are seconds.

  Not modelled: the constructor's parsing of annotations and resource lists by other modules,
  extended resource claims and the hash signature.

  The lemmas show how a pod's phase, deletion time and binding determine its status group, which tasks
  may be allocated, and that a pod's GPU vector entry is what its GPU requirement asks for.
\<close>

subsection \<open>Storage claims\<close>

datatype ClaimPhase = ClaimPending | ClaimBound | ClaimLost | OtherClaimPhase

record PodOwnerReference =
  owner_PodID :: PodID
  owner_PodName :: string
  owner_PodNamespace :: string

record StorageClaimInfo =
  claim_Key :: string
  claim_Phase :: ClaimPhase
  claim_Size :: int
  StorageClass :: string
  claim_Owner :: "PodOwnerReference option"
  DeletedOwner :: bool

definition MarkOwnerAlive :: "StorageClaimInfo \<Rightarrow> StorageClaimInfo" where
  "MarkOwnerAlive sc = sc\<lparr>DeletedOwner := False\<rparr>"

definition HasDeletedOwner :: "StorageClaimInfo \<Rightarrow> bool" where
  "HasDeletedOwner sc = DeletedOwner sc"

definition NewStorageClaimInfo :: "string \<Rightarrow> ClaimPhase \<Rightarrow> int \<Rightarrow> string \<Rightarrow> PodOwnerReference option \<Rightarrow> StorageClaimInfo" where
  "NewStorageClaimInfo key phase sz cls podOwner =
     \<lparr>claim_Key = key, claim_Phase = phase, claim_Size = sz, StorageClass = cls, claim_Owner = podOwner,
      DeletedOwner = (podOwner \<noteq> None)\<rparr>"

subsection \<open>Tasks\<close>

datatype ResourceRequestType = RequestTypeGpuMemory | RequestTypeMigInstance | RequestTypeFraction | RequestTypeRegular

definition ReceivedTypeMigInstance :: string where "ReceivedTypeMigInstance = ''MigInstance''"
definition ReceivedTypeFraction :: string where "ReceivedTypeFraction = ''Fraction''"
definition ReceivedTypeRegular :: string where "ReceivedTypeRegular = ''Regular''"
definition ReceivedTypeNone :: string where "ReceivedTypeNone = ''''"

text \<open>A GPU that several tasks share, and a device that a resource claim (DRA) has been given; both types live
  in other modules, and only the fields that are read are kept.\<close>

record FractionalGpuGroup =
  group_ID :: string
  ComputeSharingMode :: string

record DeviceRequestAllocationResult =
  device_Driver :: string
  device_Pool :: string
  device_Device :: string

record PodInfo =
  pod_UID :: PodID
  pod_Job :: string
  pod_Name :: string
  pod_Namespace :: string
  pod_Labels :: "(string, string) gomap"
  pod_CreationTimestamp :: int
  SubGroupName :: string
  RequestType :: ResourceRequestType
  ReceivedType :: string
  ResReqVector :: ResourceVector
  AcceptedResourceVector :: ResourceVector
  VectorMap :: ResourceVectorMap
  GpuRequirement :: GpuResourceRequirement
  AcceptedGpuRequirement :: GpuResourceRequirement
  NodeName :: string
  pod_Status :: PodStatus
  IsVirtualStatus :: bool
  IsLegacyMIGtask :: bool
  IsResizeStandIn :: bool
  pod_Annotations :: "(string, string) gomap option"
  pod_SchedulerName :: string
  FractionalGpuGroups :: "FractionalGpuGroup list"
  pod_NUMAPlacement :: NUMAPlacement
  ResourceClaimInfo :: "(string, DeviceRequestAllocationResult list option) gomap"
  ownedStorageClaims :: "(string, StorageClaimInfo) gomap"
  storageClaims :: "(string, StorageClaimInfo) gomap"

type_synonym PodsMap = "(PodID, PodInfo) gomap"

text \<open>\<^verbatim>\<open>strings.Join\<close>.\<close>

fun strings_Join :: "string list \<Rightarrow> string \<Rightarrow> string" where
  "strings_Join [] sep = []"
| "strings_Join [x] sep = x"
| "strings_Join (x # y # ys) sep = x @ sep @ strings_Join (y # ys) sep"

text \<open>\<^verbatim>\<open>make([]string, len(deletedClaims))\<close> already holds that many empty strings when the loop appends.\<close>

definition GetDeletedStorageClaimsNames :: "PodInfo \<Rightarrow> string" where
  "GetDeletedStorageClaimsNames pinfo =
     (let deletedClaims = filter HasDeletedOwner (map snd (storageClaims pinfo));
          result = replicate (length deletedClaims) []
      in strings_Join (result @ map claim_Key deletedClaims) '', '')"

definition GetUnboundOrReleasingStorageClaimsByStorageClass ::
  "PodInfo \<Rightarrow> (string, StorageClaimInfo list) gomap" where
  "GetUnboundOrReleasingStorageClaimsByStorageClass pinfo =
     (let add = (\<lambda>claim m. AList.update (StorageClass claim)
                   ((case map_of m (StorageClass claim) of None \<Rightarrow> [] | Some cs \<Rightarrow> cs) @ [claim]) m);
          result = fold add (filter (\<lambda>claim. claim_Phase claim = ClaimPending) (map snd (storageClaims pinfo))) []
      in if IsVirtualStatus pinfo \<and> \<not> AllocatedStatus (pod_Status pinfo)
         then fold add (map snd (ownedStorageClaims pinfo)) result else result)"

text \<open>\<open>deletionTime\<close> is the deletion timestamp of the Kubernetes pod, if the task has one at all.\<close>

definition UpsertStorageClaim ::
  "PodInfo \<Rightarrow> int option option \<Rightarrow> StorageClaimInfo \<Rightarrow> PodInfo \<times> StorageClaimInfo" where
  "UpsertStorageClaim pinfo pod claim =
     (let claim' = (if map_option owner_PodID (claim_Owner claim) = Some (pod_UID pinfo) \<and> pod = Some None
                    then MarkOwnerAlive claim else claim);
          pinfo' = (if map_option owner_PodID (claim_Owner claim) = Some (pod_UID pinfo)
                 then pinfo\<lparr>ownedStorageClaims := AList.update (claim_Key claim) claim' (ownedStorageClaims pinfo)\<rparr> else pinfo)
      in (pinfo'\<lparr>storageClaims := AList.update (claim_Key claim) claim' (storageClaims pinfo')\<rparr>, claim'))"

definition PodInfo_Clone :: "PodInfo \<Rightarrow> PodInfo" where
  "PodInfo_Clone pinfo =
     \<lparr>pod_UID = pod_UID pinfo, pod_Job = pod_Job pinfo, pod_Name = pod_Name pinfo, pod_Namespace = pod_Namespace pinfo,
      pod_Labels = pod_Labels pinfo, pod_CreationTimestamp = pod_CreationTimestamp pinfo,
      SubGroupName = SubGroupName pinfo, RequestType = RequestType pinfo, ReceivedType = ReceivedType pinfo,
      ResReqVector = ResReqVector pinfo, AcceptedResourceVector = AcceptedResourceVector pinfo,
      VectorMap = VectorMap pinfo, GpuRequirement = GpuRequirement pinfo,
      AcceptedGpuRequirement = AcceptedGpuRequirement pinfo, NodeName = NodeName pinfo, pod_Status = pod_Status pinfo,
      IsVirtualStatus = IsVirtualStatus pinfo, IsLegacyMIGtask = IsLegacyMIGtask pinfo,
      IsResizeStandIn = IsResizeStandIn pinfo, pod_Annotations = pod_Annotations pinfo,
      pod_SchedulerName = pod_SchedulerName pinfo, FractionalGpuGroups = FractionalGpuGroups pinfo,
      pod_NUMAPlacement = Placement_Clone (pod_NUMAPlacement pinfo),
      ResourceClaimInfo = ResourceClaimInfo pinfo, ownedStorageClaims = ownedStorageClaims pinfo,
      storageClaims = storageClaims pinfo\<rparr>"

definition IsMigProfileRequest :: "PodInfo \<Rightarrow> bool" where
  "IsMigProfileRequest pinfo \<longleftrightarrow> RequestType pinfo = RequestTypeMigInstance"

definition IsMigProfileAllocation :: "PodInfo \<Rightarrow> bool" where
  "IsMigProfileAllocation pinfo \<longleftrightarrow> ReceivedType pinfo = ReceivedTypeMigInstance"

definition IsFractionRequest :: "PodInfo \<Rightarrow> bool" where
  "IsFractionRequest pinfo \<longleftrightarrow> RequestType pinfo = RequestTypeFraction"

definition IsFractionAllocation :: "PodInfo \<Rightarrow> bool" where
  "IsFractionAllocation pinfo \<longleftrightarrow> ReceivedType pinfo = ReceivedTypeFraction"

definition IsFractionCandidate :: "PodInfo \<Rightarrow> bool" where
  "IsFractionCandidate pinfo \<longleftrightarrow> RequestType pinfo = RequestTypeFraction \<or> RequestType pinfo = RequestTypeGpuMemory"

definition IsMigCandidate :: "PodInfo \<Rightarrow> bool" where
  "IsMigCandidate pinfo \<longleftrightarrow> RequestType pinfo = RequestTypeMigInstance"

definition IsGpuMemoryRequest :: "PodInfo \<Rightarrow> bool" where
  "IsGpuMemoryRequest pinfo \<longleftrightarrow> RequestType pinfo = RequestTypeGpuMemory"

definition IsRegularGPURequest :: "PodInfo \<Rightarrow> bool" where
  "IsRegularGPURequest pinfo \<longleftrightarrow> RequestType pinfo = RequestTypeRegular"

definition IsSharedGPURequest :: "PodInfo \<Rightarrow> bool" where
  "IsSharedGPURequest pinfo \<longleftrightarrow> IsFractionRequest pinfo \<or> IsGpuMemoryRequest pinfo"

definition IsSharedGPUAllocation :: "PodInfo \<Rightarrow> bool" where
  "IsSharedGPUAllocation pinfo \<longleftrightarrow> IsFractionAllocation pinfo"

definition IsRequireAnyKindOfGPU :: "PodInfo \<Rightarrow> bool" where
  "IsRequireAnyKindOfGPU pinfo \<longleftrightarrow>
     GPUs (GpuRequirement pinfo) > 0 \<or> GetDraGpusCount (GpuRequirement pinfo) > 0 \<or> IsGpuMemoryRequest pinfo \<or> IsMigProfileRequest pinfo"

definition IsCPUOnlyRequest :: "PodInfo \<Rightarrow> bool" where
  "IsCPUOnlyRequest pinfo \<longleftrightarrow> \<not> IsRequireAnyKindOfGPU pinfo"

subsection \<open>Status of a Kubernetes pod\<close>

datatype PodPhase = PodPending | PodRunning | PodSucceeded | PodFailed | PodUnknown | OtherPhase

record k8s_pod =
  Phase :: PodPhase
  DeletionTimestamp :: "int option"
  k8s_NodeName :: string
  SchedulingGates :: nat

definition getTaskStatus :: "k8s_pod \<Rightarrow> bool \<Rightarrow> int \<Rightarrow> int \<Rightarrow> PodStatus" where
  "getTaskStatus pod hasBindRequest stuckInReleasingThreshold now =
     (case Phase pod of
        PodRunning \<Rightarrow>
          (case DeletionTimestamp pod of
             Some t \<Rightarrow> if now - t > stuckInReleasingThreshold then StuckInReleasing else Releasing
           | None \<Rightarrow> Running)
      | PodPending \<Rightarrow>
          if DeletionTimestamp pod \<noteq> None then Releasing
          else if k8s_NodeName pod \<noteq> [] then Bound
          else if hasBindRequest then Binding
          else if SchedulingGates pod > 0 then Gated
          else Pending
      | PodUnknown \<Rightarrow> Unknown
      | PodSucceeded \<Rightarrow> Succeeded
      | PodFailed \<Rightarrow> Failed
      | OtherPhase \<Rightarrow> Unknown)"

definition rebuildResReqVector :: "resource_consts \<Rightarrow> PodInfo \<Rightarrow> PodInfo" where
  "rebuildResReqVector rc pinfo =
     (let v0 = Set (ResReqVector pinfo) GPUIndex (GPUs (GpuRequirement pinfo) + of_int (GetDraGpusCount (GpuRequirement pinfo)));
          v = fold (\<lambda>(migName, migCount) v.
                      let idx = GetIndex rc (VectorMap pinfo) migName
                      in if idx \<ge> 0 then Set v idx (of_int migCount) else v)
                (migResources (GpuRequirement pinfo)) v0
      in pinfo\<lparr>ResReqVector := v\<rparr>)"

definition ShouldAllocate :: "PodInfo \<Rightarrow> bool \<Rightarrow> bool" where
  "ShouldAllocate pinfo isRealAllocation \<longleftrightarrow>
     pod_Status pinfo = Pending \<or> (\<not> isRealAllocation \<and> pod_Status pinfo = Releasing \<and> IsVirtualStatus pinfo)"

subsection \<open>Properties of tasks\<close>

lemma PodInfo_Clone_id [simp]: "PodInfo_Clone pinfo = pinfo"
  by (simp add: PodInfo_Clone_def)

lemma ShouldAllocate_real: "ShouldAllocate pinfo True \<longleftrightarrow> pod_Status pinfo = Pending"
  by (simp add: ShouldAllocate_def)

lemma ShouldAllocate_not_active: "ShouldAllocate pinfo b \<Longrightarrow> \<not> IsActiveAllocatedStatus (pod_Status pinfo)"
  by (auto simp: ShouldAllocate_def status_iffs)

text \<open>The status of a pod: a pod with a deletion timestamp is never alive nor allocated and, while its
  phase is pending or running, still holds its resources; a pod that is not being deleted is actively
  allocated exactly when it runs or is pending with a node or a bind request.\<close>

lemma getTaskStatus_groups:
  "(DeletionTimestamp pod \<noteq> None \<longrightarrow>
      \<not> IsAliveStatus (getTaskStatus pod br th now) \<and> \<not> AllocatedStatus (getTaskStatus pod br th now) \<and>
      (IsActiveUsedStatus (getTaskStatus pod br th now) \<longleftrightarrow> Phase pod = PodPending \<or> Phase pod = PodRunning)) \<and>
   (DeletionTimestamp pod = None \<longrightarrow>
      (IsActiveAllocatedStatus (getTaskStatus pod br th now) \<longleftrightarrow>
         Phase pod = PodRunning \<or> (Phase pod = PodPending \<and> (k8s_NodeName pod \<noteq> [] \<or> br))) \<and>
      (IsAliveStatus (getTaskStatus pod br th now) \<longleftrightarrow> Phase pod = PodRunning \<or> Phase pod = PodPending))"
  by (cases "Phase pod"; cases "DeletionTimestamp pod") (auto simp: getTaskStatus_def status_iffs)

text \<open>The names of the deleted storage claims of a task are joined with as many leading separators as
  there are claims: one deleted claim \<open>ns/c\<close> is reported as \<open>, ns/c\<close>.\<close>

lemma deleted_claims_leading_separators:
  "GetDeletedStorageClaimsNames pinfo =
     (let names = map claim_Key (filter HasDeletedOwner (map snd (storageClaims pinfo)))
      in concat (replicate (length names) '', '') @ strings_Join names '', '')"
proof -
  have join: "strings_Join (replicate n [] @ ms) s = concat (replicate n s) @ strings_Join ms s"
    if "ms \<noteq> []" for n and ms :: "string list" and s
    using that
  proof (induction n)
    case (Suc n)
    obtain y ys where "replicate n [] @ ms = y # ys" using Suc.prems by (cases "replicate n [] @ ms") auto
    then show ?case using Suc by simp
  qed simp
  let ?d = "filter HasDeletedOwner (map snd (storageClaims pinfo))"
  show ?thesis
  proof (cases "?d = []")
    case False
    then show ?thesis
      using join [of "map claim_Key ?d" "length ?d"] by (simp only: GetDeletedStorageClaimsNames_def Let_def length_map map_is_Nil_conv not_False_eq_True simp_thms)
  qed (simp only: GetDeletedStorageClaimsNames_def Let_def list.map list.size replicate_0 concat.simps append_Nil)
qed

subsection \<open>An example task\<close>

definition examplePod :: "PodID \<Rightarrow> PodStatus \<Rightarrow> PodInfo" where
  "examplePod uid st =
     \<lparr>pod_UID = uid, pod_Job = ''job'', pod_Name = uid, pod_Namespace = ''ns'', pod_Labels = [], pod_CreationTimestamp = 0,
      SubGroupName = [], RequestType = RequestTypeRegular, ReceivedType = [],
      ResReqVector = [1000, 1024, 1, 1], AcceptedResourceVector = [],
      VectorMap = \<lparr>resourceNames = [''cpu'', ''memory'', ''gpu'', ''pods''],
        namesToIndex = map_of [(''cpu'', 0), (''memory'', 1), (''gpu'', 2), (''pods'', 3)]\<rparr>,
      GpuRequirement = NewGpuResourceRequirementWithGpus 1 0, AcceptedGpuRequirement = NewGpuResourceRequirement,
      NodeName = [], pod_Status = st, IsVirtualStatus = False, IsLegacyMIGtask = False, IsResizeStandIn = False,
      pod_Annotations = None, pod_SchedulerName = ''kai-scheduler'', FractionalGpuGroups = [], pod_NUMAPlacement = NoPlacement, ResourceClaimInfo = [],
      ownedStorageClaims = [], storageClaims = []\<rparr>"

end
