(* ===== verification/Subgroups.thy ===== *)
theory Subgroups
  imports Pod_Info
begin

text \<open>
  Subgroups of a job, \<^verbatim>\<open>api/podgroup_info/subgroup_info\<close> (\<^verbatim>\<open>podset.go\<close>, \<^verbatim>\<open>subgroupset.go\<close>).

  A \<open>PodSet\<close> is a leaf: a set of pods with a minimum, three maps over the pods and three counters
  that the code maintains incrementally. A \<open>SubGroupSet\<close> is an inner node of the tree. The parent
  pointers, read only by the signature hash, are left out, as is that hash. The tree type is polymorphic
  in its leaves: a job keeps its pod sets in a map and the tree holds their names.

  The lemmas show that the counters and indexes always agree with the pods (\<open>podset_ok\<close>), for every
  sequence of \<open>AssignTask\<close>, and how satisfaction and readiness of a tree follow from its leaves.
\<close>

subsection \<open>Pod sets\<close>

record TopologyConstraintInfo =
  Topology :: string
  RequiredLevel :: string
  PreferredLevel :: string

record PodSet =
  ps_name :: string
  ps_topology :: "TopologyConstraintInfo option"
  minAvailable :: int
  podInfos :: PodsMap
  podStatusIndex :: "(PodStatus, PodsMap) gomap"
  podStatusMap :: "(PodID, PodStatus) gomap"
  numActiveAllocatedTasks :: int
  numActiveUsedTasks :: int
  numAliveTasks :: int

definition NewPodSet :: "string \<Rightarrow> int \<Rightarrow> TopologyConstraintInfo option \<Rightarrow> PodSet" where
  "NewPodSet nm minAvail tc =
     \<lparr>ps_name = nm, ps_topology = tc, minAvailable = minAvail, podInfos = [], podStatusIndex = [],
      podStatusMap = [], numActiveAllocatedTasks = 0, numActiveUsedTasks = 0, numAliveTasks = 0\<rparr>"

definition SetMinAvailable :: "int \<Rightarrow> PodSet \<Rightarrow> PodSet" where
  "SetMinAvailable v ps = ps\<lparr>minAvailable := v\<rparr>"

definition statusPods :: "(PodStatus, PodsMap) gomap \<Rightarrow> PodStatus \<Rightarrow> PodsMap" where
  "statusPods idx s = (case map_of idx s of None \<Rightarrow> [] | Some m \<Rightarrow> m)"

definition clearOldStatus :: "PodInfo \<Rightarrow> PodSet \<Rightarrow> PodSet" where
  "clearOldStatus ti ps =
     (case map_of (podStatusMap ps) (pod_UID ti) of
        None \<Rightarrow> ps
      | Some oldStatus \<Rightarrow>
          ps\<lparr>numActiveAllocatedTasks := numActiveAllocatedTasks ps - (if IsActiveAllocatedStatus oldStatus then 1 else 0),
             numActiveUsedTasks := numActiveUsedTasks ps - (if IsActiveUsedStatus oldStatus then 1 else 0),
             numAliveTasks := numAliveTasks ps - (if IsAliveStatus oldStatus then 1 else 0),
             podStatusIndex :=
               (case map_of (podStatusIndex ps) oldStatus of
                  None \<Rightarrow> podStatusIndex ps
                | Some m \<Rightarrow> AList.update oldStatus (AList.delete (pod_UID ti) m) (podStatusIndex ps)),
             podStatusMap := AList.delete (pod_UID ti) (podStatusMap ps),
             podInfos := AList.delete (pod_UID ti) (podInfos ps)\<rparr>)"

definition AssignTask :: "PodInfo \<Rightarrow> PodSet \<Rightarrow> PodSet" where
  "AssignTask ti ps0 =
     (let ps = clearOldStatus ti ps0;
          s = pod_Status ti
      in ps\<lparr>podStatusIndex := AList.update s (AList.update (pod_UID ti) ti (statusPods (podStatusIndex ps) s)) (podStatusIndex ps),
            numActiveAllocatedTasks := numActiveAllocatedTasks ps + (if IsActiveAllocatedStatus s then 1 else 0),
            numActiveUsedTasks := numActiveUsedTasks ps + (if IsActiveUsedStatus s then 1 else 0),
            numAliveTasks := numAliveTasks ps + (if IsAliveStatus s then 1 else 0),
            podStatusMap := AList.update (pod_UID ti) s (podStatusMap ps),
            podInfos := AList.update (pod_UID ti) ti (podInfos ps)\<rparr>)"

definition WithPodInfos :: "PodsMap \<Rightarrow> PodSet \<Rightarrow> PodSet" where
  "WithPodInfos tasks ps =
     fold AssignTask (map snd tasks) (fold clearOldStatus (map snd (podInfos ps)) ps)"

definition GetNumGatedTasks :: "PodSet \<Rightarrow> int" where
  "GetNumGatedTasks ps = int (length (statusPods (podStatusIndex ps) Gated))"

definition GetNumPendingTasks :: "PodSet \<Rightarrow> int" where
  "GetNumPendingTasks ps = int (length (statusPods (podStatusIndex ps) Pending))"

definition PodSet_IsReadyForScheduling :: "PodSet \<Rightarrow> bool" where
  "PodSet_IsReadyForScheduling ps =
     (let readyTasks = numAliveTasks ps - GetNumGatedTasks ps
      in if int32_of readyTasks < minAvailable ps then False else True)"

definition PodSet_IsGangSatisfied :: "PodSet \<Rightarrow> bool" where
  "PodSet_IsGangSatisfied ps \<longleftrightarrow> numActiveUsedTasks ps \<ge> minAvailable ps"

definition PodSet_IsElastic :: "PodSet \<Rightarrow> bool" where
  "PodSet_IsElastic ps \<longleftrightarrow> minAvailable ps < int32_of (int (length (podInfos ps)))"

definition PodSet_Clone :: "PodSet \<Rightarrow> PodSet" where
  "PodSet_Clone ps = NewPodSet (ps_name ps) (minAvailable ps) (ps_topology ps)"

definition isAllPodsActiveAllocated :: "PodSet \<Rightarrow> bool" where
  "isAllPodsActiveAllocated ps \<longleftrightarrow> numActiveAllocatedTasks ps = int (length (podInfos ps))"

subsection \<open>The tree\<close>

datatype 'p SubGroupSet =
  SubGroupSet (sgs_name: string) (sgs_topology: "TopologyConstraintInfo option") (minSubGroup: "int option")
    (sgs_groups: "'p SubGroupSet list") (sgs_podSets: "'p list")

datatype 'p SubGroupMember = GroupMember "'p SubGroupSet" | PodSetMember 'p

definition NewSubGroupSet :: "string \<Rightarrow> TopologyConstraintInfo option \<Rightarrow> 'p SubGroupSet" where
  "NewSubGroupSet nm tc = SubGroupSet nm tc None [] []"

definition SetMinSubGroup :: "int option \<Rightarrow> 'p SubGroupSet \<Rightarrow> 'p SubGroupSet" where
  "SetMinSubGroup m sgs = SubGroupSet (sgs_name sgs) (sgs_topology sgs) m (sgs_groups sgs) (sgs_podSets sgs)"

definition AddSubGroup :: "'p SubGroupSet \<Rightarrow> 'p SubGroupSet \<Rightarrow> 'p SubGroupSet" where
  "AddSubGroup sgs sub =
     SubGroupSet (sgs_name sgs) (sgs_topology sgs) (minSubGroup sgs) (sgs_groups sgs @ [sub]) (sgs_podSets sgs)"

definition AddPodSet :: "'p SubGroupSet \<Rightarrow> 'p \<Rightarrow> 'p SubGroupSet" where
  "AddPodSet sgs ps =
     SubGroupSet (sgs_name sgs) (sgs_topology sgs) (minSubGroup sgs) (sgs_groups sgs) (sgs_podSets sgs @ [ps])"

lemma count_if_fundef_cong [fundef_cong]:
  "xs = ys \<Longrightarrow> (\<And>x. x \<in> set ys \<Longrightarrow> P x = Q x) \<Longrightarrow> count_if P xs = count_if Q ys"
  using count_if_cong by blast

fun SubGroupSet_Clone :: "PodSet SubGroupSet \<Rightarrow> PodSet SubGroupSet" where
  "SubGroupSet_Clone (SubGroupSet nm tc m gs ps) =
     (let root0 = SetMinSubGroup m (NewSubGroupSet nm tc);
          root1 = fold (\<lambda>p root. AddPodSet root (PodSet_Clone p)) ps root0
      in fold (\<lambda>g root. AddSubGroup root g) (map SubGroupSet_Clone gs) root1)"

fun GetDescendantPodSets :: "PodSet SubGroupSet \<Rightarrow> (string, PodSet) gomap" where
  "GetDescendantPodSets (SubGroupSet nm tc m gs ps) =
     fold (\<lambda>sub result. fold (\<lambda>(n, p) result. AList.update n p result) sub result)
       (map GetDescendantPodSets gs) (fold (\<lambda>p result. AList.update (ps_name p) p result) ps [])"

definition GetMinMembersToSatisfy :: "'p SubGroupSet \<Rightarrow> int" where
  "GetMinMembersToSatisfy sgs =
     (case minSubGroup sgs of
        Some m \<Rightarrow> m
      | None \<Rightarrow> int (length (sgs_groups sgs)) + int (length (sgs_podSets sgs)))"

definition GetMembers :: "'p SubGroupSet \<Rightarrow> 'p SubGroupMember list" where
  "GetMembers sgs = map GroupMember (sgs_groups sgs) @ map PodSetMember (sgs_podSets sgs)"

fun GetNumActiveAllocatedDirectSubGroups :: "PodSet SubGroupSet \<Rightarrow> int" where
  "GetNumActiveAllocatedDirectSubGroups (SubGroupSet nm tc m gs ps) =
     count_if (\<lambda>g. GetNumActiveAllocatedDirectSubGroups g \<ge> GetMinMembersToSatisfy g) gs +
     count_if (\<lambda>p. numActiveAllocatedTasks p \<ge> minAvailable p) ps"

definition IsMinRequirementSatisfied :: "PodSet SubGroupSet \<Rightarrow> bool" where
  "IsMinRequirementSatisfied sgs \<longleftrightarrow> GetNumActiveAllocatedDirectSubGroups sgs \<ge> GetMinMembersToSatisfy sgs"

fun SubGroupSet_IsReadyForScheduling :: "PodSet SubGroupSet \<Rightarrow> bool" where
  "SubGroupSet_IsReadyForScheduling (SubGroupSet nm tc m gs ps) \<longleftrightarrow>
     count_if SubGroupSet_IsReadyForScheduling gs + count_if PodSet_IsReadyForScheduling ps
       \<ge> GetMinMembersToSatisfy (SubGroupSet nm tc m gs ps)"

fun SubGroupSet_IsGangSatisfied :: "PodSet SubGroupSet \<Rightarrow> bool" where
  "SubGroupSet_IsGangSatisfied (SubGroupSet nm tc m gs ps) \<longleftrightarrow>
     count_if SubGroupSet_IsGangSatisfied gs + count_if PodSet_IsGangSatisfied ps
       \<ge> GetMinMembersToSatisfy (SubGroupSet nm tc m gs ps)"

definition GetNumGangSatisfiedMembers :: "PodSet SubGroupSet \<Rightarrow> int" where
  "GetNumGangSatisfiedMembers sgs =
     count_if SubGroupSet_IsGangSatisfied (sgs_groups sgs) + count_if PodSet_IsGangSatisfied (sgs_podSets sgs)"

text \<open>The methods of \<^verbatim>\<open>SubGroupMember\<close> that dispatch on the two kinds of member.\<close>

fun member_IsReadyForScheduling :: "PodSet SubGroupMember \<Rightarrow> bool" where
  "member_IsReadyForScheduling (GroupMember g) = SubGroupSet_IsReadyForScheduling g"
| "member_IsReadyForScheduling (PodSetMember p) = PodSet_IsReadyForScheduling p"

fun member_GetName :: "PodSet SubGroupMember \<Rightarrow> string" where
  "member_GetName (GroupMember g) = sgs_name g"
| "member_GetName (PodSetMember p) = ps_name p"

fun member_GetMinMembersToSatisfy :: "PodSet SubGroupMember \<Rightarrow> int" where
  "member_GetMinMembersToSatisfy (GroupMember g) = GetMinMembersToSatisfy g"
| "member_GetMinMembersToSatisfy (PodSetMember p) = minAvailable p"

fun member_GetNumActiveAllocatedMembers :: "PodSet SubGroupMember \<Rightarrow> int" where
  "member_GetNumActiveAllocatedMembers (GroupMember g) = GetNumActiveAllocatedDirectSubGroups g"
| "member_GetNumActiveAllocatedMembers (PodSetMember p) = numActiveAllocatedTasks p"

subsection \<open>The pods and the counters agree\<close>

definition pods :: "PodSet \<Rightarrow> PodInfo list" where
  "pods ps = map snd (podInfos ps)"

definition podset_ok :: "PodSet \<Rightarrow> bool" where
  "podset_ok ps \<longleftrightarrow>
     wf_gomap (podInfos ps) \<and> wf_gomap (podStatusMap ps) \<and>
     (\<forall>(u, p)\<in>set (podInfos ps). pod_UID p = u) \<and>
     (\<forall>u. map_of (podStatusMap ps) u = map_option pod_Status (map_of (podInfos ps) u)) \<and>
     numActiveAllocatedTasks ps = count_if (\<lambda>p. IsActiveAllocatedStatus (pod_Status p)) (pods ps) \<and>
     numActiveUsedTasks ps = count_if (\<lambda>p. IsActiveUsedStatus (pod_Status p)) (pods ps) \<and>
     numAliveTasks ps = count_if (\<lambda>p. IsAliveStatus (pod_Status p)) (pods ps) \<and>
     (\<forall>s. wf_gomap (statusPods (podStatusIndex ps) s)) \<and>
     (\<forall>s u. map_of (statusPods (podStatusIndex ps) s) u =
        (case map_of (podInfos ps) u of Some p \<Rightarrow> if pod_Status p = s then Some p else None | None \<Rightarrow> None))"

lemma podset_ok_New [simp]: "podset_ok (NewPodSet nm m tc)"
  by (simp add: podset_ok_def NewPodSet_def pods_def statusPods_def)

lemma count_delete:
  assumes "wf_gomap m"
  shows "count_if P (map snd (AList.delete u m)) =
    count_if P (map snd m) - (case map_of m u of Some p \<Rightarrow> if P p then 1 else 0 | None \<Rightarrow> 0)"
  using assms
proof (induction m)
  case (Cons e m)
  have "map_of m (fst e) = None" using Cons.prems by (simp add: wf_gomap_def map_of_eq_None_iff)
  moreover have "AList.delete (fst e) m = m"
    using Cons.prems by (intro delete_id) (auto simp: wf_gomap_def)
  ultimately show ?case using Cons by (cases e) (auto simp: wf_gomap_def)
qed simp

lemma count_update:
  assumes "wf_gomap m" and "map_of m u = None"
  shows "count_if P (map snd (AList.update u p m)) = count_if P (map snd m) + (if P p then 1 else 0)"
  using AList_update_new [OF assms(2)] by simp

lemma statusPods_update [simp]:
  "statusPods (AList.update s m idx) s' = (if s = s' then m else statusPods idx s')"
  by (simp add: statusPods_def)

lemma wf_statusPods_idx: "(\<forall>s. wf_gomap (statusPods idx s)) \<Longrightarrow> map_of idx s = Some m \<Longrightarrow> wf_gomap m"
  by (metis option.case(2) statusPods_def)

lemma statusPods_delete:
  "statusPods (case map_of idx s of None \<Rightarrow> idx | Some m \<Rightarrow> AList.update s (AList.delete u m) idx) s' =
     (if s = s' then AList.delete u (statusPods idx s') else statusPods idx s')"
  by (auto simp: statusPods_def split: option.split)

lemma podset_ok_clear:
  assumes "podset_ok ps"
  shows "podset_ok (clearOldStatus ti ps) \<and> podInfos (clearOldStatus ti ps) = AList.delete (pod_UID ti) (podInfos ps)"
proof (cases "map_of (podInfos ps) (pod_UID ti)")
  case None
  then have "map_of (podStatusMap ps) (pod_UID ti) = None" using assms by (simp add: podset_ok_def)
  moreover have "AList.delete (pod_UID ti) (podInfos ps) = podInfos ps"
    using None by (intro delete_id) (simp add: map_of_eq_None_iff)
  ultimately show ?thesis using assms by (simp add: clearOldStatus_def)
next
  case (Some p)
  then have st: "map_of (podStatusMap ps) (pod_UID ti) = Some (pod_Status p)" using assms by (simp add: podset_ok_def)
  let ?u = "pod_UID ti" and ?ps = "clearOldStatus ti ps"
  have sel: "podInfos ?ps = AList.delete ?u (podInfos ps)" "podStatusMap ?ps = AList.delete ?u (podStatusMap ps)"
    "\<And>s. statusPods (podStatusIndex ?ps) s = (if pod_Status p = s then AList.delete ?u (statusPods (podStatusIndex ps) s)
       else statusPods (podStatusIndex ps) s)"
    using st by (simp_all add: clearOldStatus_def statusPods_delete)
  have wf: "wf_gomap (podInfos ps)" using assms by (simp add: podset_ok_def)
  have keys: "\<forall>(u, q)\<in>set (podInfos ?ps). pod_UID q = u"
    using assms by (auto simp: sel podset_ok_def)
  have cnt: "numActiveAllocatedTasks ?ps = count_if (\<lambda>p. IsActiveAllocatedStatus (pod_Status p)) (pods ?ps)"
    "numActiveUsedTasks ?ps = count_if (\<lambda>p. IsActiveUsedStatus (pod_Status p)) (pods ?ps)"
    "numAliveTasks ?ps = count_if (\<lambda>p. IsAliveStatus (pod_Status p)) (pods ?ps)"
    using assms st Some unfolding pods_def sel(1) count_delete [OF wf]
    by (simp_all add: podset_ok_def clearOldStatus_def pods_def)
  have idx: "map_of (statusPods (podStatusIndex ?ps) s) u =
      (case map_of (podInfos ?ps) u of Some p \<Rightarrow> if pod_Status p = s then Some p else None | None \<Rightarrow> None)" for s u
    using assms Some by (auto simp: podset_ok_def sel split: option.split)
  show ?thesis
    using assms keys cnt idx sel(1) unfolding podset_ok_def by (simp add: sel)
qed

lemma podset_ok_AssignTask:
  assumes "podset_ok ps"
  shows "podset_ok (AssignTask ti ps)"
    "podInfos (AssignTask ti ps) = AList.update (pod_UID ti) ti (AList.delete (pod_UID ti) (podInfos ps))"
    "minAvailable (AssignTask ti ps) = minAvailable ps" "ps_name (AssignTask ti ps) = ps_name ps"
proof -
  define q where "q = clearOldStatus ti ps"
  have q: "podset_ok q" "podInfos q = AList.delete (pod_UID ti) (podInfos ps)"
    using podset_ok_clear [OF assms, of ti] by (simp_all add: q_def)
  let ?a = "AssignTask ti ps" and ?u = "pod_UID ti" and ?s = "pod_Status ti"
  have sel: "podInfos ?a = AList.update ?u ti (podInfos q)" "podStatusMap ?a = AList.update ?u ?s (podStatusMap q)"
    "podStatusIndex ?a = AList.update ?s (AList.update ?u ti (statusPods (podStatusIndex q) ?s)) (podStatusIndex q)"
    by (simp_all add: AssignTask_def q_def [symmetric] Let_def)
  show pi: "podInfos ?a = AList.update ?u ti (AList.delete ?u (podInfos ps))" using sel(1) q(2) by simp
  show "minAvailable ?a = minAvailable ps" "ps_name ?a = ps_name ps"
    by (simp_all add: AssignTask_def clearOldStatus_def Let_def split: option.split)
  have none: "map_of (podInfos q) ?u = None" using q(2) by simp
  have wf: "wf_gomap (podInfos q)" using q(1) by (simp add: podset_ok_def)
  have cnt: "numActiveAllocatedTasks ?a = count_if (\<lambda>p. IsActiveAllocatedStatus (pod_Status p)) (pods ?a)"
    "numActiveUsedTasks ?a = count_if (\<lambda>p. IsActiveUsedStatus (pod_Status p)) (pods ?a)"
    "numAliveTasks ?a = count_if (\<lambda>p. IsAliveStatus (pod_Status p)) (pods ?a)"
    using q(1) unfolding pods_def sel(1) count_update [OF wf none]
    by (simp_all add: podset_ok_def AssignTask_def q_def [symmetric] Let_def pods_def)
  have keys: "\<forall>(u, p)\<in>set (podInfos ?a). pod_UID p = u"
    using q(1) AList_update_new [OF none] by (auto simp: sel podset_ok_def)
  show "podset_ok ?a"
    using q(1) keys cnt none unfolding podset_ok_def by (simp add: sel)
qed

subsection \<open>Changing the status of pods\<close>

lemma pods_lookup:
  "podset_ok ps \<Longrightarrow> p \<in> set (pods ps) \<longleftrightarrow> map_of (podInfos ps) (pod_UID p) = Some p"
proof -
  assume ok: "podset_ok ps"
  then have "p \<in> set (pods ps) \<longleftrightarrow> (pod_UID p, p) \<in> set (podInfos ps)"
    by (force simp: pods_def podset_ok_def image_iff)
  then show ?thesis using ok by (simp add: podset_ok_def set_gomap_conv)
qed

lemma pods_distinct: "podset_ok ps \<Longrightarrow> distinct (map pod_UID (pods ps))"
proof -
  assume ok: "podset_ok ps"
  then have "map pod_UID (pods ps) = gokeys (podInfos ps)"
    by (auto simp: pods_def podset_ok_def)
  then show ?thesis using ok by (simp add: podset_ok_def wf_gomap_def)
qed

lemma index_pods:
  assumes "podset_ok ps"
  shows "mset (map snd (statusPods (podStatusIndex ps) s)) = mset (filter (\<lambda>p. pod_Status p = s) (pods ps))"
proof -
  let ?m = "statusPods (podStatusIndex ps) s" and ?n = "filter (\<lambda>(u, p). pod_Status p = s) (podInfos ps)"
  have "distinct ?m" "distinct (podInfos ps)"
    using assms unfolding podset_ok_def wf_gomap_def distinct_map by blast+
  then have wf: "distinct ?m" "distinct ?n" by simp_all
  have "e \<in> set ?m \<longleftrightarrow> e \<in> set ?n" for e
    using assms by (cases e) (auto simp: podset_ok_def set_gomap_conv split: option.splits if_splits)
  then have "mset ?m = mset ?n" using wf by (metis set_eq_iff_mset_eq_distinct set_eqI)
  then have "mset (map snd ?m) = mset (map snd ?n)" by (metis mset_map)
  also have "map snd ?n = filter (\<lambda>p. pod_Status p = s) (pods ps)"
    by (simp add: pods_def filter_map comp_def case_prod_unfold)
  finally show ?thesis .
qed

lemma count_AssignTask:
  assumes "podset_ok ps" and "map_of (podInfos ps) (pod_UID ti) = Some old"
  shows "count_if P (pods (AssignTask ti ps)) = count_if P (pods ps) - (if P old then 1 else 0) + (if P ti then 1 else 0)"
proof -
  have wf: "wf_gomap (podInfos ps)" using assms(1) by (simp add: podset_ok_def)
  then have "wf_gomap (AList.delete (pod_UID ti) (podInfos ps))" by simp
  then show ?thesis
    unfolding pods_def podset_ok_AssignTask(2) [OF assms(1)]
    by (subst count_update) (simp_all add: count_delete [OF wf] assms(2))
qed

lemma fold_AssignTask:
  assumes "podset_ok ps" and "\<forall>x\<in>set xs. map_of (podInfos ps) (pod_UID x) = Some x" and "distinct (map pod_UID xs)"
    and "\<And>x. pod_UID (f x) = pod_UID x"
  shows "podset_ok (fold AssignTask (map f xs) ps) \<and>
    minAvailable (fold AssignTask (map f xs) ps) = minAvailable ps \<and> ps_name (fold AssignTask (map f xs) ps) = ps_name ps \<and>
    (\<forall>P. count_if P (pods (fold AssignTask (map f xs) ps)) =
       count_if P (pods ps) - count_if P xs + count_if (\<lambda>x. P (f x)) xs) \<and>
    dom (map_of (podInfos (fold AssignTask (map f xs) ps))) = dom (map_of (podInfos ps))"
  using assms(1-3)
proof (induction xs arbitrary: ps)
  case (Cons x xs)
  let ?q = "AssignTask (f x) ps"
  have q: "podset_ok ?q" "minAvailable ?q = minAvailable ps" "ps_name ?q = ps_name ps"
    using podset_ok_AssignTask [OF Cons.prems(1)] by auto
  have look: "map_of (podInfos ?q) = (map_of (podInfos ps))(pod_UID x \<mapsto> f x)"
    unfolding podset_ok_AssignTask(2) [OF Cons.prems(1)] assms(4) map_of_AList_update map_of_AList_delete
    by (simp only: fun_upd_upd)
  have old: "map_of (podInfos ps) (pod_UID x) = Some x" "\<forall>y\<in>set xs. map_of (podInfos ps) (pod_UID y) = Some y"
    using Cons.prems(2) by (meson list.set_intros)+
  have "\<forall>y\<in>set xs. pod_UID y \<noteq> pod_UID x" using Cons.prems(3) by (metis distinct.simps(2) image_eqI list.set_map list.simps(9))
  with old(2) have "\<forall>y\<in>set xs. map_of (podInfos ?q) (pod_UID y) = Some y"
    unfolding look by (metis fun_upd_other)
  note IH = Cons.IH [OF q(1) this]
  have "count_if P (pods ?q) = count_if P (pods ps) - (if P x then 1 else 0) + (if P (f x) then 1 else 0)" for P
    using count_AssignTask [OF Cons.prems(1), of "f x" x P] old(1) assms(4) by (simp only:)
  moreover have "dom (map_of (podInfos ?q)) = dom (map_of (podInfos ps))"
  proof -
    have "pod_UID x \<in> dom (map_of (podInfos ps))" using old(1) by (rule domI)
    then show ?thesis unfolding look dom_fun_upd by (simp only: option.simps if_False insert_absorb)
  qed
  moreover have "distinct (map pod_UID xs)" using Cons.prems(3) by simp
  ultimately show ?case using IH q by simp
qed simp

definition changeStatus :: "PodStatus \<Rightarrow> PodID set \<Rightarrow> PodSet \<Rightarrow> PodSet" where
  "changeStatus st U ps =
     fold AssignTask (map (\<lambda>p. p\<lparr>pod_Status := st\<rparr>) (filter (\<lambda>p. pod_UID p \<in> U) (pods ps))) ps"

lemma changeStatus_post:
  assumes "podset_ok ps"
  shows "podset_ok (changeStatus st U ps)" "minAvailable (changeStatus st U ps) = minAvailable ps"
    "ps_name (changeStatus st U ps) = ps_name ps"
    "count_if P (pods (changeStatus st U ps)) = count_if P (pods ps) - count_if P (filter (\<lambda>p. pod_UID p \<in> U) (pods ps)) +
       count_if (\<lambda>p. P (p\<lparr>pod_Status := st\<rparr>)) (filter (\<lambda>p. pod_UID p \<in> U) (pods ps))"
proof -
  let ?xs = "filter (\<lambda>p. pod_UID p \<in> U) (pods ps)"
  have "\<forall>x\<in>set ?xs. map_of (podInfos ps) (pod_UID x) = Some x" using pods_lookup [OF assms] by auto
  moreover have "distinct (map pod_UID ?xs)" using pods_distinct [OF assms] by (simp add: distinct_map_filter)
  ultimately have "podset_ok (changeStatus st U ps) \<and> minAvailable (changeStatus st U ps) = minAvailable ps \<and>
    ps_name (changeStatus st U ps) = ps_name ps \<and>
    (\<forall>P. count_if P (pods (changeStatus st U ps)) = count_if P (pods ps) - count_if P ?xs + count_if (\<lambda>p. P (p\<lparr>pod_Status := st\<rparr>)) ?xs)"
    using fold_AssignTask [OF assms, of ?xs "\<lambda>p. p\<lparr>pod_Status := st\<rparr>"] by (simp add: changeStatus_def)
  then show "podset_ok (changeStatus st U ps)" "minAvailable (changeStatus st U ps) = minAvailable ps"
    "ps_name (changeStatus st U ps) = ps_name ps"
    "count_if P (pods (changeStatus st U ps)) = count_if P (pods ps) - count_if P ?xs + count_if (\<lambda>p. P (p\<lparr>pod_Status := st\<rparr>)) ?xs"
    by simp_all
qed

abbreviation activePod :: "PodInfo \<Rightarrow> bool" where
  "activePod p \<equiv> IsActiveAllocatedStatus (pod_Status p)"

lemma count_if_const [simp]: "count_if (\<lambda>x. b) xs = (if b then int (length xs) else 0)"
  by (simp add: count_if_def)

lemma numActive_changeStatus:
  assumes "podset_ok ps"
  shows "numActiveAllocatedTasks (changeStatus st U ps) =
    numActiveAllocatedTasks ps - count_if activePod (filter (\<lambda>p. pod_UID p \<in> U) (pods ps)) +
      (if IsActiveAllocatedStatus st then int (length (filter (\<lambda>p. pod_UID p \<in> U) (pods ps))) else 0)"
proof -
  have "numActiveAllocatedTasks ps' = count_if activePod (pods ps')" if "podset_ok ps'" for ps'
    using that by (simp add: podset_ok_def)
  then show ?thesis using changeStatus_post(1,4) [OF assms] assms by simp
qed

lemma changeStatus_cong:
  "(\<And>p. p \<in> set (pods ps) \<Longrightarrow> (pod_UID p \<in> U) = (pod_UID p \<in> V)) \<Longrightarrow> changeStatus st U ps = changeStatus st V ps"
  unfolding changeStatus_def by (metis (mono_tags, lifting) filter_cong)

subsection \<open>Satisfaction and readiness of the tree\<close>

definition memberSatisfied :: "PodSet SubGroupMember \<Rightarrow> bool" where
  "memberSatisfied m \<longleftrightarrow> member_GetNumActiveAllocatedMembers m \<ge> member_GetMinMembersToSatisfy m"

lemma count_if_map: "count_if P (map f xs) = count_if (\<lambda>x. P (f x)) xs"
  by (simp add: count_if_def filter_map comp_def)

lemma numSatisfied_members: "GetNumActiveAllocatedDirectSubGroups sgs = count_if memberSatisfied (GetMembers sgs)"
  by (cases sgs) (simp add: GetMembers_def count_if_map memberSatisfied_def)

lemma ready_members:
  "SubGroupSet_IsReadyForScheduling sgs \<longleftrightarrow> count_if member_IsReadyForScheduling (GetMembers sgs) \<ge> GetMinMembersToSatisfy sgs"
  by (cases sgs) (simp add: GetMembers_def count_if_map)

lemma IsMinRequirementSatisfied_iff:
  "IsMinRequirementSatisfied sgs \<longleftrightarrow> GetMinMembersToSatisfy sgs \<le> count_if memberSatisfied (GetMembers sgs)"
  by (simp add: IsMinRequirementSatisfied_def numSatisfied_members)

lemma memberSatisfied_simps [simp]:
  "memberSatisfied (GroupMember g) \<longleftrightarrow> IsMinRequirementSatisfied g"
  "memberSatisfied (PodSetMember p) \<longleftrightarrow> numActiveAllocatedTasks p \<ge> minAvailable p"
  by (simp_all add: memberSatisfied_def IsMinRequirementSatisfied_def)

fun leaves :: "'p SubGroupSet \<Rightarrow> 'p list" where
  "leaves (SubGroupSet nm tc m gs ps) = concat (map leaves gs) @ ps"

fun member_leaves :: "'p SubGroupMember \<Rightarrow> 'p list" where
  "member_leaves (GroupMember g) = leaves g"
| "member_leaves (PodSetMember p) = [p]"

lemma leaves_members: "leaves sgs = concat (map member_leaves (GetMembers sgs))"
proof -
  have "concat (map (\<lambda>x. [x]) xs) = xs" for xs :: "'a list" by (induction xs) auto
  then show ?thesis by (cases sgs) (simp add: GetMembers_def comp_def)
qed

lemma GetMembers_map: "GetMembers (map_SubGroupSet f sgs) = map (map_SubGroupMember f) (GetMembers sgs)"
  by (cases sgs) (simp add: GetMembers_def)

lemma GetMinMembers_map [simp]: "GetMinMembersToSatisfy (map_SubGroupSet f sgs) = GetMinMembersToSatisfy sgs"
  by (cases sgs) (simp add: GetMinMembersToSatisfy_def split: option.split)

text \<open>Induction over the tree through the members of a node.\<close>

lemma SubGroupSet_member_induct [case_names node]:
  assumes "\<And>sgs. (\<And>g. GroupMember g \<in> set (GetMembers sgs) \<Longrightarrow> P g) \<Longrightarrow> P sgs"
  shows "P sgs"
proof (induction sgs)
  case (SubGroupSet nm tc m gs ps)
  show ?case by (rule assms) (use SubGroupSet in \<open>auto simp: GetMembers_def\<close>)
qed

abbreviation tree_pods :: "PodSet SubGroupSet \<Rightarrow> PodInfo list" where
  "tree_pods sgs \<equiv> concat (map pods (leaves sgs))"

definition leaf_ok :: "PodSet \<Rightarrow> bool" where
  "leaf_ok p \<longleftrightarrow> podset_ok p \<and> int (length (podInfos p)) < 2 ^ 31"

definition tree_ok :: "PodSet SubGroupSet \<Rightarrow> bool" where
  "tree_ok sgs \<longleftrightarrow> (\<forall>p\<in>set (leaves sgs). leaf_ok p) \<and> distinct (map pod_UID (tree_pods sgs))"

definition member_uids :: "PodSet SubGroupMember \<Rightarrow> PodID list" where
  "member_uids m = map pod_UID (concat (map pods (member_leaves m)))"

definition member_ok :: "PodSet SubGroupMember \<Rightarrow> bool" where
  "member_ok m \<longleftrightarrow> (\<forall>p\<in>set (member_leaves m). leaf_ok p) \<and> distinct (member_uids m)"

lemma tree_uids: "map pod_UID (tree_pods sgs) = concat (map member_uids (GetMembers sgs))"
proof -
  have "map pod_UID (concat (map pods (concat (map member_leaves ms)))) = concat (map member_uids ms)" for ms
    by (induction ms) (simp_all add: member_uids_def)
  then show ?thesis by (simp only: leaves_members)
qed

lemma member_ok_Group [simp]: "member_ok (GroupMember g) = tree_ok g"
  by (simp add: member_ok_def tree_ok_def member_uids_def)

lemma member_ok_PodSet [simp]: "member_ok (PodSetMember p) = leaf_ok p"
  using pods_distinct by (auto simp: member_ok_def member_uids_def leaf_ok_def)

lemma tree_ok_member: "tree_ok sgs \<Longrightarrow> m \<in> set (GetMembers sgs) \<Longrightarrow> member_ok m"
proof -
  assume ok: "tree_ok sgs" and m: "m \<in> set (GetMembers sgs)"
  have "distinct (concat (map member_uids ms)) \<Longrightarrow> m \<in> set ms \<Longrightarrow> distinct (member_uids m)" for ms
    by (induction ms) auto
  then have "distinct (member_uids m)" using ok m unfolding tree_ok_def tree_uids by blast
  moreover have "\<forall>p\<in>set (member_leaves m). leaf_ok p" using ok m by (auto simp: tree_ok_def leaves_members)
  ultimately show ?thesis by (simp add: member_ok_def)
qed

text \<open>Different positions among the members hold different pods.\<close>

lemma member_uids_disjoint:
  assumes "tree_ok sgs" and "GetMembers sgs = xs @ m # ys" and "m' \<in> set xs \<or> m' \<in> set ys"
  shows "set (member_uids m) \<inter> set (member_uids m') = {}"
  using assms unfolding tree_ok_def tree_uids by auto

subsection \<open>Satisfaction by a choice of pods\<close>

text \<open>Whether a member would meet its minimum if exactly the pods with \<open>Q\<close> were actively allocated.\<close>

fun treeSatisfiedAs :: "(PodInfo \<Rightarrow> bool) \<Rightarrow> PodSet SubGroupSet \<Rightarrow> bool" where
  "treeSatisfiedAs Q (SubGroupSet nm tc m gs ps) \<longleftrightarrow>
     GetMinMembersToSatisfy (SubGroupSet nm tc m gs ps)
       \<le> count_if (treeSatisfiedAs Q) gs + count_if (\<lambda>p. minAvailable p \<le> count_if Q (pods p)) ps"

fun satisfiedAs :: "(PodInfo \<Rightarrow> bool) \<Rightarrow> PodSet SubGroupMember \<Rightarrow> bool" where
  "satisfiedAs Q (GroupMember g) \<longleftrightarrow> treeSatisfiedAs Q g"
| "satisfiedAs Q (PodSetMember p) \<longleftrightarrow> minAvailable p \<le> count_if Q (pods p)"

lemma treeSatisfiedAs_members:
  "treeSatisfiedAs Q sgs \<longleftrightarrow> GetMinMembersToSatisfy sgs \<le> count_if (satisfiedAs Q) (GetMembers sgs)"
  by (cases sgs) (simp add: GetMembers_def count_if_map)

text \<open>Two ways of judging members agree on a tree if they agree on its leaves.\<close>

lemma members_induct:
  assumes "\<And>ps. leaf_ok ps \<Longrightarrow> R (PodSetMember ps)"
    and "\<And>g. tree_ok g \<Longrightarrow> (\<And>m. m \<in> set (GetMembers g) \<Longrightarrow> R m) \<Longrightarrow> R (GroupMember g)"
  shows "member_ok m \<Longrightarrow> R m"
proof -
  have "tree_ok g \<Longrightarrow> R (GroupMember g)" for g
  proof (induction g rule: SubGroupSet_member_induct)
    case (node g)
    have "R m" if "m \<in> set (GetMembers g)" for m
      using that node tree_ok_member [OF node.prems that] assms(1) by (cases m rule: SubGroupMember.exhaust) auto
    then show ?case by (rule assms(2) [OF node.prems])
  qed
  then show "member_ok m \<Longrightarrow> R m" using assms(1) by (cases m) auto
qed

lemma satisfiedAs_mono:
  assumes "member_ok m" and "\<And>p. Q p \<Longrightarrow> pod_UID p \<in> set (member_uids m) \<Longrightarrow> R p" and "satisfiedAs Q m"
  shows "satisfiedAs R m"
proof -
  have "member_ok m \<Longrightarrow> (\<forall>p. Q p \<longrightarrow> pod_UID p \<in> set (member_uids m) \<longrightarrow> R p) \<longrightarrow> satisfiedAs Q m \<longrightarrow> satisfiedAs R m"
  proof (rule members_induct [where R = "\<lambda>m. (\<forall>p. Q p \<longrightarrow> pod_UID p \<in> set (member_uids m) \<longrightarrow> R p) \<longrightarrow> satisfiedAs Q m \<longrightarrow> satisfiedAs R m"], goal_cases)
    case (1 ps)
    have "count_if Q (pods ps) \<le> count_if R (pods ps)" if "\<forall>p. Q p \<longrightarrow> pod_UID p \<in> set (member_uids (PodSetMember ps)) \<longrightarrow> R p"
      using that by (intro count_if_mono) (auto simp: member_uids_def)
    then show ?case by force
  next
    case (2 g)
    have uids: "set (member_uids m) \<subseteq> set (member_uids (GroupMember g))" if "m \<in> set (GetMembers g)" for m
      using that tree_uids [of g] by (auto simp: member_uids_def leaves_members)
    have "count_if (satisfiedAs Q) (GetMembers g) \<le> count_if (satisfiedAs R) (GetMembers g)"
      if "\<forall>p. Q p \<longrightarrow> pod_UID p \<in> set (member_uids (GroupMember g)) \<longrightarrow> R p"
      using that 2(3) uids by (intro count_if_mono) blast
    then show ?case by (force simp: treeSatisfiedAs_members)
  qed
  then show ?thesis using assms by blast
qed

lemma satisfiedAs_active: "member_ok m \<Longrightarrow> satisfiedAs activePod m = memberSatisfied m"
proof (rule members_induct [where R = "\<lambda>m. satisfiedAs activePod m = memberSatisfied m"], goal_cases)
  case (1 ps)
  then show ?case by (simp add: leaf_ok_def podset_ok_def)
next
  case (2 g)
  then have "count_if (satisfiedAs activePod) (GetMembers g) = count_if memberSatisfied (GetMembers g)" by (intro count_if_cong)
  then show ?case by (simp add: treeSatisfiedAs_members IsMinRequirementSatisfied_iff)
qed

text \<open>Changing the status of some pods.\<close>

abbreviation activeAfter :: "PodStatus \<Rightarrow> PodID set \<Rightarrow> PodInfo \<Rightarrow> bool" where
  "activeAfter st U p \<equiv> (if pod_UID p \<in> U then IsActiveAllocatedStatus st else activePod p)"

lemma numActive_activeAfter:
  assumes "podset_ok ps"
  shows "numActiveAllocatedTasks (changeStatus st U ps) = count_if (activeAfter st U) (pods ps)"
proof -
  have "count_if activePod xs - count_if activePod (filter (\<lambda>p. pod_UID p \<in> U) xs) +
      (if IsActiveAllocatedStatus st then int (length (filter (\<lambda>p. pod_UID p \<in> U) xs)) else 0) = count_if (activeAfter st U) xs" for xs
    by (cases "IsActiveAllocatedStatus st"; induction xs) simp_all
  moreover have "numActiveAllocatedTasks ps = count_if activePod (pods ps)" using assms by (simp add: podset_ok_def)
  ultimately show ?thesis using numActive_changeStatus [OF assms] by simp
qed

lemma satisfiedAs_changeStatus:
  "member_ok m \<Longrightarrow> memberSatisfied (map_SubGroupMember (changeStatus st U) m) = satisfiedAs (activeAfter st U) m"
proof (rule members_induct [where R = "\<lambda>m. memberSatisfied (map_SubGroupMember (changeStatus st U) m) = satisfiedAs (activeAfter st U) m"], goal_cases)
  case (1 ps)
  then have ok: "podset_ok ps" by (simp add: leaf_ok_def)
  show ?case using changeStatus_post(2) [OF ok] numActive_activeAfter [OF ok] by simp
next
  case (2 g)
  then have "count_if (\<lambda>m. memberSatisfied (map_SubGroupMember (changeStatus st U) m)) (GetMembers g) =
      count_if (satisfiedAs (activeAfter st U)) (GetMembers g)" by (intro count_if_cong)
  then show ?case by (simp add: treeSatisfiedAs_members IsMinRequirementSatisfied_iff GetMembers_map count_if_map)
qed

lemma IsMin_changeStatus:
  "tree_ok sgs \<Longrightarrow> IsMinRequirementSatisfied (map_SubGroupSet (changeStatus st U) sgs) = treeSatisfiedAs (activeAfter st U) sgs"
  using satisfiedAs_changeStatus [of "GroupMember sgs" st U] by simp

end
