(* ===== verification/Priority_Queue.thy ===== *)
theory Priority_Queue
  imports Kai_Prelude
begin

text \<open>
  The scheduler's priority queue, \<^verbatim>\<open>scheduler_util/priority_queue.go\<close>, over Go's
  \<^verbatim>\<open>container/heap\<close> (whose \<open>up\<close> and \<open>down\<close> loops are written out here).
  A queue is a record of the item slice, the less function (\<open>None\<close> for Go's nil, where items
  are compared by index) and the capacity (\<open>None\<close> for \<^verbatim>\<open>QueueCapacityInfinite\<close>).

  The lemmas show that the slice is a heap after every operation, that no operation loses or
  invents an item, and that popping yields the items in the order of the less function; the
  locale \<open>pq_contract\<close> states this as the contract the clients use. A bounded queue drops the
  last slot of the slice, which need not hold the lowest-ranked item.
\<close>

subsection \<open>Data\<close>

record 'a priorityQueue =
  items :: "'a list"
  lessFn :: "'a LessFn option"

record 'a PriorityQueue =
  queue :: "'a priorityQueue"
  maxQueueSize :: "nat option"

definition NewPriorityQueue :: "'a LessFn option \<Rightarrow> nat option \<Rightarrow> 'a PriorityQueue" where
  "NewPriorityQueue lessf maxSize =
     \<lparr>queue = \<lparr>items = [], lessFn = lessf\<rparr>, maxQueueSize = maxSize\<rparr>"

definition pq_Len :: "'a priorityQueue \<Rightarrow> nat" where
  "pq_Len pq = length (items pq)"

definition pq_Less :: "'a priorityQueue \<Rightarrow> nat \<Rightarrow> nat \<Rightarrow> bool" where
  "pq_Less pq i j =
     (case lessFn pq of None \<Rightarrow> i < j | Some lt \<Rightarrow> lt (items pq ! i) (items pq ! j))"

definition swap :: "'a list \<Rightarrow> nat \<Rightarrow> nat \<Rightarrow> 'a list" where
  "swap xs i j = xs[i := xs ! j, j := xs ! i]"

definition pq_Swap :: "'a priorityQueue \<Rightarrow> nat \<Rightarrow> nat \<Rightarrow> 'a priorityQueue" where
  "pq_Swap pq i j = pq\<lparr>items := swap (items pq) i j\<rparr>"

definition pq_Push :: "'a priorityQueue \<Rightarrow> 'a \<Rightarrow> 'a priorityQueue" where
  "pq_Push pq x = pq\<lparr>items := items pq @ [x]\<rparr>"

text \<open>Called on a non-empty slice only (the callers check).\<close>

definition pq_Pop :: "'a priorityQueue \<Rightarrow> 'a \<times> 'a priorityQueue" where
  "pq_Pop pq = (last (items pq), pq\<lparr>items := butlast (items pq)\<rparr>)"

definition pq_Peek :: "'a priorityQueue \<Rightarrow> 'a option" where
  "pq_Peek pq = (if pq_Len pq = 0 then None else Some (items pq ! 0))"

subsection \<open>container/heap\<close>

fun heap_up :: "'a priorityQueue \<Rightarrow> nat \<Rightarrow> 'a priorityQueue" where
  "heap_up pq j =
     (let i = (j - 1) div 2
      in if i = j \<or> \<not> pq_Less pq j i then pq else heap_up (pq_Swap pq i j) i)"

declare heap_up.simps [simp del]

text \<open>The index \<open>down\<close> ends at, with the queue; \<open>heap_down\<close> reports whether it moved.\<close>

function heap_down_from :: "'a priorityQueue \<Rightarrow> nat \<Rightarrow> nat \<Rightarrow> 'a priorityQueue \<times> nat" where
  "heap_down_from pq i n =
     (let j1 = 2 * i + 1
      in if j1 \<ge> n then (pq, i)
         else let j2 = j1 + 1;
                  j = (if j2 < n \<and> pq_Less pq j2 j1 then j2 else j1)
              in if \<not> pq_Less pq j i then (pq, i) else heap_down_from (pq_Swap pq i j) j n)"
  by pat_completeness auto
termination
  by (relation "measure (\<lambda>(pq, i, n). n - i)") (auto split: if_splits)

declare heap_down_from.simps [simp del]

definition heap_down :: "'a priorityQueue \<Rightarrow> nat \<Rightarrow> nat \<Rightarrow> 'a priorityQueue \<times> bool" where
  "heap_down pq i0 n = (case heap_down_from pq i0 n of (pq', i) \<Rightarrow> (pq', i > i0))"

definition heap_Push :: "'a priorityQueue \<Rightarrow> 'a \<Rightarrow> 'a priorityQueue" where
  "heap_Push pq x = (let pq' = pq_Push pq x in heap_up pq' (pq_Len pq' - 1))"

definition heap_Pop :: "'a priorityQueue \<Rightarrow> 'a \<times> 'a priorityQueue" where
  "heap_Pop pq = (let n = pq_Len pq - 1 in pq_Pop (fst (heap_down (pq_Swap pq 0 n) 0 n)))"

definition heap_Remove :: "'a priorityQueue \<Rightarrow> nat \<Rightarrow> 'a \<times> 'a priorityQueue" where
  "heap_Remove pq i =
     (let n = pq_Len pq - 1
      in if n \<noteq> i
         then (case heap_down (pq_Swap pq i n) i n of
                 (pq', moved) \<Rightarrow> pq_Pop (if moved then pq' else heap_up pq' i))
         else pq_Pop pq)"

definition heap_Fix :: "'a priorityQueue \<Rightarrow> nat \<Rightarrow> 'a priorityQueue" where
  "heap_Fix pq i =
     (case heap_down pq i (pq_Len pq) of (pq', moved) \<Rightarrow> if moved then pq' else heap_up pq' i)"

subsection \<open>PriorityQueue\<close>

definition Len :: "'a PriorityQueue \<Rightarrow> nat" where
  "Len q = pq_Len (queue q)"

definition Empty :: "'a PriorityQueue \<Rightarrow> bool" where
  "Empty q \<longleftrightarrow> pq_Len (queue q) = 0"

definition Push :: "'a PriorityQueue \<Rightarrow> 'a \<Rightarrow> 'a PriorityQueue" where
  "Push q it =
     (let q' = q\<lparr>queue := heap_Push (queue q) it\<rparr>
      in case maxQueueSize q' of
           None \<Rightarrow> q'
         | Some m \<Rightarrow> if pq_Len (queue q') > m
                     then q'\<lparr>queue := snd (heap_Remove (queue q') m)\<rparr> else q')"

definition Pop :: "'a PriorityQueue \<Rightarrow> 'a option \<times> 'a PriorityQueue" where
  "Pop q = (if Len q = 0 then (None, q)
            else case heap_Pop (queue q) of (x, pq) \<Rightarrow> (Some x, q\<lparr>queue := pq\<rparr>))"

definition Peek :: "'a PriorityQueue \<Rightarrow> 'a option" where
  "Peek q = (if Len q = 0 then None else pq_Peek (queue q))"

definition Fix :: "'a PriorityQueue \<Rightarrow> nat \<Rightarrow> 'a PriorityQueue" where
  "Fix q index = q\<lparr>queue := heap_Fix (queue q) index\<rparr>"

subsection \<open>Frame and multiset lemmas\<close>

lemma length_swap [simp]: "length (swap xs i j) = length xs"
  by (simp add: swap_def)

lemma mset_swap_list [simp]: "i < length xs \<Longrightarrow> j < length xs \<Longrightarrow> mset (swap xs i j) = mset xs"
  unfolding swap_def by (rule mset_swap)

lemma nth_swap:
  "i < length xs \<Longrightarrow> j < length xs \<Longrightarrow> k < length xs \<Longrightarrow>
     swap xs i j ! k = (if k = j then xs ! i else if k = i then xs ! j else xs ! k)"
  by (simp add: swap_def nth_list_update)

lemma pq_Swap_sel [simp]:
  "items (pq_Swap pq i j) = swap (items pq) i j" "lessFn (pq_Swap pq i j) = lessFn pq"
  by (simp_all add: pq_Swap_def)

lemma pq_Push_sel [simp]:
  "items (pq_Push pq x) = items pq @ [x]" "lessFn (pq_Push pq x) = lessFn pq"
  by (simp_all add: pq_Push_def)

lemma heap_up_frame:
  "j < length (items pq) \<Longrightarrow>
     lessFn (heap_up pq j) = lessFn pq \<and> mset (items (heap_up pq j)) = mset (items pq) \<and>
     length (items (heap_up pq j)) = length (items pq)"
proof (induction pq j rule: heap_up.induct)
  case (1 pq j)
  then show ?case
    by (subst (1 2 3) heap_up.simps) (auto simp: Let_def)
qed

text \<open>The loop of \<open>down\<close> with its choice of child named.\<close>

definition pick_child :: "'a priorityQueue \<Rightarrow> nat \<Rightarrow> nat \<Rightarrow> nat" where
  "pick_child pq i n =
     (if 2 * i + 2 < n \<and> pq_Less pq (2 * i + 2) (2 * i + 1) then 2 * i + 2 else 2 * i + 1)"

lemma pick_child_bounds: "2 * i + 1 < n \<Longrightarrow> i < pick_child pq i n \<and> pick_child pq i n < n"
  by (auto simp: pick_child_def)

lemma heap_down_from_unfold:
  "heap_down_from pq i n =
     (if 2 * i + 1 < n \<and> pq_Less pq (pick_child pq i n) i
      then heap_down_from (pq_Swap pq i (pick_child pq i n)) (pick_child pq i n) n else (pq, i))"
  by (subst heap_down_from.simps) (simp add: Let_def pick_child_def)

lemma heap_down_induct [case_names step]:
  assumes "\<And>pq i n. (2 * i + 1 < n \<Longrightarrow> pq_Less pq (pick_child pq i n) i \<Longrightarrow>
       P (pq_Swap pq i (pick_child pq i n)) (pick_child pq i n) n) \<Longrightarrow> P pq i n"
  shows "P pq i n"
proof (induction "n - i" arbitrary: pq i rule: less_induct)
  case less
  show ?case
  proof (rule assms)
    assume "2 * i + 1 < n"
    then have "n - pick_child pq i n < n - i"
      using pick_child_bounds [of i n pq] by linarith
    then show "P (pq_Swap pq i (pick_child pq i n)) (pick_child pq i n) n"
      by (rule less)
  qed
qed

definition down_frame :: "'a priorityQueue \<Rightarrow> nat \<Rightarrow> nat \<Rightarrow> 'a priorityQueue \<times> nat \<Rightarrow> bool" where
  "down_frame pq i n r \<longleftrightarrow>
     lessFn (fst r) = lessFn pq \<and> mset (items (fst r)) = mset (items pq) \<and>
     length (items (fst r)) = length (items pq) \<and>
     (\<forall>k. n \<le> k \<longrightarrow> k < length (items pq) \<longrightarrow> items (fst r) ! k = items pq ! k) \<and>
     i \<le> snd r \<and> (snd r = i \<longrightarrow> fst r = pq)"

lemma heap_down_from_frame: "n \<le> length (items pq) \<Longrightarrow> down_frame pq i n (heap_down_from pq i n)"
proof (induction pq i n rule: heap_down_induct)
  case (step pq i n)
  define j where "j = pick_child pq i n"
  show ?case
  proof (cases "2 * i + 1 < n \<and> pq_Less pq j i")
    case True
    then have j: "i < j" "j < n"
      using pick_child_bounds [of i n pq] by (auto simp: j_def)
    have IH: "down_frame (pq_Swap pq i j) j n (heap_down_from (pq_Swap pq i j) j n)"
      using step.IH True step.prems by (simp add: j_def)
    have "heap_down_from pq i n = heap_down_from (pq_Swap pq i j) j n"
      using True by (subst heap_down_from_unfold) (simp add: j_def)
    with IH j step.prems show ?thesis
      unfolding down_frame_def by (auto simp: nth_swap)
  next
    case False
    then show ?thesis
      by (subst heap_down_from_unfold) (auto simp: down_frame_def j_def)
  qed
qed

subsection \<open>The heap property\<close>

definition child_ok :: "'a LessFn \<Rightarrow> 'a list \<Rightarrow> nat \<Rightarrow> bool" where
  "child_ok lt xs k \<longleftrightarrow> \<not> lt (xs ! k) (xs ! ((k - 1) div 2))"

definition is_heap :: "'a LessFn \<Rightarrow> 'a list \<Rightarrow> nat \<Rightarrow> bool" where
  "is_heap lt xs n \<longleftrightarrow> (\<forall>k < n. 0 < k \<longrightarrow> child_ok lt xs k)"

text \<open>A heap with one defect at \<open>i\<close>: every link not touching \<open>i\<close> holds, and the children of
  \<open>i\<close> respect the parent of \<open>i\<close>.\<close>

definition heap_defect :: "'a LessFn \<Rightarrow> 'a list \<Rightarrow> nat \<Rightarrow> nat \<Rightarrow> bool" where
  "heap_defect lt xs n i \<longleftrightarrow>
     (\<forall>k < n. 0 < k \<longrightarrow> k \<noteq> i \<longrightarrow> (k - 1) div 2 \<noteq> i \<longrightarrow> child_ok lt xs k) \<and>
     (\<forall>k < n. 0 < k \<longrightarrow> (k - 1) div 2 = i \<longrightarrow> 0 < i \<longrightarrow> \<not> lt (xs ! k) (xs ! ((i - 1) div 2)))"

lemma is_heap_Nil [simp]: "is_heap lt [] 0"
  by (simp add: is_heap_def)

lemma is_heap_cong:
  "(\<And>k. k < n \<Longrightarrow> xs ! k = ys ! k) \<Longrightarrow> is_heap lt xs n = is_heap lt ys n"
proof -
  assume eq: "\<And>k. k < n \<Longrightarrow> xs ! k = ys ! k"
  have "(k - 1) div 2 < n" if "k < n" for k using that by simp
  then show ?thesis by (auto simp: is_heap_def child_ok_def eq)
qed

lemma parent_children:
  "0 < (k :: nat) \<Longrightarrow> (k - 1) div 2 = i \<longleftrightarrow> k = 2 * i + 1 \<or> k = 2 * i + 2"
  by auto


subsection \<open>Sifting restores the heap\<close>

lemma pq_Less_Some: "lessFn pq = Some lt \<Longrightarrow> pq_Less pq i j = lt (items pq ! i) (items pq ! j)"
  by (simp add: pq_Less_def)

definition kids_ok :: "'a LessFn \<Rightarrow> 'a list \<Rightarrow> nat \<Rightarrow> nat \<Rightarrow> bool" where
  "kids_ok lt xs n i \<longleftrightarrow> (\<forall>k < n. 0 < k \<longrightarrow> (k - 1) div 2 = i \<longrightarrow> \<not> lt (xs ! k) (xs ! i))"

lemma is_heap_iff_defect:
  "i < n \<Longrightarrow> heap_defect lt xs n i \<Longrightarrow> kids_ok lt xs n i \<Longrightarrow> (i = 0 \<or> child_ok lt xs i) \<Longrightarrow> is_heap lt xs n"
  unfolding is_heap_def heap_defect_def kids_ok_def child_ok_def by (metis neq0_conv)

lemma defect_old_ok:
  "heap_defect lt xs n i \<Longrightarrow> kids_ok lt xs n i \<Longrightarrow> k < n \<Longrightarrow> 0 < k \<Longrightarrow> k \<noteq> i \<Longrightarrow>
     \<not> lt (xs ! k) (xs ! ((k - 1) div 2))"
  by (auto simp: heap_defect_def kids_ok_def child_ok_def)

context less_fn
begin

lemma kids_ok_swap_up:
  assumes "i = (j - 1) div 2" "i < j" "j < n" "n \<le> length xs" "lt (xs ! j) (xs ! i)"
    and "heap_defect lt xs n j" "kids_ok lt xs n j"
  shows "kids_ok lt (swap xs i j) n i"
  unfolding kids_ok_def
proof (intro allI impI)
  fix k assume k: "k < n" "0 < k" "(k - 1) div 2 = i"
  have "k \<noteq> i" using k by auto
  show "\<not> lt (swap xs i j ! k) (swap xs i j ! i)"
  proof (cases "k = j")
    case True
    then show ?thesis using assms less_asym by (simp add: nth_swap)
  next
    case False
    then have "\<not> lt (xs ! k) (xs ! i)" using defect_old_ok [OF assms(6,7) k(1,2)] k(3) by simp
    then have "\<not> lt (xs ! k) (xs ! j)" using assms(5) less_trans by blast
    then show ?thesis using assms k(1) False \<open>k \<noteq> i\<close> by (simp add: nth_swap)
  qed
qed

lemma heap_defect_swap_up:
  assumes "i = (j - 1) div 2" "i < j" "j < n" "n \<le> length xs" "lt (xs ! j) (xs ! i)"
    and "heap_defect lt xs n j" "kids_ok lt xs n j"
  shows "heap_defect lt (swap xs i j) n i"
proof -
  note old = defect_old_ok [OF assms(6,7)]
  have nth: "swap xs i j ! k = (if k = j then xs ! i else if k = i then xs ! j else xs ! k)"
    if "k < n" for k
    using that assms by (simp add: nth_swap)
  have rest: "child_ok lt (swap xs i j) k" if k: "k < n" "0 < k" "k \<noteq> i" "(k - 1) div 2 \<noteq> i" for k
  proof (cases "(k - 1) div 2 = j")
    case True
    then have "\<not> lt (xs ! k) (xs ! i)"
      using assms(1,2,6) k by (auto simp: heap_defect_def)
    then show ?thesis using nth k True assms by (auto simp: child_ok_def)
  next
    case False
    moreover have "k \<noteq> j" using k(4) assms(1) by auto
    moreover have "(k - 1) div 2 < n" using k(1) by simp
    ultimately show ?thesis using nth k old by (simp add: child_ok_def)
  qed
  have up: "\<not> lt (swap xs i j ! k) (swap xs i j ! ((i - 1) div 2))"
    if k: "k < n" "0 < k" "(k - 1) div 2 = i" "0 < i" for k
  proof -
    have i_ok: "\<not> lt (xs ! i) (xs ! ((i - 1) div 2))" using old [of i] k assms by simp
    have "k \<noteq> i" using k by auto
    have "\<not> lt (swap xs i j ! k) (xs ! ((i - 1) div 2))"
    proof (cases "k = j")
      case True
      then show ?thesis using i_ok nth k by simp
    next
      case False
      then have "\<not> lt (xs ! k) (xs ! i)" using old k by auto
      then have "\<not> lt (xs ! k) (xs ! ((i - 1) div 2))" using i_ok not_less_trans by blast
      then show ?thesis using nth k False \<open>k \<noteq> i\<close> by simp
    qed
    moreover have "(i - 1) div 2 < i" using k by simp
    then have "(i - 1) div 2 \<noteq> j" "(i - 1) div 2 \<noteq> i" "(i - 1) div 2 < n" using assms(2,3) by linarith+
    ultimately show ?thesis by (simp add: nth)
  qed
  show ?thesis using rest up by (simp add: heap_defect_def)
qed

lemma heap_up_is_heap:
  "lessFn pq = Some lt \<Longrightarrow> n \<le> length (items pq) \<Longrightarrow> j < n \<Longrightarrow> heap_defect lt (items pq) n j \<Longrightarrow>
     kids_ok lt (items pq) n j \<Longrightarrow> is_heap lt (items (heap_up pq j)) n"
proof (induction pq j rule: heap_up.induct)
  case (1 pq j)
  define i where "i = (j - 1) div 2"
  show ?case
  proof (cases "i = j \<or> \<not> pq_Less pq j i")
    case True
    then have "heap_up pq j = pq" by (subst heap_up.simps) (simp add: Let_def i_def)
    moreover have "j = 0 \<or> child_ok lt (items pq) j"
      using True "1.prems"(1) by (auto simp: child_ok_def i_def pq_Less_Some)
    ultimately show ?thesis using is_heap_iff_defect "1.prems" by simp
  next
    case False
    then have ij: "i < j" and lt: "lt (items pq ! j) (items pq ! i)"
      using "1.prems"(1) by (auto simp: i_def pq_Less_Some)
    have "heap_up pq j = heap_up (pq_Swap pq i j) i"
      using False by (subst heap_up.simps) (simp add: Let_def i_def)
    moreover have "is_heap lt (items (heap_up (pq_Swap pq i j) i)) n"
      using "1.IH" [OF i_def False] "1.prems" ij
        heap_defect_swap_up [OF i_def ij "1.prems"(3,2) lt "1.prems"(4,5)]
        kids_ok_swap_up [OF i_def ij "1.prems"(3,2) lt "1.prems"(4,5)] by simp
    ultimately show ?thesis by simp
  qed
qed

lemma pick_child_least:
  assumes "lessFn pq = Some lt" "2 * i + 1 < n" "k < n" "0 < k" "(k - 1) div 2 = i"
  shows "\<not> lt (items pq ! k) (items pq ! pick_child pq i n)"
proof -
  have "k = 2 * i + 1 \<or> k = 2 * i + 2" using assms(4,5) parent_children by blast
  then show ?thesis
    using assms less_asym by (auto simp: pick_child_def pq_Less_Some)
qed

lemma heap_defect_swap_down:
  assumes "lessFn pq = Some lt" "n \<le> length (items pq)" "2 * i + 1 < n" "j = pick_child pq i n"
    and "lt (items pq ! j) (items pq ! i)" "heap_defect lt (items pq) n i"
  shows "heap_defect lt (swap (items pq) i j) n j \<and> child_ok lt (swap (items pq) i j) j"
proof -
  let ?xs = "items pq"
  have j: "i < j" "j < n" "(j - 1) div 2 = i"
    using assms(3,4) by (auto simp: pick_child_def)
  have nth: "swap ?xs i j ! k = (if k = j then ?xs ! i else if k = i then ?xs ! j else ?xs ! k)"
    if "k < n" for k
    using that assms(2) j by (simp add: nth_swap)
  have rest: "child_ok lt (swap ?xs i j) k" if k: "k < n" "0 < k" "k \<noteq> j" "(k - 1) div 2 \<noteq> j" for k
  proof (cases "(k - 1) div 2 = i")
    case True
    then have "\<not> lt (?xs ! k) (?xs ! j)"
      using pick_child_least [OF assms(1,3)] assms(4) k by blast
    moreover have "k \<noteq> i" using True k by auto
    ultimately show ?thesis using nth [of k] nth [of i] k True j by (simp add: child_ok_def)
  next
    case False
    have pk: "(k - 1) div 2 < n" using k by simp
    show ?thesis
    proof (cases "k = i")
      case True
      have "\<not> lt (?xs ! j) (?xs ! ((i - 1) div 2))"
        using assms(6) j k(2) True unfolding heap_defect_def by simp
      then show ?thesis using nth [of k] nth [OF pk] k True False j by (simp add: child_ok_def)
    next
      case neq: False
      then have "child_ok lt ?xs k" using assms(6) k False unfolding heap_defect_def by blast
      then show ?thesis using nth [of k] nth [OF pk] k False neq by (simp add: child_ok_def)
    qed
  qed
  have up: "\<not> lt (swap ?xs i j ! k) (swap ?xs i j ! ((j - 1) div 2))"
    if k: "k < n" "0 < k" "(k - 1) div 2 = j" for k
  proof -
    have "k \<noteq> i" "k \<noteq> j" using k j by auto
    moreover have "(k - 1) div 2 \<noteq> i" using k(3) j(1) by simp
    ultimately have "child_ok lt ?xs k" using assms(6) k unfolding heap_defect_def by blast
    then show ?thesis using nth [of k] nth [of i] k j \<open>k \<noteq> i\<close> \<open>k \<noteq> j\<close> by (simp add: child_ok_def)
  qed
  have "child_ok lt (swap ?xs i j) j"
    using nth [of j] nth [of i] j assms(5) less_asym by (simp add: child_ok_def)
  with rest up show ?thesis by (auto simp: heap_defect_def)
qed

lemma heap_down_from_kids:
  assumes "lessFn pq = Some lt" "\<not> (2 * i + 1 < n \<and> pq_Less pq (pick_child pq i n) i)"
  shows "kids_ok lt (items pq) n i"
  unfolding kids_ok_def
proof (intro allI impI)
  fix k assume k: "k < n" "0 < k" "(k - 1) div 2 = i"
  then have small: "2 * i + 1 < n" using parent_children by fastforce
  then have "\<not> lt (items pq ! pick_child pq i n) (items pq ! i)"
    using assms by (simp add: pq_Less_Some)
  with pick_child_least [OF assms(1) small k] show "\<not> lt (items pq ! k) (items pq ! i)"
    using not_less_trans by blast
qed

lemma heap_down_is_heap:
  "lessFn pq = Some lt \<Longrightarrow> n \<le> length (items pq) \<Longrightarrow> i < n \<Longrightarrow> heap_defect lt (items pq) n i \<Longrightarrow>
     i = 0 \<or> child_ok lt (items pq) i \<Longrightarrow> is_heap lt (items (fst (heap_down_from pq i n))) n"
proof (induction pq i n rule: heap_down_induct)
  case (step pq i n)
  define j where "j = pick_child pq i n"
  show ?case
  proof (cases "2 * i + 1 < n \<and> pq_Less pq (pick_child pq i n) i")
    case True
    then have lt: "lt (items pq ! j) (items pq ! i)"
      using step.prems(1) by (simp add: j_def pq_Less_Some)
    have "is_heap lt (items (fst (heap_down_from (pq_Swap pq i j) j n))) n"
      using step.IH True step.prems heap_defect_swap_down [OF step.prems(1,2) _ j_def lt step.prems(4)]
        pick_child_bounds [of i n pq] by (simp add: j_def)
    then show ?thesis using True by (subst heap_down_from_unfold) (simp add: j_def)
  next
    case False
    then have "kids_ok lt (items pq) n i" by (rule heap_down_from_kids [OF step.prems(1)])
    then show ?thesis
      using False is_heap_iff_defect [OF step.prems(3,4)] step.prems(5)
      by (subst heap_down_from_unfold) auto
  qed
qed

text \<open>\<open>down\<close> then, if it did not move, \<open>up\<close>: repairs any single defect (\<open>Fix\<close>, \<open>Remove\<close>).\<close>

lemma heap_fix_is_heap:
  assumes "lessFn pq = Some lt" "n \<le> length (items pq)" "i < n" "heap_defect lt (items pq) n i"
  shows "is_heap lt (items (case heap_down pq i n of (pq', moved) \<Rightarrow> if moved then pq' else heap_up pq' i)) n"
proof (cases "2 * i + 1 < n \<and> pq_Less pq (pick_child pq i n) i")
  case True
  define j where "j = pick_child pq i n"
  have j: "i < j" "j < n" using True pick_child_bounds [of i n pq] by (auto simp: j_def)
  have lt: "lt (items pq ! j) (items pq ! i)"
    using True assms(1) by (simp add: j_def pq_Less_Some)
  have eq: "heap_down_from pq i n = heap_down_from (pq_Swap pq i j) j n"
    using True by (subst heap_down_from_unfold) (simp add: j_def)
  have "down_frame (pq_Swap pq i j) j n (heap_down_from (pq_Swap pq i j) j n)"
    using assms(2) by (intro heap_down_from_frame) simp
  then have "i < snd (heap_down_from pq i n)" using j by (simp add: eq down_frame_def)
  moreover have "is_heap lt (items (fst (heap_down_from (pq_Swap pq i j) j n))) n"
    using heap_down_is_heap [of "pq_Swap pq i j" n j] assms(1,2) j
      heap_defect_swap_down [OF assms(1,2) _ j_def lt assms(4)] True by simp
  ultimately show ?thesis by (simp add: heap_down_def eq case_prod_unfold)
next
  case False
  then have "heap_down_from pq i n = (pq, i)" by (subst heap_down_from_unfold) auto
  moreover have "is_heap lt (items (heap_up pq i)) n"
    using heap_up_is_heap assms heap_down_from_kids [OF assms(1) False] by blast
  ultimately show ?thesis by (simp add: heap_down_def)
qed

lemma is_heap_root_least: "is_heap lt xs n \<Longrightarrow> k < n \<Longrightarrow> \<not> lt (xs ! k) (xs ! 0)"
proof (induction k rule: less_induct)
  case (less k)
  show ?case
  proof (cases "k = 0")
    case False
    then have "\<not> lt (xs ! ((k - 1) div 2)) (xs ! 0)"
      using less.IH [of "(k - 1) div 2"] less.prems by simp
    moreover have "\<not> lt (xs ! k) (xs ! ((k - 1) div 2))"
      using less.prems False by (simp add: is_heap_def child_ok_def)
    ultimately show ?thesis using not_less_trans by blast
  qed simp
qed

lemma heap_Push_is_heap:
  assumes "lessFn pq = Some lt" "is_heap lt (items pq) (length (items pq))"
  shows "is_heap lt (items (heap_Push pq x)) (Suc (length (items pq)))"
proof -
  let ?n = "length (items pq)" and ?ys = "items pq @ [x]"
  have "child_ok lt ?ys k" if "k < ?n" "0 < k" for k
    using that assms(2) less_imp_diff_less [of "k - 1" "length (items pq)"]
    by (auto simp: is_heap_def child_ok_def nth_append)
  moreover have "(k - 1) div 2 \<noteq> ?n" if "k < Suc ?n" "0 < k" for k
  proof -
    have "(k - 1) div 2 < k" using that(2) by simp
    with that(1) show ?thesis by linarith
  qed
  ultimately have "heap_defect lt ?ys (Suc ?n) ?n" "kids_ok lt ?ys (Suc ?n) ?n"
    by (auto simp: heap_defect_def kids_ok_def less_Suc_eq)
  then show ?thesis
    using heap_up_is_heap [of "pq_Push pq x" "Suc ?n" ?n] assms(1)
    by (simp add: heap_Push_def pq_Len_def Let_def)
qed

lemma heap_defect_swap_out:
  assumes "is_heap lt xs (Suc n)" "length xs = Suc n" "i < n"
  shows "heap_defect lt (swap xs i n) n i"
proof -
  have nth: "swap xs i n ! k = xs ! k" if "k < n" "k \<noteq> i" for k
    using that assms(2,3) by (simp add: nth_swap)
  have ok: "\<not> lt (xs ! k) (xs ! ((k - 1) div 2))" if "k < n" "0 < k" for k
    using that assms(1) by (simp add: is_heap_def child_ok_def)
  have rest: "child_ok lt (swap xs i n) k" if "k < n" "0 < k" "k \<noteq> i" "(k - 1) div 2 \<noteq> i" for k
    using that nth [of k] nth [of "(k - 1) div 2"] ok by (simp add: child_ok_def)
  have up: "\<not> lt (swap xs i n ! k) (swap xs i n ! ((i - 1) div 2))"
    if k: "k < n" "0 < k" "(k - 1) div 2 = i" "0 < i" for k
  proof -
    have "\<not> lt (xs ! k) (xs ! i)" "\<not> lt (xs ! i) (xs ! ((i - 1) div 2))"
      using ok [of k] ok [of i] k assms(3) by auto
    then have "\<not> lt (xs ! k) (xs ! ((i - 1) div 2))" using not_less_trans by blast
    moreover have "k \<noteq> i" "(i - 1) div 2 < i" using k by auto
    ultimately show ?thesis using nth [of k] nth [of "(i - 1) div 2"] k(1) assms(3) by simp
  qed
  show ?thesis using rest up by (simp add: heap_defect_def)
qed

lemma heap_repair_frame:
  assumes "n \<le> length (items pq)" "i < n"
  defines "r \<equiv> (case heap_down pq i n of (pq', moved) \<Rightarrow> if moved then pq' else heap_up pq' i)"
  shows "lessFn r = lessFn pq \<and> mset (items r) = mset (items pq) \<and> length (items r) = length (items pq)"
  using heap_down_from_frame [OF assms(1), of i] assms(1,2)
    heap_up_frame [of i "fst (heap_down_from pq i n)"] heap_up_frame [of i pq]
  by (simp add: r_def heap_down_def case_prod_unfold down_frame_def)

end

subsection \<open>The operations of the queue\<close>

lemma heap_Push_frame:
  "lessFn (heap_Push pq x) = lessFn pq \<and> mset (items (heap_Push pq x)) = add_mset x (mset (items pq)) \<and>
   length (items (heap_Push pq x)) = Suc (length (items pq))"
  using heap_up_frame [of "length (items pq)" "pq_Push pq x"]
  by (simp add: heap_Push_def pq_Len_def Let_def)

lemma butlast_last_mset: "xs \<noteq> [] \<Longrightarrow> mset xs = add_mset (last xs) (mset (butlast xs))"
  by (metis append_butlast_last_id mset.simps(2) mset_append union_mset_add_mset_right add.right_neutral mset.simps(1))

lemma heap_Pop_spec:
  assumes "less_fn lt" "lessFn pq = Some lt" "is_heap lt (items pq) (length (items pq))" "items pq \<noteq> []"
  shows "case heap_Pop pq of (x, pq') \<Rightarrow>
     x = items pq ! 0 \<and> lessFn pq' = Some lt \<and> is_heap lt (items pq') (length (items pq')) \<and>
     mset (items pq) = add_mset x (mset (items pq'))"
proof -
  define n where "n = length (items pq) - 1"
  have len: "length (items pq) = Suc n" using assms(4) by (cases "items pq") (auto simp: n_def)
  let ?s = "pq_Swap pq 0 n"
  define r where "r = fst (heap_down_from ?s 0 n)"
  have frame: "down_frame ?s 0 n (heap_down_from ?s 0 n)"
    using len by (intro heap_down_from_frame) simp
  then have r: "lessFn r = Some lt" "length (items r) = Suc n" "mset (items r) = mset (items pq)"
    "items r ! n = items pq ! 0"
    using assms(2) len by (auto simp: r_def down_frame_def nth_swap)
  have heap: "is_heap lt (items r) n"
  proof (cases "n = 0")
    case False
    then show ?thesis
      using less_fn.heap_down_is_heap [OF assms(1), of ?s n 0] assms(2) len
        less_fn.heap_defect_swap_out [OF assms(1), of "items pq" n 0] assms(3)
      by (simp add: r_def)
  qed (simp add: is_heap_def)
  have last: "last (items r) = items pq ! 0"
    using r(2,4) by (metis diff_Suc_1 last_conv_nth list.size(3) nat.distinct(1))
  have "is_heap lt (butlast (items r)) n"
    using heap is_heap_cong [of n "butlast (items r)" "items r" lt] r(2) by (simp add: nth_butlast)
  moreover have "heap_Pop pq = pq_Pop r"
    by (simp add: heap_Pop_def pq_Len_def heap_down_def case_prod_unfold Let_def r_def n_def)
  moreover have "mset (items r) = add_mset (last (items r)) (mset (butlast (items r)))"
    using r(2) by (intro butlast_last_mset) auto
  ultimately show ?thesis using last r by (simp add: pq_Pop_def)
qed

lemma heap_Remove_last: "Suc i = length (items pq) \<Longrightarrow> heap_Remove pq i = pq_Pop pq"
proof -
  assume "Suc i = length (items pq)"
  then have "length (items pq) - 1 = i" by linarith
  then show ?thesis by (simp add: heap_Remove_def pq_Len_def)
qed

subsection \<open>The contract\<close>

text \<open>What the clients rely on: a queue holds a multiset of items, pushing adds one, popping
  removes one that no other item precedes.\<close>

definition wf_pq :: "'a LessFn \<Rightarrow> 'a PriorityQueue \<Rightarrow> bool" where
  "wf_pq lt q \<longleftrightarrow> maxQueueSize q = None \<and> lessFn (queue q) = Some lt \<and>
     is_heap lt (items (queue q)) (length (items (queue q)))"

definition pq_elems :: "'a PriorityQueue \<Rightarrow> 'a multiset" where
  "pq_elems q = mset (items (queue q))"

fun pop_upto :: "('q \<Rightarrow> 'a option \<times> 'q) \<Rightarrow> nat \<Rightarrow> 'q \<Rightarrow> 'a list \<times> 'q" where
  "pop_upto pop 0 q = ([], q)"
| "pop_upto pop (Suc n) q =
     (case pop q of
        (None, q') \<Rightarrow> ([], q')
      | (Some x, q') \<Rightarrow> (case pop_upto pop n q' of (xs, q'') \<Rightarrow> (x # xs, q'')))"

locale pq_contract = less_fn lt for lt :: "'a LessFn" +
  fixes wf :: "'q \<Rightarrow> bool" and elems :: "'q \<Rightarrow> 'a multiset"
    and push :: "'q \<Rightarrow> 'a \<Rightarrow> 'q" and pop :: "'q \<Rightarrow> 'a option \<times> 'q"
  assumes push_wf: "wf q \<Longrightarrow> wf (push q x)"
    and push_elems: "wf q \<Longrightarrow> elems (push q x) = add_mset x (elems q)"
    and pop_empty: "wf q \<Longrightarrow> elems q = {#} \<Longrightarrow> pop q = (None, q)"
    and pop_least: "wf q \<Longrightarrow> elems q \<noteq> {#} \<Longrightarrow>
      \<exists>x q'. pop q = (Some x, q') \<and> wf q' \<and> elems q = add_mset x (elems q') \<and>
             (\<forall>y \<in># elems q'. \<not> lt y x)"
begin

lemma push_all: "wf q \<Longrightarrow> wf (fold (\<lambda>x q. push q x) xs q) \<and>
    elems (fold (\<lambda>x q. push q x) xs q) = mset xs + elems q"
  by (induction xs arbitrary: q) (auto simp: push_wf push_elems)

lemma pop_upto_spec:
  "wf q \<Longrightarrow> pop_upto pop n q = (xs, q') \<Longrightarrow>
     wf q' \<and> elems q = mset xs + elems q' \<and> sorted_wrt (\<lambda>x y. \<not> lt y x) xs \<and>
     (\<forall>x \<in> set xs. \<forall>y \<in># elems q'. \<not> lt y x) \<and> length xs = min n (size (elems q))"
proof (induction n arbitrary: q xs q')
  case 0
  then show ?case by simp
next
  case (Suc n)
  show ?case
  proof (cases "elems q = {#}")
    case True
    then show ?thesis using Suc.prems pop_empty [of q] by auto
  next
    case False
    obtain x q1 where x: "pop q = (Some x, q1)" "wf q1" "elems q = add_mset x (elems q1)"
      "\<forall>y \<in># elems q1. \<not> lt y x"
      using pop_least [OF Suc.prems(1) False] by blast
    obtain ys q2 where ys: "pop_upto pop n q1 = (ys, q2)" by (cases "pop_upto pop n q1")
    have eq: "xs = x # ys" "q' = q2" using Suc.prems(2) x(1) ys by auto
    have IH: "wf q2 \<and> elems q1 = mset ys + elems q2 \<and> sorted_wrt (\<lambda>x y. \<not> lt y x) ys \<and>
      (\<forall>x \<in> set ys. \<forall>y \<in># elems q2. \<not> lt y x) \<and> length ys = min n (size (elems q1))"
      by (rule Suc.IH [OF x(2) ys])
    then have el: "elems q1 = mset ys + elems q2" by blast
    then have least: "\<forall>y \<in> set ys. \<not> lt y x" "\<forall>y \<in># elems q2. \<not> lt y x" using x(4) by auto
    have "length ys = min n (size (elems q1))" using IH by blast
    then have "length (x # ys) = min (Suc n) (size (elems q))" by (simp add: x(3))
    moreover have "elems q = mset (x # ys) + elems q2" by (simp add: x(3) el)
    moreover have "sorted_wrt (\<lambda>x y. \<not> lt y x) (x # ys)" using IH least by simp
    moreover have "\<forall>z \<in> set (x # ys). \<forall>y \<in># elems q2. \<not> lt y z" using IH least by simp
    ultimately show ?thesis unfolding eq using IH by blast
  qed
qed

end

text \<open>The heap-backed queue keeps the contract for every less function.\<close>

sublocale less_fn \<subseteq> heap: pq_contract lt "wf_pq lt" pq_elems Push Pop
proof unfold_locales
  fix q x
  assume wf: "wf_pq lt q"
  show "wf_pq lt (Push q x)"
    using wf heap_Push_is_heap [of "queue q" x] heap_Push_frame [of "queue q" x]
    by (simp add: wf_pq_def Push_def Let_def)
  show "pq_elems (Push q x) = add_mset x (pq_elems q)"
    using wf heap_Push_frame [of "queue q" x] by (simp add: wf_pq_def Push_def Let_def pq_elems_def)
next
  fix q
  assume "wf_pq lt q" "pq_elems q = {#}"
  then show "Pop q = (None, q)" by (simp add: Pop_def Len_def pq_Len_def pq_elems_def)
next
  fix q
  assume wf: "wf_pq lt q" and ne: "pq_elems q \<noteq> {#}"
  obtain x pq' where pop: "heap_Pop (queue q) = (x, pq')" by (cases "heap_Pop (queue q)")
  have items: "items (queue q) \<noteq> []" using ne by (simp add: pq_elems_def)
  have spec: "x = items (queue q) ! 0 \<and> lessFn pq' = Some lt \<and> is_heap lt (items pq') (length (items pq')) \<and>
      mset (items (queue q)) = add_mset x (mset (items pq'))"
    using heap_Pop_spec [OF less_fn_axioms _ _ items] wf pop by (simp add: wf_pq_def)
  have "\<not> lt y x" if "y \<in> set (items (queue q))" for y
  proof -
    from that obtain k where "k < length (items (queue q))" "items (queue q) ! k = y"
      by (auto simp: in_set_conv_nth)
    then show ?thesis using spec wf is_heap_root_least by (auto simp: wf_pq_def)
  qed
  moreover have "set (items pq') \<subseteq> set (items (queue q))"
    using spec by (metis set_mset_mset set_mset_add_mset_insert subset_insertI)
  ultimately show "\<exists>x q'. Pop q = (Some x, q') \<and> wf_pq lt q' \<and>
      pq_elems q = add_mset x (pq_elems q') \<and> (\<forall>y \<in># pq_elems q'. \<not> lt y x)"
    using wf spec pop items by (auto simp: Pop_def Len_def pq_Len_def wf_pq_def pq_elems_def)
qed

lemma wf_pq_New [simp]: "wf_pq lt (NewPriorityQueue (Some lt) None)"
  by (simp add: wf_pq_def NewPriorityQueue_def)

lemma pq_elems_New [simp]: "pq_elems (NewPriorityQueue l m) = {#}"
  by (simp add: pq_elems_def NewPriorityQueue_def)

lemma Empty_iff: "Empty q \<longleftrightarrow> pq_elems q = {#}"
  by (simp add: Empty_def pq_Len_def pq_elems_def)

lemma Len_size: "Len q = size (pq_elems q)"
  by (simp add: Len_def pq_Len_def pq_elems_def)

subsection \<open>Properties of the queue\<close>

context less_fn
begin

lemma heap_defect_update:
  assumes "is_heap lt xs (length xs)" and "i < length xs"
  shows "heap_defect lt (xs[i := x]) (length xs) i"
proof -
  have "\<not> lt (xs[i := x] ! k) (xs[i := x] ! ((i - 1) div 2))"
    if k: "k < length xs" "0 < k" "(k - 1) div 2 = i" "0 < i" for k
  proof -
    have "\<not> lt (xs ! k) (xs ! i)" "\<not> lt (xs ! i) (xs ! ((i - 1) div 2))"
      using assms k by (auto simp: is_heap_def child_ok_def)
    then have "\<not> lt (xs ! k) (xs ! ((i - 1) div 2))" using not_less_trans by blast
    moreover have "k \<noteq> i" "(i - 1) div 2 \<noteq> i" using k by auto
    ultimately show ?thesis by simp
  qed
  then show ?thesis using assms(1) by (auto simp: heap_defect_def is_heap_def child_ok_def)
qed

lemma Fix_repairs:
  assumes "wf_pq lt q" and "i < Len q"
    and "q' = Fix (q\<lparr>queue := (queue q)\<lparr>items := (items (queue q))[i := x]\<rparr>\<rparr>) i"
  shows "wf_pq lt q'" "pq_elems q' = mset ((items (queue q))[i := x])"
proof -
  let ?pq = "(queue q)\<lparr>items := (items (queue q))[i := x]\<rparr>" and ?n = "length (items (queue q))"
  have i: "i < ?n" and fn: "lessFn ?pq = Some lt" and heap: "is_heap lt (items (queue q)) ?n"
    using assms(1,2) by (simp_all add: wf_pq_def Len_def pq_Len_def)
  let ?r = "case heap_down ?pq i ?n of (pq', moved) \<Rightarrow> if moved then pq' else heap_up pq' i"
  have r: "heap_Fix ?pq i = ?r" by (simp add: heap_Fix_def pq_Len_def)
  have "is_heap lt (items ?r) ?n"
    by (rule heap_fix_is_heap [OF fn _ i]) (use heap_defect_update [OF heap i] in simp_all)
  moreover have "lessFn ?r = lessFn ?pq" "mset (items ?r) = mset (items ?pq)" "length (items ?r) = ?n"
    using heap_repair_frame [of ?n ?pq i] i by simp_all
  ultimately show "wf_pq lt q'" "pq_elems q' = mset ((items (queue q))[i := x])"
    using assms(1,3) fn r by (simp_all add: wf_pq_def Fix_def pq_elems_def)
qed

lemma Push_bounded_least:
  assumes "maxQueueSize q = Some n" "0 < n" "Len q \<le> n" "lessFn (queue q) = Some lt"
    and "is_heap lt (items (queue q)) (length (items (queue q)))"
  shows "Len (Push q x) \<le> n" "is_heap lt (items (queue (Push q x))) (Len (Push q x))"
    "\<exists>y. Peek (Push q x) = Some y \<and> y \<in># add_mset x (pq_elems q) \<and> (\<forall>z \<in># add_mset x (pq_elems q). \<not> lt z y)"
proof -
  define pq where "pq = heap_Push (queue q) x"
  have frame: "mset (items pq) = add_mset x (pq_elems q)" "length (items pq) = Suc (Len q)"
    using heap_Push_frame [of "queue q" x] by (simp_all add: pq_def pq_elems_def Len_def pq_Len_def)
  have heap: "is_heap lt (items pq) (length (items pq))"
    using heap_Push_is_heap [OF assms(4,5), of x] heap_Push_frame [of "queue q" x] by (simp add: pq_def)
  have items: "items (queue (Push q x)) = (if n < Suc (Len q) then butlast (items pq) else items pq)"
  proof (cases "n < Suc (Len q)")
    case True
    then have "Suc n = length (items pq)" using assms(3) frame(2) by simp
    then show ?thesis
      using True assms(1) frame(2) heap_Remove_last [of n pq]
      by (simp add: Push_def pq_def [symmetric] pq_Len_def pq_Pop_def Let_def)
  next
    case False
    then show ?thesis using assms(1) frame(2) by (simp add: Push_def pq_def [symmetric] pq_Len_def Let_def)
  qed
  have root: "items pq ! 0 \<in># add_mset x (pq_elems q)" "\<forall>z \<in># add_mset x (pq_elems q). \<not> lt z (items pq ! 0)"
    unfolding frame(1) [symmetric] using frame(2) is_heap_root_least [OF heap]
    by (auto simp: in_set_conv_nth)
  have len: "length (butlast (items pq)) = Len q" using frame(2) by simp
  have pos: "n < Suc (Len q) \<Longrightarrow> 0 < Len q" using assms(2) by simp
  show "Len (Push q x) \<le> n" using items frame(2) assms(3) by (simp add: Len_def pq_Len_def)
  show "is_heap lt (items (queue (Push q x))) (Len (Push q x))"
    using heap items frame(2) is_heap_cong [of "Len q" "butlast (items pq)" "items pq" lt]
    by (auto simp: Len_def pq_Len_def nth_butlast is_heap_def)
  have "0 < length (items (queue (Push q x))) \<and> items (queue (Push q x)) ! 0 = items pq ! 0"
  proof (cases "n < Suc (Len q)")
    case True
    then show ?thesis using items len pos by (simp only: if_True nth_butlast)
  qed (use items frame(2) in simp)
  then have "items (queue (Push q x)) ! 0 = items pq ! 0" "0 < Len (Push q x)"
    by (simp_all add: Len_def pq_Len_def)
  then show "\<exists>y. Peek (Push q x) = Some y \<and> y \<in># add_mset x (pq_elems q) \<and> (\<forall>z \<in># add_mset x (pq_elems q). \<not> lt z y)"
    using root by (intro exI [of _ "items pq ! 0"]) (simp add: Peek_def pq_Peek_def Len_def pq_Len_def)
qed

end

context less_fn
begin

lemma pop_all_sorted:
  assumes "pop_upto Pop (length xs) (fold (\<lambda>x q. Push q x) xs (NewPriorityQueue (Some lt) None)) = (ys, q)"
  shows "mset ys = mset xs \<and> sorted_wrt (\<lambda>x y. \<not> lt y x) ys \<and> Empty q"
proof -
  let ?q0 = "fold (\<lambda>x q. Push q x) xs (NewPriorityQueue (Some lt) None)"
  have q0: "wf_pq lt ?q0" "pq_elems ?q0 = mset xs" using heap.push_all [OF wf_pq_New, of xs] by simp_all
  note spec = heap.pop_upto_spec [OF q0(1) assms]
  have el: "mset xs = mset ys + pq_elems q" using spec q0(2) by (simp only:)
  have "length ys = length xs" using spec q0(2) by (simp only: size_mset min.idem)
  then have "size (pq_elems q) = 0" using arg_cong [OF el, of size] by (simp only: size_union size_mset)
  then show ?thesis using spec el by (simp only: Empty_iff size_eq_0_iff_empty) simp
qed

end


lemma less_fn_nat: "less_fn ((<) :: nat LessFn)"
  by unfold_locales auto


text \<open>When the priority of the item at one index changes, \<open>Fix\<close> at that index restores the heap and
  keeps all the items.\<close>

lemma priority_queue_Fix:
  assumes "less_fn lt" and "wf_pq lt q" and "i < Len q"
    and "q' = Fix (q\<lparr>queue := (queue q)\<lparr>items := (items (queue q))[i := x]\<rparr>\<rparr>) i"
  shows "wf_pq lt q' \<and> pq_elems q' = mset ((items (queue q))[i := x])"
  using less_fn.Fix_repairs [OF assms] by blast

text \<open>A queue with a capacity never grows beyond it, stays a heap, and its head is still the best of
  everything it held and the item pushed.\<close>

lemma bounded_queue_keeps_best:
  assumes "less_fn lt" and "maxQueueSize q = Some n" and "0 < n" and "Len q \<le> n" and "lessFn (queue q) = Some lt"
    and "is_heap lt (items (queue q)) (length (items (queue q)))"
  shows "Len (Push q x) \<le> n \<and> is_heap lt (items (queue (Push q x))) (Len (Push q x)) \<and>
    (\<exists>y. Peek (Push q x) = Some y \<and> y \<in># add_mset x (pq_elems q) \<and> (\<forall>z \<in># add_mset x (pq_elems q). \<not> lt z y))"
  using less_fn.Push_bounded_least [OF assms] by blast


end
