(* ===== verification/Task_Allocation.thy ===== *)
theory Task_Allocation
  imports Subgroups Priority_Queue
begin

text \<open>
  Choosing the tasks to allocate, \<^verbatim>\<open>api/podgroup_info/allocation_info.go\<close>: the walk over the subgroup
  tree that either completes missing gangs or adds one elastic step. The job-level wrappers with their
  caches are in \<open>Pod_Group\<close>.

  The lemmas show the gang guarantee: in the modes that enforce gang admission a job that is ready but
  below its minimum gets exactly the tasks that bring it to its minimum, and one that is not ready gets none.
\<close>

subsection \<open>Modes\<close>

datatype TaskAllocationMode = RealTaskAllocation | SimulatedTaskAllocation | PartialTaskAllocation | VictimReallocation

datatype taskAllocationCacheMode = realTaskAllocationCache | simulatedAdmissionCache | partialTaskAllocationCache

definition isRealAllocation :: "TaskAllocationMode \<Rightarrow> bool" where
  "isRealAllocation mode \<longleftrightarrow> mode = RealTaskAllocation"

definition enforceGangAdmission :: "TaskAllocationMode \<Rightarrow> bool" where
  "enforceGangAdmission mode \<longleftrightarrow> mode = RealTaskAllocation \<or> mode = SimulatedTaskAllocation"

fun cacheMode :: "TaskAllocationMode \<Rightarrow> taskAllocationCacheMode" where
  "cacheMode RealTaskAllocation = realTaskAllocationCache"
| "cacheMode SimulatedTaskAllocation = simulatedAdmissionCache"
| "cacheMode _ = partialTaskAllocationCache"

subsection \<open>Leaves\<close>

definition getTasksPriorityQueue :: "PodSet \<Rightarrow> PodInfo LessFn \<Rightarrow> bool \<Rightarrow> PodInfo PriorityQueue" where
  "getTasksPriorityQueue ps taskOrderFn isReal =
     fold (\<lambda>task pq. if ShouldAllocate task isReal then Push pq task else pq) (map snd (podInfos ps))
       (NewPriorityQueue (Some taskOrderFn) None)"

definition getTasksFromQueue :: "PodInfo PriorityQueue \<Rightarrow> int \<Rightarrow> PodInfo list" where
  "getTasksFromQueue pq maxNumTasks = fst (pop_upto Pop (nat maxNumTasks) pq)"

definition getNumAllocatableTasks :: "PodSet \<Rightarrow> bool \<Rightarrow> int" where
  "getNumAllocatableTasks ps isReal = count_if (\<lambda>task. ShouldAllocate task isReal) (map snd (podInfos ps))"

definition getNumTasksToAllocate :: "PodSet \<Rightarrow> bool \<Rightarrow> int" where
  "getNumTasksToAllocate ps isReal =
     (if numActiveAllocatedTasks ps \<ge> minAvailable ps then min (getNumAllocatableTasks ps isReal) 1
      else minAvailable ps - numActiveAllocatedTasks ps)"

definition collectTasksFromPodSet :: "PodSet \<Rightarrow> PodInfo LessFn \<Rightarrow> TaskAllocationMode \<Rightarrow> PodInfo list" where
  "collectTasksFromPodSet ps taskOrderFn mode =
     (let pq = getTasksPriorityQueue ps taskOrderFn (isRealAllocation mode)
      in if Empty pq then []
         else let numTasksToAllocate = getNumTasksToAllocate ps (isRealAllocation mode)
         in if enforceGangAdmission mode \<and> numActiveAllocatedTasks ps < minAvailable ps \<and>
               int (Len pq) < numTasksToAllocate then []
            else getTasksFromQueue pq numTasksToAllocate)"

subsection \<open>The walk\<close>

text \<open>The two loops over the sorted children, on the tasks that each child contributes.\<close>

fun gangLoop :: "int \<Rightarrow> 'a list list \<Rightarrow> 'a list" where
  "gangLoop membersToCollect [] = []"
| "gangLoop membersToCollect (childTasks # rest) =
     (if membersToCollect > 0
      then (if childTasks = [] then gangLoop membersToCollect rest
            else childTasks @ gangLoop (membersToCollect - 1) rest)
      else [])"

fun firstNonEmpty :: "'a list list \<Rightarrow> 'a list" where
  "firstNonEmpty [] = []"
| "firstNonEmpty (childTasks # rest) = (if childTasks \<noteq> [] then childTasks else firstNonEmpty rest)"

lemma group_size: "g \<in> set gs \<Longrightarrow> size g < size (SubGroupSet nm tc m gs ps)"
  by (induction gs) auto

definition member_size :: "'p SubGroupMember \<Rightarrow> nat" where
  "member_size m = (case m of GroupMember g \<Rightarrow> 2 * size g + 1 | PodSetMember p \<Rightarrow> 0)"

lemma member_size_less: "m \<in> set (GetMembers sgs) \<Longrightarrow> member_size m < 2 * size sgs"
proof (cases sgs)
  case (SubGroupSet nm tc k gs ps)
  assume "m \<in> set (GetMembers sgs)"
  moreover have "member_size (GroupMember g) < 2 * size sgs" if "g \<in> set gs" for g
    using group_size [OF that, of nm tc k ps] SubGroupSet by (simp add: member_size_def)
  ultimately show ?thesis using SubGroupSet by (auto simp: GetMembers_def member_size_def)
qed

function (sequential) collectTasksFromSubGroupSet ::
    "PodSet SubGroupMember LessFn \<Rightarrow> PodInfo LessFn \<Rightarrow> TaskAllocationMode \<Rightarrow> PodSet SubGroupSet \<Rightarrow> PodInfo list"
  and collectFromChildInGangPhase ::
    "PodSet SubGroupMember LessFn \<Rightarrow> PodInfo LessFn \<Rightarrow> TaskAllocationMode \<Rightarrow> PodSet SubGroupMember \<Rightarrow> PodInfo list"
  and collectFromChildSubgroup ::
    "PodSet SubGroupMember LessFn \<Rightarrow> PodInfo LessFn \<Rightarrow> TaskAllocationMode \<Rightarrow> PodSet SubGroupMember \<Rightarrow> PodInfo list"
  where
  "collectTasksFromSubGroupSet subGroupOrderFn taskOrderFn mode sgs =
     (if enforceGangAdmission mode \<and> \<not> SubGroupSet_IsReadyForScheduling sgs then []
      else let K = GetMinMembersToSatisfy sgs;
               children = go_sort subGroupOrderFn (GetMembers sgs)
           in if \<not> IsMinRequirementSatisfied sgs
              then gangLoop (K - GetNumActiveAllocatedDirectSubGroups sgs)
                     (map (\<lambda>child. collectFromChildInGangPhase subGroupOrderFn taskOrderFn mode child) children)
              else firstNonEmpty
                     (map (\<lambda>child. collectFromChildSubgroup subGroupOrderFn taskOrderFn mode child) children))"
| "collectFromChildInGangPhase subGroupOrderFn taskOrderFn mode (GroupMember c) =
     (if IsMinRequirementSatisfied c then []
      else collectTasksFromSubGroupSet subGroupOrderFn taskOrderFn mode c)"
| "collectFromChildInGangPhase subGroupOrderFn taskOrderFn mode (PodSetMember c) =
     (if numActiveAllocatedTasks c \<ge> minAvailable c then []
      else collectTasksFromPodSet c taskOrderFn mode)"
| "collectFromChildSubgroup subGroupOrderFn taskOrderFn mode (GroupMember c) =
     collectTasksFromSubGroupSet subGroupOrderFn taskOrderFn mode c"
| "collectFromChildSubgroup subGroupOrderFn taskOrderFn mode (PodSetMember c) =
     collectTasksFromPodSet c taskOrderFn mode"
  by pat_completeness auto

termination
  by (relation "measure (\<lambda>x. case x of Inl (_, _, _, s) \<Rightarrow> 2 * size s
        | Inr (Inl (_, _, _, m)) \<Rightarrow> member_size m | Inr (Inr (_, _, _, m)) \<Rightarrow> member_size m)")
    (auto simp: member_size_less, auto simp: member_size_def)

declare collectTasksFromSubGroupSet.simps [simp del]

subsection \<open>Leaves: exactly what is missing\<close>

lemma fold_if_filter: "fold (\<lambda>x s. if P x then f x s else s) xs s = fold f (filter P xs) s"
  by (induction xs arbitrary: s) auto

subsection \<open>Gang completion\<close>

abbreviation uids :: "PodInfo list \<Rightarrow> PodID set" where
  "uids T \<equiv> pod_UID ` set T"

text \<open>Whether a member meets its minimum once the pods of \<open>U\<close> are allocated.\<close>

abbreviation satisfiedWith :: "PodID set \<Rightarrow> PodSet SubGroupMember \<Rightarrow> bool" where
  "satisfiedWith U \<equiv> satisfiedAs (activeAfter Allocated U)"

lemma active_Allocated: "IsActiveAllocatedStatus Allocated"
  by (simp add: status_iffs)

lemma satisfiedWith_empty: "member_ok m \<Longrightarrow> satisfiedWith {} m = memberSatisfied m"
  using satisfiedAs_active by simp

lemma satisfiedWith_mono: "member_ok m \<Longrightarrow> U \<subseteq> V \<Longrightarrow> satisfiedWith U m \<Longrightarrow> satisfiedWith V m"
  by (rule satisfiedAs_mono [where Q = "activeAfter Allocated U"]) (auto simp: active_Allocated split: if_splits)

lemma gangLoop_count:
  assumes "\<And>c. c \<in> set cs \<Longrightarrow> r c \<noteq> [] \<Longrightarrow> \<not> S {} c \<and> S (u ` set (r c)) c"
    and "\<And>c U V. c \<in> set cs \<Longrightarrow> U \<subseteq> V \<Longrightarrow> S U c \<Longrightarrow> S V c"
    and "u ` set (gangLoop n (map r cs)) \<subseteq> U" and "n \<le> count_if (\<lambda>c. r c \<noteq> []) cs"
  shows "count_if (S {}) cs + n \<le> count_if (S U) cs"
  using assms
proof (induction cs arbitrary: n)
  case (Cons c cs)
  have "S {} c \<Longrightarrow> S U c" using Cons.prems(2) [of c "{}" U] by simp
  moreover have "count_if (S {}) cs \<le> count_if (S U) cs"
    using Cons.prems(2) by (intro count_if_mono) (metis empty_subsetI list.set_intros(2))
  moreover have "0 < n \<Longrightarrow> r c \<noteq> [] \<Longrightarrow> S U c"
    using Cons.prems(1) [of c] Cons.prems(2) [of c "u ` set (r c)" U] Cons.prems(3) by (auto simp: image_Un)
  moreover have "0 < n \<Longrightarrow> r c \<noteq> [] \<Longrightarrow> count_if (S {}) cs + (n - 1) \<le> count_if (S U) cs"
    using Cons.prems by (intro Cons.IH) (auto simp: image_Un)
  moreover have "0 < n \<Longrightarrow> r c = [] \<Longrightarrow> count_if (S {}) cs + n \<le> count_if (S U) cs"
    using Cons.prems by (intro Cons.IH) auto
  ultimately show ?case using Cons.prems(1) [of c] by (cases "0 < n"; cases "r c = []"; cases "S {} c"; cases "S U c") auto
qed simp

lemma gangLoop_subset: "set (gangLoop n xss) \<subseteq> (\<Union>xs\<in>set xss. set xs)"
  by (induction n xss rule: gangLoop.induct) auto

lemma gangLoop_nonempty: "0 < n \<Longrightarrow> n \<le> count_if (\<lambda>c. r c \<noteq> []) cs \<Longrightarrow> gangLoop n (map r cs) \<noteq> []"
  by (induction cs) (auto split: if_splits)

lemma ready_pending:
  assumes "leaf_ok ps" and "PodSet_IsReadyForScheduling ps"
  shows "minAvailable ps - numActiveAllocatedTasks ps \<le> count_if (\<lambda>t. ShouldAllocate t isReal) (pods ps)"
proof -
  have ok: "podset_ok ps" and len: "int (length (pods ps)) < 2 ^ 31" using assms(1) by (simp_all add: leaf_ok_def pods_def)
  let ?c = "\<lambda>P. count_if (\<lambda>p. P (pod_Status p)) (pods ps)"
  have "mset (map snd (statusPods (podStatusIndex ps) Gated)) = mset (filter (\<lambda>p. pod_Status p = Gated) (pods ps))"
    by (rule index_pods [OF ok])
  then have "length (statusPods (podStatusIndex ps) Gated) = length (filter (\<lambda>p. pod_Status p = Gated) (pods ps))"
    by (metis length_map size_mset)
  then have "GetNumGatedTasks ps = ?c (\<lambda>s. s = Gated)" by (simp add: GetNumGatedTasks_def count_if_def)
  moreover have "count_if (\<lambda>p. IsAliveStatus (pod_Status p)) xs =
      count_if activePod xs + count_if (\<lambda>p. pod_Status p = Pending) xs + count_if (\<lambda>p. pod_Status p = Gated) xs" for xs
    by (induction xs) (auto simp: status_iffs)
  moreover have "numAliveTasks ps = ?c IsAliveStatus" "numActiveAllocatedTasks ps = ?c IsActiveAllocatedStatus"
    using ok by (simp_all add: podset_ok_def)
  ultimately have ready: "numAliveTasks ps - GetNumGatedTasks ps = numActiveAllocatedTasks ps + ?c (\<lambda>s. s = Pending)" by simp
  have "int32_of (numAliveTasks ps - GetNumGatedTasks ps) = numAliveTasks ps - GetNumGatedTasks ps"
  proof (rule int32_of_id)
    have "numAliveTasks ps \<le> int (length (pods ps))" using ok by (simp add: podset_ok_def count_if_le_length)
    moreover have "0 \<le> GetNumGatedTasks ps" by (simp add: GetNumGatedTasks_def)
    ultimately show "numAliveTasks ps - GetNumGatedTasks ps < 2 ^ 31" using len by simp
    have "0 \<le> numAliveTasks ps - GetNumGatedTasks ps" using ready ok by (simp add: podset_ok_def)
    then show "- (2 ^ 31) \<le> numAliveTasks ps - GetNumGatedTasks ps" by simp
  qed
  then have "minAvailable ps \<le> numActiveAllocatedTasks ps + ?c (\<lambda>s. s = Pending)"
    using assms(2) ready by (simp add: PodSet_IsReadyForScheduling_def split: if_splits)
  moreover have "?c (\<lambda>s. s = Pending) \<le> count_if (\<lambda>t. ShouldAllocate t isReal) (pods ps)"
    by (rule count_if_mono) (simp add: ShouldAllocate_def)
  ultimately show ?thesis by simp
qed

subsection \<open>The walk over any task order\<close>

text \<open>What the walk needs of the session's task order.\<close>

locale task_order = less_fn lt for lt :: "PodInfo LessFn"
begin

lemma tasks_queue:
  "wf_pq lt (getTasksPriorityQueue ps lt isReal)"
  "pq_elems (getTasksPriorityQueue ps lt isReal) = mset (filter (\<lambda>t. ShouldAllocate t isReal) (pods ps))"
  using heap.push_all [OF wf_pq_New, of "filter (\<lambda>t. ShouldAllocate t isReal) (pods ps)"]
  by (simp_all add: getTasksPriorityQueue_def pods_def fold_if_filter)

lemma tasks_from_queue:
  assumes "wf_pq lt pq" and "0 \<le> n"
  shows "mset (getTasksFromQueue pq n) \<subseteq># pq_elems pq"
    "int (length (getTasksFromQueue pq n)) = min n (int (Len pq))"
    "\<forall>x\<in>set (getTasksFromQueue pq n). \<forall>y\<in>#pq_elems pq - mset (getTasksFromQueue pq n). \<not> lt y x"
proof -
  obtain xs q' where pop: "pop_upto Pop (nat n) pq = (xs, q')" by (cases "pop_upto Pop (nat n) pq")
  note spec = heap.pop_upto_spec [OF assms(1) pop]
  have el: "pq_elems pq = mset xs + pq_elems q'" using spec by blast
  have xs: "getTasksFromQueue pq n = xs" using pop by (simp add: getTasksFromQueue_def)
  show "mset (getTasksFromQueue pq n) \<subseteq># pq_elems pq" unfolding xs using el by (metis mset_subset_eq_add_left)
  have "length xs = min (nat n) (size (pq_elems pq))" using spec by blast
  then show "int (length (getTasksFromQueue pq n)) = min n (int (Len pq))"
    unfolding xs using assms(2) by (simp add: Len_size min_def nat_le_iff)
  have rest: "pq_elems pq - mset xs = pq_elems q'" unfolding el by (simp only: add_diff_cancel_left')
  show "\<forall>x\<in>set (getTasksFromQueue pq n). \<forall>y\<in>#pq_elems pq - mset (getTasksFromQueue pq n). \<not> lt y x"
    unfolding xs rest using spec by blast
qed

text \<open>A leaf below its minimum contributes nothing or exactly the pods it is missing.\<close>

lemma collectTasksFromPodSet_gang:
  assumes "enforceGangAdmission mode" and "numActiveAllocatedTasks ps < minAvailable ps"
  defines "T \<equiv> collectTasksFromPodSet ps lt mode"
  shows "mset T \<subseteq># mset (filter (\<lambda>t. ShouldAllocate t (isRealAllocation mode)) (pods ps))"
    "T = [] \<or> int (length T) = minAvailable ps - numActiveAllocatedTasks ps"
    "minAvailable ps - numActiveAllocatedTasks ps \<le> count_if (\<lambda>t. ShouldAllocate t (isRealAllocation mode)) (pods ps) \<Longrightarrow> T \<noteq> []"
proof -
  let ?pq = "getTasksPriorityQueue ps lt (isRealAllocation mode)" and ?n = "minAvailable ps - numActiveAllocatedTasks ps"
  have n: "getNumTasksToAllocate ps (isRealAllocation mode) = ?n" "0 \<le> ?n" using assms(2) by (auto simp: getNumTasksToAllocate_def)
  have T: "T = (if Empty ?pq \<or> int (Len ?pq) < ?n then [] else getTasksFromQueue ?pq ?n)"
    using assms(1,2) n by (simp add: T_def collectTasksFromPodSet_def Let_def)
  note q = tasks_from_queue [OF tasks_queue(1) n(2), of ps "isRealAllocation mode"]
  show "mset T \<subseteq># mset (filter (\<lambda>t. ShouldAllocate t (isRealAllocation mode)) (pods ps))"
    using q(1) tasks_queue(2) unfolding T by auto
  show "T = [] \<or> int (length T) = ?n" using q(2) unfolding T by (cases "Empty ?pq \<or> int (Len ?pq) < ?n") auto
  assume le: "?n \<le> count_if (\<lambda>t. ShouldAllocate t (isRealAllocation mode)) (pods ps)"
  have len: "int (Len ?pq) = count_if (\<lambda>t. ShouldAllocate t (isRealAllocation mode)) (pods ps)"
    by (simp only: Len_size tasks_queue(2) count_if_def size_mset)
  have "\<not> Empty ?pq" using le len assms(2) by (auto simp: Empty_iff Len_size)
  then have "T = getTasksFromQueue ?pq ?n" using T le len by simp
  then have "int (length T) = ?n" using q(2) le len by simp
  then show "T \<noteq> []" using assms(2) by auto
qed

lemma PodSet_completes:
  fixes sgo :: "PodSet SubGroupMember LessFn"
  assumes "enforceGangAdmission mode" and "leaf_ok ps"
  defines "T \<equiv> collectFromChildInGangPhase sgo lt mode (PodSetMember ps)"
  shows "set T \<subseteq> {t \<in> set (pods ps). ShouldAllocate t (isRealAllocation mode)}"
    "T \<noteq> [] \<Longrightarrow> \<not> memberSatisfied (PodSetMember ps) \<and> satisfiedWith (uids T) (PodSetMember ps)"
    "\<not> memberSatisfied (PodSetMember ps) \<Longrightarrow> PodSet_IsReadyForScheduling ps \<Longrightarrow> T \<noteq> []"
proof -
  let ?al = "\<lambda>t. ShouldAllocate t (isRealAllocation mode)"
  have ok: "podset_ok ps" using assms(2) by (simp add: leaf_ok_def)
  have T: "T = (if minAvailable ps \<le> numActiveAllocatedTasks ps then [] else collectTasksFromPodSet ps lt mode)"
    by (simp add: T_def)
  note leaf = collectTasksFromPodSet_gang [OF assms(1), of ps]
  have sub: "mset T \<subseteq># mset (filter ?al (pods ps))" using leaf(1) by (simp add: T)
  then show set: "set T \<subseteq> {t \<in> set (pods ps). ?al t}"
    using set_mset_mono [OF sub] unfolding set_mset_mset set_filter by blast
  show "T \<noteq> []" if "\<not> memberSatisfied (PodSetMember ps)" "PodSet_IsReadyForScheduling ps"
    using leaf(3) ready_pending [OF assms(2) that(2)] that(1) by (simp add: T)
  assume ne: "T \<noteq> []"
  then have uns: "numActiveAllocatedTasks ps < minAvailable ps" and len: "int (length T) = minAvailable ps - numActiveAllocatedTasks ps"
    using leaf(2) by (auto simp: T split: if_splits)
  have "count_if (\<lambda>p. pod_UID p \<in> uids T) (filter ?al (pods ps)) \<ge> int (length T)"
  proof -
    have "mset T = filter_mset (\<lambda>p. pod_UID p \<in> uids T) (mset T)"
      unfolding mset_filter [symmetric] by (rule arg_cong [of _ _ mset], rule sym, rule filter_True) auto
    also have "\<dots> \<subseteq># filter_mset (\<lambda>p. pod_UID p \<in> uids T) (mset (filter ?al (pods ps)))" using sub by (rule multiset_filter_mono)
    finally show ?thesis using size_mset_mono by (fastforce simp: count_if_def simp flip: mset_filter)
  qed
  moreover have disj: "count_if activePod xs + count_if (\<lambda>p. pod_UID p \<in> U) (filter ?al xs)
      \<le> count_if (\<lambda>p. activePod p \<or> pod_UID p \<in> U) xs" for xs U
    by (induction xs) (auto dest: ShouldAllocate_not_active)
  moreover have "numActiveAllocatedTasks ps = count_if activePod (pods ps)" using ok by (simp add: podset_ok_def)
  ultimately have "minAvailable ps \<le> count_if (\<lambda>p. activePod p \<or> pod_UID p \<in> uids T) (pods ps)"
    using len disj [of "pods ps" "uids T"] by linarith
  moreover have "count_if (activeAfter Allocated (uids T)) (pods ps) = count_if (\<lambda>p. activePod p \<or> pod_UID p \<in> uids T) (pods ps)"
    by (rule count_if_cong) (auto simp: active_Allocated)
  ultimately show "\<not> memberSatisfied (PodSetMember ps) \<and> satisfiedWith (uids T) (PodSetMember ps)"
    using uns by (simp only: satisfiedAs.simps memberSatisfied_simps not_le simp_thms)
qed

text \<open>One node, given that its members behave.\<close>

lemma SubGroupSet_completes_step:
  fixes sgo :: "PodSet SubGroupMember LessFn"
  assumes "enforceGangAdmission mode" and "tree_ok sgs" and "SubGroupSet_IsReadyForScheduling sgs" and "\<not> IsMinRequirementSatisfied sgs"
  defines "r \<equiv> collectFromChildInGangPhase sgo lt mode"
  assumes sub: "\<And>m. m \<in> set (GetMembers sgs) \<Longrightarrow> set (r m) \<subseteq> A"
    and compl: "\<And>m. m \<in> set (GetMembers sgs) \<Longrightarrow> r m \<noteq> [] \<Longrightarrow> \<not> memberSatisfied m \<and> satisfiedWith (uids (r m)) m"
    and ready: "\<And>m. m \<in> set (GetMembers sgs) \<Longrightarrow> \<not> memberSatisfied m \<Longrightarrow> member_IsReadyForScheduling m \<Longrightarrow> r m \<noteq> []"
  defines "T \<equiv> collectTasksFromSubGroupSet sgo lt mode sgs"
  shows "T \<noteq> [] \<and> set T \<subseteq> A \<and> satisfiedWith (uids T) (GroupMember sgs)"
proof -
  let ?cs = "go_sort sgo (GetMembers sgs)" and ?K = "GetMinMembersToSatisfy sgs"
  let ?n = "?K - GetNumActiveAllocatedDirectSubGroups sgs"
  have T: "T = gangLoop ?n (map r ?cs)"
    using assms(1,3,4) by (simp add: T_def r_def collectTasksFromSubGroupSet.simps Let_def)
  have n: "0 < ?n" using assms(4) by (simp add: IsMinRequirementSatisfied_def)
  have perm: "count_if P ?cs = count_if P (GetMembers sgs)" for P by (rule count_if_mset) simp
  have split: "count_if member_IsReadyForScheduling ms \<le> count_if memberSatisfied ms + count_if (\<lambda>m. r m \<noteq> []) ms"
    if "set ms \<subseteq> set (GetMembers sgs)" for ms
    using that by (induction ms) (auto dest: ready)
  have "?n \<le> count_if (\<lambda>m. r m \<noteq> []) ?cs"
    using assms(3) split [OF subset_refl] unfolding ready_members perm numSatisfied_members by linarith
  note loop = gangLoop_nonempty [OF n this] gangLoop_count [where S = satisfiedWith and u = pod_UID and U = "uids T", OF _ _ _ this]
  have mok: "member_ok m" if "m \<in> set ?cs" for m using that tree_ok_member [OF assms(2)] by simp
  have "count_if (satisfiedWith {}) ?cs + ?n \<le> count_if (satisfiedWith (uids T)) ?cs"
  proof (rule loop(2))
    show "c \<in> set ?cs \<Longrightarrow> r c \<noteq> [] \<Longrightarrow> \<not> satisfiedWith {} c \<and> satisfiedWith (uids (r c)) c" for c
      using compl mok satisfiedWith_empty by auto
    show "c \<in> set ?cs \<Longrightarrow> U \<subseteq> V \<Longrightarrow> satisfiedWith U c \<Longrightarrow> satisfiedWith V c" for c U V
      using mok satisfiedWith_mono by blast
  qed (simp add: T)
  moreover have "count_if (satisfiedWith {}) ?cs = count_if memberSatisfied ?cs"
    using mok satisfiedWith_empty by (intro count_if_cong) blast
  ultimately have "?K \<le> count_if (satisfiedWith (uids T)) (GetMembers sgs)"
    by (simp add: perm numSatisfied_members)
  moreover have "set T \<subseteq> A" using gangLoop_subset [of ?n "map r ?cs"] sub unfolding T by fastforce
  ultimately show ?thesis using loop(1) unfolding T [symmetric] by (simp add: treeSatisfiedAs_members)
qed

lemma SubGroupSet_completes:
  fixes sgo :: "PodSet SubGroupMember LessFn"
  assumes "enforceGangAdmission mode" and "tree_ok sgs" and "SubGroupSet_IsReadyForScheduling sgs" and "\<not> IsMinRequirementSatisfied sgs"
  defines "T \<equiv> collectTasksFromSubGroupSet sgo lt mode sgs"
  shows "T \<noteq> [] \<and> set T \<subseteq> {t \<in> set (tree_pods sgs). ShouldAllocate t (isRealAllocation mode)} \<and> satisfiedWith (uids T) (GroupMember sgs)"
  using assms(2-4) unfolding T_def
proof (induction sgs rule: SubGroupSet_member_induct)
  case (node sgs)
  let ?r = "collectFromChildInGangPhase sgo lt mode"
  let ?A = "{t \<in> set (tree_pods sgs). ShouldAllocate t (isRealAllocation mode)}"
  have leafs: "set (member_leaves m) \<subseteq> set (leaves sgs)" if "m \<in> set (GetMembers sgs)" for m
    using that by (auto simp: leaves_members)
  have grp: "?r (GroupMember g) = (if IsMinRequirementSatisfied g \<or> \<not> SubGroupSet_IsReadyForScheduling g then []
      else collectTasksFromSubGroupSet sgo lt mode g)" for g
    using assms(1) by (simp add: collectTasksFromSubGroupSet.simps)
  have member: "set (?r m) \<subseteq> ?A \<and> (?r m \<noteq> [] \<longrightarrow> \<not> memberSatisfied m \<and> satisfiedWith (uids (?r m)) m) \<and>
      (\<not> memberSatisfied m \<longrightarrow> member_IsReadyForScheduling m \<longrightarrow> ?r m \<noteq> [])" if m: "m \<in> set (GetMembers sgs)" for m
  proof (cases m rule: SubGroupMember.exhaust)
    case (PodSetMember ps)
    then have "leaf_ok ps" using tree_ok_member [OF node.prems(1) m] by simp
    note ps = PodSet_completes [OF assms(1) this, of sgo]
    have "set (?r m) \<subseteq> ?A" using ps(1) leafs [OF m] unfolding PodSetMember by force
    then show ?thesis using ps(2,3) unfolding PodSetMember member_IsReadyForScheduling.simps by blast
  next
    case (GroupMember g)
    then have ok: "tree_ok g" using tree_ok_member [OF node.prems(1) m] by simp
    note IH = node.IH [of g, OF _ ok] and sub = leafs [OF m]
    have IH': "collectTasksFromSubGroupSet sgo lt mode g \<noteq> [] \<and> set (collectTasksFromSubGroupSet sgo lt mode g) \<subseteq> ?A \<and>
        satisfiedWith (uids (collectTasksFromSubGroupSet sgo lt mode g)) m"
      if "SubGroupSet_IsReadyForScheduling g" "\<not> IsMinRequirementSatisfied g"
      using IH [OF _ that] m sub unfolding GroupMember by fastforce
    show ?thesis using IH' by (auto simp: GroupMember grp simp del: collectFromChildInGangPhase.simps)
  qed
  show ?case by (rule SubGroupSet_completes_step [OF assms(1) node.prems]) (use member in blast)+
qed

end

end
