(* ===== verification/Task_Order.thy ===== *)
theory Task_Order
  imports Task_Allocation "HOL-Library.List_Lexorder" "HOL-Library.Char_ord"
begin

text \<open>
  The order of tasks and of subgroups in a session: the plugins \<^verbatim>\<open>taskorder\<close>, \<^verbatim>\<open>kubeflow\<close>, \<^verbatim>\<open>ray\<close> and
  \<^verbatim>\<open>subgrouporder\<close>, and the chains \<^verbatim>\<open>Session.TaskOrderFn\<close> and \<^verbatim>\<open>Session.SubGroupOrderFn\<close> of
  \<^verbatim>\<open>framework/session_plugins.go\<close> that consult them. \<^verbatim>\<open>strconv.Atoi\<close> is modelled; the string-membership
  test of a Kubernetes utility package is a parameter.

  The locale \<open>compare_fn\<close> states what a chain needs of each comparator; every plugin's comparator is
  shown to meet it, so that the session's task order is a strict weak order for every choice of
  plugins, and the walks of \<open>Task_Allocation\<close> and \<open>Core_Eviction\<close> apply to it.
\<close>

subsection \<open>Comparators and chains\<close>

type_synonym 'a CompareFn = "'a \<Rightarrow> 'a \<Rightarrow> int"

fun orderChain :: "'a CompareFn list \<Rightarrow> 'a LessFn \<Rightarrow> 'a LessFn" where
  "orderChain [] fallback l r = fallback l r"
| "orderChain (compareFn # fns) fallback l r =
     (let comparison = compareFn l r
      in if comparison \<noteq> 0 then comparison < 0 else orderChain fns fallback l r)"

text \<open>
  A comparator may answer \<open>1\<close> both ways on a class of elements it does not separate (\<^verbatim>\<open>taskorder\<close> does,
  on labels that are not numbers): the chain then stops at a tie. What a chain needs is that it
  treats all pairs of such a class alike.
\<close>

locale compare_fn = less_fn "\<lambda>l r. cmp l r < 0" for cmp :: "'a CompareFn" +
  assumes cmp_flip: "cmp l r < 0 \<Longrightarrow> cmp r l > 0"
    and cmp_class: "cmp x y \<ge> 0 \<Longrightarrow> cmp y x \<ge> 0 \<Longrightarrow> cmp y z \<ge> 0 \<Longrightarrow> cmp z y \<ge> 0 \<Longrightarrow> cmp x y = 0 \<longleftrightarrow> cmp y z = 0"
begin

lemma cmp_zero_sym: "cmp x y = 0 \<Longrightarrow> cmp y x = 0"
  using cmp_class [of y x y] cmp_flip [of y x] by fastforce

lemma chain_less_fn:
  assumes "less_fn rest"
  shows "less_fn (\<lambda>l r. if cmp l r \<noteq> 0 then cmp l r < 0 else rest l r)"
proof
  note rest = less_fn.less_asym [OF assms] less_fn.not_less_trans [OF assms]
  show "(if cmp x y \<noteq> 0 then cmp x y < 0 else rest x y) \<Longrightarrow> \<not> (if cmp y x \<noteq> 0 then cmp y x < 0 else rest y x)" for x y
    using cmp_flip [of x y] cmp_zero_sym [of x y] rest(1) [of x y] by (auto split: if_splits)
  fix x y z
  assume yx: "\<not> (if cmp y x \<noteq> 0 then cmp y x < 0 else rest y x)"
    and zy: "\<not> (if cmp z y \<noteq> 0 then cmp z y < 0 else rest z y)"
  then have le: "\<not> cmp y x < 0" "\<not> cmp z y < 0" by (auto split: if_splits)
  then have zx: "\<not> cmp z x < 0" by (rule not_less_trans)
  have "\<not> rest z x" if "cmp z x = 0"
  proof -
    have "cmp x z = 0" using that by (rule cmp_zero_sym)
    then have "\<not> cmp x y < 0" "\<not> cmp y z < 0" using not_less_trans [of z y x] not_less_trans [of x z y] le by auto
    then have "cmp x y = 0" "cmp y z = 0" using le zx that \<open>cmp x z = 0\<close> cmp_class [of z x y] cmp_class [of x y z] by auto
    then have "cmp y x = 0" "cmp z y = 0" by (simp_all add: cmp_zero_sym)
    then show ?thesis using yx zy rest(2) [of y x z] by simp
  qed
  then show "\<not> (if cmp z x \<noteq> 0 then cmp z x < 0 else rest z x)" using zx by simp
qed

end

lemma less_fn_orderChain:
  assumes "\<And>f. f \<in> set fns \<Longrightarrow> compare_fn f" and "less_fn fallback"
  shows "less_fn (orderChain fns fallback)"
  using assms(1)
proof (induction fns)
  case Nil
  have "orderChain [] fallback = fallback" by (intro ext) simp
  then show ?case using assms(2) by (simp only:)
next
  case (Cons f fns)
  have "orderChain (f # fns) fallback = (\<lambda>l r. if f l r \<noteq> 0 then f l r < 0 else orderChain fns fallback l r)"
    by (intro ext) (simp add: Let_def)
  moreover have "compare_fn f" "less_fn (orderChain fns fallback)" by (simp_all add: Cons)
  ultimately show ?case by (simp only: compare_fn.chain_less_fn)
qed

text \<open>A comparator given by two tests and a rank that explains them.\<close>

lemma compare_fn_rank:
  assumes "\<And>l r. cmp l r < 0 \<longleftrightarrow> rank l < (rank r :: 'b :: linorder)" and "\<And>l r. cmp l r > 0 \<longleftrightarrow> rank r < rank l"
  shows "compare_fn cmp"
proof
  show "cmp x y < 0 \<Longrightarrow> \<not> cmp y x < 0" for x y using assms by auto
  show "\<not> cmp y x < 0 \<Longrightarrow> \<not> cmp z y < 0 \<Longrightarrow> \<not> cmp z x < 0" for x y z using assms by auto
  show "cmp x y < 0 \<Longrightarrow> 0 < cmp y x" for x y using assms by auto
  show "(cmp x y = 0) = (cmp y z = 0)" if "0 \<le> cmp x y" "0 \<le> cmp y x" "0 \<le> cmp y z" "0 \<le> cmp z y" for x y z
  proof -
    have "rank x = rank y" "rank y = rank z" using that assms(1) by (auto simp flip: not_less intro: order_antisym)
    then show ?thesis using assms [of x y] assms [of y z] by force
  qed
qed

subsection \<open>The taskorder plugin\<close>

text \<open>\<^verbatim>\<open>strconv.Atoi\<close>: an optional sign, then decimal digits, in the range of a 64-bit integer.\<close>

definition digit_of :: "char \<Rightarrow> int option" where
  "digit_of c = (if CHR ''0'' \<le> c \<and> c \<le> CHR ''9'' then Some (of_char c - 48) else None)"

fun digits_value :: "string \<Rightarrow> int \<Rightarrow> int option" where
  "digits_value [] n = Some n"
| "digits_value (c # cs) n = (case digit_of c of None \<Rightarrow> None | Some d \<Rightarrow> digits_value cs (10 * n + d))"

definition Atoi :: "string \<Rightarrow> int option" where
  "Atoi s =
     (let (sgn, ds) = (case s of c # cs \<Rightarrow> if c = CHR ''-'' then (- 1, cs) else if c = CHR ''+'' then (1, cs) else (1, s) | [] \<Rightarrow> (1, []))
      in if ds = [] then None
         else case digits_value ds 0 of None \<Rightarrow> None | Some n \<Rightarrow> if int64_range (sgn * n) then Some (sgn * n) else None)"

definition TaskOrderLabelKey :: string where "TaskOrderLabelKey = ''kai.scheduler/task-priority''"

definition taskorder_TaskOrderFn :: "PodInfo CompareFn" where
  "taskorder_TaskOrderFn lv rv =
     (case (map_of (pod_Labels lv) TaskOrderLabelKey, map_of (pod_Labels rv) TaskOrderLabelKey) of
        (Some _, None) \<Rightarrow> - 1
      | (None, Some _) \<Rightarrow> 1
      | (None, None) \<Rightarrow> 0
      | (Some lPodPriorityString, Some rPodPriorityString) \<Rightarrow>
          (case Atoi lPodPriorityString of
             None \<Rightarrow> 1
           | Some lPodPriority \<Rightarrow>
               (case Atoi rPodPriorityString of
                  None \<Rightarrow> - 1
                | Some rPodPriority \<Rightarrow>
                    if lPodPriority > rPodPriority then - 1
                    else if lPodPriority < rPodPriority then 1
                    else 0)))"

interpretation taskorder: compare_fn taskorder_TaskOrderFn
  by unfold_locales (auto simp: taskorder_TaskOrderFn_def split: option.splits if_splits)

subsection \<open>The kubeflow and ray plugins\<close>

definition masterRoleOrder :: "(string list \<Rightarrow> string \<Rightarrow> bool) \<Rightarrow> string \<Rightarrow> string list \<Rightarrow> PodInfo CompareFn" where
  "masterRoleOrder ContainsString podRoleLabelKey masterRoleValues lv rv =
     (let isMaster = (\<lambda>v. case map_of (pod_Labels v) podRoleLabelKey of
                            Some role \<Rightarrow> ContainsString masterRoleValues role | None \<Rightarrow> False);
          lPodMasterRole = isMaster lv;
          rPodMasterRole = isMaster rv
      in if lPodMasterRole \<and> \<not> rPodMasterRole then - 1
         else if \<not> lPodMasterRole \<and> rPodMasterRole then 1
         else 0)"

definition kubeflow_TaskOrderFn :: "(string list \<Rightarrow> string \<Rightarrow> bool) \<Rightarrow> PodInfo CompareFn" where
  "kubeflow_TaskOrderFn ContainsString lv rv =
     masterRoleOrder ContainsString ''training.kubeflow.org/job-role'' [''master'', ''launcher''] lv rv"

definition ray_TaskOrderFn :: "(string list \<Rightarrow> string \<Rightarrow> bool) \<Rightarrow> PodInfo CompareFn" where
  "ray_TaskOrderFn ContainsString lv rv = masterRoleOrder ContainsString ''ray.io/node-type'' [''head''] lv rv"

lemma compare_fn_masterRole: "compare_fn (masterRoleOrder f k vs)"
  by (rule compare_fn_rank [where rank = "\<lambda>v. \<not> (case map_of (pod_Labels v) k of Some role \<Rightarrow> f vs role | None \<Rightarrow> False)"])
    (auto simp: masterRoleOrder_def Let_def split: option.splits)

interpretation kubeflow: compare_fn "kubeflow_TaskOrderFn f" for f
  unfolding kubeflow_TaskOrderFn_def [abs_def] by (rule compare_fn_masterRole)

interpretation ray: compare_fn "ray_TaskOrderFn f" for f
  unfolding ray_TaskOrderFn_def [abs_def] by (rule compare_fn_masterRole)

subsection \<open>The session's task order\<close>

definition taskOrderFallback :: "PodInfo LessFn" where
  "taskOrderFallback lv rv =
     (if pod_CreationTimestamp lv = pod_CreationTimestamp rv then pod_UID lv < pod_UID rv
      else pod_CreationTimestamp lv < pod_CreationTimestamp rv)"

definition ssn_TaskOrderFn :: "PodInfo CompareFn list \<Rightarrow> PodInfo LessFn" where
  "ssn_TaskOrderFn TaskOrderFns l r = orderChain TaskOrderFns taskOrderFallback l r"

text \<open>The plugins that register a task comparator, each of which a configuration may enable in any order.\<close>

datatype task_plugin = TaskorderPlugin | KubeflowPlugin | RayPlugin

fun task_plugin_fn :: "(string list \<Rightarrow> string \<Rightarrow> bool) \<Rightarrow> task_plugin \<Rightarrow> PodInfo CompareFn" where
  "task_plugin_fn f TaskorderPlugin = taskorder_TaskOrderFn"
| "task_plugin_fn f KubeflowPlugin = kubeflow_TaskOrderFn f"
| "task_plugin_fn f RayPlugin = ray_TaskOrderFn f"

abbreviation sessionTaskOrder :: "(string list \<Rightarrow> string \<Rightarrow> bool) \<Rightarrow> task_plugin list \<Rightarrow> PodInfo LessFn" where
  "sessionTaskOrder f plugins \<equiv> ssn_TaskOrderFn (map (task_plugin_fn f) plugins)"

lemma compare_fn_task_plugin: "compare_fn (task_plugin_fn f p)"
  by (cases p) (simp_all add: taskorder.compare_fn_axioms kubeflow.compare_fn_axioms ray.compare_fn_axioms)

lemma less_fn_taskOrderFallback: "less_fn taskOrderFallback"
  by unfold_locales (auto simp: taskOrderFallback_def split: if_splits)

lemma less_fn_sessionTaskOrder: "less_fn (sessionTaskOrder f plugins)"
proof -
  have "less_fn (orderChain (map (task_plugin_fn f) plugins) taskOrderFallback)"
    by (rule less_fn_orderChain) (auto simp: compare_fn_task_plugin less_fn_taskOrderFallback)
  then show ?thesis by (simp add: ssn_TaskOrderFn_def [abs_def])
qed

interpretation session_tasks: task_order "sessionTaskOrder f plugins" for f plugins
  unfolding task_order_def by (rule less_fn_sessionTaskOrder)

subsection \<open>The order of subgroups\<close>

definition orderByAllocationRatio :: "int \<Rightarrow> int \<Rightarrow> int \<Rightarrow> int \<Rightarrow> int" where
  "orderByAllocationRatio lCount lThreshold rCount rThreshold =
     (let lGangSatisfied = lCount \<ge> lThreshold;
          rGangSatisfied = rCount \<ge> rThreshold
      in if \<not> lGangSatisfied \<and> \<not> rGangSatisfied then 0
         else if \<not> lGangSatisfied then - 1
         else if \<not> rGangSatisfied then 1
         else if lThreshold = 0 \<and> rThreshold > 0 then 1
         else if rThreshold = 0 \<and> lThreshold > 0 then - 1
         else if lThreshold = 0 \<and> rThreshold = 0
         then (if lCount < rCount then - 1 else if rCount < lCount then 1 else 0)
         else let lRatio = fdiv (of_int lCount) (of_int lThreshold);
                  rRatio = fdiv (of_int rCount) (of_int rThreshold)
         in if fless lRatio rRatio then - 1
            else if fless rRatio lRatio then 1
            else 0)"

definition subgrouporder_SubGroupOrderFn :: "PodSet SubGroupMember CompareFn" where
  "subgrouporder_SubGroupOrderFn lv rv =
     orderByAllocationRatio (member_GetNumActiveAllocatedMembers lv) (member_GetMinMembersToSatisfy lv)
       (member_GetNumActiveAllocatedMembers rv) (member_GetMinMembersToSatisfy rv)"

definition ssn_SubGroupOrderFn :: "PodSet SubGroupMember CompareFn list \<Rightarrow> PodSet SubGroupMember LessFn" where
  "ssn_SubGroupOrderFn SubGroupOrderFns l r =
     orderChain SubGroupOrderFns (\<lambda>l r. member_GetName l < member_GetName r) l r"

subsection \<open>Properties of the orders\<close>

lemma ratio_less:
  assumes "0 < b" and "0 < d" and "a * d < c * b"
  shows "of_int a / of_int b < (of_int c / of_int d :: rat)"
proof -
  have "of_int (a * d) < (of_int (c * b) :: rat)" using assms(3) by (simp only: of_int_less_iff)
  then have "of_int a * of_int d < (of_int c * of_int b :: rat)" by (simp only: of_int_mult)
  then show ?thesis using assms(1,2) by (simp add: pos_divide_less_eq pos_less_divide_eq mult.commute)
qed

definition parsableTaskLabel :: "PodInfo \<Rightarrow> bool" where
  "parsableTaskLabel p \<longleftrightarrow> (case map_of (pod_Labels p) TaskOrderLabelKey of None \<Rightarrow> True | Some s \<Rightarrow> Atoi s \<noteq> None)"

lemma task_plugin_separates:
  "parsableTaskLabel x \<Longrightarrow> task_plugin_fn f p x y = 0 \<and> task_plugin_fn f p y x = 0 \<or>
     task_plugin_fn f p x y < 0 \<or> task_plugin_fn f p x y > 0 \<and> task_plugin_fn f p y x < 0"
  by (cases p)
    (auto simp: parsableTaskLabel_def taskorder_TaskOrderFn_def kubeflow_TaskOrderFn_def ray_TaskOrderFn_def
      masterRoleOrder_def Let_def split: option.splits if_splits)

text \<open>For every choice and order of the task-order plugins, the task order of a session is a strict weak
  order: it is asymmetric and incomparability is transitive, and it separates any two tasks with different
  UIDs as soon as the priority label of one of them is absent or a number.\<close>

lemma session_task_order:
  "(sessionTaskOrder f plugins x y \<longrightarrow> \<not> sessionTaskOrder f plugins y x) \<and>
   (\<not> sessionTaskOrder f plugins y x \<longrightarrow> \<not> sessionTaskOrder f plugins z y \<longrightarrow> \<not> sessionTaskOrder f plugins z x) \<and>
   (pod_UID x \<noteq> pod_UID y \<and> parsableTaskLabel x \<longrightarrow> sessionTaskOrder f plugins x y \<or> sessionTaskOrder f plugins y x)"
proof (intro conjI impI)
  show "sessionTaskOrder f plugins x y \<Longrightarrow> \<not> sessionTaskOrder f plugins y x" by (rule session_tasks.less_asym)
  show "\<not> sessionTaskOrder f plugins y x \<Longrightarrow> \<not> sessionTaskOrder f plugins z y \<Longrightarrow> \<not> sessionTaskOrder f plugins z x"
    by (rule session_tasks.not_less_trans)
  assume "pod_UID x \<noteq> pod_UID y \<and> parsableTaskLabel x"
  then show "sessionTaskOrder f plugins x y \<or> sessionTaskOrder f plugins y x"
  proof (induction plugins)
    case Nil
    then show ?case by (auto simp: ssn_TaskOrderFn_def taskOrderFallback_def)
  next
    case (Cons p plugins)
    then show ?case using task_plugin_separates [of x f p y] by (auto simp: ssn_TaskOrderFn_def Let_def)
  qed
qed

text \<open>A job of two pod sets with a minimum of two pods and one pod.\<close>

definition exampleTree :: "PodSet SubGroupSet" where
  "exampleTree =
     SubGroupSet [] None None []
       [fold AssignTask [examplePod ''a1'' Running, examplePod ''a2'' Pending, examplePod ''a3'' Pending] (NewPodSet ''a'' 2 None),
        fold AssignTask [examplePod ''b1'' Pending] (NewPodSet ''b'' 1 None)]"

lemma podset_ok_fold: "podset_ok ps \<Longrightarrow> podset_ok (fold AssignTask xs ps)"
  by (induction xs arbitrary: ps) (simp_all add: podset_ok_AssignTask)

lemma tree_ok_exampleTree: "tree_ok exampleTree"
proof -
  have "distinct (map pod_UID (tree_pods exampleTree))" by code_simp
  moreover have "\<forall>p\<in>set (leaves exampleTree). int (length (podInfos p)) < 2 ^ 31" by code_simp
  ultimately show ?thesis by (simp add: tree_ok_def leaf_ok_def exampleTree_def podset_ok_fold podset_ok_AssignTask)
qed

text \<open>C9. Gang admission. In the modes that enforce it, tasks are selected from a job below its minimum exactly
  if the job is ready, that is if enough of its pods are alive and not gated; the selected tasks are
  allocatable tasks of the job, and allocating them brings the whole tree of subgroups to its minimum.\<close>

theorem gang_admission:
  assumes "enforceGangAdmission mode" and "tree_ok sgs" and "\<not> IsMinRequirementSatisfied sgs"
  shows "(collectTasksFromSubGroupSet subGroupOrderFn (sessionTaskOrder f plugins) mode sgs \<noteq> [] \<longleftrightarrow> SubGroupSet_IsReadyForScheduling sgs) \<and>
    set (collectTasksFromSubGroupSet subGroupOrderFn (sessionTaskOrder f plugins) mode sgs)
      \<subseteq> {t \<in> set (tree_pods sgs). ShouldAllocate t (isRealAllocation mode)} \<and>
    (SubGroupSet_IsReadyForScheduling sgs \<longrightarrow>
      IsMinRequirementSatisfied (map_SubGroupSet (changeStatus Allocated
        (uids (collectTasksFromSubGroupSet subGroupOrderFn (sessionTaskOrder f plugins) mode sgs))) sgs))"
proof (cases "SubGroupSet_IsReadyForScheduling sgs")
  case True
  show ?thesis
    using session_tasks.SubGroupSet_completes [OF assms(1,2) True assms(3), where sgo = subGroupOrderFn] True
    by (simp add: IsMin_changeStatus [OF assms(2)])
next
  case False
  then show ?thesis using assms(1) by (simp add: collectTasksFromSubGroupSet.simps)
qed

theorem gang_admission_witness:
  "IsMinRequirementSatisfied (map_SubGroupSet (changeStatus Allocated
     (uids (collectTasksFromSubGroupSet (ssn_SubGroupOrderFn [subgrouporder_SubGroupOrderFn])
        (sessionTaskOrder (\<lambda>xs x. x \<in> set xs) [TaskorderPlugin]) RealTaskAllocation exampleTree))) exampleTree)"
proof -
  have "\<not> IsMinRequirementSatisfied exampleTree" "SubGroupSet_IsReadyForScheduling exampleTree" by code_simp+
  then show ?thesis
    using gang_admission [OF _ tree_ok_exampleTree, of RealTaskAllocation] unfolding enforceGangAdmission_def by blast
qed

text \<open>Elastic growth picks the neediest member: under the session's subgroup order with the
  \<^verbatim>\<open>subgrouporder\<close> plugin, a member below its threshold comes before every satisfied one, and of two satisfied
  members with positive thresholds the one with the smaller allocation ratio comes first.\<close>

lemma subgroup_order_neediest:
  assumes "memberSatisfied r"
  shows "(\<not> memberSatisfied l \<longrightarrow> ssn_SubGroupOrderFn [subgrouporder_SubGroupOrderFn] l r \<and>
            \<not> ssn_SubGroupOrderFn [subgrouporder_SubGroupOrderFn] r l) \<and>
    (memberSatisfied l \<and> 0 < member_GetMinMembersToSatisfy l \<and> 0 < member_GetMinMembersToSatisfy r \<and>
     member_GetNumActiveAllocatedMembers l * member_GetMinMembersToSatisfy r
       < member_GetNumActiveAllocatedMembers r * member_GetMinMembersToSatisfy l \<longrightarrow>
     ssn_SubGroupOrderFn [subgrouporder_SubGroupOrderFn] l r \<and> \<not> ssn_SubGroupOrderFn [subgrouporder_SubGroupOrderFn] r l)"
proof (intro conjI impI)
  assume "\<not> memberSatisfied l"
  then have "subgrouporder_SubGroupOrderFn l r = - 1" "subgrouporder_SubGroupOrderFn r l = 1"
    using assms by (auto simp: memberSatisfied_def subgrouporder_SubGroupOrderFn_def orderByAllocationRatio_def)
  then show "ssn_SubGroupOrderFn [subgrouporder_SubGroupOrderFn] l r"
    "\<not> ssn_SubGroupOrderFn [subgrouporder_SubGroupOrderFn] r l"
    by (simp_all add: ssn_SubGroupOrderFn_def)
next
  assume l: "memberSatisfied l \<and> 0 < member_GetMinMembersToSatisfy l \<and> 0 < member_GetMinMembersToSatisfy r \<and>
     member_GetNumActiveAllocatedMembers l * member_GetMinMembersToSatisfy r
       < member_GetNumActiveAllocatedMembers r * member_GetMinMembersToSatisfy l"
  have "of_int (member_GetNumActiveAllocatedMembers l) / of_int (member_GetMinMembersToSatisfy l)
      < (of_int (member_GetNumActiveAllocatedMembers r) / of_int (member_GetMinMembersToSatisfy r) :: rat)"
    using l by (intro ratio_less) auto
  then have "subgrouporder_SubGroupOrderFn l r = - 1" "subgrouporder_SubGroupOrderFn r l = 1"
    using assms l by (auto simp: memberSatisfied_def subgrouporder_SubGroupOrderFn_def orderByAllocationRatio_def fdiv_def Let_def)
  then show "ssn_SubGroupOrderFn [subgrouporder_SubGroupOrderFn] l r"
    "\<not> ssn_SubGroupOrderFn [subgrouporder_SubGroupOrderFn] r l"
    by (simp_all add: ssn_SubGroupOrderFn_def)
qed

end
