(* ===== verification/Core_Eviction.thy ===== *)
theory Core_Eviction
  imports Task_Order
begin

text \<open>
  The core of a job and the choice of victims, over the subgroup tree:
  \<^verbatim>\<open>api/podgroup_info/core_info.go\<close> and \<^verbatim>\<open>api/podgroup_info/eviction_info.go\<close>. The job-level entry points
  \<^verbatim>\<open>GetCoreTasks\<close> and \<^verbatim>\<open>GetTasksToEvict\<close> are in \<open>Pod_Group\<close>.

  The slice expression \<^verbatim>\<open>members[:k]\<close> of \<open>partitionCoreMembers\<close> panics on a negative minimum; the CRD
  schema (\<^verbatim>\<open>minSubGroup: minimum: 0\<close>) excludes it, and \<open>nonneg_tree\<close> is the corresponding hypothesis where a
  lemma needs it.

  The lemmas show that the core alone satisfies the minimum of a satisfied tree, and that elastic
  eviction never breaks a satisfied tree.
\<close>

subsection \<open>Core members\<close>

definition isMemberSatisfied :: "PodSet SubGroupMember \<Rightarrow> bool" where
  "isMemberSatisfied m \<longleftrightarrow> member_GetNumActiveAllocatedMembers m \<ge> member_GetMinMembersToSatisfy m"

definition coreMemberLess :: "PodSet SubGroupMember LessFn" where
  "coreMemberLess l r =
     (let lSatisfied = isMemberSatisfied l; rSatisfied = isMemberSatisfied r
      in if lSatisfied \<noteq> rSatisfied then lSatisfied else member_GetName l < member_GetName r)"

definition partitionCoreMembers ::
  "PodSet SubGroupSet \<Rightarrow> PodSet SubGroupMember list \<times> PodSet SubGroupMember list" where
  "partitionCoreMembers sgs =
     (let members = go_sort coreMemberLess (GetMembers sgs);
          k0 = GetMinMembersToSatisfy sgs;
          k = nat (if k0 > int (length members) then int (length members) else k0)
      in (take k members, drop k members))"

definition coreMembers :: "PodSet SubGroupSet \<Rightarrow> PodSet SubGroupMember list" where
  "coreMembers sgs = fst (partitionCoreMembers sgs)"

definition collectCoreFromPodSet :: "PodInfo LessFn \<Rightarrow> PodSet \<Rightarrow> PodsMap \<Rightarrow> PodsMap" where
  "collectCoreFromPodSet taskOrderFn ps core =
     (let allocated = go_sort taskOrderFn (filter (\<lambda>task. IsActiveAllocatedStatus (pod_Status task)) (map snd (podInfos ps)))
      in fold (\<lambda>task core. AList.update (pod_UID task) task core) (take (nat (minAvailable ps)) allocated) core)"

lemma set_partition:
  "set (fst (partitionCoreMembers sgs)) \<subseteq> set (GetMembers sgs)" "set (snd (partitionCoreMembers sgs)) \<subseteq> set (GetMembers sgs)"
  by (auto simp: partitionCoreMembers_def Let_def dest: in_set_takeD in_set_dropD)

lemma set_coreMembers: "set (coreMembers sgs) \<subseteq> set (GetMembers sgs)"
  unfolding coreMembers_def by (rule set_partition)

function (sequential) collectCoreFromSubGroupSet :: "PodInfo LessFn \<Rightarrow> PodSet SubGroupSet \<Rightarrow> PodsMap \<Rightarrow> PodsMap"
  and collectCoreFromMember :: "PodInfo LessFn \<Rightarrow> PodSet SubGroupMember \<Rightarrow> PodsMap \<Rightarrow> PodsMap" where
  "collectCoreFromSubGroupSet taskOrderFn sgs core =
     fold (\<lambda>member core. collectCoreFromMember taskOrderFn member core) (coreMembers sgs) core"
| "collectCoreFromMember taskOrderFn (GroupMember m) core = collectCoreFromSubGroupSet taskOrderFn m core"
| "collectCoreFromMember taskOrderFn (PodSetMember m) core = collectCoreFromPodSet taskOrderFn m core"
  by pat_completeness auto

termination
  by (relation "measure (\<lambda>x. case x of Inl (_, s, _) \<Rightarrow> 2 * size s | Inr (_, m, _) \<Rightarrow> member_size m)")
    (auto dest: member_size_less subsetD [OF set_coreMembers], auto simp: member_size_def)

declare collectCoreFromSubGroupSet.simps [simp del]

subsection \<open>Victims\<close>

definition getEvictableTasksPriorityQueue :: "PodSet \<Rightarrow> PodInfo LessFn \<Rightarrow> PodInfo PriorityQueue" where
  "getEvictableTasksPriorityQueue ps reverseTaskOrderFn =
     fold (\<lambda>task pq. if IsActiveAllocatedStatus (pod_Status task) then Push pq task else pq) (map snd (podInfos ps))
       (NewPriorityQueue (Some reverseTaskOrderFn) None)"

definition collectAllAllocatedTasksFromPodSet :: "PodSet \<Rightarrow> PodInfo LessFn \<Rightarrow> PodInfo list" where
  "collectAllAllocatedTasksFromPodSet ps reverseTaskOrderFn =
     (let taskQueue = getEvictableTasksPriorityQueue ps reverseTaskOrderFn
      in getTasksFromQueue taskQueue (int (Len taskQueue)))"

definition collectAllAllocatedTasksFromSubGroupSet :: "PodSet SubGroupSet \<Rightarrow> PodInfo LessFn \<Rightarrow> PodInfo list" where
  "collectAllAllocatedTasksFromSubGroupSet sgs reverseTaskOrderFn =
     concat (map (\<lambda>(name, ps). collectAllAllocatedTasksFromPodSet ps reverseTaskOrderFn) (GetDescendantPodSets sgs))"

fun collectGangEvictionFromMember :: "PodSet SubGroupMember \<Rightarrow> PodInfo LessFn \<Rightarrow> PodInfo list" where
  "collectGangEvictionFromMember (GroupMember m) reverseTaskOrderFn = collectAllAllocatedTasksFromSubGroupSet m reverseTaskOrderFn"
| "collectGangEvictionFromMember (PodSetMember m) reverseTaskOrderFn = collectAllAllocatedTasksFromPodSet m reverseTaskOrderFn"

fun hasElasticSurplusInSubGroupSet :: "PodSet SubGroupSet \<Rightarrow> bool" where
  "hasElasticSurplusInSubGroupSet (SubGroupSet nm tc k gs ps) \<longleftrightarrow>
     (if GetNumActiveAllocatedDirectSubGroups (SubGroupSet nm tc k gs ps) > GetMinMembersToSatisfy (SubGroupSet nm tc k gs ps)
      then True
      else (\<exists>g\<in>set gs. hasElasticSurplusInSubGroupSet g) \<or> (\<exists>p\<in>set ps. numActiveAllocatedTasks p > minAvailable p))"

fun hasElasticSurplusInMember :: "PodSet SubGroupMember \<Rightarrow> bool" where
  "hasElasticSurplusInMember (GroupMember m) = hasElasticSurplusInSubGroupSet m"
| "hasElasticSurplusInMember (PodSetMember m) \<longleftrightarrow> numActiveAllocatedTasks m > minAvailable m"

definition collectElasticEvictionFromPodSet :: "PodSet \<Rightarrow> PodInfo LessFn \<Rightarrow> PodInfo list" where
  "collectElasticEvictionFromPodSet ps reverseTaskOrderFn =
     (if numActiveAllocatedTasks ps \<le> minAvailable ps then []
      else getTasksFromQueue (getEvictableTasksPriorityQueue ps reverseTaskOrderFn) 1)"

function (sequential) collectElasticEvictionFromSubGroupSet ::
    "PodSet SubGroupMember LessFn \<Rightarrow> PodInfo LessFn \<Rightarrow> PodSet SubGroupSet \<Rightarrow> PodInfo list"
  and collectElasticEvictionFromMember ::
    "PodSet SubGroupMember LessFn \<Rightarrow> PodInfo LessFn \<Rightarrow> PodSet SubGroupMember \<Rightarrow> PodInfo list" where
  "collectElasticEvictionFromSubGroupSet reverseSubGroupOrderFn reverseTaskOrderFn sgs =
     (let numSatisfied = GetNumActiveAllocatedDirectSubGroups sgs
      in if numSatisfied = 0 then []
         else let members = go_sort reverseSubGroupOrderFn (GetMembers sgs);
                  phase1 = (if hasElasticSurplusInSubGroupSet sgs
                            then firstNonEmpty (map (\<lambda>member.
                                   collectElasticEvictionFromMember reverseSubGroupOrderFn reverseTaskOrderFn member) members)
                            else [])
         in if phase1 \<noteq> [] then phase1
            else if GetMinMembersToSatisfy sgs < numSatisfied
            then firstNonEmpty (map (\<lambda>member. collectGangEvictionFromMember member reverseTaskOrderFn) members)
            else [])"
| "collectElasticEvictionFromMember reverseSubGroupOrderFn reverseTaskOrderFn (GroupMember m) =
     collectElasticEvictionFromSubGroupSet reverseSubGroupOrderFn reverseTaskOrderFn m"
| "collectElasticEvictionFromMember reverseSubGroupOrderFn reverseTaskOrderFn (PodSetMember m) =
     collectElasticEvictionFromPodSet m reverseTaskOrderFn"
  by pat_completeness auto

termination
  by (relation "measure (\<lambda>x. case x of Inl (_, _, s) \<Rightarrow> 2 * size s | Inr (_, _, m) \<Rightarrow> member_size m)")
    (auto dest: member_size_less, auto simp: member_size_def)

declare collectElasticEvictionFromSubGroupSet.simps [simp del]

definition collectTasksToEvictFromSubGroupSet ::
  "PodSet SubGroupSet \<Rightarrow> PodSet SubGroupMember LessFn \<Rightarrow> PodInfo LessFn \<Rightarrow> PodInfo list" where
  "collectTasksToEvictFromSubGroupSet sgs reverseSubGroupOrderFn reverseTaskOrderFn =
     (let tasks = collectElasticEvictionFromSubGroupSet reverseSubGroupOrderFn reverseTaskOrderFn sgs
      in if tasks \<noteq> [] then tasks else collectAllAllocatedTasksFromSubGroupSet sgs reverseTaskOrderFn)"

lemma group_member_size: "GroupMember g \<in> set (GetMembers sgs) \<Longrightarrow> size g < size sgs"
  using member_size_less [of "GroupMember g" sgs] by (simp add: member_size_def)

function collectStaleEviction :: "PodInfo LessFn \<Rightarrow> PodSet SubGroupSet \<Rightarrow> PodInfo list" where
  "collectStaleEviction reverseTaskOrderFn sgs =
     (if \<not> IsMinRequirementSatisfied sgs then []
      else let (core, nonCore) = partitionCoreMembers sgs;
               stale = firstNonEmpty (map (\<lambda>member. if isMemberSatisfied member then []
                         else collectGangEvictionFromMember member reverseTaskOrderFn) nonCore)
           in if stale \<noteq> [] then stale
              else firstNonEmpty (map (\<lambda>member. case member of
                     GroupMember sub \<Rightarrow> collectStaleEviction reverseTaskOrderFn sub | PodSetMember _ \<Rightarrow> []) core))"
  by pat_completeness auto

termination
  by (relation "measure (\<lambda>(_, s). size s)") (auto intro!: group_member_size dest!: set_partition [THEN subsetD, rotated] simp: prod_eq_iff)

declare collectStaleEviction.simps [simp del]

subsection \<open>What the collections return\<close>

lemma firstNonEmpty_cases: "firstNonEmpty (map f xs) \<noteq> [] \<Longrightarrow> \<exists>x\<in>set xs. firstNonEmpty (map f xs) = f x"
  by (induction xs) (auto split: if_splits)

lemma isMemberSatisfied_iff: "isMemberSatisfied = memberSatisfied"
  by (intro ext) (simp add: isMemberSatisfied_def memberSatisfied_def)

context task_order
begin

lemma evictable_queue:
  "wf_pq lt (getEvictableTasksPriorityQueue ps lt)" "pq_elems (getEvictableTasksPriorityQueue ps lt) = mset (filter activePod (pods ps))"
  using heap.push_all [OF wf_pq_New, of "filter activePod (pods ps)"]
  by (simp_all add: getEvictableTasksPriorityQueue_def pods_def fold_if_filter)

lemma all_allocated_PodSet: "mset (collectAllAllocatedTasksFromPodSet ps lt) = mset (filter activePod (pods ps))"
proof -
  let ?q = "getEvictableTasksPriorityQueue ps lt"
  note q = tasks_from_queue [OF evictable_queue(1), of "int (Len ?q)" ps]
  have "size (mset (getTasksFromQueue ?q (int (Len ?q)))) = size (pq_elems ?q)" using q(2) by (simp add: Len_size)
  then have "mset (getTasksFromQueue ?q (int (Len ?q))) = pq_elems ?q" using q(1) unfolding subset_mset.le_less by (auto dest: mset_subset_size)
  then show ?thesis by (simp add: collectAllAllocatedTasksFromPodSet_def Let_def evictable_queue(2))
qed

lemma elastic_PodSet:
  "collectElasticEvictionFromPodSet ps lt = [] \<or>
   minAvailable ps < numActiveAllocatedTasks ps \<and> (\<exists>t\<in>set (pods ps). activePod t \<and> collectElasticEvictionFromPodSet ps lt = [t])"
proof -
  note q = tasks_from_queue [OF evictable_queue(1), of 1 ps]
  have "length (getTasksFromQueue (getEvictableTasksPriorityQueue ps lt) 1) \<le> 1" using q(2) by simp
  then have "getTasksFromQueue (getEvictableTasksPriorityQueue ps lt) 1 = [] \<or> (\<exists>t. getTasksFromQueue (getEvictableTasksPriorityQueue ps lt) 1 = [t])"
    by (cases "getTasksFromQueue (getEvictableTasksPriorityQueue ps lt) 1") auto
  moreover have "set (getTasksFromQueue (getEvictableTasksPriorityQueue ps lt) 1) \<subseteq> {t \<in> set (pods ps). activePod t}"
    using set_mset_mono [OF q(1)] unfolding evictable_queue(2) set_mset_mset set_filter by simp
  ultimately show ?thesis by (auto simp: collectElasticEvictionFromPodSet_def)
qed

end

lemma GetDescendantPodSets_leaves: "snd ` set (GetDescendantPodSets g) \<subseteq> set (leaves g)"
proof (induction g rule: GetDescendantPodSets.induct)
  case (1 nm tc m gs ps)
  define merge where "merge = (\<lambda>sub result. fold (\<lambda>(n, p) result. AList.update n p result) sub (result :: (string, PodSet) gomap))"
  have upd: "snd ` set (AList.update k v al) \<subseteq> insert v (snd ` set al)" for k v and al :: "(string, PodSet) gomap"
    by (induction al) auto
  have merge: "snd ` set (merge sub al) \<subseteq> (\<Union>x\<in>set sub. {snd x}) \<union> snd ` set al" for sub al
    unfolding merge_def by (rule fold_range) (use upd in \<open>auto simp: case_prod_unfold\<close>)
  have "snd ` set (fold merge subs al) \<subseteq> (\<Union>sub\<in>set subs. \<Union>x\<in>set sub. {snd x}) \<union> snd ` set al" for subs al
    by (rule fold_range) (rule merge)
  moreover have "snd ` set (fold (\<lambda>p result. AList.update (ps_name p) p result) qs al) \<subseteq> (\<Union>q\<in>set qs. {q}) \<union> snd ` set al"
    for qs and al :: "(string, PodSet) gomap"
    by (rule fold_range) (use upd in auto)
  ultimately have "snd ` set (GetDescendantPodSets (SubGroupSet nm tc m gs ps))
      \<subseteq> (\<Union>sub\<in>set (map GetDescendantPodSets gs). \<Union>x\<in>set sub. {snd x}) \<union> ((\<Union>q\<in>set ps. {q}) \<union> snd ` set ([] :: (string, PodSet) gomap))"
    unfolding GetDescendantPodSets.simps merge_def [symmetric] by (meson Un_mono order_refl order_trans)
  also have "\<dots> \<subseteq> set (leaves (SubGroupSet nm tc m gs ps))" using 1 by fastforce
  finally show ?case .
qed

lemma gang_eviction_active:
  assumes "task_order lt"
  shows "set (collectGangEvictionFromMember m lt) \<subseteq> {t. activePod t \<and> pod_UID t \<in> set (member_uids m)}"
proof -
  have ps: "set (collectAllAllocatedTasksFromPodSet p lt) = {t \<in> set (pods p). activePod t}" for p
    using arg_cong [OF task_order.all_allocated_PodSet [OF assms, of p], of set_mset] by simp
  show ?thesis
  proof (cases m)
    case (GroupMember g)
    have "set (collectAllAllocatedTasksFromSubGroupSet g lt) \<subseteq> {t. activePod t \<and> t \<in> set (tree_pods g)}"
      using GetDescendantPodSets_leaves [of g] by (fastforce simp: collectAllAllocatedTasksFromSubGroupSet_def ps)
    then show ?thesis unfolding GroupMember member_uids_def by (simp only: collectGangEvictionFromMember.simps member_leaves.simps set_map) blast
  qed (auto simp: ps member_uids_def)
qed

subsection \<open>Elastic eviction keeps a satisfied tree satisfied\<close>

lemma not_active_Releasing: "\<not> IsActiveAllocatedStatus Releasing"
  by (simp add: status_iffs)

lemma satisfied_untouched:
  assumes "member_ok m" and "U \<inter> set (member_uids m) = {}" and "memberSatisfied m"
  shows "satisfiedAs (activeAfter Releasing U) m"
proof (rule satisfiedAs_mono [OF assms(1)])
  show "satisfiedAs activePod m" using assms satisfiedAs_active by blast
qed (use assms(2) in auto)

lemma uids_disjoint_other:
  assumes "tree_ok sgs" and "m \<in> set (GetMembers sgs)" and "m' \<in> set (GetMembers sgs)" and "m \<noteq> m'"
  shows "set (member_uids m) \<inter> set (member_uids m') = {}"
proof -
  obtain xs ys where ms: "GetMembers sgs = xs @ m # ys" using assms(2) by (meson split_list)
  then have "m' \<in> set xs \<or> m' \<in> set ys" using assms(3,4) by auto
  then show ?thesis using member_uids_disjoint [OF assms(1) ms] by blast
qed

text \<open>Dropping one member costs at most one satisfied member.\<close>

lemma drop_member_count:
  assumes "tree_ok sgs" and "m \<in> set (GetMembers sgs)" and "U \<subseteq> set (member_uids m)" and "U \<noteq> {}"
  shows "count_if memberSatisfied (GetMembers sgs) - 1 \<le> count_if (satisfiedAs (activeAfter Releasing U)) (GetMembers sgs)"
proof -
  obtain xs ys where ms: "GetMembers sgs = xs @ m # ys" using assms(2) by (meson split_list)
  have other: "satisfiedAs (activeAfter Releasing U) m'" if "m' \<in> set xs \<or> m' \<in> set ys" "memberSatisfied m'" for m'
  proof (rule satisfied_untouched)
    show "member_ok m'" using tree_ok_member [OF assms(1)] ms that by auto
    show "U \<inter> set (member_uids m') = {}" using member_uids_disjoint [OF assms(1) ms that(1)] assms(3) by blast
  qed (rule that(2))
  have "count_if memberSatisfied xs \<le> count_if (satisfiedAs (activeAfter Releasing U)) xs"
    "count_if memberSatisfied ys \<le> count_if (satisfiedAs (activeAfter Releasing U)) ys"
    by (rule count_if_mono; use other in blast)+
  then show ?thesis unfolding ms by simp
qed

lemma activeAfter_none [simp]: "activeAfter st {} = activePod"
  by (intro ext) simp

lemma elastic_SubGroupSet_cases:
  fixes sgo lt sgs
  defines "T \<equiv> collectElasticEvictionFromSubGroupSet sgo lt sgs"
  shows "T = [] \<or> (\<exists>m\<in>set (GetMembers sgs). T = collectElasticEvictionFromMember sgo lt m) \<or>
    (T \<noteq> [] \<and> GetMinMembersToSatisfy sgs < count_if memberSatisfied (GetMembers sgs) \<and>
     (\<exists>m\<in>set (GetMembers sgs). T = collectGangEvictionFromMember m lt))"
proof -
  let ?ms = "go_sort sgo (GetMembers sgs)"
  let ?p1 = "firstNonEmpty (map (\<lambda>m. collectElasticEvictionFromMember sgo lt m) ?ms)"
    and ?p2 = "firstNonEmpty (map (\<lambda>m. collectGangEvictionFromMember m lt) ?ms)"
  have "T = [] \<or> (T \<noteq> [] \<and> T = ?p1) \<or>
      (T \<noteq> [] \<and> T = ?p2 \<and> GetMinMembersToSatisfy sgs < count_if memberSatisfied (GetMembers sgs))"
    by (auto simp: T_def collectElasticEvictionFromSubGroupSet.simps Let_def numSatisfied_members)
  then show ?thesis
    using firstNonEmpty_cases [of "\<lambda>m. collectElasticEvictionFromMember sgo lt m" ?ms]
      firstNonEmpty_cases [of "\<lambda>m. collectGangEvictionFromMember m lt" ?ms] unfolding set_go_sort by metis
qed

context task_order
begin

lemma elastic_PodSet_keeps:
  assumes "leaf_ok ps"
  defines "T \<equiv> collectElasticEvictionFromPodSet ps lt"
  shows "set T \<subseteq> {t. activePod t \<and> pod_UID t \<in> set (member_uids (PodSetMember ps))}"
    "memberSatisfied (PodSetMember ps) \<Longrightarrow> satisfiedAs (activeAfter Releasing (uids T)) (PodSetMember ps)"
proof -
  have ok: "podset_ok ps" using assms(1) by (simp add: leaf_ok_def)
  show "set T \<subseteq> {t. activePod t \<and> pod_UID t \<in> set (member_uids (PodSetMember ps))}"
    using elastic_PodSet [of ps] by (auto simp: T_def member_uids_def)
  assume sat: "memberSatisfied (PodSetMember ps)"
  show "satisfiedAs (activeAfter Releasing (uids T)) (PodSetMember ps)"
  proof (cases "T = []")
    case True
    then show ?thesis using satisfiedAs_active [of "PodSetMember ps"] assms(1) sat by simp
  next
    case False
    then obtain t where t: "T = [t]" and more: "minAvailable ps < numActiveAllocatedTasks ps"
      using elastic_PodSet [of ps] by (auto simp: T_def)
    have "count_if activePod xs - 1 \<le> count_if (activeAfter Releasing {u}) xs" if "distinct (map pod_UID xs)" for xs u
      using that
    proof (induction xs)
      case (Cons x xs)
      have "count_if (activeAfter Releasing {u}) xs = count_if activePod xs" if "pod_UID x = u"
        using Cons.prems that by (intro count_if_cong) (auto intro: rev_image_eqI)
      then show ?case using Cons by (auto simp: not_active_Releasing)
    qed simp
    then have "count_if activePod (pods ps) - 1 \<le> count_if (activeAfter Releasing {pod_UID t}) (pods ps)"
      using pods_distinct [OF ok] by blast
    moreover have "numActiveAllocatedTasks ps = count_if activePod (pods ps)" using ok by (simp add: podset_ok_def)
    ultimately show ?thesis using more by (simp add: t)
  qed
qed

text \<open>One node: evicting from one member by phase 1, or a whole member by phase 2.\<close>

lemma elastic_step:
  assumes "tree_ok sgs"
    and mem: "\<And>m. m \<in> set (GetMembers sgs) \<Longrightarrow>
      set (collectElasticEvictionFromMember sgo lt m) \<subseteq> {t. activePod t \<and> pod_UID t \<in> set (member_uids m)} \<and>
      (memberSatisfied m \<longrightarrow> satisfiedAs (activeAfter Releasing (uids (collectElasticEvictionFromMember sgo lt m))) m)"
    and T: "T = collectElasticEvictionFromSubGroupSet sgo lt sgs"
  shows "set T \<subseteq> {t. activePod t \<and> pod_UID t \<in> set (member_uids (GroupMember sgs))} \<and>
    (memberSatisfied (GroupMember sgs) \<longrightarrow> satisfiedAs (activeAfter Releasing (uids T)) (GroupMember sgs))"
proof -
  let ?ms = "go_sort sgo (GetMembers sgs)" and ?K = "GetMinMembersToSatisfy sgs"
  let ?sat = "\<lambda>U. count_if (satisfiedAs (activeAfter Releasing U)) (GetMembers sgs)"
  have uids: "set (member_uids m) \<subseteq> set (member_uids (GroupMember sgs))" if "m \<in> set (GetMembers sgs)" for m
    using that by (auto simp: member_uids_def leaves_members)
  consider (none) "T = []"
    | (phase1) m where "m \<in> set (GetMembers sgs)" "T = collectElasticEvictionFromMember sgo lt m"
    | (phase2) m where "T \<noteq> []" "m \<in> set (GetMembers sgs)" "T = collectGangEvictionFromMember m lt" "?K < count_if memberSatisfied (GetMembers sgs)"
    using elastic_SubGroupSet_cases [of sgo lt sgs] unfolding T by blast
  then show ?thesis
  proof cases
    case none
    then show ?thesis using satisfiedAs_active [of "GroupMember sgs"] assms(1) by simp
  next
    case phase1
    have "satisfiedAs (activeAfter Releasing (uids T)) m'" if "m' \<in> set (GetMembers sgs)" "memberSatisfied m'" for m'
    proof (cases "m' = m")
      case True
      then show ?thesis using mem [OF phase1(1)] that(2) phase1(2) by simp
    next
      case False
      have "uids T \<inter> set (member_uids m') = {}"
        using mem [OF phase1(1)] uids_disjoint_other [OF assms(1) phase1(1) that(1)] False unfolding phase1(2) by blast
      then show ?thesis by (rule satisfied_untouched [OF tree_ok_member [OF assms(1) that(1)] _ that(2)])
    qed
    then have "count_if memberSatisfied (GetMembers sgs) \<le> ?sat (uids T)" by (intro count_if_mono)
    then show ?thesis using mem [OF phase1(1)] uids [OF phase1(1)] unfolding phase1(2)
      by (auto simp: treeSatisfiedAs_members IsMinRequirementSatisfied_iff)
  next
    case phase2
    have act: "set T \<subseteq> {t. activePod t \<and> pod_UID t \<in> set (member_uids m)}"
      unfolding phase2(3) by (rule gang_eviction_active) (rule task_order_axioms)
    have "?K \<le> ?sat (uids T)"
      using drop_member_count [OF assms(1) phase2(2), of "uids T"] act phase2(1,4) by fastforce
    then show ?thesis using act uids [OF phase2(2)] by (auto simp: treeSatisfiedAs_members)
  qed
qed

lemma elastic_keeps:
  "member_ok m \<Longrightarrow>
    set (collectElasticEvictionFromMember sgo lt m) \<subseteq> {t. activePod t \<and> pod_UID t \<in> set (member_uids m)} \<and>
    (memberSatisfied m \<longrightarrow> satisfiedAs (activeAfter Releasing (uids (collectElasticEvictionFromMember sgo lt m))) m)"
proof (rule members_induct [where R = "\<lambda>m. set (collectElasticEvictionFromMember sgo lt m) \<subseteq> {t. activePod t \<and> pod_UID t \<in> set (member_uids m)} \<and>
    (memberSatisfied m \<longrightarrow> satisfiedAs (activeAfter Releasing (uids (collectElasticEvictionFromMember sgo lt m))) m)"], goal_cases)
  case (1 ps)
  then show ?case using elastic_PodSet_keeps [of ps] by (simp only: collectElasticEvictionFromMember.simps) blast
next
  case (2 g)
  show ?case unfolding collectElasticEvictionFromMember.simps by (rule elastic_step [OF 2(2) 2(3) refl])
qed

end

subsection \<open>The core alone satisfies the minimum\<close>

interpretation core_members: less_fn coreMemberLess
  by unfold_locales (auto simp: coreMemberLess_def Let_def split: if_splits)

lemma sorted_satisfied_first:
  assumes "sorted_wrt (\<lambda>x y. \<not> coreMemberLess y x) ms" and "int n \<le> count_if memberSatisfied ms"
  shows "\<forall>m\<in>set (take n ms). memberSatisfied m"
  using assms
proof (induction ms arbitrary: n)
  case (Cons m ms)
  have "memberSatisfied m" if "n \<noteq> 0"
  proof (rule ccontr)
    assume uns: "\<not> memberSatisfied m"
    then have "\<not> memberSatisfied m'" if "m' \<in> set ms" for m'
      using Cons.prems(1) that by (auto simp: coreMemberLess_def Let_def isMemberSatisfied_iff)
    then have "count_if memberSatisfied ms = count_if (\<lambda>_. False) ms" by (intro count_if_cong) simp
    then show False using Cons.prems(2) uns that by simp
  qed
  then show ?case using Cons.IH [of "n - 1"] Cons.prems by (cases n) (auto split: if_splits)
qed simp

lemma coreMembers_satisfied:
  assumes "IsMinRequirementSatisfied sgs" and "0 \<le> GetMinMembersToSatisfy sgs"
  shows "\<forall>m\<in>set (coreMembers sgs). memberSatisfied m"
    "GetMinMembersToSatisfy sgs = int (length (coreMembers sgs))"
    "count_if P (coreMembers sgs) \<le> count_if P (GetMembers sgs)"
proof -
  let ?ms = "go_sort coreMemberLess (GetMembers sgs)" and ?k = "GetMinMembersToSatisfy sgs"
  have perm: "count_if Q ?ms = count_if Q (GetMembers sgs)" for Q by (rule count_if_mset) simp
  have k: "?k \<le> count_if memberSatisfied ?ms" using assms(1) by (simp add: IsMinRequirementSatisfied_iff perm)
  also have "\<dots> \<le> int (length ?ms)" by (rule count_if_le_length)
  finally have core: "coreMembers sgs = take (nat ?k) ?ms" by (simp add: coreMembers_def partitionCoreMembers_def Let_def)
  show "\<forall>m\<in>set (coreMembers sgs). memberSatisfied m"
    unfolding core using k assms(2) by (intro sorted_satisfied_first core_members.sorted_go_sort) simp
  have "?k \<le> int (length (GetMembers sgs))" using k count_if_le_length [of memberSatisfied ?ms] by simp
  then show "?k = int (length (coreMembers sgs))" unfolding core using assms(2) by simp
  have "count_if P (take (nat ?k) ?ms) \<le> count_if P ?ms"
    by (metis append_take_drop_id count_if_append count_if_nonneg le_add_same_cancel1)
  then show "count_if P (coreMembers sgs) \<le> count_if P (GetMembers sgs)" by (simp only: core perm)
qed

abbreviation core_uids :: "PodsMap \<Rightarrow> PodID set" where
  "core_uids core \<equiv> dom (map_of core)"

lemma core_fold_PodSet:
  "core_uids (fold (\<lambda>task core. AList.update (pod_UID task) task core) xs core) = core_uids core \<union> uids xs"
  by (induction xs arbitrary: core) auto

lemma collectCore_grows: "core_uids core \<subseteq> core_uids (collectCoreFromSubGroupSet lt sgs core)"
    "core_uids core \<subseteq> core_uids (collectCoreFromMember lt m core)"
proof (induction lt sgs core and lt m core rule: collectCoreFromSubGroupSet_collectCoreFromMember.induct)
  case (1 lt sgs core)
  have "core_uids c \<subseteq> core_uids (fold (\<lambda>member core. collectCoreFromMember lt member core) ms c)"
    if "set ms \<subseteq> set (coreMembers sgs)" for ms c
    using that
  proof (induction ms arbitrary: c)
    case (Cons m ms)
    have "core_uids c \<subseteq> core_uids (collectCoreFromMember lt m c)" using Cons.prems 1 [of m c] by simp
    also have "\<dots> \<subseteq> core_uids (fold (\<lambda>member core. collectCoreFromMember lt member core) ms (collectCoreFromMember lt m c))"
      using Cons by simp
    finally show ?case by simp
  qed simp
  then show ?case by (simp add: collectCoreFromSubGroupSet.simps)
qed (auto simp: collectCoreFromPodSet_def Let_def core_fold_PodSet)

text \<open>What a member's collection leaves in the accumulator makes that member satisfied.\<close>

lemma collectCore_PodSet:
  assumes "leaf_ok ps" and "memberSatisfied (PodSetMember ps)"
  shows "satisfiedAs (\<lambda>p. activePod p \<and> pod_UID p \<in> core_uids (collectCoreFromPodSet lt ps core)) (PodSetMember ps)"
proof -
  let ?al = "go_sort lt (filter activePod (pods ps))" and ?n = "nat (minAvailable ps)"
  let ?C = "core_uids (collectCoreFromPodSet lt ps core)"
  have "int (length ?al) = numActiveAllocatedTasks ps" using assms(1) by (simp add: leaf_ok_def podset_ok_def count_if_def)
  then have len: "minAvailable ps \<le> int (length (take ?n ?al))" using assms(2) by auto
  have "uids (take ?n ?al) \<subseteq> ?C" by (simp add: collectCoreFromPodSet_def Let_def core_fold_PodSet pods_def)
  then have "length (take ?n ?al) \<le> length (filter (\<lambda>p. pod_UID p \<in> ?C) (take ?n ?al))" by (simp add: subset_iff filter_True)
  also have "\<dots> \<le> length (filter (\<lambda>p. pod_UID p \<in> ?C) ?al)"
    by (metis append_take_drop_id filter_append le_add1 length_append)
  also have "\<dots> = length (filter (\<lambda>p. pod_UID p \<in> ?C) (filter activePod (pods ps)))"
    by (metis mset_filter mset_go_sort size_mset)
  finally show ?thesis using len by (simp add: count_if_def conj_commute)
qed

fun nonneg_tree :: "PodSet SubGroupSet \<Rightarrow> bool" where
  "nonneg_tree (SubGroupSet nm tc m gs ps) \<longleftrightarrow> (case m of None \<Rightarrow> True | Some k \<Rightarrow> 0 \<le> k) \<and> (\<forall>g\<in>set gs. nonneg_tree g)"

lemma nonneg_tree_member:
  "nonneg_tree sgs \<Longrightarrow> 0 \<le> GetMinMembersToSatisfy sgs"
  "nonneg_tree sgs \<Longrightarrow> GroupMember g \<in> set (GetMembers sgs) \<Longrightarrow> nonneg_tree g"
  by (cases sgs; auto simp: GetMinMembersToSatisfy_def GetMembers_def split: option.splits)+

lemma core_satisfies:
  "tree_ok sgs \<Longrightarrow> nonneg_tree sgs \<Longrightarrow> IsMinRequirementSatisfied sgs \<Longrightarrow>
     satisfiedAs (\<lambda>p. activePod p \<and> pod_UID p \<in> core_uids (collectCoreFromSubGroupSet lt sgs core)) (GroupMember sgs)"
proof (induction sgs arbitrary: core rule: SubGroupSet_member_induct)
  case (node sgs)
  let ?in = "\<lambda>C p. activePod p \<and> pod_UID p \<in> core_uids C"
  let ?f = "\<lambda>member core. collectCoreFromMember lt member core"
  note core = coreMembers_satisfied [OF node.prems(3) nonneg_tree_member(1) [OF node.prems(2)]]
  have ok: "member_ok m" if "m \<in> set (coreMembers sgs)" for m
    using that set_coreMembers tree_ok_member [OF node.prems(1)] by blast
  have one: "satisfiedAs (?in (?f m c)) m" if m: "m \<in> set (coreMembers sgs)" for m c
  proof (cases m)
    case (GroupMember g)
    then have g: "GroupMember g \<in> set (GetMembers sgs)" "tree_ok g" "IsMinRequirementSatisfied g"
      using m set_coreMembers core(1) ok [OF m] by auto
    show ?thesis using node.IH [OF g(1,2) nonneg_tree_member(2) [OF node.prems(2) g(1)] g(3)] by (simp add: GroupMember)
  next
    case (PodSetMember ps)
    then show ?thesis using collectCore_PodSet [of ps lt c] core(1) m ok [OF m] by auto
  qed
  have grow: "core_uids c \<subseteq> core_uids (fold ?f ms c)" for ms c
    by (induction ms arbitrary: c) (simp, metis collectCore_grows(2) comp_apply fold_Cons subset_trans)
  have "satisfiedAs (?in (fold ?f ms c)) m" if "m \<in> set ms" "set ms \<subseteq> set (coreMembers sgs)" for ms m c
    using that
  proof (induction ms arbitrary: c)
    case (Cons m' ms)
    show ?case
    proof (cases "m \<in> set ms")
      case True
      then show ?thesis using Cons by simp
    next
      case False
      then have "m = m'" using Cons.prems by simp
      have in_core: "m \<in> set (coreMembers sgs)" using Cons.prems \<open>m = m'\<close> by simp
      have "core_uids (?f m c) \<subseteq> core_uids (fold ?f ms (?f m c))" by (rule grow)
      then have "satisfiedAs (?in (fold ?f ms (?f m c))) m"
        by (intro satisfiedAs_mono [OF ok [OF in_core] _ one [OF in_core, of c]]) auto
      then show ?thesis using \<open>m = m'\<close> by simp
    qed
  qed simp
  then have "count_if (satisfiedAs (?in (fold ?f (coreMembers sgs) core))) (coreMembers sgs) = count_if (\<lambda>_. True) (coreMembers sgs)"
    by (intro count_if_cong) auto
  then have "GetMinMembersToSatisfy sgs = count_if (satisfiedAs (?in (fold ?f (coreMembers sgs) core))) (coreMembers sgs)"
    using core(2) by simp
  also have "\<dots> \<le> count_if (satisfiedAs (?in (fold ?f (coreMembers sgs) core))) (GetMembers sgs)" by (rule core(3))
  finally show ?case by (simp add: treeSatisfiedAs_members collectCoreFromSubGroupSet.simps)
qed

end
