(* ===== verification/Fit_Errors.thy ===== *)
theory Fit_Errors
  imports Pod_Info Resources "HOL-Library.List_Lexorder" "HOL-Library.Char_ord"
begin

text \<open>
  Why tasks and jobs do not fit: \<^verbatim>\<open>api/common_info/pod_errors.go\<close>, \<^verbatim>\<open>api/common_info/job_errors.go\<close> and the
  messages of \<^verbatim>\<open>k8s_internal/k8s_internal.go\<close>. A task keeps one counter per reason over all nodes, a job a list of
  errors; both are turned into messages for the user.

  Texts of numbers come from the environment (\<open>fit_env\<close>): \<^verbatim>\<open>strconv.FormatFloat(x, 'g', 3, 64)\<close>,
  \<^verbatim>\<open>humanize.FtoaWithDigits(x, 3)\<close>, the text of a Kubernetes quantity, of joined errors (\<^verbatim>\<open>multierr\<close>) and of
  \<^verbatim>\<open>lifecycle.InsufficientResourceError\<close>, and so does the overhead that a pod's specification declares.

  The lemmas show that counting is additive, in any order, and which resources an error names.
\<close>

record 'q fit_env =
  FormatFloat :: "float64 \<Rightarrow> string"
  FtoaWithDigits :: "float64 \<Rightarrow> string"
  InsufficientResourceError_Error :: "string \<Rightarrow> int \<Rightarrow> int \<Rightarrow> int \<Rightarrow> string"
  Multierr_Error :: "string list \<Rightarrow> string"
  Quantity_String :: "'q \<Rightarrow> string"
  Quantity_MilliValue :: "'q \<Rightarrow> int"
  Quantity_Value :: "'q \<Rightarrow> int"
  Overhead :: "PodInfo \<Rightarrow> (string, 'q) gomap"
  fit_rc :: resource_consts

text \<open>\<^verbatim>\<open>%d\<close>, and a line break.\<close>

fun digits_of :: "nat \<Rightarrow> string" where
  "digits_of n = (if n < 10 then [char_of (48 + n)] else digits_of (n div 10) @ [char_of (48 + n mod 10)])"

definition Itoa :: "int \<Rightarrow> string" where
  "Itoa n = (if n < 0 then ''-'' @ digits_of (nat (- n)) else digits_of (nat n))"

definition newline :: string where "newline = [CHR 0x0A]"

definition MilliCPUToCores :: float64 where "MilliCPUToCores = 1000"
definition MemoryToGB :: float64 where "MemoryToGB = 1000 * 1000 * 1000"

subsection \<open>Messages\<close>

definition NewInsufficientResourceError :: "string \<Rightarrow> string \<Rightarrow> string \<Rightarrow> string \<Rightarrow> bool \<Rightarrow> string" where
  "NewInsufficientResourceError resourceName requested used capacity distributedTaskMessage =
     (if distributedTaskMessage
      then ''Node didn't have enough resources: '' @ resourceName @ '', taking all considerations into account''
      else ''Node didn't have enough resources: '' @ resourceName @ '', requested: '' @ requested @ '', used: '' @ used @
           '', capacity: '' @ capacity)"

definition NewInsufficientResourceErrorScalarResources ::
  "'q fit_env \<Rightarrow> string \<Rightarrow> int \<Rightarrow> int \<Rightarrow> int \<Rightarrow> bool \<Rightarrow> string" where
  "NewInsufficientResourceErrorScalarResources fe resourceName requested used capacity distributedTaskMessage =
     (if distributedTaskMessage
      then ''Node didn't have enough resources: '' @ resourceName @ '', taking all considerations into account''
      else InsufficientResourceError_Error fe resourceName requested used capacity)"

definition NewInsufficientGpuMemoryCapacity :: "int \<Rightarrow> int \<Rightarrow> bool \<Rightarrow> string" where
  "NewInsufficientGpuMemoryCapacity requested capacity distributedTaskMessage =
     (if distributedTaskMessage then ''Node didn't have enough resources: GPU memory, taking all considerations into account''
      else ''Node didn't have enough resources: Each gpu on the node has a gpu memory capacity of '' @ Itoa capacity @
           '' Mib. '' @ Itoa requested @ '' Mib of gpu memory has been requested.'')"

definition GpusAsString :: "'q fit_env \<Rightarrow> GpuResourceRequirement \<Rightarrow> string" where
  "GpusAsString fe g =
     (if IsFractionalRequest g \<and> GetNumOfGpuDevices g > 1
      then Itoa (GetNumOfGpuDevices g) @ '' X '' @ FormatFloat fe (GpuFractionalPortion g)
      else if draGpuCounts g \<noteq> [] then FormatFloat fe (of_int (GetDraGpusCount g)) @ '' as DRA gpu claims ''
      else FormatFloat fe (GPUs g))"

definition StringResourceList :: "'q fit_env \<Rightarrow> (string, 'q) gomap \<Rightarrow> string" where
  "StringResourceList fe resources = concat (map (\<lambda>(name, qty). '' '' @ name @ '': '' @ Quantity_String fe qty) resources)"

subsection \<open>Errors of a task on a node\<close>

definition ResourcesWereNotFoundMsg :: string where "ResourcesWereNotFoundMsg = ''no nodes with enough resources were found''"
definition DefaultPodError :: string where "DefaultPodError = ''Unable to schedule pod''"
definition OverheadMessage :: string where "OverheadMessage = ''Not enough resources due to pod overhead resources''"

record TasksFitError =
  taskNamespace :: string
  taskName :: string
  fit_NodeName :: string
  Reasons :: "string list"
  DetailedReasons :: "string list"

definition NewFitErrorWithDetailedMessage :: "string \<Rightarrow> string \<Rightarrow> string \<Rightarrow> string list \<Rightarrow> string list \<Rightarrow> TasksFitError" where
  "NewFitErrorWithDetailedMessage name namespace nodeName reasons detailedReasons =
     \<lparr>taskNamespace = namespace, taskName = name, fit_NodeName = nodeName, Reasons = reasons,
      DetailedReasons = (if detailedReasons = [] then reasons else detailedReasons)\<rparr>"

definition NewFitError :: "string \<Rightarrow> string \<Rightarrow> string \<Rightarrow> string \<Rightarrow> TasksFitError" where
  "NewFitError name namespace nodeName message = NewFitErrorWithDetailedMessage name namespace nodeName [message] []"

definition NewFitErrorByReasons :: "string \<Rightarrow> string \<Rightarrow> string \<Rightarrow> string option \<Rightarrow> string list \<Rightarrow> TasksFitError" where
  "NewFitErrorByReasons name namespace nodeName err reasons =
     NewFitErrorWithDetailedMessage name namespace nodeName
       (if reasons = [] then (case err of None \<Rightarrow> [] | Some e \<Rightarrow> [e]) else reasons) []"

text \<open>\<open>NewFitErrorInsufficientResource\<close> collects pairs of a short and a detailed message, one step per kind of resource.\<close>

definition migMessages ::
  "'q fit_env \<Rightarrow> GpuResourceRequirement \<Rightarrow> ResourceVector \<Rightarrow> ResourceVector \<Rightarrow> ResourceVector \<Rightarrow> ResourceVectorMap \<Rightarrow> bool \<Rightarrow> (string \<times> string) list" where
  "migMessages fe gpuRequested availableVector usedVector capacityVector vectorMap gangSchedulingJob =
     List.map_filter (\<lambda>(migProfile, quant).
       let migIdx = GetIndex (fit_rc fe) vectorMap migProfile
       in if int64_trunc (Get availableVector migIdx) < quant
          then Some (''node(s) didn't have enough of mig profile: '' @ migProfile,
                     NewInsufficientResourceErrorScalarResources fe migProfile quant (int64_trunc (Get usedVector migIdx))
                       (int64_trunc (Get capacityVector migIdx)) gangSchedulingJob)
          else None) (migResources gpuRequested)"

definition gpuMessages ::
  "'q fit_env \<Rightarrow> GpuResourceRequirement \<Rightarrow> ResourceVector \<Rightarrow> ResourceVector \<Rightarrow> ResourceVector \<Rightarrow> int \<Rightarrow> bool \<Rightarrow> (string \<times> string) list" where
  "gpuMessages fe gpuRequested availableVector usedVector capacityVector capacityGpuMemory gangSchedulingJob =
     (if GPUs gpuRequested > Get availableVector GPUIndex
      then [(''node(s) didn't have enough resources: GPUs'',
             NewInsufficientResourceError ''GPUs'' (GpusAsString fe gpuRequested) (FormatFloat fe (Get usedVector GPUIndex))
               (FormatFloat fe (Get capacityVector GPUIndex)) gangSchedulingJob)] else []) @
     (if gpuMemory gpuRequested > capacityGpuMemory
      then [(''node(s) didn't have enough resources: GPU memory'',
             NewInsufficientGpuMemoryCapacity (gpuMemory gpuRequested) capacityGpuMemory gangSchedulingJob)] else [])"

definition cpuMessages ::
  "'q fit_env \<Rightarrow> ResourceVector \<Rightarrow> ResourceVector \<Rightarrow> ResourceVector \<Rightarrow> ResourceVector \<Rightarrow> bool \<Rightarrow> (string \<times> string) list" where
  "cpuMessages fe requestedVector availableVector usedVector capacityVector gangSchedulingJob =
     (if int64_trunc (Get requestedVector CPUIndex) > int64_trunc (Get availableVector CPUIndex)
      then [(''node(s) didn't have enough resources: CPU cores'',
             NewInsufficientResourceError ''CPU cores'' (FtoaWithDigits fe (Get requestedVector CPUIndex / MilliCPUToCores))
               (FtoaWithDigits fe (Get usedVector CPUIndex / MilliCPUToCores))
               (FtoaWithDigits fe (Get capacityVector CPUIndex / MilliCPUToCores)) gangSchedulingJob)] else []) @
     (if Get requestedVector MemoryIndex > Get availableVector MemoryIndex
      then [(''node(s) didn't have enough resources: memory'',
             NewInsufficientResourceError ''memory'' (FtoaWithDigits fe (Get requestedVector MemoryIndex / MemoryToGB))
               (FtoaWithDigits fe (Get usedVector MemoryIndex / MemoryToGB))
               (FtoaWithDigits fe (Get capacityVector MemoryIndex / MemoryToGB)) gangSchedulingJob)] else [])"

definition scalarMessages ::
  "'q fit_env \<Rightarrow> ResourceVector \<Rightarrow> ResourceVector \<Rightarrow> ResourceVector \<Rightarrow> ResourceVector \<Rightarrow> ResourceVectorMap \<Rightarrow> bool \<Rightarrow> (string \<times> string) list" where
  "scalarMessages fe requestedVector availableVector usedVector capacityVector vectorMap gangSchedulingJob =
     List.map_filter (\<lambda>i.
       let rName = ResourceAt vectorMap i;
           requestedQuant = int64_trunc (Get requestedVector i);
           availableQuant = int64_trunc (Get availableVector i)
       in if rName = ResourceCPU (fit_rc fe) \<or> rName = ResourceMemory (fit_rc fe) \<or> rName = constants_GpuResource (fit_rc fe) \<or> IsMigResource rName then None
          else if requestedQuant > 0 \<and> availableQuant < requestedQuant
          then Some (''node(s) didn't have enough resources: '' @ rName,
                     NewInsufficientResourceErrorScalarResources fe rName requestedQuant (int64_trunc (Get usedVector i))
                       (int64_trunc (Get capacityVector i)) gangSchedulingJob)
          else None) [0 .. Map_Len vectorMap - 1]"

definition withSuffix :: "string \<Rightarrow> string \<Rightarrow> string" where
  "withSuffix messageSuffix msg = (if messageSuffix \<noteq> [] then msg @ ''. '' @ messageSuffix else msg)"

definition NewFitErrorInsufficientResource ::
  "'q fit_env \<Rightarrow> string \<Rightarrow> string \<Rightarrow> string \<Rightarrow> GpuResourceRequirement \<Rightarrow> ResourceVector \<Rightarrow> ResourceVector \<Rightarrow> ResourceVector \<Rightarrow>
     ResourceVectorMap \<Rightarrow> int \<Rightarrow> bool \<Rightarrow> string \<Rightarrow> TasksFitError" where
  "NewFitErrorInsufficientResource fe name namespace nodeName gpuRequested requestedVector usedVector capacityVector vectorMap
     capacityGpuMemory gangSchedulingJob messageSuffix =
     (let availableVector = Vector_Sub capacityVector usedVector;
          messages =
            (if migResources gpuRequested \<noteq> []
             then migMessages fe gpuRequested availableVector usedVector capacityVector vectorMap gangSchedulingJob
             else gpuMessages fe gpuRequested availableVector usedVector capacityVector capacityGpuMemory gangSchedulingJob) @
            cpuMessages fe requestedVector availableVector usedVector capacityVector gangSchedulingJob @
            scalarMessages fe requestedVector availableVector usedVector capacityVector vectorMap gangSchedulingJob
      in NewFitErrorWithDetailedMessage name namespace nodeName
           (map (withSuffix messageSuffix \<circ> fst) messages) (map (withSuffix messageSuffix \<circ> snd) messages))"

definition TasksFitError_Error :: "TasksFitError \<Rightarrow> string" where
  "TasksFitError_Error f =
     ''Pod '' @ taskNamespace f @ ''/'' @ taskName f @ '' cannot be scheduled on node '' @ fit_NodeName f @ ''. reasons: '' @
     strings_Join (Reasons f) (''. '' @ newline)"

subsection \<open>Errors of a task on all nodes\<close>

record TasksFitErrors =
  reasonCounts :: "(string, int) gomap"
  fe_err :: string

definition NewFitErrors :: TasksFitErrors where
  "NewFitErrors = \<lparr>reasonCounts = [], fe_err = []\<rparr>"

definition SetError :: "string \<Rightarrow> TasksFitErrors \<Rightarrow> TasksFitErrors" where
  "SetError err f = f\<lparr>fe_err := err\<rparr>"

definition AddReasonCounts :: "TasksFitErrors \<Rightarrow> TasksFitErrors \<Rightarrow> TasksFitErrors" where
  "AddReasonCounts f errors =
     f\<lparr>reasonCounts := fold (\<lambda>(reason, n) m. AList.update reason (gomap_get m reason + n) m) (reasonCounts errors) (reasonCounts f)\<rparr>"

text \<open>A Go error that is handed to a task: a fit error or any other, of which only the text counts.\<close>

datatype go_error = FitError TasksFitError | OtherError string

definition AddNodeError :: "go_error option \<Rightarrow> TasksFitErrors \<Rightarrow> TasksFitErrors" where
  "AddNodeError err f =
     (case err of
        None \<Rightarrow> f
      | Some e \<Rightarrow>
          let reasons = (case e of FitError fitError \<Rightarrow> Reasons fitError | OtherError text \<Rightarrow> [text])
          in f\<lparr>reasonCounts := fold (\<lambda>reason m. AList.update reason (gomap_get m reason + 1) m) reasons (reasonCounts f)\<rparr>)"

definition HasNodeErrors :: "TasksFitErrors \<Rightarrow> bool" where
  "HasNodeErrors f \<longleftrightarrow> length (reasonCounts f) \<noteq> 0"

definition ReasonCount :: "TasksFitErrors \<Rightarrow> string \<Rightarrow> int" where
  "ReasonCount f reason = gomap_get (reasonCounts f) reason"

definition UniqueReasonCount :: "TasksFitErrors \<Rightarrow> int" where
  "UniqueReasonCount f = int (length (reasonCounts f))"

definition baseError :: "TasksFitErrors \<Rightarrow> string" where
  "baseError f = (if fe_err f = [] then ResourcesWereNotFoundMsg else fe_err f)"

definition DetailedError :: "TasksFitErrors \<Rightarrow> TasksFitError list \<Rightarrow> string" where
  "DetailedError f nodeErrors =
     (let reasonMessages = [newline @ baseError f @ ''.'']
      in if nodeErrors = [] then strings_Join reasonMessages []
         else strings_Join (sort (reasonMessages @
                map (\<lambda>node. newline @ ''<'' @ fit_NodeName node @ ''>: '' @ strings_Join (DetailedReasons node) '', '' @ ''.'') nodeErrors)) [])"

definition TasksFitErrors_Error :: "TasksFitErrors \<Rightarrow> string" where
  "TasksFitErrors_Error f =
     (let reasonStrings = sort (map (\<lambda>(reason, n). Itoa n @ '' '' @ reason) (reasonCounts f))
      in baseError f @ (if reasonStrings \<noteq> [] then '': '' @ strings_Join reasonStrings (''. '' @ newline) @ ''.'' else []))"

subsection \<open>Errors of a job\<close>

text \<open>Reasons come from another module of the project; the ones that this code uses, and any other.\<close>

datatype UnschedulableReason =
  OverLimit | NonPreemptibleOverQuota | PodSchedulingErrors | UnschedulableWorkloadReason | DefaultPodgroupError | OtherReason string

record QuotaDetails =
  details_Name :: string
  QueueRequestedResources :: "(string, Quantity) gomap"
  QueueDeservedResources :: "(string, Quantity) gomap"
  QueueAllocatedResources :: "(string, Quantity) gomap"
  QueueAllocatedNonPreemptibleResources :: "(string, Quantity) gomap"
  QueueResourceLimits :: "(string, Quantity) gomap"
  PodGroupRequestedResources :: "(string, Quantity) gomap"
  PodGroupRequestedNonPreemptibleResources :: "(string, Quantity) gomap"

record JobFitErrorBase =
  jfe_jobNamespace :: string
  jfe_jobName :: string
  jfe_subGroupName :: string
  jfe_reason :: UnschedulableReason
  jfe_messages :: "string list"
  jfe_detailedMessages :: "string list"

datatype JobFitError =
    PlainJobFitError JobFitErrorBase
  | TopologyFitError JobFitErrorBase string
  | JobFitErrorWithQueueContext JobFitErrorBase "QuotaDetails option"

record UnschedulableExplanation =
  expl_Reason :: UnschedulableReason
  expl_Message :: string
  expl_Details :: "QuotaDetails option"

fun fit_base :: "JobFitError \<Rightarrow> JobFitErrorBase" where
  "fit_base (PlainJobFitError b) = b"
| "fit_base (TopologyFitError b _) = b"
| "fit_base (JobFitErrorWithQueueContext b _) = b"

definition DefaultSubGroupName :: string where "DefaultSubGroupName = ''default''"

definition NewJobFitError :: "string \<Rightarrow> string \<Rightarrow> string \<Rightarrow> UnschedulableReason \<Rightarrow> string list \<Rightarrow> string list \<Rightarrow> JobFitErrorBase" where
  "NewJobFitError jobName subGroupName jobNamespace reason messages detailedMessages =
     \<lparr>jfe_jobNamespace = jobNamespace, jfe_jobName = jobName, jfe_subGroupName = subGroupName, jfe_reason = reason,
      jfe_messages = messages, jfe_detailedMessages = (if detailedMessages \<noteq> [] then detailedMessages else messages)\<rparr>"

definition fit_Reason :: "JobFitError \<Rightarrow> UnschedulableReason" where
  "fit_Reason f = jfe_reason (fit_base f)"

definition Base_DetailedMessage :: "JobFitErrorBase \<Rightarrow> string" where
  "Base_DetailedMessage f =
     (if jfe_subGroupName f = [] \<or> jfe_subGroupName f = DefaultSubGroupName then strings_Join (jfe_detailedMessages f) '', ''
      else ''subgroup '' @ jfe_subGroupName f @ '': '' @ strings_Join (jfe_detailedMessages f) '', '')"

fun DetailedMessage :: "JobFitError \<Rightarrow> string" where
  "DetailedMessage (TopologyFitError b nodesGroupName) = ''<'' @ nodesGroupName @ ''>: '' @ Base_DetailedMessage b"
| "DetailedMessage f = Base_DetailedMessage (fit_base f)"

definition fit_Messages :: "JobFitError \<Rightarrow> string list" where
  "fit_Messages f = jfe_messages (fit_base f)"

fun ToUnschedulableExplanation :: "JobFitError \<Rightarrow> UnschedulableExplanation" where
  "ToUnschedulableExplanation (JobFitErrorWithQueueContext b context_details) =
     \<lparr>expl_Reason = jfe_reason b, expl_Message = strings_Join (jfe_messages b) '', '', expl_Details = context_details\<rparr>"
| "ToUnschedulableExplanation f =
     \<lparr>expl_Reason = jfe_reason (fit_base f), expl_Message = strings_Join (jfe_messages (fit_base f)) '', '', expl_Details = None\<rparr>"

definition NewTopologyFitError :: "string \<Rightarrow> string \<Rightarrow> string \<Rightarrow> string \<Rightarrow> UnschedulableReason \<Rightarrow> string list \<Rightarrow> string list \<Rightarrow> JobFitError" where
  "NewTopologyFitError jobName subGroupName jobNamespace nodesGroupName reason messages detailedReasons =
     TopologyFitError (NewJobFitError jobName subGroupName jobNamespace reason messages detailedReasons) nodesGroupName"

definition NewJobFitErrorWithQueueContext ::
  "string \<Rightarrow> string \<Rightarrow> string \<Rightarrow> UnschedulableReason \<Rightarrow> string \<Rightarrow> QuotaDetails option \<Rightarrow> JobFitError" where
  "NewJobFitErrorWithQueueContext jobName subGroupName jobNamespace reason message context_details =
     JobFitErrorWithQueueContext (NewJobFitError jobName subGroupName jobNamespace reason [message] []) context_details"

text \<open>The texts of reasons are constants of the other module, hence the argument \<open>reasonText\<close>.\<close>

definition JobFitErrorsToDetailedMessage :: "(UnschedulableReason \<Rightarrow> string) \<Rightarrow> JobFitError list \<Rightarrow> string" where
  "JobFitErrorsToDetailedMessage reasonText fitErrors =
     (let reason = (if length fitErrors = 1 then fit_Reason (hd fitErrors) else DefaultPodgroupError);
          reasonMessages = sort (map (\<lambda>f. newline @ DetailedMessage f @ ''.'') fitErrors)
      in newline @ reasonText reason @ ''.'' @ strings_Join reasonMessages [])"

definition messageCounts :: "JobFitError list \<Rightarrow> (string, int) gomap" where
  "messageCounts fitErrors =
     fold (\<lambda>f m. fold (\<lambda>reason m. AList.update reason (gomap_get m reason + 1) m) (fit_Messages f) m) fitErrors []"

definition JobFitErrorsToMessage :: "(UnschedulableReason \<Rightarrow> string) \<Rightarrow> JobFitError list \<Rightarrow> string" where
  "JobFitErrorsToMessage reasonText fitErrors =
     (let messagesHistogram = sort (map (\<lambda>(message, messageCount). if messageCount > 1 then Itoa messageCount @ '' '' @ message else message)
                                   (messageCounts fitErrors));
          reason = reasonText (if length fitErrors = 1 then fit_Reason (hd fitErrors) else DefaultPodgroupError)
      in reason @ (if messagesHistogram \<noteq> [] then '': '' @ strings_Join messagesHistogram (''. '' @ newline) @ ''.'' else []))"

definition topologyMessage ::
  "'q fit_env \<Rightarrow> string \<Rightarrow> string \<Rightarrow> float64 \<Rightarrow> float64 \<Rightarrow> string \<times> string" where
  "topologyMessage fe domainID resourceName requested available =
     (if IsMigResource resourceName
      then (''node-group(s) didn't have enough of mig profile: '' @ resourceName,
            domainID @ '' didn't have enough resource: '' @ resourceName @ '', requested: '' @ Itoa (int64_trunc requested) @
            '', available: '' @ Itoa (int64_trunc available))
      else if resourceName = constants_GpuResource (fit_rc fe)
      then (''node-group(s) didn't have enough resources: GPUs'',
            domainID @ '' didn't have enough resource: GPUs, requested: '' @ FormatFloat fe requested @ '', available: '' @ FormatFloat fe available)
      else if resourceName = ResourceCPU (fit_rc fe)
      then (''node-group(s) didn't have enough resources: CPU cores'',
            domainID @ '' didn't have enough resources: CPU cores, requested: '' @ FtoaWithDigits fe (requested / MilliCPUToCores) @
            '', available: '' @ FtoaWithDigits fe (available / MilliCPUToCores))
      else if resourceName = ResourceMemory (fit_rc fe)
      then (''node-group(s) didn't have enough resources: memory'',
            domainID @ '' didn't have enough resources: memory, requested: '' @ FtoaWithDigits fe (requested / MemoryToGB) @
            '', available: '' @ FtoaWithDigits fe (available / MemoryToGB))
      else (''node-group(s) didn't have enough resources: '' @ resourceName,
            domainID @ '' didn't have enough resource: '' @ resourceName @ '', requested: '' @ Itoa (int64_trunc requested) @
            '', available: '' @ Itoa (int64_trunc available)))"

definition NewTopologyInsufficientResourcesError ::
  "'q fit_env \<Rightarrow> string \<Rightarrow> string \<Rightarrow> string \<Rightarrow> string \<Rightarrow> ResourceVector \<Rightarrow> ResourceVector \<Rightarrow> ResourceVectorMap \<Rightarrow> JobFitError" where
  "NewTopologyInsufficientResourcesError fe jobName subGroupName namespace domainID resourceRequested availableResource vectorMap =
     (let messages = List.map_filter (\<lambda>i.
            if Get resourceRequested i \<le> Get availableResource i then None
            else Some (topologyMessage fe domainID (ResourceAt vectorMap i) (Get resourceRequested i) (Get availableResource i)))
            [0 .. Map_Len vectorMap - 1]
      in NewTopologyFitError jobName subGroupName namespace domainID UnschedulableWorkloadReason (map fst messages) (map snd messages))"

subsection \<open>Laws\<close>

lemma AddReasonCounts_count:
  assumes "wf_gomap (reasonCounts errors)"
  shows "ReasonCount (AddReasonCounts f errors) r = ReasonCount f r + ReasonCount errors r"
proof -
  have "gomap_get (fold (\<lambda>(reason, n) m. AList.update reason (gomap_get m reason + n) m) es m) r = gomap_get m r + gomap_get es r"
    if "wf_gomap es" for es m
    using that
  proof (induction es arbitrary: m)
    case (Cons e es)
    have "gomap_get es (fst e) = 0" using Cons.prems
      by (auto simp: wf_gomap_def gomap_get_def map_of_eq_None_iff image_image split: option.split dest: map_of_SomeD)
        (metis fst_conv image_eqI map_of_SomeD)
    then show ?case using Cons.IH Cons.prems by (cases e) (auto simp: gomap_get_update wf_gomap_def gomap_get_def)
  qed (simp add: gomap_get_def)
  then show ?thesis using assms by (simp add: ReasonCount_def AddReasonCounts_def)
qed

definition reasonsOf :: "go_error \<Rightarrow> string list" where
  "reasonsOf e = (case e of FitError fitError \<Rightarrow> Reasons fitError | OtherError text \<Rightarrow> [text])"

lemma AddNodeError_count:
  "ReasonCount (AddNodeError (Some e) f) r = ReasonCount f r + int (count_list (reasonsOf e) r)"
proof -
  have "gomap_get (fold (\<lambda>reason m. AList.update reason (gomap_get m reason + 1) m) rs m) r = gomap_get m r + int (count_list rs r)" for rs m
    by (induction rs arbitrary: m) (auto simp: gomap_get_update)
  then show ?thesis by (simp add: ReasonCount_def AddNodeError_def reasonsOf_def Let_def)
qed

lemma map_filter_Nil_iff: "List.map_filter f xs = [] \<longleftrightarrow> (\<forall>x\<in>set xs. f x = None)"
  by (induction xs) (auto simp: List.map_filter_simps split: option.splits)

text \<open>An insufficient-resource error has no reasons exactly if the request fits into what the node has left, counted the way
  the messages count: whole milli-CPUs and whole scalar amounts.\<close>

lemma insufficient_no_reasons:
  assumes "migResources gpuRequested = []"
  shows "Reasons (NewFitErrorInsufficientResource fe name ns node gpuRequested requested used capacity vm gpuMem gang suffix) = [] \<longleftrightarrow>
    (let available = Vector_Sub capacity used in
       GPUs gpuRequested \<le> Get available GPUIndex \<and> gpuMemory gpuRequested \<le> gpuMem \<and>
       int64_trunc (Get requested CPUIndex) \<le> int64_trunc (Get available CPUIndex) \<and>
       Get requested MemoryIndex \<le> Get available MemoryIndex \<and>
       (\<forall>i. 0 \<le> i \<and> i < Map_Len vm \<and> ResourceAt vm i \<notin> {ResourceCPU (fit_rc fe), ResourceMemory (fit_rc fe), constants_GpuResource (fit_rc fe)} \<and>
          \<not> IsMigResource (ResourceAt vm i) \<and> 0 < int64_trunc (Get requested i) \<longrightarrow> int64_trunc (Get requested i) \<le> int64_trunc (Get available i)))"
  using assms
  by (simp add: NewFitErrorInsufficientResource_def NewFitErrorWithDetailedMessage_def gpuMessages_def cpuMessages_def
        scalarMessages_def map_filter_Nil_iff Let_def not_le not_less) (auto simp: not_le not_less)

end
