(* ===== verification/Pod_Group.thy ===== *)
theory Pod_Group
  imports Core_Eviction Fit_Errors
begin

text \<open>
  Jobs, \<^verbatim>\<open>api/podgroup_info/job_info.go\<close>, the job-level operations of \<^verbatim>\<open>allocation_info.go\<close>,
  \<^verbatim>\<open>core_info.go\<close> and \<^verbatim>\<open>eviction_info.go\<close>.

  In the code the leaves of the subgroup tree and the entries of the map \<^verbatim>\<open>PodSets\<close> are the same
  objects. Here the map is the store and the tree holds the names of the pod sets; \<open>rootSubGroupSet\<close>
  reads the tree through the store. Every operation that fills or drops one of the caches returns the
  changed job. Reading a job and its tree from the Kubernetes object, signatures, log output and \<^verbatim>\<open>String\<close> are
  not modelled.

  The lemmas show that the indexes, counters, the allocated resources and the caches of a job always
  describe the pods of its pod sets (\<open>job_ok\<close>), and what the choices of tasks and victims guarantee.
\<close>

subsection \<open>Jobs\<close>

datatype Preemptibility = Preemptible | SemiPreemptible | NonPreemptible | OtherPreemptibility string

record PodGroupInfo =
  pg_UID :: string
  pg_Name :: string
  pg_Namespace :: string
  NamespacedName :: string
  pg_Queue :: QueueID
  pg_Priority :: int
  pg_Preemptibility :: Preemptibility
  JobFitErrors :: "JobFitError list"
  job_TasksFitErrors :: "(PodID, TasksFitErrors) gomap"
  AllocatedVector :: ResourceVector
  pg_VectorMap :: ResourceVectorMap
  pg_CreationTimestamp :: int
  LastStartTimestamp :: "int option"
  LastEvictionTimestamp :: "int option"
  PreemptionDelay :: "int option"
  RootSubGroupSet :: "string SubGroupSet option"
  PodSets :: "(string, PodSet) gomap"
  InvalidSubGroupTasks :: PodsMap
  StaleTimeStamp :: "int option"
  Stale :: bool
  allPodsMap :: "PodsMap option"
  tasksToAllocateByMode :: "(taskAllocationCacheMode, PodInfo list) gomap"
  tasksToAllocateInitResourceVectorByMode :: "(taskAllocationCacheMode, ResourceVector) gomap"
  PodStatusIndex :: "(PodStatus, PodsMap) gomap"
  activeAllocatedCount :: "int option"
  aliveTasksRequestedGPUs :: "float64 option"

definition DefaultSubGroup :: string where "DefaultSubGroup = ''default''"
definition RootSubGroupSetName :: string where "RootSubGroupSetName = ''''"

definition invalidateTasksCache :: "PodGroupInfo \<Rightarrow> PodGroupInfo" where
  "invalidateTasksCache pgi =
     pgi\<lparr>allPodsMap := None, tasksToAllocateByMode := [], tasksToAllocateInitResourceVectorByMode := [],
         aliveTasksRequestedGPUs := None\<rparr>"

definition mergePods :: "(string, PodSet) gomap \<Rightarrow> PodsMap" where
  "mergePods sets = fold (\<lambda>(_, subGroup) allPods. fold (\<lambda>(podId, p) m. AList.update podId p m) (podInfos subGroup) allPods) sets []"

definition GetAllPodsMap :: "PodGroupInfo \<Rightarrow> PodsMap \<times> PodGroupInfo" where
  "GetAllPodsMap pgi =
     (case allPodsMap pgi of
        Some m \<Rightarrow> (m, pgi)
      | None \<Rightarrow> let allPods = mergePods (PodSets pgi) in (allPods, pgi\<lparr>allPodsMap := Some allPods\<rparr>))"

definition GetAllAllocatedPods :: "PodGroupInfo \<Rightarrow> PodInfo list \<times> PodGroupInfo" where
  "GetAllAllocatedPods pgi =
     (let (podsMap, pgi') = GetAllPodsMap pgi
      in (filter (\<lambda>task. IsActiveAllocatedStatus (pod_Status task)) (map snd podsMap), pgi'))"

definition IsPreemptibleJob :: "PodGroupInfo \<Rightarrow> bool" where
  "IsPreemptibleJob pgi \<longleftrightarrow> pg_Preemptibility pgi = Preemptible"

definition IsSemiPreemptibleJob :: "PodGroupInfo \<Rightarrow> bool" where
  "IsSemiPreemptibleJob pgi \<longleftrightarrow> pg_Preemptibility pgi = SemiPreemptible"

definition HasEvictableTasks :: "PodGroupInfo \<Rightarrow> bool" where
  "HasEvictableTasks pgi \<longleftrightarrow> IsPreemptibleJob pgi \<or> IsSemiPreemptibleJob pgi"

text \<open>\<open>PreemptionDelay\<close> is the duration in the spec of the Kubernetes object, if the job has one.\<close>

definition PreemptionDelayEnd :: "PodGroupInfo \<Rightarrow> int option" where
  "PreemptionDelayEnd pgi =
     (case PreemptionDelay pgi of
        None \<Rightarrow> None
      | Some d \<Rightarrow>
          if d \<le> 0 then None
          else let anchor = pg_CreationTimestamp pgi;
                   anchor' = (case LastEvictionTimestamp pgi of Some t \<Rightarrow> if t > anchor then t else anchor | None \<Rightarrow> anchor)
               in Some (anchor' + d))"

definition IsWithinPreemptionDelay :: "PodGroupInfo \<Rightarrow> int \<Rightarrow> bool" where
  "IsWithinPreemptionDelay pgi now = (case PreemptionDelayEnd pgi of None \<Rightarrow> False | Some e \<Rightarrow> now < e)"

subsection \<open>Tasks of a job\<close>

definition addTaskIndex :: "PodInfo \<Rightarrow> PodGroupInfo \<Rightarrow> PodGroupInfo" where
  "addTaskIndex ti pgi =
     (let pgi1 = pgi\<lparr>PodStatusIndex := AList.update (pod_Status ti)
                      (AList.update (pod_UID ti) ti (statusPods (PodStatusIndex pgi) (pod_Status ti))) (PodStatusIndex pgi),
                     allPodsMap := map_option (AList.update (pod_UID ti) ti) (allPodsMap pgi)\<rparr>;
          pgi2 = (if IsActiveAllocatedStatus (pod_Status ti)
                  then pgi1\<lparr>activeAllocatedCount := map_option (\<lambda>n. n + 1) (activeAllocatedCount pgi1)\<rparr> else pgi1)
      in invalidateTasksCache pgi2)"

definition go_quote :: "string \<Rightarrow> string" where
  "go_quote s = [CHR 0x22] @ concat (map (\<lambda>c. if c = CHR 0x22 \<or> c = CHR 0x5C then [CHR 0x5C, c] else [c]) s) @ [CHR 0x22]"

definition AddTaskFitErrors :: "PodInfo \<Rightarrow> TasksFitErrors \<Rightarrow> PodGroupInfo \<Rightarrow> PodGroupInfo" where
  "AddTaskFitErrors task fitErrors pgi =
     pgi\<lparr>job_TasksFitErrors :=
       (case map_of (job_TasksFitErrors pgi) (pod_UID task) of
          Some existingFitErrors \<Rightarrow> AList.update (pod_UID task) (AddReasonCounts existingFitErrors fitErrors) (job_TasksFitErrors pgi)
        | None \<Rightarrow> AList.update (pod_UID task) fitErrors (job_TasksFitErrors pgi))\<rparr>"

definition AddJobFitError :: "JobFitError \<Rightarrow> PodGroupInfo \<Rightarrow> PodGroupInfo" where
  "AddJobFitError err pgi = pgi\<lparr>JobFitErrors := JobFitErrors pgi @ [err]\<rparr>"

definition AddSimpleJobFitError :: "UnschedulableReason \<Rightarrow> string \<Rightarrow> PodGroupInfo \<Rightarrow> PodGroupInfo" where
  "AddSimpleJobFitError reason message pgi =
     AddJobFitError (PlainJobFitError (NewJobFitError (pg_Name pgi) DefaultSubGroup (pg_Namespace pgi) reason [message] [])) pgi"

definition addInvalidSubGroupTask :: "PodInfo \<Rightarrow> string \<Rightarrow> PodGroupInfo \<Rightarrow> PodGroupInfo" where
  "addInvalidSubGroupTask ti taskSubGroupName pgi =
     AddTaskFitErrors ti
       (SetError (''Pod references subgroup '' @ go_quote taskSubGroupName @ '', which does not exist in PodGroup '' @
          pg_Namespace pgi @ ''/'' @ pg_Name pgi) NewFitErrors)
       (pgi\<lparr>InvalidSubGroupTasks := AList.update (pod_UID ti) ti (InvalidSubGroupTasks pgi)\<rparr>)"

definition taskSubGroup :: "PodInfo \<Rightarrow> string" where
  "taskSubGroup ti = (if SubGroupName ti \<noteq> [] then SubGroupName ti else DefaultSubGroup)"

definition AddTaskInfo :: "PodInfo \<Rightarrow> PodGroupInfo \<Rightarrow> PodGroupInfo" where
  "AddTaskInfo ti pgi =
     (case map_of (PodSets pgi) (taskSubGroup ti) of
        None \<Rightarrow> addInvalidSubGroupTask ti (taskSubGroup ti) pgi
      | Some podSet \<Rightarrow>
          let pgi1 = pgi\<lparr>PodSets := AList.update (taskSubGroup ti) (AssignTask ti podSet) (PodSets pgi)\<rparr>;
              pgi2 = addTaskIndex ti pgi1
          in if AllocatedStatus (pod_Status ti)
             then pgi2\<lparr>AllocatedVector := Vector_Add (AllocatedVector pgi2) (ResReqVector ti)\<rparr> else pgi2)"

definition deleteTaskIndex :: "PodInfo \<Rightarrow> PodGroupInfo \<Rightarrow> PodGroupInfo" where
  "deleteTaskIndex ti pgi =
     (case map_of (PodStatusIndex pgi) (pod_Status ti) of
        None \<Rightarrow> pgi
      | Some tasks \<Rightarrow>
          let tasks' = AList.delete (pod_UID ti) tasks;
              pgi1 = pgi\<lparr>allPodsMap := map_option (AList.delete (pod_UID ti)) (allPodsMap pgi)\<rparr>;
              pgi2 = (if IsActiveAllocatedStatus (pod_Status ti)
                      then pgi1\<lparr>activeAllocatedCount := map_option (\<lambda>n. n - 1) (activeAllocatedCount pgi1)\<rparr> else pgi1);
              pgi3 = pgi2\<lparr>PodStatusIndex := (if tasks' = [] then AList.delete (pod_Status ti) (PodStatusIndex pgi2)
                                             else AList.update (pod_Status ti) tasks' (PodStatusIndex pgi2))\<rparr>
          in invalidateTasksCache pgi3)"

datatype job_error = TaskNotFound string string string

definition resetTaskState :: "PodInfo \<Rightarrow> PodGroupInfo \<Rightarrow> job_error option \<times> PodGroupInfo" where
  "resetTaskState ti pgi0 =
     (let (podsMap, pgi) = GetAllPodsMap pgi0
      in case map_of podsMap (pod_UID ti) of
           None \<Rightarrow> (Some (TaskNotFound (pod_Namespace ti) (pod_Name ti) (NamespacedName pgi)), pgi)
         | Some task \<Rightarrow>
             let pgi1 = (if AllocatedStatus (pod_Status task)
                         then pgi\<lparr>AllocatedVector := Vector_Sub (AllocatedVector pgi) (ResReqVector task)\<rparr> else pgi)
             in (None, deleteTaskIndex ti pgi1))"

text \<open>The task object is changed in place: the new task is returned too.\<close>

definition UpdateTaskStatus :: "PodInfo \<Rightarrow> PodStatus \<Rightarrow> PodGroupInfo \<Rightarrow> job_error option \<times> PodInfo \<times> PodGroupInfo" where
  "UpdateTaskStatus task status pgi =
     (case resetTaskState task pgi of
        (Some err, pgi1) \<Rightarrow> (Some err, task, pgi1)
      | (None, pgi1) \<Rightarrow> let task' = task\<lparr>pod_Status := status\<rparr> in (None, task', AddTaskInfo task' pgi1))"

subsection \<open>Counts and sums\<close>

definition countPods :: "(PodInfo \<Rightarrow> bool) \<Rightarrow> PodGroupInfo \<Rightarrow> int \<times> PodGroupInfo" where
  "countPods P pgi = (let (podsMap, pgi') = GetAllPodsMap pgi in (count_if P (map snd podsMap), pgi'))"

definition GetActiveAllocatedTasksCount :: "PodGroupInfo \<Rightarrow> int \<times> PodGroupInfo" where
  "GetActiveAllocatedTasksCount pgi =
     (case activeAllocatedCount pgi of
        Some n \<Rightarrow> (n, pgi)
      | None \<Rightarrow> let (taskCount, pgi') = countPods (\<lambda>task. IsActiveAllocatedStatus (pod_Status task)) pgi
                in (taskCount, pgi'\<lparr>activeAllocatedCount := Some taskCount\<rparr>))"

definition GetActivelyRunningTasksCount :: "PodGroupInfo \<Rightarrow> int \<times> PodGroupInfo" where
  "GetActivelyRunningTasksCount pgi =
     (let (n, pgi') = countPods (\<lambda>task. IsActiveUsedStatus (pod_Status task)) pgi in (int32_of n, pgi'))"

definition Job_GetNumAliveTasks :: "PodGroupInfo \<Rightarrow> int \<times> PodGroupInfo" where
  "Job_GetNumAliveTasks pgi = countPods (\<lambda>task. IsAliveStatus (pod_Status task)) pgi"

definition Job_GetNumActiveUsedTasks :: "PodGroupInfo \<Rightarrow> int \<times> PodGroupInfo" where
  "Job_GetNumActiveUsedTasks pgi = countPods (\<lambda>task. IsActiveUsedStatus (pod_Status task)) pgi"

definition GetNumAllocatedTasks :: "PodGroupInfo \<Rightarrow> int \<times> PodGroupInfo" where
  "GetNumAllocatedTasks pgi = countPods (\<lambda>task. AllocatedStatus (pod_Status task)) pgi"

definition GetPendingTasks :: "PodGroupInfo \<Rightarrow> PodInfo list \<times> PodGroupInfo" where
  "GetPendingTasks pgi =
     (let (podsMap, pgi') = GetAllPodsMap pgi in (filter (\<lambda>task. pod_Status task = Pending) (map snd podsMap), pgi'))"

definition Job_GetNumPendingTasks :: "PodGroupInfo \<Rightarrow> int" where
  "Job_GetNumPendingTasks pgi = int (length (statusPods (PodStatusIndex pgi) Pending))"

definition Job_GetNumGatedTasks :: "PodGroupInfo \<Rightarrow> int" where
  "Job_GetNumGatedTasks pgi = int (length (statusPods (PodStatusIndex pgi) Gated))"

definition Job_IsResizeStandIn :: "PodGroupInfo \<Rightarrow> bool" where
  "Job_IsResizeStandIn pgi =
     (let pending = statusPods (PodStatusIndex pgi) Pending
      in if (\<exists>(_, task)\<in>set pending. \<not> IsResizeStandIn task) then False else length pending > 0)"

definition GetAliveTasksRequestedGPUs :: "PodGroupInfo \<Rightarrow> float64 \<times> PodGroupInfo" where
  "GetAliveTasksRequestedGPUs pgi =
     (case aliveTasksRequestedGPUs pgi of
        Some g \<Rightarrow> (g, pgi)
      | None \<Rightarrow>
          let (podsMap, pgi') = GetAllPodsMap pgi;
              total = fold (\<lambda>(_, task) s. if IsAliveStatus (pod_Status task) then s + Get (ResReqVector task) GPUIndex else s) podsMap 0
          in (total, pgi'\<lparr>aliveTasksRequestedGPUs := Some total\<rparr>))"

definition GetTasksActiveAllocatedReqResourceVector :: "PodGroupInfo \<Rightarrow> ResourceVector \<times> PodGroupInfo" where
  "GetTasksActiveAllocatedReqResourceVector pgi =
     (let (podsMap, pgi') = GetAllPodsMap pgi
      in (fold (\<lambda>(_, task) result. if IsActiveAllocatedStatus (pod_Status task) then Vector_Add result (ResReqVector task) else result)
            podsMap (NewResourceVector (pg_VectorMap pgi)), pgi'))"

subsection \<open>The tree of a job\<close>

definition derefPodSet :: "PodGroupInfo \<Rightarrow> string \<Rightarrow> PodSet" where
  "derefPodSet pgi n = (case map_of (PodSets pgi) n of Some ps \<Rightarrow> ps | None \<Rightarrow> NewPodSet n 0 None)"

abbreviation derefTree :: "PodGroupInfo \<Rightarrow> string SubGroupSet \<Rightarrow> PodSet SubGroupSet" where
  "derefTree pgi \<equiv> map_SubGroupSet (derefPodSet pgi)"

definition rootSubGroupSet :: "PodGroupInfo \<Rightarrow> PodSet SubGroupSet" where
  "rootSubGroupSet pgi =
     (case RootSubGroupSet pgi of
        Some rt \<Rightarrow> derefTree pgi rt
      | None \<Rightarrow> fold (\<lambda>(_, ps) rt. AddPodSet rt ps) (PodSets pgi) (NewSubGroupSet RootSubGroupSetName None))"

definition Job_IsReadyForScheduling :: "PodGroupInfo \<Rightarrow> bool" where
  "Job_IsReadyForScheduling pgi =
     (case RootSubGroupSet pgi of None \<Rightarrow> False | Some rt \<Rightarrow> SubGroupSet_IsReadyForScheduling (derefTree pgi rt))"

definition Job_IsElastic :: "PodGroupInfo \<Rightarrow> bool" where
  "Job_IsElastic pgi = (\<exists>(_, podSet)\<in>set (PodSets pgi). PodSet_IsElastic podSet)"

definition Job_IsGangSatisfied :: "PodGroupInfo \<Rightarrow> bool" where
  "Job_IsGangSatisfied pgi = SubGroupSet_IsGangSatisfied (rootSubGroupSet pgi)"

definition Job_IsMinRequirementSatisfied :: "PodGroupInfo \<Rightarrow> bool" where
  "Job_IsMinRequirementSatisfied pgi = IsMinRequirementSatisfied (rootSubGroupSet pgi)"

definition IsStale :: "PodGroupInfo \<Rightarrow> bool \<times> PodGroupInfo" where
  "IsStale pgi =
     (if map_of (PodStatusIndex pgi) Succeeded \<noteq> None then (False, pgi)
      else let (totalActivePods, pgi') = Job_GetNumActiveUsedTasks pgi
           in (if totalActivePods = 0 then False else \<not> Job_IsGangSatisfied pgi', pgi'))"

definition shouldPipelinePodSet :: "PodSet \<Rightarrow> bool" where
  "shouldPipelinePodSet podSet =
     (let (hasPipelinedTask, activeAllocatedTasksCount) =
            fold (\<lambda>(_, task) (p, n). if pod_Status task = Pipelined then (True, n)
                                    else if IsActiveAllocatedStatus (pod_Status task) then (p, n + 1) else (p, n))
              (podInfos podSet) (False, 0 :: int)
      in hasPipelinedTask \<and> activeAllocatedTasksCount < minAvailable podSet)"

definition ShouldPipelineJob :: "PodGroupInfo \<Rightarrow> bool" where
  "ShouldPipelineJob pgi = (\<exists>(_, podSet)\<in>set (PodSets pgi). shouldPipelinePodSet podSet)"

subsection \<open>Construction and copies\<close>

definition SetVectorMap :: "ResourceVectorMap \<Rightarrow> PodGroupInfo \<Rightarrow> PodGroupInfo" where
  "SetVectorMap vectorMap pgi0 =
     (let (podsMap, pgi) = GetAllPodsMap (pgi0\<lparr>pg_VectorMap := vectorMap, AllocatedVector := NewResourceVector vectorMap\<rparr>)
      in pgi\<lparr>AllocatedVector := fold (\<lambda>(_, task) v. if AllocatedStatus (pod_Status task) then Vector_Add v (ResReqVector task) else v)
               podsMap (AllocatedVector pgi)\<rparr>)"

text \<open>A pod set that \<open>GetDescendantPodSets\<close> finds is the object the tree points to.\<close>

definition withTree :: "PodSet SubGroupSet \<Rightarrow> PodGroupInfo \<Rightarrow> PodGroupInfo" where
  "withTree tree pgi = pgi\<lparr>RootSubGroupSet := Some (map_SubGroupSet ps_name tree), PodSets := GetDescendantPodSets tree\<rparr>"

definition emptyJob :: "string \<Rightarrow> ResourceVectorMap \<Rightarrow> PodGroupInfo" where
  "emptyJob uid vectorMap =
     \<lparr>pg_UID = uid, pg_Name = [], pg_Namespace = [], NamespacedName = [], pg_Queue = [], pg_Priority = 0,
      pg_Preemptibility = OtherPreemptibility [], JobFitErrors = [], job_TasksFitErrors = [],
      AllocatedVector = NewResourceVector vectorMap, pg_VectorMap = vectorMap, pg_CreationTimestamp = 0,
      LastStartTimestamp = None, LastEvictionTimestamp = None, PreemptionDelay = None, RootSubGroupSet = None,
      PodSets = [], InvalidSubGroupTasks = [], StaleTimeStamp = None, Stale = False, allPodsMap = None,
      tasksToAllocateByMode = [], tasksToAllocateInitResourceVectorByMode = [], PodStatusIndex = [],
      activeAllocatedCount = Some 0, aliveTasksRequestedGPUs = None\<rparr>"

definition NewPodGroupInfoWithVectorMap :: "string \<Rightarrow> ResourceVectorMap \<Rightarrow> PodInfo list \<Rightarrow> PodGroupInfo" where
  "NewPodGroupInfoWithVectorMap uid vectorMap tasks =
     (let defaultSubGroupSet = AddPodSet (NewSubGroupSet RootSubGroupSetName None) (NewPodSet DefaultSubGroup 1 None)
      in fold AddTaskInfo tasks (withTree defaultSubGroupSet (emptyJob uid vectorMap)))"

definition NewPodGroupInfo :: "resource_consts \<Rightarrow> string \<Rightarrow> PodInfo list \<Rightarrow> PodGroupInfo" where
  "NewPodGroupInfo rc uid tasks = NewPodGroupInfoWithVectorMap uid (NewResourceVectorMap rc) tasks"

text \<open>\<open>None\<close>: the clone of a nil tree dereferences it.\<close>

definition CloneWithTasks :: "PodInfo list \<Rightarrow> PodGroupInfo \<Rightarrow> PodGroupInfo option" where
  "CloneWithTasks tasks pgi =
     (case RootSubGroupSet pgi of
        None \<Rightarrow> None
      | Some rt \<Rightarrow>
          let info = (emptyJob (pg_UID pgi) (pg_VectorMap pgi))
                \<lparr>pg_Name := pg_Name pgi, pg_Namespace := pg_Namespace pgi, pg_Queue := pg_Queue pgi, pg_Priority := pg_Priority pgi,
                 pg_Preemptibility := pg_Preemptibility pgi, PreemptionDelay := PreemptionDelay pgi,
                 pg_CreationTimestamp := pg_CreationTimestamp pgi\<rparr>
          in Some (fold (\<lambda>task. AddTaskInfo (PodInfo_Clone task)) tasks (withTree (SubGroupSet_Clone (derefTree pgi rt)) info)))"

definition Job_Clone :: "PodGroupInfo \<Rightarrow> PodGroupInfo option \<times> PodGroupInfo" where
  "Job_Clone pgi = (let (podsMap, pgi') = GetAllPodsMap pgi in (CloneWithTasks (map snd podsMap) pgi', pgi'))"

subsection \<open>Choosing tasks to allocate\<close>

definition HasTasksToAllocate :: "TaskAllocationMode \<Rightarrow> PodGroupInfo \<Rightarrow> bool \<times> PodGroupInfo" where
  "HasTasksToAllocate mode pgi =
     (let (podsMap, pgi') = GetAllPodsMap pgi
      in (\<exists>(_, task)\<in>set podsMap. ShouldAllocate task (isRealAllocation mode), pgi'))"

definition GetTasksToAllocate ::
  "PodSet SubGroupMember LessFn \<Rightarrow> PodInfo LessFn \<Rightarrow> TaskAllocationMode \<Rightarrow> PodGroupInfo \<Rightarrow> PodInfo list \<times> PodGroupInfo" where
  "GetTasksToAllocate subGroupOrderFn taskOrderFn mode pgi =
     (case map_of (tasksToAllocateByMode pgi) (cacheMode mode) of
        Some tasks \<Rightarrow> (tasks, pgi)
      | None \<Rightarrow>
          (case RootSubGroupSet pgi of
             None \<Rightarrow> ([], pgi)
           | Some rt \<Rightarrow>
               let tasks = collectTasksFromSubGroupSet subGroupOrderFn taskOrderFn mode (derefTree pgi rt)
               in (tasks, pgi\<lparr>tasksToAllocateByMode := AList.update (cacheMode mode) tasks (tasksToAllocateByMode pgi)\<rparr>)))"

definition taskRequestedGPUs :: "PodInfo \<Rightarrow> float64 \<times> int \<Rightarrow> float64 \<times> int" where
  "taskRequestedGPUs task acc =
     (let (gpus0, mem0) = (fst acc + GPUs (GpuRequirement task), int64_of (snd acc + gpuMemory (GpuRequirement task)));
          gpus1 = fold (\<lambda>(_, draGpuCount) g. g + of_int draGpuCount) (draGpuCounts (GpuRequirement task)) gpus0
      in fold (\<lambda>(migResource, quant) (g, m).
                 case ExtractGpuAndMemoryFromMigResourceName migResource of
                   None \<Rightarrow> (g, m)
                 | Some (gpuPortion, mem) \<Rightarrow> (g + of_int (int64_of (gpuPortion * quant)), int64_of (m + int64_of (mem * quant))))
           (migResources (GpuRequirement task)) (gpus1, mem0))"

definition GetTasksToAllocateRequestedGPUs ::
  "PodSet SubGroupMember LessFn \<Rightarrow> PodInfo LessFn \<Rightarrow> TaskAllocationMode \<Rightarrow> PodGroupInfo \<Rightarrow> (float64 \<times> int) \<times> PodGroupInfo" where
  "GetTasksToAllocateRequestedGPUs subGroupOrderFn taskOrderFn mode pgi =
     (let (tasks, pgi') = GetTasksToAllocate subGroupOrderFn taskOrderFn mode pgi
      in (fold taskRequestedGPUs tasks (0, 0), pgi'))"

definition GetTasksToAllocateInitResourceVector ::
  "PodSet SubGroupMember LessFn \<Rightarrow> PodInfo LessFn \<Rightarrow> TaskAllocationMode \<Rightarrow> int option \<Rightarrow> PodGroupInfo \<Rightarrow> ResourceVector \<times> PodGroupInfo" where
  "GetTasksToAllocateInitResourceVector subGroupOrderFn taskOrderFn mode minNodeGPUMemory pgi =
     (case map_of (tasksToAllocateInitResourceVectorByMode pgi) (cacheMode mode) of
        Some result \<Rightarrow> (result, pgi)
      | None \<Rightarrow>
          let (tasks, pgi') = GetTasksToAllocate subGroupOrderFn taskOrderFn mode pgi;
              result = fold (\<lambda>task result.
                         if ShouldAllocate task (isRealAllocation mode)
                         then let result' = Vector_Add result (ResReqVector task)
                              in case minNodeGPUMemory of
                                   Some m \<Rightarrow> if IsGpuMemoryRequest task
                                             then Set result' GPUIndex (Get result' GPUIndex + GpuMemoryAsGpuFraction (GpuRequirement task) m)
                                             else result'
                                 | None \<Rightarrow> result'
                         else result) tasks (NewResourceVector (pg_VectorMap pgi))
          in (result, pgi'\<lparr>tasksToAllocateInitResourceVectorByMode :=
                AList.update (cacheMode mode) result (tasksToAllocateInitResourceVectorByMode pgi')\<rparr>))"

subsection \<open>Core and victims\<close>

definition GetCoreTasks :: "PodGroupInfo \<Rightarrow> PodInfo LessFn \<Rightarrow> PodsMap" where
  "GetCoreTasks job taskOrderFn = collectCoreFromSubGroupSet taskOrderFn (rootSubGroupSet job) []"

definition GetCorePodNames :: "PodGroupInfo \<Rightarrow> PodInfo LessFn \<Rightarrow> string list" where
  "GetCorePodNames job taskOrderFn = go_sort (<) (map (\<lambda>(_, task). pod_Name task) (GetCoreTasks job taskOrderFn))"

definition GetTasksToEvict ::
  "PodGroupInfo \<Rightarrow> PodSet SubGroupMember LessFn \<Rightarrow> PodInfo LessFn \<Rightarrow> (PodInfo list \<times> bool) \<times> PodGroupInfo" where
  "GetTasksToEvict job subGroupOrderFn taskOrderFn =
     (let reverseTaskOrderFn = (\<lambda>l r. taskOrderFn r l);
          reverseSubGroupOrderFn = (\<lambda>l r. subGroupOrderFn r l);
          rt = rootSubGroupSet job;
          tasks =
            (if IsSemiPreemptibleJob job
             then let stale = collectStaleEviction reverseTaskOrderFn rt;
                      candidates = (if stale = [] then collectElasticEvictionFromSubGroupSet reverseSubGroupOrderFn reverseTaskOrderFn rt
                                    else stale);
                      core = GetCoreTasks job taskOrderFn
                  in filter (\<lambda>task. map_of core (pod_UID task) = None) candidates
             else collectTasksToEvictFromSubGroupSet rt reverseSubGroupOrderFn reverseTaskOrderFn);
          (activeCount, job') = GetActiveAllocatedTasksCount job
      in ((tasks, int (length tasks) < activeCount), job'))"

subsection \<open>The pods of a job\<close>

definition job_pods :: "PodGroupInfo \<Rightarrow> PodInfo list" where
  "job_pods pgi = concat (map (\<lambda>(_, ps). pods ps) (PodSets pgi))"

abbreviation podsBag :: "PodGroupInfo \<Rightarrow> PodInfo multiset" where
  "podsBag pgi \<equiv> mset (job_pods pgi)"

text \<open>The store: every pod sits in the pod set its subgroup names, and no UID occurs twice.\<close>

definition stores_ok :: "PodGroupInfo \<Rightarrow> bool" where
  "stores_ok pgi \<longleftrightarrow> wf_gomap (PodSets pgi) \<and>
     (\<forall>(n, ps)\<in>set (PodSets pgi). podset_ok ps \<and> ps_name ps = n \<and> (\<forall>p\<in>set (pods ps). taskSubGroup p = n)) \<and>
     distinct (map pod_UID (job_pods pgi))"

definition lookups :: "PodsMap \<Rightarrow> PodInfo multiset \<Rightarrow> bool" where
  "lookups m M \<longleftrightarrow> wf_gomap m \<and> (\<forall>u p. map_of m u = Some p \<longleftrightarrow> p \<in># M \<and> pod_UID p = u)"

text \<open>The indexes, counters, sums and caches of a job describe the bag \<open>M\<close> of pods.\<close>

definition indexed :: "PodGroupInfo \<Rightarrow> PodInfo multiset \<Rightarrow> bool" where
  "indexed pgi M \<longleftrightarrow>
     wf_gomap (PodStatusIndex pgi) \<and> (\<forall>s m. map_of (PodStatusIndex pgi) s = Some m \<longrightarrow> m \<noteq> []) \<and>
     (\<forall>s. lookups (statusPods (PodStatusIndex pgi) s) (filter_mset (\<lambda>p. pod_Status p = s) M)) \<and>
     activeAllocatedCount pgi = Some (int (size (filter_mset activePod M))) \<and>
     (\<forall>i. Get (AllocatedVector pgi) i = (\<Sum>p\<in>#filter_mset (\<lambda>p. AllocatedStatus (pod_Status p)) M. Get (ResReqVector p) i)) \<and>
     (case allPodsMap pgi of None \<Rightarrow> True | Some m \<Rightarrow> lookups m M) \<and>
     (case aliveTasksRequestedGPUs pgi of None \<Rightarrow> True
        | Some g \<Rightarrow> g = (\<Sum>p\<in>#filter_mset (\<lambda>p. IsAliveStatus (pod_Status p)) M. Get (ResReqVector p) GPUIndex))"

definition job_ok :: "PodGroupInfo \<Rightarrow> bool" where
  "job_ok pgi \<longleftrightarrow> stores_ok pgi \<and> indexed pgi (podsBag pgi)"

abbreviation without :: "PodID \<Rightarrow> PodInfo multiset \<Rightarrow> PodInfo multiset" where
  "without u M \<equiv> filter_mset (\<lambda>p. pod_UID p \<noteq> u) M"

lemma pods_AssignTask:
  assumes "podset_ok ps"
  shows "mset (pods (AssignTask ti ps)) = add_mset ti (without (pod_UID ti) (mset (pods ps)))"
proof -
  have keys: "\<forall>(u, p)\<in>set (podInfos ps). pod_UID p = u" using assms by (simp add: podset_ok_def)
  have "map_of (AList.delete (pod_UID ti) (podInfos ps)) (pod_UID ti) = None" by simp
  then have "pods (AssignTask ti ps) = map snd (AList.delete (pod_UID ti) (podInfos ps)) @ [ti]"
    by (simp add: pods_def podset_ok_AssignTask(2) [OF assms] AList_update_new)
  moreover have "map snd (AList.delete u m) = filter (\<lambda>p. pod_UID p \<noteq> u) (map snd m)" if "\<forall>(u, p)\<in>set m. pod_UID p = u" for u m
    using that by (induction m) (auto simp: AList.delete_eq)
  ultimately have "pods (AssignTask ti ps) = filter (\<lambda>p. pod_UID p \<noteq> pod_UID ti) (pods ps) @ [ti]"
    using keys unfolding pods_def by simp
  then show ?thesis by simp
qed

lemma job_pods_update:
  assumes "map_of sets n = Some ps"
  shows "mset (concat (map (\<lambda>(_, ps). pods ps) (AList.update n ps' sets))) + mset (pods ps) =
    mset (concat (map (\<lambda>(_, ps). pods ps) sets)) + mset (pods ps')"
  using assms by (induction sets) (auto split: if_splits)

lemma job_pods_others:
  assumes "wf_gomap sets" and "map_of sets n = Some ps" and "\<forall>(n, ps)\<in>set sets. \<forall>p\<in>set (pods ps). taskSubGroup p = n"
  obtains R where "mset (concat (map (\<lambda>(_, ps). pods ps) sets)) = mset (pods ps) + R" and "\<forall>p\<in>#R. taskSubGroup p \<noteq> n"
proof -
  have "\<exists>R. mset (concat (map (\<lambda>(_, ps). pods ps) sets)) = mset (pods ps) + R \<and> (\<forall>p\<in>#R. taskSubGroup p \<noteq> n)"
    using assms
  proof (induction sets)
    case (Cons e sets)
    obtain m qs where e: "e = (m, qs)" by (cases e)
    show ?case
    proof (cases "m = n")
      case True
      have "taskSubGroup p \<noteq> n" if p: "p \<in> set (concat (map (\<lambda>(_, ps). pods ps) sets))" for p
      proof -
        obtain k qs' where k: "(k, qs') \<in> set sets" "p \<in> set (pods qs')" using p by auto
        have "taskSubGroup p = k" using Cons.prems(3) k by fastforce
        moreover have "k \<noteq> n" using Cons.prems(1) k(1) True e by (force simp: wf_gomap_def)
        ultimately show ?thesis by simp
      qed
      then show ?thesis using Cons.prems(2) True e by auto
    next
      case False
      then obtain R where R: "mset (concat (map (\<lambda>(_, ps). pods ps) sets)) = mset (pods ps) + R" "\<forall>p\<in>#R. taskSubGroup p \<noteq> n"
        using Cons e by (auto simp: wf_gomap_def)
      have "mset (concat (map (\<lambda>(_, ps). pods ps) (e # sets))) = mset (pods ps) + (mset (pods qs) + R)" using R(1) e by simp
      moreover have "\<forall>p\<in>#mset (pods qs) + R. taskSubGroup p \<noteq> n" using R(2) Cons.prems(3) e False by auto
      ultimately show ?thesis by blast
    qed
  qed simp
  then show ?thesis using that by blast
qed

lemma stores_assign:
  assumes "stores_ok pgi" and "map_of (PodSets pgi) (taskSubGroup ti) = Some ps"
    and "\<forall>p\<in>#podsBag pgi. pod_UID p = pod_UID ti \<longrightarrow> taskSubGroup p = taskSubGroup ti"
  defines "pgi' \<equiv> pgi\<lparr>PodSets := AList.update (taskSubGroup ti) (AssignTask ti ps) (PodSets pgi)\<rparr>"
  shows "podsBag pgi' = add_mset ti (without (pod_UID ti) (podsBag pgi))" "stores_ok pgi'"
proof -
  let ?n = "taskSubGroup ti" and ?u = "pod_UID ti"
  have wf: "wf_gomap (PodSets pgi)" and sets: "\<forall>(n, ps)\<in>set (PodSets pgi). podset_ok ps \<and> ps_name ps = n \<and> (\<forall>p\<in>set (pods ps). taskSubGroup p = n)"
    and dist: "distinct (map pod_UID (job_pods pgi))" using assms(1) by (simp_all add: stores_ok_def)
  have ps: "podset_ok ps" "ps_name ps = ?n" "\<forall>p\<in>set (pods ps). taskSubGroup p = ?n" using sets map_of_SomeD [OF assms(2)] by auto
  have inset: "\<forall>(n, ps)\<in>set (PodSets pgi). \<forall>p\<in>set (pods ps). taskSubGroup p = n" using sets by fastforce
  obtain R where R: "podsBag pgi = mset (pods ps) + R" "\<forall>p\<in>#R. taskSubGroup p \<noteq> ?n"
    using job_pods_others [OF wf assms(2) inset] unfolding job_pods_def by blast
  have RuR: "without ?u R = R" using R assms(3) by (auto simp: filter_mset_eq_conv)
  have "podsBag pgi' + mset (pods ps) = podsBag pgi + mset (pods (AssignTask ti ps))"
    using job_pods_update [OF assms(2)] by (simp add: pgi'_def job_pods_def)
  then have "podsBag pgi' = R + mset (pods (AssignTask ti ps))" unfolding R(1) by (metis add.commute add.left_commute add_left_cancel)
  then show bag: "podsBag pgi' = add_mset ti (without ?u (podsBag pgi))"
    unfolding pods_AssignTask [OF ps(1)] R(1) filter_union_mset RuR by simp
  have "distinct (map pod_UID (ti # filter (\<lambda>p. pod_UID p \<noteq> ?u) (job_pods pgi)))"
    using dist by (auto simp: distinct_map_filter)
  moreover have "mset (map pod_UID (job_pods pgi')) = mset (map pod_UID (ti # filter (\<lambda>p. pod_UID p \<noteq> ?u) (job_pods pgi)))"
    using arg_cong [OF bag, of "image_mset pod_UID"] by simp
  ultimately have d': "distinct (map pod_UID (job_pods pgi'))" by (metis mset_eq_imp_distinct_iff)
  have "podset_ok qs \<and> ps_name qs = n \<and> (\<forall>p\<in>set (pods qs). taskSubGroup p = n)" if "(n, qs) \<in> set (PodSets pgi')" for n qs
  proof (cases "n = ?n")
    case True
    then have "qs = AssignTask ti ps" using that wf by (simp add: pgi'_def set_gomap_conv)
    moreover have "set (pods (AssignTask ti ps)) \<subseteq> insert ti (set (pods ps))"
      using arg_cong [OF pods_AssignTask [OF ps(1), of ti], of set_mset] by auto
    ultimately show ?thesis using ps True podset_ok_AssignTask [OF ps(1), of ti] by auto
  next
    case False
    then have "(n, qs) \<in> set (PodSets pgi)" using that wf by (simp add: pgi'_def set_gomap_conv)
    then show ?thesis using sets by fastforce
  qed
  then show "stores_ok pgi'" using d' wf by (auto simp: stores_ok_def pgi'_def)
qed

subsection \<open>Indexes follow the pods\<close>

lemma lookupsD: "lookups m M \<Longrightarrow> map_of m u = Some p \<longleftrightarrow> p \<in># M \<and> pod_UID p = u" "lookups m M \<Longrightarrow> wf_gomap m"
  unfolding lookups_def by blast+

lemma lookups_update:
  assumes "lookups m M" and "\<forall>p\<in>#M. pod_UID p \<noteq> pod_UID ti"
  shows "lookups (AList.update (pod_UID ti) ti m) (add_mset ti M)"
proof -
  have "map_of (AList.update (pod_UID ti) ti m) u = Some p \<longleftrightarrow> p \<in># add_mset ti M \<and> pod_UID p = u" for u p
    using lookupsD(1) [OF assms(1), of u p] assms(2) by (cases "u = pod_UID ti") auto
  then show ?thesis unfolding lookups_def by (intro conjI allI wf_gomap_update lookupsD(2) [OF assms(1)])
qed

lemma lookups_delete:
  assumes "lookups m M"
  shows "lookups (AList.delete u m) (without u M)"
proof -
  have "map_of (AList.delete u m) v = Some p \<longleftrightarrow> p \<in># without u M \<and> pod_UID p = v" for v p
    using lookupsD(1) [OF assms, of v p] by (cases "u = v") auto
  then show ?thesis unfolding lookups_def by (intro conjI allI wf_gomap_delete lookupsD(2) [OF assms])
qed

lemma lookups_empty:
  assumes "lookups m M"
  shows "m = [] \<longleftrightarrow> M = {#}"
proof
  assume "m = []"
  then show "M = {#}" using lookupsD(1) [OF assms] by (metis map_of.simps(1) multiset_nonemptyE option.distinct(1))
next
  assume "M = {#}"
  then show "m = []" using lookupsD(1) [OF assms] by (cases m) (auto, metis fun_upd_same)
qed

lemma indexed_add:
  assumes "indexed pgi M" and "\<forall>p\<in>#M. pod_UID p \<noteq> pod_UID ti"
  defines "pgi1 \<equiv> addTaskIndex ti pgi"
  shows "indexed (if AllocatedStatus (pod_Status ti) then pgi1\<lparr>AllocatedVector := Vector_Add (AllocatedVector pgi1) (ResReqVector ti)\<rparr> else pgi1)
    (add_mset ti M)"
proof -
  let ?s = "pod_Status ti"
  have "lookups (AList.update (pod_UID ti) ti (statusPods (PodStatusIndex pgi) ?s)) (add_mset ti (filter_mset (\<lambda>p. pod_Status p = ?s) M))"
    using assms(1,2) by (intro lookups_update) (auto simp: indexed_def)
  moreover have "AList.update k v m \<noteq> []" for k v and m :: PodsMap by (cases m) auto
  ultimately show ?thesis
    using assms(1) by (auto simp: indexed_def pgi1_def addTaskIndex_def invalidateTasksCache_def Let_def)
qed

lemma AddTaskInfo_post:
  assumes "stores_ok pgi" and "indexed pgi (without (pod_UID ti) (podsBag pgi))" and "map_of (PodSets pgi) (taskSubGroup ti) = Some ps"
    and "\<forall>p\<in>#podsBag pgi. pod_UID p = pod_UID ti \<longrightarrow> taskSubGroup p = taskSubGroup ti"
  shows "job_ok (AddTaskInfo ti pgi)" "podsBag (AddTaskInfo ti pgi) = add_mset ti (without (pod_UID ti) (podsBag pgi))"
proof -
  let ?p1 = "pgi\<lparr>PodSets := AList.update (taskSubGroup ti) (AssignTask ti ps) (PodSets pgi)\<rparr>"
  let ?p3 = "if AllocatedStatus (pod_Status ti) then (addTaskIndex ti ?p1)\<lparr>AllocatedVector :=
      Vector_Add (AllocatedVector (addTaskIndex ti ?p1)) (ResReqVector ti)\<rparr> else addTaskIndex ti ?p1"
  note st = stores_assign [OF assms(1,3,4)]
  have eq: "AddTaskInfo ti pgi = ?p3" using assms(3) by (simp add: AddTaskInfo_def Let_def)
  have sets: "PodSets ?p3 = PodSets ?p1" by (simp add: addTaskIndex_def invalidateTasksCache_def Let_def)
  then show bag: "podsBag (AddTaskInfo ti pgi) = add_mset ti (without (pod_UID ti) (podsBag pgi))"
    unfolding eq using st(1) by (simp only: job_pods_def)
  have "indexed ?p1 (without (pod_UID ti) (podsBag pgi))" using assms(2) by (simp add: indexed_def)
  then have "indexed ?p3 (add_mset ti (without (pod_UID ti) (podsBag pgi)))" by (rule indexed_add) simp
  moreover have "stores_ok ?p3" using st(2) unfolding stores_ok_def job_pods_def sets .
  ultimately show "job_ok (AddTaskInfo ti pgi)" unfolding job_ok_def eq using bag unfolding eq by simp
qed

lemma lookups_fold:
  assumes "lookups m M" and "\<forall>(u, p)\<in>set es. pod_UID p = u" and "distinct (map pod_UID (map snd es))"
    and "\<forall>p\<in>#M. pod_UID p \<notin> pod_UID ` snd ` set es"
  shows "lookups (fold (\<lambda>(u, p) m. AList.update u p m) es m) (mset (map snd es) + M)"
  using assms
proof (induction es arbitrary: m M)
  case (Cons e es)
  have e: "e = (pod_UID (snd e), snd e)" using Cons.prems(2) by (cases e) auto
  have "lookups (AList.update (pod_UID (snd e)) (snd e) m) (add_mset (snd e) M)"
    using Cons.prems(4) by (intro lookups_update [OF Cons.prems(1)]) auto
  then have "lookups (fold (\<lambda>(u, p) m. AList.update u p m) es (AList.update (pod_UID (snd e)) (snd e) m)) (mset (map snd es) + add_mset (snd e) M)"
    using Cons.prems(2-4) by (intro Cons.IH) (auto simp: image_iff)
  then show ?case by (subst e) simp
qed simp

lemma lookups_mergePods:
  assumes "stores_ok pgi"
  shows "lookups (mergePods (PodSets pgi)) (podsBag pgi)"
proof -
  let ?es = "concat (map (\<lambda>(_, ps). podInfos ps) (PodSets pgi))"
  have "fold (\<lambda>(_, ps) acc. fold (\<lambda>(u, p) m. AList.update u p m) (podInfos ps) acc) sets acc =
      fold (\<lambda>(u, p) m. AList.update u p m) (concat (map (\<lambda>(_, ps). podInfos ps) sets)) acc"
    for sets and acc :: PodsMap
    by (induction sets arbitrary: acc) (auto simp: case_prod_unfold)
  then have merge: "mergePods (PodSets pgi) = fold (\<lambda>(u, p) m. AList.update u p m) ?es []" by (simp add: mergePods_def)
  have snd: "map snd ?es = job_pods pgi"
    by (simp add: job_pods_def pods_def map_concat comp_def case_prod_unfold)
  have keys: "\<forall>(u, p)\<in>set ?es. pod_UID p = u" using assms by (fastforce simp: stores_ok_def podset_ok_def)
  have "lookups (fold (\<lambda>(u, p) m. AList.update u p m) ?es []) (mset (map snd ?es) + {#})"
  proof (rule lookups_fold [OF _ keys])
    show "lookups [] {#}" by (simp add: lookups_def)
    show "distinct (map pod_UID (map snd ?es))" using assms unfolding snd stores_ok_def by blast
  qed simp
  then show ?thesis unfolding snd merge by simp
qed

text \<open>Reading the pods of a job fills a cache and changes nothing else.\<close>

lemma GetAllPodsMap_post:
  assumes "job_ok pgi" and "GetAllPodsMap pgi = (m, pgi')"
  shows "lookups m (podsBag pgi)" "job_ok pgi'" "PodSets pgi' = PodSets pgi" "podsBag pgi' = podsBag pgi" "pgi' = pgi\<lparr>allPodsMap := Some m\<rparr>"
proof -
  have ix: "indexed pgi (podsBag pgi)" and st: "stores_ok pgi" using assms(1) by (simp_all add: job_ok_def)
  show l: "lookups m (podsBag pgi)"
    using assms(2) lookups_mergePods [OF st] ix by (auto simp: GetAllPodsMap_def Let_def indexed_def split: option.splits)
  show eq: "pgi' = pgi\<lparr>allPodsMap := Some m\<rparr>"
    using assms(2) by (auto simp: GetAllPodsMap_def Let_def split: option.splits)
  show "PodSets pgi' = PodSets pgi" by (simp add: eq)
  have jp: "job_pods (pgi\<lparr>allPodsMap := Some m\<rparr>) = job_pods pgi" by (simp add: job_pods_def)
  show "podsBag pgi' = podsBag pgi" unfolding eq jp by (rule refl)
  show "job_ok pgi'" using ix st l unfolding eq job_ok_def jp by (simp add: indexed_def stores_ok_def jp)
qed

lemma bag_split:
  assumes "p \<in># M" and "\<And>q. q \<in># M \<Longrightarrow> pod_UID q = pod_UID p \<Longrightarrow> q = p" and "count M p = 1"
  shows "M = add_mset p (without (pod_UID p) M)"
proof (rule multiset_eqI)
  fix q
  show "count M q = count (add_mset p (without (pod_UID p) M)) q"
    using assms by (cases "q = p"; cases "q \<in># M") (auto simp: not_in_iff)
qed

lemma bag_unique:
  assumes "stores_ok pgi" and "p \<in># podsBag pgi"
  shows "podsBag pgi = add_mset p (without (pod_UID p) (podsBag pgi))"
proof (rule bag_split [OF assms(2)])
  have d: "distinct (map pod_UID (job_pods pgi))" using assms(1) by (simp add: stores_ok_def)
  then show "q \<in># podsBag pgi \<Longrightarrow> pod_UID q = pod_UID p \<Longrightarrow> q = p" for q
    using assms(2) by (auto simp: distinct_map dest: inj_onD)
  have "distinct (job_pods pgi)" using d by (simp add: distinct_map)
  then show "count (podsBag pgi) p = 1" using assms(2) distinct_count_atmost_1 [of "job_pods pgi"] by simp
qed

lemma indexed_delete:
  assumes "indexed pgi M" and "M = add_mset ti (without (pod_UID ti) M)"
  defines "pgi1 \<equiv> (if AllocatedStatus (pod_Status ti) then pgi\<lparr>AllocatedVector := Vector_Sub (AllocatedVector pgi) (ResReqVector ti)\<rparr> else pgi)"
  shows "indexed (deleteTaskIndex ti pgi1) (without (pod_UID ti) M)"
proof -
  let ?s = "pod_Status ti" and ?u = "pod_UID ti"
  define M0 where "M0 = without ?u M"
  have M: "M = add_mset ti M0" using assms(2) by (simp add: M0_def)
  have by_status: "lookups (statusPods (PodStatusIndex pgi) s) (filter_mset (\<lambda>p. pod_Status p = s) M)" for s
    using assms(1) by (simp add: indexed_def)
  obtain m where m: "map_of (PodStatusIndex pgi) ?s = Some m"
  proof (cases "map_of (PodStatusIndex pgi) ?s")
    case None
    then have "statusPods (PodStatusIndex pgi) ?s = []" by (simp add: statusPods_def)
    then show ?thesis using lookups_empty [OF by_status [of ?s]] by (simp add: M)
  qed
  let ?idx = "if AList.delete ?u m = [] then AList.delete ?s (PodStatusIndex pgi) else AList.update ?s (AList.delete ?u m) (PodStatusIndex pgi)"
  have sp: "statusPods ?idx s = (if s = ?s then AList.delete ?u m else statusPods (PodStatusIndex pgi) s)" for s
    by (auto simp: statusPods_def)
  have m_is: "statusPods (PodStatusIndex pgi) ?s = m" using m by (simp add: statusPods_def)
  have lk: "lookups (statusPods ?idx s) (filter_mset (\<lambda>p. pod_Status p = s) M0)" for s
  proof (cases "s = ?s")
    case True
    have "filter_mset (\<lambda>p. pod_Status p = ?s) M0 = without ?u (filter_mset (\<lambda>p. pod_Status p = ?s) M)"
      unfolding M0_def filter_filter_mset by (simp add: conj_commute)
    then show ?thesis using lookups_delete [OF by_status [of ?s], of ?u] by (simp add: sp True m_is)
  next
    case False
    then show ?thesis using by_status [of s] by (simp add: sp M)
  qed
  have old: "wf_gomap (PodStatusIndex pgi)" "\<And>s m. map_of (PodStatusIndex pgi) s = Some m \<Longrightarrow> m \<noteq> []"
    "activeAllocatedCount pgi = Some (int (size (filter_mset activePod M)))"
    "\<And>i. Get (AllocatedVector pgi) i = (\<Sum>p\<in>#filter_mset (\<lambda>p. AllocatedStatus (pod_Status p)) M. Get (ResReqVector p) i)"
    using assms(1) unfolding indexed_def by blast+
  have wfi: "wf_gomap ?idx" using old(1) by simp
  have ne: "\<forall>s m. map_of ?idx s = Some m \<longrightarrow> m \<noteq> []" using old(2) by (cases "AList.delete ?u m = []") auto
  have sel: "PodStatusIndex (deleteTaskIndex ti pgi1) = ?idx" "allPodsMap (deleteTaskIndex ti pgi1) = None"
    "aliveTasksRequestedGPUs (deleteTaskIndex ti pgi1) = None" "AllocatedVector (deleteTaskIndex ti pgi1) = AllocatedVector pgi1"
    "activeAllocatedCount (deleteTaskIndex ti pgi1) = (if activePod ti then map_option (\<lambda>n. n - 1) (activeAllocatedCount pgi) else activeAllocatedCount pgi)"
    using m by (simp_all add: pgi1_def deleteTaskIndex_def Let_def invalidateTasksCache_def)
  have act: "activeAllocatedCount (deleteTaskIndex ti pgi1) = Some (int (size (filter_mset activePod M0)))"
    unfolding sel(5) old(3) M by simp
  have vec: "Get (AllocatedVector pgi1) i = (\<Sum>p\<in>#filter_mset (\<lambda>p. AllocatedStatus (pod_Status p)) M0. Get (ResReqVector p) i)" for i
    unfolding pgi1_def using old(4) [of i] unfolding M by simp
  show ?thesis
    unfolding M0_def [symmetric] indexed_def sel(1-4) option.case
    using lk act vec by (intro conjI TrueI wfi ne) (simp_all only: HOL.all_simps simp_thms)
qed

lemma resetTaskState_post:
  assumes "job_ok pgi" and "ti \<in># podsBag pgi"
  obtains pgi' where "resetTaskState ti pgi = (None, pgi')" and "stores_ok pgi'" and "PodSets pgi' = PodSets pgi"
    and "podsBag pgi' = podsBag pgi" and "indexed pgi' (without (pod_UID ti) (podsBag pgi))"
proof -
  obtain m pgi1 where g: "GetAllPodsMap pgi = (m, pgi1)" by (cases "GetAllPodsMap pgi")
  note G = GetAllPodsMap_post [OF assms(1) g]
  let ?p2 = "if AllocatedStatus (pod_Status ti) then pgi1\<lparr>AllocatedVector := Vector_Sub (AllocatedVector pgi1) (ResReqVector ti)\<rparr> else pgi1"
  have "map_of m (pod_UID ti) = Some ti" using lookupsD(1) [OF G(1)] assms(2) by blast
  then have r: "resetTaskState ti pgi = (None, deleteTaskIndex ti ?p2)" by (simp add: resetTaskState_def g)
  have sets: "PodSets (deleteTaskIndex ti ?p2) = PodSets pgi"
    using G(3) by (simp add: deleteTaskIndex_def invalidateTasksCache_def Let_def split: option.split)
  have "podsBag pgi = add_mset ti (without (pod_UID ti) (podsBag pgi))"
    using assms by (intro bag_unique) (simp_all add: job_ok_def)
  then have ix: "indexed (deleteTaskIndex ti ?p2) (without (pod_UID ti) (podsBag pgi))"
    using G(2,4) by (intro indexed_delete) (simp_all add: job_ok_def)
  have "stores_ok (deleteTaskIndex ti ?p2)" using assms(1) unfolding job_ok_def stores_ok_def job_pods_def sets by blast
  moreover have "podsBag (deleteTaskIndex ti ?p2) = podsBag pgi" unfolding job_pods_def sets ..
  ultimately show ?thesis using that [OF r] ix sets by blast
qed

lemma taskSubGroup_status [simp]: "taskSubGroup (ti\<lparr>pod_Status := st\<rparr>) = taskSubGroup ti"
  by (simp add: taskSubGroup_def)

lemma UpdateTaskStatus_post:
  assumes "job_ok pgi" and "ti \<in># podsBag pgi"
  obtains pgi' where "UpdateTaskStatus ti st pgi = (None, ti\<lparr>pod_Status := st\<rparr>, pgi')" and "job_ok pgi'"
    and "podsBag pgi' = add_mset (ti\<lparr>pod_Status := st\<rparr>) (without (pod_UID ti) (podsBag pgi))"
proof -
  let ?t = "ti\<lparr>pod_Status := st\<rparr>"
  obtain pgi1 where r: "resetTaskState ti pgi = (None, pgi1)" "stores_ok pgi1" "PodSets pgi1 = PodSets pgi"
    "podsBag pgi1 = podsBag pgi" "indexed pgi1 (without (pod_UID ti) (podsBag pgi))"
    by (rule resetTaskState_post [OF assms])
  have st: "stores_ok pgi" using assms(1) by (simp add: job_ok_def)
  obtain n ps where ps: "(n, ps) \<in> set (PodSets pgi)" "ti \<in> set (pods ps)" using assms(2) by (auto simp: job_pods_def)
  then have "taskSubGroup ti = n" using st by (fastforce simp: stores_ok_def)
  moreover have "map_of (PodSets pgi) n = Some ps" using st ps(1) by (simp add: stores_ok_def set_gomap_conv)
  ultimately have found: "map_of (PodSets pgi1) (taskSubGroup ?t) = Some ps" using r(3) by simp
  have "p = ti" if "p \<in># podsBag pgi" "pod_UID p = pod_UID ti" for p
    using st assms(2) that by (auto simp: stores_ok_def distinct_map dest: inj_onD)
  then have same: "\<forall>p\<in>#podsBag pgi1. pod_UID p = pod_UID ?t \<longrightarrow> taskSubGroup p = taskSubGroup ?t"
    using r(4) by auto
  have "indexed pgi1 (without (pod_UID ?t) (podsBag pgi1))" using r(4,5) by simp
  note A = AddTaskInfo_post [OF r(2) this found same]
  show ?thesis by (rule that [of "AddTaskInfo ?t pgi1"]) (use r(1,4) A in \<open>auto simp: UpdateTaskStatus_def Let_def\<close>)
qed

end
