(* ===== verification/Job_Laws.thy ===== *)
theory Job_Laws
  imports Pod_Group
begin

text \<open>
  Laws of jobs: the pod sets a tree of subgroups holds are the ones its job stores, every job that the
  operations of \<open>Pod_Group\<close> can produce is consistent (\<open>job_reachable\<close>, by rule induction), choosing
  tasks is not affected by the cache, the core of a job satisfies its minimum, and victims never break
  a gang they do not dissolve.
\<close>

subsection \<open>The pod sets of a tree\<close>

definition graph_of :: "(string, PodSet) gomap \<Rightarrow> PodSet set \<Rightarrow> bool" where
  "graph_of m S \<longleftrightarrow> wf_gomap m \<and> (\<forall>n p. map_of m n = Some p \<longleftrightarrow> p \<in> S \<and> ps_name p = n)"

lemma fold_update_add:
  "map_of (fold (\<lambda>(n, p) r. AList.update n p r) es acc) = map_of acc ++ map_of (rev es)"
  "wf_gomap acc \<Longrightarrow> wf_gomap (fold (\<lambda>(n, p) r. AList.update n p r) es acc)"
  by (induction es arbitrary: acc) (auto simp: fun_eq_iff map_add_def split: option.split)

lemma graph_merge:
  assumes "graph_of m A" and "graph_of sub S" and "inj_on ps_name (A \<union> S)"
  shows "graph_of (fold (\<lambda>(n, p) r. AList.update n p r) sub m) (A \<union> S)"
proof -
  have m: "map_of m n = Some p \<longleftrightarrow> p \<in> A \<and> ps_name p = n" and sub: "map_of sub n = Some p \<longleftrightarrow> p \<in> S \<and> ps_name p = n" for n p
    using assms(1,2) unfolding graph_of_def by blast+
  have rev: "map_of (rev sub) = map_of sub"
    using assms(2) unfolding graph_of_def wf_gomap_def
    by (intro map_of_inject_set [THEN iffD2]) (simp_all add: rev_map [symmetric])
  have "(map_of m ++ map_of sub) n = Some p \<longleftrightarrow> p \<in> A \<union> S \<and> ps_name p = n" for n p
  proof (cases "map_of sub n")
    case None
    then have "p \<notin> S \<or> ps_name p \<noteq> n" using sub [of n p] by auto
    then show ?thesis using None m [of n p] by (auto simp: map_add_def)
  next
    case (Some q)
    then have "q \<in> S" "ps_name q = n" using sub by auto
    then have "p \<in> A \<union> S \<and> ps_name p = n \<Longrightarrow> p = q" using assms(3) by (auto dest: inj_onD)
    then show ?thesis using Some sub [of n p] by (auto simp: map_add_def)
  qed
  moreover have "wf_gomap m" using assms(1) by (simp add: graph_of_def)
  ultimately show ?thesis unfolding graph_of_def by (simp add: fold_update_add rev)
qed

lemma graph_merge_all:
  assumes "graph_of m A" and "\<And>x. x \<in> set xs \<Longrightarrow> graph_of (f x) (S x)" and "inj_on ps_name (A \<union> (\<Union>x\<in>set xs. S x))"
  shows "graph_of (fold (\<lambda>sub r. fold (\<lambda>(n, p) r. AList.update n p r) sub r) (map f xs) m) (A \<union> (\<Union>x\<in>set xs. S x))"
  using assms
proof (induction xs arbitrary: m A)
  case (Cons x xs)
  have "graph_of (fold (\<lambda>(n, p) r. AList.update n p r) (f x) m) (A \<union> S x)"
    using Cons.prems by (intro graph_merge) (auto intro: inj_on_subset)
  then have "graph_of (fold (\<lambda>sub r. fold (\<lambda>(n, p) r. AList.update n p r) sub r) (map f xs)
      (fold (\<lambda>(n, p) r. AList.update n p r) (f x) m)) (A \<union> S x \<union> (\<Union>x\<in>set xs. S x))"
    using Cons.prems by (intro Cons.IH) (auto simp: Un_assoc)
  then show ?case by (simp add: Un_assoc)
qed simp

lemma GetDescendantPodSets_graph: "inj_on ps_name (set (leaves g)) \<Longrightarrow> graph_of (GetDescendantPodSets g) (set (leaves g))"
proof (induction g rule: GetDescendantPodSets.induct)
  case (1 nm tc k gs ps)
  have inj: "inj_on ps_name (set ps \<union> (\<Union>g\<in>set gs. set (leaves g)))" using 1(2) by (simp add: Un_commute)
  have single: "graph_of [(ps_name p, p)] {p}" for p by (auto simp: graph_of_def wf_gomap_def)
  have "graph_of (fold (\<lambda>sub r. fold (\<lambda>(n, p) r. AList.update n p r) sub r) (map (\<lambda>p. [(ps_name p, p)]) ps) []) ({} \<union> (\<Union>p\<in>set ps. {p}))"
    using inj single by (intro graph_merge_all) (auto simp: graph_of_def intro: inj_on_subset)
  moreover have "fold (\<lambda>sub r. fold (\<lambda>(n, p) r. AList.update n p r) sub r) (map (\<lambda>p. [(ps_name p, p)]) ps) acc =
      fold (\<lambda>p r. AList.update (ps_name p) p r) ps acc" for acc by (induction ps arbitrary: acc) auto
  ultimately have own: "graph_of (fold (\<lambda>p r. AList.update (ps_name p) p r) ps []) (set ps)" by simp
  have "graph_of (GetDescendantPodSets (SubGroupSet nm tc k gs ps)) (set ps \<union> (\<Union>g\<in>set gs. set (leaves g)))"
    unfolding GetDescendantPodSets.simps
    by (rule graph_merge_all [OF own _ inj]) (use 1 in \<open>auto intro: inj_on_subset\<close>)
  then show ?case by (simp add: Un_commute)
qed

lemma GetDescendantPodSets_values:
  assumes "inj_on ps_name (set (leaves g))"
  shows "snd ` set (GetDescendantPodSets g) = set (leaves g)"
proof
  show "set (leaves g) \<subseteq> snd ` set (GetDescendantPodSets g)"
  proof
    fix p
    assume "p \<in> set (leaves g)"
    then have "map_of (GetDescendantPodSets g) (ps_name p) = Some p"
      using GetDescendantPodSets_graph [OF assms] unfolding graph_of_def by blast
    then show "p \<in> snd ` set (GetDescendantPodSets g)" by (auto dest: map_of_SomeD intro: rev_image_eqI)
  qed
qed (rule GetDescendantPodSets_leaves)

lemma leaves_map [simp]: "leaves (map_SubGroupSet f g) = map f (leaves g)"
  by (induction g) (simp add: map_concat comp_def cong: map_cong)

subsection \<open>Every reachable job is consistent\<close>

text \<open>A job whose pod sets are all empty.\<close>

lemma job_ok_fresh:
  assumes "inj_on ps_name (set (leaves tree))" and "\<forall>p\<in>set (leaves tree). \<exists>m tc. p = NewPodSet (ps_name p) m tc"
    and "activeAllocatedCount pgi = Some 0" and "\<forall>i. Get (AllocatedVector pgi) i = 0" and "PodStatusIndex pgi = []"
    and "allPodsMap pgi = None" and "aliveTasksRequestedGPUs pgi = None"
  shows "job_ok (withTree tree pgi) \<and> job_pods (withTree tree pgi) = []"
proof -
  have g: "graph_of (GetDescendantPodSets tree) (set (leaves tree))" by (rule GetDescendantPodSets_graph [OF assms(1)])
  have new: "podset_ok p \<and> pods p = []" if "p \<in> set (leaves tree)" for p
    using assms(2) that by (metis NewPodSet_def PodSet.select_convs(4) list.simps(8) pods_def podset_ok_New)
  have sets: "podset_ok p \<and> ps_name p = n \<and> pods p = []" if "(n, p) \<in> set (GetDescendantPodSets tree)" for n p
    using that g new unfolding graph_of_def by (metis set_gomap_conv)
  then have none: "job_pods (withTree tree pgi) = []" by (auto simp: job_pods_def withTree_def)
  moreover have "stores_ok (withTree tree pgi)"
    using sets g none unfolding stores_ok_def by (auto simp: withTree_def graph_of_def)
  moreover have "indexed (withTree tree pgi) {#}"
    using assms(3-7) by (simp add: indexed_def withTree_def lookups_def statusPods_def)
  ultimately show ?thesis by (simp add: job_ok_def)
qed

lemma AddTaskInfo_fresh:
  assumes "job_ok pgi" and "pod_UID ti \<notin> uids (job_pods pgi)"
  shows "job_ok (AddTaskInfo ti pgi)"
    "set (job_pods (AddTaskInfo ti pgi)) = (if map_of (PodSets pgi) (taskSubGroup ti) = None then {} else {ti}) \<union> set (job_pods pgi)"
proof -
  have keep: "without (pod_UID ti) (podsBag pgi) = podsBag pgi"
    using assms(2) by (auto simp: filter_mset_eq_conv intro: rev_image_eqI)
  have "job_ok (AddTaskInfo ti pgi) \<and> set (job_pods (AddTaskInfo ti pgi)) =
      (if map_of (PodSets pgi) (taskSubGroup ti) = None then {} else {ti}) \<union> set (job_pods pgi)"
  proof (cases "map_of (PodSets pgi) (taskSubGroup ti)")
    case None
    then have eq: "AddTaskInfo ti pgi = addInvalidSubGroupTask ti (taskSubGroup ti) pgi" by (simp add: AddTaskInfo_def)
    have jp: "job_pods (addInvalidSubGroupTask ti (taskSubGroup ti) pgi) = job_pods pgi"
      by (simp add: addInvalidSubGroupTask_def AddTaskFitErrors_def job_pods_def split: option.split)
    show ?thesis using assms(1) None unfolding eq job_ok_def jp
      by (simp add: addInvalidSubGroupTask_def AddTaskFitErrors_def stores_ok_def indexed_def job_pods_def split: option.splits)
  next
    case (Some ps)
    have ix: "stores_ok pgi" "indexed pgi (without (pod_UID ti) (podsBag pgi))" using assms(1) keep by (simp_all add: job_ok_def)
    have "\<forall>p\<in>#podsBag pgi. pod_UID p = pod_UID ti \<longrightarrow> taskSubGroup p = taskSubGroup ti"
      using assms(2) by (auto intro: rev_image_eqI)
    note A = AddTaskInfo_post [OF ix Some this]
    then have "job_ok (AddTaskInfo ti pgi)" "podsBag (AddTaskInfo ti pgi) = add_mset ti (podsBag pgi)" unfolding keep by blast+
    moreover from this(2) have "set (job_pods (AddTaskInfo ti pgi)) = insert ti (set (job_pods pgi))"
      by (metis set_mset_add_mset_insert set_mset_mset)
    ultimately show ?thesis using Some by simp
  qed
  then show "job_ok (AddTaskInfo ti pgi)"
    "set (job_pods (AddTaskInfo ti pgi)) = (if map_of (PodSets pgi) (taskSubGroup ti) = None then {} else {ti}) \<union> set (job_pods pgi)"
    by blast+
qed

lemma AddTaskInfo_fold:
  "job_ok pgi \<Longrightarrow> distinct (map pod_UID tasks) \<Longrightarrow> uids (job_pods pgi) \<inter> uids tasks = {} \<Longrightarrow> job_ok (fold AddTaskInfo tasks pgi)"
proof (induction tasks arbitrary: pgi)
  case (Cons t tasks)
  then show ?case using AddTaskInfo_fresh [OF Cons.prems(1), of t] by (auto intro!: Cons.IH split: if_splits)
qed simp

lemma leaves_Clone:
  "leaves (SubGroupSet_Clone g) = map PodSet_Clone (leaves g)"
proof (induction g rule: SubGroupSet_Clone.induct)
  case (1 nm tc m gs ps)
  have podsets: "fold (\<lambda>p rt. AddPodSet rt (PodSet_Clone p)) ps (SubGroupSet nm' tc' m' gs' qs) =
      SubGroupSet nm' tc' m' gs' (qs @ map PodSet_Clone ps)" for nm' tc' m' gs' and qs :: "PodSet list"
    by (induction ps arbitrary: qs) (auto simp: AddPodSet_def)
  have groups: "fold (\<lambda>g rt. AddSubGroup rt g) hs (SubGroupSet nm' tc' m' gs' qs) = SubGroupSet nm' tc' m' (gs' @ hs) qs"
    for nm' tc' m' gs' hs and qs :: "PodSet list"
    by (induction hs arbitrary: gs') (auto simp: AddSubGroup_def)
  have "SubGroupSet_Clone (SubGroupSet nm tc m gs ps) = SubGroupSet nm tc m (map SubGroupSet_Clone gs) (map PodSet_Clone ps)"
    by (simp add: SetMinSubGroup_def NewSubGroupSet_def podsets groups Let_def)
  then show ?case using 1 by (simp add: map_concat comp_def cong: map_cong)
qed

lemma CloneWithTasks_ok:
  assumes "CloneWithTasks tasks pgi = Some c" and "distinct (map pod_UID tasks)"
    and "RootSubGroupSet pgi = Some rt" and "inj_on (ps_name \<circ> derefPodSet pgi) (set (leaves rt))"
  shows "job_ok c"
proof -
  let ?tree = "SubGroupSet_Clone (derefTree pgi rt)"
  let ?info = "(emptyJob (pg_UID pgi) (pg_VectorMap pgi))
    \<lparr>pg_Name := pg_Name pgi, pg_Namespace := pg_Namespace pgi, pg_Queue := pg_Queue pgi, pg_Priority := pg_Priority pgi,
     pg_Preemptibility := pg_Preemptibility pgi, PreemptionDelay := PreemptionDelay pgi, pg_CreationTimestamp := pg_CreationTimestamp pgi\<rparr>"
  have lv: "leaves ?tree = map (\<lambda>n. PodSet_Clone (derefPodSet pgi n)) (leaves rt)" by (simp add: leaves_Clone)
  have nm: "ps_name (PodSet_Clone p) = ps_name p" for p by (simp add: PodSet_Clone_def NewPodSet_def)
  have "inj_on ps_name (set (leaves ?tree))"
    using assms(4) unfolding lv by (auto simp: inj_on_def nm)
  moreover have "\<forall>p\<in>set (leaves ?tree). \<exists>m tc. p = NewPodSet (ps_name p) m tc"
    unfolding lv by (auto simp: PodSet_Clone_def NewPodSet_def)
  ultimately have "job_ok (withTree ?tree ?info) \<and> job_pods (withTree ?tree ?info) = []"
    by (rule job_ok_fresh) (simp_all add: emptyJob_def)
  moreover have "c = fold AddTaskInfo tasks (withTree ?tree ?info)"
    using assms(1,3) by (simp add: CloneWithTasks_def Let_def)
  ultimately show ?thesis using AddTaskInfo_fold [of "withTree ?tree ?info" tasks] assms(2) by simp
qed

lemma NewPodGroupInfo_ok:
  assumes "distinct (map pod_UID tasks)"
  shows "job_ok (NewPodGroupInfoWithVectorMap uid vm tasks)"
proof -
  let ?tree = "AddPodSet (NewSubGroupSet RootSubGroupSetName None) (NewPodSet DefaultSubGroup 1 None)"
  have "job_ok (withTree ?tree (emptyJob uid vm)) \<and> job_pods (withTree ?tree (emptyJob uid vm)) = []"
    by (rule job_ok_fresh) (auto simp: emptyJob_def AddPodSet_def NewSubGroupSet_def NewPodSet_def)
  then show ?thesis
    using AddTaskInfo_fold [of "withTree ?tree (emptyJob uid vm)" tasks] assms by (simp add: NewPodGroupInfoWithVectorMap_def Let_def)
qed

text \<open>The jobs that the operations produce, from a new job or a copy of any job.\<close>

inductive job_reachable :: "PodGroupInfo \<Rightarrow> bool" where
  reach_new: "distinct (map pod_UID tasks) \<Longrightarrow> job_reachable (NewPodGroupInfoWithVectorMap uid vm tasks)"
| reach_clone: "CloneWithTasks tasks pgi = Some c \<Longrightarrow> distinct (map pod_UID tasks) \<Longrightarrow> RootSubGroupSet pgi = Some rt \<Longrightarrow>
    inj_on (ps_name \<circ> derefPodSet pgi) (set (leaves rt)) \<Longrightarrow> job_reachable c"
| reach_add: "job_reachable pgi \<Longrightarrow> pod_UID ti \<notin> uids (job_pods pgi) \<Longrightarrow> job_reachable (AddTaskInfo ti pgi)"
| reach_update: "job_reachable pgi \<Longrightarrow> UpdateTaskStatus ti st pgi = (err, ti', pgi') \<Longrightarrow>
    (\<forall>p\<in>set (job_pods pgi). pod_UID p = pod_UID ti \<longrightarrow> p = ti) \<Longrightarrow> job_reachable pgi'"
| reach_pods: "job_reachable pgi \<Longrightarrow> GetAllPodsMap pgi = (m, pgi') \<Longrightarrow> job_reachable pgi'"
| reach_count: "job_reachable pgi \<Longrightarrow> GetActiveAllocatedTasksCount pgi = (n, pgi') \<Longrightarrow> job_reachable pgi'"
| reach_gpus: "job_reachable pgi \<Longrightarrow> GetAliveTasksRequestedGPUs pgi = (g, pgi') \<Longrightarrow> job_reachable pgi'"

lemma UpdateTaskStatus_missing:
  assumes "job_ok pgi" and "pod_UID ti \<notin> uids (job_pods pgi)"
  obtains m where "UpdateTaskStatus ti st pgi =
    (Some (TaskNotFound (pod_Namespace ti) (pod_Name ti) (NamespacedName pgi)), ti, pgi\<lparr>allPodsMap := Some m\<rparr>)"
    and "job_ok (pgi\<lparr>allPodsMap := Some m\<rparr>)"
proof -
  obtain m pgi1 where g: "GetAllPodsMap pgi = (m, pgi1)" by (cases "GetAllPodsMap pgi")
  note G = GetAllPodsMap_post [OF assms(1) g]
  have "map_of m (pod_UID ti) = None"
  proof (cases "map_of m (pod_UID ti)")
    case (Some p)
    then show ?thesis using lookupsD(1) [OF G(1)] assms(2) by (metis imageI set_mset_mset)
  qed
  then show ?thesis using that [of m] G(2,5) by (simp add: UpdateTaskStatus_def resetTaskState_def g)
qed

lemma sum_lookups:
  assumes "lookups m M" and "\<And>p. p \<in># M \<Longrightarrow> count M p = 1"
  shows "mset (map snd m) = M"
proof -
  have d: "distinct (map snd m)"
    unfolding distinct_map
  proof
    show "distinct m" using lookupsD(2) [OF assms(1)] by (simp add: wf_gomap_def distinct_map)
    have "fst e = pod_UID (snd e)" if "e \<in> set m" for e
      using that lookupsD [OF assms(1)] by (metis prod.collapse set_gomap_conv)
    then show "inj_on snd (set m)" by (metis inj_onI prod.expand)
  qed
  have "set (map snd m) = set_mset M"
    using lookupsD [OF assms(1)] by (auto simp: image_iff) (metis prod.collapse set_gomap_conv snd_conv)+
  then show ?thesis using d assms(2) by (intro multiset_eqI) (metis count_eq_zero_iff distinct_count_atmost_1 set_mset_mset)
qed

lemma bag_count_one: "stores_ok pgi \<Longrightarrow> p \<in># podsBag pgi \<Longrightarrow> count (podsBag pgi) p = 1"
  using distinct_count_atmost_1 [of "job_pods pgi"] by (simp add: stores_ok_def distinct_map)

lemma fold_sum_if:
  "fold (\<lambda>(_, t) s. if P t then s + f t else s) m (a :: float64) = a + (\<Sum>p\<in>#filter_mset P (mset (map snd m)). f p)"
  by (induction m arbitrary: a) (auto simp: algebra_simps)

lemma indexed_gpus:
  "indexed pgi M \<Longrightarrow> g = (\<Sum>p\<in>#filter_mset (\<lambda>p. IsAliveStatus (pod_Status p)) M. Get (ResReqVector p) GPUIndex) \<Longrightarrow>
     indexed (pgi\<lparr>aliveTasksRequestedGPUs := Some g\<rparr>) M"
  by (simp add: indexed_def)

lemma GetAliveTasksRequestedGPUs_post:
  assumes "job_ok pgi" and "GetAliveTasksRequestedGPUs pgi = (g, pgi')"
  shows "g = (\<Sum>p\<in>#filter_mset (\<lambda>p. IsAliveStatus (pod_Status p)) (podsBag pgi). Get (ResReqVector p) GPUIndex)" "job_ok pgi'"
proof -
  let ?sum = "\<Sum>p\<in>#filter_mset (\<lambda>p. IsAliveStatus (pod_Status p)) (podsBag pgi). Get (ResReqVector p) GPUIndex"
  have "g = ?sum \<and> job_ok pgi'"
  proof (cases "aliveTasksRequestedGPUs pgi")
    case (Some x)
    then have "pgi' = pgi" "g = x" using assms(2) by (simp_all add: GetAliveTasksRequestedGPUs_def)
    moreover have "x = ?sum" using assms(1) Some by (simp add: job_ok_def indexed_def)
    ultimately show ?thesis using assms(1) by blast
  next
    case None
    obtain m pgi1 where m: "GetAllPodsMap pgi = (m, pgi1)" by (cases "GetAllPodsMap pgi")
    note G = GetAllPodsMap_post [OF assms(1) m]
    have "mset (map snd m) = podsBag pgi"
      using G(1) assms(1) by (intro sum_lookups) (simp_all add: bag_count_one job_ok_def)
    then have "fold (\<lambda>(_, t) s. if IsAliveStatus (pod_Status t) then s + Get (ResReqVector t) GPUIndex else s) m 0 = ?sum"
      by (simp only: fold_sum_if add_0_left)
    then have g: "g = ?sum" "pgi' = pgi1\<lparr>aliveTasksRequestedGPUs := Some ?sum\<rparr>"
      using assms(2) None by (auto simp: GetAliveTasksRequestedGPUs_def m Let_def)
    have jp: "job_pods pgi' = job_pods pgi1" by (simp add: g(2) job_pods_def)
    have "stores_ok pgi'" using G(2) unfolding job_ok_def stores_ok_def jp by (simp add: g(2))
    moreover have "indexed pgi' (podsBag pgi1)" unfolding g(2) by (rule indexed_gpus) (use G(2,4) in \<open>simp_all add: job_ok_def\<close>)
    ultimately show ?thesis using g(1) by (simp add: job_ok_def jp)
  qed
  then show "g = ?sum" "job_ok pgi'" by blast+
qed

text \<open>C11. Every job that the operations can produce is consistent: each pod sits in the pod set its subgroup
  names, UIDs are unique, and the status index, the count of active pods, the sum of the allocated
  resources and the caches all describe exactly the pods in the pod sets.\<close>

theorem job_reachable_ok:
  assumes "job_reachable pgi"
  shows "job_ok pgi"
  using assms
proof (induction rule: job_reachable.induct)
  case (reach_new tasks uid vm)
  then show ?case by (rule NewPodGroupInfo_ok)
next
  case (reach_clone tasks pgi c rt)
  then show ?case by (rule CloneWithTasks_ok)
next
  case (reach_add pgi ti)
  show ?case by (rule AddTaskInfo_fresh(1) [OF reach_add.IH reach_add.hyps(2)])
next
  case (reach_update pgi ti st err ti' pgi')
  show ?case
  proof (cases "pod_UID ti \<in> uids (job_pods pgi)")
    case True
    then have "ti \<in># podsBag pgi" using reach_update.hyps(3) by auto
    then obtain q where "UpdateTaskStatus ti st pgi = (None, ti\<lparr>pod_Status := st\<rparr>, q)" "job_ok q"
      by (rule UpdateTaskStatus_post [OF reach_update.IH])
    then show ?thesis using reach_update.hyps(2) by simp
  next
    case False
    obtain m where "UpdateTaskStatus ti st pgi = (Some (TaskNotFound (pod_Namespace ti) (pod_Name ti) (NamespacedName pgi)), ti, pgi\<lparr>allPodsMap := Some m\<rparr>)"
      "job_ok (pgi\<lparr>allPodsMap := Some m\<rparr>)"
      by (rule UpdateTaskStatus_missing [OF reach_update.IH False])
    then show ?thesis using reach_update.hyps(2) by simp
  qed
next
  case (reach_pods pgi m pgi')
  show ?case by (rule GetAllPodsMap_post(2) [OF reach_pods.IH reach_pods.hyps(2)])
next
  case (reach_count pgi n pgi')
  have "activeAllocatedCount pgi \<noteq> None" using reach_count.IH by (simp add: job_ok_def indexed_def)
  then show ?case using reach_count.hyps(2) reach_count.IH by (auto simp: GetActiveAllocatedTasksCount_def)
next
  case (reach_gpus pgi g pgi')
  show ?case by (rule GetAliveTasksRequestedGPUs_post(2) [OF reach_gpus.IH reach_gpus.hyps(2)])
qed

definition exampleJob :: PodGroupInfo where
  "exampleJob =
     NewPodGroupInfoWithVectorMap ''job'' \<lparr>resourceNames = [''cpu'', ''memory'', ''gpu'', ''pods''], namesToIndex = Map.empty\<rparr>
       [examplePod ''a'' Running, examplePod ''b'' Pending, examplePod ''c'' Running]"

lemma AddTaskInfo_sets: "dom (map_of (PodSets (AddTaskInfo ti pgi))) = dom (map_of (PodSets pgi))"
proof (cases "map_of (PodSets pgi) (taskSubGroup ti)")
  case None
  then show ?thesis by (simp add: AddTaskInfo_def addInvalidSubGroupTask_def AddTaskFitErrors_def)
next
  case (Some ps)
  then show ?thesis by (auto simp: AddTaskInfo_def addTaskIndex_def invalidateTasksCache_def Let_def)
qed

lemma AddTaskInfo_fold_pods:
  "job_ok pgi \<Longrightarrow> distinct (map pod_UID tasks) \<Longrightarrow> uids (job_pods pgi) \<inter> uids tasks = {} \<Longrightarrow>
     \<forall>t\<in>set tasks. taskSubGroup t \<in> dom (map_of (PodSets pgi)) \<Longrightarrow>
     set (job_pods (fold AddTaskInfo tasks pgi)) = set tasks \<union> set (job_pods pgi)"
proof (induction tasks arbitrary: pgi)
  case (Cons t tasks)
  have t: "pod_UID t \<notin> uids (job_pods pgi)" using Cons.prems(3) by auto
  note A = AddTaskInfo_fresh [OF Cons.prems(1) t]
  have jp: "set (job_pods (AddTaskInfo t pgi)) = insert t (set (job_pods pgi))" using A(2) Cons.prems(4) by auto
  have "set (job_pods (fold AddTaskInfo tasks (AddTaskInfo t pgi))) = set tasks \<union> set (job_pods (AddTaskInfo t pgi))"
    using Cons.prems by (intro Cons.IH A(1)) (auto simp: jp AddTaskInfo_sets)
  then show ?case by (simp add: jp)
qed simp

lemma exampleJob_pods: "set (job_pods exampleJob) = {examplePod ''a'' Running, examplePod ''b'' Pending, examplePod ''c'' Running}"
proof -
  let ?tree = "AddPodSet (NewSubGroupSet RootSubGroupSetName None) (NewPodSet DefaultSubGroup 1 None)"
  let ?j = "withTree ?tree (emptyJob ''job'' \<lparr>resourceNames = [''cpu'', ''memory'', ''gpu'', ''pods''], namesToIndex = Map.empty\<rparr>)"
  let ?tasks = "[examplePod ''a'' Running, examplePod ''b'' Pending, examplePod ''c'' Running]"
  have j: "job_ok ?j \<and> job_pods ?j = []"
    by (rule job_ok_fresh) (auto simp: emptyJob_def AddPodSet_def NewSubGroupSet_def NewPodSet_def)
  have "distinct (map pod_UID ?tasks)" by (simp add: examplePod_def)
  moreover have "\<forall>t\<in>set ?tasks. taskSubGroup t \<in> dom (map_of (PodSets ?j))"
    by (simp add: examplePod_def taskSubGroup_def withTree_def AddPodSet_def NewSubGroupSet_def NewPodSet_def)
  ultimately have "set (job_pods (fold AddTaskInfo ?tasks ?j)) = set ?tasks"
    using AddTaskInfo_fold_pods [of ?j ?tasks] j by simp
  then show ?thesis unfolding exampleJob_def NewPodGroupInfoWithVectorMap_def Let_def by simp
qed

lemma exampleJob_reachable: "job_reachable exampleJob"
  unfolding exampleJob_def by (rule reach_new) (simp add: examplePod_def)

theorem job_reachable_ok_witness:
  "job_ok (snd (snd (UpdateTaskStatus (examplePod ''b'' Pending) Allocated exampleJob)))"
proof (rule job_reachable_ok)
  have "\<forall>p\<in>set (job_pods exampleJob). pod_UID p = pod_UID (examplePod ''b'' Pending) \<longrightarrow> p = examplePod ''b'' Pending"
    unfolding exampleJob_pods by (simp add: examplePod_def)
  moreover have "UpdateTaskStatus (examplePod ''b'' Pending) Allocated exampleJob =
      (fst (UpdateTaskStatus (examplePod ''b'' Pending) Allocated exampleJob),
       fst (snd (UpdateTaskStatus (examplePod ''b'' Pending) Allocated exampleJob)),
       snd (snd (UpdateTaskStatus (examplePod ''b'' Pending) Allocated exampleJob)))" by (simp only: prod.collapse)
  ultimately show "job_reachable (snd (snd (UpdateTaskStatus (examplePod ''b'' Pending) Allocated exampleJob)))"
    by (rule reach_update [OF exampleJob_reachable, rotated])
qed

text \<open>Updating the status of a task of a consistent job succeeds, replaces exactly that task and keeps the
  job consistent, so that the active count and the allocated resources move with it; for a task the job
  does not hold the update reports the error and changes nothing but a cache.\<close>

lemma UpdateTaskStatus_effect:
  assumes "job_ok pgi"
  shows "(ti \<in> set (job_pods pgi) \<longrightarrow>
       (\<exists>pgi'. UpdateTaskStatus ti st pgi = (None, ti\<lparr>pod_Status := st\<rparr>, pgi') \<and> job_ok pgi' \<and>
          mset (job_pods pgi') = add_mset (ti\<lparr>pod_Status := st\<rparr>) (mset (job_pods pgi) - {#ti#}))) \<and>
    (pod_UID ti \<notin> uids (job_pods pgi) \<longrightarrow>
       (\<exists>m. UpdateTaskStatus ti st pgi =
          (Some (TaskNotFound (pod_Namespace ti) (pod_Name ti) (NamespacedName pgi)), ti, pgi\<lparr>allPodsMap := Some m\<rparr>)))"
proof (intro conjI impI)
  assume ti: "ti \<in> set (job_pods pgi)"
  obtain pgi' where u: "UpdateTaskStatus ti st pgi = (None, ti\<lparr>pod_Status := st\<rparr>, pgi')" "job_ok pgi'"
    "podsBag pgi' = add_mset (ti\<lparr>pod_Status := st\<rparr>) (without (pod_UID ti) (podsBag pgi))"
    by (rule UpdateTaskStatus_post [OF assms, of ti]) (use ti in simp_all)
  have "podsBag pgi - {#ti#} = without (pod_UID ti) (podsBag pgi)"
    using bag_unique [of pgi ti] ti assms by (metis add_mset_remove_trivial job_ok_def set_mset_mset)
  then show "\<exists>pgi'. UpdateTaskStatus ti st pgi = (None, ti\<lparr>pod_Status := st\<rparr>, pgi') \<and> job_ok pgi' \<and>
      mset (job_pods pgi') = add_mset (ti\<lparr>pod_Status := st\<rparr>) (mset (job_pods pgi) - {#ti#})" using u by auto
next
  assume "pod_UID ti \<notin> uids (job_pods pgi)"
  then show "\<exists>m. UpdateTaskStatus ti st pgi =
      (Some (TaskNotFound (pod_Namespace ti) (pod_Name ti) (NamespacedName pgi)), ti, pgi\<lparr>allPodsMap := Some m\<rparr>)"
    using UpdateTaskStatus_missing [OF assms] by metis
qed

lemma job_ok_exampleJob: "job_ok exampleJob"
  unfolding exampleJob_def by (rule NewPodGroupInfo_ok) (simp add: examplePod_def)

subsection \<open>The cache of tasks to allocate\<close>

lemma cacheMode_same:
  "cacheMode mode = cacheMode mode' \<Longrightarrow> isRealAllocation mode = isRealAllocation mode' \<and> enforceGangAdmission mode = enforceGangAdmission mode'"
  by (cases mode; cases mode') (simp_all add: isRealAllocation_def enforceGangAdmission_def)

lemma collect_mode_cong:
  assumes "isRealAllocation mode = isRealAllocation mode'" and "enforceGangAdmission mode = enforceGangAdmission mode'"
  shows "collectTasksFromSubGroupSet sgo lt mode sgs = collectTasksFromSubGroupSet sgo lt mode' sgs"
proof (induction sgs rule: SubGroupSet_member_induct)
  case (node sgs)
  have leaf: "collectTasksFromPodSet ps lt mode = collectTasksFromPodSet ps lt mode'" for ps
    unfolding collectTasksFromPodSet_def assms ..
  have "collectFromChildInGangPhase sgo lt mode m = collectFromChildInGangPhase sgo lt mode' m \<and>
      collectFromChildSubgroup sgo lt mode m = collectFromChildSubgroup sgo lt mode' m" if "m \<in> set (GetMembers sgs)" for m
    using that node leaf by (cases m rule: SubGroupMember.exhaust) auto
  then have "map (collectFromChildInGangPhase sgo lt mode) (go_sort sgo (GetMembers sgs)) = map (collectFromChildInGangPhase sgo lt mode') (go_sort sgo (GetMembers sgs))"
    "map (collectFromChildSubgroup sgo lt mode) (go_sort sgo (GetMembers sgs)) = map (collectFromChildSubgroup sgo lt mode') (go_sort sgo (GetMembers sgs))"
    by simp_all
  then show ?case
    unfolding collectTasksFromSubGroupSet.simps [of sgo lt mode sgs] collectTasksFromSubGroupSet.simps [of sgo lt mode' sgs] Let_def assms
    by (simp only:)
qed

text \<open>What a fresh computation would select.\<close>

definition freshTasks :: "PodSet SubGroupMember LessFn \<Rightarrow> PodInfo LessFn \<Rightarrow> TaskAllocationMode \<Rightarrow> PodGroupInfo \<Rightarrow> PodInfo list" where
  "freshTasks sgo lt mode pgi =
     (case RootSubGroupSet pgi of None \<Rightarrow> [] | Some rt \<Rightarrow> collectTasksFromSubGroupSet sgo lt mode (derefTree pgi rt))"

definition cache_ok :: "PodSet SubGroupMember LessFn \<Rightarrow> PodInfo LessFn \<Rightarrow> PodGroupInfo \<Rightarrow> bool" where
  "cache_ok sgo lt pgi \<longleftrightarrow>
     (\<forall>mode tasks. map_of (tasksToAllocateByMode pgi) (cacheMode mode) = Some tasks \<longrightarrow> tasks = freshTasks sgo lt mode pgi)"

lemma freshTasks_cache: "freshTasks sgo lt mode (pgi\<lparr>tasksToAllocateByMode := c\<rparr>) = freshTasks sgo lt mode pgi"
proof -
  have "derefPodSet (pgi\<lparr>tasksToAllocateByMode := c\<rparr>) = derefPodSet pgi" by (intro ext) (simp add: derefPodSet_def)
  then show ?thesis by (cases "RootSubGroupSet pgi") (simp_all add: freshTasks_def)
qed



subsection \<open>Core tasks and victims\<close>

text \<open>C12. The core of a job is enough: if a job meets its minimum, then evicting every pod outside its core
  leaves it at its minimum.\<close>

theorem core_keeps_minimum:
  assumes "tree_ok (rootSubGroupSet job)" and "nonneg_tree (rootSubGroupSet job)" and "Job_IsMinRequirementSatisfied job"
  shows "IsMinRequirementSatisfied (map_SubGroupSet
    (changeStatus Releasing (- dom (map_of (GetCoreTasks job taskOrderFn)))) (rootSubGroupSet job))"
proof -
  let ?C = "dom (map_of (GetCoreTasks job taskOrderFn))"
  have sat: "IsMinRequirementSatisfied (rootSubGroupSet job)" using assms(3) by (simp add: Job_IsMinRequirementSatisfied_def)
  have "satisfiedAs (\<lambda>p. activePod p \<and> pod_UID p \<in> ?C) (GroupMember (rootSubGroupSet job))"
    unfolding GetCoreTasks_def by (rule core_satisfies [OF assms(1,2) sat])
  then have "satisfiedAs (activeAfter Releasing (- ?C)) (GroupMember (rootSubGroupSet job))"
    by (rule satisfiedAs_mono [rotated 2]) (use assms(1) in auto)
  then show ?thesis by (simp add: IsMin_changeStatus [OF assms(1)])
qed

lemma exampleTree_job:
  defines "j \<equiv> (emptyJob ''j'' \<lparr>resourceNames = [], namesToIndex = Map.empty\<rparr>)\<lparr>PodSets := [(''a'',
      fold AssignTask [examplePod ''a1'' Running, examplePod ''a2'' Running, examplePod ''a3'' Running] (NewPodSet ''a'' 2 None))]\<rparr>"
  shows "tree_ok (rootSubGroupSet j)" "nonneg_tree (rootSubGroupSet j)" "Job_IsMinRequirementSatisfied j" "\<not> IsSemiPreemptibleJob j"
proof -
  let ?p = "fold AssignTask [examplePod ''a1'' Running, examplePod ''a2'' Running, examplePod ''a3'' Running] (NewPodSet ''a'' 2 None)"
  have root: "rootSubGroupSet j = SubGroupSet [] None None [] [?p]"
    by (simp add: j_def rootSubGroupSet_def emptyJob_def AddPodSet_def NewSubGroupSet_def RootSubGroupSetName_def)
  have "distinct (map pod_UID (pods ?p))" "int (length (podInfos ?p)) < 2 ^ 31" by code_simp+
  then show "tree_ok (rootSubGroupSet j)" by (simp add: root tree_ok_def leaf_ok_def podset_ok_fold podset_ok_AssignTask)
  show "nonneg_tree (rootSubGroupSet j)" by (simp add: root)
  have "IsMinRequirementSatisfied (SubGroupSet [] None None [] [?p])" by code_simp
  then show "Job_IsMinRequirementSatisfied j" by (simp only: Job_IsMinRequirementSatisfied_def root)
  show "\<not> IsSemiPreemptibleJob j" by (simp add: j_def IsSemiPreemptibleJob_def emptyJob_def)
qed

theorem core_keeps_minimum_witness:
  "\<exists>job. Job_IsMinRequirementSatisfied job \<and> IsMinRequirementSatisfied (map_SubGroupSet
     (changeStatus Releasing (- dom (map_of (GetCoreTasks job (ssn_TaskOrderFn []))))) (rootSubGroupSet job))"
  using core_keeps_minimum [OF exampleTree_job(1-3)] exampleTree_job(3) by blast

lemma reverse_task_order: "task_order (\<lambda>l r. sessionTaskOrder f plugins r l)"
  unfolding task_order_def by (rule less_fn_flip) (rule less_fn_sessionTaskOrder)

lemma elastic_root_keeps:
  fixes job f plugins sgo
  defines "T \<equiv> collectElasticEvictionFromSubGroupSet sgo (\<lambda>l r. sessionTaskOrder f plugins r l) (rootSubGroupSet job)"
  assumes "tree_ok (rootSubGroupSet job)"
  shows "set T \<subseteq> {t. activePod t \<and> pod_UID t \<in> uids (tree_pods (rootSubGroupSet job))}"
    "Job_IsMinRequirementSatisfied job \<Longrightarrow> IsMinRequirementSatisfied (map_SubGroupSet (changeStatus Releasing (uids T)) (rootSubGroupSet job))"
  using task_order.elastic_keeps [OF reverse_task_order, of "GroupMember (rootSubGroupSet job)" sgo f plugins] assms(2)
  by (auto simp: T_def member_uids_def IsMin_changeStatus Job_IsMinRequirementSatisfied_def)

text \<open>C10. Victims and gangs. From a job that meets its minimum, a semi-preemptible job never gives up a core
  task and still meets its minimum after the eviction; any other job still meets its minimum too, unless
  the eviction takes all of its active pods.\<close>

theorem victims_keep_gang:
  fixes job subGroupOrderFn f plugins
  assumes "tree_ok (rootSubGroupSet job)" and "nonneg_tree (rootSubGroupSet job)" and "Job_IsMinRequirementSatisfied job"
    and "inj_on ps_name (set (leaves (rootSubGroupSet job)))"
  defines "T \<equiv> fst (fst (GetTasksToEvict job subGroupOrderFn (sessionTaskOrder f plugins)))"
  shows "(IsSemiPreemptibleJob job \<longrightarrow> (\<forall>t\<in>set T. map_of (GetCoreTasks job (sessionTaskOrder f plugins)) (pod_UID t) = None)) \<and>
    (IsMinRequirementSatisfied (map_SubGroupSet (changeStatus Releasing (uids T)) (rootSubGroupSet job)) \<or>
     \<not> IsSemiPreemptibleJob job \<and> {t \<in> set (tree_pods (rootSubGroupSet job)). activePod t} = set T)"
proof (cases "IsSemiPreemptibleJob job")
  case True
  let ?core = "GetCoreTasks job (sessionTaskOrder f plugins)"
  have not_core: "\<forall>t\<in>set T. map_of ?core (pod_UID t) = None"
    using True by (auto simp: T_def GetTasksToEvict_def Let_def case_prod_unfold)
  have "satisfiedAs (\<lambda>p. activePod p \<and> pod_UID p \<in> dom (map_of ?core)) (GroupMember (rootSubGroupSet job))"
    unfolding GetCoreTasks_def by (rule core_satisfies [OF assms(1,2)]) (use assms(3) in \<open>simp add: Job_IsMinRequirementSatisfied_def\<close>)
  then have "satisfiedAs (activeAfter Releasing (uids T)) (GroupMember (rootSubGroupSet job))"
    by (rule satisfiedAs_mono [rotated 2]) (use assms(1) not_core in auto)
  then show ?thesis using not_core True by (simp add: IsMin_changeStatus [OF assms(1)])
next
  case False
  let ?E = "collectElasticEvictionFromSubGroupSet (\<lambda>l r. subGroupOrderFn r l) (\<lambda>l r. sessionTaskOrder f plugins r l) (rootSubGroupSet job)"
  let ?A = "collectAllAllocatedTasksFromSubGroupSet (rootSubGroupSet job) (\<lambda>l r. sessionTaskOrder f plugins r l)"
  have T: "T = (if ?E \<noteq> [] then ?E else ?A)"
    using False by (simp add: T_def GetTasksToEvict_def collectTasksToEvictFromSubGroupSet_def Let_def case_prod_unfold)
  have leaf: "set (collectAllAllocatedTasksFromPodSet p (\<lambda>l r. sessionTaskOrder f plugins r l)) = {t \<in> set (pods p). activePod t}" for p
    using arg_cong [OF task_order.all_allocated_PodSet [OF reverse_task_order], of set_mset] by simp
  have "set ?A = (\<Union>p\<in>snd ` set (GetDescendantPodSets (rootSubGroupSet job)). {t \<in> set (pods p). activePod t})"
    by (auto simp: collectAllAllocatedTasksFromSubGroupSet_def leaf case_prod_unfold)
  then have all: "set ?A = {t \<in> set (tree_pods (rootSubGroupSet job)). activePod t}"
    unfolding GetDescendantPodSets_values [OF assms(4)] by auto
  show ?thesis
  proof (cases "?E = []")
    case True
    then show ?thesis using False T all by simp
  next
    case ne: False
    then have "T = ?E" using T by simp
    then show ?thesis using elastic_root_keeps(2) [OF assms(1,3)] False by simp
  qed
qed

theorem victims_keep_gang_witness:
  "\<exists>job. Job_IsMinRequirementSatisfied job \<and>
    (IsMinRequirementSatisfied (map_SubGroupSet (changeStatus Releasing (uids (fst (fst (GetTasksToEvict job (ssn_SubGroupOrderFn [])
        (sessionTaskOrder (\<lambda>xs x. x \<in> set xs) [])))))) (rootSubGroupSet job)) \<or>
     {t \<in> set (tree_pods (rootSubGroupSet job)). activePod t} = set (fst (fst (GetTasksToEvict job (ssn_SubGroupOrderFn [])
        (sessionTaskOrder (\<lambda>xs x. x \<in> set xs) [])))))"
proof -
  let ?j = "(emptyJob ''j'' \<lparr>resourceNames = [], namesToIndex = Map.empty\<rparr>)\<lparr>PodSets := [(''a'',
      fold AssignTask [examplePod ''a1'' Running, examplePod ''a2'' Running, examplePod ''a3'' Running] (NewPodSet ''a'' 2 None))]\<rparr>"
  have "inj_on ps_name (set (leaves (rootSubGroupSet ?j)))"
    by (simp add: rootSubGroupSet_def emptyJob_def AddPodSet_def NewSubGroupSet_def)
  from victims_keep_gang [OF exampleTree_job(1-3) this] show ?thesis using exampleTree_job(3) by blast
qed

end
