(* ===== verification/Job_Order.thy ===== *)
theory Job_Order
  imports Job_Laws
begin

text \<open>
  The order of jobs and of victims: the plugins \<^verbatim>\<open>priority\<close>, \<^verbatim>\<open>elastic\<close> and \<^verbatim>\<open>gpujoborder\<close>, and
  \<^verbatim>\<open>Session.JobOrderFn\<close> and \<^verbatim>\<open>Session.VictimOrderFn\<close> of \<^verbatim>\<open>framework/session_plugins.go\<close>.

  Each job comparator meets the contract \<open>compare_fn\<close> of \<open>Task_Order\<close>, so the session's job order is a
  strict total order of jobs; the victim order is its reverse, refined by \<^verbatim>\<open>gpujoborder\<close>, and is shown to
  be an order of distinct jobs as long as the priority plugin runs before it.
\<close>

subsection \<open>Comparators\<close>

definition priority_JobOrderFn :: "PodGroupInfo CompareFn" where
  "priority_JobOrderFn lv rv =
     (if pg_Priority lv > pg_Priority rv then - 1 else if pg_Priority lv < pg_Priority rv then 1 else 0)"

definition podSetState :: "PodSet \<Rightarrow> bool \<times> bool" where
  "podSetState podSet =
     (let numAllocatedTasks = int32_of (numActiveAllocatedTasks podSet)
      in (numAllocatedTasks < minAvailable podSet, numAllocatedTasks > minAvailable podSet))"

text \<open>A loop over states that stops at the first one below its minimum.\<close>

fun combineStates :: "(bool \<times> bool) list \<Rightarrow> bool \<Rightarrow> bool \<times> bool" where
  "combineStates [] aboveMinAvailable = (False, aboveMinAvailable)"
| "combineStates ((isBelow, isAbove) # rest) aboveMinAvailable =
     (if isBelow then (True, False) else combineStates rest (aboveMinAvailable \<or> isAbove))"

fun subGroupSetState :: "PodSet SubGroupSet \<Rightarrow> bool \<times> bool" where
  "subGroupSetState (SubGroupSet nm tc k gs ps) = combineStates (map podSetState ps @ map subGroupSetState gs) False"

definition minAvailableState :: "PodGroupInfo \<Rightarrow> bool \<times> bool \<times> bool" where
  "minAvailableState pgi =
     (let (belowMinAvailable, aboveMinAvailable) =
            (case RootSubGroupSet pgi of None \<Rightarrow> (False, False) | Some rt \<Rightarrow> subGroupSetState (derefTree pgi rt))
      in if belowMinAvailable then (True, False, False) else (False, aboveMinAvailable, \<not> aboveMinAvailable))"

definition elastic_JobOrderFn :: "PodGroupInfo CompareFn" where
  "elastic_JobOrderFn lv rv =
     (let (lvBelow, lvAbove, lvExactly) = minAvailableState lv;
          (rvBelow, rvAbove, rvExactly) = minAvailableState rv
      in if lvBelow \<and> \<not> rvBelow then - 1
         else if lvExactly \<and> rvAbove then - 1
         else if \<not> lvBelow \<and> rvBelow then 1
         else if lvAbove \<and> rvExactly then 1
         else 0)"

datatype gpuMode = ModeEvictLargerFirst | ModeEvictSmallerFirst

definition gpujoborder_mode :: "string option \<Rightarrow> gpuMode" where
  "gpujoborder_mode arg = (if arg = Some ''evict-smaller-first'' then ModeEvictSmallerFirst else ModeEvictLargerFirst)"

definition gpujoborder_VictimOrderFn :: "gpuMode \<Rightarrow> PodGroupInfo CompareFn" where
  "gpujoborder_VictimOrderFn mode lv rv =
     (if pg_Priority lv \<noteq> pg_Priority rv then 0
      else let lGPU = fst (GetAliveTasksRequestedGPUs lv); rGPU = fst (GetAliveTasksRequestedGPUs rv)
      in case mode of
           ModeEvictSmallerFirst \<Rightarrow> if lGPU < rGPU then - 1 else if lGPU > rGPU then 1 else 0
         | ModeEvictLargerFirst \<Rightarrow> if lGPU > rGPU then - 1 else if lGPU < rGPU then 1 else 0)"

subsection \<open>The session's orders\<close>

definition jobOrderCreationFallback :: "PodGroupInfo LessFn" where
  "jobOrderCreationFallback lv rv =
     (if pg_CreationTimestamp lv = pg_CreationTimestamp rv then pg_UID lv < pg_UID rv
      else pg_CreationTimestamp lv < pg_CreationTimestamp rv)"

definition ssn_JobOrderFn :: "PodGroupInfo CompareFn list \<Rightarrow> PodGroupInfo LessFn" where
  "ssn_JobOrderFn JobOrderFns l r = orderChain JobOrderFns jobOrderCreationFallback l r"

fun victimChain :: "PodGroupInfo CompareFn list \<Rightarrow> PodGroupInfo LessFn \<Rightarrow> PodGroupInfo LessFn" where
  "victimChain [] rest l r = rest l r"
| "victimChain (jof # fns) rest l r = (let j = jof l r in if j \<noteq> 0 then j > 0 else victimChain fns rest l r)"

definition ssn_VictimOrderFn :: "PodGroupInfo CompareFn list \<Rightarrow> PodGroupInfo CompareFn list \<Rightarrow> PodGroupInfo LessFn" where
  "ssn_VictimOrderFn JobOrderFns VictimOrderFns l r =
     victimChain JobOrderFns (orderChain VictimOrderFns (\<lambda>l r. \<not> jobOrderCreationFallback l r)) l r"

datatype job_plugin = PriorityPlugin | ElasticPlugin

fun job_plugin_fn :: "job_plugin \<Rightarrow> PodGroupInfo CompareFn" where
  "job_plugin_fn PriorityPlugin = priority_JobOrderFn"
| "job_plugin_fn ElasticPlugin = elastic_JobOrderFn"

subsection \<open>The comparators are comparators\<close>

definition elasticRank :: "PodGroupInfo \<Rightarrow> nat" where
  "elasticRank pgi = (let (isBelow, isAbove, _) = minAvailableState pgi in if isBelow then 0 else if isAbove then 2 else 1)"

definition job_plugin_rank :: "job_plugin \<Rightarrow> PodGroupInfo \<Rightarrow> int" where
  "job_plugin_rank p j = (case p of PriorityPlugin \<Rightarrow> - pg_Priority j | ElasticPlugin \<Rightarrow> int (elasticRank j))"

lemma minAvailableState_cases:
  obtains "minAvailableState j = (True, False, False)" | "minAvailableState j = (False, True, False)" | "minAvailableState j = (False, False, True)"
proof -
  obtain a b where "(case RootSubGroupSet j of None \<Rightarrow> (False, False) | Some rt \<Rightarrow> subGroupSetState (derefTree j rt)) = (a, b)"
    by (rule prod.exhaust)
  then have "minAvailableState j = (if a then (True, False, False) else (False, b, \<not> b))" by (simp add: minAvailableState_def)
  then show ?thesis using that by (cases a; cases b) auto
qed

lemma job_plugin_ranked:
  "job_plugin_fn p l r < 0 \<longleftrightarrow> job_plugin_rank p l < job_plugin_rank p r"
  "job_plugin_fn p l r > 0 \<longleftrightarrow> job_plugin_rank p r < job_plugin_rank p l"
proof -
  have "(elastic_JobOrderFn l r < 0 \<longleftrightarrow> elasticRank l < elasticRank r) \<and> (elastic_JobOrderFn l r > 0 \<longleftrightarrow> elasticRank r < elasticRank l)"
    by (rule minAvailableState_cases [of l]; rule minAvailableState_cases [of r]) (simp_all add: elastic_JobOrderFn_def elasticRank_def)
  then show "job_plugin_fn p l r < 0 \<longleftrightarrow> job_plugin_rank p l < job_plugin_rank p r"
    "job_plugin_fn p l r > 0 \<longleftrightarrow> job_plugin_rank p r < job_plugin_rank p l"
    by (cases p; simp add: priority_JobOrderFn_def job_plugin_rank_def)+
qed

interpretation job_plugins: compare_fn "job_plugin_fn p" for p
  by (rule compare_fn_rank [where rank = "job_plugin_rank p"]) (rule job_plugin_ranked)+

lemma less_fn_jobFallback: "less_fn jobOrderCreationFallback"
  by unfold_locales (auto simp: jobOrderCreationFallback_def split: if_splits)

lemma less_fn_jobs: "less_fn (ssn_JobOrderFn (map job_plugin_fn plugins))"
proof -
  have "less_fn (orderChain (map job_plugin_fn plugins) jobOrderCreationFallback)"
    by (rule less_fn_orderChain) (auto simp: job_plugins.compare_fn_axioms less_fn_jobFallback)
  then show ?thesis by (simp add: ssn_JobOrderFn_def [abs_def])
qed

interpretation session_jobs: less_fn "ssn_JobOrderFn (map job_plugin_fn plugins)" for plugins
  by (rule less_fn_jobs)

subsection \<open>The victim order\<close>

text \<open>The reference: the chain of the reversed comparators, with the GPU comparison freed of its guard.\<close>

definition gpuCompare :: "gpuMode \<Rightarrow> PodGroupInfo CompareFn" where
  "gpuCompare mode lv rv =
     (let lGPU = fst (GetAliveTasksRequestedGPUs lv); rGPU = fst (GetAliveTasksRequestedGPUs rv)
      in case mode of
           ModeEvictSmallerFirst \<Rightarrow> if lGPU < rGPU then - 1 else if lGPU > rGPU then 1 else 0
         | ModeEvictLargerFirst \<Rightarrow> if lGPU > rGPU then - 1 else if lGPU < rGPU then 1 else 0)"

definition victimReference :: "job_plugin list \<Rightarrow> gpuMode list \<Rightarrow> PodGroupInfo LessFn" where
  "victimReference plugins modes =
     orderChain (map (\<lambda>p l r. job_plugin_fn p r l) plugins @ map gpuCompare modes) (\<lambda>l r. jobOrderCreationFallback r l)"

lemma compare_fn_gpu: "compare_fn (gpuCompare mode)"
proof (cases mode)
  case ModeEvictLargerFirst
  show ?thesis
    by (rule compare_fn_rank [where rank = "\<lambda>j. - fst (GetAliveTasksRequestedGPUs j)"]) (simp_all add: gpuCompare_def ModeEvictLargerFirst Let_def)
next
  case ModeEvictSmallerFirst
  show ?thesis
    by (rule compare_fn_rank [where rank = "\<lambda>j. fst (GetAliveTasksRequestedGPUs j)"]) (simp_all add: gpuCompare_def ModeEvictSmallerFirst Let_def)
qed

lemma compare_fn_reversed: "compare_fn (\<lambda>l r. job_plugin_fn p r l)"
  by (rule compare_fn_rank [where rank = "\<lambda>j. - job_plugin_rank p j"]) (simp_all add: job_plugin_ranked)

lemma less_fn_victimReference: "less_fn (victimReference plugins modes)"
  unfolding victimReference_def
  by (rule less_fn_orderChain) (auto simp: compare_fn_reversed compare_fn_gpu less_fn_flip less_fn_jobFallback)

interpretation victims: less_fn "victimReference plugins modes" for plugins modes
  by (rule less_fn_victimReference)

lemma orderChain_append: "orderChain (fs @ gs) fb l r = orderChain fs (orderChain gs fb) l r"
  by (induction fs) (simp_all add: Let_def)

lemma gpu_chain:
  assumes "pg_Priority l = pg_Priority r" and "pg_UID l \<noteq> pg_UID r"
  shows "orderChain (map gpujoborder_VictimOrderFn modes) (\<lambda>l r. \<not> jobOrderCreationFallback l r) l r =
    orderChain (map gpuCompare modes) (\<lambda>l r. jobOrderCreationFallback r l) l r"
  using assms by (induction modes) (auto simp: gpujoborder_VictimOrderFn_def gpuCompare_def jobOrderCreationFallback_def Let_def)

lemma victim_chain_reference:
  assumes "PriorityPlugin \<in> set plugins \<or> pg_Priority l = pg_Priority r" and "pg_UID l \<noteq> pg_UID r"
  shows "ssn_VictimOrderFn (map job_plugin_fn plugins) (map gpujoborder_VictimOrderFn modes) l r = victimReference plugins modes l r"
  using assms(1)
proof (induction plugins)
  case Nil
  then show ?case using gpu_chain [OF _ assms(2)] by (simp add: ssn_VictimOrderFn_def victimReference_def)
next
  case (Cons p plugins)
  have flip: "job_plugin_fn p l r > 0 \<longleftrightarrow> job_plugin_fn p r l < 0" "job_plugin_fn p l r = 0 \<longleftrightarrow> job_plugin_fn p r l = 0"
    using job_plugin_ranked [of p l r] job_plugin_ranked [of p r l] by auto
  have "job_plugin_fn p l r = 0 \<Longrightarrow> PriorityPlugin \<in> set plugins \<or> pg_Priority l = pg_Priority r"
    using Cons.prems job_plugin_ranked [of PriorityPlugin l r] by (cases p) (auto simp: job_plugin_rank_def)
  then show ?case using Cons.IH flip by (auto simp: ssn_VictimOrderFn_def victimReference_def Let_def)
qed

text \<open>C14. The job order of a session is a strict total order of jobs for every choice of plugins, and without
  victim comparators the victim order is its negation.\<close>

theorem job_order_total:
  "(ssn_JobOrderFn (map job_plugin_fn plugins) x y \<longrightarrow> \<not> ssn_JobOrderFn (map job_plugin_fn plugins) y x) \<and>
   (ssn_JobOrderFn (map job_plugin_fn plugins) x y \<longrightarrow> ssn_JobOrderFn (map job_plugin_fn plugins) y z \<longrightarrow>
      ssn_JobOrderFn (map job_plugin_fn plugins) x z) \<and>
   (pg_UID x \<noteq> pg_UID y \<longrightarrow> ssn_JobOrderFn (map job_plugin_fn plugins) x y \<or> ssn_JobOrderFn (map job_plugin_fn plugins) y x) \<and>
   (ssn_VictimOrderFn (map job_plugin_fn plugins) [] x y \<longleftrightarrow> \<not> ssn_JobOrderFn (map job_plugin_fn plugins) x y)"
proof (intro conjI impI)
  show "ssn_JobOrderFn (map job_plugin_fn plugins) x y \<Longrightarrow> \<not> ssn_JobOrderFn (map job_plugin_fn plugins) y x"
    by (rule session_jobs.less_asym)
  show "ssn_JobOrderFn (map job_plugin_fn plugins) x y \<Longrightarrow> ssn_JobOrderFn (map job_plugin_fn plugins) y z \<Longrightarrow>
      ssn_JobOrderFn (map job_plugin_fn plugins) x z" by (rule session_jobs.less_trans)
  show "pg_UID x \<noteq> pg_UID y \<Longrightarrow> ssn_JobOrderFn (map job_plugin_fn plugins) x y \<or> ssn_JobOrderFn (map job_plugin_fn plugins) y x"
  proof (induction plugins)
    case Nil
    then show ?case by (auto simp: ssn_JobOrderFn_def jobOrderCreationFallback_def)
  next
    case (Cons p plugins)
    then show ?case using job_plugin_ranked [of p x y] job_plugin_ranked [of p y x] by (auto simp: ssn_JobOrderFn_def Let_def)
  qed
  show "ssn_VictimOrderFn (map job_plugin_fn plugins) [] x y \<longleftrightarrow> \<not> ssn_JobOrderFn (map job_plugin_fn plugins) x y"
    by (induction plugins) (auto simp: ssn_VictimOrderFn_def ssn_JobOrderFn_def Let_def)
qed

definition exampleVMap :: ResourceVectorMap where
  "exampleVMap = \<lparr>resourceNames = [''cpu'', ''memory'', ''gpu'', ''pods''], namesToIndex = Map.empty\<rparr>"

theorem job_order_total_witness:
  "ssn_JobOrderFn (map job_plugin_fn [PriorityPlugin, ElasticPlugin]) (emptyJob ''a'' exampleVMap) (emptyJob ''b'' exampleVMap) \<or>
   ssn_JobOrderFn (map job_plugin_fn [PriorityPlugin, ElasticPlugin]) (emptyJob ''b'' exampleVMap) (emptyJob ''a'' exampleVMap)"
  using job_order_total [of "[PriorityPlugin, ElasticPlugin]" "emptyJob ''a'' exampleVMap" "emptyJob ''b'' exampleVMap"]
  by (simp add: emptyJob_def)

text \<open>With the priority plugin enabled, the victim order refined by \<^verbatim>\<open>gpujoborder\<close> is a strict order of
  distinct jobs: of two distinct jobs exactly one is the better victim, the relation is transitive, and the
  job of the lower priority is always the better victim when the priority plugin comes first.\<close>

lemma victim_order_total:
  fixes plugins modes x y z
  assumes "PriorityPlugin \<in> set plugins" and "pg_UID x \<noteq> pg_UID y" and "pg_UID y \<noteq> pg_UID z" and "pg_UID x \<noteq> pg_UID z"
  defines "victim \<equiv> ssn_VictimOrderFn (map job_plugin_fn plugins) (map gpujoborder_VictimOrderFn modes)"
  shows "(victim x y \<longleftrightarrow> \<not> victim y x) \<and> (victim x y \<longrightarrow> victim y z \<longrightarrow> victim x z) \<and>
    (hd plugins = PriorityPlugin \<and> pg_Priority x < pg_Priority y \<longrightarrow> victim x y)"
proof (intro conjI impI)
  have ref: "victim a b = victimReference plugins modes a b" if "pg_UID a \<noteq> pg_UID b" for a b
    unfolding victim_def using assms(1) that by (intro victim_chain_reference) auto
  have sep: "victimReference plugins modes x y \<or> victimReference plugins modes y x"
  proof -
    have gpu: "orderChain (map gpuCompare modes) (\<lambda>l r. jobOrderCreationFallback r l) x y \<or>
        orderChain (map gpuCompare modes) (\<lambda>l r. jobOrderCreationFallback r l) y x"
      using assms(2) by (induction modes) (auto simp: gpuCompare_def jobOrderCreationFallback_def Let_def split: gpuMode.splits)
    have "orderChain (map (\<lambda>p l r. job_plugin_fn p r l) ps) fb x y \<or> orderChain (map (\<lambda>p l r. job_plugin_fn p r l) ps) fb y x"
      if "fb x y \<or> fb y x" for ps fb
      using that
    proof (induction ps)
      case (Cons p ps)
      then show ?case using job_plugin_ranked [of p x y] job_plugin_ranked [of p y x] by (auto simp: Let_def)
    qed simp
    from this [OF gpu, of plugins] show ?thesis by (simp add: victimReference_def orderChain_append)
  qed
  show "victim x y \<longleftrightarrow> \<not> victim y x"
    using sep victims.less_asym [of plugins modes] ref [of x y] ref [of y x] assms(2) by auto
  show "victim x z" if "victim x y" "victim y z"
    using that ref [of x y] ref [of y z] ref [of x z] assms(2-4) victims.less_trans [of plugins modes x y z] by auto
  show "victim x y" if "hd plugins = PriorityPlugin \<and> pg_Priority x < pg_Priority y"
    using that assms(1) by (cases plugins) (auto simp: victim_def ssn_VictimOrderFn_def priority_JobOrderFn_def)
qed

end
