(* ===== verification/Capacity_Policy.thy ===== *)
theory Capacity_Policy
  imports Queue_Tree Resources Job_Order
begin

text \<open>
  The capacity policy, \<^verbatim>\<open>plugins/proportion/capacity_policy\<close>: whether a job may allocate tasks without taking a
  queue, or one of the queues above it, over its limit, and whether a job that is not preemptible stays
  within the quota its queues deserve. The messages of \<^verbatim>\<open>api/unschedule_info.go\<close> are part of the model; the two
  formatting functions they use, \<^verbatim>\<open>humanize.FtoaWithDigits(_, 3)\<close> and \<^verbatim>\<open>%v\<close> on a float, are the fields of
  \<open>formats\<close>. Reading \<^verbatim>\<open>GetDeservedShare\<close> also fills a cache of the queue; \<open>Resource_Share\<close> shows that cache to be
  transparent, and it is left out here.

  The theorems: a job is admitted exactly if every queue on the chain of its queue stays within its limit
  and, unless the job is preemptible or already bursting, within its quota; a rejection names the lowest
  queue and the first resource that are exceeded. The check returns on every hierarchy whose chains end, and
  only there.
\<close>

subsection \<open>Messages\<close>

record formats =
  FtoaWithDigits3 :: "float64 \<Rightarrow> string"
  fmt_v :: "float64 \<Rightarrow> string"


definition HumanizeResource :: "formats \<Rightarrow> float64 \<Rightarrow> float64 \<Rightarrow> float64 \<Rightarrow> string" where
  "HumanizeResource fm unl val unitAdjustment =
     (if val = unl then ''Unlimited'' else FtoaWithDigits3 fm (val / unitAdjustment))"

definition getOverCapacityMessageDetails ::
  "formats \<Rightarrow> float64 \<Rightarrow> string \<Rightarrow> ResourceName \<Rightarrow> float64 \<Rightarrow> float64 \<Rightarrow> ResourceVector \<Rightarrow> string" where
  "getOverCapacityMessageDetails fm unl queueName resourceName deserv used requestedResources =
     (case resourceName of
        GpuResource \<Rightarrow>
          ''Workload requested '' @ fmt_v fm (Get requestedResources GPUIndex) @ '' GPUs, but '' @ queueName @ '' quota is '' @
          HumanizeResource fm unl deserv 1 @ '' GPUs, while '' @ HumanizeResource fm unl used 1 @
          '' GPUs are already allocated for non-preemptible pods.''
      | CpuResource \<Rightarrow>
          ''Workload requested '' @ HumanizeResource fm unl (Get requestedResources CPUIndex) MilliCPUToCores @ '' CPU cores, but '' @
          queueName @ '' quota is '' @ HumanizeResource fm unl deserv MilliCPUToCores @ '' cores, while '' @
          HumanizeResource fm unl used MilliCPUToCores @ '' cores are already allocated for non-preemptible pods.''
      | MemoryResource \<Rightarrow>
          ''Workload requested '' @ HumanizeResource fm unl (Get requestedResources MemoryIndex) MemoryToGB @ '' GB memory, but '' @
          queueName @ '' quota is '' @ HumanizeResource fm unl deserv MemoryToGB @ '' GB, while '' @
          HumanizeResource fm unl used MemoryToGB @ '' GB are already allocated for non-preemptible pods.'')"

definition GetBuildOverCapacityMessageForQueue ::
  "formats \<Rightarrow> float64 \<Rightarrow> string \<Rightarrow> ResourceName \<Rightarrow> float64 \<Rightarrow> float64 \<Rightarrow> ResourceVector \<Rightarrow> string" where
  "GetBuildOverCapacityMessageForQueue fm unl queueName resourceName deserv used requestedResources =
     ''Non-preemptible workload is over quota. '' @
     getOverCapacityMessageDetails fm unl queueName resourceName deserv used requestedResources @
     '' Use a preemptible workload to go over quota.''"

definition GetJobOverMaxAllowedMessageForQueue ::
  "formats \<Rightarrow> float64 \<Rightarrow> string \<Rightarrow> ResourceName \<Rightarrow> float64 \<Rightarrow> float64 \<Rightarrow> float64 \<Rightarrow> string" where
  "GetJobOverMaxAllowedMessageForQueue fm unl queueName resourceName maxAll used requested =
     (let (resourceNameStr, unitStr, u) =
            (case resourceName of
               GpuResource \<Rightarrow> (''GPUs'', ''GPUs'', 1)
             | CpuResource \<Rightarrow> (''CPU cores'', ''cores'', MilliCPUToCores)
             | MemoryResource \<Rightarrow> (''memory'', ''GB'', MemoryToGB));
          details = ''Limit is '' @ HumanizeResource fm unl maxAll u @ '' '' @ unitStr @ '', currently '' @
            HumanizeResource fm unl used u @ '' '' @ unitStr @ '' allocated and workload requested '' @
            HumanizeResource fm unl requested u @ '' '' @ unitStr
      in queueName @ '' quota has reached the allowable limit of '' @ resourceNameStr @ ''. '' @ details)"

subsection \<open>Results\<close>

record SchedulableResult =
  IsSchedulable :: bool
  Reason :: "UnschedulableReason option"
  Message :: string
  Details :: "QuotaDetails option"

definition Schedulable :: SchedulableResult where
  "Schedulable = \<lparr>IsSchedulable = True, Reason = None, Message = '''', Details = None\<rparr>"

definition ResourceRequirementsFromQuantities :: "ResourceQuantities \<Rightarrow> ResourceRequirements" where
  "ResourceRequirementsFromQuantities quantities =
     NewResourceRequirements (quantities GpuResource) (quantities CpuResource) (quantities MemoryResource)"

definition queueDetails ::
  "resource_consts \<Rightarrow> QueueAttributes \<Rightarrow> (string, Quantity) gomap \<Rightarrow> (string, Quantity) gomap \<Rightarrow> QuotaDetails" where
  "queueDetails rc q req reqNonPreemptible =
     (let rl = (\<lambda>quantities. Req_ToResourceList rc (ResourceRequirementsFromQuantities quantities))
      in \<lparr>details_Name = UID q,
          QueueRequestedResources = rl (GetRequestShare (QShare q)),
          QueueDeservedResources = rl (fst (GetDeservedShare (QShare q))),
          QueueAllocatedResources = rl (GetAllocatedShare (QShare q)),
          QueueAllocatedNonPreemptibleResources = rl (GetAllocatedNonPreemptible (QShare q)),
          QueueResourceLimits = rl (GetMaxAllowedShare (QShare q)),
          PodGroupRequestedResources = req,
          PodGroupRequestedNonPreemptibleResources = reqNonPreemptible\<rparr>)"

subsection \<open>Limits\<close>

text \<open>\<open>Some r\<close> is Go's \<^verbatim>\<open>(true, r)\<close>. The maps of quantities always hold all three resources.\<close>

definition isOverLimit :: "float64 \<Rightarrow> QueueAttributes \<Rightarrow> ResourceQuantities \<Rightarrow> ResourceName option" where
  "isOverLimit unl q requested =
     find (\<lambda>resource. let share = queue_share q resource in
         if maxAllowed share = unl then False
         else if requested resource = 0 then False
         else \<not> LessOrEqualWithTolerance (allocated share + requested resource) (maxAllowed share)) AllResources"

definition getQueueOverLimitError :: "formats \<Rightarrow> float64 \<Rightarrow> ResourceName \<Rightarrow> QueueAttributes \<Rightarrow> ResourceQuantities \<Rightarrow> string" where
  "getQueueOverLimitError fm unl resourceName q requestedShare =
     GetJobOverMaxAllowedMessageForQueue fm unl (QueueName q) resourceName (GetMaxAllowedShare (QShare q) resourceName)
       (GetAllocatedShare (QShare q) resourceName) (requestedShare resourceName)"

definition overLimitResult ::
  "resource_consts \<Rightarrow> formats \<Rightarrow> float64 \<Rightarrow> ResourceQuantities \<Rightarrow> PodGroupInfo \<Rightarrow> QueueAttributes \<Rightarrow> SchedulableResult option" where
  "overLimitResult rc fm unl requestedShare job q =
     (case isOverLimit unl q requestedShare of
        None \<Rightarrow> None
      | Some exceedingResourceName \<Rightarrow>
          (let req = Req_ToResourceList rc (ResourceRequirementsFromQuantities requestedShare);
               requestedNonPreemptible = (if \<not> IsPreemptibleJob job then req else Req_ToResourceList rc EmptyResourceRequirements)
           in Some \<lparr>IsSchedulable = False, Reason = Some OverLimit,
                    Message = getQueueOverLimitError fm unl exceedingResourceName q requestedShare,
                    Details = Some (queueDetails rc q req requestedNonPreemptible)\<rparr>))"

definition resultsOverLimit ::
  "resource_consts \<Rightarrow> formats \<Rightarrow> float64 \<Rightarrow> (QueueID, QueueAttributes) gomap \<Rightarrow> ResourceQuantities \<Rightarrow> PodGroupInfo \<Rightarrow>
   SchedulableResult option" where
  "resultsOverLimit rc fm unl queues requestedShare job =
     map_option (case_option Schedulable id) (searchQueues queues (overLimitResult rc fm unl requestedShare job) (pg_Queue job))"

subsection \<open>Quota\<close>

definition isAllocatedNonPreemptibleOverQuota :: "float64 \<Rightarrow> QueueAttributes \<Rightarrow> ResourceQuantities \<Rightarrow> ResourceName option" where
  "isAllocatedNonPreemptibleOverQuota unl q requested =
     find (\<lambda>resource. let share = queue_share q resource in
         if deserved share = unl then False
         else if requested resource = 0 then False
         else \<not> LessOrEqualWithTolerance (allocatedNotPreemptible share + requested resource) (deserved share)) AllResources"

definition getNonPreemptibleJobOverQuotaError ::
  "resource_consts \<Rightarrow> formats \<Rightarrow> float64 \<Rightarrow> QueueAttributes \<Rightarrow> ResourceQuantities \<Rightarrow> ResourceName \<Rightarrow> string" where
  "getNonPreemptibleJobOverQuotaError rc fm unl q requestedQuota exceedingResourceName =
     (let vec = Set (Set (Set (NewResourceVector (NewResourceVectorMap rc)) GPUIndex (requestedQuota GpuResource))
                  CPUIndex (requestedQuota CpuResource)) MemoryIndex (requestedQuota MemoryResource)
      in GetBuildOverCapacityMessageForQueue fm unl (QueueName q) exceedingResourceName
           (fst (GetDeservedShare (QShare q)) exceedingResourceName) (GetAllocatedNonPreemptible (QShare q) exceedingResourceName) vec)"

definition overQuotaResult ::
  "resource_consts \<Rightarrow> formats \<Rightarrow> float64 \<Rightarrow> ResourceQuantities \<Rightarrow> QueueAttributes \<Rightarrow> SchedulableResult option" where
  "overQuotaResult rc fm unl requestedShare q =
     (case isAllocatedNonPreemptibleOverQuota unl q requestedShare of
        None \<Rightarrow> None
      | Some exceedingResourceName \<Rightarrow>
          (let req = Req_ToResourceList rc (ResourceRequirementsFromQuantities requestedShare)
           in Some \<lparr>IsSchedulable = False, Reason = Some NonPreemptibleOverQuota,
                    Message = getNonPreemptibleJobOverQuotaError rc fm unl q requestedShare exceedingResourceName,
                    Details = Some (queueDetails rc q req req)\<rparr>))"

definition resultsWithNonPreemptibleOverQuota ::
  "resource_consts \<Rightarrow> formats \<Rightarrow> float64 \<Rightarrow> (QueueID, QueueAttributes) gomap \<Rightarrow> ResourceQuantities \<Rightarrow> PodGroupInfo \<Rightarrow>
   SchedulableResult option" where
  "resultsWithNonPreemptibleOverQuota rc fm unl queues requestedShare job =
     (if IsPreemptibleJob job then Some Schedulable
      else map_option (case_option Schedulable id) (searchQueues queues (overQuotaResult rc fm unl requestedShare) (pg_Queue job)))"

subsection \<open>The checks of the session\<close>

definition getRequiredQuota :: "PodInfo list \<Rightarrow> int option \<Rightarrow> ResourceQuantities" where
  "getRequiredQuota tasksToAllocate maxNodeGPUMemory =
     fold (\<lambda>pod quota.
         let quantities = QuantifyVector (ResReqVector pod) (VectorMap pod);
             quota1 = quota(CpuResource := quota CpuResource + quantities CpuResource);
             quota2 = quota1(MemoryResource := quota1 MemoryResource + quantities MemoryResource)
         in if IsGpuMemoryRequest pod
            then (case maxNodeGPUMemory of
                    None \<Rightarrow> quota2
                  | Some mem \<Rightarrow> quota2(GpuResource := quota2 GpuResource + GpuMemoryAsGpuFraction (GpuRequirement pod) mem))
            else quota2(GpuResource := quota2 GpuResource + quantities GpuResource))
       tasksToAllocate EmptyResourceQuantities"

definition coreRequiredQuota :: "ResourceQuantities \<Rightarrow> PodGroupInfo \<Rightarrow> ResourceQuantities" where
  "coreRequiredQuota requestedShare job =
     (if IsSemiPreemptibleJob job \<and> Job_IsMinRequirementSatisfied job then EmptyResourceQuantities else requestedShare)"

text \<open>The limit check followed, if it passes, by the quota check: the common part of the two callers.\<close>

definition overCapacity ::
  "resource_consts \<Rightarrow> formats \<Rightarrow> float64 \<Rightarrow> (QueueID, QueueAttributes) gomap \<Rightarrow> ResourceQuantities \<Rightarrow> PodGroupInfo \<Rightarrow>
   SchedulableResult option" where
  "overCapacity rc fm unl queues requestedShare job =
     Option.bind (resultsOverLimit rc fm unl queues requestedShare job) (\<lambda>result.
       if \<not> IsSchedulable result then Some result
       else resultsWithNonPreemptibleOverQuota rc fm unl queues (coreRequiredQuota requestedShare job) job)"

record CapacityPolicy =
  cp_queues :: "(QueueID, QueueAttributes) gomap"
  maxNodeGPUMemoryMiB :: "int option"

definition IsJobOverQueueCapacity ::
  "resource_consts \<Rightarrow> formats \<Rightarrow> float64 \<Rightarrow> CapacityPolicy \<Rightarrow> PodGroupInfo \<Rightarrow> PodInfo list \<Rightarrow> SchedulableResult option" where
  "IsJobOverQueueCapacity rc fm unl cp job tasksToAllocate =
     overCapacity rc fm unl (cp_queues cp) (getRequiredQuota tasksToAllocate (maxNodeGPUMemoryMiB cp)) job"

definition IsNonPreemptibleJobOverQuota ::
  "resource_consts \<Rightarrow> formats \<Rightarrow> float64 \<Rightarrow> CapacityPolicy \<Rightarrow> PodGroupInfo \<Rightarrow> PodInfo list \<Rightarrow> SchedulableResult option" where
  "IsNonPreemptibleJobOverQuota rc fm unl cp job tasksToAllocate =
     resultsWithNonPreemptibleOverQuota rc fm unl (cp_queues cp)
       (coreRequiredQuota (getRequiredQuota tasksToAllocate (maxNodeGPUMemoryMiB cp)) job) job"

subsection \<open>What a check means for one queue\<close>

definition withinLimit :: "float64 \<Rightarrow> ResourceQuantities \<Rightarrow> QueueAttributes \<Rightarrow> bool" where
  "withinLimit unl req q \<longleftrightarrow> (\<forall>r. maxAllowed (queue_share q r) = unl \<or> req r = 0 \<or>
     allocated (queue_share q r) + req r \<le> maxAllowed (queue_share q r) + floatComparisonTolerance)"

definition withinQuota :: "float64 \<Rightarrow> ResourceQuantities \<Rightarrow> QueueAttributes \<Rightarrow> bool" where
  "withinQuota unl req q \<longleftrightarrow> (\<forall>r. deserved (queue_share q r) = unl \<or> req r = 0 \<or>
     allocatedNotPreemptible (queue_share q r) + req r \<le> deserved (queue_share q r) + floatComparisonTolerance)"

lemma find_AllResources: "find P AllResources = None \<longleftrightarrow> (\<forall>r. \<not> P r)"
  by (simp add: AllResources_def all_resources)

lemma isOverLimit_None: "isOverLimit unl q req = None \<longleftrightarrow> withinLimit unl req q"
  by (auto simp: isOverLimit_def find_AllResources withinLimit_def Let_def LessOrEqualWithTolerance_iff)

lemma isAllocatedNonPreemptibleOverQuota_None: "isAllocatedNonPreemptibleOverQuota unl q req = None \<longleftrightarrow> withinQuota unl req q"
  by (auto simp: isAllocatedNonPreemptibleOverQuota_def find_AllResources withinQuota_def Let_def LessOrEqualWithTolerance_iff)

lemma overLimitResult_None: "overLimitResult rc fm unl req job q = None \<longleftrightarrow> withinLimit unl req q"
  by (simp add: overLimitResult_def isOverLimit_None [symmetric] Let_def split: option.splits)

lemma overQuotaResult_None: "overQuotaResult rc fm unl req q = None \<longleftrightarrow> withinQuota unl req q"
  by (simp add: overQuotaResult_def isAllocatedNonPreemptibleOverQuota_None [symmetric] Let_def split: option.splits)

lemma results_not_schedulable:
  "overLimitResult rc fm unl req job q = Some res \<Longrightarrow> \<not> IsSchedulable res \<and> Reason res = Some OverLimit"
  "overQuotaResult rc fm unl req q = Some res \<Longrightarrow> \<not> IsSchedulable res \<and> Reason res = Some NonPreemptibleOverQuota"
  by (auto simp: overLimitResult_def overQuotaResult_def Let_def split: option.splits)

subsection \<open>Admission\<close>

definition quotaOk :: "float64 \<Rightarrow> ResourceQuantities \<Rightarrow> PodGroupInfo \<Rightarrow> QueueAttributes \<Rightarrow> bool" where
  "quotaOk unl req job q \<longleftrightarrow> IsPreemptibleJob job \<or> withinQuota unl (coreRequiredQuota req job) q"

lemma resultsOverLimit_spec:
  assumes "queue_chain (queueParents queues) (pg_Queue job) ps"
  shows "\<exists>res. resultsOverLimit rc fm unl queues req job = Some res \<and>
    (IsSchedulable res \<longleftrightarrow> (\<forall>q \<in> set (chainQueues queues ps). withinLimit unl req q)) \<and>
    (\<not> IsSchedulable res \<longrightarrow> (\<exists>lower q upper. chainQueues queues ps = lower @ q # upper \<and>
       (\<forall>p \<in> set lower. withinLimit unl req p) \<and> overLimitResult rc fm unl req job q = Some res))"
proof (cases "searchQueues queues (overLimitResult rc fm unl req job) (pg_Queue job)")
  case None
  then show ?thesis using searchQueues_chain [OF assms, of "overLimitResult rc fm unl req job"] by simp
next
  case (Some found)
  show ?thesis
  proof (cases found)
    case None
    then show ?thesis using Some searchQueues_None [OF assms, of "overLimitResult rc fm unl req job"]
      by (simp add: resultsOverLimit_def overLimitResult_None Schedulable_def)
  next
    case (Some res)
    note first = searchQueues_first [OF assms \<open>searchQueues _ _ _ = Some found\<close> [unfolded Some]]
    then have "\<exists>q \<in> set (chainQueues queues ps). \<not> withinLimit unl req q"
      by (metis in_set_conv_decomp option.distinct(1) overLimitResult_None)
    then show ?thesis
      using first results_not_schedulable(1) Some \<open>searchQueues _ _ _ = Some found\<close> by (auto simp: resultsOverLimit_def overLimitResult_None)
  qed
qed

lemma resultsOverQuota_spec:
  assumes "queue_chain (queueParents queues) (pg_Queue job) ps" and "\<not> IsPreemptibleJob job"
  shows "\<exists>res. resultsWithNonPreemptibleOverQuota rc fm unl queues req job = Some res \<and>
    (IsSchedulable res \<longleftrightarrow> (\<forall>q \<in> set (chainQueues queues ps). withinQuota unl req q)) \<and>
    (\<not> IsSchedulable res \<longrightarrow> (\<exists>lower q upper. chainQueues queues ps = lower @ q # upper \<and>
       (\<forall>p \<in> set lower. withinQuota unl req p) \<and> overQuotaResult rc fm unl req q = Some res))"
proof (cases "searchQueues queues (overQuotaResult rc fm unl req) (pg_Queue job)")
  case None
  then show ?thesis using searchQueues_chain [OF assms(1), of "overQuotaResult rc fm unl req"] by simp
next
  case (Some found)
  show ?thesis
  proof (cases found)
    case None
    then show ?thesis using Some assms(2) searchQueues_None [OF assms(1), of "overQuotaResult rc fm unl req"]
      by (simp add: resultsWithNonPreemptibleOverQuota_def overQuotaResult_None Schedulable_def)
  next
    case (Some res)
    note first = searchQueues_first [OF assms(1) \<open>searchQueues _ _ _ = Some found\<close> [unfolded Some]]
    then have "\<exists>q \<in> set (chainQueues queues ps). \<not> withinQuota unl req q"
      by (metis in_set_conv_decomp option.distinct(1) overQuotaResult_None)
    then show ?thesis
      using first results_not_schedulable(2) Some assms(2) \<open>searchQueues _ _ _ = Some found\<close>
      by (auto simp: resultsWithNonPreemptibleOverQuota_def overQuotaResult_None)
  qed
qed

text \<open>Admission by both checks, and the reason of a rejection.\<close>

lemma overCapacity_spec:
  assumes "queue_chain (queueParents queues) (pg_Queue job) ps"
  shows "\<exists>res. overCapacity rc fm unl queues req job = Some res \<and>
    (IsSchedulable res \<longleftrightarrow> (\<forall>q \<in> set (chainQueues queues ps). withinLimit unl req q \<and> quotaOk unl req job q)) \<and>
    (\<not> IsSchedulable res \<longrightarrow> (\<exists>lower q upper. chainQueues queues ps = lower @ q # upper \<and>
       ((\<forall>p \<in> set lower. withinLimit unl req p) \<and> overLimitResult rc fm unl req job q = Some res \<or>
        (\<forall>p \<in> set (chainQueues queues ps). withinLimit unl req p) \<and> (\<forall>p \<in> set lower. quotaOk unl req job p) \<and>
          overQuotaResult rc fm unl (coreRequiredQuota req job) q = Some res)))"
proof -
  obtain res where res: "resultsOverLimit rc fm unl queues req job = Some res"
    "IsSchedulable res \<longleftrightarrow> (\<forall>q \<in> set (chainQueues queues ps). withinLimit unl req q)"
    "\<not> IsSchedulable res \<Longrightarrow> \<exists>lower q upper. chainQueues queues ps = lower @ q # upper \<and>
       (\<forall>p \<in> set lower. withinLimit unl req p) \<and> overLimitResult rc fm unl req job q = Some res"
    using resultsOverLimit_spec [OF assms] by blast
  show ?thesis
  proof (cases "IsSchedulable res")
    case False
    then show ?thesis using res by (auto simp: overCapacity_def)
  next
    case ok: True
    show ?thesis
    proof (cases "IsPreemptibleJob job")
      case True
      then show ?thesis using ok res(1,2) by (simp add: overCapacity_def resultsWithNonPreemptibleOverQuota_def quotaOk_def Schedulable_def)
    next
      case False
      then have q: "quotaOk unl req job q \<longleftrightarrow> withinQuota unl (coreRequiredQuota req job) q" for q by (simp add: quotaOk_def)
      have "overCapacity rc fm unl queues req job = resultsWithNonPreemptibleOverQuota rc fm unl queues (coreRequiredQuota req job) job"
        using ok res(1) by (simp add: overCapacity_def)
      then show ?thesis using ok res(2) resultsOverQuota_spec [OF assms False, of rc fm unl "coreRequiredQuota req job"]
        unfolding q by metis
    qed
  qed
qed

text \<open>C17. A job is admitted exactly if, with the quota its tasks need, its queue and every queue above it stay
  within their limits and, unless the job is preemptible or a satisfied semi-preemptible job that only bursts,
  within the quota they deserve for allocations that are not preemptible. A rejection carries the reason
  and the id of the lowest queue that would be exceeded, and limits are reported before quotas.\<close>

theorem capacity_admission:
  fixes cp job tasks
  assumes "queue_chain (queueParents (cp_queues cp)) (pg_Queue job) ps"
  defines "req \<equiv> getRequiredQuota tasks (maxNodeGPUMemoryMiB cp)" and "chain \<equiv> chainQueues (cp_queues cp) ps"
  shows "\<exists>res. IsJobOverQueueCapacity rc fm unl cp job tasks = Some res \<and>
    (IsSchedulable res \<longleftrightarrow> (\<forall>q \<in> set chain. withinLimit unl req q \<and> quotaOk unl req job q)) \<and>
    (\<not> IsSchedulable res \<longrightarrow> (\<exists>lower q upper. chain = lower @ q # upper \<and> map_option details_Name (Details res) = Some (UID q) \<and>
       (Reason res = Some OverLimit \<and> \<not> withinLimit unl req q \<and> (\<forall>p \<in> set lower. withinLimit unl req p) \<or>
        Reason res = Some NonPreemptibleOverQuota \<and> \<not> quotaOk unl req job q \<and> (\<forall>p \<in> set lower. quotaOk unl req job p) \<and>
          (\<forall>p \<in> set chain. withinLimit unl req p))))"
proof -
  have names: "overLimitResult rc fm unl req job q = Some res \<Longrightarrow> map_option details_Name (Details res) = Some (UID q) \<and> \<not> withinLimit unl req q"
    "overQuotaResult rc fm unl r q = Some res \<Longrightarrow> map_option details_Name (Details res) = Some (UID q) \<and> \<not> withinQuota unl r q" for q res r
    using overLimitResult_None [of rc fm unl req job q] overQuotaResult_None [of rc fm unl r q]
    by (auto simp: overLimitResult_def overQuotaResult_def queueDetails_def Let_def split: option.splits)
  obtain res where res: "IsJobOverQueueCapacity rc fm unl cp job tasks = Some res"
    "IsSchedulable res \<longleftrightarrow> (\<forall>q \<in> set chain. withinLimit unl req q \<and> quotaOk unl req job q)"
    "\<not> IsSchedulable res \<Longrightarrow> \<exists>lower q upper. chain = lower @ q # upper \<and>
       ((\<forall>p \<in> set lower. withinLimit unl req p) \<and> overLimitResult rc fm unl req job q = Some res \<or>
        (\<forall>p \<in> set chain. withinLimit unl req p) \<and> (\<forall>p \<in> set lower. quotaOk unl req job p) \<and>
          overQuotaResult rc fm unl (coreRequiredQuota req job) q = Some res)"
    using overCapacity_spec [OF assms(1), of rc fm unl req] unfolding IsJobOverQueueCapacity_def req_def chain_def by blast
  have preempt: "\<not> quotaOk unl req job q" if "\<not> IsSchedulable res" "\<forall>p \<in> set chain. withinLimit unl req p"
    "overQuotaResult rc fm unl (coreRequiredQuota req job) q = Some res" for q
    using that res(2) names(2) [OF that(3)] unfolding quotaOk_def by blast
  show ?thesis
  proof (intro exI [of _ res] conjI impI)
    show "IsJobOverQueueCapacity rc fm unl cp job tasks = Some res" by (rule res)
    show "IsSchedulable res \<longleftrightarrow> (\<forall>q \<in> set chain. withinLimit unl req q \<and> quotaOk unl req job q)" by (rule res)
    assume rejected: "\<not> IsSchedulable res"
    then obtain lower q upper where q: "chain = lower @ q # upper"
      "(\<forall>p \<in> set lower. withinLimit unl req p) \<and> overLimitResult rc fm unl req job q = Some res \<or>
        (\<forall>p \<in> set chain. withinLimit unl req p) \<and> (\<forall>p \<in> set lower. quotaOk unl req job p) \<and>
          overQuotaResult rc fm unl (coreRequiredQuota req job) q = Some res" using res(3) by blast
    have "map_option details_Name (Details res) = Some (UID q)" using q(2) names by blast
    moreover have "Reason res = Some OverLimit \<and> \<not> withinLimit unl req q \<and> (\<forall>p \<in> set lower. withinLimit unl req p) \<or>
        Reason res = Some NonPreemptibleOverQuota \<and> \<not> quotaOk unl req job q \<and> (\<forall>p \<in> set lower. quotaOk unl req job p) \<and>
          (\<forall>p \<in> set chain. withinLimit unl req p)"
      using q(2) names(1) results_not_schedulable preempt [OF rejected] by blast
    ultimately show "\<exists>lower q upper. chain = lower @ q # upper \<and> map_option details_Name (Details res) = Some (UID q) \<and>
       (Reason res = Some OverLimit \<and> \<not> withinLimit unl req q \<and> (\<forall>p \<in> set lower. withinLimit unl req p) \<or>
        Reason res = Some NonPreemptibleOverQuota \<and> \<not> quotaOk unl req job q \<and> (\<forall>p \<in> set lower. quotaOk unl req job p) \<and>
          (\<forall>p \<in> set chain. withinLimit unl req p))" using q(1) by blast
  qed
qed

definition exampleQueue :: "QueueID \<Rightarrow> QueueID \<Rightarrow> float64 \<Rightarrow> float64 \<Rightarrow> QueueAttributes" where
  "exampleQueue uid parent limitGpu usedGpu =
     \<lparr>UID = uid, QueueName = uid, DisplayName = '''', ParentQueue = parent, ChildQueues = [], CreationTimestamp = 0, Priority = 0,
      QShare = \<lparr>CPU = EmptyResource\<lparr>deserved := - 1, maxAllowed := - 1\<rparr>, Memory = EmptyResource\<lparr>deserved := - 1, maxAllowed := - 1\<rparr>,
        GPU = EmptyResource\<lparr>deserved := limitGpu, maxAllowed := limitGpu, allocated := usedGpu\<rparr>, lastDeservedShare = None, lastFairShare = None\<rparr>\<rparr>"

definition exampleQueues :: "(QueueID, QueueAttributes) gomap" where
  "exampleQueues = [(''team'', exampleQueue ''team'' ''org'' 8 2), (''org'', exampleQueue ''org'' '''' 3 3)]"

definition exampleFormats :: formats where
  "exampleFormats = \<lparr>FtoaWithDigits3 = (\<lambda>_. ''#''), fmt_v = (\<lambda>_. ''#'')\<rparr>"

definition exampleConsts :: resource_consts where
  "exampleConsts = \<lparr>ResourceCPU = ''cpu'', ResourceMemory = ''memory'', constants_GpuResource = ''nvidia.com/gpu'', ResourcePods = ''pods''\<rparr>"

lemma exampleQueues_chain: "queue_chain (queueParents exampleQueues) ''team'' [''team'', ''org'']"
  by (simp add: exampleQueues_def queueParents_def exampleQueue_def)

text \<open>A job of one task that asks for a whole GPU, in a queue with free GPUs below a full one.\<close>

definition exampleGpuTask :: PodInfo where
  "exampleGpuTask = (examplePod ''t'' Pending)\<lparr>ResReqVector := [0, 0, 1, 0], VectorMap := exampleVMap\<rparr>"

theorem capacity_admission_witness:
  "\<exists>res. IsJobOverQueueCapacity exampleConsts exampleFormats (- 1) \<lparr>cp_queues = exampleQueues, maxNodeGPUMemoryMiB = None\<rparr>
      ((emptyJob ''j'' exampleVMap)\<lparr>pg_Queue := ''team''\<rparr>) [exampleGpuTask] = Some res \<and> \<not> IsSchedulable res"
proof -
  let ?cp = "\<lparr>cp_queues = exampleQueues, maxNodeGPUMemoryMiB = None\<rparr>" and ?job = "(emptyJob ''j'' exampleVMap)\<lparr>pg_Queue := ''team''\<rparr>"
  have chain: "queue_chain (queueParents (cp_queues ?cp)) (pg_Queue ?job) [''team'', ''org'']" using exampleQueues_chain by simp
  have gpu: "getRequiredQuota [exampleGpuTask] None GpuResource = 1" by code_simp
  have "\<not> withinLimit (- 1) (getRequiredQuota [exampleGpuTask] None) (exampleQueue ''org'' '''' 3 3)"
    by (auto simp: withinLimit_def exampleQueue_def queue_share_def EmptyResource_def floatComparisonTolerance_def gpu intro!: exI [of _ GpuResource])
  moreover have "exampleQueue ''org'' '''' 3 3 \<in> set (chainQueues exampleQueues [''team'', ''org''])"
    by (simp add: chainQueues_def exampleQueues_def)
  ultimately show ?thesis
    using capacity_admission [OF chain, of exampleConsts exampleFormats "- 1" "[exampleGpuTask]"] by fastforce
qed



end
