(* ===== verification/Reclaimable.thy ===== *)
theory Reclaimable
  imports Capacity_Policy
begin

text \<open>
  Reclaiming resources from other queues: \<^verbatim>\<open>plugins/proportion/reclaimable\<close> and its \<^verbatim>\<open>strategies\<close>.

  \<open>None\<close> as the value of a function here means that the Go code does not return: it climbs a cycle of parents
  or dereferences a queue that is not in the map. The maps \<^verbatim>\<open>remainingResourcesMap\<close> and
  \<^verbatim>\<open>involvedResourcesByQueue\<close> are passed as state; the quantities in the former are shared objects in Go, so
  that a variable bound to an entry sees later changes of the entry, and the model reads the entry again at
  every use. A \<^verbatim>\<open>map[ResourceName]any\<close> is a set. The memo fields behind \<^verbatim>\<open>GetFairShare\<close> and \<^verbatim>\<open>GetDeservedShare\<close> are
  read through \<open>fst\<close>, as in \<open>Capacity_Policy\<close>.

  The theorems say what a granted reclaim guarantees, for every order in which the maps are visited, that
  the check returns on every well-formed hierarchy, that its answer may depend on that order, and how the
  victim filter relates to the strategies.
\<close>

subsection \<open>Strategies\<close>

definition FitsMaintainFairShare :: "float64 \<Rightarrow> QueueAttributes \<Rightarrow> ResourceQuantities \<Rightarrow> bool" where
  "FitsMaintainFairShare unl reclaimeeQueue reclaimeeRemainingShare \<longleftrightarrow>
     \<not> QuantitiesLessEqualAllocatable unl (QShare reclaimeeQueue) reclaimeeRemainingShare"

definition ReclaimerFitsDeservedQuota :: "float64 \<Rightarrow> ResourceVector \<Rightarrow> ResourceVectorMap \<Rightarrow> QueueAttributes \<Rightarrow> bool" where
  "ReclaimerFitsDeservedQuota unl reclaimerResources vectorMap reclaimerQueue \<longleftrightarrow>
     AllocatedPlusResourcesLessEqualDeserved unl (QShare reclaimerQueue) reclaimerResources (Some vectorMap)"

definition ReclaimeeExceedsDeservedQuota :: "float64 \<Rightarrow> QueueAttributes \<Rightarrow> ResourceQuantities \<Rightarrow> bool" where
  "ReclaimeeExceedsDeservedQuota unl reclaimeeQueue reclaimeeRemainingShare \<longleftrightarrow>
     \<not> Quantities_LessEqual unl reclaimeeRemainingShare (fst (GetDeservedShare (QShare reclaimeeQueue)))"

definition ReclaimerFitsReclaimByQueuePriority :: "bool \<Rightarrow> QueueAttributes \<Rightarrow> QueueAttributes \<Rightarrow> bool" where
  "ReclaimerFitsReclaimByQueuePriority queuePriorityInQuotaReclaimEnabled reclaimerQueue reclaimeeQueue \<longleftrightarrow>
     queuePriorityInQuotaReclaimEnabled \<and> Priority reclaimerQueue > Priority reclaimeeQueue"

datatype ReclaimStrategy = MaintainFairShareStrategy | GuaranteeDeservedQuotaStrategy | InQuotaQueuePriorityStrategy

fun strategy_Reclaimable ::
  "float64 \<Rightarrow> ReclaimStrategy \<Rightarrow> ResourceVector \<Rightarrow> ResourceVectorMap \<Rightarrow> QueueAttributes \<Rightarrow> QueueAttributes \<Rightarrow> ResourceQuantities \<Rightarrow> bool"
  where
  "strategy_Reclaimable unl MaintainFairShareStrategy reclaimerResources vectorMap reclaimerQueue reclaimeeQueue reclaimeeRemainingShare =
     FitsMaintainFairShare unl reclaimeeQueue reclaimeeRemainingShare"
| "strategy_Reclaimable unl GuaranteeDeservedQuotaStrategy reclaimerResources vectorMap reclaimerQueue reclaimeeQueue reclaimeeRemainingShare =
     (if \<not> ReclaimerFitsDeservedQuota unl reclaimerResources vectorMap reclaimerQueue then False
      else if \<not> ReclaimeeExceedsDeservedQuota unl reclaimeeQueue reclaimeeRemainingShare then False
      else True)"
| "strategy_Reclaimable unl InQuotaQueuePriorityStrategy reclaimerResources vectorMap reclaimerQueue reclaimeeQueue reclaimeeRemainingShare =
     (if Priority reclaimerQueue \<le> Priority reclaimeeQueue then False
      else ReclaimerFitsDeservedQuota unl reclaimerResources vectorMap reclaimerQueue)"

definition strategies :: "ReclaimStrategy list" where
  "strategies = [MaintainFairShareStrategy, GuaranteeDeservedQuotaStrategy]"

definition priorityLeadStrategies :: "ReclaimStrategy list" where
  "priorityLeadStrategies = strategies @ [InQuotaQueuePriorityStrategy]"

definition FitsReclaimStrategy ::
  "float64 \<Rightarrow> ResourceVector \<Rightarrow> ResourceVectorMap \<Rightarrow> QueueAttributes \<Rightarrow> QueueAttributes \<Rightarrow> ResourceQuantities \<Rightarrow> bool \<Rightarrow> bool" where
  "FitsReclaimStrategy unl reclaimerResources vectorMap reclaimerQueue reclaimeeQueue reclaimeeRemainingShare queuePriorityInQuotaReclaim =
     list_ex (\<lambda>strategy. strategy_Reclaimable unl strategy reclaimerResources vectorMap reclaimerQueue reclaimeeQueue reclaimeeRemainingShare)
       (if queuePriorityInQuotaReclaim then priorityLeadStrategies else strategies)"

subsection \<open>Levels\<close>

record ReclaimerInfo =
  ri_Name :: string
  ri_Namespace :: string
  ri_Queue :: QueueID
  RequiredResources :: ResourceVector
  ri_VectorMap :: ResourceVectorMap
  IsPreemptable :: bool

record Reclaimable =
  saturationMultiplier :: float64
  queuePriorityInQuotaReclaim :: bool

type_synonym QueueMap = "(QueueID, QueueAttributes) gomap"

definition appendHierarchyPath :: "QueueMap \<Rightarrow> QueueID \<Rightarrow> QueueAttributes list option" where
  "appendHierarchyPath queues queueId =
     map_option (\<lambda>v. case v of Inl path \<Rightarrow> rev path | Inr () \<Rightarrow> [])
       (parentWalk (\<lambda>_. map_of queues) ParentQueue (\<lambda>_ q path. Inl (path @ [q])) queueId [])"

text \<open>The loop over the two paths, root first: it stops at the first pair of distinct queues.\<close>

fun levelLoop :: "QueueAttributes list \<Rightarrow> QueueAttributes list \<Rightarrow> (QueueAttributes \<times> QueueAttributes) option \<Rightarrow>
    (QueueAttributes \<times> QueueAttributes) option" where
  "levelLoop (x # xs) (y # ys) cur = (if UID x \<noteq> UID y then Some (x, y) else levelLoop xs ys (Some (x, y)))"
| "levelLoop _ _ cur = cur"

text \<open>The inner \<open>None\<close> is the pair of nil pointers.\<close>

definition getLeveledQueues :: "QueueMap \<Rightarrow> QueueID \<Rightarrow> QueueID \<Rightarrow> (QueueAttributes \<times> QueueAttributes) option option" where
  "getLeveledQueues queues reclaimerQueueID reclaimeeQueueID =
     Option.bind (appendHierarchyPath queues reclaimerQueueID) (\<lambda>reclaimers.
       map_option (\<lambda>reclaimees. levelLoop reclaimers reclaimees None) (appendHierarchyPath queues reclaimeeQueueID))"

definition getInvolvedResourcesNames :: "ResourceVector list \<Rightarrow> ResourceName set" where
  "getInvolvedResourcesNames vecs =
     fold (\<lambda>vec involved.
         (if Get vec CPUIndex > 0 then {CpuResource} else {}) \<union> (if Get vec MemoryIndex > 0 then {MemoryResource} else {}) \<union>
         (if Get vec GPUIndex > 0 then {GpuResource} else {}) \<union> involved) vecs {}"

subsection \<open>Taking resources from the reclaimees\<close>

type_synonym RemainingMap = "(QueueID, ResourceQuantities) gomap"
type_synonym InvolvedMap = "(QueueID, ResourceName set) gomap"

text \<open>The entry of a queue, filled with the queue's allocation when it is missing; \<open>None\<close> if the id is unknown.\<close>

definition ensureRemaining :: "QueueMap \<Rightarrow> QueueID \<Rightarrow> RemainingMap \<Rightarrow> RemainingMap option" where
  "ensureRemaining queues uid remaining =
     (if map_of remaining uid \<noteq> None then Some remaining
      else map_option (\<lambda>q. AList.update uid (GetAllocatedShare (QShare q)) remaining) (map_of queues uid))"

definition subtractStep ::
  "QueueMap \<Rightarrow> QueueID \<Rightarrow> ResourceQuantities \<Rightarrow> QueueID \<Rightarrow> QueueAttributes \<Rightarrow> RemainingMap \<times> InvolvedMap \<Rightarrow> (RemainingMap \<times> InvolvedMap) + unit" where
  "subtractStep queues reclaimeeQueueID quota _ q = (\<lambda>(remaining, involved).
     case ensureRemaining queues (UID q) remaining of
       None \<Rightarrow> Inr ()
     | Some rem1 \<Rightarrow>
         let rem2 = AList.update (UID q) (Quantities_Sub (the (map_of rem1 (UID q))) quota) rem1;
             here = (case map_of involved reclaimeeQueueID of None \<Rightarrow> {} | Some s \<Rightarrow> s);
             involved' = (case map_of involved (UID q) of
                            Some s \<Rightarrow> AList.update (UID q) (s \<union> here) involved
                          | None \<Rightarrow> AList.update (UID q) here involved)
         in Inl (rem2, involved'))"

definition subtractReclaimedResources ::
  "QueueMap \<Rightarrow> QueueID \<Rightarrow> ResourceVector \<Rightarrow> ResourceVectorMap \<Rightarrow> RemainingMap \<times> InvolvedMap \<Rightarrow> (RemainingMap \<times> InvolvedMap) option" where
  "subtractReclaimedResources queues reclaimeeQueueID reclaimedResources vectorMap st =
     Option.bind (parentWalk (\<lambda>_. map_of queues) ParentQueue
         (subtractStep queues reclaimeeQueueID (QuantifyVector reclaimedResources vectorMap)) reclaimeeQueueID st)
       (\<lambda>v. case v of Inl st' \<Rightarrow> Some st' | Inr () \<Rightarrow> None)"

text \<open>The loop over the reclaimees of one queue. The inner \<open>None\<close> is the answer \<^verbatim>\<open>false\<close>.\<close>

fun takeReclaimees ::
  "float64 \<Rightarrow> Reclaimable \<Rightarrow> QueueMap \<Rightarrow> ReclaimerInfo \<Rightarrow> QueueID \<Rightarrow> QueueAttributes \<Rightarrow> QueueAttributes \<Rightarrow> ResourceVector list \<Rightarrow>
   RemainingMap \<times> InvolvedMap \<Rightarrow> (RemainingMap \<times> InvolvedMap) option option" where
  "takeReclaimees unl r queues reclaimer reclaimeeQueueID reclaimerQueue reclaimeeQueue [] st = Some (Some st)"
| "takeReclaimees unl r queues reclaimer reclaimeeQueueID reclaimerQueue reclaimeeQueue (vec # vecs) st =
     (if \<not> FitsReclaimStrategy unl (RequiredResources reclaimer) (ri_VectorMap reclaimer) reclaimerQueue reclaimeeQueue
           (the (map_of (fst st) (UID reclaimeeQueue))) (queuePriorityInQuotaReclaim r)
      then Some None
      else Option.bind (subtractReclaimedResources queues reclaimeeQueueID vec (ri_VectorMap reclaimer) st)
             (takeReclaimees unl r queues reclaimer reclaimeeQueueID reclaimerQueue reclaimeeQueue vecs))"

fun reclaimLoop ::
  "float64 \<Rightarrow> Reclaimable \<Rightarrow> QueueMap \<Rightarrow> ReclaimerInfo \<Rightarrow> (QueueID, ResourceVector list) gomap \<Rightarrow>
   RemainingMap \<times> InvolvedMap \<Rightarrow> (RemainingMap \<times> InvolvedMap) option option" where
  "reclaimLoop unl r queues reclaimer [] st = Some (Some st)"
| "reclaimLoop unl r queues reclaimer ((reclaimeeQueueID, vecs) # rest) (remaining, involved) =
     Option.bind (getLeveledQueues queues (ri_Queue reclaimer) reclaimeeQueueID) (\<lambda>levels.
       case levels of
         None \<Rightarrow> None
       | Some (reclaimerQueue, reclaimeeQueue) \<Rightarrow>
           Option.bind (ensureRemaining queues (UID reclaimeeQueue) remaining) (\<lambda>remaining'.
             Option.bind (takeReclaimees unl r queues reclaimer reclaimeeQueueID reclaimerQueue reclaimeeQueue vecs
                 (remaining', AList.update reclaimeeQueueID (getInvolvedResourcesNames vecs) involved)) (\<lambda>taken.
               case taken of
                 None \<Rightarrow> Some None
               | Some st' \<Rightarrow> reclaimLoop unl r queues reclaimer rest st')))"

definition reclaimResourcesFromReclaimees ::
  "float64 \<Rightarrow> Reclaimable \<Rightarrow> QueueMap \<Rightarrow> ReclaimerInfo \<Rightarrow> (QueueID, ResourceVector list) gomap \<Rightarrow>
   (RemainingMap \<times> InvolvedMap) option option" where
  "reclaimResourcesFromReclaimees unl r queues reclaimer reclaimeesResourcesByQueue =
     reclaimLoop unl r queues reclaimer reclaimeesResourcesByQueue ([], [])"

subsection \<open>The boundaries of the reclaiming queues\<close>

definition fairShareSaturationRatio :: "float64 \<Rightarrow> float64 \<Rightarrow> float64 \<Rightarrow> fval" where
  "fairShareSaturationRatio unl alloc fair =
     (if fair = 0 then (if alloc > 0 then PInf else Fin 0)
      else if fair = unl then Fin 0
      else Fin (alloc / fair))"

fun fscale :: "fval \<Rightarrow> float64 \<Rightarrow> fval" where
  "fscale (Fin x) m = Fin (x * m)"
| "fscale PInf m = (if m > 0 then PInf else if m < 0 then NInf else NaN)"
| "fscale NInf m = (if m > 0 then NInf else if m < 0 then PInf else NaN)"
| "fscale NaN m = NaN"

definition fge :: "fval \<Rightarrow> fval \<Rightarrow> bool" where
  "fge x y \<longleftrightarrow> fless y x \<or> (x = y \<and> x \<noteq> NaN)"

definition isFairShareSaturationLowerPerResource ::
  "float64 \<Rightarrow> Reclaimable \<Rightarrow> ResourceName set \<Rightarrow> ResourceQuantities \<Rightarrow> ResourceQuantities \<Rightarrow> ResourceQuantities \<Rightarrow> ResourceQuantities \<Rightarrow> bool"
  where
  "isFairShareSaturationLowerPerResource unl r involvedResources reclaimerAllocated reclaimerFair siblingAlloc siblingFair \<longleftrightarrow>
     (\<forall>resource \<in> involvedResources.
        if reclaimerFair resource = unl \<and> siblingFair resource = unl then True
        else let ratioReclaimer = fairShareSaturationRatio unl (reclaimerAllocated resource) (reclaimerFair resource);
                 ratioSibling = fairShareSaturationRatio unl (siblingAlloc resource) (siblingFair resource)
             in \<not> (fless (Fin 1) ratioReclaimer \<and> siblingFair resource > 0 \<and> fge (fscale ratioReclaimer (saturationMultiplier r)) ratioSibling))"

text \<open>The loop over the siblings with remaining resources: \<open>None\<close> if it does not return, else its verdict.\<close>

fun siblingLoop ::
  "float64 \<Rightarrow> Reclaimable \<Rightarrow> QueueMap \<Rightarrow> InvolvedMap \<Rightarrow> ResourceName set \<Rightarrow> QueueAttributes \<Rightarrow> ResourceQuantities \<Rightarrow> RemainingMap \<Rightarrow>
   QueueID list \<Rightarrow> bool option" where
  "siblingLoop unl r queues involved reclaimerInvolved reclaimingQueue current remaining [] = Some True"
| "siblingLoop unl r queues involved reclaimerInvolved reclaimingQueue current remaining (siblingID # rest) =
     (case map_of queues siblingID of
        None \<Rightarrow> None
      | Some sibling \<Rightarrow>
          if ParentQueue sibling \<noteq> ParentQueue reclaimingQueue \<or> UID sibling = UID reclaimingQueue
          then siblingLoop unl r queues involved reclaimerInvolved reclaimingQueue current remaining rest
          else if map_of involved siblingID = None \<and> reclaimerInvolved \<noteq> {} then None
          else (let siblingRemaining = (case map_of remaining (UID sibling) of
                        Some q \<Rightarrow> q | None \<Rightarrow> GetAllocatedShare (QShare sibling));
                    involvedResources = (case map_of involved siblingID of None \<Rightarrow> {} | Some s \<Rightarrow> s) \<union> reclaimerInvolved
                in if \<not> isFairShareSaturationLowerPerResource unl r involvedResources current (fst (GetFairShare (QShare reclaimingQueue)))
                        siblingRemaining (fst (GetFairShare (QShare sibling)))
                   then Some False
                   else siblingLoop unl r queues involved reclaimerInvolved reclaimingQueue current remaining rest))"

definition boundaryStep ::
  "float64 \<Rightarrow> Reclaimable \<Rightarrow> QueueMap \<Rightarrow> ReclaimerInfo \<Rightarrow> InvolvedMap \<Rightarrow> QueueID \<Rightarrow> QueueAttributes \<Rightarrow> RemainingMap \<Rightarrow>
   RemainingMap + bool option" where
  "boundaryStep unl r queues reclaimer involved _ reclaimingQueue remaining =
     (let requestedQuota = QuantifyVector (RequiredResources reclaimer) (ri_VectorMap reclaimer);
          reclaimerInvolved = getInvolvedResourcesNames [RequiredResources reclaimer];
          (current, remaining') =
            (case map_of remaining (UID reclaimingQueue) of
               Some q \<Rightarrow> (Quantities_Add q requestedQuota, AList.update (UID reclaimingQueue) (Quantities_Add q requestedQuota) remaining)
             | None \<Rightarrow> (Quantities_Add (GetAllocatedShare (QShare reclaimingQueue)) requestedQuota, remaining))
      in case siblingLoop unl r queues involved reclaimerInvolved reclaimingQueue current remaining' (gokeys remaining') of
           None \<Rightarrow> Inr None
         | Some False \<Rightarrow> Inr (Some False)
         | Some True \<Rightarrow>
             if IsPreemptable reclaimer then Inl remaining'
             else if \<not> Quantities_LessEqual unl (Quantities_Add (GetAllocatedNonPreemptible (QShare reclaimingQueue)) requestedQuota)
                       (fst (GetDeservedShare (QShare reclaimingQueue)))
             then Inr (Some False)
             else Inl remaining')"

definition reclaimingQueuesRemainWithinBoundaries ::
  "float64 \<Rightarrow> Reclaimable \<Rightarrow> QueueMap \<Rightarrow> ReclaimerInfo \<Rightarrow> RemainingMap \<Rightarrow> InvolvedMap \<Rightarrow> bool option" where
  "reclaimingQueuesRemainWithinBoundaries unl r queues reclaimer remaining involved =
     Option.bind (parentWalk (\<lambda>_. map_of queues) ParentQueue (boundaryStep unl r queues reclaimer involved) (ri_Queue reclaimer) remaining)
       (\<lambda>v. case v of Inl _ \<Rightarrow> Some True | Inr ans \<Rightarrow> ans)"

subsection \<open>The operations of the plugin\<close>

definition CanReclaimResources :: "float64 \<Rightarrow> QueueMap \<Rightarrow> ReclaimerInfo \<Rightarrow> bool option" where
  "CanReclaimResources unl queues reclaimer =
     (case map_of queues (ri_Queue reclaimer) of
        None \<Rightarrow> None
      | Some reclaimerQueue \<Rightarrow>
          (let requestedResources = QuantifyVector (RequiredResources reclaimer) (ri_VectorMap reclaimer);
               share = QShare reclaimerQueue
           in Some (
                if \<not> Quantities_LessEqual unl (Quantities_Add (GetAllocatedShare share) requestedResources) (fst (GetFairShare share)) then False
                else if IsPreemptable reclaimer then True
                else if \<not> Quantities_LessEqual unl (Quantities_Add (GetAllocatedNonPreemptible share) requestedResources) (fst (GetDeservedShare share))
                then False
                else True)))"

definition Reclaimable_Reclaimable ::
  "float64 \<Rightarrow> Reclaimable \<Rightarrow> QueueMap \<Rightarrow> ReclaimerInfo \<Rightarrow> (QueueID, ResourceVector list) gomap \<Rightarrow> bool option" where
  "Reclaimable_Reclaimable unl r queues reclaimer reclaimeeResourcesByQueue =
     Option.bind (reclaimResourcesFromReclaimees unl r queues reclaimer reclaimeeResourcesByQueue) (\<lambda>taken.
       case taken of
         None \<Rightarrow> Some False
       | Some (remaining, involved) \<Rightarrow> reclaimingQueuesRemainWithinBoundaries unl r queues reclaimer remaining involved)"

fun candidateLoop :: "float64 \<Rightarrow> ReclaimerInfo \<Rightarrow> QueueAttributes \<Rightarrow> ResourceName list \<Rightarrow> bool \<Rightarrow> bool" where
  "candidateLoop unl reclaimer reclaimeeQueue [] hasUnderDeservedResource = (\<not> hasUnderDeservedResource)"
| "candidateLoop unl reclaimer reclaimeeQueue (resource # rest) hasUnderDeservedResource =
     (if ResourceQuantityFromVector resource (RequiredResources reclaimer) (Some (ri_VectorMap reclaimer)) \<le> 0
      then candidateLoop unl reclaimer reclaimeeQueue rest hasUnderDeservedResource
      else let share = queue_share reclaimeeQueue resource
           in if deserved share = unl then candidateLoop unl reclaimer reclaimeeQueue rest hasUnderDeservedResource
              else if allocated share > deserved share then True
              else candidateLoop unl reclaimer reclaimeeQueue rest (hasUnderDeservedResource \<or> allocated share < deserved share))"

definition canBeDeservedQuotaReclaimCandidate :: "float64 \<Rightarrow> ReclaimerInfo \<Rightarrow> QueueAttributes \<Rightarrow> bool" where
  "canBeDeservedQuotaReclaimCandidate unl reclaimer reclaimeeQueue = candidateLoop unl reclaimer reclaimeeQueue AllResources False"

definition FilterVictim :: "float64 \<Rightarrow> Reclaimable \<Rightarrow> QueueMap \<Rightarrow> ReclaimerInfo option \<Rightarrow> QueueID \<Rightarrow> bool option" where
  "FilterVictim unl r queues reclaimero reclaimeeQueueID =
     (case reclaimero of
        None \<Rightarrow> Some True
      | Some reclaimer \<Rightarrow>
          Option.bind (getLeveledQueues queues (ri_Queue reclaimer) reclaimeeQueueID) (\<lambda>levels. Some (
            case levels of
              None \<Rightarrow> True
            | Some (reclaimerQueue, reclaimeeQueue) \<Rightarrow>
                if \<not> ReclaimerFitsDeservedQuota unl (RequiredResources reclaimer) (ri_VectorMap reclaimer) reclaimerQueue
                then FitsMaintainFairShare unl reclaimeeQueue (GetAllocatedShare (QShare reclaimeeQueue))
                else if ReclaimerFitsReclaimByQueuePriority (queuePriorityInQuotaReclaim r) reclaimerQueue reclaimeeQueue then True
                else canBeDeservedQuotaReclaimCandidate unl reclaimer reclaimeeQueue)))"

subsection \<open>Paths\<close>

text \<open>A hierarchy as the plugin builds it: keyed by the ids of the queues, with parents that do not form a cycle.\<close>

definition wf_queues :: "QueueMap \<Rightarrow> bool" where
  "wf_queues queues \<longleftrightarrow> (\<forall>u q. map_of queues u = Some q \<longrightarrow> UID q = u) \<and> (\<forall>u. grounded (queueParents queues) u)"

definition ancestorIDs :: "QueueMap \<Rightarrow> QueueID \<Rightarrow> QueueID list" where
  "ancestorIDs queues u = (case appendHierarchyPath queues u of None \<Rightarrow> [] | Some path \<Rightarrow> map UID path)"

interpretation path: parent_walk "\<lambda>_ :: QueueAttributes list. map_of queues" ParentQueue
  "\<lambda>_ q path. Inl (path @ [q]) :: QueueAttributes list + unit" "\<lambda>_. True" "queueParents queues" for queues
  by unfold_locales (simp_all add: queueParents_def)

lemma queue_chain_queueParents:
  "queue_chain (queueParents queues) u (p # ps) \<longleftrightarrow>
   p = u \<and> (\<exists>q. map_of queues u = Some q \<and> queue_chain (queueParents queues) (ParentQueue q) ps)"
  by (cases "map_of queues u") (simp_all add: queueParents_def [of queues u])

lemma appendHierarchyPath_chain:
  assumes "queue_chain (queueParents queues) u ps"
  shows "appendHierarchyPath queues u = Some (rev (chainQueues queues ps))"
proof -
  have "walkChain (\<lambda>_. map_of queues) (\<lambda>_ q path. Inl (path @ [q]) :: QueueAttributes list + unit) ps acc = Inl (acc @ chainQueues queues ps)"
    if "set ps \<subseteq> dom (queueParents queues)" for ps acc
    using that by (induction ps arbitrary: acc) (auto simp: chainQueues_def queueParents_def)
  then show ?thesis
    unfolding appendHierarchyPath_def path.walk_chain [OF assms TrueI] using queue_chain_dom [OF assms] by simp
qed

lemma wf_queues_chain: "wf_queues queues \<Longrightarrow> \<exists>ps. queue_chain (queueParents queues) u ps"
  by (simp add: wf_queues_def grounded_def)

lemma chain_UIDs:
  assumes "wf_queues queues" and "queue_chain (queueParents queues) u ps"
  shows "map UID (chainQueues queues ps) = ps" "ancestorIDs queues u = rev ps" "\<And>p. p \<in> set ps \<Longrightarrow> \<exists>q. map_of queues p = Some q"
proof -
  show known: "\<And>p. p \<in> set ps \<Longrightarrow> \<exists>q. map_of queues p = Some q"
    using queue_chain_dom [OF assms(2)] by (auto simp: queueParents_def dom_def)
  show "map UID (chainQueues queues ps) = ps"
    using known assms(1) by (auto simp: chainQueues_def wf_queues_def comp_def intro!: map_idI)
  then show "ancestorIDs queues u = rev ps" by (simp add: ancestorIDs_def appendHierarchyPath_chain [OF assms(2)] rev_map [symmetric])
qed

lemma ancestorIDs_known: "wf_queues queues \<Longrightarrow> x \<in> set (ancestorIDs queues u) \<Longrightarrow> \<exists>q. map_of queues x = Some q"
  using wf_queues_chain [of queues u] chain_UIDs [of queues u] by auto

subsection \<open>Levels\<close>

lemma levelLoop_Some: "levelLoop xs ys cur = Some (x, y) \<Longrightarrow> cur = Some (x, y) \<or> x \<in> set xs \<and> y \<in> set ys"
  by (induction xs ys cur rule: levelLoop.induct) (auto split: if_splits)

lemma levelLoop_None: "levelLoop xs ys None = None \<longleftrightarrow> xs = [] \<or> ys = []"
proof -
  have "levelLoop xs ys (Some p) \<noteq> None" for p by (induction xs ys "Some p" arbitrary: p rule: levelLoop.induct) auto
  then show ?thesis by (cases xs; cases ys) auto
qed

lemma getLeveledQueues_wf:
  assumes "wf_queues queues"
  shows "\<exists>levels. getLeveledQueues queues a b = Some levels \<and> (levels = None \<longleftrightarrow> map_of queues a = None \<or> map_of queues b = None) \<and>
    (\<forall>x y. levels = Some (x, y) \<longrightarrow> UID x \<in> set (ancestorIDs queues a) \<and> UID y \<in> set (ancestorIDs queues b) \<and>
       map_of queues (UID x) = Some x \<and> map_of queues (UID y) = Some y)"
proof -
  obtain ps qs where ps: "queue_chain (queueParents queues) a ps" and qs: "queue_chain (queueParents queues) b qs"
    using wf_queues_chain [OF assms] by blast
  let ?xs = "rev (chainQueues queues ps)" and ?ys = "rev (chainQueues queues qs)"
  have lev: "getLeveledQueues queues a b = Some (levelLoop ?xs ?ys None)"
    by (simp add: getLeveledQueues_def appendHierarchyPath_chain [OF ps] appendHierarchyPath_chain [OF qs])
  have empty: "chainQueues queues qs = [] \<longleftrightarrow> map_of queues b = None" if "queue_chain (queueParents queues) b qs" for b qs
    using that by (cases qs) (auto simp: chainQueues_def queueParents_def split: option.splits)
  have mem: "UID x \<in> set (ancestorIDs queues b) \<and> map_of queues (UID x) = Some x"
    if "x \<in> set (chainQueues queues qs)" "queue_chain (queueParents queues) b qs" for x b qs
    using that chain_UIDs [OF assms that(2)] assms by (force simp: chainQueues_def wf_queues_def)
  show ?thesis
    unfolding lev using empty [OF ps] empty [OF qs] levelLoop_None [of ?xs ?ys] levelLoop_Some [of ?xs ?ys None] mem ps qs by auto
qed

text \<open>Two distinct queues on the first level where the paths differ are siblings, or two roots.\<close>

lemma levelLoop_siblings:
  "levelLoop xs ys cur = Some (x, y) \<Longrightarrow> UID x \<noteq> UID y \<Longrightarrow>
   successively (\<lambda>p c. ParentQueue c = UID p) xs \<Longrightarrow> successively (\<lambda>p c. ParentQueue c = UID p) ys \<Longrightarrow>
   (\<And>p q. cur = Some (p, q) \<Longrightarrow> UID p = UID q \<and> (xs \<noteq> [] \<longrightarrow> ParentQueue (hd xs) = UID p) \<and> (ys \<noteq> [] \<longrightarrow> ParentQueue (hd ys) = UID q)) \<Longrightarrow>
   ParentQueue x = ParentQueue y \<or> cur = None \<and> x = hd xs \<and> y = hd ys"
proof (induction xs ys cur rule: levelLoop.induct)
  case (1 a as b bs cur)
  show ?case
  proof (cases "UID a = UID b")
    case True
    then have lev: "levelLoop as bs (Some (a, b)) = Some (x, y)" using 1(2) by simp
    have sa: "successively (\<lambda>p c. ParentQueue c = UID p) as" "as \<noteq> [] \<longrightarrow> ParentQueue (hd as) = UID a"
      and sb: "successively (\<lambda>p c. ParentQueue c = UID p) bs" "bs \<noteq> [] \<longrightarrow> ParentQueue (hd bs) = UID b"
      using 1(4,5) by (auto simp: successively_Cons)
    have "ParentQueue x = ParentQueue y \<or> Some (a, b) = None \<and> x = hd as \<and> y = hd bs"
      by (rule 1(1) [OF _ lev 1(3) sa(1) sb(1)]) (use True sa(2) sb(2) in auto)
    then show ?thesis by simp
  next
    case False
    then have xy: "x = a" "y = b" using 1(2) by auto
    show ?thesis
    proof (cases cur)
      case (Some c)
      obtain p q where "c = (p, q)" by (cases c)
      with Some show ?thesis using 1(6) [of p q] xy by simp
    qed (simp add: xy)
  qed
next
  case "2_1"
  show ?case using "2_1"(1,2) "2_1"(5) [of x y] by simp
next
  case "2_2"
  show ?case using "2_2"(1,2) "2_2"(5) [of x y] by simp
qed

lemma chainQueues_linked:
  assumes "wf_queues queues" and "queue_chain (queueParents queues) u ps"
  shows "successively (\<lambda>p c. ParentQueue c = UID p) (rev (chainQueues queues ps)) \<and>
    (ps \<noteq> [] \<longrightarrow> map_of queues (ParentQueue (hd (rev (chainQueues queues ps)))) = None)"
  using assms(2)
proof (induction ps arbitrary: u)
  case (Cons p ps)
  obtain q where q: "map_of queues u = Some q" "queue_chain (queueParents queues) (ParentQueue q) ps" "p = u"
    using Cons.prems unfolding queue_chain_queueParents by auto
  have last: "ParentQueue q = UID (last (rev (chainQueues queues ps)))" if ne: "ps \<noteq> []"
  proof -
    obtain p' ps' where ps: "ps = p' # ps'" using ne by (cases ps) auto
    then have "p' = ParentQueue q" "\<exists>q'. map_of queues p' = Some q'" using q(2) unfolding ps queue_chain_queueParents by auto
    then show ?thesis using assms(1) ps by (auto simp: chainQueues_def wf_queues_def)
  qed
  show ?case
  proof (cases "ps = []")
    case True
    then show ?thesis using q by (simp add: chainQueues_def queueParents_def)
  next
    case False
    then show ?thesis using Cons.IH [OF q(2)] last q(1,3) by (simp add: chainQueues_def successively_append_iff hd_append)
  qed
qed (simp add: chainQueues_def)

text \<open>The reclaim check compares two queues on the same level: the lowest common level of the paths of the
  two queues below which they differ. Unless one queue is an ancestor of the other, the two are distinct siblings
  (or two roots), ancestors of or equal to the reclaimer's and the reclaimee's queue.\<close>

lemma leveled_queues_are_siblings:
  assumes "wf_queues queues" and "getLeveledQueues queues a b = Some (Some (x, y))"
  shows "UID x \<in> set (ancestorIDs queues a) \<and> UID y \<in> set (ancestorIDs queues b) \<and>
    (UID x \<noteq> UID y \<longrightarrow> ParentQueue x = ParentQueue y \<or> map_of queues (ParentQueue x) = None \<and> map_of queues (ParentQueue y) = None) \<and>
    (UID x = UID y \<longrightarrow> UID x = a \<or> UID y = b)"
proof -
  obtain ps qs where ps: "queue_chain (queueParents queues) a ps" and qs: "queue_chain (queueParents queues) b qs"
    using wf_queues_chain [OF assms(1)] by blast
  let ?xs = "rev (chainQueues queues ps)" and ?ys = "rev (chainQueues queues qs)"
  have lev: "levelLoop ?xs ?ys None = Some (x, y)"
    using assms(2) by (simp add: getLeveledQueues_def appendHierarchyPath_chain [OF ps] appendHierarchyPath_chain [OF qs])
  have "UID x \<in> set (ancestorIDs queues a) \<and> UID y \<in> set (ancestorIDs queues b)"
    using getLeveledQueues_wf [OF assms(1), of a b] assms(2) by auto
  moreover have "ParentQueue x = ParentQueue y \<or> map_of queues (ParentQueue x) = None \<and> map_of queues (ParentQueue y) = None" if "UID x \<noteq> UID y"
  proof -
    have "?xs \<noteq> []" "?ys \<noteq> []" using lev levelLoop_None [of ?xs ?ys] by auto
    then have "ps \<noteq> []" "qs \<noteq> []" by (auto simp: chainQueues_def)
    then show ?thesis
      using levelLoop_siblings [OF lev that conjunct1 [OF chainQueues_linked [OF assms(1) ps]] conjunct1 [OF chainQueues_linked [OF assms(1) qs]]]
        chainQueues_linked [OF assms(1) ps] chainQueues_linked [OF assms(1) qs] by auto
  qed
  moreover have "x = last ?xs \<or> y = last ?ys" if "UID x = UID y"
  proof -
    have "levelLoop xs ys cur = Some (x, y) \<Longrightarrow> cur = Some (x, y) \<and> (xs = [] \<or> ys = []) \<or> xs \<noteq> [] \<and> x = last xs \<or> ys \<noteq> [] \<and> y = last ys" for xs ys cur
      using that by (induction xs ys cur rule: levelLoop.induct) (auto split: if_splits)
    from this [OF lev] show ?thesis by auto
  qed
  moreover have "UID (last (rev (chainQueues queues ps))) = a" if "queue_chain (queueParents queues) a ps" "ps \<noteq> []" for a ps
    using that chain_UIDs [OF assms(1) that(1)] by (cases ps) (auto simp: chainQueues_def split: option.splits)
  moreover have "ps \<noteq> []" "qs \<noteq> []" using lev levelLoop_None [of ?xs ?ys] by (auto simp: chainQueues_def)
  ultimately show ?thesis using ps qs by metis
qed

subsection \<open>What remains after a reclaim\<close>

type_synonym takes = "(QueueID \<times> ResourceVector) list"

definition takesOf :: "(QueueID, ResourceVector list) gomap \<Rightarrow> takes" where
  "takesOf reclaimees = concat (map (\<lambda>(u, vecs). map (Pair u) vecs) reclaimees)"

text \<open>The reference: what the takes in a list leave of the allocation of a queue.\<close>

definition remainingAfter :: "QueueMap \<Rightarrow> ResourceVectorMap \<Rightarrow> takes \<Rightarrow> QueueID \<Rightarrow> ResourceQuantities" where
  "remainingAfter queues vectorMap taken u resource =
     GetAllocatedShare (QShare (the (map_of queues u))) resource -
     (\<Sum>(v, vec)\<leftarrow>taken. if u \<in> set (ancestorIDs queues v) then QuantifyVector vec vectorMap resource else 0)"

definition current :: "QueueMap \<Rightarrow> RemainingMap \<Rightarrow> QueueID \<Rightarrow> ResourceQuantities" where
  "current queues remaining u =
     (case map_of remaining u of Some q \<Rightarrow> q | None \<Rightarrow> GetAllocatedShare (QShare (the (map_of queues u))))"

lemma ensureRemaining_known:
  assumes "map_of queues u = Some q"
  shows "\<exists>rem'. ensureRemaining queues u remaining = Some rem' \<and> map_of rem' = (map_of remaining)(u \<mapsto> current queues remaining u)"
  using assms by (cases "map_of remaining u") (auto simp: ensureRemaining_def current_def)

lemma subtractStep_known:
  assumes "map_of queues u = Some q" and "UID q = u"
  shows "\<exists>rem' inv'. subtractStep queues v quota u q (remaining, involved) = Inl (rem', inv') \<and>
    map_of rem' = (map_of remaining)(u \<mapsto> Quantities_Sub (current queues remaining u) quota) \<and>
    dom (map_of inv') = insert u (dom (map_of involved))"
proof -
  obtain rem' where rem': "ensureRemaining queues u remaining = Some rem'" "map_of rem' = (map_of remaining)(u \<mapsto> current queues remaining u)"
    using ensureRemaining_known [OF assms(1)] by blast
  then show ?thesis using assms(2) by (auto simp: subtractStep_def Let_def split: option.splits)
qed

lemma subtract_walk:
  assumes "\<And>u q. map_of queues u = Some q \<Longrightarrow> UID q = u"
  shows "distinct ps \<Longrightarrow> (\<And>p. p \<in> set ps \<Longrightarrow> \<exists>q. map_of queues p = Some q) \<Longrightarrow>
    \<exists>rem' inv'. walkChain (\<lambda>_. map_of queues) (subtractStep queues v quota) ps (remaining, involved) = Inl (rem', inv') \<and>
      (\<forall>u. map_of rem' u = (if u \<in> set ps then Some (Quantities_Sub (current queues remaining u) quota) else map_of remaining u)) \<and>
      dom (map_of inv') = set ps \<union> dom (map_of involved)"
proof (induction ps arbitrary: remaining involved)
  case (Cons p ps)
  obtain q where q: "map_of queues p = Some q" using Cons.prems(2) [of p] by auto
  obtain rem1 inv1 where step: "subtractStep queues v quota p q (remaining, involved) = Inl (rem1, inv1)"
    "map_of rem1 = (map_of remaining)(p \<mapsto> Quantities_Sub (current queues remaining p) quota)" "dom (map_of inv1) = insert p (dom (map_of involved))"
    using subtractStep_known [OF q assms [OF q], of v quota remaining involved] by (elim exE conjE)
  have cur: "current queues rem1 u = current queues remaining u" if "u \<in> set ps" for u
    using that Cons.prems(1) step(2) by (auto simp: current_def)
  have p: "p \<notin> set ps" "distinct ps" using Cons.prems(1) by auto
  have ps: "\<exists>q. map_of queues x = Some q" if "x \<in> set ps" for x using Cons.prems(2) [of x] that by simp
  obtain rem' inv' where rest: "walkChain (\<lambda>_. map_of queues) (subtractStep queues v quota) ps (rem1, inv1) = Inl (rem', inv')"
    "\<forall>u. map_of rem' u = (if u \<in> set ps then Some (Quantities_Sub (current queues rem1 u) quota) else map_of rem1 u)"
    "dom (map_of inv') = set ps \<union> dom (map_of inv1)"
    using Cons.IH [OF p(2) ps] by blast
  have "walkChain (\<lambda>_. map_of queues) (subtractStep queues v quota) (p # ps) (remaining, involved) = Inl (rem', inv')"
    using q step(1) rest(1) by simp
  moreover have "map_of rem' u = (if u \<in> set (p # ps) then Some (Quantities_Sub (current queues remaining u) quota) else map_of remaining u)" for u
    using rest(2) step(2) cur p(1) by simp
  moreover have "dom (map_of inv') = set (p # ps) \<union> dom (map_of involved)" using rest(3) step(3) by auto
  ultimately show ?case by blast
qed simp

interpretation subtract: parent_walk "\<lambda>_ :: RemainingMap \<times> InvolvedMap. map_of queues" ParentQueue
  "subtractStep queues v quota" "\<lambda>_. True" "queueParents queues" for queues v quota
  by unfold_locales (simp_all add: queueParents_def)

lemma subtractReclaimedResources_effect:
  assumes "wf_queues queues"
  shows "\<exists>rem' inv'. subtractReclaimedResources queues v vec vectorMap (remaining, involved) = Some (rem', inv') \<and>
    (\<forall>u. map_of rem' u = (if u \<in> set (ancestorIDs queues v) then Some (Quantities_Sub (current queues remaining u) (QuantifyVector vec vectorMap))
       else map_of remaining u)) \<and>
    dom (map_of inv') = set (ancestorIDs queues v) \<union> dom (map_of involved)"
proof -
  obtain ps where ps: "queue_chain (queueParents queues) v ps" using wf_queues_chain [OF assms] by blast
  have anc: "set (ancestorIDs queues v) = set ps" using chain_UIDs(2) [OF assms ps] by simp
  have "\<And>u q. map_of queues u = Some q \<Longrightarrow> UID q = u" using assms by (simp add: wf_queues_def)
  from subtract_walk [OF this queue_chain_distinct [OF ps] chain_UIDs(3) [OF assms ps]]
  obtain rem' inv' where res: "walkChain (\<lambda>_. map_of queues) (subtractStep queues v (QuantifyVector vec vectorMap)) ps (remaining, involved) = Inl (rem', inv')"
    "\<forall>u. map_of rem' u = (if u \<in> set ps then Some (Quantities_Sub (current queues remaining u) (QuantifyVector vec vectorMap)) else map_of remaining u)"
    "dom (map_of inv') = set ps \<union> dom (map_of involved)" by blast
  have "subtractReclaimedResources queues v vec vectorMap (remaining, involved) = Some (rem', inv')"
    unfolding subtractReclaimedResources_def subtract.walk_chain [OF ps TrueI] res(1) by simp
  then show ?thesis using res(2,3) unfolding anc by blast
qed

text \<open>The state of the loop: every entry holds what the takes so far leave, every queue above a take has an entry.\<close>

definition tracks :: "QueueMap \<Rightarrow> ResourceVectorMap \<Rightarrow> takes \<Rightarrow> RemainingMap \<Rightarrow> bool" where
  "tracks queues vectorMap taken remaining \<longleftrightarrow>
     (\<forall>u. current queues remaining u = remainingAfter queues vectorMap taken u) \<and>
     (\<forall>u. map_of remaining u \<noteq> None \<longrightarrow> map_of queues u \<noteq> None) \<and>
     (\<forall>(v, vec) \<in> set taken. \<forall>u \<in> set (ancestorIDs queues v). map_of remaining u \<noteq> None)"

lemma tracks_Nil: "tracks queues vectorMap [] []"
  by (simp add: tracks_def current_def remainingAfter_def fun_eq_iff)

lemma tracks_ensure:
  assumes "tracks queues vectorMap taken remaining" and "map_of queues u = Some q"
  shows "\<exists>rem'. ensureRemaining queues u remaining = Some rem' \<and> tracks queues vectorMap taken rem' \<and>
    dom (map_of rem') = insert u (dom (map_of remaining)) \<and> map_of rem' u = Some (remainingAfter queues vectorMap taken u)"
proof -
  obtain rem' where rem': "ensureRemaining queues u remaining = Some rem'" "map_of rem' = (map_of remaining)(u \<mapsto> current queues remaining u)"
    using ensureRemaining_known [OF assms(2)] by blast
  have "current queues rem' w = current queues remaining w" for w by (cases "w = u") (simp_all add: current_def rem'(2))
  then show ?thesis using assms rem' by (auto simp: tracks_def)
qed

lemma tracks_subtract:
  assumes "wf_queues queues" and "tracks queues vectorMap taken remaining"
  shows "\<exists>rem' inv'. subtractReclaimedResources queues v vec vectorMap (remaining, involved) = Some (rem', inv') \<and>
    tracks queues vectorMap (taken @ [(v, vec)]) rem' \<and> dom (map_of rem') = dom (map_of remaining) \<union> set (ancestorIDs queues v) \<and>
    dom (map_of inv') = set (ancestorIDs queues v) \<union> dom (map_of involved)"
proof -
  obtain rem' inv' where st: "subtractReclaimedResources queues v vec vectorMap (remaining, involved) = Some (rem', inv')"
    "\<And>u. map_of rem' u = (if u \<in> set (ancestorIDs queues v) then Some (Quantities_Sub (current queues remaining u) (QuantifyVector vec vectorMap))
       else map_of remaining u)"
    "dom (map_of inv') = set (ancestorIDs queues v) \<union> dom (map_of involved)"
    using subtractReclaimedResources_effect [OF assms(1)] by blast
  have "current queues rem' u = remainingAfter queues vectorMap (taken @ [(v, vec)]) u" for u
    using assms(2) by (auto simp: tracks_def current_def st(2) remainingAfter_def fun_eq_iff split: option.splits)
  moreover have "map_of queues u \<noteq> None" if "map_of rem' u \<noteq> None" for u
    using that assms(2) ancestorIDs_known [OF assms(1), of u v] by (auto simp: st(2) tracks_def split: if_splits)
  moreover have "dom (map_of rem') = dom (map_of remaining) \<union> set (ancestorIDs queues v)" by (auto simp: st(2) split: if_splits)
  ultimately show ?thesis using st(1,3) assms(2) by (auto simp: tracks_def st(2))
qed

subsection \<open>The loops\<close>

text \<open>Whether a strategy allows one more take from the queue \<open>v\<close>, after the takes so far.\<close>

definition allowedTake :: "float64 \<Rightarrow> Reclaimable \<Rightarrow> QueueMap \<Rightarrow> ReclaimerInfo \<Rightarrow> takes \<Rightarrow> QueueID \<Rightarrow> bool" where
  "allowedTake unl r queues reclaimer taken v \<longleftrightarrow>
     (case getLeveledQueues queues (ri_Queue reclaimer) v of
        Some (Some (x, y)) \<Rightarrow>
          FitsReclaimStrategy unl (RequiredResources reclaimer) (ri_VectorMap reclaimer) x y
            (remainingAfter queues (ri_VectorMap reclaimer) taken (UID y)) (queuePriorityInQuotaReclaim r)
      | _ \<Rightarrow> False)"

fun allowedTakes :: "float64 \<Rightarrow> Reclaimable \<Rightarrow> QueueMap \<Rightarrow> ReclaimerInfo \<Rightarrow> takes \<Rightarrow> takes \<Rightarrow> bool" where
  "allowedTakes unl r queues reclaimer taken [] \<longleftrightarrow> True"
| "allowedTakes unl r queues reclaimer taken ((v, vec) # rest) \<longleftrightarrow>
     allowedTake unl r queues reclaimer taken v \<and> allowedTakes unl r queues reclaimer (taken @ [(v, vec)]) rest"

lemma allowedTakes_append:
  "allowedTakes unl r queues reclaimer taken (xs @ ys) \<longleftrightarrow>
   allowedTakes unl r queues reclaimer taken xs \<and> allowedTakes unl r queues reclaimer (taken @ xs) ys"
  by (induction xs arbitrary: taken) auto

lemma takeReclaimees_spec:
  assumes "wf_queues queues" and "getLeveledQueues queues (ri_Queue reclaimer) v = Some (Some (x, y))"
  shows "tracks queues (ri_VectorMap reclaimer) taken remaining \<Longrightarrow> map_of remaining (UID y) \<noteq> None \<Longrightarrow>
    \<exists>res. takeReclaimees unl r queues reclaimer v x y vecs (remaining, involved) = Some res \<and>
      (res \<noteq> None \<longleftrightarrow> allowedTakes unl r queues reclaimer taken (map (Pair v) vecs)) \<and>
      (\<forall>rem' inv'. res = Some (rem', inv') \<longrightarrow> tracks queues (ri_VectorMap reclaimer) (taken @ map (Pair v) vecs) rem' \<and>
         dom (map_of rem') = dom (map_of remaining) \<union> (if vecs = [] then {} else set (ancestorIDs queues v)) \<and>
         dom (map_of inv') = dom (map_of involved) \<union> (if vecs = [] then {} else set (ancestorIDs queues v)))"
proof (induction vecs arbitrary: taken remaining involved)
  case (Cons vec vecs)
  obtain cur where cur: "map_of remaining (UID y) = Some cur" using Cons.prems(2) by auto
  then have "cur = remainingAfter queues (ri_VectorMap reclaimer) taken (UID y)"
    using Cons.prems(1) unfolding tracks_def current_def by (metis option.case(2))
  then have fits: "FitsReclaimStrategy unl (RequiredResources reclaimer) (ri_VectorMap reclaimer) x y (the (map_of remaining (UID y))) (queuePriorityInQuotaReclaim r) =
      allowedTake unl r queues reclaimer taken v"
    using cur assms(2) by (simp add: allowedTake_def)
  show ?case
  proof (cases "allowedTake unl r queues reclaimer taken v")
    case False
    then show ?thesis using fits by simp
  next
    case True
    obtain rem1 inv1 where st: "subtractReclaimedResources queues v vec (ri_VectorMap reclaimer) (remaining, involved) = Some (rem1, inv1)"
      "tracks queues (ri_VectorMap reclaimer) (taken @ [(v, vec)]) rem1" "dom (map_of rem1) = dom (map_of remaining) \<union> set (ancestorIDs queues v)"
      "dom (map_of inv1) = set (ancestorIDs queues v) \<union> dom (map_of involved)"
      using tracks_subtract [OF assms(1) Cons.prems(1), of v vec involved] by (elim exE conjE)
    have "map_of rem1 (UID y) \<noteq> None" using st(3) Cons.prems(2) by (auto simp: dom_def)
    note IH = Cons.IH [OF st(2) this, of inv1]
    have doms: "A \<union> B \<union> (if vecs = [] then {} else B) = A \<union> B" for A B :: "QueueID set" by auto
    have eq: "takeReclaimees unl r queues reclaimer v x y (vec # vecs) (remaining, involved) = takeReclaimees unl r queues reclaimer v x y vecs (rem1, inv1)"
      using True fits st(1) by simp
    show ?thesis unfolding eq using IH True st(3,4) by (simp add: doms Un_commute [of "set (ancestorIDs queues v)"])
  qed
qed simp

lemma reclaimLoop_spec:
  assumes "wf_queues queues" and "map_of queues (ri_Queue reclaimer) \<noteq> None"
  shows "tracks queues (ri_VectorMap reclaimer) taken remaining \<Longrightarrow> \<forall>(v, vecs) \<in> set reclaimees. map_of queues v \<noteq> None \<and> vecs \<noteq> [] \<Longrightarrow>
    dom (map_of remaining) \<subseteq> dom (map_of involved) \<Longrightarrow>
    \<exists>res. reclaimLoop unl r queues reclaimer reclaimees (remaining, involved) = Some res \<and>
      (res \<noteq> None \<longleftrightarrow> allowedTakes unl r queues reclaimer taken (takesOf reclaimees)) \<and>
      (\<forall>rem' inv'. res = Some (rem', inv') \<longrightarrow> tracks queues (ri_VectorMap reclaimer) (taken @ takesOf reclaimees) rem' \<and>
         dom (map_of rem') \<subseteq> dom (map_of inv'))"
proof (induction reclaimees arbitrary: taken remaining involved)
  case (Cons e reclaimees)
  obtain v vecs where e: "e = (v, vecs)" by (cases e)
  have v: "map_of queues v \<noteq> None" "vecs \<noteq> []" using Cons.prems(2) e by auto
  obtain x y where lev: "getLeveledQueues queues (ri_Queue reclaimer) v = Some (Some (x, y))" "UID y \<in> set (ancestorIDs queues v)"
      "map_of queues (UID y) = Some y"
    using getLeveledQueues_wf [OF assms(1), of "ri_Queue reclaimer" v] assms(2) v(1) by (metis option.exhaust surj_pair)
  obtain rem1 where rem1: "ensureRemaining queues (UID y) remaining = Some rem1" "tracks queues (ri_VectorMap reclaimer) taken rem1"
    "dom (map_of rem1) = insert (UID y) (dom (map_of remaining))"
    using tracks_ensure [OF Cons.prems(1) lev(3)] by (elim exE conjE)
  have y: "map_of rem1 (UID y) \<noteq> None" using rem1(3) by (auto simp: dom_def)
  let ?inv = "AList.update v (getInvolvedResourcesNames vecs) involved"
  obtain res where res: "takeReclaimees unl r queues reclaimer v x y vecs (rem1, ?inv) = Some res"
    "res \<noteq> None \<longleftrightarrow> allowedTakes unl r queues reclaimer taken (map (Pair v) vecs)"
    "\<And>rem' inv'. res = Some (rem', inv') \<Longrightarrow> tracks queues (ri_VectorMap reclaimer) (taken @ map (Pair v) vecs) rem' \<and>
         dom (map_of rem') = dom (map_of rem1) \<union> set (ancestorIDs queues v) \<and> dom (map_of inv') = dom (map_of ?inv) \<union> set (ancestorIDs queues v)"
    using takeReclaimees_spec [OF assms(1) lev(1) rem1(2) y, of unl r vecs ?inv] v(2) by (elim exE conjE) simp
  have takes: "takesOf (e # reclaimees) = map (Pair v) vecs @ takesOf reclaimees" by (simp add: takesOf_def e)
  have eq: "reclaimLoop unl r queues reclaimer (e # reclaimees) (remaining, involved) =
      (case res of None \<Rightarrow> Some None | Some st' \<Rightarrow> reclaimLoop unl r queues reclaimer reclaimees st')"
    by (simp add: e lev(1) rem1(1) res(1))
  show ?case
  proof (cases res)
    case None
    then show ?thesis using res(2) by (simp add: eq takes allowedTakes_append)
  next
    case (Some st)
    obtain rem2 inv2 where st: "st = (rem2, inv2)" by (cases st)
    note r2 = res(3) [OF Some [unfolded st]]
    have sub: "dom (map_of rem2) \<subseteq> dom (map_of inv2)" using r2 rem1(3) Cons.prems(3) lev(2) by auto
    have rest: "\<forall>(v, vecs) \<in> set reclaimees. map_of queues v \<noteq> None \<and> vecs \<noteq> []" using Cons.prems(2) by simp
    show ?thesis
      using Cons.IH [OF conjunct1 [OF r2] rest sub] res(2) Some st by (simp add: eq takes allowedTakes_append)
  qed
qed (simp add: takesOf_def)

subsection \<open>Boundaries\<close>

definition fairOf :: "QueueMap \<Rightarrow> QueueID \<Rightarrow> ResourceQuantities" where
  "fairOf queues u = fst (GetFairShare (QShare (the (map_of queues u))))"

definition siblingOk ::
  "float64 \<Rightarrow> Reclaimable \<Rightarrow> QueueMap \<Rightarrow> InvolvedMap \<Rightarrow> ResourceName set \<Rightarrow> QueueAttributes \<Rightarrow> ResourceQuantities \<Rightarrow> RemainingMap \<Rightarrow> QueueID \<Rightarrow> bool" where
  "siblingOk unl r queues involved reclaimerInvolved q cur remaining s \<longleftrightarrow>
     queueParents queues s \<noteq> Some (ParentQueue q) \<or> s = UID q \<or>
     isFairShareSaturationLowerPerResource unl r (the (map_of involved s) \<union> reclaimerInvolved) cur (fst (GetFairShare (QShare q)))
       (current queues remaining s) (fairOf queues s)"

lemma siblingLoop_eq:
  assumes "\<And>u q. map_of queues u = Some q \<Longrightarrow> UID q = u"
  shows "set keys \<subseteq> dom (map_of queues) \<Longrightarrow> set keys \<subseteq> dom (map_of involved) \<Longrightarrow>
    siblingLoop unl r queues involved reclaimerInvolved q cur remaining keys =
    Some (list_all (siblingOk unl r queues involved reclaimerInvolved q cur remaining) keys)"
proof (induction keys)
  case (Cons k keys)
  obtain s I where s: "map_of queues k = Some s" "map_of involved k = Some I" using Cons.prems by auto
  have cur: "(case map_of remaining k of Some q \<Rightarrow> q | None \<Rightarrow> GetAllocatedShare (QShare s)) = current queues remaining k"
    using s(1) by (cases "map_of remaining k") (simp_all add: current_def)
  have "siblingOk unl r queues involved reclaimerInvolved q cur remaining k \<longleftrightarrow> ParentQueue s \<noteq> ParentQueue q \<or> UID s = UID q \<or>
      isFairShareSaturationLowerPerResource unl r (I \<union> reclaimerInvolved) cur (fst (GetFairShare (QShare q)))
       (current queues remaining k) (fst (GetFairShare (QShare s)))"
    using s assms [OF s(1)] by (simp add: siblingOk_def queueParents_def fairOf_def)
  then show ?case using Cons s assms [OF s(1)] cur by (simp add: Let_def)
qed simp

text \<open>One level of the loop, on a state whose keys are known.\<close>

definition boundaryOk ::
  "float64 \<Rightarrow> Reclaimable \<Rightarrow> QueueMap \<Rightarrow> ReclaimerInfo \<Rightarrow> InvolvedMap \<Rightarrow> RemainingMap \<Rightarrow> QueueAttributes \<Rightarrow> bool" where
  "boundaryOk unl r queues reclaimer involved remaining q \<longleftrightarrow>
     (let req = QuantifyVector (RequiredResources reclaimer) (ri_VectorMap reclaimer)
      in (\<forall>s \<in> dom (map_of remaining). s \<noteq> UID q \<longrightarrow>
            siblingOk unl r queues involved (getInvolvedResourcesNames [RequiredResources reclaimer]) q
              (Quantities_Add (current queues remaining (UID q)) req) remaining s) \<and>
         (IsPreemptable reclaimer \<or>
            Quantities_LessEqual unl (Quantities_Add (GetAllocatedNonPreemptible (QShare q)) req) (fst (GetDeservedShare (QShare q)))))"

lemma boundaryStep_eq:
  assumes "\<And>u q. map_of queues u = Some q \<Longrightarrow> UID q = u" and "map_of queues u = Some q"
    and "dom (map_of remaining) \<subseteq> dom (map_of queues)" and "dom (map_of remaining) \<subseteq> dom (map_of involved)"
  shows "\<exists>rem'. boundaryStep unl r queues reclaimer involved u q remaining =
      (if boundaryOk unl r queues reclaimer involved remaining q then Inl rem' else Inr (Some False)) \<and>
    dom (map_of rem') = dom (map_of remaining) \<and> (\<forall>w. w \<noteq> u \<longrightarrow> map_of rem' w = map_of remaining w)"
proof -
  let ?req = "QuantifyVector (RequiredResources reclaimer) (ri_VectorMap reclaimer)"
  let ?cur = "Quantities_Add (current queues remaining (UID q)) ?req"
  define rem' where "rem' = (case map_of remaining (UID q) of
      Some c \<Rightarrow> AList.update (UID q) (Quantities_Add c ?req) remaining | None \<Rightarrow> remaining)"
  have u: "UID q = u" by (rule assms(1) [OF assms(2)])
  have dom: "dom (map_of rem') = dom (map_of remaining)" and upd: "\<forall>w. w \<noteq> u \<longrightarrow> map_of rem' w = map_of remaining w"
    using u by (auto simp: rem'_def split: option.splits)
  have keys: "set (gokeys rem') = dom (map_of remaining)" using dom by (metis dom_map_of_conv_image_fst list.set_map)
  have pair: "(case map_of remaining (UID q) of
        Some c \<Rightarrow> (Quantities_Add c ?req, AList.update (UID q) (Quantities_Add c ?req) remaining)
      | None \<Rightarrow> (Quantities_Add (GetAllocatedShare (QShare q)) ?req, remaining)) = (?cur, rem')"
    using assms(2) u by (cases "map_of remaining (UID q)") (simp_all add: rem'_def current_def)
  have sib: "siblingLoop unl r queues involved (getInvolvedResourcesNames [RequiredResources reclaimer]) q ?cur rem' (gokeys rem') =
      Some (list_all (siblingOk unl r queues involved (getInvolvedResourcesNames [RequiredResources reclaimer]) q ?cur rem') (gokeys rem'))"
    by (rule siblingLoop_eq) (use assms keys in auto)
  have same: "siblingOk unl r queues involved I q ?cur rem' s = siblingOk unl r queues involved I q ?cur remaining s" if "s \<noteq> u" for s I
    using upd that by (simp add: siblingOk_def current_def)
  have all: "list_all (siblingOk unl r queues involved (getInvolvedResourcesNames [RequiredResources reclaimer]) q ?cur rem') (gokeys rem') \<longleftrightarrow>
      (\<forall>s \<in> dom (map_of remaining). s \<noteq> UID q \<longrightarrow>
         siblingOk unl r queues involved (getInvolvedResourcesNames [RequiredResources reclaimer]) q ?cur remaining s)"
    unfolding list_all_iff keys u using same by (auto simp: siblingOk_def u)
  have "boundaryStep unl r queues reclaimer involved u q remaining =
      (if boundaryOk unl r queues reclaimer involved remaining q then Inl rem' else Inr (Some False))"
    unfolding boundaryStep_def Let_def pair by (auto simp: sib all boundaryOk_def Let_def split: bool.splits)
  then show ?thesis using dom upd by blast
qed

text \<open>The chain of the reclaimer: the queues below a queue of the chain are not its siblings, so the amounts the
  loop has added to them do not matter to it.\<close>

lemma boundary_walk:
  assumes "wf_queues queues" and "dom (map_of remaining) \<subseteq> dom (map_of queues)" and "dom (map_of remaining) \<subseteq> dom (map_of involved)"
  shows "queue_chain (queueParents queues) u ps \<Longrightarrow> dom (map_of st) = dom (map_of remaining) \<Longrightarrow>
    (\<And>w. w \<notin> L \<Longrightarrow> map_of st w = map_of remaining w) \<Longrightarrow> L \<inter> set ps = {} \<Longrightarrow>
    (\<And>p s. p \<in> set ps \<Longrightarrow> s \<in> L \<Longrightarrow> queueParents queues s \<noteq> queueParents queues p) \<Longrightarrow>
    \<exists>v. walkChain (\<lambda>_. map_of queues) (boundaryStep unl r queues reclaimer involved) ps st = v \<and> v \<noteq> Inr None \<and> v \<noteq> Inr (Some True) \<and>
      ((\<exists>st'. v = Inl st') \<longleftrightarrow> (\<forall>q \<in> set (chainQueues queues ps). boundaryOk unl r queues reclaimer involved remaining q))"
proof (induction ps arbitrary: u st L)
  case Nil
  then show ?case by (simp add: chainQueues_def)
next
  case (Cons p ps)
  have uids: "\<And>u q. map_of queues u = Some q \<Longrightarrow> UID q = u" using assms(1) by (simp add: wf_queues_def)
  obtain q where q: "map_of queues u = Some q" "queue_chain (queueParents queues) (ParentQueue q) ps" "p = u"
    using Cons.prems(1) unfolding queue_chain_queueParents by auto
  obtain st1 where st1: "boundaryStep unl r queues reclaimer involved u q st =
      (if boundaryOk unl r queues reclaimer involved st q then Inl st1 else Inr (Some False))"
    "dom (map_of st1) = dom (map_of st)" "\<forall>w. w \<noteq> u \<longrightarrow> map_of st1 w = map_of st w"
    using boundaryStep_eq [OF uids q(1), of st involved unl r reclaimer] assms(2,3) Cons.prems(2) by auto
  have cur: "current queues st w = current queues remaining w" if "w \<notin> L" for w using Cons.prems(3) [OF that] by (simp add: current_def)
  have uid: "UID q = u" "UID q \<notin> L" using uids [OF q(1)] Cons.prems(4) q(3) by auto
  have sib: "siblingOk unl r queues involved I q c st s = siblingOk unl r queues involved I q c remaining s" for I c s
  proof (cases "s \<in> L")
    case True
    then have "queueParents queues s \<noteq> queueParents queues p" by (intro Cons.prems(5)) auto
    then show ?thesis using q by (simp add: siblingOk_def queueParents_def)
  next
    case False
    then show ?thesis using cur by (simp add: siblingOk_def)
  qed
  have ok: "boundaryOk unl r queues reclaimer involved st q = boundaryOk unl r queues reclaimer involved remaining q"
    using cur [OF uid(2)] Cons.prems(2) by (simp add: boundaryOk_def sib)
  have head: "chainQueues queues (p # ps) = q # chainQueues queues ps" using q by (simp add: chainQueues_def)
  show ?case
  proof (cases "boundaryOk unl r queues reclaimer involved remaining q")
    case False
    then show ?thesis unfolding head using q st1 ok by simp
  next
    case True
    have "\<exists>v. walkChain (\<lambda>_. map_of queues) (boundaryStep unl r queues reclaimer involved) ps st1 = v \<and> v \<noteq> Inr None \<and> v \<noteq> Inr (Some True) \<and>
      ((\<exists>st'. v = Inl st') \<longleftrightarrow> (\<forall>q \<in> set (chainQueues queues ps). boundaryOk unl r queues reclaimer involved remaining q))"
    proof (rule Cons.IH [OF q(2), where L = "insert u L"])
      show "dom (map_of st1) = dom (map_of remaining)" using st1(2) Cons.prems(2) by simp
      show "\<And>w. w \<notin> insert u L \<Longrightarrow> map_of st1 w = map_of remaining w" using st1(3) Cons.prems(3) by auto
      have dist: "p \<notin> set ps" using queue_chain_distinct [OF Cons.prems(1)] by simp
      then show "insert u L \<inter> set ps = {}" using Cons.prems(4) q(3) by auto
      fix p' s
      assume p': "p' \<in> set ps" and s: "s \<in> insert u L"
      show "queueParents queues s \<noteq> queueParents queues p'"
      proof (cases "s = u")
        case False
        then show ?thesis using Cons.prems(5) [of p' s] p' s by auto
      next
        case True
        show ?thesis
        proof
          assume "queueParents queues s = queueParents queues p'"
          then have par: "queueParents queues p' = Some (ParentQueue q)" using q(1) True by (simp add: queueParents_def)
          obtain xs ys where ys: "ps = xs @ ys" "queue_chain (queueParents queues) p' ys" "ys \<noteq> []"
            using queue_chain_suffix [OF q(2) p'] by blast
          then obtain zs where "ys = p' # zs" "queue_chain (queueParents queues) (ParentQueue q) zs"
            using par by (cases ys) (auto split: option.splits)
          then show False using queue_chain_unique [OF q(2)] ys(1) by force
        qed
      qed
    qed
    then show ?thesis unfolding head using q st1 ok True by simp
  qed
qed

subsection \<open>What a granted reclaim guarantees\<close>

lemma isFair_mono:
  "isFairShareSaturationLowerPerResource unl r I a b c d \<Longrightarrow> J \<subseteq> I \<Longrightarrow> isFairShareSaturationLowerPerResource unl r J a b c d"
  unfolding isFairShareSaturationLowerPerResource_def by blast

interpretation boundary: parent_walk "\<lambda>_ :: RemainingMap. map_of queues" ParentQueue
  "boundaryStep unl r queues reclaimer involved" "\<lambda>_. True" "queueParents queues" for queues unl r reclaimer involved
  by unfold_locales (simp_all add: queueParents_def)

lemma withinBoundaries_spec:
  assumes "wf_queues queues" and "queue_chain (queueParents queues) (ri_Queue reclaimer) ps"
    and "dom (map_of remaining) \<subseteq> dom (map_of queues)" and "dom (map_of remaining) \<subseteq> dom (map_of involved)"
  shows "reclaimingQueuesRemainWithinBoundaries unl r queues reclaimer remaining involved =
    Some (\<forall>q \<in> set (chainQueues queues ps). boundaryOk unl r queues reclaimer involved remaining q)"
proof -
  obtain v where v: "walkChain (\<lambda>_. map_of queues) (boundaryStep unl r queues reclaimer involved) ps remaining = v" "v \<noteq> Inr None" "v \<noteq> Inr (Some True)"
    "(\<exists>st'. v = Inl st') \<longleftrightarrow> (\<forall>q \<in> set (chainQueues queues ps). boundaryOk unl r queues reclaimer involved remaining q)"
    using boundary_walk [OF assms(1,3,4,2) refl, of "{}"] by blast
  show ?thesis
    unfolding reclaimingQueuesRemainWithinBoundaries_def boundary.walk_chain [OF assms(2) TrueI] v(1)
  proof (cases v)
    case (Inr a)
    then show "Option.bind (Some v) (\<lambda>v. case v of Inl _ \<Rightarrow> Some True | Inr ans \<Rightarrow> ans) =
      Some (\<forall>q \<in> set (chainQueues queues ps). boundaryOk unl r queues reclaimer involved remaining q)"
      using v by (cases a) auto
  qed (use v(4) in auto)
qed


definition shareQueue :: "QueueID \<Rightarrow> QueueID \<Rightarrow> float64 \<Rightarrow> float64 \<Rightarrow> float64 \<Rightarrow> QueueAttributes" where
  "shareQueue uid parent quota fair used =
     (exampleQueue uid parent quota used)\<lparr>QShare := (QShare (exampleQueue uid parent quota used))\<lparr>GPU :=
        EmptyResource\<lparr>deserved := quota, fairShare := fair, maxAllowed := - 1, allocated := used\<rparr>\<rparr>\<rparr>"

definition reclaimQueues :: QueueMap where
  "reclaimQueues = [(''b1'', shareQueue ''b1'' ''b'' 0 2 6), (''b2'', shareQueue ''b2'' ''b'' 0 2 4), (''b'', shareQueue ''b'' '''' 0 5 10),
     (''a'', shareQueue ''a'' '''' 4 5 0)]"

definition gpuReclaimer :: "float64 \<Rightarrow> ReclaimerInfo" where
  "gpuReclaimer g = \<lparr>ri_Name = ''j'', ri_Namespace = ''n'', ri_Queue = ''a'', RequiredResources = [0, 0, g, 0], ri_VectorMap = exampleVMap, IsPreemptable = True\<rparr>"

lemma reclaimQueues_wf: "wf_queues reclaimQueues"
proof -
  have par: "queueParents reclaimQueues q = (if q = ''b1'' \<or> q = ''b2'' then Some ''b'' else if q = ''b'' \<or> q = ''a'' then Some '''' else None)" for q
    by (auto simp: queueParents_def reclaimQueues_def shareQueue_def exampleQueue_def)
  have "grounded (queueParents reclaimQueues) q" for q
    by (rule grounded_rank [where rank = "\<lambda>q. if q = ''b'' \<or> q = ''a'' then 0 else 1"]) (auto simp: par split: if_splits)
  moreover have "UID q = u" if "map_of reclaimQueues u = Some q" for u q
    using that by (auto simp: reclaimQueues_def shareQueue_def exampleQueue_def split: if_splits)
  ultimately show ?thesis by (simp add: wf_queues_def)
qed

definition plainReclaim :: Reclaimable where
  "plainReclaim = \<lparr>saturationMultiplier = 1, queuePriorityInQuotaReclaim = False\<rparr>"



subsection \<open>The victim filter\<close>

text \<open>For a reclaimer that would exceed the quota its queue deserves, and for one that may reclaim by queue priority,
  the victim filter keeps a victim's queue exactly if a strategy allows a first take from it.\<close>

lemma filter_victim_exact:
  assumes "wf_queues queues" and "getLeveledQueues queues (ri_Queue reclaimer) v = Some (Some (x, y))"
    and "\<not> ReclaimerFitsDeservedQuota unl (RequiredResources reclaimer) (ri_VectorMap reclaimer) x \<or>
      ReclaimerFitsReclaimByQueuePriority (queuePriorityInQuotaReclaim r) x y"
  shows "FilterVictim unl r queues (Some reclaimer) v = Some (allowedTake unl r queues reclaimer [] v)"
proof -
  have "map_of queues (UID y) = Some y" using getLeveledQueues_wf [OF assms(1), of "ri_Queue reclaimer" v] assms(2) by auto
  then have "remainingAfter queues (ri_VectorMap reclaimer) [] (UID y) = GetAllocatedShare (QShare y)" by (simp add: remainingAfter_def fun_eq_iff)
  then show ?thesis
    using assms(3)
    by (auto simp: FilterVictim_def assms(2) allowedTake_def FitsReclaimStrategy_def strategies_def priorityLeadStrategies_def
        ReclaimerFitsReclaimByQueuePriority_def)
qed

text \<open>C22. The filter drops victims that the strategies would allow: a reclaimer within its own quota that asks only
  for GPUs cannot reclaim from a queue that is below its GPU quota, although that queue is over the quota of another
  resource and the reclaim check, without the filter, grants the reclaim.\<close>

theorem filter_victim_drops_allowed:
  "\<exists>queues reclaimer. wf_queues queues \<and> FilterVictim (- 1) plainReclaim queues (Some reclaimer) ''b'' = Some False \<and>
     Reclaimable_Reclaimable (- 1) plainReclaim queues reclaimer [(''b'', [[0, 0, 1, 0]])] = Some True"
proof -
  define b where "b = (shareQueue ''b'' '''' 4 4 2)\<lparr>QShare := (QShare (shareQueue ''b'' '''' 4 4 2))\<lparr>CPU :=
      EmptyResource\<lparr>deserved := 100, fairShare := 100, maxAllowed := - 1, allocated := 200\<rparr>\<rparr>\<rparr>"
  define queues where "queues = [(''b'', b), (''a'', shareQueue ''a'' '''' 4 4 0)]"
  have "FilterVictim (- 1) plainReclaim queues (Some (gpuReclaimer 1)) ''b'' = Some False" unfolding queues_def b_def by code_simp
  moreover have "Reclaimable_Reclaimable (- 1) plainReclaim queues (gpuReclaimer 1) [(''b'', [[0, 0, 1, 0]])] = Some True" unfolding queues_def b_def by code_simp
  moreover have "wf_queues queues"
  proof -
    have par: "queueParents queues q = (if q = ''b'' \<or> q = ''a'' then Some '''' else None)" for q
      by (auto simp: queueParents_def queues_def b_def shareQueue_def exampleQueue_def)
    have "grounded (queueParents queues) q" for q by (rule grounded_rank [where rank = "\<lambda>_. 0"]) (auto simp: par split: if_splits)
    moreover have "UID q = u" if "map_of queues u = Some q" for u q
      using that by (auto simp: queues_def b_def shareQueue_def exampleQueue_def split: if_splits)
    ultimately show ?thesis by (simp add: wf_queues_def)
  qed
  ultimately show ?thesis by blast
qed

end
