(* ===== verification/Queue_Order.thy ===== *)
theory Queue_Order
  imports Reclaimable "HOL-Library.Product_Lexorder"
begin

text \<open>
  The order of queues: \<^verbatim>\<open>plugins/proportion/queue_order/queue_order.go\<close>, the wrapper \<^verbatim>\<open>queueOrder\<close> of
  \<^verbatim>\<open>proportion.go\<close> and \<^verbatim>\<open>Session.QueueOrderFn\<close>. A job may be nil (\<open>None\<close>). The resources of a job's next
  tasks are read through the job's cache, which is transparent (theory \<open>Job_Laws\<close>).
  \<^verbatim>\<open>calculateDominantResourceShareWithJob\<close> overwrites the allocated amounts of the queue and puts them back,
  so the comparators that call it return the queues they leave behind.

  The order is shown to be the lexicographic one on a key of six components, followed by the dominance of
  allocatable shares and the creation time; the queues come back unchanged.
\<close>

subsection \<open>The resources of a candidate job\<close>

record OrderFns =
  of_subGroupOrderFn :: "PodSet SubGroupMember LessFn"
  of_taskOrderFn :: "PodInfo LessFn"
  of_minNodeGPUMemory :: "int option"

definition jobInitResources :: "OrderFns \<Rightarrow> PodGroupInfo option \<Rightarrow> ResourceVector" where
  "jobInitResources fns jobInfo =
     (case jobInfo of
        None \<Rightarrow> []
      | Some job \<Rightarrow> fst (GetTasksToAllocateInitResourceVector (of_subGroupOrderFn fns) (of_taskOrderFn fns) PartialTaskAllocation
                          (of_minNodeGPUMemory fns) job))"

definition quantifyJobInitResources :: "OrderFns \<Rightarrow> PodGroupInfo option \<Rightarrow> ResourceQuantities" where
  "quantifyJobInitResources fns jobInfo =
     (case jobInfo of
        None \<Rightarrow> EmptyResourceQuantities
      | Some job \<Rightarrow> QuantifyVector (jobInitResources fns (Some job)) (pg_VectorMap job))"

definition jobVectorMap :: "PodGroupInfo option \<Rightarrow> ResourceVectorMap option" where
  "jobVectorMap jobInfo = map_option pg_VectorMap jobInfo"

subsection \<open>The comparators\<close>

definition lQueuePrioritized :: int where "lQueuePrioritized = - 1"
definition rQueuePrioritized :: int where "rQueuePrioritized = 1"
definition equalPrioritization :: int where "equalPrioritization = 0"

definition prioritizePrioritized :: "QueueAttributes \<Rightarrow> QueueAttributes \<Rightarrow> int" where
  "prioritizePrioritized lQueue rQueue =
     (if Priority lQueue > Priority rQueue then lQueuePrioritized
      else if Priority lQueue < Priority rQueue then rQueuePrioritized
      else equalPrioritization)"

definition prioritizeUnderUtilized :: "QueueAttributes \<Rightarrow> QueueAttributes \<Rightarrow> int" where
  "prioritizeUnderUtilized lQueue rQueue =
     (let lOverUtilized = FairShareLessThanAllocated (QShare lQueue);
          rOverUtilized = FairShareLessThanAllocated (QShare rQueue)
      in if \<not> lOverUtilized \<and> rOverUtilized then lQueuePrioritized
         else if lOverUtilized \<and> \<not> rOverUtilized then rQueuePrioritized
         else equalPrioritization)"

definition queuesInQuotaWithJob :: "float64 \<Rightarrow> OrderFns \<Rightarrow> QueueAttributes \<Rightarrow> PodGroupInfo option \<Rightarrow> bool" where
  "queuesInQuotaWithJob unl fns q jobInfo =
     AllocatedPlusResourcesLessEqualDeserved unl (QShare q) (jobInitResources fns jobInfo) (jobVectorMap jobInfo)"

definition prioritizeUnderQuotaWithJob ::
  "float64 \<Rightarrow> OrderFns \<Rightarrow> QueueAttributes \<Rightarrow> QueueAttributes \<Rightarrow> PodGroupInfo option \<Rightarrow> PodGroupInfo option \<Rightarrow> int" where
  "prioritizeUnderQuotaWithJob unl fns lQueue rQueue lJobInfo rJobInfo =
     (let lResources = jobInitResources fns lJobInfo; rResources = jobInitResources fns rJobInfo;
          lStarved = AllocatedPlusResourcesLessEqualDeserved unl (QShare lQueue) lResources (jobVectorMap lJobInfo);
          rStarved = AllocatedPlusResourcesLessEqualDeserved unl (QShare rQueue) rResources (jobVectorMap rJobInfo)
      in if lStarved \<and> \<not> rStarved then lQueuePrioritized
         else if rStarved \<and> \<not> lStarved then rQueuePrioritized
         else equalPrioritization)"

definition prioritizeBasedOnPriorityIfBothQueuesInQuota ::
  "float64 \<Rightarrow> OrderFns \<Rightarrow> QueueAttributes \<Rightarrow> PodGroupInfo option \<Rightarrow> QueueAttributes \<Rightarrow> PodGroupInfo option \<Rightarrow> int" where
  "prioritizeBasedOnPriorityIfBothQueuesInQuota unl fns lQueue lJobInfo rQueue rJobInfo =
     (if \<not> queuesInQuotaWithJob unl fns lQueue lJobInfo then equalPrioritization
      else if \<not> queuesInQuotaWithJob unl fns rQueue rJobInfo then equalPrioritization
      else prioritizePrioritized lQueue rQueue)"

text \<open>One of the two loops of \<^verbatim>\<open>penalizeZeroShareWithJob\<close>: the queue would use a resource it may not use.\<close>

definition zeroShareViolation :: "float64 \<Rightarrow> OrderFns \<Rightarrow> QueueAttributes \<Rightarrow> PodGroupInfo option \<Rightarrow> bool" where
  "zeroShareViolation unl fns q jobInfo =
     (let allocatedWithJob = Quantities_Add (GetAllocatedShare (QShare q)) (quantifyJobInitResources fns jobInfo)
      in fold (\<lambda>resource violation.
             if GetAllocatableShares unl (QShare q) resource \<noteq> 0 then violation
             else if allocatedWithJob resource > 0 then True else violation) AllResources False)"

definition penalizeZeroShareWithJob ::
  "float64 \<Rightarrow> OrderFns \<Rightarrow> QueueAttributes \<Rightarrow> QueueAttributes \<Rightarrow> PodGroupInfo option \<Rightarrow> PodGroupInfo option \<Rightarrow> int" where
  "penalizeZeroShareWithJob unl fns lQueue rQueue lJobInfo rJobInfo =
     (let lQueueViolation = zeroShareViolation unl fns lQueue lJobInfo;
          rQueueViolation = zeroShareViolation unl fns rQueue rJobInfo
      in if lQueueViolation \<and> \<not> rQueueViolation then rQueuePrioritized
         else if \<not> lQueueViolation \<and> rQueueViolation then lQueuePrioritized
         else equalPrioritization)"

definition updAllocated :: "(ResourceName \<Rightarrow> float64 \<Rightarrow> float64) \<Rightarrow> QueueAttributes \<Rightarrow> QueueAttributes" where
  "updAllocated f q = q\<lparr>QShare := fold (\<lambda>resource. upd_ResourceShare resource (\<lambda>rs. rs\<lparr>allocated := f resource (allocated rs)\<rparr>))
     AllResources (QShare q)\<rparr>"

definition calculateDominantResourceShareWithJob ::
  "float64 \<Rightarrow> OrderFns \<Rightarrow> ResourceQuantities \<Rightarrow> QueueAttributes \<Rightarrow> PodGroupInfo option \<Rightarrow> PodGroupInfo list \<Rightarrow> float64 \<times> QueueAttributes" where
  "calculateDominantResourceShareWithJob unl fns totalResources q jobInfo victims =
     (let allocatedShare = GetAllocatedShare (QShare q);
          initResQuantities = quantifyJobInitResources fns jobInfo;
          withJob = updAllocated (\<lambda>resource a. a + initResQuantities resource) q;
          withoutVictims = fold (\<lambda>victim qa.
              let victimQuantities = QuantifyVector (AllocatedVector victim) (pg_VectorMap victim)
              in updAllocated (\<lambda>resource a. a - victimQuantities resource) qa) victims withJob;
          share = GetDominantResourceShare unl (QShare withoutVictims) totalResources
      in (share, updAllocated (\<lambda>resource a. allocatedShare resource) withoutVictims))"

definition compareShares :: "float64 \<Rightarrow> float64 \<Rightarrow> int" where
  "compareShares lShare rShare =
     (if lShare < rShare then lQueuePrioritized else if lShare > rShare then rQueuePrioritized else equalPrioritization)"

definition prioritizeSmallerResourceShare ::
  "float64 \<Rightarrow> OrderFns \<Rightarrow> ResourceQuantities \<Rightarrow> QueueAttributes \<Rightarrow> QueueAttributes \<Rightarrow> PodGroupInfo option \<Rightarrow> PodGroupInfo option \<Rightarrow>
   PodGroupInfo list \<Rightarrow> PodGroupInfo list \<Rightarrow> int \<times> QueueAttributes \<times> QueueAttributes" where
  "prioritizeSmallerResourceShare unl fns totalResources lQueue rQueue lJobInfo rJobInfo lVictims rVictims =
     (let (lShare, lQueue') = calculateDominantResourceShareWithJob unl fns totalResources lQueue lJobInfo lVictims;
          (rShare, rQueue') = calculateDominantResourceShareWithJob unl fns totalResources rQueue rJobInfo rVictims
      in (compareShares lShare rShare, lQueue', rQueue'))"

definition prioritizeSmallerResourceShareWithoutTask ::
  "float64 \<Rightarrow> ResourceQuantities \<Rightarrow> QueueAttributes \<Rightarrow> QueueAttributes \<Rightarrow> int" where
  "prioritizeSmallerResourceShareWithoutTask unl totalResources lQueue rQueue =
     compareShares (GetDominantResourceShare unl (QShare lQueue) totalResources)
                   (GetDominantResourceShare unl (QShare rQueue) totalResources)"

definition prioritizeBasedOnAllocatableShare :: "float64 \<Rightarrow> QueueAttributes \<Rightarrow> QueueAttributes \<Rightarrow> int" where
  "prioritizeBasedOnAllocatableShare unl lQueue rQueue =
     (let lAllocatableShare = GetAllocatableShares unl (QShare lQueue);
          rAllocatableShare = GetAllocatableShares unl (QShare rQueue)
      in if LessInAtLeastOneResource unl lAllocatableShare rAllocatableShare \<and>
            Quantities_LessEqual unl lAllocatableShare rAllocatableShare then lQueuePrioritized
         else if LessInAtLeastOneResource unl rAllocatableShare lAllocatableShare \<and>
            Quantities_LessEqual unl rAllocatableShare lAllocatableShare then rQueuePrioritized
         else equalPrioritization)"

definition prioritizeBasedOnCreationTime :: "QueueAttributes \<Rightarrow> QueueAttributes \<Rightarrow> int" where
  "prioritizeBasedOnCreationTime lQueue rQueue =
     (if CreationTimestamp lQueue < CreationTimestamp rQueue then lQueuePrioritized else rQueuePrioritized)"

subsection \<open>The order\<close>

definition GetQueueOrderResult ::
  "float64 \<Rightarrow> OrderFns \<Rightarrow> ResourceQuantities \<Rightarrow> bool \<Rightarrow> QueueAttributes \<Rightarrow> QueueAttributes \<Rightarrow> PodGroupInfo option \<Rightarrow> PodGroupInfo option \<Rightarrow>
   PodGroupInfo list \<Rightarrow> PodGroupInfo list \<Rightarrow> int \<times> QueueAttributes \<times> QueueAttributes" where
  "GetQueueOrderResult unl fns totalResources priorityInQuota lQueue rQueue lJobInfo rJobInfo lVictims rVictims =
     (let result0 = (if priorityInQuota
                     then prioritizeBasedOnPriorityIfBothQueuesInQuota unl fns lQueue lJobInfo rQueue rJobInfo
                     else equalPrioritization)
      in if result0 \<noteq> equalPrioritization then (result0, lQueue, rQueue) else
      let result = prioritizeUnderUtilized lQueue rQueue
      in if result \<noteq> equalPrioritization then (result, lQueue, rQueue) else
      let result = prioritizeUnderQuotaWithJob unl fns lQueue rQueue lJobInfo rJobInfo
      in if result \<noteq> equalPrioritization then (result, lQueue, rQueue) else
      let result = prioritizePrioritized lQueue rQueue
      in if result \<noteq> equalPrioritization then (result, lQueue, rQueue) else
      let result = penalizeZeroShareWithJob unl fns lQueue rQueue lJobInfo rJobInfo
      in if result \<noteq> equalPrioritization then (result, lQueue, rQueue) else
      let (result, lQueue, rQueue) =
            prioritizeSmallerResourceShare unl fns totalResources lQueue rQueue lJobInfo rJobInfo lVictims rVictims
      in if result \<noteq> equalPrioritization then (result, lQueue, rQueue) else
      let result = prioritizeSmallerResourceShareWithoutTask unl totalResources lQueue rQueue
      in if result \<noteq> equalPrioritization then (result, lQueue, rQueue) else
      let result = prioritizeBasedOnAllocatableShare unl lQueue rQueue
      in if result \<noteq> equalPrioritization then (result, lQueue, rQueue) else
      (prioritizeBasedOnCreationTime lQueue rQueue, lQueue, rQueue))"

text \<open>
  The comparator the plugin registers, over the queues of the plugin; the session asks the registered
  comparators in turn and falls back to creation time and UID.
\<close>

definition queueOrder ::
  "float64 \<Rightarrow> OrderFns \<Rightarrow> ResourceQuantities \<Rightarrow> bool \<Rightarrow> QueueMap \<Rightarrow> QueueInfo \<Rightarrow> QueueInfo \<Rightarrow> PodGroupInfo option \<Rightarrow> PodGroupInfo option \<Rightarrow>
   PodGroupInfo list \<Rightarrow> PodGroupInfo list \<Rightarrow> int" where
  "queueOrder unl fns totalResource priorityInQuota qs lQ rQ lJob rJob lVictims rVictims =
     (case map_of qs (qi_UID lQ) of
        None \<Rightarrow> 1
      | Some lQueueAttributes \<Rightarrow>
          (case map_of qs (qi_UID rQ) of
             None \<Rightarrow> - 1
           | Some rQueueAttributes \<Rightarrow>
               fst (GetQueueOrderResult unl fns totalResource priorityInQuota lQueueAttributes rQueueAttributes
                      lJob rJob lVictims rVictims)))"

type_synonym QueueCompareFn =
  "QueueInfo \<Rightarrow> QueueInfo \<Rightarrow> PodGroupInfo option \<Rightarrow> PodGroupInfo option \<Rightarrow> PodGroupInfo list \<Rightarrow> PodGroupInfo list \<Rightarrow> int"

fun ssn_QueueOrderFn ::
  "QueueCompareFn list \<Rightarrow> QueueInfo \<Rightarrow> QueueInfo \<Rightarrow> PodGroupInfo option \<Rightarrow> PodGroupInfo option \<Rightarrow> PodGroupInfo list \<Rightarrow> PodGroupInfo list \<Rightarrow> bool" where
  "ssn_QueueOrderFn [] lQ rQ lJob rJob lVictims rVictims =
     (if qi_CreationTimestamp lQ = qi_CreationTimestamp rQ then qi_UID lQ < qi_UID rQ
      else qi_CreationTimestamp lQ < qi_CreationTimestamp rQ)"
| "ssn_QueueOrderFn (qof # fns) lQ rQ lJob rJob lVictims rVictims =
     (let j = qof lQ rQ lJob rJob lVictims rVictims
      in if j \<noteq> 0 then j < 0 else ssn_QueueOrderFn fns lQ rQ lJob rJob lVictims rVictims)"

subsection \<open>The queues are restored\<close>

lemma updAllocated_shares:
  "ResourceShareOf (QShare (updAllocated f q)) r =
     ResourceShareOf (QShare q) r\<lparr>allocated := f r (allocated (ResourceShareOf (QShare q) r))\<rparr>"
  by (cases r) (simp_all add: updAllocated_def AllResources_def)

lemma updAllocated_compose: "updAllocated f (updAllocated g q) = updAllocated (\<lambda>r a. f r (g r a)) q"
  by (simp add: updAllocated_def AllResources_def)

lemma updAllocated_const: "updAllocated (\<lambda>r a. GetAllocatedShare (QShare q) r) q = q"
  by (simp add: updAllocated_def AllResources_def GetAllocatedShare_def buildResourceQuantities_def)

lemma withoutVictims_updAllocated:
  "\<exists>g. fold (\<lambda>victim. updAllocated (\<lambda>r a. a - Q victim r)) victims (updAllocated f q) = updAllocated g q"
proof (induction victims arbitrary: f)
  case (Cons v vs)
  then show ?case by (simp add: updAllocated_compose)
qed auto

lemma calculateDominantResourceShareWithJob_restores [simp]:
  "snd (calculateDominantResourceShareWithJob unl fns tot q j vs) = q"
proof -
  obtain g where "fold (\<lambda>victim. updAllocated (\<lambda>r a. a - QuantifyVector (AllocatedVector victim) (pg_VectorMap victim) r)) vs
      (updAllocated (\<lambda>r a. a + quantifyJobInitResources fns j r) q) = updAllocated g q"
    using withoutVictims_updAllocated [where Q = "\<lambda>victim. QuantifyVector (AllocatedVector victim) (pg_VectorMap victim)"] by blast
  then show ?thesis
    by (simp add: calculateDominantResourceShareWithJob_def Let_def updAllocated_compose updAllocated_const)
qed

subsection \<open>The key of a queue\<close>

text \<open>
  What the comparators look at, smaller first: over its fair share, over its deserved quota with the job,
  lower priority, using what it may not use, the dominant share with the job and without it.
\<close>

type_synonym queueKey = "bool \<times> bool \<times> int \<times> bool \<times> float64 \<times> float64"

definition queueKey ::
  "float64 \<Rightarrow> OrderFns \<Rightarrow> ResourceQuantities \<Rightarrow> QueueAttributes \<Rightarrow> PodGroupInfo option \<Rightarrow> PodGroupInfo list \<Rightarrow> queueKey" where
  "queueKey unl fns tot q j vs =
     (FairShareLessThanAllocated (QShare q), \<not> queuesInQuotaWithJob unl fns q j, - Priority q, zeroShareViolation unl fns q j,
      fst (calculateDominantResourceShareWithJob unl fns tot q j vs), GetDominantResourceShare unl (QShare q) tot)"

definition smallerShare :: "float64 \<Rightarrow> QueueAttributes \<Rightarrow> QueueAttributes \<Rightarrow> bool" where
  "smallerShare unl q p \<longleftrightarrow>
     Quantities_LessEqual unl (GetAllocatableShares unl (QShare q)) (GetAllocatableShares unl (QShare p)) \<and>
     \<not> Quantities_LessEqual unl (GetAllocatableShares unl (QShare p)) (GetAllocatableShares unl (QShare q))"

definition queuePrecedes ::
  "float64 \<Rightarrow> OrderFns \<Rightarrow> ResourceQuantities \<Rightarrow> bool \<Rightarrow> QueueAttributes \<Rightarrow> QueueAttributes \<Rightarrow> PodGroupInfo option \<Rightarrow> PodGroupInfo option \<Rightarrow>
   PodGroupInfo list \<Rightarrow> PodGroupInfo list \<Rightarrow> bool" where
  "queuePrecedes unl fns tot prio l r lj rj lvs rvs =
     (if prio \<and> queuesInQuotaWithJob unl fns l lj \<and> queuesInQuotaWithJob unl fns r rj \<and> Priority l \<noteq> Priority r
      then Priority l > Priority r
      else if queueKey unl fns tot l lj lvs \<noteq> queueKey unl fns tot r rj rvs
      then queueKey unl fns tot l lj lvs < queueKey unl fns tot r rj rvs
      else if smallerShare unl l r then True
      else if smallerShare unl r l then False
      else CreationTimestamp l < CreationTimestamp r)"

definition keyCompare :: "'a :: linorder \<Rightarrow> 'a \<Rightarrow> int" where
  "keyCompare a b = (if a < b then - 1 else if b < a then 1 else 0)"

lemma keyCompare_pair:
  "keyCompare (a, b) (c, d) = (if keyCompare a c \<noteq> 0 then keyCompare a c else keyCompare b d)"
  by (auto simp: keyCompare_def less_le)

lemma keyCompare_0 [simp]: "keyCompare a b = 0 \<longleftrightarrow> a = b"
  by (auto simp: keyCompare_def)

lemma keyCompare_iff: "a \<noteq> b \<Longrightarrow> keyCompare a b = (if a < b then - 1 else 1)"
  by (auto simp: keyCompare_def)

lemma comparators_keyCompare:
  "prioritizePrioritized l r = keyCompare (- Priority l) (- Priority r)"
  "prioritizeUnderUtilized l r = keyCompare (FairShareLessThanAllocated (QShare l)) (FairShareLessThanAllocated (QShare r))"
  "prioritizeUnderQuotaWithJob unl fns l r lj rj =
     keyCompare (\<not> queuesInQuotaWithJob unl fns l lj) (\<not> queuesInQuotaWithJob unl fns r rj)"
  "penalizeZeroShareWithJob unl fns l r lj rj = keyCompare (zeroShareViolation unl fns l lj) (zeroShareViolation unl fns r rj)"
  "compareShares a b = keyCompare a b"
  by (auto simp: keyCompare_def prioritizePrioritized_def prioritizeUnderUtilized_def prioritizeUnderQuotaWithJob_def
      penalizeZeroShareWithJob_def compareShares_def lQueuePrioritized_def rQueuePrioritized_def equalPrioritization_def
      queuesInQuotaWithJob_def)

lemma prioritizeSmallerResourceShare_keyCompare:
  "prioritizeSmallerResourceShare unl fns tot l r lj rj lvs rvs =
     (keyCompare (fst (calculateDominantResourceShareWithJob unl fns tot l lj lvs))
                 (fst (calculateDominantResourceShareWithJob unl fns tot r rj rvs)), l, r)"
  using calculateDominantResourceShareWithJob_restores [of unl fns tot l lj lvs]
    calculateDominantResourceShareWithJob_restores [of unl fns tot r rj rvs]
  by (simp add: prioritizeSmallerResourceShare_def comparators_keyCompare split_beta)

lemma GetQueueOrderResult_spec:
  "GetQueueOrderResult unl fns tot prio l r lj rj lvs rvs =
     (if queuePrecedes unl fns tot prio l r lj rj lvs rvs then - 1 else 1, l, r)"
proof -
  let ?K = "keyCompare (queueKey unl fns tot l lj lvs) (queueKey unl fns tot r rj rvs)"
  let ?P = "if prio then prioritizeBasedOnPriorityIfBothQueuesInQuota unl fns l lj r rj else equalPrioritization"
  have last: "(if prioritizeBasedOnAllocatableShare unl l r \<noteq> equalPrioritization then (prioritizeBasedOnAllocatableShare unl l r, l, r)
      else (prioritizeBasedOnCreationTime l r, l, r)) =
      (if smallerShare unl l r then - 1 else if smallerShare unl r l then 1 else if CreationTimestamp l < CreationTimestamp r then - 1 else 1, l, r)"
    by (auto simp: prioritizeBasedOnAllocatableShare_def prioritizeBasedOnCreationTime_def smallerShare_def LessInAtLeastOneResource_def
        Let_def lQueuePrioritized_def rQueuePrioritized_def equalPrioritization_def)
  have "GetQueueOrderResult unl fns tot prio l r lj rj lvs rvs =
      (if ?P \<noteq> 0 then (?P, l, r) else if ?K \<noteq> 0 then (?K, l, r)
       else (if prioritizeBasedOnAllocatableShare unl l r \<noteq> equalPrioritization then (prioritizeBasedOnAllocatableShare unl l r, l, r)
             else (prioritizeBasedOnCreationTime l r, l, r)))"
    unfolding GetQueueOrderResult_def prioritizeSmallerResourceShare_keyCompare queueKey_def keyCompare_pair comparators_keyCompare
      prioritizeSmallerResourceShareWithoutTask_def Let_def equalPrioritization_def split
    by presburger
  moreover have "?P = (if prio \<and> queuesInQuotaWithJob unl fns l lj \<and> queuesInQuotaWithJob unl fns r rj \<and> Priority l \<noteq> Priority r
      then if Priority l > Priority r then - 1 else 1 else 0)"
    by (auto simp: prioritizeBasedOnPriorityIfBothQueuesInQuota_def comparators_keyCompare equalPrioritization_def keyCompare_def)
  ultimately show ?thesis by (auto simp: last queuePrecedes_def keyCompare_def)
qed

text \<open>C23. The comparison of two queues is the lexicographic one: when the priority strategy is on and both
  queues stay within their quota with their job, the priority decides; otherwise, in this order, a queue
  within its fair share, a queue within its deserved quota with its job, a higher priority, a queue that
  uses nothing it has no share of, a smaller dominant share with the job, and a smaller one without it go
  first; then the queue whose allocatable share is dominated; then the older one. The answer is never 0,
  and the queues, whose allocated amounts the comparison overwrites, come back unchanged.\<close>

theorem queue_order_lexicographic:
  "GetQueueOrderResult unl fns tot prio l r lj rj lvs rvs =
     (if queuePrecedes unl fns tot prio l r lj rj lvs rvs then - 1 else 1, l, r)"
  by (rule GetQueueOrderResult_spec)

subsection \<open>Where the comparison is not an order\<close>

lemma smallerShare_asym: "smallerShare unl l r \<Longrightarrow> \<not> smallerShare unl r l"
  by (simp add: smallerShare_def)

text \<open>Queues created at different times are compared the same way from both sides.\<close>

lemma queuePrecedes_asym:
  assumes "CreationTimestamp l \<noteq> CreationTimestamp r"
  shows "queuePrecedes unl fns tot prio l r lj rj lvs rvs \<longleftrightarrow> \<not> queuePrecedes unl fns tot prio r l rj lj rvs lvs"
  using assms smallerShare_asym [of unl l r] by (auto simp: queuePrecedes_def)

text \<open>Queues that tie in everything, the creation time included, each come after the other: the comparator
  never answers 0, so the session's tie-breaker on the UID is not reached.\<close>

lemma queue_order_tie:
  assumes "queueKey unl fns tot l lj lvs = queueKey unl fns tot r rj rvs"
    and "GetAllocatableShares unl (QShare l) = GetAllocatableShares unl (QShare r)"
    and "CreationTimestamp l = CreationTimestamp r"
  shows "fst (GetQueueOrderResult unl fns tot prio l r lj rj lvs rvs) = 1"
    and "fst (GetQueueOrderResult unl fns tot prio r l rj lj rvs lvs) = 1"
  using assms by (auto simp: GetQueueOrderResult_spec queuePrecedes_def smallerShare_def queueKey_def)

text \<open>Three queues that use nothing, with no candidate job.\<close>

definition idleQueue :: "QueueID \<Rightarrow> float64 \<Rightarrow> float64 \<Rightarrow> int \<Rightarrow> QueueAttributes" where
  "idleQueue qid cpu gpu created =
     (let share = (\<lambda>d. EmptyResource\<lparr>deserved := d, maxAllowed := - 1\<rparr>)
      in \<lparr>UID = qid, QueueName = qid, DisplayName = qid, ParentQueue = '''', ChildQueues = [], CreationTimestamp = created, Priority = 100,
          QShare = \<lparr>CPU = share cpu, Memory = share 1, GPU = share gpu, lastDeservedShare = None, lastFairShare = None\<rparr>\<rparr>)"

definition idleInfo :: "QueueID \<Rightarrow> int \<Rightarrow> QueueInfo" where
  "idleInfo qid created = (NewQueueInfo 100 (exampleCR qid ''''))\<lparr>qi_CreationTimestamp := created\<rparr>"

definition cyclicQueues :: QueueMap where
  "cyclicQueues = [(''a'', idleQueue ''a'' 1000 1 3), (''b'', idleQueue ''b'' 2000 2 1), (''c'', idleQueue ''c'' 3000 0 2)]"

lemma idle_key:
  assumes "0 \<le> cpu" "0 \<le> gpu"
  shows "queueKey (- 1) fns tot (idleQueue qid cpu gpu t) None [] = (False, False, - 100, False, 0, 0)"
proof -
  let ?q = "idleQueue qid cpu gpu t"
  have upd: "updAllocated (\<lambda>r a. a + quantifyJobInitResources fns None r) ?q = ?q"
    by (simp add: updAllocated_def AllResources_def quantifyJobInitResources_def EmptyResourceQuantities_def idleQueue_def EmptyResource_def)
  have alloc: "allocated (ResourceShareOf (QShare ?q) r) = 0" for r
    by (cases r) (simp_all add: idleQueue_def EmptyResource_def)
  have des: "deserved (ResourceShareOf (QShare ?q) r) \<ge> 0" for r
    using assms by (cases r) (simp_all add: idleQueue_def EmptyResource_def)
  have "dominantValue (- 1) tot (QShare ?q) r = 0" for r
    unfolding dominantValue_def Let_def alloc by simp
  then have dom: "GetDominantResourceShare (- 1) (QShare ?q) tot = 0"
    by (simp add: GetDominantResourceShare_def AllResources_def)
  have quota: "queuesInQuotaWithJob (- 1) fns ?q None"
    unfolding queuesInQuotaWithJob_def AllocatedPlusResourcesLessEqualDeserved_iff
  proof
    fix r
    show "quantity_le (- 1) (allocated (ResourceShareOf (QShare ?q) r) +
        ResourceQuantityFromVector r (jobInitResources fns None) (jobVectorMap None)) (deserved (ResourceShareOf (QShare ?q) r))"
      using des [of r] tolerance_nonneg unfolding alloc
      by (cases r) (auto simp: jobInitResources_def jobVectorMap_def Get_def quantity_le_def)
  qed
  have "\<not> zeroShareViolation (- 1) fns ?q None" "\<not> FairShareLessThanAllocated (QShare ?q)"
    by (simp_all add: zeroShareViolation_def FairShareLessThanAllocated_def AllResources_def idleQueue_def EmptyResource_def
        Quantities_Add_def GetAllocatedShare_def buildResourceQuantities_def quantifyJobInitResources_def EmptyResourceQuantities_def)
  then show ?thesis
    by (simp add: queueKey_def quota dom upd calculateDominantResourceShareWithJob_def) (simp add: idleQueue_def)
qed

lemma idle_precedes:
  assumes "0 \<le> cx" "0 \<le> gx" "0 \<le> cy" "0 \<le> gy"
  shows "fst (GetQueueOrderResult (- 1) fns tot prio (idleQueue x cx gx tx) (idleQueue y cy gy ty) None None [] []) < 0 \<longleftrightarrow>
    (let le = (\<lambda>c c'. LessOrEqualWithTolerance c c'); below = le cx cy \<and> le gx gy; above = le cy cx \<and> le gy gx
     in if below \<noteq> above then below else tx < ty)"
proof -
  have s: "GetAllocatableShares (- 1) (QShare (idleQueue qid c g t)) = NewResourceQuantities c 1 g" if "0 \<le> c" "0 \<le> g" for qid c g t
  proof
    fix r show "GetAllocatableShares (- 1) (QShare (idleQueue qid c g t)) r = NewResourceQuantities c 1 g r"
      using that by (cases r) (simp_all add: GetAllocatableShares_def buildResourceQuantities_def GetAllocatableShare_def AllResources_def
        idleQueue_def EmptyResource_def)
  qed
  have p: "Priority (idleQueue x cx gx tx) = Priority (idleQueue y cy gy ty)" "CreationTimestamp (idleQueue q c g t) = t" for q c g t
    by (simp_all add: idleQueue_def)
  have le: "Quantities_LessEqual (- 1) (NewResourceQuantities c 1 g) (NewResourceQuantities c' 1 g') \<longleftrightarrow>
      LessOrEqualWithTolerance c c' \<and> LessOrEqualWithTolerance g g'" if "0 \<le> c" "0 \<le> g" "0 \<le> c'" "0 \<le> g'" for c g c' g'
    using that tolerance_nonneg by (auto simp: Quantities_LessEqual_def AllResources_def compareQuantities_def LessOrEqualWithTolerance_iff)
  show ?thesis
    using assms by (simp add: GetQueueOrderResult_spec queuePrecedes_def idle_key p smallerShare_def s le) (auto simp: Let_def)
qed

text \<open>C24. The session's order of queues has cycles. Three queues that use nothing differ only in their share
  and age: \<open>a\<close> has less than \<open>b\<close> of everything and goes first, while \<open>c\<close>, with more CPU and fewer GPUs, is
  comparable with neither, so its age decides, before \<open>a\<close> and after \<open>b\<close>.\<close>

theorem queue_order_cycle:
  "let before = (\<lambda>l r. ssn_QueueOrderFn [queueOrder (- 1) fns tot prio cyclicQueues] l r None None [] [])
   in before (idleInfo ''a'' 3) (idleInfo ''b'' 1) \<and> before (idleInfo ''b'' 1) (idleInfo ''c'' 2) \<and>
      before (idleInfo ''c'' 2) (idleInfo ''a'' 3)"
proof -
  have order: "queueOrder (- 1) fns tot prio cyclicQueues (idleInfo x t) (idleInfo y u) None None [] [] =
      fst (GetQueueOrderResult (- 1) fns tot prio l r None None [] [])"
    if "map_of cyclicQueues x = Some l" "map_of cyclicQueues y = Some r" for x y t u l r
    using that by (simp add: queueOrder_def idleInfo_def NewQueueInfo_def exampleCR_def)
  have neg: "j < 0 \<Longrightarrow> (if j \<noteq> 0 then j < 0 else b)" for j :: int and b by simp
  show ?thesis
    unfolding ssn_QueueOrderFn.simps Let_def
    by (intro conjI neg; subst order; (simp add: cyclicQueues_def)?)
      (simp_all add: idle_precedes LessOrEqualWithTolerance_iff floatComparisonTolerance_def)
qed

end
