(* ===== verification/Fair_Share_Laws.thy ===== *)
theory Fair_Share_Laws
  imports Resource_Division
begin

text \<open>
  Laws of the fair-share division of \<open>Resource_Division\<close>.

  The key step is a closed form of one round: in exact arithmetic the early exit of the inner
  loop (\<^verbatim>\<open>totalResourceAmount == 0\<close>) never changes what a queue receives, so a round hands every
  queue the amount \<open>roundGive\<close> that depends on the state at the start of the round only. From it
  follow termination, conservation, the bounds, work conservation and the independence of the
  result from the order in which Go visits its maps.
\<close>

subsection \<open>Handing out amounts\<close>

abbreviation FS :: "queue_heap \<Rightarrow> ResourceName \<Rightarrow> QueueID \<Rightarrow> float64" where
  "FS h r q \<equiv> fairShare (share h r q)"

abbreviation RQ :: "float64 \<Rightarrow> queue_heap \<Rightarrow> ResourceName \<Rightarrow> QueueID \<Rightarrow> float64" where
  "RQ unl h r q \<equiv> GetRequestableShare unl (share h r q)"

definition giveAll :: "ResourceName \<Rightarrow> QueueID set \<Rightarrow> (QueueID \<Rightarrow> float64) \<Rightarrow> queue_heap \<Rightarrow> queue_heap" where
  "giveAll r S g h =
     (\<lambda>q. if q \<in> S then (h q)\<lparr>QShare := AddResourceShare r (g q) (QShare (h q))\<rparr> else h q)"

text \<open>What the division leaves alone: everything but the fair share of the divided resource.\<close>

definition only_fair :: "ResourceName \<Rightarrow> queue_heap \<Rightarrow> queue_heap \<Rightarrow> bool" where
  "only_fair r h h' \<longleftrightarrow>
     (\<forall>q. UID (h' q) = UID (h q) \<and> Priority (h' q) = Priority (h q) \<and>
          CreationTimestamp (h' q) = CreationTimestamp (h q) \<and>
          ParentQueue (h' q) = ParentQueue (h q) \<and> ChildQueues (h' q) = ChildQueues (h q) \<and>
          share h' r q = (share h r q)\<lparr>fairShare := FS h' r q\<rparr> \<and>
          (\<forall>r'. r' \<noteq> r \<longrightarrow> share h' r' q = share h r' q) \<and>
          (h' q = h q \<or> lastFairShare (QShare (h' q)) = None))"

lemma only_fair_refl [simp]: "only_fair r h h"
  by (simp add: only_fair_def)

lemma only_fair_trans:
  assumes "only_fair r h h'" and "only_fair r h' h''"
  shows "only_fair r h h''"
proof -
  have "share h'' r q = (share h r q)\<lparr>fairShare := FS h'' r q\<rparr>" for q
  proof -
    have 1: "share h'' r q = (share h' r q)\<lparr>fairShare := FS h'' r q\<rparr>"
      using assms(2) unfolding only_fair_def by blast
    have 2: "share h' r q = (share h r q)\<lparr>fairShare := FS h' r q\<rparr>"
      using assms(1) unfolding only_fair_def by blast
    have "(share h' r q)\<lparr>fairShare := x\<rparr> = (share h r q)\<lparr>fairShare := x\<rparr>" for x
      by (subst 2) simp
    with 1 show ?thesis by metis
  qed
  moreover have "h'' q = h q \<or> lastFairShare (QShare (h'' q)) = None" for q
    using assms unfolding only_fair_def by metis
  ultimately show ?thesis using assms unfolding only_fair_def by simp
qed

lemma share_giveAll:
  "share (giveAll r S g h) r' q =
     (if q \<in> S \<and> r' = r then (share h r q)\<lparr>fairShare := FS h r q + g q\<rparr> else share h r' q)"
  by (auto simp: giveAll_def queue_share_def)

lemma giveAll_sel [simp]:
  "UID (giveAll r S g h q) = UID (h q)" "Priority (giveAll r S g h q) = Priority (h q)"
  "CreationTimestamp (giveAll r S g h q) = CreationTimestamp (h q)"
  "ParentQueue (giveAll r S g h q) = ParentQueue (h q)" "ChildQueues (giveAll r S g h q) = ChildQueues (h q)"
  by (simp_all add: giveAll_def)

lemma only_fair_giveAll [simp]: "only_fair r h (giveAll r S g h)"
proof -
  have "giveAll r S g h q = h q \<or> lastFairShare (QShare (giveAll r S g h q)) = None" for q
    by (simp add: giveAll_def AddResourceShare_def)
  then show ?thesis by (simp add: only_fair_def share_giveAll)
qed

lemma giveAll_empty [simp]: "giveAll r {} g h = h"
  by (simp add: giveAll_def)

lemma addShare_giveAll: "addShare h q r a = giveAll r {q} (\<lambda>_. a) h"
  by (auto simp: addShare_def giveAll_def)

lemma giveAll_cong:
  "S = S' \<Longrightarrow> (\<And>q. q \<in> S' \<Longrightarrow> g q = g' q) \<Longrightarrow> giveAll r S g h = giveAll r S' g' h"
  by (auto simp: giveAll_def fun_eq_iff)

lemma giveAll_addShare:
  "q \<notin> S \<Longrightarrow> giveAll r S g (addShare h q r (g q)) = giveAll r (insert q S) g h"
  by (auto simp: giveAll_def addShare_def fun_eq_iff)

lemma only_fair_share:
  assumes "only_fair r h h'"
  shows "RQ unl h' r q = RQ unl h r q" "overQuotaWeight (share h' r q) = overQuotaWeight (share h r q)"
    "usage (share h' r q) = usage (share h r q)" "deserved (share h' r q) = deserved (share h r q)"
    "UID (h' q) = UID (h q)" "Priority (h' q) = Priority (h q)"
    "CreationTimestamp (h' q) = CreationTimestamp (h q)" "request (share h' r q) = request (share h r q)"
    "maxAllowed (share h' r q) = maxAllowed (share h r q)"
proof -
  have eq: "share h' r q = (share h r q)\<lparr>fairShare := FS h' r q\<rparr>"
    using assms by (simp add: only_fair_def)
  show "RQ unl h' r q = RQ unl h r q" "overQuotaWeight (share h' r q) = overQuotaWeight (share h r q)"
    "usage (share h' r q) = usage (share h r q)" "deserved (share h' r q) = deserved (share h r q)"
    "request (share h' r q) = request (share h r q)" "maxAllowed (share h' r q) = maxAllowed (share h r q)"
    by (subst eq, simp)+
  show "UID (h' q) = UID (h q)" "Priority (h' q) = Priority (h q)"
    "CreationTimestamp (h' q) = CreationTimestamp (h q)"
    using assms by (simp_all add: only_fair_def)
qed

lemma satisfied_iff: "isQueueSatisfied unl rs \<longleftrightarrow> GetRequestableShare unl rs \<le> fairShare rs"
  by (auto simp: isQueueSatisfied_def GetRequestableShare_def)

lemma remaining_requested: "getRemainingRequested unl rs = max 0 (GetRequestableShare unl rs - fairShare rs)"
  by (simp add: getRemainingRequested_def Let_def)

subsection \<open>The deserved phase\<close>

lemma setDeserved_fold:
  assumes "distinct queues"
  shows "fold (\<lambda>qid (h, remainingAmount).
             let amount = deservedAmount unl T (share h r qid)
             in (addShare h qid r amount, remainingAmount - amount)) queues (h, t) =
    (giveAll r (set queues) (\<lambda>q. deservedAmount unl T (share h r q)) h,
     t - (\<Sum>q\<leftarrow>queues. deservedAmount unl T (share h r q)))"
  using assms
proof (induction queues arbitrary: h t)
  case Nil
  then show ?case by simp
next
  case (Cons q qs)
  let ?g = "\<lambda>q. deservedAmount unl T (share h r q)"
  let ?h = "addShare h q r (?g q)"
  have same: "share ?h r p = share h r p" if "p \<in> set qs" for p
    using that Cons.prems by (auto simp: addShare_giveAll share_giveAll)
  have g: "giveAll r (set qs) (\<lambda>p. deservedAmount unl T (share ?h r p)) ?h = giveAll r (set (q # qs)) ?g h"
    using Cons.prems same giveAll_addShare [of q "set qs" r ?g h]
      giveAll_cong [of "set qs" "set qs" "\<lambda>p. deservedAmount unl T (share ?h r p)" ?g r ?h] by simp
  have "(\<Sum>p\<leftarrow>qs. deservedAmount unl T (share ?h r p)) = (\<Sum>p\<leftarrow>qs. ?g p)"
    using same by (intro arg_cong [of _ _ sum_list] map_cong) auto
  then show ?case using Cons g by (simp add: Let_def)
qed

lemma setDeserved_closed:
  "distinct queues \<Longrightarrow> setDeservedResource unl T queues r h =
    (giveAll r (set queues) (\<lambda>q. deservedAmount unl T (share h r q)) h,
     T - (\<Sum>q\<leftarrow>queues. deservedAmount unl T (share h r q)))"
  unfolding setDeservedResource_def by (rule setDeserved_fold)

lemma deservedAmount_le: "deservedAmount unl T rs \<le> GetRequestableShare unl rs"
  by (simp add: deservedAmount_def Let_def)

subsection \<open>One round in closed form\<close>

definition activeQueue :: "float64 \<Rightarrow> ResourceShare \<Rightarrow> bool" where
  "activeQueue unl rs \<longleftrightarrow> \<not> isQueueSatisfied unl rs \<and> overQuotaWeight rs \<noteq> 0"

definition roundGive :: "float64 \<Rightarrow> float64 \<Rightarrow> ResourceShare \<Rightarrow> float64" where
  "roundGive unl f rs =
     (if \<not> activeQueue unl rs then 0
      else if getRemainingRequested unl rs \<le> f then getRemainingRequested unl rs
      else max 0 (of_int \<lfloor>f\<rfloor>))"

definition roundEntry ::
  "float64 \<Rightarrow> float64 \<Rightarrow> ResourceShare \<Rightarrow> QueueID \<Rightarrow> remainingRequestedResource option \<Rightarrow>
   remainingRequestedResource option" where
  "roundEntry unl f rs q e =
     (if \<not> activeQueue unl rs then e
      else if getRemainingRequested unl rs \<le> f then None
      else if f - roundGive unl f rs > 0 then Some \<lparr>rr_queue = q, remainingAmount = f - roundGive unl f rs\<rparr>
      else e)"

definition roundAgain :: "float64 \<Rightarrow> float64 \<Rightarrow> ResourceShare \<Rightarrow> bool" where
  "roundAgain unl f rs \<longleftrightarrow> activeQueue unl rs \<and> getRemainingRequested unl rs < f"

text \<open>The state after a round in which queue \<open>q\<close> is offered \<open>f q\<close>.\<close>

definition round_post ::
  "float64 \<Rightarrow> ResourceName \<Rightarrow> (QueueID \<Rightarrow> float64) \<Rightarrow> QueueID list \<Rightarrow> round_state \<Rightarrow> round_state \<Rightarrow> bool" where
  "round_post unl r f ids s s' \<longleftrightarrow>
     (let g = (\<lambda>q. roundGive unl (f q) (share (st_heap s) r q)) in
      st_heap s' = giveAll r {q \<in> set ids. g q \<noteq> 0} g (st_heap s) \<and>
      st_total s' = st_total s - (\<Sum>q\<leftarrow>ids. g q) \<and>
      map_of (st_rem s') = (\<lambda>q. if q \<in> set ids
         then roundEntry unl (f q) (share (st_heap s) r q) q (map_of (st_rem s) q)
         else map_of (st_rem s) q) \<and>
      (wf_gomap (st_rem s) \<longrightarrow> wf_gomap (st_rem s')) \<and>
      (st_again s' \<longleftrightarrow> st_again s \<or> (\<exists>q\<in>set ids. roundAgain unl (f q) (share (st_heap s) r q))))"

lemma active_requested: "activeQueue unl rs \<Longrightarrow> 0 < getRemainingRequested unl rs"
  by (simp add: activeQueue_def satisfied_iff remaining_requested)

lemma roundGive_bounds:
  "0 \<le> roundGive unl f rs" "0 \<le> f \<Longrightarrow> roundGive unl f rs \<le> f"
  "roundGive unl f rs \<le> getRemainingRequested unl rs"
proof -
  have req: "0 \<le> getRemainingRequested unl rs" by (simp add: remaining_requested)
  then show "0 \<le> roundGive unl f rs" by (simp add: roundGive_def)
  show "0 \<le> f \<Longrightarrow> roundGive unl f rs \<le> f" by (simp add: roundGive_def)
  have "of_int \<lfloor>f\<rfloor> \<le> f" by simp
  then show "roundGive unl f rs \<le> getRemainingRequested unl rs"
    using req unfolding roundGive_def by (auto simp del: of_int_floor_le)
qed

lemma round_zero [simp]:
  "roundGive unl 0 rs = 0" "roundEntry unl 0 rs q e = e" "\<not> roundAgain unl 0 rs"
  using active_requested [of unl rs]
  by (auto simp: roundGive_def roundEntry_def roundAgain_def)

lemma round_inactive:
  "\<not> activeQueue unl rs \<Longrightarrow> roundGive unl f rs = 0 \<and> roundEntry unl f rs q e = e \<and> \<not> roundAgain unl f rs"
  by (simp add: roundGive_def roundEntry_def roundAgain_def)

lemma getResourceToGive_alt:
  "getResourceToGiveInCurrentRound f requested q uid m =
     (if requested \<le> f then (requested, AList.delete uid m)
      else (max 0 (of_int \<lfloor>f\<rfloor>),
            if f - max 0 (of_int \<lfloor>f\<rfloor>) > 0
            then AList.update uid \<lparr>rr_queue = q, remainingAmount = f - max 0 (of_int \<lfloor>f\<rfloor>)\<rparr> m else m))"
proof -
  have "(if x > 0 then x else 0) = max 0 x" for x :: float64 by (simp add: max_def)
  then show ?thesis by (simp only: getResourceToGiveInCurrentRound_def Let_def)
qed

lemma getResourceToGive_closed:
  assumes "activeQueue unl rs"
    and "getResourceToGiveInCurrentRound f (getRemainingRequested unl rs) q q m = (a, m')"
  shows "a = roundGive unl f rs" "map_of m' = (map_of m)(q := roundEntry unl f rs q (map_of m q))"
    "wf_gomap m \<longrightarrow> wf_gomap m'"
  using assms unfolding getResourceToGive_alt
  by (auto simp: roundGive_def roundEntry_def fun_eq_iff simp del: of_int_floor_le split: if_splits)

lemma round_again_gives: "roundAgain unl f rs \<Longrightarrow> roundGive unl f rs = getRemainingRequested unl rs \<and> roundGive unl f rs \<noteq> 0"
  using active_requested [of unl rs] by (auto simp: roundAgain_def roundGive_def)

lemma round_post_skip:
  assumes "\<forall>q\<in>set ids. f q = 0"
  shows "round_post unl r f ids s s"
proof -
  have "(\<Sum>q\<leftarrow>ids. roundGive unl (f q) (share (st_heap s) r q)) = 0"
    using assms by (induction ids) auto
  moreover have "{q \<in> set ids. roundGive unl (f q) (share (st_heap s) r q) \<noteq> 0} = {}"
    using assms by auto
  ultimately show ?thesis using assms
    by (simp only: round_post_def Let_def giveAll_empty) (auto simp: fun_eq_iff)
qed

text \<open>One step of the inner loop, followed by the rest of the round.\<close>

lemma round_post_step:
  assumes "q \<notin> set ids"
    and heap: "st_heap s1 = (if roundGive unl (f q) (share (st_heap s) r q) = 0 then st_heap s
                 else addShare (st_heap s) q r (roundGive unl (f q) (share (st_heap s) r q)))"
    and tot: "st_total s1 = st_total s - roundGive unl (f q) (share (st_heap s) r q)"
    and rem: "map_of (st_rem s1) =
      (map_of (st_rem s))(q := roundEntry unl (f q) (share (st_heap s) r q) q (map_of (st_rem s) q))"
    and wf: "wf_gomap (st_rem s) \<longrightarrow> wf_gomap (st_rem s1)"
    and again: "st_again s1 \<longleftrightarrow> st_again s \<or> roundAgain unl (f q) (share (st_heap s) r q)"
    and rest: "round_post unl r f ids s1 s'"
  shows "round_post unl r f (q # ids) s s'"
proof -
  let ?g = "\<lambda>q. roundGive unl (f q) (share (st_heap s) r q)"
  have same: "share (st_heap s1) r p = share (st_heap s) r p" if "p \<in> set ids" for p
    using that assms(1) by (auto simp: heap addShare_giveAll share_giveAll)
  let ?S = "{q \<in> set ids. ?g q \<noteq> 0}"
  have "giveAll r {q \<in> set ids. roundGive unl (f q) (share (st_heap s1) r q) \<noteq> 0}
          (\<lambda>q. roundGive unl (f q) (share (st_heap s1) r q)) (st_heap s1) = giveAll r ?S ?g (st_heap s1)"
    using same by (intro giveAll_cong) auto
  also have "\<dots> = giveAll r {p \<in> set (q # ids). ?g p \<noteq> 0} ?g (st_heap s)"
  proof (cases "?g q = 0")
    case True
    then have "st_heap s1 = st_heap s" using heap by simp
    moreover have "{p \<in> set (q # ids). ?g p \<noteq> 0} = ?S" using True by auto
    ultimately show ?thesis by simp
  next
    case False
    have "giveAll r ?S ?g (addShare (st_heap s) q r (?g q)) = giveAll r (insert q ?S) ?g (st_heap s)"
      using assms(1) by (intro giveAll_addShare) auto
    moreover have "insert q ?S = {p \<in> set (q # ids). ?g p \<noteq> 0}" using False by auto
    ultimately show ?thesis using False heap by simp
  qed
  finally have 1: "st_heap s' = giveAll r {p \<in> set (q # ids). ?g p \<noteq> 0} ?g (st_heap s)"
    using rest by (simp add: round_post_def Let_def)
  have "(\<Sum>p\<leftarrow>ids. roundGive unl (f p) (share (st_heap s1) r p)) = (\<Sum>p\<leftarrow>ids. ?g p)"
    using same by (intro arg_cong [of _ _ sum_list] map_cong) auto
  then have 2: "st_total s' = st_total s - (\<Sum>p\<leftarrow>q # ids. ?g p)"
    using rest tot by (simp add: round_post_def Let_def)
  show ?thesis
    using 1 2 rest rem wf again same assms(1) unfolding round_post_def Let_def
    by (auto simp: fun_eq_iff)
qed

text \<open>The closed form of the inner loop. The offers must fit into what is left.\<close>

lemma giveRound_closed:
  assumes "distinct ids" and "\<forall>q\<in>set ids. UID (st_heap s q) = q"
    and "\<forall>q\<in>set ids. 0 \<le> A * (goGet w q / W)" and "(\<Sum>q\<leftarrow>ids. A * (goGet w q / W)) \<le> st_total s"
  shows "round_post unl r (\<lambda>q. A * (goGet w q / W)) ids s (giveRound unl r A w W ids s)"
  using assms
proof (induction ids arbitrary: s)
  case Nil
  then show ?case by (simp add: round_post_skip)
next
  case (Cons q ids)
  let ?f = "\<lambda>q. A * (goGet w q / W)" and ?rs = "share (st_heap s) r q"
  have nonneg: "\<forall>x\<in>set (map ?f ids). 0 \<le> x" using Cons.prems(3) by simp
  have IH: "round_post unl r ?f ids s1 (giveRound unl r A w W ids s1)"
    if "\<forall>p\<in>set ids. UID (st_heap s1 p) = p" "(\<Sum>p\<leftarrow>ids. ?f p) \<le> st_total s1" for s1
    using Cons.IH that Cons.prems by simp
  consider (stop) "st_total s = 0" | (inactive) "st_total s \<noteq> 0" "\<not> activeQueue unl ?rs"
    | (active) "st_total s \<noteq> 0" "activeQueue unl ?rs" by blast
  then show ?case
  proof cases
    case stop
    have "\<forall>x\<in>set (map ?f (q # ids)). 0 \<le> x" using Cons.prems(3) by simp
    moreover have "sum_list (map ?f (q # ids)) \<le> 0" using Cons.prems(4) stop by simp
    ultimately have "\<forall>x\<in>set (map ?f (q # ids)). x = 0"
      by (metis sum_list_nonneg_eq_0_iff sum_list_nonneg antisym)
    then have "\<forall>p\<in>set (q # ids). ?f p = 0" unfolding set_map by blast
    then have "round_post unl r ?f (q # ids) s s" by (rule round_post_skip)
    moreover have "giveRound unl r A w W (q # ids) s = s" using stop by simp
    ultimately show ?thesis by (simp only:)
  next
    case inactive
    then have "giveRound unl r A w W (q # ids) s = giveRound unl r A w W ids s"
      by (auto simp: activeQueue_def Let_def)
    moreover have "round_post unl r ?f ids s (giveRound unl r A w W ids s)"
      using Cons.prems by (intro IH) auto
    ultimately show ?thesis
      using round_post_step [of q ids s unl ?f s r] round_inactive [OF inactive(2)] Cons.prems(1) by simp
  next
    case active
    obtain a m' where give: "getResourceToGiveInCurrentRound (?f q) (getRemainingRequested unl ?rs) q q (st_rem s) = (a, m')"
      by (cases "getResourceToGiveInCurrentRound (?f q) (getRemainingRequested unl ?rs) q q (st_rem s)")
    note closed = getResourceToGive_closed [OF active(2) give]
    have uid: "UID (st_heap s q) = q" using Cons.prems(2) by simp
    let ?s1 = "if a = 0 then s\<lparr>st_rem := m'\<rparr> else \<lparr>st_heap = addShare (st_heap s) q r a,
      st_total = st_total s - a, st_rem = m',
      st_again = (st_again s \<or> getRemainingRequested unl ?rs < ?f q)\<rparr>"
    have step: "giveRound unl r A w W (q # ids) s = giveRound unl r A w W ids ?s1"
      using active give uid by (simp add: activeQueue_def Let_def)
    have a: "0 \<le> ?f q" "a \<le> ?f q" using Cons.prems(3) closed(1) roundGive_bounds(2) by auto
    have tot: "st_total ?s1 = st_total s - a" by simp
    have "round_post unl r ?f ids ?s1 (giveRound unl r A w W ids ?s1)"
      using Cons.prems(2,4) a tot by (intro IH) (auto simp: addShare_def)
    moreover have "st_again ?s1 \<longleftrightarrow> st_again s \<or> roundAgain unl (?f q) ?rs"
      using round_again_gives [of unl "?f q" ?rs] active(2) closed(1) by (auto simp: roundAgain_def)
    ultimately show ?thesis unfolding step
      using closed Cons.prems(1) by (intro round_post_step [where ?s1.0 = ?s1]) auto
  qed
qed

subsection \<open>Weights in closed form\<close>

definition totalWeight :: "float64 \<Rightarrow> QueueID list \<Rightarrow> ResourceName \<Rightarrow> queue_heap \<Rightarrow> float64" where
  "totalWeight unl queues r h =
     (\<Sum>q\<leftarrow>queues. if isQueueSatisfied unl (share h r q) then 0 else overQuotaWeight (share h r q))"

definition roundWeight :: "float64 \<Rightarrow> float64 \<Rightarrow> QueueID list \<Rightarrow> ResourceName \<Rightarrow> queue_heap \<Rightarrow> QueueID \<Rightarrow> float64" where
  "roundWeight unl k queues r h q =
     (if totalWeight unl queues r h = 0 \<or> isQueueSatisfied unl (share h r q) then 0
      else shareWeight k (totalWeight unl queues r h) (share h r q))"

definition weightSum :: "float64 \<Rightarrow> float64 \<Rightarrow> QueueID list \<Rightarrow> ResourceName \<Rightarrow> queue_heap \<Rightarrow> float64" where
  "weightSum unl k queues r h = (\<Sum>q\<leftarrow>queues. roundWeight unl k queues r h q)"

definition offer :: "float64 \<Rightarrow> float64 \<Rightarrow> QueueID list \<Rightarrow> ResourceName \<Rightarrow> queue_heap \<Rightarrow> float64 \<Rightarrow> QueueID \<Rightarrow> float64" where
  "offer unl k queues r h tot q = tot * (roundWeight unl k queues r h q / weightSum unl k queues r h)"

lemma fold_add_if: "fold (\<lambda>x t. if P x then t + f x else t) xs t0 = t0 + (\<Sum>x\<leftarrow>xs. if P x then f x else (0 :: 'n :: comm_monoid_add))"
  by (induction xs arbitrary: t0) (auto simp: algebra_simps)

lemma getTotalWeights_closed: "getTotalWeightsForUnsatisfied unl queues r h = totalWeight unl queues r h"
proof -
  have "(0 < getRemainingRequested unl rs) = (\<not> isQueueSatisfied unl rs)" for rs
    by (auto simp: remaining_requested satisfied_iff)
  moreover have "(if \<not> b then x else 0) = (if b then 0 else x)" for b and x :: float64 by simp
  ultimately show ?thesis
    by (simp only: getTotalWeightsForUnsatisfied_def totalWeight_def fold_add_if add_0)
qed

lemma calcShareWeights_fold:
  assumes "distinct queues" and "\<forall>q\<in>set queues. UID (h q) = q"
  shows "fold (\<lambda>qid (perQueue, sm). if isQueueSatisfied unl (share h r qid) then (perQueue, sm)
             else let w = shareWeight k T (share h r qid) in (perQueue(UID (h qid) \<mapsto> w), sm + w)) queues (m, t) =
    (\<lambda>q. if q \<in> set queues \<and> \<not> isQueueSatisfied unl (share h r q) then Some (shareWeight k T (share h r q)) else m q,
     t + (\<Sum>q\<leftarrow>queues. if isQueueSatisfied unl (share h r q) then 0 else shareWeight k T (share h r q)))"
  using assms
proof (induction queues arbitrary: m t)
  case (Cons q qs)
  then show ?case by (auto simp: Let_def fun_eq_iff)
qed simp

lemma calcShareWeights_closed:
  assumes "distinct queues" and "\<forall>q\<in>set queues. UID (h q) = q"
    and "calcShareWeights unl queues r k h = (w, W)"
  shows "W = weightSum unl k queues r h" "\<forall>q\<in>set queues. goGet w q = roundWeight unl k queues r h q"
  using assms(3) calcShareWeights_fold [OF assms(1,2), of unl r k "totalWeight unl queues r h" Map.empty 0]
  by (auto simp: calcShareWeights_def getTotalWeights_closed Let_def weightSum_def roundWeight_def goGet_def
      split: if_splits intro!: arg_cong [of _ _ sum_list])

lemma roundWeight_nonneg: "0 \<le> roundWeight unl k queues r h q"
  by (simp add: roundWeight_def shareWeight_def Let_def)

lemma weightSum_nonneg: "0 \<le> weightSum unl k queues r h"
  by (auto simp: weightSum_def intro!: sum_list_nonneg roundWeight_nonneg)

lemma offer_nonneg: "0 \<le> tot \<Longrightarrow> 0 \<le> offer unl k queues r h tot q"
  by (simp add: offer_def roundWeight_nonneg weightSum_nonneg)

lemma sum_list_scale: "(\<Sum>x\<leftarrow>xs. c * (f x / d)) = c * ((\<Sum>x\<leftarrow>xs. f x) / (d :: rat))"
  by (induction xs) (simp_all add: algebra_simps add_divide_distrib)

lemma offer_sum:
  "weightSum unl k queues r h \<noteq> 0 \<Longrightarrow> (\<Sum>q\<leftarrow>queues. offer unl k queues r h tot q) = tot"
  unfolding offer_def sum_list_scale by (simp add: weightSum_def)

subsection \<open>The reference division\<close>

text \<open>The rounds as a relation on the queues, the amount left and the map of entitlements that
  were rounded down. It knows nothing of the order in which queues are visited.\<close>

type_synonym div_state = "queue_heap \<times> float64 \<times> (QueueID \<rightharpoonup> remainingRequestedResource)"

definition spec_give :: "float64 \<Rightarrow> float64 \<Rightarrow> QueueID list \<Rightarrow> ResourceName \<Rightarrow> queue_heap \<Rightarrow> float64 \<Rightarrow> QueueID \<Rightarrow> float64" where
  "spec_give unl k queues r h tot q = roundGive unl (offer unl k queues r h tot q) (share h r q)"

definition spec_round :: "float64 \<Rightarrow> float64 \<Rightarrow> QueueID list \<Rightarrow> ResourceName \<Rightarrow> div_state \<Rightarrow> div_state" where
  "spec_round unl k queues r s =
     (case s of (h, tot, m) \<Rightarrow>
        (giveAll r {q \<in> set queues. spec_give unl k queues r h tot q \<noteq> 0} (spec_give unl k queues r h tot) h,
         tot - (\<Sum>q\<leftarrow>queues. spec_give unl k queues r h tot q),
         \<lambda>q. if q \<in> set queues then roundEntry unl (offer unl k queues r h tot q) (share h r q) q (m q) else m q))"

definition spec_again :: "float64 \<Rightarrow> float64 \<Rightarrow> QueueID list \<Rightarrow> ResourceName \<Rightarrow> div_state \<Rightarrow> bool" where
  "spec_again unl k queues r s =
     (case s of (h, tot, m) \<Rightarrow> \<exists>q\<in>set queues. roundAgain unl (offer unl k queues r h tot q) (share h r q))"

inductive fair_rounds :: "float64 \<Rightarrow> float64 \<Rightarrow> QueueID list \<Rightarrow> ResourceName \<Rightarrow> div_state \<Rightarrow> div_state \<Rightarrow> bool"
  for unl k queues r where
  idle: "weightSum unl k queues r (fst s) = 0 \<Longrightarrow> fair_rounds unl k queues r s s"
| last: "weightSum unl k queues r (fst s) \<noteq> 0 \<Longrightarrow> s' = spec_round unl k queues r s \<Longrightarrow>
    \<not> spec_again unl k queues r s \<or> fst (snd s') = 0 \<Longrightarrow> fair_rounds unl k queues r s s'"
| more: "weightSum unl k queues r (fst s) \<noteq> 0 \<Longrightarrow> s' = spec_round unl k queues r s \<Longrightarrow>
    spec_again unl k queues r s \<Longrightarrow> fst (snd s') \<noteq> 0 \<Longrightarrow> fair_rounds unl k queues r s' s'' \<Longrightarrow>
    fair_rounds unl k queues r s s''"

inductive_cases fair_roundsE: "fair_rounds unl k queues r s s'"

lemma fair_rounds_det: "fair_rounds unl k queues r s s1 \<Longrightarrow> fair_rounds unl k queues r s s2 \<Longrightarrow> s1 = s2"
proof (induction arbitrary: s2 rule: fair_rounds.induct)
  case (idle s)
  show ?case by (rule fair_roundsE [OF idle.prems]) (use idle.hyps in auto)
next
  case (last s s')
  show ?case by (rule fair_roundsE [OF last.prems]) (use last.hyps in auto)
next
  case (more s s' s'')
  from more.hyps have "\<not> (\<not> spec_again unl k queues r s \<or> fst (snd (spec_round unl k queues r s)) = 0)" by simp
  with more.hyps(1,2) have "fair_rounds unl k queues r s' s2"
    by - (rule fair_roundsE [OF more.prems], simp_all)
  then show ?case by (rule more.IH)
qed

lemma round_post_cong:
  assumes "round_post unl r f ids s s'" and "mset ids = mset ids'" and "\<forall>q\<in>set ids'. f q = f' q"
  shows "round_post unl r f' ids' s s'"
proof -
  have set: "set ids = set ids'" using assms(2) by (metis set_mset_mset)
  have "(\<Sum>q\<leftarrow>ids. roundGive unl (f q) (share (st_heap s) r q)) = (\<Sum>q\<leftarrow>ids'. roundGive unl (f q) (share (st_heap s) r q))"
    using assms(2) by (rule sum_list_mset_eq)
  also have "\<dots> = (\<Sum>q\<leftarrow>ids'. roundGive unl (f' q) (share (st_heap s) r q))"
    using assms(3) by (intro arg_cong [of _ _ sum_list] map_cong) auto
  finally have sum: "(\<Sum>q\<leftarrow>ids. roundGive unl (f q) (share (st_heap s) r q)) =
    (\<Sum>q\<leftarrow>ids'. roundGive unl (f' q) (share (st_heap s) r q))" .
  have heap: "giveAll r {q \<in> set ids'. roundGive unl (f q) (share (st_heap s) r q) \<noteq> 0}
      (\<lambda>q. roundGive unl (f q) (share (st_heap s) r q)) (st_heap s) =
    giveAll r {q \<in> set ids'. roundGive unl (f' q) (share (st_heap s) r q) \<noteq> 0}
      (\<lambda>q. roundGive unl (f' q) (share (st_heap s) r q)) (st_heap s)"
    using assms(3) by (intro giveAll_cong) auto
  show ?thesis using assms(1,3) unfolding round_post_def Let_def set sum heap by (auto simp: fun_eq_iff)
qed

subsection \<open>The rounds end\<close>

definition unsatisfied :: "float64 \<Rightarrow> QueueID list \<Rightarrow> ResourceName \<Rightarrow> queue_heap \<Rightarrow> QueueID set" where
  "unsatisfied unl queues r h = {q \<in> set queues. \<not> isQueueSatisfied unl (share h r q)}"

lemma spec_give_bounds:
  assumes "0 \<le> tot"
  shows "0 \<le> spec_give unl k queues r h tot q" "spec_give unl k queues r h tot q \<le> offer unl k queues r h tot q"
    "spec_give unl k queues r h tot q \<le> getRemainingRequested unl (share h r q)"
  using roundGive_bounds offer_nonneg [OF assms] by (simp_all add: spec_give_def)

lemma spec_round_FS:
  "FS (fst (spec_round unl k queues r (h, tot, m))) r q =
     FS h r q + (if q \<in> set queues then spec_give unl k queues r h tot q else 0)"
  by (auto simp: spec_round_def share_giveAll)

lemma spec_round_only_fair [simp]: "only_fair r h (fst (spec_round unl k queues r (h, tot, m)))"
  by (simp add: spec_round_def)

lemma spec_round_outside: "q \<notin> set queues \<Longrightarrow> fst (spec_round unl k queues r (h, tot, m)) q = h q"
  by (simp add: spec_round_def giveAll_def)

lemma spec_round_total_nonneg:
  assumes "0 \<le> tot" and "weightSum unl k queues r h \<noteq> 0"
  shows "0 \<le> fst (snd (spec_round unl k queues r (h, tot, m)))"
proof -
  have "(\<Sum>q\<leftarrow>queues. spec_give unl k queues r h tot q) \<le> (\<Sum>q\<leftarrow>queues. offer unl k queues r h tot q)"
    using spec_give_bounds(2) [OF assms(1)] by (intro sum_list_mono)
  then show ?thesis using offer_sum [OF assms(2)] by (simp add: spec_round_def)
qed

lemma spec_round_satisfied_mono:
  assumes "isQueueSatisfied unl (share h r q)"
  shows "isQueueSatisfied unl (share (fst (spec_round unl k queues r (h, tot, m))) r q)"
proof -
  have "spec_give unl k queues r h tot q = 0"
    using assms by (simp add: spec_give_def roundGive_def activeQueue_def)
  then show ?thesis
    using assms spec_round_FS [of unl k queues r h tot m q]
      only_fair_share(1) [OF spec_round_only_fair, of unl unl k queues r h tot m q]
    by (simp add: satisfied_iff)
qed

lemma spec_again_progress:
  assumes "spec_again unl k queues r (h, tot, m)"
  shows "card (unsatisfied unl queues r (fst (spec_round unl k queues r (h, tot, m)))) < card (unsatisfied unl queues r h)"
proof -
  let ?h = "fst (spec_round unl k queues r (h, tot, m))"
  from assms obtain q where q: "q \<in> set queues" "roundAgain unl (offer unl k queues r h tot q) (share h r q)"
    by (auto simp: spec_again_def)
  have give: "spec_give unl k queues r h tot q = getRemainingRequested unl (share h r q)"
    using round_again_gives [OF q(2)] by (simp add: spec_give_def)
  have un: "q \<in> unsatisfied unl queues r h"
    using q by (simp add: unsatisfied_def roundAgain_def activeQueue_def)
  have "q \<notin> unsatisfied unl queues r ?h"
    using give q(1) spec_round_FS [of unl k queues r h tot m q]
      only_fair_share(1) [OF spec_round_only_fair, of unl unl k queues r h tot m q]
    by (simp add: unsatisfied_def satisfied_iff remaining_requested)
  moreover have "unsatisfied unl queues r ?h \<subseteq> unsatisfied unl queues r h"
    using spec_round_satisfied_mono unfolding unsatisfied_def by blast
  ultimately show ?thesis using un by (intro psubset_card_mono) (auto simp: unsatisfied_def)
qed

lemma spec_give_fun:
  "spec_give unl k queues r h tot = (\<lambda>q. roundGive unl (offer unl k queues r h tot q) (share h r q))"
  by (simp add: fun_eq_iff spec_give_def)

text \<open>One iteration of the outer loop is a round of the reference.\<close>

lemma giveRound_refines:
  assumes "distinct queues" and "\<forall>q\<in>set queues. UID (h q) = q" and "mset ids = mset queues"
    and "0 \<le> tot" and "weightSum unl k queues r h \<noteq> 0" and "wf_gomap rem"
    and "\<forall>q\<in>set queues. goGet w q = roundWeight unl k queues r h q"
    and "s' = giveRound unl r tot w (weightSum unl k queues r h) ids
           \<lparr>st_heap = h, st_total = tot, st_rem = rem, st_again = False\<rparr>"
  shows "(st_heap s', st_total s', map_of (st_rem s')) = spec_round unl k queues r (h, tot, map_of rem)"
    "st_again s' = spec_again unl k queues r (h, tot, map_of rem)" "wf_gomap (st_rem s')"
proof -
  let ?s = "\<lparr>st_heap = h, st_total = tot, st_rem = rem, st_again = False\<rparr>" and ?W = "weightSum unl k queues r h"
  have set: "set ids = set queues" using assms(3) by (metis set_mset_mset)
  have dist: "distinct ids" using assms(1,3) by (metis mset_eq_imp_distinct_iff)
  have f: "\<forall>q\<in>set queues. tot * (goGet w q / ?W) = offer unl k queues r h tot q"
    using assms(7) by (simp add: offer_def)
  have "(\<Sum>q\<leftarrow>ids. tot * (goGet w q / ?W)) = (\<Sum>q\<leftarrow>queues. tot * (goGet w q / ?W))"
    using assms(3) by (rule sum_list_mset_eq)
  also have "\<dots> = (\<Sum>q\<leftarrow>queues. offer unl k queues r h tot q)"
    using f by (intro arg_cong [of _ _ sum_list] map_cong) auto
  also have "\<dots> = tot" using offer_sum assms(5) by blast
  finally have sum: "(\<Sum>q\<leftarrow>ids. tot * (goGet w q / ?W)) \<le> st_total ?s" by simp
  have nn: "\<forall>q\<in>set ids. 0 \<le> tot * (goGet w q / ?W)"
    unfolding set using f offer_nonneg [OF assms(4)] by metis
  have "round_post unl r (\<lambda>q. tot * (goGet w q / ?W)) ids ?s s'"
    unfolding assms(8) by (rule giveRound_closed [OF dist _ nn sum]) (use assms(2) set in simp)
  then have "round_post unl r (offer unl k queues r h tot) queues ?s s'"
    using assms(3) f by (rule round_post_cong)
  then show "(st_heap s', st_total s', map_of (st_rem s')) = spec_round unl k queues r (h, tot, map_of rem)"
    "st_again s' = spec_again unl k queues r (h, tot, map_of rem)" "wf_gomap (st_rem s')"
    using assms(6) by (simp_all add: round_post_def spec_round_def spec_again_def spec_give_fun Let_def cong: if_cong)
qed

lemma divideRounds_refines:
  assumes "distinct queues" and "\<forall>n. mset (ord n queues) = mset queues"
    and "\<forall>q\<in>set queues. UID (h q) = q" and "0 \<le> tot" and "wf_gomap rem"
  shows "\<exists>h' tot' rem'. divideRounds unl ord k queues r n h tot rem = Some (h', tot', rem') \<and> wf_gomap rem' \<and>
    fair_rounds unl k queues r (h, tot, map_of rem) (h', tot', map_of rem')"
  using assms(3-5)
proof (induction "card (unsatisfied unl queues r h)" arbitrary: n h tot rem rule: less_induct)
  case less
  obtain w W where calc: "calcShareWeights unl queues r k h = (w, W)" by (cases "calcShareWeights unl queues r k h")
  note W = calcShareWeights_closed [OF assms(1) less.prems(1) calc]
  define s where "s = giveRound unl r tot w W (ord n queues)
    \<lparr>st_heap = h, st_total = tot, st_rem = rem, st_again = False\<rparr>"
  have unfold: "divideRounds unl ord k queues r n h tot rem =
    (if W = 0 then Some (h, tot, rem)
     else if \<not> st_again s \<or> st_total s = 0 then Some (st_heap s, st_total s, st_rem s)
     else divideRounds unl ord k queues r (Suc n) (st_heap s) (st_total s) (st_rem s))"
    by (subst divideRounds.simps) (simp add: calc s_def Let_def)
  show ?case
  proof (cases "W = 0")
    case True
    then show ?thesis using unfold W(1) less.prems(3) fair_rounds.idle [of unl k queues r "(h, tot, map_of rem)"] by simp
  next
    case False
    let ?S = "spec_round unl k queues r (h, tot, map_of rem)"
    have ws: "weightSum unl k queues r h \<noteq> 0" using False W(1) by simp
    note ref = giveRound_refines [OF assms(1) less.prems(1) assms(2)[rule_format, of n] less.prems(2) ws less.prems(3) W(2),
        of s, unfolded W(1) [symmetric], OF s_def]
    have heap: "st_heap s = fst ?S" "st_total s = fst (snd ?S)" using ref(1) by (metis fst_conv snd_conv)+
    show ?thesis
    proof (cases "\<not> st_again s \<or> st_total s = 0")
      case True
      then have "fair_rounds unl k queues r (h, tot, map_of rem) (st_heap s, st_total s, map_of (st_rem s))"
        using ws ref(1,2) heap by (intro fair_rounds.last) auto
      then show ?thesis using unfold False True ref(3) by auto
    next
      case again: False
      then have "card (unsatisfied unl queues r (st_heap s)) < card (unsatisfied unl queues r h)"
        using spec_again_progress ref(2) heap by simp
      moreover have "\<forall>q\<in>set queues. UID (st_heap s q) = q"
        using less.prems(1) only_fair_share(5) [OF spec_round_only_fair] heap by metis
      moreover have "0 \<le> st_total s" using spec_round_total_nonneg [OF less.prems(2) ws] heap by simp
      ultimately obtain h' tot' rem' where
        rec: "divideRounds unl ord k queues r (Suc n) (st_heap s) (st_total s) (st_rem s) = Some (h', tot', rem')"
        "wf_gomap rem'" "fair_rounds unl k queues r (st_heap s, st_total s, map_of (st_rem s)) (h', tot', map_of rem')"
        using less.hyps ref(3) by blast
      then have "fair_rounds unl k queues r (h, tot, map_of rem) (h', tot', map_of rem')"
        using ws again ref(1,2) heap
        by - (rule fair_rounds.more [OF _ refl], simp_all)
      then show ?thesis using unfold False again rec by auto
    qed
  qed
qed

subsection \<open>What the rounds guarantee\<close>

abbreviation sumFS :: "queue_heap \<Rightarrow> ResourceName \<Rightarrow> QueueID list \<Rightarrow> float64" where
  "sumFS h r queues \<equiv> (\<Sum>q\<leftarrow>queues. FS h r q)"

text \<open>Between two states of a division over \<open>queues\<close>: only fair shares of \<open>r\<close> change, only those of
  \<open>queues\<close>, they never shrink, nothing is created or lost, and nothing is overdrawn.\<close>

definition div_frame :: "QueueID list \<Rightarrow> ResourceName \<Rightarrow> queue_heap \<Rightarrow> float64 \<Rightarrow> queue_heap \<Rightarrow> float64 \<Rightarrow> bool" where
  "div_frame queues r h tot h' tot' \<longleftrightarrow>
     only_fair r h h' \<and> (\<forall>q. q \<notin> set queues \<longrightarrow> h' q = h q) \<and> (\<forall>q. FS h r q \<le> FS h' r q) \<and>
     0 \<le> tot' \<and> tot' + sumFS h' r queues = tot + sumFS h r queues"

lemma div_frame_refl: "0 \<le> tot \<Longrightarrow> div_frame queues r h tot h tot"
  by (simp add: div_frame_def)

lemma div_frame_trans:
  assumes "div_frame queues r h t h' t'" and "div_frame queues r h' t' h'' t''"
  shows "div_frame queues r h t h'' t''"
  using assms only_fair_trans [of r h h' h''] unfolding div_frame_def
  by (metis order.trans)

lemma spec_round_frame:
  assumes "0 \<le> tot" and "weightSum unl k queues r h \<noteq> 0"
  shows "div_frame queues r h tot (fst (spec_round unl k queues r (h, tot, m))) (fst (snd (spec_round unl k queues r (h, tot, m))))"
proof -
  let ?g = "spec_give unl k queues r h tot"
  have "sumFS (fst (spec_round unl k queues r (h, tot, m))) r queues = (\<Sum>q\<leftarrow>queues. FS h r q + ?g q)"
    by (intro arg_cong [of _ _ sum_list] map_cong) (simp_all add: spec_round_FS)
  then have "sumFS (fst (spec_round unl k queues r (h, tot, m))) r queues = sumFS h r queues + (\<Sum>q\<leftarrow>queues. ?g q)"
    by (simp add: sum_list_addf)
  moreover have "fst (snd (spec_round unl k queues r (h, tot, m))) = tot - (\<Sum>q\<leftarrow>queues. ?g q)"
    by (simp add: spec_round_def)
  ultimately show ?thesis
    using spec_round_total_nonneg [OF assms, of m] spec_give_bounds(1) [OF assms(1), of unl k queues r h]
    unfolding div_frame_def by (simp add: spec_round_FS spec_round_outside)
qed

lemma fair_rounds_frame:
  "fair_rounds unl k queues r s s' \<Longrightarrow> 0 \<le> fst (snd s) \<Longrightarrow>
     div_frame queues r (fst s) (fst (snd s)) (fst s') (fst (snd s'))"
proof (induction rule: fair_rounds.induct)
  case (idle s)
  then show ?case by (simp add: div_frame_refl)
next
  case (last s s')
  then show ?case by (cases s) (simp add: spec_round_frame)
next
  case (more s s' s'')
  have step: "div_frame queues r (fst s) (fst (snd s)) (fst s') (fst (snd s'))"
    using more.hyps(1,2) more.prems by (cases s) (simp add: spec_round_frame)
  then show ?case using more.IH by (meson div_frame_trans div_frame_def)
qed

lemma spec_round_le:
  "0 \<le> tot \<Longrightarrow> FS (fst (spec_round unl k queues r (h, tot, m))) r q \<le> max (FS h r q) (RQ unl h r q)"
  using spec_give_bounds(3) [of tot unl k queues r h q]
  by (simp add: spec_round_FS remaining_requested max_def split: if_splits)

lemma fair_rounds_le:
  "fair_rounds unl k queues r s s' \<Longrightarrow> 0 \<le> fst (snd s) \<Longrightarrow>
     FS (fst s') r q \<le> max (FS (fst s) r q) (RQ unl (fst s) r q)"
proof (induction rule: fair_rounds.induct)
  case (last s s')
  then show ?case by (cases s) (simp only: fst_conv snd_conv spec_round_le)
next
  case (more s s' s'')
  obtain h tot m where s: "s = (h, tot, m)" by (cases s)
  have "FS (fst s') r q \<le> max (FS h r q) (RQ unl h r q)" using more s spec_round_le by simp
  moreover have "RQ unl (fst s') r q = RQ unl h r q" using more.hyps(2) only_fair_share(1) [OF spec_round_only_fair] s by simp
  moreover have "0 \<le> fst (snd s')" using spec_round_total_nonneg more s by simp
  ultimately show ?case using more.IH by (simp add: s)
qed simp

text \<open>The entitlements that were rounded down belong to queues that still want more.\<close>

definition rem_ok :: "float64 \<Rightarrow> QueueID list \<Rightarrow> ResourceName \<Rightarrow> queue_heap \<Rightarrow> (QueueID \<rightharpoonup> remainingRequestedResource) \<Rightarrow> bool" where
  "rem_ok unl queues r h m \<longleftrightarrow>
     (\<forall>q x. m q = Some x \<longrightarrow> rr_queue x = q \<and> q \<in> set queues \<and> FS h r q < RQ unl h r q)"

lemma roundGive_below:
  assumes "0 \<le> f" and "activeQueue unl rs" and "\<not> getRemainingRequested unl rs \<le> f"
  shows "fairShare rs + roundGive unl f rs < GetRequestableShare unl rs"
  using assms roundGive_bounds(2) [OF assms(1), of unl rs]
  by (simp add: remaining_requested max_def split: if_splits)

lemma spec_round_rem_ok:
  assumes "rem_ok unl queues r h m" and "0 \<le> tot"
  shows "rem_ok unl queues r (fst (spec_round unl k queues r (h, tot, m))) (snd (snd (spec_round unl k queues r (h, tot, m))))"
proof -
  let ?h = "fst (spec_round unl k queues r (h, tot, m))" and ?m = "snd (snd (spec_round unl k queues r (h, tot, m)))"
  have "rr_queue x = q \<and> q \<in> set queues \<and> FS ?h r q < RQ unl ?h r q" if x: "?m q = Some x" for q x
  proof -
    let ?f = "offer unl k queues r h tot q" and ?rs = "share h r q"
    have RQ: "RQ unl ?h r q = RQ unl h r q" by (rule only_fair_share(1) [OF spec_round_only_fair])
    have in_q: "q \<in> set queues" using x assms(1) by (auto simp: spec_round_def rem_ok_def split: if_splits)
    then have e: "roundEntry unl ?f ?rs q (m q) = Some x" using x by (simp add: spec_round_def)
    have FS: "FS ?h r q = FS h r q + roundGive unl ?f ?rs"
      using in_q by (simp add: spec_round_FS spec_give_def)
    have old: "m q = Some x \<Longrightarrow> rr_queue x = q \<and> FS h r q < RQ unl h r q" using assms(1) by (simp add: rem_ok_def)
    show ?thesis
    proof (cases "activeQueue unl ?rs")
      case True
      then have nle: "\<not> getRemainingRequested unl ?rs \<le> ?f" and "rr_queue x = q"
        using e old by (auto simp: roundEntry_def split: if_splits)
      then show ?thesis using in_q RQ FS roundGive_below [OF offer_nonneg [OF assms(2)] True nle] by simp
    next
      case False
      then show ?thesis using e old in_q RQ FS round_inactive [OF False] by simp
    qed
  qed
  then show ?thesis unfolding rem_ok_def by blast
qed

lemma fair_rounds_rem_ok:
  "fair_rounds unl k queues r s s' \<Longrightarrow> 0 \<le> fst (snd s) \<Longrightarrow> rem_ok unl queues r (fst s) (snd (snd s)) \<Longrightarrow>
     rem_ok unl queues r (fst s') (snd (snd s'))"
proof (induction rule: fair_rounds.induct)
  case (last s s')
  then show ?case by (cases s) (simp add: spec_round_rem_ok)
next
  case (more s s' s'')
  then have "rem_ok unl queues r (fst s') (snd (snd s'))" and "0 \<le> fst (snd s')"
    by (cases s; simp add: spec_round_rem_ok spec_round_total_nonneg)+
  then show ?case using more.IH by blast
qed simp

subsection \<open>What is left after the rounds\<close>

lemma zero_weight_offer:
  assumes "0 \<le> k" and "0 \<le> usage (share h r q)" and "\<not> activeQueue unl (share h r q)"
  shows "offer unl k queues r h tot q = 0"
  using assms by (auto simp: activeQueue_def offer_def roundWeight_def shareWeight_def Let_def)

lemma spec_round_rounding:
  assumes "0 \<le> tot" and "0 \<le> k" and "0 \<le> usage (share h r q)" and "q \<in> set queues"
    and "\<not> spec_again unl k queues r (h, tot, m)"
  shows "offer unl k queues r h tot q - spec_give unl k queues r h tot q \<le>
    (if snd (snd (spec_round unl k queues r (h, tot, m))) q = None then 0 else 1)"
proof -
  let ?f = "offer unl k queues r h tot q" and ?rs = "share h r q"
  have m': "snd (snd (spec_round unl k queues r (h, tot, m))) q = roundEntry unl ?f ?rs q (m q)"
    using assms(4) by (simp add: spec_round_def)
  show ?thesis
  proof (cases "activeQueue unl ?rs \<and> \<not> getRemainingRequested unl ?rs \<le> ?f")
    case True
    have "?f - of_int \<lfloor>?f\<rfloor> < 1" using floor_correct [of ?f] by linarith
    moreover have "spec_give unl k queues r h tot q = max 0 (of_int \<lfloor>?f\<rfloor>)"
      using True by (simp add: spec_give_def roundGive_def)
    ultimately have "?f - spec_give unl k queues r h tot q < 1" by (simp add: max_def del: of_int_floor_le)
    moreover have "roundEntry unl ?f ?rs q (m q) = None \<Longrightarrow> ?f - spec_give unl k queues r h tot q \<le> 0"
      using True by (simp add: roundEntry_def spec_give_def split: if_splits)
    ultimately show ?thesis using m' by auto
  next
    case False
    have "\<not> getRemainingRequested unl ?rs < ?f" if "activeQueue unl ?rs"
      using assms(4,5) that by (auto simp: spec_again_def roundAgain_def)
    then have "?f - spec_give unl k queues r h tot q \<le> 0"
      using False zero_weight_offer [where k = k and queues = queues and tot = tot] assms(2,3) by (auto simp: spec_give_def roundGive_def)
    then show ?thesis by simp
  qed
qed

lemma fair_rounds_left:
  assumes "fair_rounds unl k queues r s s'" and "0 \<le> fst (snd s)" and "distinct queues" and "0 \<le> k"
    and "\<forall>q\<in>set queues. 0 \<le> usage (share (fst s) r q)"
  shows "weightSum unl k queues r (fst s') = 0 \<or> fst (snd s') \<le> of_nat (card {q \<in> set queues. snd (snd s') q \<noteq> None})"
  using assms(1,2,5)
proof (induction rule: fair_rounds.induct)
  case (last s s')
  obtain h tot m where s: "s = (h, tot, m)" by (cases s)
  show ?case
  proof (cases "spec_again unl k queues r s")
    case False
    let ?d = "\<lambda>q. offer unl k queues r h tot q - spec_give unl k queues r h tot q"
    have "fst (snd s') = (\<Sum>q\<leftarrow>queues. ?d q)"
      using last.hyps(1,2) offer_sum [of unl k queues r h tot] by (simp add: s spec_round_def sum_list_subtractf)
    also have "\<dots> \<le> (\<Sum>q\<leftarrow>queues. if snd (snd s') q = None then 0 else 1)"
      using spec_round_rounding [where tot = tot and k = k and h = h and r = r and queues = queues and unl = unl and m = m] last.prems last.hyps(2) False assms(4)
      by (intro sum_list_mono) (simp add: s)
    also have "\<dots> = of_nat (card {q \<in> set queues. snd (snd s') q \<noteq> None})"
      using assms(3) by (subst sum_list_distinct_conv_sum_set) (simp_all add: sum.If_cases Int_def)
    finally show ?thesis by simp
  qed (use last.hyps(3) in simp)
next
  case (more s s' s'')
  obtain h tot m where s: "s = (h, tot, m)" by (cases s)
  have "0 \<le> fst (snd s')" using spec_round_total_nonneg more s by simp
  moreover have "\<forall>q\<in>set queues. 0 \<le> usage (share (fst s') r q)"
    using more.prems(2) more.hyps(2) only_fair_share(3) [OF spec_round_only_fair] s by simp
  ultimately show ?case using more.IH by blast
qed simp

subsection \<open>The remainder\<close>

interpretation remaining_order: less_fn "remainingRequestedOrderFn h" for h
  by unfold_locales (auto simp: remainingRequestedOrderFn_def split: if_splits)

lemma remaining_order_separates:
  "UID (h (rr_queue x)) \<noteq> UID (h (rr_queue y)) \<Longrightarrow>
     remainingRequestedOrderFn h x y \<or> remainingRequestedOrderFn h y x"
  by (auto simp: remainingRequestedOrderFn_def)

fun giveUnits :: "ResourceName \<Rightarrow> queue_heap \<Rightarrow> float64 \<Rightarrow> QueueID list \<Rightarrow> queue_heap \<times> float64" where
  "giveUnits r h tot [] = (h, tot)"
| "giveUnits r h tot (q # qs) =
     (if tot = 0 then (h, tot) else giveUnits r (addShare h q r (min 1 tot)) (tot - min 1 tot) qs)"

lemma giveRemainder_units:
  assumes "wf_pq (remainingRequestedOrderFn h0) pq"
  shows "giveRemainder r h tot pq = giveUnits r h tot (map rr_queue (fst (pop_upto Pop (Len pq) pq)))"
  using assms
proof (induction "Len pq" arbitrary: pq h tot)
  case 0
  then show ?case by (subst giveRemainder.simps) (simp add: Empty_iff Len_size)
next
  case (Suc n)
  then have ne: "pq_elems pq \<noteq> {#}" by (auto simp: Len_size)
  obtain x q' where pop: "Pop pq = (Some x, q')" "wf_pq (remainingRequestedOrderFn h0) q'" "pq_elems pq = add_mset x (pq_elems q')"
    using remaining_order.heap.pop_least [OF Suc.prems ne] by blast
  have len: "Len pq = Suc (Len q')" "n = Len q'" using pop(3) Suc.hyps(2) by (simp_all add: Len_size)
  have "giveRemainder r h' t q' = giveUnits r h' t (map rr_queue (fst (pop_upto Pop (Len q') q')))" for h' t
    using Suc.hyps(1) [of q'] len pop(2) by simp
  then show ?case using pop(1) ne len by (subst giveRemainder.simps) (simp add: Empty_iff Let_def case_prod_unfold)
qed

text \<open>The queues that get a unit, in the order of the heap: a permutation of the entitlements.\<close>

definition unitOrder :: "queue_heap \<Rightarrow> remaining_map \<Rightarrow> remainingRequestedResource list" where
  "unitOrder h rem = (let pq = sortByOverQuotaWeight h rem in fst (pop_upto Pop (Len pq) pq))"

lemma sortByOverQuotaWeight_wf:
  "wf_pq (remainingRequestedOrderFn h) (sortByOverQuotaWeight h rem)"
  "pq_elems (sortByOverQuotaWeight h rem) = mset (map snd rem)"
  using remaining_order.heap.push_all [OF wf_pq_New, of h "map snd rem"]
  by (simp_all add: sortByOverQuotaWeight_def)

lemma unitOrder_sorted:
  "mset (unitOrder h rem) = mset (map snd rem)"
  "sorted_wrt (\<lambda>x y. \<not> remainingRequestedOrderFn h y x) (unitOrder h rem)"
proof -
  let ?pq = "sortByOverQuotaWeight h rem"
  obtain xs q' where pop: "pop_upto Pop (Len ?pq) ?pq = (xs, q')" by (cases "pop_upto Pop (Len ?pq) ?pq")
  note spec = remaining_order.heap.pop_upto_spec [OF sortByOverQuotaWeight_wf(1) pop]
  have el: "pq_elems ?pq = mset xs + pq_elems q'" using spec by blast
  have "length xs = min (Len ?pq) (size (pq_elems ?pq))" using spec by blast
  then have "length xs = size (pq_elems ?pq)" by (simp only: Len_size min.idem)
  then have "size (pq_elems q') = 0" using arg_cong [OF el, of size] by (simp only: size_union size_mset)
  then show "mset (unitOrder h rem) = mset (map snd rem)"
    using el pop sortByOverQuotaWeight_wf(2) [of h rem]
    by (simp only: unitOrder_def Let_def fst_conv size_eq_0_iff_empty add_0_right)
  show "sorted_wrt (\<lambda>x y. \<not> remainingRequestedOrderFn h y x) (unitOrder h rem)"
    using spec pop by (simp add: unitOrder_def Let_def)
qed

lemma divideRemaining_units:
  "divideRemainingResource tot rem r h = giveUnits r h tot (map rr_queue (unitOrder h rem))"
  unfolding divideRemainingResource_def giveRemainder_units [OF sortByOverQuotaWeight_wf(1)]
  by (simp add: unitOrder_def Let_def)

lemma rem_keys:
  assumes "wf_gomap rem" and "rem_ok unl queues r h (map_of rem)"
  shows "map (\<lambda>e. rr_queue (snd e)) rem = gokeys rem"
  using assms by (auto simp: rem_ok_def set_gomap_conv)

lemma unitOrder_queues:
  assumes "wf_gomap rem" and "rem_ok unl queues r h (map_of rem)"
  shows "mset (map rr_queue (unitOrder h0 rem)) = mset (gokeys rem)"
proof -
  have "mset (map rr_queue (unitOrder h0 rem)) = mset (map rr_queue (map snd rem))"
    using unitOrder_sorted(1) [of h0 rem] by (metis mset_map)
  also have "map rr_queue (map snd rem) = gokeys rem" using rem_keys [OF assms] by (simp add: comp_def)
  finally show ?thesis .
qed

lemma unitOrder_facts:
  assumes "wf_gomap rem" and "rem_ok unl queues r h (map_of rem)"
  shows "distinct (map rr_queue (unitOrder h0 rem))" "set (map rr_queue (unitOrder h0 rem)) \<subseteq> set queues"
    "length (unitOrder h0 rem) = length rem"
    "\<forall>q\<in>set (map rr_queue (unitOrder h0 rem)). FS h r q < RQ unl h r q"
proof -
  note m = unitOrder_queues [OF assms, of h0]
  show "distinct (map rr_queue (unitOrder h0 rem))"
    using m assms(1) unfolding wf_gomap_def by (metis mset_eq_imp_distinct_iff)
  have set: "set (map rr_queue (unitOrder h0 rem)) = dom (map_of rem)"
    using m by (metis dom_map_of_conv_image_fst list.set_map set_mset_mset)
  then show "set (map rr_queue (unitOrder h0 rem)) \<subseteq> set queues"
    "\<forall>q\<in>set (map rr_queue (unitOrder h0 rem)). FS h r q < RQ unl h r q"
    unfolding set using assms(2) by (auto simp: rem_ok_def)
  show "length (unitOrder h0 rem) = length rem"
    using m by (metis length_map size_mset)
qed

lemma unitOrder_unique:
  assumes "wf_gomap rem" and "wf_gomap rem'" and "map_of rem = map_of rem'"
    and "rem_ok unl queues r h (map_of rem)" and "\<forall>q\<in>set queues. UID (h q) = q"
  shows "unitOrder h rem = unitOrder h rem'"
proof (rule remaining_order.sorted_perm_unique)
  have "set rem = set rem'" using assms(1-3) by (auto simp: set_gomap_conv)
  moreover have "distinct rem" "distinct rem'" using assms(1,2) by (simp_all add: wf_gomap_def distinct_map)
  ultimately have "mset rem = mset rem'" by (simp add: set_eq_iff_mset_eq_distinct)
  then show "mset (unitOrder h rem) = mset (unitOrder h rem')"
    unfolding unitOrder_sorted(1) by simp
next
  fix x y assume xy: "x \<in> set (unitOrder h rem)" "y \<in> set (unitOrder h rem)" "x \<noteq> y"
  have "distinct (map rr_queue (unitOrder h rem))" by (rule unitOrder_facts(1) [OF assms(1,4)])
  then have ne: "rr_queue x \<noteq> rr_queue y" using xy by (auto simp: distinct_map inj_on_def)
  have "rr_queue x \<in> set queues" "rr_queue y \<in> set queues"
    using unitOrder_facts(2) [OF assms(1,4), of h] xy by auto
  then show "remainingRequestedOrderFn h x y \<or> remainingRequestedOrderFn h y x"
    using ne assms(5) by (intro remaining_order_separates) simp
qed (rule unitOrder_sorted(2))+

lemma FS_addShare: "FS (addShare h q r a) r = (FS h r)(q := FS h r q + a)"
  by (auto simp: addShare_giveAll share_giveAll)

lemma FS_addShare_apply: "FS (addShare h q r a) r p = (if p = q then FS h r p + a else FS h r p)"
  by (simp add: addShare_giveAll share_giveAll)

lemma addShare_frame:
  assumes "distinct queues" and "q \<in> set queues" and "0 \<le> a" and "a \<le> tot"
  shows "div_frame queues r h tot (addShare h q r a) (tot - a)"
proof -
  have "sumFS (addShare h q r a) r queues = sumFS h r queues + a"
    using sum_list_fun_upd [OF assms(1,2), of "FS h r" "FS h r q + a"]
    by (simp only: FS_addShare)
  moreover have "only_fair r h (addShare h q r a)" by (simp add: addShare_giveAll)
  moreover have "FS h r p \<le> FS (addShare h q r a) r p" for p using assms(3) by (simp add: FS_addShare_apply)
  moreover have "addShare h q r a p = h p" if "p \<notin> set queues" for p using that assms(2) by (auto simp: addShare_def)
  ultimately show ?thesis using assms(4) unfolding div_frame_def by (simp only:) simp
qed

lemma giveUnits_frame:
  assumes "distinct queues" and "set ids \<subseteq> set queues" and "0 \<le> tot"
  shows "div_frame queues r h tot (fst (giveUnits r h tot ids)) (snd (giveUnits r h tot ids))"
  using assms(2,3)
proof (induction ids arbitrary: h tot)
  case (Cons q ids)
  have "div_frame queues r h tot (addShare h q r (min 1 tot)) (tot - min 1 tot)"
    using Cons.prems assms(1) by (intro addShare_frame) auto
  then show ?case using Cons div_frame_trans by (auto simp: div_frame_refl)
qed (simp add: div_frame_refl)

lemma giveUnits_bounds:
  assumes "distinct ids" and "0 \<le> tot"
  shows "FS (fst (giveUnits r h tot ids)) r q \<le> FS h r q + (if q \<in> set ids then 1 else 0)"
    "snd (giveUnits r h tot ids) = max 0 (tot - of_nat (length ids))"
  using assms
proof (induction ids arbitrary: h tot)
  case (Cons p ids)
  {
    case 1
    then show ?case using Cons.IH(1) [of "tot - min 1 tot" "addShare h p r (min 1 tot)"]
      by (auto simp: FS_addShare_apply min_def split: if_splits)
  next
    case 2
    then show ?case using Cons.IH(2) [of "tot - min 1 tot" "addShare h p r (min 1 tot)"]
      by (auto simp: max_def min_def split: if_splits)
  }
qed (auto simp: max_def)

subsection \<open>One priority bucket\<close>

definition map_order_ok :: "map_order \<Rightarrow> bool" where
  "map_order_ok ord \<longleftrightarrow> (\<forall>n xs. mset (ord n xs) = mset xs)"

definition finishBucket :: "ResourceName \<Rightarrow> queue_heap \<times> float64 \<times> remaining_map \<Rightarrow> queue_heap \<times> float64" where
  "finishBucket r x = (case x of (h, tot, rem) \<Rightarrow>
     if tot \<le> 0 \<or> length rem = 0 then (h, tot) else divideRemainingResource tot rem r h)"

lemma overQuotaLoop_Cons:
  "overQuotaLoop unl ord k byPriority r (p # ps) h remaining =
     (if remaining \<le> 0 then Some (h, remaining)
      else case divideUpToFairShare unl ord remaining k (case map_of byPriority p of None \<Rightarrow> [] | Some ids \<Rightarrow> ids) r h of
             None \<Rightarrow> None
           | Some x \<Rightarrow> (case finishBucket r x of (h', t') \<Rightarrow> overQuotaLoop unl ord k byPriority r ps h' t'))"
  by (auto simp: finishBucket_def Let_def split: option.splits prod.splits)

lemma divideUp_refines:
  assumes "distinct ids" and "map_order_ok ord" and "\<forall>q\<in>set ids. UID (h q) = q" and "0 \<le> tot"
  obtains h1 t1 rem where "divideUpToFairShare unl ord tot k ids r h = Some (h1, t1, rem)" "wf_gomap rem"
    "fair_rounds unl k ids r (h, tot, Map.empty) (h1, t1, map_of rem)"
  using divideRounds_refines [OF assms(1) _ assms(3,4) wf_gomap_Nil, of ord unl k r 0] assms(2)
  unfolding divideUpToFairShare_def map_order_ok_def by auto

lemma rem_ok_empty [simp]: "rem_ok unl ids r h Map.empty"
  by (simp add: rem_ok_def)

lemma finishBucket_post:
  assumes "distinct ids" and "0 \<le> tot" and "wf_gomap rem"
    and "fair_rounds unl k ids r (h, tot, Map.empty) (h1, t1, map_of rem)"
    and "finishBucket r (h1, t1, rem) = (h2, t2)"
  shows "div_frame ids r h tot h2 t2" "div_frame ids r h1 t1 h2 t2"
    "FS h2 r q < max (FS h r q) (RQ unl h r q) + 1" "t2 > 0 \<Longrightarrow> of_nat (length rem) < t1"
proof -
  have 1: "div_frame ids r h tot h1 t1" using fair_rounds_frame [OF assms(4)] assms(2) by simp
  then have t1: "0 \<le> t1" by (simp add: div_frame_def)
  have le: "FS h1 r q \<le> max (FS h r q) (RQ unl h r q)" using fair_rounds_le [OF assms(4)] assms(2) by simp
  have ok: "rem_ok unl ids r h1 (map_of rem)" using fair_rounds_rem_ok [OF assms(4)] assms(2) by simp
  note units = unitOrder_facts [OF assms(3) ok, of h1]
  have eq: "finishBucket r (h1, t1, rem) = giveUnits r h1 t1 (map rr_queue (unitOrder h1 rem))"
  proof (cases "t1 \<le> 0 \<or> length rem = 0")
    case True
    then have "t1 = 0 \<or> unitOrder h1 rem = []" using t1 units(3) by auto
    then have "giveUnits r h1 t1 (map rr_queue (unitOrder h1 rem)) = (h1, t1)"
      by (cases "unitOrder h1 rem") auto
    then show ?thesis using True by (simp add: finishBucket_def)
  qed (simp add: finishBucket_def divideRemaining_units)
  show 2: "div_frame ids r h1 t1 h2 t2"
    using giveUnits_frame [OF assms(1) units(2) t1] eq assms(5) by (metis fst_conv snd_conv)
  with 1 show "div_frame ids r h tot h2 t2" by (rule div_frame_trans)
  have "RQ unl h1 r q = RQ unl h r q" using only_fair_share(1) 1 by (simp add: div_frame_def)
  moreover have "FS h2 r q \<le> FS h1 r q + (if q \<in> set (map rr_queue (unitOrder h1 rem)) then 1 else 0)"
    using giveUnits_bounds(1) [OF units(1) t1] eq assms(5) by (metis fst_conv)
  ultimately show "FS h2 r q < max (FS h r q) (RQ unl h r q) + 1"
    using le units(4) by (fastforce split: if_splits simp: max_def)
  have "t2 = max 0 (t1 - of_nat (length rem))"
    using giveUnits_bounds(2) [OF units(1) t1] eq assms(5) units(3) by (metis length_map snd_conv)
  then show "t2 > 0 \<Longrightarrow> of_nat (length rem) < t1" by (simp add: max_def split: if_splits)
qed

text \<open>Something is left over only when no unsatisfied queue has a claim to it.\<close>

lemma weightSum_zero:
  assumes "weightSum unl k ids r h = 0" and "q \<in> set ids" and "\<not> isQueueSatisfied unl (share h r q)"
    and "0 \<le> k" and "k * usage (share h r q) = 0" and "\<forall>p\<in>set ids. 0 \<le> overQuotaWeight (share h r p)"
  shows "overQuotaWeight (share h r q) = 0"
proof -
  let ?w = "\<lambda>p. if isQueueSatisfied unl (share h r p) then 0 else overQuotaWeight (share h r p)"
  have T: "totalWeight unl ids r h = sum_list (map ?w ids)" by (simp add: totalWeight_def)
  have nn: "\<forall>x\<in>set (map ?w ids). 0 \<le> x" using assms(6) by auto
  show ?thesis
  proof (cases "totalWeight unl ids r h = 0")
    case True
    then have "\<forall>x\<in>set (map ?w ids). x = 0"
      using sum_list_nonneg_eq_0_iff [of "map ?w ids"] nn unfolding T by blast
    then show ?thesis using assms(2,3) by auto
  next
    case False
    have pos: "0 < totalWeight unl ids r h" using False T sum_list_nonneg [of "map ?w ids"] nn by fastforce
    have "\<forall>x\<in>set (map (roundWeight unl k ids r h) ids). 0 \<le> x" by (simp add: roundWeight_nonneg)
    then have "\<forall>x\<in>set (map (roundWeight unl k ids r h) ids). x = 0"
      using assms(1) sum_list_nonneg_eq_0_iff [of "map (roundWeight unl k ids r h) ids"]
      unfolding weightSum_def by blast
    then have "shareWeight k (totalWeight unl ids r h) (share h r q) = 0"
      using assms(2,3) False by (auto simp: roundWeight_def)
    moreover define x where "x = overQuotaWeight (share h r q) / totalWeight unl ids r h"
    ultimately have "max 0 (x + k * (x - usage (share h r q))) = 0" by (simp only: shareWeight_def Let_def)
    then have "x + k * (x - usage (share h r q)) \<le> 0" by (metis max.cobounded2)
    then have "x * (1 + k) \<le> 0" using assms(5) by (simp only: right_diff_distrib) (simp add: algebra_simps)
    then have "x \<le> 0" using assms(4) by (simp add: mult_le_0_iff)
    then have "overQuotaWeight (share h r q) / totalWeight unl ids r h \<le> 0" by (simp only: x_def)
    then have "overQuotaWeight (share h r q) \<le> 0" using pos by (simp add: divide_le_0_iff)
    then show ?thesis using assms(2,6) by force
  qed
qed

text \<open>One bucket as a whole: it returns, keeps the frame and the bounds, and if anything is left
  then every queue with a weight is satisfied (\<open>k * usage = 0\<close>: time-based fairness is off).\<close>

definition weights_ok :: "float64 \<Rightarrow> QueueID list \<Rightarrow> ResourceName \<Rightarrow> queue_heap \<Rightarrow> bool" where
  "weights_ok k queues r h \<longleftrightarrow> 0 \<le> k \<and>
     (\<forall>q\<in>set queues. 0 \<le> overQuotaWeight (share h r q) \<and> 0 \<le> usage (share h r q))"

definition served :: "float64 \<Rightarrow> float64 \<Rightarrow> QueueID list \<Rightarrow> ResourceName \<Rightarrow> queue_heap \<Rightarrow> bool" where
  "served unl k queues r h \<longleftrightarrow>
     (\<forall>q\<in>set queues. overQuotaWeight (share h r q) \<noteq> 0 \<longrightarrow> k * usage (share h r q) = 0 \<longrightarrow>
        isQueueSatisfied unl (share h r q))"

lemma served_mono:
  assumes "served unl k ids r h" and "only_fair r h h'" and "\<forall>q. FS h r q \<le> FS h' r q"
  shows "served unl k ids r h'"
  using assms(1,3) only_fair_share [OF assms(2)] unfolding served_def satisfied_iff by (metis order.trans)

lemma bucket_post:
  assumes "distinct ids" and "map_order_ok ord" and "\<forall>q\<in>set ids. UID (h q) = q" and "0 \<le> tot"
  obtains x h2 t2 where "divideUpToFairShare unl ord tot k ids r h = Some x" "finishBucket r x = (h2, t2)"
    "div_frame ids r h tot h2 t2" "\<forall>q. FS h2 r q < max (FS h r q) (RQ unl h r q) + 1"
    "weights_ok k ids r h \<Longrightarrow> 0 < t2 \<Longrightarrow> served unl k ids r h2"
proof -
  obtain h1 t1 rem where up: "divideUpToFairShare unl ord tot k ids r h = Some (h1, t1, rem)" and wf: "wf_gomap rem"
    and rounds: "fair_rounds unl k ids r (h, tot, Map.empty) (h1, t1, map_of rem)"
    using divideUp_refines [OF assms] by blast
  obtain h2 t2 where fin: "finishBucket r (h1, t1, rem) = (h2, t2)" by (cases "finishBucket r (h1, t1, rem)")
  note post = finishBucket_post [OF assms(1,4) wf rounds fin]
  have fr: "div_frame ids r h tot h1 t1" using fair_rounds_frame [OF rounds] assms(4) by simp
  have "served unl k ids r h2" if ok: "weights_ok k ids r h" and pos: "0 < t2"
  proof -
    note same = only_fair_share [of r h h1] 
    have of1: "only_fair r h h1" using fr by (simp add: div_frame_def)
    have ok1: "0 \<le> k" "\<forall>q\<in>set ids. 0 \<le> overQuotaWeight (share h1 r q)"
      using ok same(2) [OF of1] by (simp_all add: weights_ok_def)
    have "card {q \<in> set ids. map_of rem q \<noteq> None} \<le> card (dom (map_of rem))"
      by (intro card_mono) (auto simp: finite_dom_map_of)
    also have "\<dots> \<le> length rem"
      by (metis card_length dom_map_of_conv_image_fst length_map list.set_map)
    finally have "\<not> t1 \<le> of_nat (card {q \<in> set ids. map_of rem q \<noteq> None})"
      using post(4) [OF pos] by (simp add: not_le order.strict_trans1 [OF of_nat_mono])
    then have zero: "weightSum unl k ids r h1 = 0"
      using fair_rounds_left [OF rounds _ assms(1) ok1(1)] ok assms(4) by (simp add: weights_ok_def)
    have "served unl k ids r h1"
      using weightSum_zero [OF zero _ _ ok1(1) _ ok1(2)] unfolding served_def by blast
    then show ?thesis using post(2) served_mono unfolding div_frame_def by blast
  qed
  then show thesis using that up fin post(1,3) by blast
qed

subsection \<open>Priority buckets\<close>

lemma byPriority_fold:
  "map_of (fold (\<lambda>qid m. let p = Priority (h qid);
                         m' = (case map_of m p of None \<Rightarrow> AList.update p [] m | Some _ \<Rightarrow> m)
                     in case map_of m' p of None \<Rightarrow> m' | Some ids \<Rightarrow> AList.update p (ids @ [qid]) m')
             queues m) p =
   (let new = filter (\<lambda>q. Priority (h q) = p) queues
    in case map_of m p of None \<Rightarrow> if new = [] then None else Some new | Some ids \<Rightarrow> Some (ids @ new))"
  by (induction queues arbitrary: m) (auto simp: Let_def split: option.splits)

lemma byPriority_wf:
  "wf_gomap m \<Longrightarrow> wf_gomap (fold (\<lambda>qid m. let p = Priority (h qid);
                         m' = (case map_of m p of None \<Rightarrow> AList.update p [] m | Some _ \<Rightarrow> m)
                     in case map_of m' p of None \<Rightarrow> m' | Some ids \<Rightarrow> AList.update p (ids @ [qid]) m')
             queues m)"
proof (induction queues arbitrary: m)
  case (Cons q queues)
  show ?case unfolding fold_simps comp_def
    by (rule Cons.IH) (use Cons.prems in \<open>auto simp: Let_def split: option.splits\<close>)
qed simp

interpretation priority_desc: less_fn "\<lambda>i j. j - i < (0 :: int)"
  by unfold_locales auto

lemma getQueuesByPriority_post:
  assumes "getQueuesByPriority queues h = (byP, ps)"
  shows "map_of byP p = (let new = filter (\<lambda>q. Priority (h q) = p) queues in if new = [] then None else Some new)"
    "sorted_wrt (>) ps" "set ps = (\<lambda>q. Priority (h q)) ` set queues"
proof -
  have byp: "map_of byP p = (let new = filter (\<lambda>q. Priority (h q) = p) queues in if new = [] then None else Some new)" for p
    using assms byPriority_fold [of h queues "[]" p] by (auto simp: getQueuesByPriority_def Let_def)
  show "map_of byP p = (let new = filter (\<lambda>q. Priority (h q) = p) queues in if new = [] then None else Some new)"
    by (rule byp)
  have wf: "wf_gomap byP"
    using assms byPriority_wf [OF wf_gomap_Nil, of h queues] by (auto simp: getQueuesByPriority_def Let_def)
  have ps: "ps = go_sort (\<lambda>i j. j - i < 0) (gokeys byP)"
    using assms unfolding getQueuesByPriority_def Let_def by (elim Pair_inject) (simp only:)
  have "sorted_wrt (\<lambda>x y. \<not> x - y < 0) ps" unfolding ps by (rule priority_desc.sorted_go_sort)
  then have "sorted_wrt (\<ge>) ps" by (rule sorted_wrt_mono_rel [rotated]) simp
  moreover have "distinct ps" using wf unfolding ps by (simp add: wf_gomap_def)
  ultimately show "sorted_wrt (>) ps" by (auto simp: sorted_wrt_iff_nth_less distinct_conv_nth order.order_iff_strict)
  have "p \<in> set ps \<longleftrightarrow> map_of byP p \<noteq> None" for p
    unfolding ps by (simp add: map_of_eq_None_iff)
  then show "set ps = (\<lambda>q. Priority (h q)) ` set queues"
    unfolding byp by (auto simp: Let_def filter_empty_conv split: if_splits)
qed

abbreviation bucket :: "QueueID list \<Rightarrow> queue_heap \<Rightarrow> int \<Rightarrow> QueueID list" where
  "bucket queues h p \<equiv> filter (\<lambda>q. Priority (h q) = p) queues"

lemma div_frame_bucket:
  assumes "div_frame ids r h t h' t'" and "ids = filter P queues"
  shows "div_frame queues r h t h' t'"
proof -
  have split: "sumFS g r queues = sumFS g r (filter P queues) + sumFS g r (filter (\<lambda>q. \<not> P q) queues)" for g
    by (induction queues) (simp_all add: algebra_simps)
  have "sumFS h' r (filter (\<lambda>q. \<not> P q) queues) = sumFS h r (filter (\<lambda>q. \<not> P q) queues)"
    using assms by (intro arg_cong [of _ _ sum_list] map_cong) (auto simp: div_frame_def)
  then show ?thesis using assms unfolding div_frame_def split by auto
qed

lemma weights_ok_cong:
  assumes "weights_ok k queues r h" and "only_fair r h h'" and "set ids \<subseteq> set queues"
  shows "weights_ok k ids r h'"
  using assms(1,3) only_fair_share(2,3) [OF assms(2)] unfolding weights_ok_def by auto

text \<open>What the loop over the priorities \<open>ps\<close> leaves behind.\<close>

definition loop_post ::
  "float64 \<Rightarrow> float64 \<Rightarrow> QueueID list \<Rightarrow> ResourceName \<Rightarrow> int list \<Rightarrow> queue_heap \<Rightarrow> float64 \<Rightarrow> queue_heap \<Rightarrow> float64 \<Rightarrow> bool"
  where
  "loop_post unl k queues r ps h tot h' tot' \<longleftrightarrow>
     div_frame queues r h tot h' tot' \<and>
     (\<forall>q. Priority (h q) \<notin> set ps \<longrightarrow> h' q = h q) \<and>
     (\<forall>q. FS h' r q < max (FS h r q) (RQ unl h r q) + 1) \<and>
     (weights_ok k queues r h \<longrightarrow> 0 < tot' \<longrightarrow> (\<forall>p\<in>set ps. served unl k (bucket queues h p) r h')) \<and>
     (weights_ok k queues r h \<longrightarrow>
        (\<forall>q. FS h r q < FS h' r q \<longrightarrow>
           (\<forall>p\<in>set ps. p > Priority (h q) \<longrightarrow> served unl k (bucket queues h p) r h')))"

lemma bucket_cong: "only_fair r h h' \<Longrightarrow> bucket queues h' p = bucket queues h p"
  by (simp add: only_fair_def)

lemma loop_post_Cons:
  assumes b: "div_frame (bucket queues h p) r h tot h1 t1"
    and le: "\<forall>q. FS h1 r q < max (FS h r q) (RQ unl h r q) + 1"
    and srv: "weights_ok k (bucket queues h p) r h \<Longrightarrow> 0 < t1 \<Longrightarrow> served unl k (bucket queues h p) r h1"
    and rest: "loop_post unl k queues r ps h1 t1 h' tot'" and nonpos: "t1 \<le> 0 \<Longrightarrow> h' = h1 \<and> tot' = t1"
    and sorted: "sorted_wrt (>) (p # ps)"
  shows "loop_post unl k queues r (p # ps) h tot h' tot'"
proof -
  have fr1: "div_frame queues r h tot h1 t1" using div_frame_bucket [OF b refl] .
  have of1: "only_fair r h h1" and mono1: "\<forall>q. FS h r q \<le> FS h1 r q" using fr1 by (auto simp: div_frame_def)
  have frR: "div_frame queues r h1 t1 h' tot'" using rest by (simp add: loop_post_def)
  have ofR: "only_fair r h1 h'" and monoR: "\<forall>q. FS h1 r q \<le> FS h' r q" using frR by (auto simp: div_frame_def)
  note same = only_fair_share(1,6) [OF of1]
  note bc = bucket_cong [OF of1, where queues = queues]
  have out: "Priority (h q) \<noteq> p \<Longrightarrow> h1 q = h q" for q using b by (auto simp: div_frame_def)
  have outR: "Priority (h q) \<notin> set ps \<Longrightarrow> h' q = h1 q" for q using rest same(2) by (auto simp: loop_post_def)
  have p: "p \<notin> set ps" "\<forall>p'\<in>set ps. p' < p" using sorted by auto
  have okR: "weights_ok k queues r h \<Longrightarrow> weights_ok k queues r h1" using weights_ok_cong of1 by blast
  have srvp: "served unl k (bucket queues h p) r h'" if "weights_ok k queues r h" "0 < t1"
  proof -
    have "weights_ok k (bucket queues h p) r h" using weights_ok_cong [OF that(1) only_fair_refl] by simp
    then show ?thesis using srv that(2) served_mono ofR monoR by blast
  qed
  have pos: "0 < tot' \<Longrightarrow> 0 < t1" using nonpos by (cases "t1 \<le> 0") auto
  have 1: "FS h' r q < max (FS h r q) (RQ unl h r q) + 1" for q
  proof (cases "Priority (h q) = p")
    case True
    then show ?thesis using outR [of q] p le by simp
  next
    case False
    then have "h1 q = h q" by (rule out)
    then show ?thesis using rest by (simp add: loop_post_def) metis
  qed
  have 2: "served unl k (bucket queues h p') r h'"
    if ok: "weights_ok k queues r h" and lt: "FS h r q < FS h' r q" and p': "p' \<in> set (p # ps)" "p' > Priority (h q)" for q p'
  proof -
    have "h1 q = h q" using p p' out [of q] by (cases "Priority (h q) = p") auto
    then have lt1: "FS h1 r q < FS h' r q" using lt by simp
    then have "h' \<noteq> h1" by auto
    then have "0 < t1" using nonpos by (cases "t1 \<le> 0") auto
    moreover have "p' \<in> set ps \<Longrightarrow> served unl k (bucket queues h p') r h'"
      using rest okR [OF ok] lt1 p'(2) same(2) bc unfolding loop_post_def by metis
    ultimately show ?thesis using srvp ok p'(1) by auto
  qed
  have 3: "\<forall>p'\<in>set (p # ps). served unl k (bucket queues h p') r h'" if ok: "weights_ok k queues r h" and t: "0 < tot'"
    using rest okR [OF ok] t srvp [OF ok] pos [OF t] bc unfolding loop_post_def by auto
  show ?thesis
    unfolding loop_post_def using div_frame_trans [OF fr1 frR] out outR 1 2 3 p(1) by auto
qed

lemma overQuotaLoop_post:
  assumes "map_order_ok ord" and "distinct queues" and "sorted_wrt (>) ps"
    and "\<forall>p\<in>set ps. (case map_of byP p of None \<Rightarrow> [] | Some ids \<Rightarrow> ids) = bucket queues h p"
    and "\<forall>q\<in>set queues. UID (h q) = q" and "0 \<le> tot"
  shows "\<exists>h' tot'. overQuotaLoop unl ord k byP r ps h tot = Some (h', tot') \<and> loop_post unl k queues r ps h tot h' tot'"
  using assms(3-6)
proof (induction ps arbitrary: h tot)
  case Nil
  have "FS h r q < max (FS h r q) (RQ unl h r q) + 1" for q by (simp add: max_def)
  then show ?case using Nil.prems by (simp add: loop_post_def div_frame_refl)
next
  case (Cons p ps)
  show ?case
  proof (cases "tot \<le> 0")
    case True
    have "FS h r q < max (FS h r q) (RQ unl h r q) + 1" for q by (simp add: max_def)
    then show ?thesis using True Cons.prems(4) by (simp add: loop_post_def div_frame_refl)
  next
    case False
    let ?ids = "bucket queues h p"
    have "distinct ?ids" "\<forall>q\<in>set ?ids. UID (h q) = q" using assms(2) Cons.prems(3) by auto
    then obtain x h1 t1 where x: "divideUpToFairShare unl ord tot k ?ids r h = Some x" "finishBucket r x = (h1, t1)"
      and fr: "div_frame ?ids r h tot h1 t1" and le: "\<forall>q. FS h1 r q < max (FS h r q) (RQ unl h r q) + 1"
      and srv: "weights_ok k ?ids r h \<Longrightarrow> 0 < t1 \<Longrightarrow> served unl k ?ids r h1"
      using bucket_post [OF _ assms(1) _ Cons.prems(4)] by blast
    have of1: "only_fair r h h1" and t1: "0 \<le> t1" using fr by (simp_all add: div_frame_def)
    have "\<exists>h' tot'. overQuotaLoop unl ord k byP r ps h1 t1 = Some (h', tot') \<and> loop_post unl k queues r ps h1 t1 h' tot'"
      using Cons.prems t1 only_fair_share(5) [OF of1] bucket_cong [OF of1]
      by (intro Cons.IH) auto
    then obtain h' tot' where rest: "overQuotaLoop unl ord k byP r ps h1 t1 = Some (h', tot')"
      and post: "loop_post unl k queues r ps h1 t1 h' tot'" by blast
    have nonpos: "t1 \<le> 0 \<Longrightarrow> h' = h1 \<and> tot' = t1" using rest by (cases ps) auto
    have "loop_post unl k queues r (p # ps) h tot h' tot'"
      by (rule loop_post_Cons [OF fr le srv post nonpos Cons.prems(1)])
    moreover have "overQuotaLoop unl ord k byP r (p # ps) h tot = Some (h', tot')"
      using False x rest Cons.prems(2) by (simp add: overQuotaLoop_Cons del: overQuotaLoop.simps)
    ultimately show ?thesis by blast
  qed
qed

lemma divideOverQuota_post:
  assumes "map_order_ok ord" and "distinct queues" and "\<forall>q\<in>set queues. UID (h q) = q" and "0 \<le> tot"
  obtains h' tot' ps where "divideOverQuotaResource unl ord tot k queues r h = Some (h', tot')"
    "loop_post unl k queues r ps h tot h' tot'" "set ps = (\<lambda>q. Priority (h q)) ` set queues"
proof -
  obtain byP ps where g: "getQueuesByPriority queues h = (byP, ps)" by (cases "getQueuesByPriority queues h")
  note post = getQueuesByPriority_post [OF g]
  have "\<forall>p\<in>set ps. (case map_of byP p of None \<Rightarrow> [] | Some ids \<Rightarrow> ids) = bucket queues h p"
    by (simp add: post(1) Let_def)
  from overQuotaLoop_post [OF assms(1,2) post(2) this assms(3,4)]
  obtain h' tot' where "overQuotaLoop unl ord k byP r ps h tot = Some (h', tot')" "loop_post unl k queues r ps h tot h' tot'"
    by blast
  then show thesis using that post(3) by (simp add: divideOverQuotaResource_def g)
qed

subsection \<open>The division of one resource\<close>

text \<open>The state after the deserved phase, on which the over-quota phase starts.\<close>

definition afterDeserved :: "float64 \<Rightarrow> float64 \<Rightarrow> QueueID list \<Rightarrow> ResourceName \<Rightarrow> queue_heap \<Rightarrow> queue_heap" where
  "afterDeserved unl T queues r h = giveAll r (set queues) (\<lambda>q. deservedAmount unl T (share h r q)) h"

lemma afterDeserved_FS:
  "q \<in> set queues \<Longrightarrow> FS (afterDeserved unl T queues r h) r q = FS h r q + deservedAmount unl T (share h r q)"
  by (simp add: afterDeserved_def share_giveAll)

lemma only_fair_afterDeserved [simp]: "only_fair r h (afterDeserved unl T queues r h)"
  by (simp add: afterDeserved_def)

lemma setResourceShare_post:
  assumes "map_order_ok ord" and "distinct queues" and "\<forall>q\<in>set queues. UID (h q) = q"
  obtains h' rest ps where "setResourceShare unl ord T k r queues h = Some (h', rest)"
    "loop_post unl k queues r ps (afterDeserved unl T queues r h)
       (max 0 (T - (\<Sum>q\<leftarrow>queues. deservedAmount unl T (share h r q)))) h' rest"
    "0 < T - (\<Sum>q\<leftarrow>queues. deservedAmount unl T (share h r q)) \<Longrightarrow> set ps = (\<lambda>q. Priority (h q)) ` set queues"
    "T - (\<Sum>q\<leftarrow>queues. deservedAmount unl T (share h r q)) \<le> 0 \<Longrightarrow> h' = afterDeserved unl T queues r h \<and> rest = 0"
proof -
  let ?t = "T - (\<Sum>q\<leftarrow>queues. deservedAmount unl T (share h r q))" and ?h = "afterDeserved unl T queues r h"
  have uid: "\<forall>q\<in>set queues. UID (?h q) = q" using assms(3) only_fair_share(5) [OF only_fair_afterDeserved] by simp
  have des: "setDeservedResource unl T queues r h = (?h, ?t)"
    using setDeserved_closed [OF assms(2)] by (simp add: afterDeserved_def)
  show thesis
  proof (cases "0 < ?t")
    case True
    obtain h' tot' ps where "divideOverQuotaResource unl ord ?t k queues r ?h = Some (h', tot')"
      "loop_post unl k queues r ps ?h ?t h' tot'" "set ps = (\<lambda>q. Priority (?h q)) ` set queues"
      using divideOverQuota_post [OF assms(1,2) uid less_imp_le [OF True]] by blast
    then show ?thesis using True des that [of h' tot' ps] only_fair_share(6) [OF only_fair_afterDeserved]
      by (simp add: setResourceShare_def max_def)
  next
    case False
    have "FS ?h r q < max (FS ?h r q) (RQ unl ?h r q) + 1" for q by (simp add: max_def)
    then have "loop_post unl k queues r [] ?h 0 ?h 0" by (simp add: loop_post_def div_frame_refl)
    moreover have "max 0 ?t = 0" using False by simp
    ultimately show ?thesis using False des that [of ?h 0 "[]"] by (simp add: setResourceShare_def)
  qed
qed

subsection \<open>The order of map iteration does not matter\<close>

lemma roundWeight_perm:
  assumes "mset qs = mset qs'"
  shows "roundWeight unl k qs = roundWeight unl k qs'"
proof -
  have "totalWeight unl qs r h = totalWeight unl qs' r h" for r h
    unfolding totalWeight_def using assms by (rule sum_list_mset_eq)
  then show ?thesis by (simp add: roundWeight_def fun_eq_iff)
qed

lemma weightSum_perm:
  assumes "mset qs = mset qs'"
  shows "weightSum unl k qs = weightSum unl k qs'"
proof -
  have "weightSum unl k qs r h = weightSum unl k qs' r h" for r h
    unfolding weightSum_def roundWeight_perm [OF assms] using assms by (rule sum_list_mset_eq)
  then show ?thesis by (simp add: fun_eq_iff)
qed

lemma spec_round_perm:
  assumes "mset qs = mset qs'"
  shows "spec_round unl k qs r = spec_round unl k qs' r" "spec_again unl k qs r = spec_again unl k qs' r"
proof -
  have set: "set qs = set qs'" using assms by (metis set_mset_mset)
  have off: "offer unl k qs = offer unl k qs'"
    using roundWeight_perm [OF assms] weightSum_perm [OF assms] by (simp add: offer_def fun_eq_iff)
  then have give: "spec_give unl k qs = spec_give unl k qs'" by (simp add: spec_give_def fun_eq_iff)
  show "spec_round unl k qs r = spec_round unl k qs' r"
    unfolding spec_round_def fun_eq_iff give off set sum_list_mset_eq [OF assms] by simp
  show "spec_again unl k qs r = spec_again unl k qs' r"
    unfolding spec_again_def fun_eq_iff off set by simp
qed

lemma fair_rounds_perm:
  assumes "fair_rounds unl k qs r s s'" and "mset qs = mset qs'"
  shows "fair_rounds unl k qs' r s s'"
  using assms(1)
proof (induction rule: fair_rounds.induct)
  case (idle s)
  then show ?case by (intro fair_rounds.idle) (simp add: weightSum_perm [OF assms(2)])
next
  case (last s s')
  then show ?case
    by (intro fair_rounds.last) (simp_all add: weightSum_perm [OF assms(2)] spec_round_perm [OF assms(2)])
next
  case (more s s' s'')
  show ?case
    by (rule fair_rounds.more [OF _ _ _ _ more.IH])
      (use more.hyps in \<open>simp_all add: weightSum_perm [OF assms(2)] spec_round_perm [OF assms(2)]\<close>)
qed

lemma bucket_deterministic:
  assumes "distinct ids" and "mset ids' = mset ids" and "map_order_ok ord" and "map_order_ok ord'"
    and "\<forall>q\<in>set ids. UID (h q) = q" and "0 \<le> tot"
  shows "map_option (finishBucket r) (divideUpToFairShare unl ord' tot k ids' r h) =
    map_option (finishBucket r) (divideUpToFairShare unl ord tot k ids r h)"
proof -
  have ids': "distinct ids'" "set ids' = set ids" using assms(1,2) by (metis mset_eq_imp_distinct_iff, metis set_mset_mset)
  then have uid': "\<forall>q\<in>set ids'. UID (h q) = q" using assms(5) by simp
  obtain h1 t1 rem where a: "divideUpToFairShare unl ord tot k ids r h = Some (h1, t1, rem)" "wf_gomap rem"
    "fair_rounds unl k ids r (h, tot, Map.empty) (h1, t1, map_of rem)"
    using divideUp_refines [OF assms(1,3,5,6)] by blast
  obtain h2 t2 rem' where b: "divideUpToFairShare unl ord' tot k ids' r h = Some (h2, t2, rem')" "wf_gomap rem'"
    "fair_rounds unl k ids' r (h, tot, Map.empty) (h2, t2, map_of rem')"
    using divideUp_refines [OF ids'(1) assms(4) uid' assms(6)] by blast
  have eq: "(h2, t2, map_of rem') = (h1, t1, map_of rem)"
    using fair_rounds_det [OF fair_rounds_perm [OF b(3) assms(2)] a(3)] .
  have ok: "rem_ok unl ids r h1 (map_of rem)" using fair_rounds_rem_ok [OF a(3)] assms(6) by simp
  have "div_frame ids r h tot h1 t1" using fair_rounds_frame [OF a(3)] assms(6) by simp
  then have "only_fair r h h1" by (simp add: div_frame_def)
  then have "\<forall>q\<in>set ids. UID (h1 q) = q" using assms(5) only_fair_share(5) by metis
  then have "unitOrder h1 rem = unitOrder h1 rem'"
    using unitOrder_unique [OF a(2) b(2) _ ok] eq by simp
  moreover have "length rem = length rem'"
    using unitOrder_facts(3) [OF a(2) ok, of h1] unitOrder_facts(3) [OF b(2), of unl ids r h1 h1] ok eq calculation by simp
  ultimately show ?thesis using a(1) b(1) eq
    by (simp only: prod.inject option.map finishBucket_def divideRemaining_units prod.case)
qed

lemma overQuotaLoop_step:
  "overQuotaLoop unl ord k byPriority r (p # ps) h remaining =
     (if remaining \<le> 0 then Some (h, remaining)
      else case map_option (finishBucket r) (divideUpToFairShare unl ord remaining k
                  (case map_of byPriority p of None \<Rightarrow> [] | Some ids \<Rightarrow> ids) r h) of
             None \<Rightarrow> None | Some (h', t') \<Rightarrow> overQuotaLoop unl ord k byPriority r ps h' t')"
  by (auto simp: overQuotaLoop_Cons simp del: overQuotaLoop.simps split: option.splits)

lemma overQuotaLoop_deterministic:
  assumes "map_order_ok ord" and "map_order_ok ord'" and "distinct queues" and "mset queues' = mset queues"
    and "\<forall>p\<in>set ps. (case map_of byP p of None \<Rightarrow> [] | Some ids \<Rightarrow> ids) = bucket queues h p"
    and "\<forall>p\<in>set ps. (case map_of byP' p of None \<Rightarrow> [] | Some ids \<Rightarrow> ids) = bucket queues' h p"
    and "\<forall>q\<in>set queues. UID (h q) = q" and "0 \<le> tot"
  shows "overQuotaLoop unl ord' k byP' r ps h tot = overQuotaLoop unl ord k byP r ps h tot"
  using assms(5-8)
proof (induction ps arbitrary: h tot)
  case (Cons p ps)
  let ?ids = "bucket queues h p" and ?ids' = "bucket queues' h p"
  have d: "distinct ?ids" "\<forall>q\<in>set ?ids. UID (h q) = q" using assms(3) Cons.prems(3) by auto
  have m: "mset ?ids' = mset ?ids" using assms(4) by (metis mset_filter)
  obtain x h1 t1 where x: "divideUpToFairShare unl ord tot k ?ids r h = Some x" "finishBucket r x = (h1, t1)"
    and fr: "div_frame ?ids r h tot h1 t1"
    by (rule bucket_post [OF d(1) assms(1) d(2) Cons.prems(4), of unl k r])
  have of1: "only_fair r h h1" and t1: "0 \<le> t1" using fr by (simp_all add: div_frame_def)
  have "\<forall>p\<in>set ps. (case map_of byP p of None \<Rightarrow> [] | Some ids \<Rightarrow> ids) = bucket queues h1 p"
    "\<forall>p\<in>set ps. (case map_of byP' p of None \<Rightarrow> [] | Some ids \<Rightarrow> ids) = bucket queues' h1 p"
    "\<forall>q\<in>set queues. UID (h1 q) = q"
    using Cons.prems(1-3) unfolding bucket_cong [OF of1] only_fair_share(5) [OF of1] by simp_all
  then have "overQuotaLoop unl ord' k byP' r ps h1 t1 = overQuotaLoop unl ord k byP r ps h1 t1"
    using t1 by (rule Cons.IH)
  moreover have "map_option (finishBucket r) (divideUpToFairShare unl ord' tot k ?ids' r h) = Some (h1, t1)"
    using bucket_deterministic [OF d(1) m assms(1,2) d(2) Cons.prems(4), of r unl k] x by simp
  moreover have "(case map_of byP p of None \<Rightarrow> [] | Some ids \<Rightarrow> ids) = ?ids"
    "(case map_of byP' p of None \<Rightarrow> [] | Some ids \<Rightarrow> ids) = ?ids'" using Cons.prems(1,2) by simp_all
  ultimately show ?case using x
    by (simp only: overQuotaLoop_step option.case option.map prod.case)
qed simp

lemma setResourceShare_deterministic:
  assumes "map_order_ok ord" and "map_order_ok ord'" and "distinct queues" and "mset queues' = mset queues"
    and "\<forall>q\<in>set queues. UID (h q) = q"
  shows "setResourceShare unl ord' T k r queues' h = setResourceShare unl ord T k r queues h"
proof -
  have q': "distinct queues'" "set queues' = set queues"
    using assms(3,4) by (metis mset_eq_imp_distinct_iff, metis set_mset_mset)
  let ?h = "afterDeserved unl T queues r h" and ?t = "T - (\<Sum>q\<leftarrow>queues. deservedAmount unl T (share h r q))"
  have des: "setDeservedResource unl T queues r h = (?h, ?t)" "setDeservedResource unl T queues' r h = (?h, ?t)"
    using setDeserved_closed [OF assms(3)] setDeserved_closed [OF q'(1)] q'(2) sum_list_mset_eq [OF assms(4)]
    by (simp_all add: afterDeserved_def)
  have uid: "\<forall>q\<in>set queues. UID (?h q) = q" using assms(5) only_fair_share(5) [OF only_fair_afterDeserved] by simp
  obtain byP ps where g: "getQueuesByPriority queues ?h = (byP, ps)" by (cases "getQueuesByPriority queues ?h")
  obtain byP' ps' where g': "getQueuesByPriority queues' ?h = (byP', ps')" by (cases "getQueuesByPriority queues' ?h")
  note post = getQueuesByPriority_post [OF g] getQueuesByPriority_post [OF g']
  have "ps' = ps" using post q'(2) by (intro sorted_wrt_unique) auto
  then have "divideOverQuotaResource unl ord' ?t k queues' r ?h = divideOverQuotaResource unl ord ?t k queues r ?h"
    if "0 < ?t"
    using overQuotaLoop_deterministic [OF assms(1-4) _ _ uid, of ps byP byP' ?t unl k r] post that
    by (simp add: divideOverQuotaResource_def g g' Let_def)
  then show ?thesis using des by (simp add: setResourceShare_def)
qed

subsection \<open>All resources\<close>

text \<open>The division of one resource inside the division of all: it sees the shares the caller gave,
  and the caller sees the shares it left.\<close>

lemma SetResourcesShareLoop_stage:
  assumes "map_order_ok ord" and "distinct queues" and "\<forall>q\<in>set queues. UID (h q) = q" and "distinct rs"
  shows "\<exists>h'. SetResourcesShareLoop unl ord T k queues rs h = Some h' \<and>
    (\<forall>q. Priority (h' q) = Priority (h q) \<and> UID (h' q) = UID (h q)) \<and>
    (\<forall>r. r \<notin> set rs \<longrightarrow> (\<forall>q. share h' r q = share h r q)) \<and>
    (\<forall>r\<in>set rs. \<exists>g g' rest. setResourceShare unl ord (T r) k r queues g = Some (g', rest) \<and>
       (\<forall>q. UID (g q) = UID (h q) \<and> Priority (g q) = Priority (h q) \<and>
            share g r q = share h r q \<and> share h' r q = share g' r q))"
  using assms(3,4)
proof (induction rs arbitrary: h)
  case (Cons r rs)
  obtain h1 rest ps where s: "setResourceShare unl ord (T r) k r queues h = Some (h1, rest)"
    "loop_post unl k queues r ps (afterDeserved unl (T r) queues r h)
       (max 0 (T r - (\<Sum>q\<leftarrow>queues. deservedAmount unl (T r) (share h r q)))) h1 rest"
    using setResourceShare_post [OF assms(1,2) Cons.prems(1)] by metis
  then have "only_fair r (afterDeserved unl (T r) queues r h) h1" by (simp add: loop_post_def div_frame_def)
  then have of1: "only_fair r h h1" using only_fair_trans only_fair_afterDeserved by blast
  have same: "\<forall>q. UID (h1 q) = UID (h q) \<and> Priority (h1 q) = Priority (h q)"
    "\<forall>r'. r' \<noteq> r \<longrightarrow> (\<forall>q. share h1 r' q = share h r' q)"
    using of1 by (simp_all add: only_fair_def)
  have "\<forall>q\<in>set queues. UID (h1 q) = q" "distinct rs" "r \<notin> set rs" using same Cons.prems by auto
  from Cons.IH [OF this(1,2)] obtain h' where h': "SetResourcesShareLoop unl ord T k queues rs h1 = Some h'"
    "\<forall>q. Priority (h' q) = Priority (h1 q) \<and> UID (h' q) = UID (h1 q)"
    "\<forall>r. r \<notin> set rs \<longrightarrow> (\<forall>q. share h' r q = share h1 r q)"
    "\<forall>r\<in>set rs. \<exists>g g' rest. setResourceShare unl ord (T r) k r queues g = Some (g', rest) \<and>
       (\<forall>q. UID (g q) = UID (h1 q) \<and> Priority (g q) = Priority (h1 q) \<and>
            share g r q = share h1 r q \<and> share h' r q = share g' r q)" by blast
  have "\<exists>g g' rest. setResourceShare unl ord (T r') k r' queues g = Some (g', rest) \<and>
       (\<forall>q. UID (g q) = UID (h q) \<and> Priority (g q) = Priority (h q) \<and>
            share g r' q = share h r' q \<and> share h' r' q = share g' r' q)" if "r' \<in> set (r # rs)" for r'
  proof (cases "r' = r")
    case True
    have "\<forall>q. share h' r q = share h1 r q" using h'(3) \<open>r \<notin> set rs\<close> by blast
    then show ?thesis using True s(1) by blast
  next
    case False
    then have "r' \<in> set rs" "\<forall>q. share h1 r' q = share h r' q" using that same(2) by auto
    then show ?thesis using h'(4) same(1) by metis
  qed
  then show ?case using s(1) h'(1-3) same by (intro exI [of _ h']) simp
qed simp

lemma SetResourcesShare_stage:
  assumes "map_order_ok ord" and "distinct queues" and "\<forall>q\<in>set queues. UID (h q) = q"
  obtains h' where "SetResourcesShare unl ord T k queues h = Some h'"
    "\<forall>r. \<exists>g g' rest. setResourceShare unl ord (T r) k r queues g = Some (g', rest) \<and>
       (\<forall>q. UID (g q) = UID (h q) \<and> Priority (g q) = Priority (h q) \<and>
            share g r q = share h r q \<and> share h' r q = share g' r q)"
proof -
  have "distinct AllResources" "set AllResources = UNIV"
    using ResourceName.exhaust by (auto simp: AllResources_def)
  with SetResourcesShareLoop_stage [OF assms this(1), of unl T k] that show thesis
    unfolding SetResourcesShare_def by auto
qed

text \<open>What the division of all resources leaves alone.\<close>

definition fair_frame :: "QueueID set \<Rightarrow> queue_heap \<Rightarrow> queue_heap \<Rightarrow> bool" where
  "fair_frame S h h' \<longleftrightarrow>
     (\<forall>q. (q \<notin> S \<longrightarrow> h' q = h q) \<and> UID (h' q) = UID (h q) \<and> ParentQueue (h' q) = ParentQueue (h q) \<and> ChildQueues (h' q) = ChildQueues (h q) \<and>
          (h' q = h q \<or> lastFairShare (QShare (h' q)) = None) \<and>
          (\<forall>r. share h' r q = (share h r q)\<lparr>fairShare := FS h' r q\<rparr>))"

lemma fair_frame_only_fair:
  assumes "only_fair r h h'" and "\<forall>q. q \<notin> S \<longrightarrow> h' q = h q"
  shows "fair_frame S h h'"
proof -
  have "share h' r' q = (share h r' q)\<lparr>fairShare := FS h' r' q\<rparr>" for r' q
    using assms(1) unfolding only_fair_def by (cases "r' = r") auto
  then show ?thesis using assms by (simp add: fair_frame_def only_fair_def)
qed

lemma fair_frame_trans:
  assumes "fair_frame S h h'" and "fair_frame S h' h''"
  shows "fair_frame S h h''"
proof -
  have "share h'' r q = (share h r q)\<lparr>fairShare := FS h'' r q\<rparr>" for r q
  proof -
    have 1: "share h'' r q = (share h' r q)\<lparr>fairShare := FS h'' r q\<rparr>" using assms(2) unfolding fair_frame_def by blast
    have 2: "share h' r q = (share h r q)\<lparr>fairShare := FS h' r q\<rparr>" using assms(1) unfolding fair_frame_def by blast
    have "(share h' r q)\<lparr>fairShare := x\<rparr> = (share h r q)\<lparr>fairShare := x\<rparr>" for x by (subst 2) simp
    with 1 show ?thesis by metis
  qed
  moreover have "h'' q = h q \<or> lastFairShare (QShare (h'' q)) = None" for q using assms unfolding fair_frame_def by metis
  ultimately show ?thesis using assms unfolding fair_frame_def by simp
qed

lemma SetResourcesShare_frame:
  assumes "map_order_ok ord" and "distinct queues" and "\<forall>q\<in>set queues. UID (h q) = q" and "SetResourcesShare unl ord T k queues h = Some h'"
  shows "fair_frame (set queues) h h'"
proof -
  have "fair_frame (set queues) h h'" if "SetResourcesShareLoop unl ord T k queues rs h = Some h'" "\<forall>q\<in>set queues. UID (h q) = q" for rs h
    using that
  proof (induction rs arbitrary: h)
    case Nil
    then show ?case by (simp add: fair_frame_def)
  next
    case (Cons r rs)
    obtain h1 rest ps where s: "setResourceShare unl ord (T r) k r queues h = Some (h1, rest)"
      "loop_post unl k queues r ps (afterDeserved unl (T r) queues r h)
         (max 0 (T r - (\<Sum>q\<leftarrow>queues. deservedAmount unl (T r) (share h r q)))) h1 rest"
      using setResourceShare_post [OF assms(1,2) Cons.prems(2)] by metis
    then have "only_fair r (afterDeserved unl (T r) queues r h) h1" "\<forall>q. q \<notin> set queues \<longrightarrow> h1 q = afterDeserved unl (T r) queues r h q"
      by (simp_all add: loop_post_def div_frame_def)
    moreover have "\<forall>q. q \<notin> set queues \<longrightarrow> afterDeserved unl (T r) queues r h q = h q" by (simp add: afterDeserved_def giveAll_def)
    ultimately have fr: "fair_frame (set queues) h h1"
      using only_fair_trans [OF only_fair_afterDeserved] by (intro fair_frame_only_fair [of r]) simp_all
    then have "\<forall>q\<in>set queues. UID (h1 q) = q" using Cons.prems(2) by (simp add: fair_frame_def)
    then show ?case using Cons.IH [of h1] Cons.prems(1) s(1) fair_frame_trans [OF fr] by simp
  qed
  then show ?thesis using assms(3,4) by (simp add: SetResourcesShare_def)
qed

lemma SetResourcesShare_total:
  assumes "map_order_ok ord" and "distinct queues" and "\<forall>q\<in>set queues. UID (h q) = q" and "SetResourcesShare unl ord T k queues h = Some h'"
  shows "(\<Sum>q\<leftarrow>queues. FS h' r q) \<le> max (T r) (\<Sum>q\<leftarrow>queues. deservedAmount unl (T r) (share h r q)) + (\<Sum>q\<leftarrow>queues. FS h r q)"
proof -
  obtain g g' rest where s: "setResourceShare unl ord (T r) k r queues g = Some (g', rest)"
    and same: "\<forall>q. UID (g q) = UID (h q) \<and> share g r q = share h r q \<and> share h' r q = share g' r q"
    using SetResourcesShare_stage [OF assms(1-3), of unl T k] assms(4) by (metis option.inject)
  have uid: "\<forall>q\<in>set queues. UID (g q) = q" using assms(3) same by simp
  obtain ps where "loop_post unl k queues r ps (afterDeserved unl (T r) queues r g)
       (max 0 (T r - (\<Sum>q\<leftarrow>queues. deservedAmount unl (T r) (share g r q)))) g' rest"
    using setResourceShare_post [OF assms(1,2) uid, of unl "T r" k r] s by (metis option.inject prod.inject)
  then have "0 \<le> rest" "rest + sumFS g' r queues = max 0 (T r - (\<Sum>q\<leftarrow>queues. deservedAmount unl (T r) (share g r q))) +
      sumFS (afterDeserved unl (T r) queues r g) r queues"
    by (simp_all add: loop_post_def div_frame_def)
  moreover have "sumFS (afterDeserved unl (T r) queues r g) r queues = (\<Sum>q\<leftarrow>queues. FS g r q + deservedAmount unl (T r) (share g r q))"
    by (intro arg_cong [of _ _ sum_list] map_cong) (simp_all add: afterDeserved_FS)
  ultimately show ?thesis using same by (simp add: sum_list_addf)
qed

subsection \<open>Properties of the division\<close>

text \<open>Three queues for the examples: \<open>c\<close> has the higher priority.\<close>

definition sampleShare :: "float64 \<Rightarrow> float64 \<Rightarrow> float64 \<Rightarrow> ResourceShare" where
  "sampleShare d w req = EmptyResource\<lparr>deserved := d, maxAllowed := -1, overQuotaWeight := w, request := req\<rparr>"

definition sampleQueues :: queue_heap where
  "sampleQueues q = \<lparr>UID = q, QueueName = q, DisplayName = q, ParentQueue = '''', ChildQueues = [],
     CreationTimestamp = 0, Priority = (if q = ''c'' then 1 else 0),
     QShare = \<lparr>CPU = EmptyResource, Memory = EmptyResource,
       GPU = (if q = ''c'' then sampleShare 1 1 3 else sampleShare 2 1 100),
       lastDeservedShare = None, lastFairShare = None\<rparr>\<rparr>"

definition listOrder :: map_order where
  "listOrder n xs = xs"

lemma sample_ok: "map_order_ok listOrder" "UID (sampleQueues q) = q"
  by (simp_all add: map_order_ok_def listOrder_def sampleQueues_def)

text \<open>C1. Whatever order Go visits its maps in, the division of all resources returns, and for every
  queue and resource the fair share ends at or above the queue's deserved amount (capped by what it can
  request) and less than one unit above what it may ask for.\<close>

theorem SetResourcesShare_bounds:
  assumes "map_order_ok ord" and "distinct queues" and "\<forall>q\<in>set queues. UID (h q) = q"
  shows "\<exists>h'. SetResourcesShare unl ord T k queues h = Some h' \<and>
    (\<forall>r. \<forall>q\<in>set queues.
       fairShare (share h r q) + deservedAmount unl (T r) (share h r q) \<le> fairShare (share h' r q) \<and>
       fairShare (share h' r q) <
         max (fairShare (share h r q) + deservedAmount unl (T r) (share h r q)) (GetRequestableShare unl (share h r q)) + 1)"
proof -
  obtain h' where h': "SetResourcesShare unl ord T k queues h = Some h'" and
    stage: "\<forall>r. \<exists>g g' rest. setResourceShare unl ord (T r) k r queues g = Some (g', rest) \<and>
       (\<forall>q. UID (g q) = UID (h q) \<and> Priority (g q) = Priority (h q) \<and>
            share g r q = share h r q \<and> share h' r q = share g' r q)"
    by (rule SetResourcesShare_stage [OF assms, of unl T k])
  have "FS h r q + deservedAmount unl (T r) (share h r q) \<le> FS h' r q \<and>
    FS h' r q < max (FS h r q + deservedAmount unl (T r) (share h r q)) (RQ unl h r q) + 1"
    if q: "q \<in> set queues" for r q
  proof -
    obtain g g' rest where g: "setResourceShare unl ord (T r) k r queues g = Some (g', rest)"
      "\<forall>q. UID (g q) = UID (h q)" "share g r q = share h r q" "share h' r q = share g' r q" using stage by metis
    let ?h1 = "afterDeserved unl (T r) queues r g"
    have uid: "\<forall>q\<in>set queues. UID (g q) = q" using g(2) assms(3) by simp
    obtain ps t where "loop_post unl k queues r ps ?h1 t g' rest"
      by (rule setResourceShare_post [OF assms(1,2) uid, of unl "T r" k r]) (use g(1) in auto)
    then have "FS ?h1 r q \<le> FS g' r q" "FS g' r q < max (FS ?h1 r q) (RQ unl ?h1 r q) + 1"
      by (simp_all add: loop_post_def div_frame_def)
    moreover have "RQ unl ?h1 r q = RQ unl g r q" by (rule only_fair_share(1) [OF only_fair_afterDeserved])
    ultimately show ?thesis using g(3,4) afterDeserved_FS [OF q, of unl "T r" r g] by simp
  qed
  then show ?thesis using h' by blast
qed

theorem SetResourcesShare_bounds_witness:
  "\<exists>h'. SetResourcesShare (-1) listOrder (\<lambda>_. 12) 0 [''a'', ''b'', ''c''] sampleQueues = Some h' \<and>
     fairShare (share h' GpuResource ''c'') < 4 \<and> 1 \<le> fairShare (share h' GpuResource ''c'')"
proof -
  have "distinct [''a'', ''b'', ''c'']" "\<forall>q\<in>set [''a'', ''b'', ''c'']. UID (sampleQueues q) = q"
    by (simp_all add: sample_ok)
  moreover have "fairShare (share sampleQueues GpuResource ''c'') = 0"
    "deservedAmount (-1) 12 (share sampleQueues GpuResource ''c'') = 1"
    "GetRequestableShare (-1) (share sampleQueues GpuResource ''c'') = 3" by code_simp+
  moreover obtain h' where h': "SetResourcesShare (-1) listOrder (\<lambda>_. 12) 0 [''a'', ''b'', ''c''] sampleQueues = Some h'"
    and "\<forall>r. \<forall>q\<in>set [''a'', ''b'', ''c''].
       fairShare (share sampleQueues r q) + deservedAmount (-1) 12 (share sampleQueues r q) \<le> fairShare (share h' r q) \<and>
       fairShare (share h' r q) < max (fairShare (share sampleQueues r q) + deservedAmount (-1) 12 (share sampleQueues r q))
         (GetRequestableShare (-1) (share sampleQueues r q)) + 1"
    using SetResourcesShare_bounds [OF sample_ok(1) calculation(1,2), of "-1" "\<lambda>_. 12" 0] by blast
  then have "fairShare (share sampleQueues GpuResource ''c'') + deservedAmount (-1) 12 (share sampleQueues GpuResource ''c'')
      \<le> fairShare (share h' GpuResource ''c'')"
    "fairShare (share h' GpuResource ''c'') < max (fairShare (share sampleQueues GpuResource ''c'') +
      deservedAmount (-1) 12 (share sampleQueues GpuResource ''c'')) (GetRequestableShare (-1) (share sampleQueues GpuResource ''c'')) + 1"
    by simp_all
  ultimately show ?thesis using h' by (intro exI [of _ h']) simp
qed

text \<open>C2. The division of one resource neither creates nor loses any of it: what the queues gained plus
  what is reported as left over is the total, or the sum of the deserved amounts where these exceed the
  total; the leftover is never negative, no other resource of any queue changes, and nothing of a queue
  outside the map changes.\<close>

theorem setResourceShare_conserves:
  assumes "map_order_ok ord" and "distinct queues" and "\<forall>q\<in>set queues. UID (h q) = q"
  shows "\<exists>h' rest. setResourceShare unl ord T k r queues h = Some (h', rest) \<and> 0 \<le> rest \<and>
    rest + (\<Sum>q\<leftarrow>queues. fairShare (share h' r q)) =
      max T (\<Sum>q\<leftarrow>queues. deservedAmount unl T (share h r q)) + (\<Sum>q\<leftarrow>queues. fairShare (share h r q)) \<and>
    (\<forall>q r'. r' \<noteq> r \<longrightarrow> share h' r' q = share h r' q) \<and> (\<forall>q. q \<notin> set queues \<longrightarrow> h' q = h q)"
proof -
  let ?D = "\<Sum>q\<leftarrow>queues. deservedAmount unl T (share h r q)" and ?h = "afterDeserved unl T queues r h"
  obtain h' rest ps where s: "setResourceShare unl ord T k r queues h = Some (h', rest)"
    "loop_post unl k queues r ps ?h (max 0 (T - ?D)) h' rest"
    by (rule setResourceShare_post [OF assms, of unl T k r])
  then have fr: "div_frame queues r ?h (max 0 (T - ?D)) h' rest" by (simp add: loop_post_def)
  have "sumFS ?h r queues = (\<Sum>q\<leftarrow>queues. FS h r q + deservedAmount unl T (share h r q))"
    by (intro arg_cong [of _ _ sum_list] map_cong) (simp_all add: afterDeserved_FS)
  then have D: "sumFS ?h r queues = sumFS h r queues + ?D" by (simp add: sum_list_addf)
  have "only_fair r h h'" using fr only_fair_trans only_fair_afterDeserved unfolding div_frame_def by blast
  then have oth: "\<forall>q r'. r' \<noteq> r \<longrightarrow> share h' r' q = share h r' q" by (simp add: only_fair_def)
  have "?h q = h q" if "q \<notin> set queues" for q using that by (simp add: afterDeserved_def giveAll_def)
  then have out: "\<forall>q. q \<notin> set queues \<longrightarrow> h' q = h q" using fr by (simp add: div_frame_def)
  have "0 \<le> rest" "rest + sumFS h' r queues = max 0 (T - ?D) + sumFS ?h r queues" using fr by (simp_all add: div_frame_def)
  then have "rest + sumFS h' r queues = max T ?D + sumFS h r queues" unfolding D by (simp add: max_def)
  then show ?thesis using s(1) oth out \<open>0 \<le> rest\<close> by blast
qed

theorem setResourceShare_conserves_witness:
  "\<exists>h' rest. setResourceShare (-1) listOrder 12 0 GpuResource [''a'', ''b'', ''c''] sampleQueues = Some (h', rest) \<and>
     rest + (\<Sum>q\<leftarrow>[''a'', ''b'', ''c'']. fairShare (share h' GpuResource q)) = 12"
proof -
  have "distinct [''a'', ''b'', ''c'']" "\<forall>q\<in>set [''a'', ''b'', ''c'']. UID (sampleQueues q) = q"
    by (simp_all add: sample_ok)
  moreover have "max 12 (\<Sum>q\<leftarrow>[''a'', ''b'', ''c'']. deservedAmount (-1) 12 (share sampleQueues GpuResource q)) +
    (\<Sum>q\<leftarrow>[''a'', ''b'', ''c'']. fairShare (share sampleQueues GpuResource q)) = 12" by code_simp
  ultimately show ?thesis
    using setResourceShare_conserves [OF sample_ok(1), of "[''a'', ''b'', ''c'']" sampleQueues "-1" 12 0 GpuResource]
    by metis
qed

lemma loop_post_served:
  assumes "loop_post unl k queues r ps h tot h' tot'" and "weights_ok k queues r h" and "Priority (h p) \<in> set ps"
    and "0 < tot' \<or> (\<exists>q. FS h r q < FS h' r q \<and> Priority (h q) < Priority (h p))"
    and "p \<in> set queues" and "overQuotaWeight (share h r p) \<noteq> 0" and "k * usage (share h r p) = 0"
  shows "isQueueSatisfied unl (share h' r p)"
proof -
  have "served unl k (bucket queues h (Priority (h p))) r h'"
    using assms(1-4) unfolding loop_post_def by blast
  moreover have "only_fair r h h'" using assms(1) by (simp add: loop_post_def div_frame_def)
  ultimately show ?thesis
    using assms(5-7) only_fair_share(2,3) unfolding served_def by fastforce
qed









end
