(* ===== verification/Proportion.thy ===== *)
theory Proportion
  imports Queue_Order Fair_Share_Laws
begin

text \<open>
  The plugin that owns the queues, \<^verbatim>\<open>plugins/proportion/proportion.go\<close>: it builds the queues of a session from
  the snapshot, books the resources of every job on its queue and on all queues above it, divides the
  cluster down the hierarchy, keeps the books while tasks are allocated and deallocated, and answers the
  reclaim checks.

  The state of the plugin is the record \<open>proportionPlugin\<close>; its map of queues is an association list whose
  entries are the objects the map points to. \<open>None\<close> is a run that does not return: a loop over a cyclic
  hierarchy or a nil pointer. Logs and metrics are left out; the resources of the nodes are the
  argument \<open>totalResource\<close> (theory \<open>Node_Info\<close>).

  The lemmas show the ledger: every loop up the hierarchy adds the same amounts to exactly the queue and its
  ancestors, so after any run of events the books of a queue are those at the start plus what was allocated
  minus what was deallocated below it, and the not-preemptible part of a semi-preemptible job is always the
  last core the plugin saw.
\<close>

subsection \<open>Arguments\<close>

type_synonym PluginArguments = "(string, string) gomap"

text \<open>\<^verbatim>\<open>strconv.ParseFloat\<close> is the argument \<open>parseFloat\<close>, with \<open>None\<close> for an error. The second component of the
  results tells whether an error was returned.\<close>

definition GetFloat64 :: "(string \<Rightarrow> float64 option) \<Rightarrow> PluginArguments \<Rightarrow> string \<Rightarrow> float64 \<Rightarrow> float64 \<times> bool" where
  "GetFloat64 parseFloat pa key defaultValue =
     (case map_of pa key of
        None \<Rightarrow> (defaultValue, False)
      | Some val \<Rightarrow> (case parseFloat val of None \<Rightarrow> (defaultValue, True) | Some parsed \<Rightarrow> (parsed, False)))"

definition ParseBool :: "string \<Rightarrow> bool option" where
  "ParseBool str =
     (if str \<in> set [''1'', ''t'', ''T'', ''true'', ''TRUE'', ''True''] then Some True
      else if str \<in> set [''0'', ''f'', ''F'', ''false'', ''FALSE'', ''False''] then Some False
      else None)"

definition GetBool :: "PluginArguments \<Rightarrow> string \<Rightarrow> bool \<Rightarrow> bool \<times> bool" where
  "GetBool pa key defaultValue =
     (case map_of pa key of
        None \<Rightarrow> (defaultValue, False)
      | Some val \<Rightarrow> (case ParseBool val of None \<Rightarrow> (defaultValue, True) | Some parsed \<Rightarrow> (parsed, False)))"

subsection \<open>The plugin\<close>

record proportionPlugin =
  totalResource :: ResourceQuantities
  pp_queues :: QueueMap
  jobSimulationQueues :: QueueMap
  pp_fns :: OrderFns
  allowConsolidatingReclaim :: bool
  relcaimerSaturationMultiplier :: float64
  pp_kValue :: float64
  pp_priorityInQuota :: bool
  lastSemiPreemptibleCore :: "(string, ResourceQuantities) gomap"

definition proportion_New :: "(string \<Rightarrow> float64 option) \<Rightarrow> PluginArguments \<Rightarrow> OrderFns \<Rightarrow> proportionPlugin" where
  "proportion_New parseFloat arguments fns =
     (let multiplier = fst (GetFloat64 parseFloat arguments ''relcaimerSaturationMultiplier'' 1);
          multiplier = (if multiplier < 1 then 1 else multiplier);
          kValue = fst (GetFloat64 parseFloat arguments ''kValue'' 1);
          kValue = (if kValue \<le> 0 then 0 else kValue);
          priorityInQuota = fst (GetBool arguments ''queuePriorityInQuotaReclaim'' False)
      in \<lparr>totalResource = EmptyResourceQuantities, pp_queues = [], jobSimulationQueues = [], pp_fns = fns,
          allowConsolidatingReclaim = False, relcaimerSaturationMultiplier = multiplier, pp_kValue = kValue,
          pp_priorityInQuota = priorityInQuota, lastSemiPreemptibleCore = []\<rparr>)"

definition OnJobSolutionStartFn :: "proportionPlugin \<Rightarrow> proportionPlugin" where
  "OnJobSolutionStartFn pp =
     pp\<lparr>jobSimulationQueues := fold (\<lambda>(queueId, q) m. AList.update queueId q m) (pp_queues pp) []\<rparr>"

definition OnSessionClose :: "proportionPlugin \<Rightarrow> proportionPlugin" where
  "OnSessionClose pp = pp\<lparr>totalResource := (\<lambda>_. 0), pp_queues := []\<rparr>"

subsection \<open>Building the queues\<close>

definition mebibytes :: float64 where "mebibytes = 1000 * 1000"

definition queueAttributesOf :: "float64 \<Rightarrow> (QueueID, ResourceQuantities) gomap \<Rightarrow> QueueInfo \<Rightarrow> QueueAttributes" where
  "queueAttributesOf unl usages q =
     (let qa = \<lparr>UID = qi_UID q, QueueName = qi_Name q, DisplayName = qi_DisplayName q, ParentQueue = qi_ParentQueue q,
                ChildQueues = qi_ChildQueues q, CreationTimestamp = qi_CreationTimestamp q, Priority = qi_Priority q,
                QShare = \<lparr>CPU = EmptyResource, Memory = EmptyResource, GPU = EmptyResource,
                          lastDeservedShare = None, lastFairShare = None\<rparr>\<rparr>;
          cpu = quota_CPU (qi_Resources q); mem = quota_Memory (qi_Resources q); gpu = quota_GPU (qi_Resources q);
          share = SetQuotaResources CpuResource (Quota cpu) (Limit cpu) (OverQuotaWeight cpu) (QShare qa);
          share = SetQuotaResources MemoryResource (max unl (Quota mem * mebibytes)) (max unl (Limit mem * mebibytes))
                    (OverQuotaWeight mem) share;
          share = SetQuotaResources GpuResource (Quota gpu) (Limit gpu) (OverQuotaWeight gpu) share;
          share = (case map_of usages (qi_UID q) of None \<Rightarrow> share | Some u \<Rightarrow> SetResourceUsage u share)
      in qa\<lparr>QShare := share\<rparr>)"

definition createQueueResourceAttrs ::
  "float64 \<Rightarrow> (QueueID, QueueInfo) gomap \<Rightarrow> (QueueID, ResourceQuantities) gomap \<Rightarrow> proportionPlugin \<Rightarrow> proportionPlugin" where
  "createQueueResourceAttrs unl infos usages pp =
     pp\<lparr>pp_queues := fold (\<lambda>(_, q) m. AList.update (qi_UID q) (queueAttributesOf unl usages q) m) infos (pp_queues pp)\<rparr>"

subsection \<open>Booking up the hierarchy\<close>

text \<open>The loops of \<^verbatim>\<open>addToQueues\<close> and \<^verbatim>\<open>updateQueuesResourceUsage...\<close>: the body changes each resource of the queue.\<close>

definition updShares :: "(ResourceName \<Rightarrow> ResourceShare \<Rightarrow> ResourceShare) \<Rightarrow> QueueAttributes \<Rightarrow> QueueAttributes" where
  "updShares f q = q\<lparr>QShare := fold (\<lambda>resource. upd_ResourceShare resource (f resource)) AllResources (QShare q)\<rparr>"

definition climbQueues :: "(ResourceName \<Rightarrow> ResourceShare \<Rightarrow> ResourceShare) \<Rightarrow> QueueID \<Rightarrow> QueueMap \<Rightarrow> QueueMap option" where
  "climbQueues f queueId qs =
     map_option (\<lambda>v. case v of Inl m \<Rightarrow> m | Inr () \<Rightarrow> [])
       (parentWalk map_of ParentQueue (\<lambda>qid q m. Inl (AList.update qid (updShares f q) m)) queueId qs)"

definition addToQueues :: "QueueID \<Rightarrow> ResourceQuantities \<Rightarrow> ResourceQuantities \<Rightarrow> QueueMap \<Rightarrow> QueueMap option" where
  "addToQueues queueId alloc notPreemptible =
     climbQueues (\<lambda>resource rs. rs\<lparr>allocated := allocated rs + alloc resource,
                                   allocatedNotPreemptible := allocatedNotPreemptible rs + notPreemptible resource\<rparr>) queueId"

definition updateQueuesResourceUsageForAllocatedJob :: "QueueID \<Rightarrow> ResourceQuantities \<Rightarrow> bool \<Rightarrow> QueueMap \<Rightarrow> QueueMap option" where
  "updateQueuesResourceUsageForAllocatedJob queueId resourceQuantities preemptibleJob =
     climbQueues (\<lambda>resource rs.
         let resourceRequestedQuota = resourceQuantities resource;
             rs = rs\<lparr>allocated := allocated rs + resourceRequestedQuota, request := request rs + resourceRequestedQuota\<rparr>
         in if \<not> preemptibleJob then rs\<lparr>allocatedNotPreemptible := allocatedNotPreemptible rs + resourceRequestedQuota\<rparr> else rs) queueId"

definition updateQueuesResourceUsageForPendingJob :: "QueueID \<Rightarrow> ResourceQuantities \<Rightarrow> QueueMap \<Rightarrow> QueueMap option" where
  "updateQueuesResourceUsageForPendingJob queueId resourceQuantities =
     climbQueues (\<lambda>resource rs. rs\<lparr>request := request rs + resourceQuantities resource\<rparr>) queueId"

subsection \<open>The core of a semi-preemptible job\<close>

definition coreResourceQuantities :: "OrderFns \<Rightarrow> PodGroupInfo \<Rightarrow> ResourceQuantities" where
  "coreResourceQuantities fns job =
     fold (\<lambda>(_, task) tot. Quantities_Add tot (QuantifyVector (AcceptedResourceVector task) (VectorMap task)))
       (GetCoreTasks job (of_taskOrderFn fns)) EmptyResourceQuantities"

text \<open>Reading a missing key of the Go map gives a nil map, whose entries read as 0.\<close>

definition lastCore :: "proportionPlugin \<Rightarrow> string \<Rightarrow> ResourceQuantities" where
  "lastCore pp uid = (case map_of (lastSemiPreemptibleCore pp) uid of None \<Rightarrow> (\<lambda>_. 0) | Some q \<Rightarrow> q)"

definition semiPreemptibleCoreDelta :: "PodGroupInfo \<Rightarrow> proportionPlugin \<Rightarrow> ResourceQuantities \<times> proportionPlugin" where
  "semiPreemptibleCoreDelta job pp =
     (let current = coreResourceQuantities (pp_fns pp) job;
          delta = Quantities_Sub (Quantities_Clone current) (lastCore pp (pg_UID job))
      in (delta, pp\<lparr>lastSemiPreemptibleCore := AList.update (pg_UID job) current (lastSemiPreemptibleCore pp)\<rparr>))"

subsection \<open>The usage at the start of a session\<close>

definition taskUsage ::
  "OrderFns \<Rightarrow> PodGroupInfo \<Rightarrow> PodStatus \<Rightarrow> PodInfo \<Rightarrow> QueueMap \<Rightarrow> QueueMap option" where
  "taskUsage fns job status t qs =
     (if AllocatedStatus status
      then let resources = QuantifyVector (AcceptedResourceVector t) (VectorMap t);
               isPreemptible = (if IsSemiPreemptibleJob job
                                then map_of (GetCoreTasks job (of_taskOrderFn fns)) (pod_UID t) = None
                                else IsPreemptibleJob job)
           in updateQueuesResourceUsageForAllocatedJob (pg_Queue job) resources isPreemptible qs
      else if status = Pending
      then let resources = QuantifyVector (ResReqVector t) (VectorMap t);
               resources = (case of_minNodeGPUMemory fns of
                              Some m \<Rightarrow> if IsGpuMemoryRequest t
                                        then Quantities_Add resources (NewResourceQuantities 0 0 (GpuMemoryAsGpuFraction (GpuRequirement t) m))
                                        else resources
                            | None \<Rightarrow> resources)
           in updateQueuesResourceUsageForPendingJob (pg_Queue job) resources qs
      else Some qs)"

fun foldOption :: "('a \<Rightarrow> 's \<Rightarrow> 's option) \<Rightarrow> 'a list \<Rightarrow> 's \<Rightarrow> 's option" where
  "foldOption f [] s = Some s"
| "foldOption f (x # xs) s = (case f x s of None \<Rightarrow> None | Some s' \<Rightarrow> foldOption f xs s')"

definition jobUsage :: "PodGroupInfo \<Rightarrow> proportionPlugin \<Rightarrow> proportionPlugin option" where
  "jobUsage job pp =
     (let pp = (if IsSemiPreemptibleJob job
                then pp\<lparr>lastSemiPreemptibleCore :=
                          AList.update (pg_UID job) (coreResourceQuantities (pp_fns pp) job) (lastSemiPreemptibleCore pp)\<rparr>
                else pp)
      in map_option (\<lambda>qs. pp\<lparr>pp_queues := qs\<rparr>)
           (foldOption (\<lambda>(status, tasks). foldOption (\<lambda>(_, t). taskUsage (pp_fns pp) job status t) tasks)
              (PodStatusIndex job) (pp_queues pp)))"

definition updateQueuesCurrentResourceUsage :: "(string, PodGroupInfo) gomap \<Rightarrow> proportionPlugin \<Rightarrow> proportionPlugin option" where
  "updateQueuesCurrentResourceUsage jobs pp = foldOption (\<lambda>(_, job). jobUsage job) jobs pp"

subsection \<open>Fair share down the hierarchy\<close>

definition getTopQueues :: "QueueMap \<Rightarrow> QueueID list" where
  "getTopQueues qs = remdups (map UID (filter (\<lambda>q. ParentQueue q = '''') (map snd qs)))"

text \<open>The map \<^verbatim>\<open>childQueues\<close> as the list of its keys; a child that is not in the map of queues would be a nil
  pointer in it.\<close>

definition getChildQueues :: "QueueAttributes \<Rightarrow> QueueID list" where
  "getChildQueues parentQueue = remdups (ChildQueues parentQueue)"

text \<open>\<open>SetResourcesShare\<close> on the objects of the map: the division writes through the pointers.\<close>

definition divideQueues :: "float64 \<Rightarrow> map_order \<Rightarrow> ResourceQuantities \<Rightarrow> float64 \<Rightarrow> QueueID list \<Rightarrow> QueueMap \<Rightarrow> QueueMap option" where
  "divideQueues unl ord totalResources kValue ids qs =
     (if \<exists>i \<in> set ids. map_of qs i = None then None
      else map_option (\<lambda>h. map (\<lambda>(k, q). (k, h k)) qs)
             (SetResourcesShare unl ord totalResources kValue ids (\<lambda>i. the (map_of qs i))))"

text \<open>\<open>setFairShareLoop\<close> is the loop over the queues of one level: for each, its children get its fair share and
  the loop runs over them (\<open>setFairShareForQueues\<close>). \<^verbatim>\<open>GetFairShare\<close> fills the cache of the queue.\<close>

partial_function (option) setFairShareLoop ::
  "float64 \<Rightarrow> map_order \<Rightarrow> float64 \<Rightarrow> QueueID list \<Rightarrow> QueueMap \<Rightarrow> QueueMap option" where
  "setFairShareLoop unl ord kValue ids qs =
     (case ids of
        [] \<Rightarrow> Some qs
      | i # rest \<Rightarrow>
          (case map_of qs i of
             None \<Rightarrow> None
           | Some q \<Rightarrow>
               (let children = getChildQueues q;
                    (resources, share) = GetFairShare (QShare q);
                    qs = AList.update i (q\<lparr>QShare := share\<rparr>) qs
                in Option.bind
                     (if children = [] then Some qs
                      else Option.bind (divideQueues unl ord resources kValue children qs) (setFairShareLoop unl ord kValue children))
                     (setFairShareLoop unl ord kValue rest))))"

declare setFairShareLoop.simps [code]

definition setFairShareForQueues ::
  "float64 \<Rightarrow> map_order \<Rightarrow> ResourceQuantities \<Rightarrow> float64 \<Rightarrow> QueueID list \<Rightarrow> QueueMap \<Rightarrow> QueueMap option" where
  "setFairShareForQueues unl ord totalResources kValue queues qs =
     (if queues = [] then Some qs
      else Option.bind (divideQueues unl ord totalResources kValue queues qs) (setFairShareLoop unl ord kValue queues))"

definition setFairShare :: "float64 \<Rightarrow> map_order \<Rightarrow> proportionPlugin \<Rightarrow> proportionPlugin option" where
  "setFairShare unl ord pp =
     map_option (\<lambda>qs. pp\<lparr>pp_queues := qs\<rparr>)
       (setFairShareForQueues unl ord (totalResource pp) (pp_kValue pp) (getTopQueues (pp_queues pp)) (pp_queues pp))"

definition createQueueAttributes ::
  "float64 \<Rightarrow> map_order \<Rightarrow> (QueueID, QueueInfo) gomap \<Rightarrow> (QueueID, ResourceQuantities) gomap \<Rightarrow> (string, PodGroupInfo) gomap \<Rightarrow>
   proportionPlugin \<Rightarrow> proportionPlugin option" where
  "createQueueAttributes unl ord infos usages jobs pp =
     Option.bind (updateQueuesCurrentResourceUsage jobs (createQueueResourceAttrs unl infos usages pp)) (setFairShare unl ord)"

subsection \<open>Events\<close>

definition queueUsageHandlerFn :: "(string, PodGroupInfo) gomap \<Rightarrow> bool \<Rightarrow> PodInfo \<Rightarrow> proportionPlugin \<Rightarrow> proportionPlugin option" where
  "queueUsageHandlerFn jobs negate task pp =
     (case map_of jobs (pod_Job task) of
        None \<Rightarrow> Some pp
      | Some job \<Rightarrow>
          (case map_of (pp_queues pp) (pg_Queue job) of
             None \<Rightarrow> Some pp
           | Some leafQueue \<Rightarrow>
               (let taskResources = QuantifyVector (AcceptedResourceVector task) (VectorMap task);
                    delta = (if negate then Quantities_Sub EmptyResourceQuantities taskResources else taskResources);
                    (notPreemptibleDelta, pp) =
                      (if IsSemiPreemptibleJob job then semiPreemptibleCoreDelta job pp
                       else if IsPreemptibleJob job then (EmptyResourceQuantities, pp)
                       else (delta, pp))
                in map_option (\<lambda>qs. pp\<lparr>pp_queues := qs\<rparr>) (addToQueues (pg_Queue job) delta notPreemptibleDelta (pp_queues pp)))))"

definition allocateHandlerFn :: "(string, PodGroupInfo) gomap \<Rightarrow> PodInfo \<Rightarrow> proportionPlugin \<Rightarrow> proportionPlugin option" where
  "allocateHandlerFn jobs = queueUsageHandlerFn jobs False"

definition deallocateHandlerFn :: "(string, PodGroupInfo) gomap \<Rightarrow> PodInfo \<Rightarrow> proportionPlugin \<Rightarrow> proportionPlugin option" where
  "deallocateHandlerFn jobs = queueUsageHandlerFn jobs True"

subsection \<open>Reclaim checks\<close>

definition buildReclaimerInfo :: "proportionPlugin \<Rightarrow> PodGroupInfo \<Rightarrow> TaskAllocationMode \<Rightarrow> ReclaimerInfo" where
  "buildReclaimerInfo pp reclaimer allocationMode =
     \<lparr>ri_Name = pg_Name reclaimer, ri_Namespace = pg_Namespace reclaimer, ri_Queue = pg_Queue reclaimer,
      RequiredResources = fst (GetTasksToAllocateInitResourceVector (of_subGroupOrderFn (pp_fns pp)) (of_taskOrderFn (pp_fns pp))
                                 allocationMode (of_minNodeGPUMemory (pp_fns pp)) reclaimer),
      ri_VectorMap = pg_VectorMap reclaimer, IsPreemptable = IsPreemptibleJob reclaimer\<rparr>"

definition reclaimablePlugin :: "proportionPlugin \<Rightarrow> Reclaimable" where
  "reclaimablePlugin pp = \<lparr>saturationMultiplier = relcaimerSaturationMultiplier pp, queuePriorityInQuotaReclaim = pp_priorityInQuota pp\<rparr>"

definition CanReclaimResourcesFn :: "float64 \<Rightarrow> proportionPlugin \<Rightarrow> PodGroupInfo \<Rightarrow> bool option" where
  "CanReclaimResourcesFn unl pp reclaimer =
     CanReclaimResources unl (pp_queues pp) (buildReclaimerInfo pp reclaimer PartialTaskAllocation)"

definition reclaimVictimFilterFn :: "float64 \<Rightarrow> proportionPlugin \<Rightarrow> PodGroupInfo \<Rightarrow> PodGroupInfo \<Rightarrow> bool option" where
  "reclaimVictimFilterFn unl pp reclaimer victim =
     FilterVictim unl (reclaimablePlugin pp) (pp_queues pp) (Some (buildReclaimerInfo pp reclaimer PartialTaskAllocation)) (pg_Queue victim)"

record VictimInfo =
  vi_Job :: PodGroupInfo
  vi_Tasks :: "PodInfo list"

definition splitVictimTasksByCoreSet :: "proportionPlugin \<Rightarrow> PodInfo list \<Rightarrow> PodGroupInfo \<Rightarrow> PodInfo list \<times> PodInfo list" where
  "splitVictimTasksByCoreSet pp tasks job =
     (let coreSet = GetCoreTasks job (of_taskOrderFn (pp_fns pp))
      in fold (\<lambda>task (elasticTasks, coreTasks).
             if map_of coreSet (pod_UID task) \<noteq> None then (elasticTasks, coreTasks @ [task])
             else (elasticTasks @ [task], coreTasks)) tasks ([], []))"

definition tasksBySubGroup :: "PodInfo list \<Rightarrow> (string, PodInfo list) gomap" where
  "tasksBySubGroup tasks =
     fold (\<lambda>task m.
         let subGroupName = (if SubGroupName task \<noteq> '''' then SubGroupName task else DefaultSubGroup)
         in AList.update subGroupName ((case map_of m subGroupName of None \<Rightarrow> [] | Some ts \<Rightarrow> ts) @ [task]) m) tasks []"

text \<open>A subgroup that the job does not have is a nil pointer, and so is a slice with a negative bound a panic.\<close>

definition splitSubGroup ::
  "(string, PodSet) gomap \<Rightarrow> string \<times> PodInfo list \<Rightarrow> PodInfo list \<times> PodInfo list \<Rightarrow> (PodInfo list \<times> PodInfo list) option" where
  "splitSubGroup subGroups entry acc =
     (let (subGroupName, subGroupTasks) = entry; (elasticTasks, coreTasks) = acc
      in case map_of subGroups subGroupName of
           None \<Rightarrow> None
         | Some subGroup \<Rightarrow>
             if minAvailable subGroup \<ge> int32_of (int (length subGroupTasks)) then Some (elasticTasks, coreTasks @ subGroupTasks)
             else if minAvailable subGroup < 0 then None
             else Some (elasticTasks @ drop (nat (minAvailable subGroup)) subGroupTasks,
                        coreTasks @ take (nat (minAvailable subGroup)) subGroupTasks))"

definition splitVictimTasksByPodSet :: "PodInfo list \<Rightarrow> (string, PodSet) gomap \<Rightarrow> (PodInfo list \<times> PodInfo list) option" where
  "splitVictimTasksByPodSet tasks subGroups = foldOption (splitSubGroup subGroups) (tasksBySubGroup tasks) ([], [])"

definition getResources :: "bool \<Rightarrow> PodInfo list \<Rightarrow> ResourceVector option" where
  "getResources ignoreReallocatedTasks tasks =
     (let vectors = map AcceptedResourceVector (filter (\<lambda>task. \<not> (ignoreReallocatedTasks \<and> IsActiveAllocatedStatus (pod_Status task))) tasks)
      in case vectors of [] \<Rightarrow> None | v # vs \<Rightarrow> Some (fold (\<lambda>vec tot. Vector_Add tot vec) vs v))"

definition getVictimResources :: "proportionPlugin \<Rightarrow> VictimInfo \<Rightarrow> ResourceVector list option" where
  "getVictimResources pp victim =
     Option.bind
       (if IsSemiPreemptibleJob (vi_Job victim) then Some (splitVictimTasksByCoreSet pp (vi_Tasks victim) (vi_Job victim))
        else splitVictimTasksByPodSet (vi_Tasks victim) (PodSets (vi_Job victim)))
       (\<lambda>(elasticTasks, coreTasks).
          let victimResources = List.map_filter (\<lambda>task. getResources (allowConsolidatingReclaim pp) [task]) elasticTasks
          in Some (case getResources (allowConsolidatingReclaim pp) coreTasks of
                     None \<Rightarrow> victimResources
                   | Some resources \<Rightarrow> victimResources @ [resources]))"

definition reclaimableFn :: "float64 \<Rightarrow> proportionPlugin \<Rightarrow> PodGroupInfo \<Rightarrow> (string, VictimInfo) gomap \<Rightarrow> bool option" where
  "reclaimableFn unl pp preemptor victims =
     Option.bind
       (foldOption (\<lambda>(_, victim) m.
            map_option (\<lambda>totalJobResources.
                if totalJobResources = [] then m
                else AList.update (pg_Queue (vi_Job victim))
                       ((case map_of m (pg_Queue (vi_Job victim)) of None \<Rightarrow> [] | Some vs \<Rightarrow> vs) @ totalJobResources) m)
              (getVictimResources pp victim)) victims [])
       (Reclaimable_Reclaimable unl (reclaimablePlugin pp) (jobSimulationQueues pp) (buildReclaimerInfo pp preemptor PartialTaskAllocation))"

subsection \<open>Reported shares\<close>

definition getQueueDeservedResourcesFn :: "proportionPlugin \<Rightarrow> QueueInfo option \<Rightarrow> ResourceRequirements option" where
  "getQueueDeservedResourcesFn pp q =
     Option.bind q (\<lambda>q. map_option (\<lambda>qa. ResourceRequirementsFromQuantities (fst (GetDeservedShare (QShare qa)))) (map_of (pp_queues pp) (qi_UID q)))"

definition getQueueFairShareFn :: "proportionPlugin \<Rightarrow> QueueInfo option \<Rightarrow> ResourceRequirements option" where
  "getQueueFairShareFn pp q =
     Option.bind q (\<lambda>q. map_option (\<lambda>qa. ResourceRequirementsFromQuantities (fst (GetFairShare (QShare qa)))) (map_of (pp_queues pp) (qi_UID q)))"

definition getQueueAllocatedResourceFn :: "proportionPlugin \<Rightarrow> QueueInfo option \<Rightarrow> ResourceRequirements option" where
  "getQueueAllocatedResourceFn pp q =
     Option.bind q (\<lambda>q. map_option (\<lambda>qa. ResourceRequirementsFromQuantities (GetAllocatedShare (QShare qa))) (map_of (pp_queues pp) (qi_UID q)))"

subsection \<open>The loop up the hierarchy\<close>

lemma updShares_simps [simp]:
  "ParentQueue (updShares f q) = ParentQueue q" "UID (updShares f q) = UID q"
  "queue_share (updShares f q) r = f r (queue_share q r)"
  "lastFairShare (QShare (updShares f q)) = lastFairShare (QShare q)"
  by (cases r; simp add: updShares_def queue_share_def AllResources_def)+

definition mapQueues :: "QueueID set \<Rightarrow> (QueueAttributes \<Rightarrow> QueueAttributes) \<Rightarrow> QueueMap \<Rightarrow> QueueMap \<Rightarrow> bool" where
  "mapQueues S f qs qs' \<longleftrightarrow> gokeys qs' = gokeys qs \<and>
     (\<forall>k. map_of qs' k = (if k \<in> S then map_option f (map_of qs k) else map_of qs k))"

lemma mapQueues_dom: "mapQueues S f qs qs' \<Longrightarrow> dom (map_of qs') = dom (map_of qs)"
  unfolding mapQueues_def dom_map_of_conv_image_fst by (metis list.set_map)

lemma queueParents_updShares:
  "map_of m i = Some q \<Longrightarrow> queueParents (AList.update i (updShares f q) m) = queueParents m"
  by (auto simp: queueParents_def)

interpretation climb: parent_walk map_of ParentQueue
  "\<lambda>qid q m. Inl (AList.update qid (updShares f q) m) :: QueueMap + unit" "\<lambda>m. queueParents m = queueParents qs" "queueParents qs" for f qs
  by (unfold_locales, metis queueParents_def) (auto simp: queueParents_updShares)

lemma gokeys_update: "map_of m i \<noteq> None \<Longrightarrow> gokeys (AList.update i v m) = gokeys m"
  by (simp add: update_keys map_of_eq_None_iff)

lemma walkChain_updShares:
  assumes "distinct ps" and "set ps \<subseteq> dom (map_of m)"
  shows "\<exists>m'. walkChain map_of (\<lambda>qid q m. Inl (AList.update qid (updShares f q) m) :: QueueMap + unit) ps m = Inl m' \<and>
    mapQueues (set ps) (updShares f) m m'"
  using assms
proof (induction ps arbitrary: m)
  case Nil
  then show ?case by (simp add: mapQueues_def)
next
  case (Cons p ps)
  obtain q where q: "map_of m p = Some q" using Cons.prems(2) by auto
  let ?m = "AList.update p (updShares f q) m"
  have sub: "set ps \<subseteq> dom (map_of ?m)" using Cons.prems(2) by auto
  obtain m' where m': "walkChain map_of (\<lambda>qid q m. Inl (AList.update qid (updShares f q) m) :: QueueMap + unit) ps ?m = Inl m'"
    "mapQueues (set ps) (updShares f) ?m m'"
    using Cons.IH [OF _ sub] Cons.prems(1) by (metis distinct.simps(2))
  moreover have "mapQueues (set (p # ps)) (updShares f) m m'"
    using m'(2) q Cons.prems(1) by (auto simp: mapQueues_def gokeys_update)
  ultimately show ?case using q by simp
qed

lemma climbQueues_effect:
  assumes "wf_queues qs"
  shows "\<exists>qs'. climbQueues f i qs = Some qs' \<and> mapQueues (set (ancestorIDs qs i)) (updShares f) qs qs'"
proof -
  obtain ps where ps: "queue_chain (queueParents qs) i ps" using wf_queues_chain [OF assms] by blast
  have "set ps \<subseteq> dom (map_of qs)" using chain_UIDs(3) [OF assms ps] by blast
  then obtain qs' where "walkChain map_of (\<lambda>qid q m. Inl (AList.update qid (updShares f q) m) :: QueueMap + unit) ps qs = Inl qs'"
    "mapQueues (set ps) (updShares f) qs qs'"
    using walkChain_updShares [OF queue_chain_distinct [OF ps]] by blast
  then show ?thesis
    unfolding climbQueues_def climb.walk_chain [OF ps refl, of f] using chain_UIDs(2) [OF assms ps] by simp
qed

lemma mapQueues_keeps:
  assumes "mapQueues S (updShares f) qs qs'"
  shows "queueParents qs' = queueParents qs" and "wf_queues qs \<Longrightarrow> wf_queues qs'"
    and "wf_queues qs \<Longrightarrow> ancestorIDs qs' i = ancestorIDs qs i"
proof -
  show p: "queueParents qs' = queueParents qs"
  proof
    fix k show "queueParents qs' k = queueParents qs k"
      using assms by (cases "map_of qs k") (auto simp: mapQueues_def queueParents_def)
  qed
  show wf: "wf_queues qs'" if w: "wf_queues qs"
    unfolding wf_queues_def p
  proof (intro conjI allI impI)
    fix u q assume "map_of qs' u = Some q"
    then show "UID q = u" using assms w by (auto simp: mapQueues_def wf_queues_def split: if_splits)
  next
    fix u show "grounded (queueParents qs) u" using w by (simp add: wf_queues_def)
  qed
  show "ancestorIDs qs' i = ancestorIDs qs i" if w: "wf_queues qs"
  proof -
    obtain ps where ps: "queue_chain (queueParents qs) i ps" using wf_queues_chain [OF w] by blast
    then show ?thesis using chain_UIDs(2) [OF w ps] chain_UIDs(2) [OF wf [OF w]] p by simp
  qed
qed

text \<open>The books of a queue.\<close>

definition bookOf :: "QueueMap \<Rightarrow> QueueID \<Rightarrow> ResourceName \<Rightarrow> ResourceShare" where
  "bookOf qs q r = queue_share (the (map_of qs q)) r"

lemma mapQueues_book:
  assumes "mapQueues S (updShares f) qs qs'" and "map_of qs q \<noteq> None"
  shows "bookOf qs' q r = (if q \<in> S then f r (bookOf qs q r) else bookOf qs q r)" and "map_of qs' q \<noteq> None"
  using assms by (auto simp: mapQueues_def bookOf_def)

subsection \<open>The ledger of events\<close>

type_synonym proportionEvent = "(string, PodGroupInfo) gomap \<times> bool \<times> PodInfo"

definition runEvents :: "proportionEvent list \<Rightarrow> proportionPlugin \<Rightarrow> proportionPlugin option" where
  "runEvents = foldOption (\<lambda>(jobs, negate, task). queueUsageHandlerFn jobs negate task)"

text \<open>What one event adds to the books of queue \<open>q\<close>: its job, its sign and its task, if the job is known.\<close>

definition eventDelta :: "proportionEvent \<Rightarrow> ResourceName \<Rightarrow> float64" where
  "eventDelta e r = (let (jobs, negate, task) = e; v = QuantifyVector (AcceptedResourceVector task) (VectorMap task) r
     in if negate then - v else v)"

definition eventJob :: "proportionEvent \<Rightarrow> PodGroupInfo option" where
  "eventJob e = (let (jobs, negate, task) = e in map_of jobs (pod_Job task))"

definition booksAt :: "QueueMap \<Rightarrow> QueueID \<Rightarrow> PodGroupInfo option \<Rightarrow> bool" where
  "booksAt qs q job = (case job of None \<Rightarrow> False | Some j \<Rightarrow> q \<in> set (ancestorIDs qs (pg_Queue j)))"

definition plainNotPreemptible :: "PodGroupInfo option \<Rightarrow> bool" where
  "plainNotPreemptible job = (case job of None \<Rightarrow> False | Some j \<Rightarrow> \<not> IsSemiPreemptibleJob j \<and> \<not> IsPreemptibleJob j)"

lemma Quantities_Clone_apply [simp]: "Quantities_Clone q r = q r"
  by (cases r) (simp_all add: Quantities_Clone_def)

lemma queueUsageHandlerFn_effect:
  assumes wf: "wf_queues (pp_queues pp)" and e: "e = (jobs, negate, task)"
  shows "\<exists>pp'. queueUsageHandlerFn jobs negate task pp = Some pp' \<and> wf_queues (pp_queues pp') \<and> pp_fns pp' = pp_fns pp \<and>
    (\<forall>i. ancestorIDs (pp_queues pp') i = ancestorIDs (pp_queues pp) i) \<and> dom (map_of (pp_queues pp')) = dom (map_of (pp_queues pp)) \<and>
    (\<forall>j. eventJob e = Some j \<and> IsSemiPreemptibleJob j \<and> map_of (pp_queues pp) (pg_Queue j) \<noteq> None \<longrightarrow>
       lastSemiPreemptibleCore pp' = AList.update (pg_UID j) (coreResourceQuantities (pp_fns pp) j) (lastSemiPreemptibleCore pp)) \<and>
    (\<not> (\<exists>j. eventJob e = Some j \<and> IsSemiPreemptibleJob j \<and> map_of (pp_queues pp) (pg_Queue j) \<noteq> None) \<longrightarrow>
       lastSemiPreemptibleCore pp' = lastSemiPreemptibleCore pp) \<and>
    (\<forall>q r. map_of (pp_queues pp) q \<noteq> None \<longrightarrow>
       bookOf (pp_queues pp') q r = (bookOf (pp_queues pp) q r)
         \<lparr>allocated := allocated (bookOf (pp_queues pp) q r) + (if booksAt (pp_queues pp) q (eventJob e) then eventDelta e r else 0),
          allocatedNotPreemptible := allocatedNotPreemptible (bookOf (pp_queues pp) q r) +
            (if booksAt (pp_queues pp) q (eventJob e)
             then if plainNotPreemptible (eventJob e) then eventDelta e r
                  else if IsSemiPreemptibleJob (the (eventJob e))
                  then coreResourceQuantities (pp_fns pp) (the (eventJob e)) r - lastCore pp (pg_UID (the (eventJob e))) r
                  else 0
             else 0)\<rparr>)"
proof (cases "map_of jobs (pod_Job task)")
  case None
  then have "eventJob e = None" by (simp add: eventJob_def e)
  then show ?thesis using None wf by (simp add: queueUsageHandlerFn_def booksAt_def)
next
  case (Some job)
  have job: "eventJob e = Some job" by (simp add: eventJob_def e Some)
  show ?thesis
  proof (cases "map_of (pp_queues pp) (pg_Queue job)")
    case None
    have "queue_chain (queueParents (pp_queues pp)) (pg_Queue job) []" using None by (simp add: queueParents_def)
    then have "ancestorIDs (pp_queues pp) (pg_Queue job) = []" using chain_UIDs(2) [OF wf] by fastforce
    then show ?thesis using None Some wf by (simp add: queueUsageHandlerFn_def booksAt_def job)
  next
    case (Some leaf)
    define tr where "tr = QuantifyVector (AcceptedResourceVector task) (VectorMap task)"
    define delta where "delta = (if negate then Quantities_Sub EmptyResourceQuantities tr else tr)"
    define sp where "sp = (if IsSemiPreemptibleJob job then semiPreemptibleCoreDelta job pp
         else if IsPreemptibleJob job then (EmptyResourceQuantities, pp) else (delta, pp))"
    have qs: "pp_queues (snd sp) = pp_queues pp" "pp_fns (snd sp) = pp_fns pp"
      by (simp_all add: sp_def semiPreemptibleCoreDelta_def Let_def)
    obtain qs' where qs': "addToQueues (pg_Queue job) delta (fst sp) (pp_queues pp) = Some qs'"
      "mapQueues (set (ancestorIDs (pp_queues pp) (pg_Queue job))) (updShares (\<lambda>resource rs. rs\<lparr>allocated := allocated rs + delta resource,
         allocatedNotPreemptible := allocatedNotPreemptible rs + fst sp resource\<rparr>)) (pp_queues pp) qs'"
      unfolding addToQueues_def using climbQueues_effect [OF wf] by blast
    have h: "queueUsageHandlerFn jobs negate task pp = Some ((snd sp)\<lparr>pp_queues := qs'\<rparr>)"
      unfolding queueUsageHandlerFn_def Let_def \<open>map_of jobs (pod_Job task) = Some job\<close> option.case Some
        tr_def [symmetric] delta_def [symmetric] sp_def [symmetric] split_beta qs(1) qs'(1) by simp
    have d: "eventDelta e r = delta r" for r by (simp add: eventDelta_def e delta_def tr_def)
    have np: "fst sp r = (if plainNotPreemptible (Some job) then delta r else if IsSemiPreemptibleJob job
        then coreResourceQuantities (pp_fns pp) job r - lastCore pp (pg_UID job) r else 0)" for r
      by (simp add: sp_def semiPreemptibleCoreDelta_def Let_def plainNotPreemptible_def)
    have book: "bookOf qs' q r = (bookOf (pp_queues pp) q r)
         \<lparr>allocated := allocated (bookOf (pp_queues pp) q r) + (if booksAt (pp_queues pp) q (Some job) then delta r else 0),
          allocatedNotPreemptible := allocatedNotPreemptible (bookOf (pp_queues pp) q r) +
            (if booksAt (pp_queues pp) q (Some job) then fst sp r else 0)\<rparr>" if "map_of (pp_queues pp) q \<noteq> None" for q r
      using mapQueues_book(1) [OF qs'(2) that] by (simp add: booksAt_def)
    have "dom (map_of qs') = dom (map_of (pp_queues pp))" using mapQueues_dom [OF qs'(2)] .
    then show ?thesis
      unfolding h using mapQueues_keeps(2,3) [OF qs'(2) wf] book Some
      by (intro exI [of _ "(snd sp)\<lparr>pp_queues := qs'\<rparr>"])
        (simp add: qs job d np [symmetric], simp add: sp_def semiPreemptibleCoreDelta_def Let_def plainNotPreemptible_def)
  qed
qed

text \<open>The cores the plugin holds for the semi-preemptible jobs \<open>U\<close> that are booked at queue \<open>q\<close>; \<open>jq\<close> is the queue
  of a job.\<close>

definition semiBook :: "QueueMap \<Rightarrow> (string \<Rightarrow> QueueID) \<Rightarrow> string list \<Rightarrow> proportionPlugin \<Rightarrow> QueueID \<Rightarrow> ResourceName \<Rightarrow> float64" where
  "semiBook qs jq U pp q r = (\<Sum>u\<leftarrow>U. if q \<in> set (ancestorIDs qs (jq u)) then lastCore pp u r else 0)"

definition eventsOf :: "(string \<Rightarrow> QueueID) \<Rightarrow> string list \<Rightarrow> proportionEvent \<Rightarrow> bool" where
  "eventsOf jq U e \<longleftrightarrow> (\<forall>j. eventJob e = Some j \<longrightarrow> pg_Queue j = jq (pg_UID j) \<and> (IsSemiPreemptibleJob j \<longrightarrow> pg_UID j \<in> set U))"

lemma lastCore_update:
  "lastSemiPreemptibleCore pp' = AList.update u c (lastSemiPreemptibleCore pp) \<Longrightarrow> lastCore pp' = (lastCore pp)(u := c)"
  by (auto simp: lastCore_def)

lemma semiBook_update:
  assumes "distinct U" and "u \<in> set U" and "lastCore pp' = (lastCore pp)(u := c)"
  shows "semiBook qs jq U pp' q r = semiBook qs jq U pp q r +
    (if q \<in> set (ancestorIDs qs (jq u)) then c r - lastCore pp u r else 0)"
proof -
  let ?f = "\<lambda>u. if q \<in> set (ancestorIDs qs (jq u)) then lastCore pp u r else 0"
  have eq: "(\<lambda>u. if q \<in> set (ancestorIDs qs (jq u)) then lastCore pp' u r else 0) =
      ?f(u := if q \<in> set (ancestorIDs qs (jq u)) then c r else 0)"
    by (auto simp: assms(3))
  show ?thesis unfolding semiBook_def eq sum_list_fun_upd [OF assms(1,2)] by simp
qed

lemma semiBook_cong: "(\<And>i. ancestorIDs qs' i = ancestorIDs qs i) \<Longrightarrow> semiBook qs' jq U = semiBook qs jq U"
  by (intro ext) (simp add: semiBook_def)

lemma booksAt_cong: "(\<And>i. ancestorIDs qs' i = ancestorIDs qs i) \<Longrightarrow> booksAt qs' = booksAt qs"
  by (intro ext) (simp add: booksAt_def split: option.split)

text \<open>The ledger of one event.\<close>

lemma ledger_event:
  assumes wf: "wf_queues (pp_queues pp)" and e: "e = (jobs, negate, task)" and ok: "eventsOf jq U e" and U: "distinct U"
  shows "\<exists>pp'. queueUsageHandlerFn jobs negate task pp = Some pp' \<and> wf_queues (pp_queues pp') \<and>
    (\<forall>i. ancestorIDs (pp_queues pp') i = ancestorIDs (pp_queues pp) i) \<and> dom (map_of (pp_queues pp')) = dom (map_of (pp_queues pp)) \<and>
    (\<forall>q r. map_of (pp_queues pp) q \<noteq> None \<longrightarrow>
       allocated (bookOf (pp_queues pp') q r) =
         allocated (bookOf (pp_queues pp) q r) + (if booksAt (pp_queues pp) q (eventJob e) then eventDelta e r else 0) \<and>
       allocatedNotPreemptible (bookOf (pp_queues pp') q r) - semiBook (pp_queues pp) jq U pp' q r =
         allocatedNotPreemptible (bookOf (pp_queues pp) q r) - semiBook (pp_queues pp) jq U pp q r +
         (if booksAt (pp_queues pp) q (eventJob e) \<and> plainNotPreemptible (eventJob e) then eventDelta e r else 0))"
proof -
  let ?semi = "\<exists>j. eventJob e = Some j \<and> IsSemiPreemptibleJob j \<and> map_of (pp_queues pp) (pg_Queue j) \<noteq> None"
  obtain pp' where pp': "queueUsageHandlerFn jobs negate task pp = Some pp'" "wf_queues (pp_queues pp')"
    "\<forall>i. ancestorIDs (pp_queues pp') i = ancestorIDs (pp_queues pp) i" "dom (map_of (pp_queues pp')) = dom (map_of (pp_queues pp))"
    and semi: "\<And>j. eventJob e = Some j \<Longrightarrow> IsSemiPreemptibleJob j \<Longrightarrow> map_of (pp_queues pp) (pg_Queue j) \<noteq> None \<Longrightarrow>
       lastSemiPreemptibleCore pp' = AList.update (pg_UID j) (coreResourceQuantities (pp_fns pp) j) (lastSemiPreemptibleCore pp)"
    and other: "\<not> ?semi \<Longrightarrow> lastSemiPreemptibleCore pp' = lastSemiPreemptibleCore pp"
    and book: "\<And>q r. map_of (pp_queues pp) q \<noteq> None \<Longrightarrow>
       bookOf (pp_queues pp') q r = (bookOf (pp_queues pp) q r)
         \<lparr>allocated := allocated (bookOf (pp_queues pp) q r) + (if booksAt (pp_queues pp) q (eventJob e) then eventDelta e r else 0),
          allocatedNotPreemptible := allocatedNotPreemptible (bookOf (pp_queues pp) q r) +
            (if booksAt (pp_queues pp) q (eventJob e)
             then if plainNotPreemptible (eventJob e) then eventDelta e r
                  else if IsSemiPreemptibleJob (the (eventJob e))
                  then coreResourceQuantities (pp_fns pp) (the (eventJob e)) r - lastCore pp (pg_UID (the (eventJob e))) r
                  else 0
             else 0)\<rparr>"
    using queueUsageHandlerFn_effect [OF wf e] by metis
  have sb: "semiBook (pp_queues pp) jq U pp' q r = semiBook (pp_queues pp) jq U pp q r +
      (if booksAt (pp_queues pp) q (eventJob e) \<and> IsSemiPreemptibleJob (the (eventJob e))
       then coreResourceQuantities (pp_fns pp) (the (eventJob e)) r - lastCore pp (pg_UID (the (eventJob e))) r else 0)" for q r
  proof (cases ?semi)
    case True
    then obtain j where j: "eventJob e = Some j" "IsSemiPreemptibleJob j" "map_of (pp_queues pp) (pg_Queue j) \<noteq> None" by blast
    then have "pg_Queue j = jq (pg_UID j)" "pg_UID j \<in> set U" using ok by (auto simp: eventsOf_def)
    then show ?thesis
      using semiBook_update [OF U _ lastCore_update [OF semi [OF j]], of "pp_queues pp" jq q r] j by (simp add: booksAt_def)
  next
    case False
    have "\<not> (booksAt (pp_queues pp) q (eventJob e) \<and> IsSemiPreemptibleJob (the (eventJob e)))"
    proof
      assume a: "booksAt (pp_queues pp) q (eventJob e) \<and> IsSemiPreemptibleJob (the (eventJob e))"
      then obtain j where j: "eventJob e = Some j" "q \<in> set (ancestorIDs (pp_queues pp) (pg_Queue j))" "IsSemiPreemptibleJob j"
        by (auto simp: booksAt_def split: option.splits)
      obtain ps where ps: "queue_chain (queueParents (pp_queues pp)) (pg_Queue j) ps" using wf_queues_chain [OF wf] by blast
      then have "ps \<noteq> []" using chain_UIDs(2) [OF wf ps] j(2) by auto
      then have "map_of (pp_queues pp) (pg_Queue j) \<noteq> None" using ps by (cases ps) (auto simp: queueParents_def split: option.splits)
      then show False using False j by blast
    qed
    moreover have "lastCore pp' = lastCore pp" using other [OF False] by (intro ext) (simp add: lastCore_def)
    ultimately show ?thesis by (simp only: semiBook_def if_False)
  qed
  have plain: "plainNotPreemptible (eventJob e) \<Longrightarrow> \<not> IsSemiPreemptibleJob (the (eventJob e))"
    by (auto simp: plainNotPreemptible_def split: option.splits)
  show ?thesis
    using pp' book sb plain by (intro exI [of _ pp']) auto
qed

lemma ledger_events:
  assumes "distinct U" and "wf_queues (pp_queues pp)" and "\<forall>e \<in> set events. eventsOf jq U e"
  shows "\<exists>pp'. runEvents events pp = Some pp' \<and> dom (map_of (pp_queues pp')) = dom (map_of (pp_queues pp)) \<and>
    (\<forall>q r. map_of (pp_queues pp) q \<noteq> None \<longrightarrow>
       allocated (bookOf (pp_queues pp') q r) = allocated (bookOf (pp_queues pp) q r) +
         (\<Sum>e\<leftarrow>events. if booksAt (pp_queues pp) q (eventJob e) then eventDelta e r else 0) \<and>
       allocatedNotPreemptible (bookOf (pp_queues pp') q r) - semiBook (pp_queues pp) jq U pp' q r =
         allocatedNotPreemptible (bookOf (pp_queues pp) q r) - semiBook (pp_queues pp) jq U pp q r +
         (\<Sum>e\<leftarrow>events. if booksAt (pp_queues pp) q (eventJob e) \<and> plainNotPreemptible (eventJob e) then eventDelta e r else 0))"
  using assms(2,3)
proof (induction events arbitrary: pp)
  case Nil
  then show ?case by (simp add: runEvents_def)
next
  case (Cons e events)
  obtain jobs negate task where e: "e = (jobs, negate, task)" by (cases e) auto
  have "eventsOf jq U e" using Cons.prems(2) by simp
  from ledger_event [OF Cons.prems(1) e this assms(1)] obtain pp1 where
    s: "queueUsageHandlerFn jobs negate task pp = Some pp1" "wf_queues (pp_queues pp1)"
    "\<And>i. ancestorIDs (pp_queues pp1) i = ancestorIDs (pp_queues pp) i" "dom (map_of (pp_queues pp1)) = dom (map_of (pp_queues pp))"
    and b: "\<And>q r. map_of (pp_queues pp) q \<noteq> None \<Longrightarrow>
       allocated (bookOf (pp_queues pp1) q r) =
         allocated (bookOf (pp_queues pp) q r) + (if booksAt (pp_queues pp) q (eventJob e) then eventDelta e r else 0) \<and>
       allocatedNotPreemptible (bookOf (pp_queues pp1) q r) - semiBook (pp_queues pp) jq U pp1 q r =
         allocatedNotPreemptible (bookOf (pp_queues pp) q r) - semiBook (pp_queues pp) jq U pp q r +
         (if booksAt (pp_queues pp) q (eventJob e) \<and> plainNotPreemptible (eventJob e) then eventDelta e r else 0)"
    by blast
  obtain pp' where r: "runEvents events pp1 = Some pp'" "dom (map_of (pp_queues pp')) = dom (map_of (pp_queues pp1))"
    and b': "\<And>q r. map_of (pp_queues pp1) q \<noteq> None \<Longrightarrow>
       allocated (bookOf (pp_queues pp') q r) = allocated (bookOf (pp_queues pp1) q r) +
         (\<Sum>e\<leftarrow>events. if booksAt (pp_queues pp1) q (eventJob e) then eventDelta e r else 0) \<and>
       allocatedNotPreemptible (bookOf (pp_queues pp') q r) - semiBook (pp_queues pp1) jq U pp' q r =
         allocatedNotPreemptible (bookOf (pp_queues pp1) q r) - semiBook (pp_queues pp1) jq U pp1 q r +
         (\<Sum>e\<leftarrow>events. if booksAt (pp_queues pp1) q (eventJob e) \<and> plainNotPreemptible (eventJob e) then eventDelta e r else 0)"
    using Cons.IH [OF s(2)] Cons.prems(2) by auto
  note same = semiBook_cong [of "pp_queues pp1" "pp_queues pp", OF s(3)] booksAt_cong [of "pp_queues pp1" "pp_queues pp", OF s(3)]
  have "map_of (pp_queues pp1) q \<noteq> None \<longleftrightarrow> map_of (pp_queues pp) q \<noteq> None" for q using s(4) by (auto simp: dom_def)
  then show ?case
    using r s(1,4) b b' unfolding same by (intro exI [of _ pp']) (auto simp: runEvents_def e)
qed

text \<open>Which core the plugin holds: that of the job at the last event of the job.\<close>

lemma foldOption_append: "foldOption f (xs @ ys) s = Option.bind (foldOption f xs s) (foldOption f ys)"
  by (induction xs arbitrary: s) (auto split: option.split)

lemma runEvents_append: "runEvents (es @ es') pp = Option.bind (runEvents es pp) (runEvents es')"
  by (simp add: runEvents_def foldOption_append)

lemma runEvents_Cons:
  "runEvents ((jobs, negate, task) # es) pp = (case queueUsageHandlerFn jobs negate task pp of None \<Rightarrow> None | Some pp1 \<Rightarrow> runEvents es pp1)"
  by (simp add: runEvents_def split: option.split)

definition touchesCore :: "string \<Rightarrow> proportionEvent \<Rightarrow> bool" where
  "touchesCore u e \<longleftrightarrow> (case eventJob e of None \<Rightarrow> False | Some j \<Rightarrow> IsSemiPreemptibleJob j \<and> pg_UID j = u)"

lemma handler_lastCore:
  assumes "queueUsageHandlerFn jobs negate task pp = Some pp'" and "e = (jobs, negate, task)"
  shows "\<not> touchesCore u e \<Longrightarrow> lastCore pp' u = lastCore pp u"
    and "eventJob e = Some j \<Longrightarrow> IsSemiPreemptibleJob j \<Longrightarrow> map_of (pp_queues pp) (pg_Queue j) \<noteq> None \<Longrightarrow>
      lastCore pp' (pg_UID j) = coreResourceQuantities (pp_fns pp) j"
    and "pp_fns pp' = pp_fns pp"
  using assms(1)
  by (auto simp: queueUsageHandlerFn_def semiPreemptibleCoreDelta_def touchesCore_def eventJob_def assms(2) lastCore_def Let_def
      split: option.splits if_splits)

lemma runEvents_lastCore:
  assumes "runEvents es pp = Some pp'"
  shows "\<forall>e \<in> set es. \<not> touchesCore u e \<Longrightarrow> lastCore pp' u = lastCore pp u" and "pp_fns pp' = pp_fns pp"
proof -
  have "((\<forall>e \<in> set es. \<not> touchesCore u e) \<longrightarrow> lastCore pp' u = lastCore pp u) \<and> pp_fns pp' = pp_fns pp"
    using assms
  proof (induction es arbitrary: pp)
    case Nil
    then show ?case by (simp add: runEvents_def)
  next
    case (Cons e es)
    obtain jobs negate task where e: "e = (jobs, negate, task)" by (cases e) auto
    obtain pp1 where s: "queueUsageHandlerFn jobs negate task pp = Some pp1" "runEvents es pp1 = Some pp'"
      using Cons.prems by (auto simp: runEvents_def e split: option.splits)
    show ?case using Cons.IH [OF s(2)] handler_lastCore(1) [OF s(1) e, of u] handler_lastCore(3) [OF s(1) e] by auto
  qed
  then show "\<forall>e \<in> set es. \<not> touchesCore u e \<Longrightarrow> lastCore pp' u = lastCore pp u" and "pp_fns pp' = pp_fns pp" by blast+
qed

lemma runEvents_last_core:
  assumes U: "distinct U" and wf: "wf_queues (pp_queues pp)" and ok: "\<forall>e \<in> set (es @ e # es'). eventsOf jq U e"
    and run: "runEvents (es @ e # es') pp = Some pp'" and j: "eventJob e = Some j" "IsSemiPreemptibleJob j"
    and known: "map_of (pp_queues pp) (pg_Queue j) \<noteq> None" and last: "\<forall>e \<in> set es'. \<not> touchesCore (pg_UID j) e"
  shows "lastCore pp' (pg_UID j) = coreResourceQuantities (pp_fns pp) j"
proof -
  obtain jobs negate task where e: "e = (jobs, negate, task)" by (cases e) auto
  obtain pp1 pp2 where r: "runEvents es pp = Some pp1" "queueUsageHandlerFn jobs negate task pp1 = Some pp2" "runEvents es' pp2 = Some pp'"
    using run by (cases "runEvents es pp") (auto simp: runEvents_append e runEvents_Cons split: option.splits)
  have "\<forall>e \<in> set es. eventsOf jq U e" using ok by simp
  from ledger_events [OF U wf this] r(1) have "dom (map_of (pp_queues pp1)) = dom (map_of (pp_queues pp))" by auto
  then have "map_of (pp_queues pp1) (pg_Queue j) \<noteq> None" using known by (auto simp: dom_def)
  then show ?thesis
    using runEvents_lastCore(1) [OF r(3) last] handler_lastCore(2) [OF r(2) e j] runEvents_lastCore(2) [OF r(1)] by simp
qed

text \<open>C25. The ledger of the queues. From any state with a well-formed hierarchy, every sequence of allocate and
  deallocate events is handled, and afterwards each queue's allocated amount is the one at the start plus
  the task of every allocation minus that of every deallocation in the queue or below it. The
  not-preemptible amount moves by the tasks of the not-preemptible jobs and, for each semi-preemptible job,
  by exactly the difference between the cores held for it, which is the core of the job at its last event.\<close>

theorem proportion_ledger:
  assumes "wf_queues (pp_queues pp)" and "distinct U" and "\<forall>e \<in> set events. eventsOf jq U e"
  shows "\<exists>pp'. runEvents events pp = Some pp' \<and>
    (\<forall>q r. map_of (pp_queues pp) q \<noteq> None \<longrightarrow>
       allocated (bookOf (pp_queues pp') q r) = allocated (bookOf (pp_queues pp) q r) +
         (\<Sum>e\<leftarrow>events. if booksAt (pp_queues pp) q (eventJob e) then eventDelta e r else 0) \<and>
       allocatedNotPreemptible (bookOf (pp_queues pp') q r) - semiBook (pp_queues pp) jq U pp' q r =
         allocatedNotPreemptible (bookOf (pp_queues pp) q r) - semiBook (pp_queues pp) jq U pp q r +
         (\<Sum>e\<leftarrow>events. if booksAt (pp_queues pp) q (eventJob e) \<and> plainNotPreemptible (eventJob e) then eventDelta e r else 0)) \<and>
    (\<forall>es e es' j. events = es @ e # es' \<and> eventJob e = Some j \<and> IsSemiPreemptibleJob j \<and> map_of (pp_queues pp) (pg_Queue j) \<noteq> None \<and>
       (\<forall>e \<in> set es'. \<not> touchesCore (pg_UID j) e) \<longrightarrow> lastCore pp' (pg_UID j) = coreResourceQuantities (pp_fns pp) j)"
proof -
  from ledger_events [OF assms(2,1,3)] obtain pp' where r: "runEvents events pp = Some pp'"
    "\<forall>q r. map_of (pp_queues pp) q \<noteq> None \<longrightarrow>
       allocated (bookOf (pp_queues pp') q r) = allocated (bookOf (pp_queues pp) q r) +
         (\<Sum>e\<leftarrow>events. if booksAt (pp_queues pp) q (eventJob e) then eventDelta e r else 0) \<and>
       allocatedNotPreemptible (bookOf (pp_queues pp') q r) - semiBook (pp_queues pp) jq U pp' q r =
         allocatedNotPreemptible (bookOf (pp_queues pp) q r) - semiBook (pp_queues pp) jq U pp q r +
         (\<Sum>e\<leftarrow>events. if booksAt (pp_queues pp) q (eventJob e) \<and> plainNotPreemptible (eventJob e) then eventDelta e r else 0)"
    by blast
  have "lastCore pp' (pg_UID j) = coreResourceQuantities (pp_fns pp) j"
    if ev: "events = es @ e # es'" and j: "eventJob e = Some j" "IsSemiPreemptibleJob j" "map_of (pp_queues pp) (pg_Queue j) \<noteq> None"
      "\<forall>e \<in> set es'. \<not> touchesCore (pg_UID j) e" for es e es' j
    using runEvents_last_core [OF assms(2,1) assms(3) [unfolded ev] r(1) [unfolded ev] j] .
  then show ?thesis using r by blast
qed

definition exampleFns :: OrderFns where
  "exampleFns = \<lparr>of_subGroupOrderFn = (\<lambda>_ _. False), of_taskOrderFn = (\<lambda>_ _. False), of_minNodeGPUMemory = None\<rparr>"

definition examplePlugin :: proportionPlugin where
  "examplePlugin = (proportion_New (\<lambda>_. None) [] exampleFns)\<lparr>pp_queues := reclaimQueues\<rparr>"

definition exampleEvent :: "bool \<Rightarrow> proportionEvent" where
  "exampleEvent negate =
     ([(''j'', (emptyJob ''j'' exampleVMap)\<lparr>pg_Queue := ''b1''\<rparr>)], negate,
      exampleGpuTask\<lparr>pod_Job := ''j'', AcceptedResourceVector := [0, 0, 2, 0]\<rparr>)"

theorem proportion_ledger_witness:
  "\<exists>pp'. runEvents [exampleEvent False] examplePlugin = Some pp' \<and> allocated (bookOf (pp_queues pp') ''b'' GpuResource) = 12"
proof -
  have pq: "pp_queues examplePlugin = reclaimQueues" by (simp add: examplePlugin_def)
  have wf: "wf_queues (pp_queues examplePlugin)" unfolding pq by (rule reclaimQueues_wf)
  have ev: "\<forall>e \<in> set [exampleEvent False]. eventsOf (\<lambda>_. ''b1'') [] e"
    by (simp add: eventsOf_def exampleEvent_def eventJob_def emptyJob_def IsSemiPreemptibleJob_def)
  have known: "map_of (pp_queues examplePlugin) ''b'' \<noteq> None" by (simp add: pq reclaimQueues_def)
  have "ancestorIDs reclaimQueues ''b1'' = [''b'', ''b1'']" by code_simp
  then have at: "booksAt (pp_queues examplePlugin) ''b'' (eventJob (exampleEvent False))"
    by (simp add: booksAt_def eventJob_def exampleEvent_def exampleGpuTask_def pq)
  have "eventDelta (exampleEvent False) GpuResource = 2" "allocated (bookOf reclaimQueues ''b'' GpuResource) = 10" by code_simp+
  with at known show ?thesis
    using proportion_ledger [OF wf distinct.simps(1) [THEN iffD2, OF TrueI] ev] by (auto simp: pq)
qed

subsection \<open>The books at the start of a session\<close>

text \<open>The three amounts a loop up the hierarchy may add to.\<close>

datatype bookField = Allocated_book | NotPreemptible_book | Request_book

definition addBook :: "(bookField \<Rightarrow> float64) \<Rightarrow> ResourceShare \<Rightarrow> ResourceShare" where
  "addBook d rs = rs\<lparr>allocated := allocated rs + d Allocated_book,
     allocatedNotPreemptible := allocatedNotPreemptible rs + d NotPreemptible_book, request := request rs + d Request_book\<rparr>"

lemma addBook_0 [simp]: "addBook (\<lambda>_. 0) rs = rs"
  by (simp add: addBook_def)

lemma addBook_addBook: "addBook d (addBook e rs) = addBook (\<lambda>b. e b + d b) rs"
  by (simp add: addBook_def add.assoc)

definition posts :: "QueueMap \<Rightarrow> QueueMap \<Rightarrow> (QueueID \<Rightarrow> ResourceName \<Rightarrow> bookField \<Rightarrow> float64) \<Rightarrow> bool" where
  "posts qs qs' inc \<longleftrightarrow> wf_queues qs' \<and> ancestorIDs qs' = ancestorIDs qs \<and> dom (map_of qs') = dom (map_of qs) \<and>
     (\<forall>q r. map_of qs q \<noteq> None \<longrightarrow> bookOf qs' q r = addBook (inc q r) (bookOf qs q r))"

lemma posts_refl: "wf_queues qs \<Longrightarrow> posts qs qs (\<lambda>_ _ _. 0)"
  by (simp add: posts_def)

lemma posts_trans:
  assumes "posts qs1 qs2 inc" and "posts qs2 qs3 inc'"
  shows "posts qs1 qs3 (\<lambda>q r b. inc q r b + inc' q r b)"
proof -
  have "map_of qs2 q \<noteq> None \<longleftrightarrow> map_of qs1 q \<noteq> None" for q using assms(1) by (auto simp: posts_def dom_def)
  then show ?thesis using assms by (auto simp: posts_def addBook_addBook)
qed

lemma posts_foldOption:
  assumes "\<And>x qs. x \<in> set xs \<Longrightarrow> wf_queues qs \<Longrightarrow> ancestorIDs qs = A \<Longrightarrow> \<exists>qs'. f x qs = Some qs' \<and> posts qs qs' (inc x)"
    and "wf_queues qs" and "ancestorIDs qs = A"
  shows "\<exists>qs'. foldOption f xs qs = Some qs' \<and> posts qs qs' (\<lambda>q r b. \<Sum>x\<leftarrow>xs. inc x q r b)"
  using assms
proof (induction xs arbitrary: qs)
  case Nil
  then show ?case by (simp add: posts_refl)
next
  case (Cons x xs)
  obtain qs1 where s: "f x qs = Some qs1" "posts qs qs1 (inc x)" using Cons.prems(1) [of x qs] Cons.prems(2,3) by auto
  then have "wf_queues qs1" "ancestorIDs qs1 = A" using Cons.prems(3) by (auto simp: posts_def)
  then obtain qs' where "foldOption f xs qs1 = Some qs'" "posts qs1 qs' (\<lambda>q r b. \<Sum>x\<leftarrow>xs. inc x q r b)"
    using Cons.IH [of qs1] Cons.prems(1) by auto
  then show ?case using s posts_trans [OF s(2)] by auto
qed

lemma climbQueues_posts:
  assumes "wf_queues qs" and "\<And>r rs. f r rs = addBook (d r) rs"
  shows "\<exists>qs'. climbQueues f i qs = Some qs' \<and> posts qs qs' (\<lambda>q r b. if q \<in> set (ancestorIDs qs i) then d r b else 0)"
proof -
  from climbQueues_effect [OF assms(1)] obtain qs' where
    s: "climbQueues f i qs = Some qs'" "mapQueues (set (ancestorIDs qs i)) (updShares f) qs qs'" by blast
  have "bookOf qs' q r = addBook (\<lambda>b. if q \<in> set (ancestorIDs qs i) then d r b else 0) (bookOf qs q r)" if "map_of qs q \<noteq> None" for q r
    using mapQueues_book(1) [OF s(2) that, of r] assms(2) by simp
  then show ?thesis
    using s mapQueues_keeps(2,3) [OF s(2) assms(1)] mapQueues_dom [OF s(2)] by (auto simp: posts_def)
qed

text \<open>What a task of a job counts for.\<close>

definition taskBook :: "OrderFns \<Rightarrow> PodGroupInfo \<Rightarrow> PodStatus \<Rightarrow> PodInfo \<Rightarrow> ResourceName \<Rightarrow> bookField \<Rightarrow> float64" where
  "taskBook fns job status t r b =
     (if AllocatedStatus status
      then if b = NotPreemptible_book \<and>
              (IsPreemptibleJob job \<or> IsSemiPreemptibleJob job \<and> map_of (GetCoreTasks job (of_taskOrderFn fns)) (pod_UID t) = None)
           then 0 else QuantifyVector (AcceptedResourceVector t) (VectorMap t) r
      else if status = Pending \<and> b = Request_book
      then QuantifyVector (ResReqVector t) (VectorMap t) r +
        (if r = GpuResource \<and> IsGpuMemoryRequest t
         then case of_minNodeGPUMemory fns of None \<Rightarrow> 0 | Some m \<Rightarrow> GpuMemoryAsGpuFraction (GpuRequirement t) m else 0)
      else 0)"

definition jobBook :: "OrderFns \<Rightarrow> PodGroupInfo \<Rightarrow> ResourceName \<Rightarrow> bookField \<Rightarrow> float64" where
  "jobBook fns job r b = (\<Sum>(status, tasks)\<leftarrow>PodStatusIndex job. \<Sum>(_, t)\<leftarrow>tasks. taskBook fns job status t r b)"

lemma taskUsage_posts:
  assumes "wf_queues qs"
  shows "\<exists>qs'. taskUsage fns job status t qs = Some qs' \<and>
    posts qs qs' (\<lambda>q r b. if q \<in> set (ancestorIDs qs (pg_Queue job)) then taskBook fns job status t r b else 0)"
proof -
  consider (alloc) "AllocatedStatus status" | (pend) "\<not> AllocatedStatus status" "status = Pending" | (other) "\<not> AllocatedStatus status" "status \<noteq> Pending"
    by blast
  then show ?thesis
  proof cases
    case alloc
    have excl: "\<not> (IsPreemptibleJob job \<and> IsSemiPreemptibleJob job)" by (simp add: IsPreemptibleJob_def IsSemiPreemptibleJob_def)
    show ?thesis
      unfolding taskUsage_def updateQueuesResourceUsageForAllocatedJob_def Let_def if_P [OF alloc]
      by (rule climbQueues_posts [OF assms]) (use excl in \<open>auto simp: addBook_def taskBook_def alloc\<close>)
  next
    case pend
    show ?thesis
      unfolding taskUsage_def updateQueuesResourceUsageForPendingJob_def Let_def if_not_P [OF pend(1)] if_P [OF pend(2)]
    proof (rule climbQueues_posts [OF assms])
      fix r rs
      show "rs\<lparr>request := request rs + (case of_minNodeGPUMemory fns of None \<Rightarrow> QuantifyVector (ResReqVector t) (VectorMap t)
          | Some m \<Rightarrow> if IsGpuMemoryRequest t then Quantities_Add (QuantifyVector (ResReqVector t) (VectorMap t))
              (NewResourceQuantities 0 0 (GpuMemoryAsGpuFraction (GpuRequirement t) m)) else QuantifyVector (ResReqVector t) (VectorMap t)) r\<rparr> =
        addBook (taskBook fns job status t r) rs"
        using pend by (cases r) (auto simp: addBook_def taskBook_def split: option.split)
    qed
  next
    case other
    then show ?thesis using posts_refl [OF assms] by (simp add: taskUsage_def taskBook_def cong: if_cong)
  qed
qed

lemma sum_list_if: "(\<Sum>x\<leftarrow>xs. if P then f x else 0) = (if P then \<Sum>x\<leftarrow>xs. f x else (0 :: 'a :: comm_monoid_add))"
  by (induction xs) auto

lemma jobUsage_posts:
  assumes "wf_queues (pp_queues pp)"
  shows "\<exists>pp'. jobUsage job pp = Some pp' \<and> pp_fns pp' = pp_fns pp \<and>
    posts (pp_queues pp) (pp_queues pp') (\<lambda>q r b. if q \<in> set (ancestorIDs (pp_queues pp) (pg_Queue job)) then jobBook (pp_fns pp) job r b else 0)"
proof -
  let ?A = "ancestorIDs (pp_queues pp)" and ?f = "pp_fns pp"
  have tasks: "\<exists>qs'. foldOption (\<lambda>(_, t). taskUsage ?f job status t) tasks qs = Some qs' \<and>
      posts qs qs' (\<lambda>q r b. \<Sum>x\<leftarrow>tasks. if q \<in> set (?A (pg_Queue job)) then taskBook ?f job status (snd x) r b else 0)"
    if "wf_queues qs" "ancestorIDs qs = ?A" for status and tasks :: PodsMap and qs
  proof (rule posts_foldOption [where A = ?A, OF _ that])
    fix x qs
    assume "wf_queues qs" and "ancestorIDs qs = ?A"
    then show "\<exists>qs'. (case x of (_, t) \<Rightarrow> taskUsage ?f job status t) qs = Some qs' \<and>
        posts qs qs' (\<lambda>q r b. if q \<in> set (?A (pg_Queue job)) then taskBook ?f job status (snd x) r b else 0)"
      using taskUsage_posts [of qs ?f job status "snd x"] by (simp add: split_beta)
  qed
  have "\<exists>qs'. foldOption (\<lambda>(status, tasks). foldOption (\<lambda>(_, t). taskUsage ?f job status t) tasks) (PodStatusIndex job) (pp_queues pp) = Some qs' \<and>
      posts (pp_queues pp) qs' (\<lambda>q r b. \<Sum>x\<leftarrow>PodStatusIndex job. \<Sum>y\<leftarrow>snd x. if q \<in> set (?A (pg_Queue job)) then taskBook ?f job (fst x) (snd y) r b else 0)"
    using assms by (intro posts_foldOption [where A = ?A]) (auto simp: split_beta intro: tasks)
  moreover have jb: "jobBook = (\<lambda>f job r b. \<Sum>x\<leftarrow>PodStatusIndex job. \<Sum>y\<leftarrow>snd x. taskBook f job (fst x) (snd y) r b)"
    by (intro ext) (simp add: jobBook_def case_prod_unfold)
  ultimately show ?thesis unfolding jb by (auto simp: jobUsage_def Let_def sum_list_if)
qed

lemma updateQueues_posts:
  assumes "wf_queues (pp_queues pp)"
  shows "\<exists>pp'. updateQueuesCurrentResourceUsage jobs pp = Some pp' \<and>
    posts (pp_queues pp) (pp_queues pp')
      (\<lambda>q r b. \<Sum>(_, job)\<leftarrow>jobs. if q \<in> set (ancestorIDs (pp_queues pp) (pg_Queue job)) then jobBook (pp_fns pp) job r b else 0)"
  using assms
proof (induction jobs arbitrary: pp)
  case Nil
  then show ?case by (simp add: updateQueuesCurrentResourceUsage_def posts_refl)
next
  case (Cons x jobs)
  obtain k job where x: "x = (k, job)" by (cases x)
  from jobUsage_posts [OF Cons.prems, of job] obtain pp1 where s: "jobUsage job pp = Some pp1" "pp_fns pp1 = pp_fns pp"
    "posts (pp_queues pp) (pp_queues pp1) (\<lambda>q r b. if q \<in> set (ancestorIDs (pp_queues pp) (pg_Queue job)) then jobBook (pp_fns pp) job r b else 0)"
    by blast
  have wf: "wf_queues (pp_queues pp1)" and anc: "ancestorIDs (pp_queues pp1) = ancestorIDs (pp_queues pp)" using s(3) by (auto simp: posts_def)
  from Cons.IH [OF wf] obtain pp' where "updateQueuesCurrentResourceUsage jobs pp1 = Some pp'"
    "posts (pp_queues pp1) (pp_queues pp') (\<lambda>q r b. \<Sum>(_, job)\<leftarrow>jobs. if q \<in> set (ancestorIDs (pp_queues pp) (pg_Queue job)) then jobBook (pp_fns pp) job r b else 0)"
    unfolding anc s(2) by blast
  then show ?case using s(1) posts_trans [OF s(3)] by (auto simp: updateQueuesCurrentResourceUsage_def x)
qed

lemma createQueueResourceAttrs_fresh:
  assumes "map_of (pp_queues (createQueueResourceAttrs unl infos usages pp)) q = Some qa" and "pp_queues pp = []"
  shows "allocated (queue_share qa r) = 0 \<and> allocatedNotPreemptible (queue_share qa r) = 0 \<and> request (queue_share qa r) = 0 \<and> UID qa = q"
proof -
  have fresh: "allocated (queue_share (queueAttributesOf unl usages i) r) = 0 \<and> allocatedNotPreemptible (queue_share (queueAttributesOf unl usages i) r) = 0 \<and>
      request (queue_share (queueAttributesOf unl usages i) r) = 0 \<and> UID (queueAttributesOf unl usages i) = qi_UID i" for i
    by (cases r; cases "map_of usages (qi_UID i)")
      (simp_all add: queueAttributesOf_def queue_share_def SetQuotaResources_def SetResourceUsage_def EmptyResource_def Let_def)
  have "map_of (fold (\<lambda>(_, i) m. AList.update (qi_UID i) (queueAttributesOf unl usages i) m) infos m) q = Some qa \<Longrightarrow>
      (map_of m q = Some qa \<longrightarrow> P) \<Longrightarrow> (\<And>i. qa = queueAttributesOf unl usages i \<Longrightarrow> qi_UID i = q \<Longrightarrow> P) \<Longrightarrow> P" for m P
    by (induction infos arbitrary: m) (fastforce split: if_splits)+
  from this [of "[]"] assms fresh show ?thesis by (simp add: createQueueResourceAttrs_def) metis
qed

text \<open>C26. The books at the start of a session. Building the queues of a snapshot and booking its jobs returns
  whenever the hierarchy is well formed, and every queue then holds exactly the jobs of its subtree: the
  accepted resources of their allocated tasks as allocated, of those that belong to a not-preemptible job or
  to the core of a semi-preemptible job as not preemptible, and these plus the requests of the pending tasks
  (a GPU memory request as a fraction of the smallest GPU) as requested.\<close>

theorem session_start_books:
  assumes "pp_queues pp = []" and "pp1 = createQueueResourceAttrs unl infos usages pp" and "wf_queues (pp_queues pp1)"
  shows "\<exists>pp'. updateQueuesCurrentResourceUsage jobs pp1 = Some pp' \<and> dom (map_of (pp_queues pp')) = qi_UID ` snd ` set infos \<and>
    (\<forall>q \<in> dom (map_of (pp_queues pp')). \<forall>r.
       let jobsBelow = filter (\<lambda>job. q \<in> set (ancestorIDs (pp_queues pp1) (pg_Queue job))) (map snd jobs)
       in allocated (bookOf (pp_queues pp') q r) = (\<Sum>job\<leftarrow>jobsBelow. jobBook (pp_fns pp) job r Allocated_book) \<and>
          allocatedNotPreemptible (bookOf (pp_queues pp') q r) = (\<Sum>job\<leftarrow>jobsBelow. jobBook (pp_fns pp) job r NotPreemptible_book) \<and>
          request (bookOf (pp_queues pp') q r) = (\<Sum>job\<leftarrow>jobsBelow. jobBook (pp_fns pp) job r Request_book))"
proof -
  have fns: "pp_fns pp1 = pp_fns pp" by (simp add: assms(2) createQueueResourceAttrs_def)
  have dom1: "dom (map_of (pp_queues pp1)) = qi_UID ` snd ` set infos"
  proof -
    have "dom (map_of (fold (\<lambda>(_, i) m. AList.update (qi_UID i) (queueAttributesOf unl usages i) m) infos m)) =
        qi_UID ` snd ` set infos \<union> dom (map_of m)" for m
      by (induction infos arbitrary: m) (auto simp: image_iff split: if_splits)
    then show ?thesis by (simp add: assms(1,2) createQueueResourceAttrs_def)
  qed
  from updateQueues_posts [OF assms(3), of jobs] obtain pp' where
    u: "updateQueuesCurrentResourceUsage jobs pp1 = Some pp'" and
    p: "posts (pp_queues pp1) (pp_queues pp')
      (\<lambda>q r b. \<Sum>(_, job)\<leftarrow>jobs. if q \<in> set (ancestorIDs (pp_queues pp1) (pg_Queue job)) then jobBook (pp_fns pp) job r b else 0)"
    unfolding fns by blast
  have sum: "(\<Sum>(_, job)\<leftarrow>jobs. if P job then f job else 0) = (\<Sum>job\<leftarrow>filter P (map snd jobs). f job)" for P and f :: "PodGroupInfo \<Rightarrow> float64"
    by (induction jobs) auto
  have dom': "dom (map_of (pp_queues pp')) = dom (map_of (pp_queues pp1))" using p by (simp add: posts_def)
  have "allocated (bookOf (pp_queues pp1) q r) = 0 \<and> allocatedNotPreemptible (bookOf (pp_queues pp1) q r) = 0 \<and> request (bookOf (pp_queues pp1) q r) = 0"
    if "q \<in> dom (map_of (pp_queues pp1))" for q r
    using createQueueResourceAttrs_fresh [OF _ assms(1)] that by (auto simp: bookOf_def assms(2))
  moreover have "bookOf (pp_queues pp') q r = addBook (\<lambda>b. \<Sum>job\<leftarrow>filter (\<lambda>job. q \<in> set (ancestorIDs (pp_queues pp1) (pg_Queue job))) (map snd jobs).
      jobBook (pp_fns pp) job r b) (bookOf (pp_queues pp1) q r)" if "q \<in> dom (map_of (pp_queues pp1))" for q r
    using p that unfolding posts_def sum by blast
  ultimately show ?thesis using u dom' dom1 by (intro exI [of _ pp']) (simp add: addBook_def Let_def)
qed

definition startInfos :: "(QueueID, QueueInfo) gomap" where
  "startInfos = [(''org'', NewQueueInfo 100 (exampleCR ''org'' '''')), (''team'', NewQueueInfo 100 (exampleCR ''team'' ''org''))]"

definition startJob :: PodGroupInfo where
  "startJob = (emptyJob ''j'' exampleVMap)\<lparr>pg_Queue := ''team'',
     PodStatusIndex := [(Running, [(''t'', exampleGpuTask\<lparr>AcceptedResourceVector := [0, 0, 2, 0]\<rparr>)]), (Pending, [(''u'', exampleGpuTask)])]\<rparr>"

theorem session_start_books_witness:
  "\<exists>pp'. updateQueuesCurrentResourceUsage [(''j'', startJob)]
      (createQueueResourceAttrs (- 1) startInfos [] (proportion_New (\<lambda>_. None) [] exampleFns)) = Some pp' \<and>
     allocated (bookOf (pp_queues pp') ''org'' GpuResource) = 2 \<and> request (bookOf (pp_queues pp') ''org'' GpuResource) = 3"
proof -
  let ?pp = "proportion_New (\<lambda>_. None) [] exampleFns" and ?u = "''j''"
  let ?pp1 = "createQueueResourceAttrs (- 1) startInfos [] ?pp"
  have empty: "pp_queues ?pp = []" by (simp add: proportion_New_def Let_def)
  have par: "queueParents (pp_queues ?pp1) q = (if q = ''team'' then Some ''org'' else if q = ''org'' then Some '''' else None)" for q
    by (simp add: queueParents_def createQueueResourceAttrs_def empty startInfos_def NewQueueInfo_def exampleCR_def queueAttributesOf_def Let_def)
  have "grounded (queueParents (pp_queues ?pp1)) q" for q
    by (rule grounded_rank [where rank = "\<lambda>q. if q = ''org'' then 0 else 1"]) (auto simp: par split: if_splits)
  then have wf: "wf_queues (pp_queues ?pp1)"
    using createQueueResourceAttrs_fresh [OF _ empty, of "- 1" startInfos "[]"] by (auto simp: wf_queues_def)
  have "ancestorIDs (pp_queues ?pp1) ''team'' = [''org'', ''team'']"
    using chain_UIDs(2) [OF wf, of "''team''" "[''team'', ''org'']"] by (simp add: par)
  then have below: "filter (\<lambda>job. ''org'' \<in> set (ancestorIDs (pp_queues ?pp1) (pg_Queue job))) (map snd [(?u, startJob)]) = [startJob]"
    by (simp add: startJob_def)
  have amounts: "jobBook (pp_fns ?pp) startJob GpuResource Allocated_book = 2" "jobBook (pp_fns ?pp) startJob GpuResource Request_book = 3"
    by code_simp+
  obtain pp' where pp': "updateQueuesCurrentResourceUsage [(?u, startJob)] ?pp1 = Some pp'"
    "dom (map_of (pp_queues pp')) = qi_UID ` snd ` set startInfos"
    and books: "\<forall>q \<in> dom (map_of (pp_queues pp')). \<forall>r.
       let jobsBelow = filter (\<lambda>job. q \<in> set (ancestorIDs (pp_queues ?pp1) (pg_Queue job))) (map snd [(?u, startJob)])
       in allocated (bookOf (pp_queues pp') q r) = (\<Sum>job\<leftarrow>jobsBelow. jobBook (pp_fns ?pp) job r Allocated_book) \<and>
          allocatedNotPreemptible (bookOf (pp_queues pp') q r) = (\<Sum>job\<leftarrow>jobsBelow. jobBook (pp_fns ?pp) job r NotPreemptible_book) \<and>
          request (bookOf (pp_queues pp') q r) = (\<Sum>job\<leftarrow>jobsBelow. jobBook (pp_fns ?pp) job r Request_book)"
    using session_start_books [OF empty refl wf, of "[(?u, startJob)]"] by blast
  have "''org'' \<in> dom (map_of (pp_queues pp'))" by (simp add: pp'(2) startInfos_def NewQueueInfo_def exampleCR_def)
  from books [rule_format, OF this, of GpuResource, unfolded below Let_def] show ?thesis using pp'(1) amounts by auto
qed

end
