(* ===== verification/Fair_Hierarchy.thy ===== *)
theory Fair_Hierarchy
  imports Proportion
begin

text \<open>
  The fair share of a whole hierarchy: \<^verbatim>\<open>setFairShare\<close> of \<^verbatim>\<open>proportion.go\<close> divides the cluster among the top
  queues and then, recursively, the fair share of each queue among its children.

  The recursion follows the lists of children, so it returns only if these form a forest. Shown here: on the
  hierarchies that the snapshot builds it returns for every order of iteration, every queue is divided exactly
  once and after its parent, and on every level the children get together no more than their parent has, unless
  their own deserved amounts exceed it.
\<close>

subsection \<open>Forests\<close>

definition childRel :: "(QueueID \<Rightarrow> QueueID option) \<Rightarrow> (QueueID \<times> QueueID) set" where
  "childRel par = {(p, c). par c = Some p}"

definition below :: "(QueueID \<Rightarrow> QueueID option) \<Rightarrow> QueueID \<Rightarrow> QueueID set" where
  "below par u = {d. (u, d) \<in> (childRel par)\<^sup>*}"

lemma below_refl [simp]: "u \<in> below par u"
  by (simp add: below_def)

lemma below_unfold: "below par u = insert u (\<Union>c \<in> {c. par c = Some u}. below par c)"
proof (intro equalityI subsetI)
  fix d assume "d \<in> below par u"
  then have "(u, d) \<in> (childRel par)\<^sup>*" by (simp add: below_def)
  then show "d \<in> insert u (\<Union>c \<in> {c. par c = Some u}. below par c)"
    by (rule converse_rtranclE) (auto simp: below_def childRel_def)
next
  fix d assume "d \<in> insert u (\<Union>c \<in> {c. par c = Some u}. below par c)"
  then show "d \<in> below par u"
    by (auto simp: below_def childRel_def intro: converse_rtrancl_into_rtrancl)
qed

lemma chain_of_ancestor:
  assumes "(p, q) \<in> (childRel par)\<^sup>+" and "queue_chain par q ps"
  shows "\<exists>ps'. queue_chain par p ps' \<and> length ps' < length ps"
  using assms
proof (induction arbitrary: ps rule: trancl_induct)
  case (base q)
  then show ?case by (cases ps) (auto simp: childRel_def)
next
  case (step y z)
  then obtain ps' where "queue_chain par y ps'" "length ps' < length ps" by (cases ps) (auto simp: childRel_def)
  then show ?case using step.IH less_trans by blast
qed

lemma grounded_acyclic: "grounded par q \<Longrightarrow> (q, q) \<notin> (childRel par)\<^sup>+"
  using chain_of_ancestor queue_chain_unique unfolding grounded_def by (metis less_irrefl)

lemma below_linear: "d \<in> below par x \<Longrightarrow> d \<in> below par y \<Longrightarrow> y \<in> below par x \<or> x \<in> below par y"
proof -
  assume "d \<in> below par x" "d \<in> below par y"
  then have "(d, x) \<in> ((childRel par)\<inverse>)\<^sup>*" "(d, y) \<in> ((childRel par)\<inverse>)\<^sup>*" by (simp_all add: below_def rtrancl_converse)
  moreover have "single_valued ((childRel par)\<inverse>)" by (auto simp: single_valued_def childRel_def)
  ultimately show ?thesis using single_valued_confluent by (fastforce simp: below_def rtrancl_converse)
qed

lemma below_child:
  assumes "grounded par u" and "par c = Some u"
  shows "u \<notin> below par c"
proof
  assume "u \<in> below par c"
  then have "(u, u) \<in> (childRel par)\<^sup>+" using assms(2) by (auto simp: below_def childRel_def intro: rtrancl_into_trancl2)
  then show False using grounded_acyclic [OF assms(1)] by blast
qed

text \<open>Queues with the same parent (top queues have the parent \<open>''''\<close>) have nothing below them in common.\<close>

lemma below_siblings:
  assumes "\<And>u. grounded par u" and "par x = par y" and "par x \<noteq> None" and "x \<noteq> y"
  shows "below par x \<inter> below par y = {}"
proof -
  have no: "b \<notin> below par a" if "par a = par b" "a \<noteq> b" "par b = Some u" for a b u
  proof
    assume "b \<in> below par a"
    then have "(a, b) \<in> (childRel par)\<^sup>+" using that(2) by (auto simp: below_def rtrancl_eq_or_trancl)
    then obtain z where "(a, z) \<in> (childRel par)\<^sup>*" "(z, b) \<in> childRel par" by (meson tranclD2)
    then have "u \<in> below par a" using that(3) by (simp add: childRel_def below_def)
    then show False using below_child [OF assms(1)] that by metis
  qed
  obtain u where "par y = Some u" "par x = Some u" using assms(2,3) by auto
  then show ?thesis using below_linear no assms(2,4) by (metis disjoint_iff)
qed

subsection \<open>Dividing one level\<close>

definition fairCache :: "QueueResourceShare \<Rightarrow> bool" where
  "fairCache qrs \<longleftrightarrow> (\<forall>q. lastFairShare qrs = Some q \<longrightarrow> q = buildResourceQuantities qrs fairShare)"

lemma GetFairShare_cached: "fairCache qrs \<Longrightarrow> fst (GetFairShare qrs) r = fairShare (ResourceShareOf qrs r)"
  by (cases r) (auto simp: fairCache_def GetFairShare_def buildResourceQuantities_def AllResources_def Let_def split: option.split)

lemma GetFairShare_keeps:
  "ResourceShareOf (snd (GetFairShare qrs)) r = ResourceShareOf qrs r" "fairCache qrs \<Longrightarrow> fairCache (snd (GetFairShare qrs))"
proof -
  show "ResourceShareOf (snd (GetFairShare qrs)) r = ResourceShareOf qrs r"
    by (cases r) (simp_all add: GetFairShare_def Let_def split: option.split)
  show "fairCache qrs \<Longrightarrow> fairCache (snd (GetFairShare qrs))"
    by (auto simp: fairCache_def GetFairShare_def Let_def buildResourceQuantities_def AllResources_def split: option.split)
qed

text \<open>The queues of \<open>qs\<close> are those of \<open>qs0\<close> with other fair shares.\<close>

definition sameQueue :: "QueueAttributes \<Rightarrow> QueueAttributes \<Rightarrow> bool" where
  "sameQueue q0 q \<longleftrightarrow> UID q = UID q0 \<and> ParentQueue q = ParentQueue q0 \<and> ChildQueues q = ChildQueues q0 \<and> fairCache (QShare q) \<and>
     (\<forall>r. queue_share q r = (queue_share q0 r)\<lparr>fairShare := fairShare (queue_share q r)\<rparr>)"

definition fairTree :: "QueueMap \<Rightarrow> QueueMap \<Rightarrow> bool" where
  "fairTree qs0 qs \<longleftrightarrow> (\<forall>u. rel_option sameQueue (map_of qs0 u) (map_of qs u))"

lemma fairTree_cases:
  assumes "fairTree qs0 qs"
  obtains "map_of qs0 u = None" "map_of qs u = None" | q0 q where "map_of qs0 u = Some q0" "map_of qs u = Some q" "sameQueue q0 q"
  using assms [unfolded fairTree_def, rule_format, of u] by (cases rule: option.rel_cases) auto

lemma fairTree_dom:
  assumes "fairTree qs0 qs"
  shows "dom (map_of qs) = dom (map_of qs0)"
proof (rule set_eqI)
  fix u
  show "u \<in> dom (map_of qs) \<longleftrightarrow> u \<in> dom (map_of qs0)" using fairTree_cases [OF assms, of u] by cases auto
qed

lemma deservedAmount_cong: "deservedAmount unl t (rs\<lparr>fairShare := x\<rparr>) = deservedAmount unl t rs"
  by (simp add: deservedAmount_def GetRequestableShare_def)

lemma fairTree_deserved:
  assumes "fairTree qs0 qs" and "map_of qs0 u \<noteq> None"
  shows "deservedAmount unl t (bookOf qs u r) = deservedAmount unl t (bookOf qs0 u r)"
  using fairTree_cases [OF assms(1), of u]
proof cases
  case (2 q0 q)
  then have "queue_share q r = (queue_share q0 r)\<lparr>fairShare := fairShare (queue_share q r)\<rparr>" by (simp add: sameQueue_def)
  then show ?thesis using 2(1,2) by (metis bookOf_def deservedAmount_cong option.sel)
qed (use assms(2) in simp)

lemma divideQueues_level:
  assumes tree: "fairTree qs0 qs" and wf: "wf_queues qs0" and ord: "map_order_ok ord" and ids: "distinct ids" "set ids \<subseteq> dom (map_of qs0)"
  shows "\<exists>qs'. divideQueues unl ord T k ids qs = Some qs' \<and> fairTree qs0 qs' \<and> (\<forall>u. u \<notin> set ids \<longrightarrow> map_of qs' u = map_of qs u) \<and>
    (\<forall>r. (\<Sum>c\<leftarrow>ids. fairShare (bookOf qs' c r)) \<le>
       max (T r) (\<Sum>c\<leftarrow>ids. deservedAmount unl (T r) (bookOf qs0 c r)) + (\<Sum>c\<leftarrow>ids. fairShare (bookOf qs c r)))"
proof -
  let ?h = "\<lambda>i. the (map_of qs i)"
  have known: "map_of qs i \<noteq> None" if "i \<in> set ids" for i
    using fairTree_dom [OF tree] that ids(2) by blast
  have uid: "\<forall>q \<in> set ids. UID (?h q) = q"
  proof
    fix i assume i: "i \<in> set ids"
    show "UID (?h i) = i"
      using fairTree_cases [OF tree, of i]
    proof cases
      case (2 q0 q)
      then show ?thesis using wf by (simp add: wf_queues_def sameQueue_def)
    qed (use known [OF i] in simp)
  qed
  obtain h' where h': "SetResourcesShare unl ord T k ids ?h = Some h'" using SetResourcesShare_stage [OF ord ids(1) uid, of unl T k] by metis
  have fr: "fair_frame (set ids) ?h h'" using SetResourcesShare_frame [OF ord ids(1) uid h'] .
  let ?qs' = "map (\<lambda>(k, q). (k, h' k)) qs"
  have div: "divideQueues unl ord T k ids qs = Some ?qs'" using known h' by (auto simp: divideQueues_def)
  have look: "map_of ?qs' u = map_option (\<lambda>_. h' u) (map_of qs u)" for u by (induction qs) auto
  have "rel_option sameQueue (map_of qs0 u) (map_of ?qs' u)" for u
    using fairTree_cases [OF tree, of u]
  proof cases
    case (2 q0 q)
    have hq: "?h u = q" using 2 by simp
    have h'u: "UID (h' u) = UID q" "ParentQueue (h' u) = ParentQueue q" "ChildQueues (h' u) = ChildQueues q"
      "h' u = q \<or> lastFairShare (QShare (h' u)) = None" "\<And>r. queue_share (h' u) r = (queue_share q r)\<lparr>fairShare := fairShare (queue_share (h' u) r)\<rparr>"
      using fr [unfolded fair_frame_def, THEN spec, of u, unfolded hq] by metis+
    have q: "\<And>r. queue_share q r = (queue_share q0 r)\<lparr>fairShare := fairShare (queue_share q r)\<rparr>" using 2(3) by (simp add: sameQueue_def)
    have "queue_share (h' u) r = (queue_share q0 r)\<lparr>fairShare := fairShare (queue_share (h' u) r)\<rparr>" for r
    proof -
      have "(queue_share q r)\<lparr>fairShare := x\<rparr> = (queue_share q0 r)\<lparr>fairShare := x\<rparr>" for x by (subst q) simp
      with h'u(5) [of r] show ?thesis by metis
    qed
    then have "sameQueue q0 (h' u)" using h'u(1-4) 2(3) by (auto simp: sameQueue_def fairCache_def)
    then show ?thesis using 2 by (simp add: look)
  qed (simp add: look)
  moreover have "map_of ?qs' u = map_of qs u" if "u \<notin> set ids" for u
    using fr that by (cases "map_of qs u") (auto simp: look fair_frame_def)
  moreover have "(\<Sum>c\<leftarrow>ids. fairShare (bookOf ?qs' c r)) \<le>
      max (T r) (\<Sum>c\<leftarrow>ids. deservedAmount unl (T r) (bookOf qs0 c r)) + (\<Sum>c\<leftarrow>ids. fairShare (bookOf qs c r))" for r
  proof -
    have "(\<Sum>c\<leftarrow>ids. fairShare (bookOf ?qs' c r)) = (\<Sum>c\<leftarrow>ids. fairShare (share h' r c))"
    proof (intro arg_cong [of _ _ sum_list] map_cong refl)
      fix c assume "c \<in> set ids"
      then show "fairShare (bookOf ?qs' c r) = fairShare (share h' r c)" using known [of c] by (auto simp: bookOf_def look)
    qed
    moreover have "(\<Sum>c\<leftarrow>ids. deservedAmount unl (T r) (bookOf qs0 c r)) = (\<Sum>c\<leftarrow>ids. deservedAmount unl (T r) (share ?h r c))"
    proof (intro arg_cong [of _ _ sum_list] map_cong refl)
      fix c assume "c \<in> set ids"
      then have "map_of qs0 c \<noteq> None" using ids(2) by auto
      from fairTree_deserved [OF tree this, of unl "T r" r]
      show "deservedAmount unl (T r) (bookOf qs0 c r) = deservedAmount unl (T r) (share ?h r c)" by (simp add: bookOf_def)
    qed
    ultimately show ?thesis using SetResourcesShare_total [OF ord ids(1) uid h', of r] by (simp add: bookOf_def)
  qed
  ultimately show ?thesis using div unfolding fairTree_def by blast
qed

subsection \<open>The recursion\<close>

text \<open>The hierarchies the snapshot builds: the children of a queue are the queues that name it as their parent.\<close>

definition queue_tree :: "QueueMap \<Rightarrow> bool" where
  "queue_tree qs \<longleftrightarrow> wf_queues qs \<and> map_of qs '''' = None \<and>
     (\<forall>u q. map_of qs u = Some q \<longrightarrow> set (ChildQueues q) = {c. queueParents qs c = Some u})"

definition childIDs :: "QueueMap \<Rightarrow> QueueID \<Rightarrow> QueueID list" where
  "childIDs qs u = (case map_of qs u of None \<Rightarrow> [] | Some q \<Rightarrow> getChildQueues q)"

text \<open>No level hands out more than its queue has, or than its children deserve.\<close>

definition levelOk :: "float64 \<Rightarrow> QueueMap \<Rightarrow> QueueMap \<Rightarrow> QueueID \<Rightarrow> bool" where
  "levelOk unl qs0 qs u \<longleftrightarrow> (\<forall>r. (\<Sum>c\<leftarrow>childIDs qs0 u. fairShare (bookOf qs c r)) \<le>
     max (fairShare (bookOf qs u r)) (\<Sum>c\<leftarrow>childIDs qs0 u. deservedAmount unl (fairShare (bookOf qs u r)) (bookOf qs0 c r)))"

lemma setFairShareLoop_Nil [simp]: "setFairShareLoop unl ord k [] = Some"
  by (rule ext, subst setFairShareLoop.simps) simp

lemma setFairShareLoop_Cons:
  "setFairShareLoop unl ord k (i # rest) qs = Option.bind (setFairShareLoop unl ord k [i] qs) (setFairShareLoop unl ord k rest)"
  by (subst (1 2) setFairShareLoop.simps) (simp add: Let_def split_beta split: option.split)

definition freshBelow :: "QueueMap \<Rightarrow> QueueMap \<Rightarrow> QueueID \<Rightarrow> bool" where
  "freshBelow qs0 qs i \<longleftrightarrow> (\<forall>d \<in> below (queueParents qs0) i - {i}. \<forall>r. fairShare (bookOf qs d r) = 0)"

text \<open>What the loop does to the subtree of a queue.\<close>

definition divides :: "float64 \<Rightarrow> map_order \<Rightarrow> float64 \<Rightarrow> QueueMap \<Rightarrow> QueueID \<Rightarrow> bool" where
  "divides unl ord k qs0 i \<longleftrightarrow> (\<forall>qs. fairTree qs0 qs \<longrightarrow> freshBelow qs0 qs i \<longrightarrow>
     (\<exists>qs'. setFairShareLoop unl ord k [i] qs = Some qs' \<and> fairTree qs0 qs' \<and>
        (\<forall>d. d \<notin> below (queueParents qs0) i - {i} \<longrightarrow> bookOf qs' d = bookOf qs d) \<and>
        (\<forall>v \<in> below (queueParents qs0) i. levelOk unl qs0 qs' v)))"

lemma childIDs_below:
  assumes "queue_tree qs0" and "v \<in> below (queueParents qs0) i" and "c \<in> set (childIDs qs0 v)"
  shows "c \<in> below (queueParents qs0) i" and "queueParents qs0 c = Some v"
proof -
  show par: "queueParents qs0 c = Some v"
    using assms(1,3) by (auto simp: childIDs_def getChildQueues_def queue_tree_def split: option.splits)
  have "(v, c) \<in> childRel (queueParents qs0)" using par by (simp add: childRel_def)
  with assms(2) show "c \<in> below (queueParents qs0) i" by (auto simp: below_def)
qed

lemma levelOk_cong:
  assumes "queue_tree qs0" and "v \<in> below (queueParents qs0) i" and "\<And>d. d \<in> below (queueParents qs0) i \<Longrightarrow> bookOf qs' d = bookOf qs d"
  shows "levelOk unl qs0 qs' v \<longleftrightarrow> levelOk unl qs0 qs v"
proof -
  have kids: "map (\<lambda>c. fairShare (bookOf qs' c r)) (childIDs qs0 v) = map (\<lambda>c. fairShare (bookOf qs c r)) (childIDs qs0 v)" for r
    using childIDs_below(1) [OF assms(1,2)] assms(3) by simp
  show ?thesis by (simp only: levelOk_def kids assms(3) [OF assms(2)])
qed

lemma divides_list:
  assumes tree: "queue_tree qs0" and "\<forall>i \<in> set ids. divides unl ord k qs0 i" and "distinct ids" and "fairTree qs0 qs"
    and "\<forall>i \<in> set ids. freshBelow qs0 qs i"
    and disj: "\<And>i j. i \<in> set ids \<Longrightarrow> j \<in> set ids \<Longrightarrow> i \<noteq> j \<Longrightarrow> below (queueParents qs0) i \<inter> below (queueParents qs0) j = {}"
  shows "\<exists>qs'. setFairShareLoop unl ord k ids qs = Some qs' \<and> fairTree qs0 qs' \<and>
    (\<forall>d. (\<forall>i \<in> set ids. d \<notin> below (queueParents qs0) i - {i}) \<longrightarrow> bookOf qs' d = bookOf qs d) \<and>
    (\<forall>i \<in> set ids. \<forall>v \<in> below (queueParents qs0) i. levelOk unl qs0 qs' v)"
  using assms(2-6)
proof (induction ids arbitrary: qs)
  case (Cons i ids)
  obtain qs1 where s: "setFairShareLoop unl ord k [i] qs = Some qs1" "fairTree qs0 qs1"
    "\<forall>d. d \<notin> below (queueParents qs0) i - {i} \<longrightarrow> bookOf qs1 d = bookOf qs d" "\<forall>v \<in> below (queueParents qs0) i. levelOk unl qs0 qs1 v"
    using Cons.prems(1,3,4) unfolding divides_def by auto
  have other: "below (queueParents qs0) i \<inter> below (queueParents qs0) j = {}" if "j \<in> set ids" for j
    using Cons.prems(5) [of i j] Cons.prems(2) that by auto
  have "freshBelow qs0 qs1 j" if "j \<in> set ids" for j
    using Cons.prems(4) s(3) other [OF that] that unfolding freshBelow_def by (metis DiffD1 disjoint_iff list.set_intros(2))
  then obtain qs' where r: "setFairShareLoop unl ord k ids qs1 = Some qs'" "fairTree qs0 qs'"
    "\<forall>d. (\<forall>i \<in> set ids. d \<notin> below (queueParents qs0) i - {i}) \<longrightarrow> bookOf qs' d = bookOf qs1 d"
    "\<forall>i \<in> set ids. \<forall>v \<in> below (queueParents qs0) i. levelOk unl qs0 qs' v"
    using Cons.IH [OF _ _ s(2)] Cons.prems(1,2,5) by auto
  have "bookOf qs' d = bookOf qs1 d" if "d \<in> below (queueParents qs0) i" for d
    using r(3) that other by (metis DiffD1 disjoint_iff)
  then have "\<forall>v \<in> below (queueParents qs0) i. levelOk unl qs0 qs' v"
    using s(4) levelOk_cong [OF tree, of _ i qs' qs1] by blast
  then show ?case
    using s(1,3) r by (intro exI [of _ qs'] conjI) (simp_all add: setFairShareLoop_Cons [of _ _ _ i ids])
qed simp

text \<open>Induction from the children of a queue to the queue.\<close>

lemma divides_all:
  assumes tree: "queue_tree qs0" and ord: "map_order_ok ord" and "map_of qs0 i \<noteq> None"
  shows "divides unl ord k qs0 i"
proof -
  let ?par = "queueParents qs0"
  have gr: "\<And>u. grounded ?par u" and wf: "wf_queues qs0" using tree by (auto simp: queue_tree_def wf_queues_def)
  have "dom ?par = dom (map_of qs0)" by (auto simp: queueParents_def)
  then have fin: "finite (dom ?par)" by (simp add: finite_dom_map_of)
  show ?thesis
    using gr [of i] fin assms(3)
  proof (induction rule: grounded_children_induct)
    case (1 u)
    obtain q0 where q0: "map_of qs0 u = Some q0" using 1(3) by auto
    let ?cs = "getChildQueues q0"
    have cs: "set ?cs = {c. ?par c = Some u}" "distinct ?cs" "childIDs qs0 u = ?cs"
      using tree q0 by (auto simp: getChildQueues_def queue_tree_def childIDs_def)
    have cdom: "set ?cs \<subseteq> dom (map_of qs0)" using cs(1) by (auto simp: queueParents_def)
    have sub: "c \<in> below ?par u" "below ?par c \<subseteq> below ?par u - {u}" if "c \<in> set ?cs" for c
      using below_unfold [of ?par u] below_child [OF gr, of c u] cs(1) that by auto
    show ?case
      unfolding divides_def
    proof (intro allI impI)
      fix qs
      assume ft: "fairTree qs0 qs" and fresh: "freshBelow qs0 qs u"
      obtain q where q: "map_of qs u = Some q" "sameQueue q0 q" using fairTree_cases [OF ft, of u] q0 by (metis option.distinct(1) option.inject)
      let ?share = "snd (GetFairShare (QShare q))" and ?T = "fst (GetFairShare (QShare q))"
      let ?qs1 = "AList.update u (q\<lparr>QShare := ?share\<rparr>) qs"
      have kids: "getChildQueues q = ?cs" using q(2) by (simp add: getChildQueues_def sameQueue_def)
      have book1: "bookOf ?qs1 d = bookOf qs d" for d
        using q(1) by (intro ext) (simp add: bookOf_def queue_share_def GetFairShare_keeps)
      have "sameQueue q0 (q\<lparr>QShare := ?share\<rparr>)" using q(2) by (simp add: sameQueue_def queue_share_def GetFairShare_keeps)
      then have ft1: "fairTree qs0 ?qs1" using ft q0 by (auto simp: fairTree_def)
      have T: "?T r = fairShare (bookOf qs u r)" for r
        using q by (simp add: bookOf_def queue_share_def GetFairShare_cached sameQueue_def)
      have step: "setFairShareLoop unl ord k [u] qs =
          (if ?cs = [] then Some ?qs1 else Option.bind (divideQueues unl ord ?T k ?cs ?qs1) (setFairShareLoop unl ord k ?cs))"
        using q(1) by (subst setFairShareLoop.simps) (simp add: Let_def split_beta kids)
      show "\<exists>qs'. setFairShareLoop unl ord k [u] qs = Some qs' \<and> fairTree qs0 qs' \<and>
          (\<forall>d. d \<notin> below ?par u - {u} \<longrightarrow> bookOf qs' d = bookOf qs d) \<and> (\<forall>v \<in> below ?par u. levelOk unl qs0 qs' v)"
      proof (cases "?cs = []")
        case True
        then have "below ?par u = {u}" using below_unfold [of ?par u] cs(1) by auto
        moreover have "levelOk unl qs0 ?qs1 u" by (simp add: levelOk_def cs(3) True)
        ultimately show ?thesis using step True ft1 book1 by (intro exI [of _ ?qs1]) simp
      next
        case False
        from divideQueues_level [OF ft1 wf ord cs(2) cdom, of unl ?T k] obtain qs2 where
          d: "divideQueues unl ord ?T k ?cs ?qs1 = Some qs2" "fairTree qs0 qs2" "\<forall>v. v \<notin> set ?cs \<longrightarrow> map_of qs2 v = map_of ?qs1 v"
          and lvl: "\<And>r. (\<Sum>c\<leftarrow>?cs. fairShare (bookOf qs2 c r)) \<le>
             max (?T r) (\<Sum>c\<leftarrow>?cs. deservedAmount unl (?T r) (bookOf qs0 c r)) + (\<Sum>c\<leftarrow>?cs. fairShare (bookOf ?qs1 c r))"
          by blast
        have book2: "bookOf qs2 v = bookOf qs v" if "v \<notin> set ?cs" for v
          using d(3) that book1 [of v] by (simp add: bookOf_def fun_eq_iff)
        have disj: "below ?par x \<inter> below ?par y = {}" if "x \<in> set ?cs" "y \<in> set ?cs" "x \<noteq> y" for x y
          using that cs(1) by (intro below_siblings [OF gr]) auto
        have zero: "fairShare (bookOf qs v r) = 0" if "v \<in> below ?par c" "c \<in> set ?cs" for v c r
          using fresh sub(2) [OF that(2)] that(1) by (auto simp: freshBelow_def)
        have "freshBelow qs0 qs2 c" if c: "c \<in> set ?cs" for c
          unfolding freshBelow_def
        proof (intro ballI allI)
          fix v r assume v: "v \<in> below ?par c - {c}"
          then have "v \<notin> set ?cs" using disj [OF c, of v] below_refl [of v ?par] by blast
          then show "fairShare (bookOf qs2 v r) = 0" using book2 zero v c by auto
        qed
        moreover have "\<forall>c \<in> set ?cs. divides unl ord k qs0 c" using 1(2) cs(1) cdom by (auto simp: dom_def)
        ultimately obtain qs' where r: "setFairShareLoop unl ord k ?cs qs2 = Some qs'" "fairTree qs0 qs'"
          "\<forall>v. (\<forall>c \<in> set ?cs. v \<notin> below ?par c - {c}) \<longrightarrow> bookOf qs' v = bookOf qs2 v"
          "\<forall>c \<in> set ?cs. \<forall>v \<in> below ?par c. levelOk unl qs0 qs' v"
          using divides_list [OF tree _ cs(2) d(2) _ disj, of unl ord k] by blast
        have keep: "bookOf qs' v = bookOf qs v" if "v \<notin> below ?par u - {u}" for v
        proof -
          have out: "v \<notin> below ?par c" if "c \<in> set ?cs" for c using sub(2) [OF that] \<open>v \<notin> below ?par u - {u}\<close> by blast
          then have "v \<notin> set ?cs" using below_refl by blast
          then show ?thesis using out r(3) book2 by simp
        qed
        have kidsBook: "bookOf qs' c = bookOf qs2 c" if "c \<in> set ?cs" for c
        proof -
          have "c \<notin> below ?par x - {x}" if "x \<in> set ?cs" for x
            using disj [OF \<open>c \<in> set ?cs\<close> that] below_refl [of c ?par] by blast
          then show ?thesis using r(3) by blast
        qed
        have "levelOk unl qs0 qs' u"
          unfolding levelOk_def cs(3)
        proof
          fix r
          have "(\<Sum>c\<leftarrow>?cs. fairShare (bookOf qs' c r)) = (\<Sum>c\<leftarrow>?cs. fairShare (bookOf qs2 c r))"
            using kidsBook by (intro arg_cong [of _ _ sum_list] map_cong) auto
          moreover have "map (\<lambda>c. fairShare (bookOf ?qs1 c r)) ?cs = map (\<lambda>_. 0) ?cs" using book1 zero [OF below_refl] by (intro map_cong) auto
          then have "(\<Sum>c\<leftarrow>?cs. fairShare (bookOf ?qs1 c r)) = 0" by (simp only:) simp
          ultimately show "(\<Sum>c\<leftarrow>?cs. fairShare (bookOf qs' c r)) \<le>
              max (fairShare (bookOf qs' u r)) (\<Sum>c\<leftarrow>?cs. deservedAmount unl (fairShare (bookOf qs' u r)) (bookOf qs0 c r))"
            using lvl [of r] keep [of u] by (simp add: T)
        qed
        then have "\<forall>v \<in> below ?par u. levelOk unl qs0 qs' v" using r(4) below_unfold [of ?par u] cs(1) by auto
        then show ?thesis using step False d(1) r(1,2) keep by (intro exI [of _ qs']) simp
      qed
    qed
  qed
qed

lemma getTopQueues_iff:
  assumes "wf_queues qs" and "wf_gomap qs"
  shows "i \<in> set (getTopQueues qs) \<longleftrightarrow> queueParents qs i = Some ''''"
proof
  assume "i \<in> set (getTopQueues qs)"
  then obtain k q where "(k, q) \<in> set qs" "UID q = i" "ParentQueue q = ''''" by (auto simp: getTopQueues_def)
  moreover from this have "map_of qs k = Some q" using assms(2) by (simp add: set_gomap_conv)
  ultimately show "queueParents qs i = Some ''''" using assms(1) by (auto simp: wf_queues_def queueParents_def)
next
  assume "queueParents qs i = Some ''''"
  then obtain q where q: "map_of qs i = Some q" "ParentQueue q = ''''" by (auto simp: queueParents_def)
  then have "(i, q) \<in> set qs" "UID q = i" using assms by (auto simp: wf_queues_def set_gomap_conv)
  then show "i \<in> set (getTopQueues qs)" using q(2) by (force simp: getTopQueues_def)
qed

text \<open>No queue is cut off from the top: the snapshot has removed the orphans.\<close>

definition rooted :: "QueueMap \<Rightarrow> bool" where
  "rooted qs \<longleftrightarrow> (\<forall>u q. map_of qs u = Some q \<longrightarrow> ParentQueue q = '''' \<or> map_of qs (ParentQueue q) \<noteq> None)"

lemma rooted_top:
  assumes "queue_tree qs" and "rooted qs" and "map_of qs u \<noteq> None"
  shows "\<exists>i. queueParents qs i = Some '''' \<and> u \<in> below (queueParents qs) i"
proof -
  obtain ps where "queue_chain (queueParents qs) u ps" using assms(1) wf_queues_chain [of qs u] by (auto simp: queue_tree_def)
  then show ?thesis
    using assms(3)
  proof (induction ps arbitrary: u)
    case Nil
    then show ?case by (simp add: queueParents_def)
  next
    case (Cons p ps)
    obtain q where q: "map_of qs u = Some q" using Cons.prems(2) by auto
    have chain: "queue_chain (queueParents qs) (ParentQueue q) ps" using Cons.prems(1) q queue_chain_queueParents [of qs u p ps] by auto
    show ?case
    proof (cases "ParentQueue q = ''''")
      case True
      then show ?thesis using q by (intro exI [of _ u]) (simp add: queueParents_def)
    next
      case False
      then have "map_of qs (ParentQueue q) \<noteq> None" using assms(2) q by (auto simp: rooted_def)
      from Cons.IH [OF chain this] obtain i where i: "queueParents qs i = Some ''''" "ParentQueue q \<in> below (queueParents qs) i" by blast
      have "(ParentQueue q, u) \<in> childRel (queueParents qs)" using q by (simp add: childRel_def queueParents_def)
      then show ?thesis using i by (auto simp: below_def)
    qed
  qed
qed

text \<open>The queues before the first division.\<close>

definition undivided :: "QueueMap \<Rightarrow> bool" where
  "undivided qs \<longleftrightarrow> (\<forall>u q. map_of qs u = Some q \<longrightarrow> lastFairShare (QShare q) = None \<and> (\<forall>r. fairShare (queue_share q r) = 0))"

lemma undivided_start: "undivided qs \<Longrightarrow> fairTree qs qs"
  by (auto simp: undivided_def fairTree_def sameQueue_def fairCache_def option.rel_refl intro!: option.rel_refl_strong)

text \<open>C27. The division of the cluster over a whole hierarchy returns, for every order in which Go visits its
  maps, and on every level it hands out no more than there is: the top queues get together at most the
  cluster, and the children of a queue at most the fair share that the queue itself ended with, except where
  the children's own deserved amounts (bounded by their requests and limits) exceed it.\<close>

theorem fair_share_hierarchy:
  assumes tree: "queue_tree (pp_queues pp)" and root: "rooted (pp_queues pp)" and keys: "wf_gomap (pp_queues pp)"
    and start: "undivided (pp_queues pp)" and ord: "map_order_ok ord"
  shows "\<exists>pp'. setFairShare unl ord pp = Some pp' \<and> dom (map_of (pp_queues pp')) = dom (map_of (pp_queues pp)) \<and>
    (\<forall>r. let tops = getTopQueues (pp_queues pp)
         in (\<Sum>c\<leftarrow>tops. fairShare (bookOf (pp_queues pp') c r)) \<le>
            max (totalResource pp r) (\<Sum>c\<leftarrow>tops. deservedAmount unl (totalResource pp r) (bookOf (pp_queues pp) c r))) \<and>
    (\<forall>u \<in> dom (map_of (pp_queues pp)). \<forall>r.
       let children = childIDs (pp_queues pp) u; amount = fairShare (bookOf (pp_queues pp') u r)
       in (\<Sum>c\<leftarrow>children. fairShare (bookOf (pp_queues pp') c r)) \<le>
          max amount (\<Sum>c\<leftarrow>children. deservedAmount unl amount (bookOf (pp_queues pp) c r)))"
proof -
  let ?qs = "pp_queues pp" and ?T = "totalResource pp" and ?k = "pp_kValue pp"
  let ?tops = "getTopQueues ?qs" and ?par = "queueParents ?qs"
  have wf: "wf_queues ?qs" and gr: "\<And>u. grounded ?par u" using tree by (auto simp: queue_tree_def wf_queues_def)
  have tops: "distinct ?tops" "set ?tops \<subseteq> dom (map_of ?qs)"
    using getTopQueues_iff [OF wf keys] by (auto simp: queueParents_def getTopQueues_def)
  have par: "i \<in> set ?tops \<Longrightarrow> ?par i = Some ''''" for i using getTopQueues_iff [OF wf keys] by blast
  have zero: "fairShare (bookOf ?qs u r) = 0" if "map_of ?qs u \<noteq> None" for u r
    using start that by (auto simp: undivided_def bookOf_def)
  have known: "map_of ?qs d \<noteq> None" if "d \<in> below ?par i" "map_of ?qs i \<noteq> None" for d i
    using that(1,2) unfolding below_def by (auto elim: rtranclE simp: childRel_def queueParents_def)
  have disj: "below ?par x \<inter> below ?par y = {}" if "x \<in> set ?tops" "y \<in> set ?tops" "x \<noteq> y" for x y
    using par that by (intro below_siblings [OF gr]) auto
  show ?thesis
  proof (cases "?tops = []")
    case True
    have none: "map_of ?qs u = None" for u
    proof (rule ccontr)
      assume "map_of ?qs u \<noteq> None"
      then obtain i where "?par i = Some ''''" using rooted_top [OF tree root] by blast
      then show False using getTopQueues_iff [OF wf keys, of i] True by simp
    qed
    have "?qs = []"
    proof (cases ?qs)
      case (Cons a qs)
      then show ?thesis using none [of "fst a"] by (cases a) simp
    qed
    then show ?thesis using True by (simp add: setFairShare_def setFairShareForQueues_def)
  next
    case False
    from divideQueues_level [OF undivided_start [OF start] wf ord tops, of unl ?T ?k] obtain qs2 where
      d: "divideQueues unl ord ?T ?k ?tops ?qs = Some qs2" "fairTree ?qs qs2" "\<forall>v. v \<notin> set ?tops \<longrightarrow> map_of qs2 v = map_of ?qs v"
      and lvl: "\<And>r. (\<Sum>c\<leftarrow>?tops. fairShare (bookOf qs2 c r)) \<le>
         max (?T r) (\<Sum>c\<leftarrow>?tops. deservedAmount unl (?T r) (bookOf ?qs c r)) + (\<Sum>c\<leftarrow>?tops. fairShare (bookOf ?qs c r))"
      by blast
    have "freshBelow ?qs qs2 i" if i: "i \<in> set ?tops" for i
      unfolding freshBelow_def
    proof (intro ballI allI)
      fix v r assume v: "v \<in> below ?par i - {i}"
      then have "v \<notin> set ?tops" using disj [OF i, of v] below_refl [of v ?par] by blast
      moreover have "map_of ?qs v \<noteq> None" using known [of v i] v i tops(2) by auto
      ultimately show "fairShare (bookOf qs2 v r) = 0" using d(3) zero by (simp add: bookOf_def)
    qed
    moreover have "\<forall>i \<in> set ?tops. divides unl ord ?k ?qs i" using divides_all [OF tree ord] tops(2) by auto
    ultimately obtain qs' where r: "setFairShareLoop unl ord ?k ?tops qs2 = Some qs'" "fairTree ?qs qs'"
      "\<forall>v. (\<forall>c \<in> set ?tops. v \<notin> below ?par c - {c}) \<longrightarrow> bookOf qs' v = bookOf qs2 v"
      "\<forall>i \<in> set ?tops. \<forall>v \<in> below ?par i. levelOk unl ?qs qs' v"
      using divides_list [OF tree _ tops(1) d(2) _ disj, of unl ord ?k] by blast
    have topBook: "bookOf qs' c = bookOf qs2 c" if c: "c \<in> set ?tops" for c
    proof -
      have "c \<notin> below ?par x - {x}" if "x \<in> set ?tops" for x using disj [OF c that] below_refl [of c ?par] by blast
      then show ?thesis using r(3) by blast
    qed
    have "(\<Sum>c\<leftarrow>?tops. fairShare (bookOf qs' c r)) \<le> max (?T r) (\<Sum>c\<leftarrow>?tops. deservedAmount unl (?T r) (bookOf ?qs c r))" for r
    proof -
      have "(\<Sum>c\<leftarrow>?tops. fairShare (bookOf qs' c r)) = (\<Sum>c\<leftarrow>?tops. fairShare (bookOf qs2 c r))"
        using topBook by (intro arg_cong [of _ _ sum_list] map_cong) auto
      moreover have "map (\<lambda>c. fairShare (bookOf ?qs c r)) ?tops = map (\<lambda>_. 0) ?tops" using zero tops(2) by (intro map_cong) auto
      then have "(\<Sum>c\<leftarrow>?tops. fairShare (bookOf ?qs c r)) = 0" by (simp only:) simp
      ultimately show ?thesis using lvl [of r] by simp
    qed
    moreover have "levelOk unl ?qs qs' u" if "u \<in> dom (map_of ?qs)" for u
      using rooted_top [OF tree root, of u] that r(4) getTopQueues_iff [OF wf keys] by blast
    ultimately show ?thesis
      using False d(1) r(1) fairTree_dom [OF r(2)]
      by (intro exI [of _ "pp\<lparr>pp_queues := qs'\<rparr>"]) (simp add: setFairShare_def setFairShareForQueues_def levelOk_def Let_def)
  qed
qed

definition fairQueue :: "QueueID \<Rightarrow> QueueID \<Rightarrow> QueueID list \<Rightarrow> QueueAttributes" where
  "fairQueue uid parent children =
     (exampleQueue uid parent 0 0)\<lparr>ChildQueues := children, QShare := (QShare (exampleQueue uid parent 0 0))\<lparr>GPU :=
        EmptyResource\<lparr>deserved := 4, maxAllowed := - 1, overQuotaWeight := 1, request := 10\<rparr>\<rparr>\<rparr>"

definition fairPlugin :: proportionPlugin where
  "fairPlugin = (proportion_New (\<lambda>_. None) [] exampleFns)\<lparr>totalResource := (\<lambda>_. 8),
     pp_queues := [(''org'', fairQueue ''org'' '''' [''team'']), (''team'', fairQueue ''team'' ''org'' [])]\<rparr>"

theorem fair_share_hierarchy_witness:
  "\<exists>pp'. setFairShare (- 1) listOrder fairPlugin = Some pp' \<and> fairShare (bookOf (pp_queues pp') ''org'' GpuResource) \<le> 8 \<and>
     fairShare (bookOf (pp_queues pp') ''team'' GpuResource) \<le> max (fairShare (bookOf (pp_queues pp') ''org'' GpuResource)) 4"
proof -
  let ?qs = "pp_queues fairPlugin"
  have qs: "?qs = [(''org'', fairQueue ''org'' '''' [''team'']), (''team'', fairQueue ''team'' ''org'' [])]" by (simp add: fairPlugin_def)
  have par: "queueParents ?qs q = (if q = ''org'' then Some '''' else if q = ''team'' then Some ''org'' else None)" for q
    by (simp add: qs queueParents_def fairQueue_def exampleQueue_def)
  have "grounded (queueParents ?qs) q" for q
    by (rule grounded_rank [where rank = "\<lambda>q. if q = ''org'' then 0 else 1"]) (auto simp: par split: if_splits)
  moreover have "UID q = u" if "map_of ?qs u = Some q" for u q
    using that by (auto simp: qs fairQueue_def exampleQueue_def split: if_splits)
  ultimately have "wf_queues ?qs" by (simp add: wf_queues_def)
  moreover have "set (ChildQueues q) = {c. queueParents ?qs c = Some u}" if "map_of ?qs u = Some q" for u q
    using that by (auto simp: par) (auto simp: qs fairQueue_def exampleQueue_def split: if_splits)
  ultimately have tree: "queue_tree ?qs" by (auto simp: queue_tree_def qs)
  have rest: "rooted ?qs" "wf_gomap ?qs"
    by (auto simp: rooted_def qs fairQueue_def exampleQueue_def wf_gomap_def split: if_splits)
  have "fairShare (queue_share (fairQueue a b cs) r) = 0 \<and> lastFairShare (QShare (fairQueue a b cs)) = None" for a b cs r
    by (cases r) (simp_all add: fairQueue_def exampleQueue_def queue_share_def EmptyResource_def)
  then have start: "undivided ?qs" by (auto simp: undivided_def qs split: if_splits)
  have facts: "getTopQueues ?qs = [''org'']" "childIDs ?qs ''org'' = [''team'']" "totalResource fairPlugin GpuResource = 8"
    "deservedAmount (- 1) 8 (bookOf ?qs ''org'' GpuResource) = 4" by code_simp+
  have team: "deservedAmount (- 1) amount (bookOf ?qs ''team'' GpuResource) = 4" for amount
    by (simp add: qs bookOf_def queue_share_def fairQueue_def exampleQueue_def EmptyResource_def deservedAmount_def GetRequestableShare_def)
  obtain pp' where pp': "setFairShare (- 1) listOrder fairPlugin = Some pp'"
    and tops: "\<forall>r. let tops = getTopQueues ?qs in (\<Sum>c\<leftarrow>tops. fairShare (bookOf (pp_queues pp') c r)) \<le>
        max (totalResource fairPlugin r) (\<Sum>c\<leftarrow>tops. deservedAmount (- 1) (totalResource fairPlugin r) (bookOf ?qs c r))"
    and kids: "\<forall>u \<in> dom (map_of ?qs). \<forall>r. let children = childIDs ?qs u; amount = fairShare (bookOf (pp_queues pp') u r)
       in (\<Sum>c\<leftarrow>children. fairShare (bookOf (pp_queues pp') c r)) \<le> max amount (\<Sum>c\<leftarrow>children. deservedAmount (- 1) amount (bookOf ?qs c r))"
    using fair_share_hierarchy [OF tree rest start sample_ok(1), of "- 1"] by blast
  have org: "''org'' \<in> dom (map_of ?qs)" by (simp add: qs)
  show ?thesis
    using pp' tops [THEN spec, of GpuResource] kids [THEN bspec, OF org, THEN spec, of GpuResource] facts team by (simp add: Let_def)
qed

end
