(* ===== verification/Storage_Capacity.thy ===== *)
theory Storage_Capacity
  imports Pod_Info
begin

text \<open>
  Storage capacities, \<^verbatim>\<open>api/storagecapacity_info/\<close> (\<^verbatim>\<open>storagecapacity_info.go\<close>, \<^verbatim>\<open>errors.go\<close>), and what is left of
  \<^verbatim>\<open>api/storageclaim_info/storageclaim_info.go\<close>.

  A \<^verbatim>\<open>resource.Quantity\<close> is an integer amount; a nil quantity is \<open>None\<close>, and a function that dereferences one
  panics, which is the value \<open>None\<close> of \<open>Capacity_Clone\<close>. The node selector of a capacity is a predicate on labels
  (\<^verbatim>\<open>labels.Selector\<close> is a library type). A capacity object is shared by all nodes that can reach it; the theory
  of nodes keeps the objects in one store, by identifier.

  The lemmas give the allocatable amount in closed form, what provisioning and releasing a claim does to it,
  and that the test for pending claims is exactly the comparison of sums.
\<close>

subsection \<open>Capacities and their errors\<close>

record StorageCapacityInfo =
  sc_UID :: string
  sc_Name :: string
  sc_StorageClass :: string
  ProvisionedPVCs :: "(string, StorageClaimInfo) gomap"
  sc_capacity :: "int option"
  MaximumVolumeSize :: "int option"
  sc_nodeTopology :: "((string, string) gomap \<Rightarrow> bool) option"

datatype storage_error =
    PVCFitError int int string
  | MissingStorageClassError string

text \<open>\<open>selector\<close> is the conversion \<^verbatim>\<open>LabelSelectorAsSelector\<close> of the node topology, which may fail; without a topology
  the selector accepts every node.\<close>

definition NewStorageCapacityInfo ::
  "string \<Rightarrow> string \<Rightarrow> string \<Rightarrow> int option \<Rightarrow> int option \<Rightarrow> ((string, string) gomap \<Rightarrow> bool) option option
     \<Rightarrow> StorageCapacityInfo option" where
  "NewStorageCapacityInfo uid name cls cap maxSize selector =
     (let mk = (\<lambda>sel. \<lparr>sc_UID = uid, sc_Name = name, sc_StorageClass = cls, ProvisionedPVCs = [], sc_capacity = cap,
                       MaximumVolumeSize = maxSize, sc_nodeTopology = Some sel\<rparr>)
      in case selector of
           None \<Rightarrow> Some (mk (\<lambda>_. True))
         | Some None \<Rightarrow> None
         | Some (Some sel) \<Rightarrow> Some (mk sel))"

definition Capacity_Clone :: "StorageCapacityInfo \<Rightarrow> StorageCapacityInfo option" where
  "Capacity_Clone sc =
     (case (sc_capacity sc, MaximumVolumeSize sc, sc_nodeTopology sc) of
        (Some cap, Some maxSize, Some sel) \<Rightarrow>
          Some \<lparr>sc_UID = sc_UID sc, sc_Name = sc_Name sc, sc_StorageClass = sc_StorageClass sc,
            ProvisionedPVCs = fold (\<lambda>(key, claim) m. AList.update key claim m) (ProvisionedPVCs sc) [],
            sc_capacity = Some cap, MaximumVolumeSize = Some maxSize, sc_nodeTopology = Some sel\<rparr>
      | _ \<Rightarrow> None)"

definition IsNodeValid :: "StorageCapacityInfo \<Rightarrow> (string, string) gomap \<Rightarrow> bool" where
  "IsNodeValid sc nodeLabels = (case sc_nodeTopology sc of None \<Rightarrow> True | Some sel \<Rightarrow> sel nodeLabels)"

subsection \<open>Amounts\<close>

definition Allocatable :: "StorageCapacityInfo \<Rightarrow> int" where
  "Allocatable sc =
     (case sc_capacity sc of
        None \<Rightarrow> 0
      | Some cap \<Rightarrow>
          fold (\<lambda>(_, claim) allocatable. if claim_Phase claim = ClaimBound then allocatable else allocatable - claim_Size claim)
            (ProvisionedPVCs sc) cap)"

text \<open>The keys of \<open>podInfos\<close> are \<^verbatim>\<open>namespace/name\<close>; \<open>None\<close> is the error that the owner is not there.\<close>

definition isClaimReleasing :: "PodOwnerReference \<Rightarrow> PodsMap \<Rightarrow> bool option" where
  "isClaimReleasing owner podInfos =
     (case map_of podInfos (owner_PodNamespace owner @ ''/'' @ owner_PodName owner) of
        None \<Rightarrow> None
      | Some pod \<Rightarrow> Some (\<not> IsAliveStatus (pod_Status pod)))"

definition Capacity_Releasing :: "StorageCapacityInfo \<Rightarrow> PodsMap \<Rightarrow> int" where
  "Capacity_Releasing sc podInfos =
     fold (\<lambda>(_, claim) releasing.
         case claim_Owner claim of
           None \<Rightarrow> releasing
         | Some owner \<Rightarrow>
             (case isClaimReleasing owner podInfos of
                None \<Rightarrow> releasing
              | Some claimReleasing \<Rightarrow> if claimReleasing then releasing + claim_Size claim else releasing))
       (ProvisionedPVCs sc) 0"

definition totalRequestOf :: "StorageClaimInfo list \<Rightarrow> int" where
  "totalRequestOf pvcs = fold (\<lambda>pvc totalRequest. totalRequest + claim_Size pvc) pvcs 0"

definition ArePVCsAllocatable :: "StorageCapacityInfo \<Rightarrow> StorageClaimInfo list \<Rightarrow> storage_error option" where
  "ArePVCsAllocatable sc pvcs =
     (let totalRequest = totalRequestOf pvcs
      in if totalRequest > Allocatable sc then Some (PVCFitError totalRequest (Allocatable sc) (sc_Name sc)) else None)"

definition ArePVCsAllocatableOnReleasingOrIdle ::
  "StorageCapacityInfo \<Rightarrow> StorageClaimInfo list \<Rightarrow> PodsMap \<Rightarrow> storage_error option" where
  "ArePVCsAllocatableOnReleasingOrIdle sc pvcs podInfos =
     (let totalRequest = totalRequestOf pvcs;
          allocatableIncludingReleasing = Allocatable sc + Capacity_Releasing sc podInfos
      in if totalRequest > allocatableIncludingReleasing
         then Some (PVCFitError totalRequest allocatableIncludingReleasing (sc_Name sc)) else None)"

subsection \<open>Storage claims\<close>

definition Owner_Clone :: "PodOwnerReference \<Rightarrow> PodOwnerReference" where
  "Owner_Clone po =
     \<lparr>owner_PodID = owner_PodID po, owner_PodName = owner_PodName po, owner_PodNamespace = owner_PodNamespace po\<rparr>"

definition Claim_Clone :: "StorageClaimInfo \<Rightarrow> StorageClaimInfo" where
  "Claim_Clone sc =
     \<lparr>claim_Key = claim_Key sc, claim_Phase = claim_Phase sc, claim_Size = claim_Size sc, StorageClass = StorageClass sc,
      claim_Owner = map_option Owner_Clone (claim_Owner sc), DeletedOwner = False\<rparr>"

text \<open>The owners of a claim, as kind, UID and name; \<open>Inl ()\<close> is the error for several owners.
  \<open>toLower\<close> is \<^verbatim>\<open>strings.ToLower\<close> on ASCII.\<close>

definition toLower :: "string \<Rightarrow> string" where
  "toLower s = map (\<lambda>c. if of_char c \<ge> (65 :: nat) \<and> of_char c \<le> (90 :: nat) then char_of (of_char c + (32 :: nat)) else c) s"

definition GetPodOwner ::
  "string \<Rightarrow> (string \<times> PodID \<times> string) list \<Rightarrow> unit + PodOwnerReference option" where
  "GetPodOwner ns owners =
     (case owners of
        [] \<Rightarrow> Inr None
      | [(kind, uid, name)] \<Rightarrow>
          if toLower kind \<noteq> ''pod'' then Inr None
          else Inr (Some \<lparr>owner_PodID = uid, owner_PodName = name, owner_PodNamespace = ns\<rparr>)
      | _ \<Rightarrow> Inl ())"

subsection \<open>Closed forms\<close>

lemma totalRequestOf_sum: "totalRequestOf pvcs = (\<Sum>pvc\<leftarrow>pvcs. claim_Size pvc)"
proof -
  have "fold (\<lambda>pvc t. t + claim_Size pvc) pvcs t = t + (\<Sum>pvc\<leftarrow>pvcs. claim_Size pvc)" for t
    by (induction pvcs arbitrary: t) auto
  then show ?thesis by (simp add: totalRequestOf_def)
qed

definition pendingSize :: "StorageClaimInfo \<Rightarrow> int" where
  "pendingSize claim = (if claim_Phase claim = ClaimBound then 0 else claim_Size claim)"

lemma Allocatable_sum:
  "sc_capacity sc = Some cap \<Longrightarrow> Allocatable sc = cap - (\<Sum>(_, claim)\<leftarrow>ProvisionedPVCs sc. pendingSize claim)"
proof -
  have "fold (\<lambda>(_, claim) a. if claim_Phase claim = ClaimBound then a else a - claim_Size claim) cs a =
      a - (\<Sum>(_, claim)\<leftarrow>cs. pendingSize claim)" for a and cs :: "(string, StorageClaimInfo) gomap"
    by (induction cs arbitrary: a) (auto simp: pendingSize_def)
  then show "sc_capacity sc = Some cap \<Longrightarrow> ?thesis" by (simp add: Allocatable_def)
qed

lemma ArePVCsAllocatable_iff:
  "ArePVCsAllocatable sc pvcs = None \<longleftrightarrow> (\<Sum>pvc\<leftarrow>pvcs. claim_Size pvc) \<le> Allocatable sc"
  by (simp add: ArePVCsAllocatable_def Let_def totalRequestOf_sum)

lemma ArePVCsAllocatableOnReleasingOrIdle_iff:
  "ArePVCsAllocatableOnReleasingOrIdle sc pvcs pis = None \<longleftrightarrow>
     (\<Sum>pvc\<leftarrow>pvcs. claim_Size pvc) \<le> Allocatable sc + Capacity_Releasing sc pis"
  by (simp add: ArePVCsAllocatableOnReleasingOrIdle_def Let_def totalRequestOf_sum)

text \<open>The sizes of claims are not negative, so what is being released only helps.\<close>

lemma Capacity_Releasing_nonneg:
  assumes "\<forall>(_, claim)\<in>set (ProvisionedPVCs sc). 0 \<le> claim_Size claim"
  shows "0 \<le> Capacity_Releasing sc pis"
proof -
  have "0 \<le> r \<Longrightarrow> \<forall>(_, claim)\<in>set cs. 0 \<le> claim_Size claim \<Longrightarrow> 0 \<le> fold (\<lambda>(_, claim) releasing.
         case claim_Owner claim of None \<Rightarrow> releasing
         | Some owner \<Rightarrow>
             (case isClaimReleasing owner pis of None \<Rightarrow> releasing
              | Some claimReleasing \<Rightarrow> if claimReleasing then releasing + claim_Size claim else releasing)) cs r"
    for r :: int and cs :: "(string, StorageClaimInfo) gomap"
    by (induction cs arbitrary: r) (auto split: option.split)
  then show ?thesis using assms by (simp add: Capacity_Releasing_def)
qed

text \<open>Provisioning a claim that is not yet there takes its pending size; removing it gives it back.\<close>

definition provision :: "StorageClaimInfo \<Rightarrow> StorageCapacityInfo \<Rightarrow> StorageCapacityInfo" where
  "provision claim sc = sc\<lparr>ProvisionedPVCs := AList.update (claim_Key claim) claim (ProvisionedPVCs sc)\<rparr>"

definition unprovision :: "StorageClaimInfo \<Rightarrow> StorageCapacityInfo \<Rightarrow> StorageCapacityInfo" where
  "unprovision claim sc = sc\<lparr>ProvisionedPVCs := AList.delete (claim_Key claim) (ProvisionedPVCs sc)\<rparr>"

lemma AList_delete_absent: "map_of m k = None \<Longrightarrow> AList.delete k m = m"
  by (simp add: AList.delete_eq filter_id_conv map_of_eq_None_iff) force

lemma unprovision_provision:
  "map_of (ProvisionedPVCs sc) (claim_Key claim) = None \<Longrightarrow> unprovision claim (provision claim sc) = sc"
  by (simp add: provision_def unprovision_def AList_update_new AList.delete_eq)
     (simp add: AList.delete_eq [symmetric] AList_delete_absent)

lemma Allocatable_provision:
  assumes "sc_capacity sc = Some cap" and "map_of (ProvisionedPVCs sc) (claim_Key claim) = None"
  shows "Allocatable (provision claim sc) = Allocatable sc - pendingSize claim"
proof -
  have "sc_capacity (provision claim sc) = Some cap" by (simp add: provision_def assms)
  from Allocatable_sum [OF this] Allocatable_sum [OF assms(1)] show ?thesis
    by (simp add: provision_def AList_update_new [OF assms(2)])
qed

text \<open>The comment of \<^verbatim>\<open>ArePVCsAllocatable\<close> says that the maximum volume size is considered; the test does not read it.\<close>

lemma ArePVCsAllocatable_ignores_MaximumVolumeSize:
  "ArePVCsAllocatable (sc\<lparr>MaximumVolumeSize := s\<rparr>) pvcs = ArePVCsAllocatable sc pvcs"
proof -
  have "Allocatable (sc\<lparr>MaximumVolumeSize := s\<rparr>) = Allocatable sc" by (simp add: Allocatable_def cong: option.case_cong)
  then show ?thesis by (simp add: ArePVCsAllocatable_def Let_def)
qed

lemma Claim_Clone_deleted: "Claim_Clone sc = sc \<longleftrightarrow> \<not> DeletedOwner sc"
  by (cases sc; cases "claim_Owner sc") (auto simp: Claim_Clone_def Owner_Clone_def)

end
