(* ===== verification/Node_Info.thy ===== *)
theory Node_Info
  imports Storage_Capacity Resources
begin

text \<open>
  Nodes: \<^verbatim>\<open>api/node_info/\<close> (\<^verbatim>\<open>node_info.go\<close>, \<^verbatim>\<open>gpu_sharing_node_info.go\<close>, \<^verbatim>\<open>dra_shared_device_info.go\<close>) with
  \<^verbatim>\<open>api/pod_info/utility_pods.go\<close> and the GPU groups of \<^verbatim>\<open>pod_info.go\<close>.

  A node keeps four vectors (allocatable, idle, used, releasing), a copy of each task on it, the memory that
  tasks use, release and hold on every shared GPU, and how many pods reference each DRA device. Adding and
  removing a task updates all of them. The task object itself is changed by \<open>setAcceptedResources\<close>, so \<open>addTask\<close>
  returns it; storage capacities are shared between nodes, so the operations take and return their store.

  Outside of the sources: label and prefix names, the compute sharing modes of shared GPUs, the device class
  tests and the inter-pod affinity index of Kubernetes are the fields of \<open>node_env\<close>. The amounts of GPU memory are
  \<^verbatim>\<open>int64\<close> (\<open>addScalar\<close> wraps). A node whose label reports a GPU memory of 0 makes the code divide by it; floats
  have no infinities here, so nothing is claimed for such a node. The Kubernetes node is kept as its labels;
  code that reads the labels of a nil node panics, and \<open>nodeLabels\<close> is only used where the node is there.

  Not modelled: \<open>FittingError\<close> (message text), \<open>String\<close>, NUMA topology and logging.
\<close>

subsection \<open>What the node code relies on\<close>

record 'aff node_env =
  ne_rc :: resource_consts
  TimeSlicing :: string
  DefaultMode :: "string \<Rightarrow> string"
  rawMode :: "PodInfo \<Rightarrow> string"
  GroupWithDefaults :: "FractionalGpuGroup \<Rightarrow> FractionalGpuGroup"
  GPUReservationPodPrefix :: string
  GPUGroupLabel :: string
  MigStrategyLabel :: string
  AppLabelName :: string
  ResourceReservationAppLabelValue :: string
  ScalingPodAppLabelValue :: string
  MIGWorkerNodeLabelKey :: string
  IsGPUDeviceClass :: "string \<Rightarrow> bool"
  hasDeviceClass :: "string \<Rightarrow> bool"
  AddPod :: "'aff \<Rightarrow> PodInfo \<Rightarrow> 'aff"
  RemovePod :: "'aff \<Rightarrow> PodInfo \<Rightarrow> 'aff \<times> string option"

subsection \<open>Pods\<close>

definition IsScaleAdjustTask :: "'aff node_env \<Rightarrow> PodInfo \<Rightarrow> bool" where
  "IsScaleAdjustTask ne pod =
     (case map_of (pod_Labels pod) (AppLabelName ne) of
        None \<Rightarrow> False | Some appName \<Rightarrow> appName = ScalingPodAppLabelValue ne)"

definition IsResourceReservationTask :: "'aff node_env \<Rightarrow> PodInfo \<Rightarrow> bool" where
  "IsResourceReservationTask ne pod =
     (case map_of (pod_Labels pod) (AppLabelName ne) of
        None \<Rightarrow> False | Some appName \<Rightarrow> appName = ResourceReservationAppLabelValue ne)"

definition IsKaiUtilityPod :: "'aff node_env \<Rightarrow> PodInfo \<Rightarrow> bool" where
  "IsKaiUtilityPod ne pod \<longleftrightarrow> IsResourceReservationTask ne pod \<or> IsScaleAdjustTask ne pod"

text \<open>\<^verbatim>\<open>MetaNamespaceKeyFunc\<close> of a pod, which has a namespace, is \<^verbatim>\<open>namespace/name\<close>.\<close>

definition PodKey :: "PodInfo \<Rightarrow> PodID" where
  "PodKey pod = pod_Namespace pod @ ''/'' @ pod_Name pod"

definition RequestedGPUComputeSharingMode :: "'aff node_env \<Rightarrow> PodInfo \<Rightarrow> string" where
  "RequestedGPUComputeSharingMode ne pinfo = DefaultMode ne (rawMode ne pinfo)"

definition FractionalGpuGroupsOrDefault :: "'aff node_env \<Rightarrow> PodInfo \<Rightarrow> FractionalGpuGroup list" where
  "FractionalGpuGroupsOrDefault ne pinfo =
     (if length (FractionalGpuGroups pinfo) > 0 then map (GroupWithDefaults ne) (FractionalGpuGroups pinfo) else [])"

definition GPUGroupIDs :: "'aff node_env \<Rightarrow> PodInfo \<Rightarrow> string list" where
  "GPUGroupIDs ne pinfo =
     (let fractionalGpuGroups = FractionalGpuGroupsOrDefault ne pinfo
      in if length fractionalGpuGroups = 0 then [] else map group_ID fractionalGpuGroups)"

definition SetFractionalGpuGroups :: "PodInfo \<Rightarrow> FractionalGpuGroup list \<Rightarrow> PodInfo" where
  "SetFractionalGpuGroups pinfo groups =
     (if length groups = 0 then pinfo\<lparr>FractionalGpuGroups := []\<rparr> else pinfo\<lparr>FractionalGpuGroups := groups\<rparr>)"

subsection \<open>Parsing labels\<close>

text \<open>\<^verbatim>\<open>strconv.ParseInt(s, 10, 64)\<close> and \<^verbatim>\<open>strconv.Atoi\<close>; \<open>None\<close> is a syntax or range error.\<close>

definition ParseInt :: "string \<Rightarrow> int option" where
  "ParseInt s =
     (let neg = (s \<noteq> [] \<and> hd s = CHR ''-'');
          ds = (if s \<noteq> [] \<and> (hd s = CHR ''-'' \<or> hd s = CHR ''+'') then tl s else s);
          n = foldl (\<lambda>acc c. 10 * acc + (of_char c - 48)) 0 ds;
          v = (if neg then - n else n)
      in if ds \<noteq> [] \<and> list_all is_digit ds \<and> int64_range v then Some v else None)"

text \<open>\<^verbatim>\<open>strconv.ParseBool\<close>.\<close>

definition ParseBool :: "string \<Rightarrow> bool option" where
  "ParseBool s =
     (if s \<in> set [''1'', ''t'', ''T'', ''TRUE'', ''true'', ''True''] then Some True
      else if s \<in> set [''0'', ''f'', ''F'', ''FALSE'', ''false'', ''False''] then Some False
      else None)"

subsection \<open>The node\<close>

definition DefaultGpuMemory :: int where "DefaultGpuMemory = 100"
definition GpuMemoryLabel :: string where "GpuMemoryLabel = ''nvidia.com/gpu.memory''"
definition GpuCountLabel :: string where "GpuCountLabel = ''nvidia.com/gpu.count''"
definition BitToMib :: int where "BitToMib = 1024 * 1024"
definition TibInMib :: int where "TibInMib = 1024 * 1024"

datatype MigStrategy = MigStrategyNone | MigStrategySingle | MigStrategyMixed

record 'aff NodeInfo =
  ni_Name :: string
  ni_Node :: "(string, string) gomap option"
  AllocatableVector :: ResourceVector
  IdleVector :: ResourceVector
  UsedVector :: ResourceVector
  ReleasingVector :: ResourceVector
  ni_VectorMap :: ResourceVectorMap
  AccessibleStorageCapacities :: "(string, string list) gomap"
  PodInfos :: PodsMap
  MaxTaskNum :: int
  MemoryOfEveryGpuOnNode :: int
  GpuMemorySynced :: bool
  LegacyMIGTasks :: "(PodID, string) gomap"
  HasDRAGPUs :: bool
  PodAffinityInfo :: 'aff
  ReleasingSharedGPUs :: "(string, bool) gomap"
  UsedSharedGPUsMemory :: "(string, int) gomap"
  ReleasingSharedGPUsMemory :: "(string, int) gomap"
  AllocatedSharedGPUsMemory :: "(string, int) gomap"
  DRASharedDeviceRefCount :: "(string, int) gomap"

type_synonym capStore = "(string, StorageCapacityInfo) gomap"

datatype node_error =
    TaskAlreadyOnNode string string
  | NodeIsNil string
  | TaskNotFound string string
  | AffinityError string

abbreviation nodeLabels :: "('aff, 'z) NodeInfo_scheme \<Rightarrow> (string, string) gomap" where
  "nodeLabels ni \<equiv> (case ni_Node ni of None \<Rightarrow> [] | Some ls \<Rightarrow> ls)"

definition checkGpuMemoryIsInMib :: "int \<Rightarrow> bool" where
  "checkGpuMemoryIsInMib v \<longleftrightarrow> v < TibInMib"

definition convertBytesToMib :: "int \<Rightarrow> int" where
  "convertBytesToMib v = v div BitToMib"

definition getNodeGpuMemory :: "(string, string) gomap \<Rightarrow> int \<times> bool" where
  "getNodeGpuMemory ls =
     (case ParseInt (case map_of ls GpuMemoryLabel of None \<Rightarrow> '''' | Some v \<Rightarrow> v) of
        None \<Rightarrow> (DefaultGpuMemory, False)
      | Some v \<Rightarrow> (if \<not> checkGpuMemoryIsInMib v then convertBytesToMib v else v, True))"

text \<open>The last arguments before the node itself read resource lists: see \<open>ResourceFromResourceList\<close>.\<close>

definition NewNodeInfo ::
  "'aff node_env \<Rightarrow> string list \<Rightarrow> (string \<Rightarrow> bool) \<Rightarrow> ('q \<Rightarrow> bool) \<Rightarrow> ('q \<Rightarrow> int) \<Rightarrow> ('q \<Rightarrow> int) \<Rightarrow>
   string \<Rightarrow> (string, string) gomap \<Rightarrow> (string, 'q) gomap \<Rightarrow> 'aff \<Rightarrow> ResourceVectorMap \<Rightarrow> 'aff NodeInfo" where
  "NewNodeInfo ne storageNames isScalar isZero milliValue val name ls allocatable podAffinityInfo vectorMap =
     (let (gpuMem, present) = getNodeGpuMemory ls;
          allocatableVector =
            Resource_ToVector (ne_rc ne) (ResourceFromResourceList (ne_rc ne) storageNames isScalar isZero milliValue val allocatable) vectorMap
      in \<lparr>ni_Name = name, ni_Node = Some ls, AllocatableVector = allocatableVector, IdleVector = allocatableVector,
          UsedVector = NewResourceVector vectorMap, ReleasingVector = NewResourceVector vectorMap, ni_VectorMap = vectorMap,
          AccessibleStorageCapacities = [], PodInfos = [],
          MaxTaskNum = (case map_of allocatable (ResourcePods (ne_rc ne)) of None \<Rightarrow> 0 | Some q \<Rightarrow> val q),
          MemoryOfEveryGpuOnNode = gpuMem, GpuMemorySynced = present, LegacyMIGTasks = [], HasDRAGPUs = False,
          PodAffinityInfo = podAffinityInfo, ReleasingSharedGPUs = [], UsedSharedGPUsMemory = [],
          ReleasingSharedGPUsMemory = [], AllocatedSharedGPUsMemory = [], DRASharedDeviceRefCount = []\<rparr>)"

definition nonAllocatedVector :: "'aff NodeInfo \<Rightarrow> ResourceVector" where
  "nonAllocatedVector ni = Vector_Add (IdleVector ni) (ReleasingVector ni)"

definition NonAllocatedResource :: "'aff node_env \<Rightarrow> 'aff NodeInfo \<Rightarrow> string \<Rightarrow> float64" where
  "NonAllocatedResource ne ni resourceType =
     (let idx = GetIndex (ne_rc ne) (ni_VectorMap ni) resourceType
      in if idx < 0 then 0 else Get (IdleVector ni) idx + Get (ReleasingVector ni) idx)"

definition IsInPlaceResizeAllocatable :: "'aff node_env \<Rightarrow> 'aff NodeInfo \<Rightarrow> PodInfo \<Rightarrow> bool" where
  "IsInPlaceResizeAllocatable ne ni task \<longleftrightarrow>
     NodeName task = ni_Name ni \<and> NonAllocatedResource ne ni (ResourceCPU (ne_rc ne)) \<ge> 0 \<and>
     NonAllocatedResource ne ni (ResourceMemory (ne_rc ne)) \<ge> 0"

definition AddDRAGPUs :: "'aff NodeInfo \<Rightarrow> float64 \<Rightarrow> 'aff NodeInfo" where
  "AddDRAGPUs ni draGPUs =
     (if draGPUs \<le> 0 then ni
      else ni\<lparr>AllocatableVector := Set (AllocatableVector ni) GPUIndex (Get (AllocatableVector ni) GPUIndex + draGPUs),
              IdleVector := Set (IdleVector ni) GPUIndex (Get (IdleVector ni) GPUIndex + draGPUs)\<rparr>)"

subsection \<open>GPU memory and MIG\<close>

definition getNodeGpuCountLabelValue :: "'aff NodeInfo \<Rightarrow> int option" where
  "getNodeGpuCountLabelValue ni =
     (case map_of (nodeLabels ni) GpuCountLabel of None \<Rightarrow> None | Some v \<Rightarrow> ParseInt v)"

definition GetNumberOfGPUsInNode :: "'aff NodeInfo \<Rightarrow> int" where
  "GetNumberOfGPUsInNode ni =
     (case getNodeGpuCountLabelValue ni of
        None \<Rightarrow> int64_trunc (Get (AllocatableVector ni) GPUIndex) | Some n \<Rightarrow> n)"

definition GetResourceGpuMemory :: "'aff NodeInfo \<Rightarrow> GpuResourceRequirement \<Rightarrow> int" where
  "GetResourceGpuMemory ni res =
     (if gpuMemory res > 0 then gpuMemory res
      else int64_trunc (GpuFractionalPortion res * of_int (MemoryOfEveryGpuOnNode ni)))"

definition getGpuMemoryFractionalOnNode :: "'aff NodeInfo \<Rightarrow> int \<Rightarrow> float64" where
  "getGpuMemoryFractionalOnNode ni mem =
     (let exactFraction = (of_int mem :: float64) / of_int (MemoryOfEveryGpuOnNode ni) in of_int \<lceil>exactFraction * 100\<rceil> / 100)"

definition getResourceGpuPortion :: "'aff NodeInfo \<Rightarrow> GpuResourceRequirement \<Rightarrow> float64" where
  "getResourceGpuPortion ni res =
     (if gpuMemory res > 0 then getGpuMemoryFractionalOnNode ni (gpuMemory res) else GpuFractionalPortion res)"

definition isValidGpuPortion :: "'aff NodeInfo \<Rightarrow> GpuResourceRequirement \<Rightarrow> bool" where
  "isValidGpuPortion ni res =
     (let gpuPortion = getResourceGpuPortion ni res in gpuPortion \<le> 1 \<or> gpuPortion = of_int (int64_trunc gpuPortion))"

definition IsMIGEnabled :: "'aff node_env \<Rightarrow> 'aff NodeInfo \<Rightarrow> bool" where
  "IsMIGEnabled ne ni =
     (case map_of (nodeLabels ni) (MIGWorkerNodeLabelKey ne) of
        Some enabled \<Rightarrow> ParseBool enabled = Some True
      | None \<Rightarrow> list_ex (\<lambda>i. IsMigResource (ResourceAt (ni_VectorMap ni) i) \<and> Get (AllocatableVector ni) i > 0)
                  [0 .. Map_Len (ni_VectorMap ni) - 1])"

definition IsCPUOnlyNode :: "'aff node_env \<Rightarrow> 'aff NodeInfo \<Rightarrow> bool" where
  "IsCPUOnlyNode ne ni =
     (if IsMIGEnabled ne ni then False else Get (AllocatableVector ni) GPUIndex \<le> 0 \<and> \<not> HasDRAGPUs ni)"

definition GetMigStrategy :: "'aff node_env \<Rightarrow> 'aff NodeInfo \<Rightarrow> MigStrategy" where
  "GetMigStrategy ne ni =
     (if \<not> IsMIGEnabled ne ni then MigStrategyNone
      else case map_of (nodeLabels ni) (MigStrategyLabel ne) of
             None \<Rightarrow> MigStrategyNone
           | Some migStrategy \<Rightarrow>
               if migStrategy = ''mixed'' then MigStrategyMixed
               else if migStrategy = ''single'' then MigStrategySingle
               else MigStrategyNone)"

definition GetRequiredInitQuota :: "'aff NodeInfo \<Rightarrow> PodInfo \<Rightarrow> ResourceVector" where
  "GetRequiredInitQuota ni pinfo =
     (if length (migResources (GpuRequirement pinfo)) \<noteq> 0
      then Set (ResReqVector pinfo) GPUIndex (GetGpusQuota (GpuRequirement pinfo))
      else Set (ResReqVector pinfo) GPUIndex
             (of_int (GetNumOfGpuDevices (GpuRequirement pinfo)) *
              getGpuMemoryFractionalOnNode ni (GetResourceGpuMemory ni (GpuRequirement pinfo))))"

datatype resource_type_error =
    LegacyMigCannotSchedule | SharedOnDRANode | MigOnNonMigNode | MigWithLegacyMig | WholeGpusOnly | MigOnly

definition PredicateByNodeResourcesType :: "'aff node_env \<Rightarrow> 'aff NodeInfo \<Rightarrow> PodInfo \<Rightarrow> resource_type_error option" where
  "PredicateByNodeResourcesType ne ni task =
     (if IsLegacyMIGtask task then Some LegacyMigCannotSchedule
      else if IsCPUOnlyRequest task then None
      else if HasDRAGPUs ni \<and> IsSharedGPURequest task then Some SharedOnDRANode
      else let migNode = IsMIGEnabled ne ni in
        if \<not> migNode \<and> IsMigCandidate task then Some MigOnNonMigNode
        else if migNode
        then (if IsMigCandidate task \<and> length (LegacyMIGTasks ni) > 0 then Some MigWithLegacyMig
              else let strategy = GetMigStrategy ne ni in
                if strategy = MigStrategySingle \<and> \<not> IsRegularGPURequest task then Some WholeGpusOnly
                else if strategy = MigStrategyMixed \<and> \<not> IsMigCandidate task then Some MigOnly
                else None)
        else None)"

subsection \<open>Accepted resources\<close>

definition setAcceptedResources :: "'aff node_env \<Rightarrow> 'aff NodeInfo \<Rightarrow> PodInfo \<Rightarrow> PodInfo" where
  "setAcceptedResources ne ni pinfo =
     (if \<not> IsActiveUsedStatus (pod_Status pinfo) then pinfo
      else let p = (if IsMigCandidate pinfo
                    then pinfo\<lparr>ReceivedType := ReceivedTypeMigInstance,
                           AcceptedGpuRequirement := NewGpuResourceRequirementWithMig (migResources (GpuRequirement pinfo))\<rparr>
                    else if IsFractionCandidate pinfo
                    then pinfo\<lparr>ReceivedType := ReceivedTypeFraction,
                           AcceptedGpuRequirement := NewGpuResourceRequirementWithMultiFraction
                             (GetNumOfGpuDevices (GpuRequirement pinfo)) (getResourceGpuPortion ni (GpuRequirement pinfo))
                             (GetResourceGpuMemory ni (GpuRequirement pinfo))\<rparr>
                    else pinfo\<lparr>ReceivedType := ReceivedTypeRegular,
                           AcceptedGpuRequirement := SetDraGpus (draGpuCounts (GpuRequirement pinfo))
                             (NewGpuResourceRequirementWithGpus (GPUs (GpuRequirement pinfo)) 0)\<rparr>)
      in p\<lparr>AcceptedResourceVector :=
             setAmounts (ne_rc ne) (VectorMap p) (migResources (AcceptedGpuRequirement p))
               (Set (ResReqVector p) GPUIndex
                  (GPUs (AcceptedGpuRequirement p) + of_int (GetDraGpusCount (AcceptedGpuRequirement p))))\<rparr>)"

definition getAcceptedTaskResourceVectorWithoutSharedGPU :: "PodInfo \<Rightarrow> ResourceVector" where
  "getAcceptedTaskResourceVectorWithoutSharedGPU task =
     (let vec = AcceptedResourceVector task in if IsSharedGPUAllocation task then Set vec GPUIndex 0 else vec)"

subsection \<open>Shared DRA devices\<close>

definition draDeviceKey :: "DeviceRequestAllocationResult \<Rightarrow> string" where
  "draDeviceKey result = device_Driver result @ ''/'' @ device_Pool result @ ''/'' @ device_Device result"

text \<open>A claim without an allocation (nil) is \<open>None\<close>.\<close>

definition allocatedGPUDeviceKeys :: "'aff node_env \<Rightarrow> PodInfo \<Rightarrow> string list" where
  "allocatedGPUDeviceKeys ne task =
     concat (map (\<lambda>(_, claimAllocation). case claimAllocation of
                 None \<Rightarrow> []
               | Some results \<Rightarrow> map draDeviceKey (filter (\<lambda>result. IsGPUDeviceClass ne (device_Driver result)) results))
       (ResourceClaimInfo task))"

definition sharedDRAGpuDiscount :: "'aff node_env \<Rightarrow> 'aff NodeInfo \<Rightarrow> PodInfo \<Rightarrow> float64" where
  "sharedDRAGpuDiscount ne ni task =
     fold (\<lambda>key discount. if gomap_get (DRASharedDeviceRefCount ni) key > 0 then discount + 1 else discount)
       (allocatedGPUDeviceKeys ne task) 0"

definition dedupSharedDRAGpus ::
  "'aff node_env \<Rightarrow> 'aff NodeInfo \<Rightarrow> PodInfo \<Rightarrow> ResourceVector \<Rightarrow> 'aff NodeInfo \<times> ResourceVector" where
  "dedupSharedDRAGpus ne ni task resourcesToTrack =
     (let current = Get resourcesToTrack GPUIndex
      in if current \<le> 0 then (ni, resourcesToTrack)
         else let (counts, alreadyCounted) =
                    fold (\<lambda>key (m, c). (AList.update key (gomap_get m key + 1) m, if gomap_get m key > 0 then c + 1 else c))
                      (allocatedGPUDeviceKeys ne task) (DRASharedDeviceRefCount ni, 0);
                  alreadyCounted = (if alreadyCounted > current then current else alreadyCounted)
              in (ni\<lparr>DRASharedDeviceRefCount := counts\<rparr>,
                  if alreadyCounted > 0 then Set resourcesToTrack GPUIndex (current - alreadyCounted) else resourcesToTrack))"

definition releaseDevice :: "string \<Rightarrow> (string, int) gomap \<Rightarrow> (string, int) gomap" where
  "releaseDevice key m =
     (let m1 = (if gomap_get m key > 0 then AList.update key (gomap_get m key - 1) m else m)
      in if gomap_get m1 key = 0 then AList.delete key m1 else m1)"

definition releaseSharedDRAGpus ::
  "'aff node_env \<Rightarrow> 'aff NodeInfo \<Rightarrow> PodInfo \<Rightarrow> ResourceVector \<Rightarrow> 'aff NodeInfo \<times> ResourceVector" where
  "releaseSharedDRAGpus ne ni task resourcesToTrack =
     (let current = Get resourcesToTrack GPUIndex
      in if current \<le> 0 then (ni, resourcesToTrack)
         else let (counts, stillShared) =
                    fold (\<lambda>key (m, c). (releaseDevice key m, if gomap_get m key > 1 then c + 1 else c))
                      (allocatedGPUDeviceKeys ne task) (DRASharedDeviceRefCount ni, 0);
                  stillShared = (if stillShared > current then current else stillShared)
              in (ni\<lparr>DRASharedDeviceRefCount := counts\<rparr>,
                  if stillShared > 0 then Set resourcesToTrack GPUIndex (current - stillShared) else resourcesToTrack))"

subsection \<open>Shared GPUs\<close>

definition newGpuSharingNodeInfo :: "'aff NodeInfo \<Rightarrow> 'aff NodeInfo" where
  "newGpuSharingNodeInfo ni =
     ni\<lparr>ReleasingSharedGPUs := [], UsedSharedGPUsMemory := [], ReleasingSharedGPUsMemory := [],
        AllocatedSharedGPUsMemory := [], DRASharedDeviceRefCount := []\<rparr>"

definition isSharedGpuMarkedAsReleasing :: "'aff NodeInfo \<Rightarrow> string \<Rightarrow> bool" where
  "isSharedGpuMarkedAsReleasing ni gpuGroup = (map_of (ReleasingSharedGPUs ni) gpuGroup = Some True)"

definition markSharedGpuAsReleasing :: "'aff NodeInfo \<Rightarrow> string \<Rightarrow> 'aff NodeInfo" where
  "markSharedGpuAsReleasing ni gpuGroup = ni\<lparr>ReleasingSharedGPUs := AList.update gpuGroup True (ReleasingSharedGPUs ni)\<rparr>"

definition unmarkSharedGpuAsReleasing :: "'aff NodeInfo \<Rightarrow> string \<Rightarrow> 'aff NodeInfo" where
  "unmarkSharedGpuAsReleasing ni gpuGroup = ni\<lparr>ReleasingSharedGPUs := AList.delete gpuGroup (ReleasingSharedGPUs ni)\<rparr>"

definition getNumberOfUsedSharedGPUs :: "'aff NodeInfo \<Rightarrow> int" where
  "getNumberOfUsedSharedGPUs ni = count_if (\<lambda>(_, sharedGPUs). sharedGPUs > 0) (UsedSharedGPUsMemory ni)"

definition getNumberOfUsedGPUs :: "'aff NodeInfo \<Rightarrow> int" where
  "getNumberOfUsedGPUs ni = int64_trunc (Get (UsedVector ni) GPUIndex) + getNumberOfUsedSharedGPUs ni"

definition GetNumberOfAllocatedSharedGPUs :: "'aff NodeInfo \<Rightarrow> int" where
  "GetNumberOfAllocatedSharedGPUs ni = count_if (\<lambda>(_, sharedGPUs). sharedGPUs > 0) (AllocatedSharedGPUsMemory ni)"

definition isGpuReleasingFromSharedTasks :: "'aff NodeInfo \<Rightarrow> string \<Rightarrow> bool" where
  "isGpuReleasingFromSharedTasks ni gpuGroup =
     (case map_of (UsedSharedGPUsMemory ni) gpuGroup of
        None \<Rightarrow> False
      | Some used \<Rightarrow>
          if used = 0 then False
          else map_of (ReleasingSharedGPUsMemory ni) gpuGroup = Some used)"

definition isPipelinedToReleasingGpu :: "'aff NodeInfo \<Rightarrow> PodInfo \<Rightarrow> string \<Rightarrow> bool" where
  "isPipelinedToReleasingGpu ni task gpuGroup =
     (let mem = GetResourceGpuMemory ni (GpuRequirement task);
          used = gomap_get (UsedSharedGPUsMemory ni) gpuGroup;
          releasing = gomap_get (ReleasingSharedGPUsMemory ni) gpuGroup
      in int64_of (used + mem) = int64_of (releasing - mem) \<or> (used = 0 \<and> releasing = 0))"

definition idleGpuOvercounted :: "'aff NodeInfo \<Rightarrow> bool" where
  "idleGpuOvercounted ni \<longleftrightarrow>
     GetNumberOfGPUsInNode ni < int64_trunc (Get (IdleVector ni) GPUIndex) + getNumberOfUsedGPUs ni"

definition addSharedGPUTaskResourcesPerPodGroup :: "PodInfo \<Rightarrow> 'aff NodeInfo \<Rightarrow> string \<Rightarrow> 'aff NodeInfo" where
  "addSharedGPUTaskResourcesPerPodGroup task ni gpuGroup =
     (let mem = GetResourceGpuMemory ni (GpuRequirement task);
          singleGpu = NewSingleGpuVector (ni_VectorMap ni);
          ni = ni\<lparr>UsedSharedGPUsMemory := addScalar gpuGroup mem (UsedSharedGPUsMemory ni)\<rparr>
      in if pod_Status task = Releasing
         then let ni = ni\<lparr>ReleasingSharedGPUsMemory := addScalar gpuGroup mem (ReleasingSharedGPUsMemory ni),
                          AllocatedSharedGPUsMemory := addScalar gpuGroup mem (AllocatedSharedGPUsMemory ni)\<rparr>
              in if gomap_get (UsedSharedGPUsMemory ni) gpuGroup = gomap_get (ReleasingSharedGPUsMemory ni) gpuGroup
                 then let ni = (if \<not> isSharedGpuMarkedAsReleasing ni gpuGroup
                                then markSharedGpuAsReleasing (ni\<lparr>ReleasingVector := Vector_Add (ReleasingVector ni) singleGpu\<rparr>) gpuGroup
                                else ni)
                      in if idleGpuOvercounted ni then ni\<lparr>IdleVector := Vector_Sub (IdleVector ni) singleGpu\<rparr> else ni
                 else ni
         else if pod_Status task = Pipelined
         then let ni = ni\<lparr>ReleasingSharedGPUsMemory := addScalar gpuGroup (- mem) (ReleasingSharedGPUsMemory ni)\<rparr>
              in if int64_of (gomap_get (UsedSharedGPUsMemory ni) gpuGroup - mem) =
                    int64_of (gomap_get (ReleasingSharedGPUsMemory ni) gpuGroup + mem)
                 then ni\<lparr>ReleasingVector := Vector_Sub (ReleasingVector ni) singleGpu\<rparr> else ni
         else let ni = ni\<lparr>AllocatedSharedGPUsMemory := addScalar gpuGroup mem (AllocatedSharedGPUsMemory ni)\<rparr>;
                  ni = (if gomap_get (UsedSharedGPUsMemory ni) gpuGroup \<le> mem \<and> idleGpuOvercounted ni
                        then ni\<lparr>IdleVector := Vector_Sub (IdleVector ni) singleGpu\<rparr> else ni)
              in if isSharedGpuMarkedAsReleasing ni gpuGroup
                 then unmarkSharedGpuAsReleasing (ni\<lparr>ReleasingVector := Vector_Sub (ReleasingVector ni) singleGpu\<rparr>) gpuGroup
                 else ni)"

definition addSharedGPUTaskResources :: "'aff node_env \<Rightarrow> 'aff NodeInfo \<Rightarrow> PodInfo \<Rightarrow> 'aff NodeInfo" where
  "addSharedGPUTaskResources ne ni task =
     (if \<not> IsSharedGPUAllocation task then ni
      else foldl (addSharedGPUTaskResourcesPerPodGroup task) ni (GPUGroupIDs ne task))"

definition removeSharedTaskResourcesPerPodGroup :: "PodInfo \<Rightarrow> 'aff NodeInfo \<Rightarrow> string \<Rightarrow> 'aff NodeInfo" where
  "removeSharedTaskResourcesPerPodGroup task ni gpuGroup =
     (let mem = GetResourceGpuMemory ni (GpuRequirement task);
          singleGpu = NewSingleGpuVector (ni_VectorMap ni);
          ni = ni\<lparr>UsedSharedGPUsMemory := addScalar gpuGroup (- mem) (UsedSharedGPUsMemory ni)\<rparr>
      in if pod_Status task = Releasing
         then let ni = ni\<lparr>ReleasingSharedGPUsMemory := addScalar gpuGroup (- mem) (ReleasingSharedGPUsMemory ni),
                          AllocatedSharedGPUsMemory := addScalar gpuGroup (- mem) (AllocatedSharedGPUsMemory ni)\<rparr>
              in if gomap_get (UsedSharedGPUsMemory ni) gpuGroup \<le> 0
                 then let ni = (if \<not> idleGpuOvercounted ni then ni\<lparr>IdleVector := Vector_Add (IdleVector ni) singleGpu\<rparr> else ni)
                      in if isSharedGpuMarkedAsReleasing ni gpuGroup
                         then unmarkSharedGpuAsReleasing (ni\<lparr>ReleasingVector := Vector_Sub (ReleasingVector ni) singleGpu\<rparr>) gpuGroup
                         else ni
                 else ni
         else if pod_Status task = Pipelined
         then let ni = ni\<lparr>ReleasingSharedGPUsMemory := addScalar gpuGroup mem (ReleasingSharedGPUsMemory ni)\<rparr>
              in if isPipelinedToReleasingGpu ni task gpuGroup
                 then ni\<lparr>ReleasingVector := Vector_Add (ReleasingVector ni) singleGpu\<rparr> else ni
         else let ni = ni\<lparr>AllocatedSharedGPUsMemory := addScalar gpuGroup (- mem) (AllocatedSharedGPUsMemory ni)\<rparr>;
                  ni = (if gomap_get (UsedSharedGPUsMemory ni) gpuGroup \<le> 0 \<and> \<not> idleGpuOvercounted ni
                        then ni\<lparr>IdleVector := Vector_Add (IdleVector ni) singleGpu\<rparr> else ni)
              in if isGpuReleasingFromSharedTasks ni gpuGroup \<and> \<not> isSharedGpuMarkedAsReleasing ni gpuGroup
                 then markSharedGpuAsReleasing (ni\<lparr>ReleasingVector := Vector_Add (ReleasingVector ni) singleGpu\<rparr>) gpuGroup
                 else ni)"

definition removeSharedTaskResources :: "'aff node_env \<Rightarrow> 'aff NodeInfo \<Rightarrow> PodInfo \<Rightarrow> 'aff NodeInfo" where
  "removeSharedTaskResources ne ni task =
     (if \<not> IsSharedGPUAllocation task then ni
      else foldl (removeSharedTaskResourcesPerPodGroup task) ni (GPUGroupIDs ne task))"

subsection \<open>Adding and removing tasks\<close>

text \<open>The loop that clears the entries the node cannot allocate.\<close>

definition zeroUnallocatable :: "'aff NodeInfo \<Rightarrow> ResourceVector \<Rightarrow> ResourceVector" where
  "zeroUnallocatable ni vec =
     fold (\<lambda>i v. if Get (AllocatableVector ni) (int i) = 0 then Set v (int i) 0 else v) [0 ..< length vec] vec"

definition excludedFromPodAffinity :: "PodInfo \<Rightarrow> bool" where
  "excludedFromPodAffinity task \<longleftrightarrow> pod_Status task = Releasing \<and> IsVirtualStatus task"

definition addTaskResources :: "'aff node_env \<Rightarrow> 'aff NodeInfo \<Rightarrow> PodInfo \<Rightarrow> 'aff NodeInfo" where
  "addTaskResources ne ni task =
     (let vec = getAcceptedTaskResourceVectorWithoutSharedGPU task;
          vec = (if IsResourceReservationTask ne task then Set vec GPUIndex 0 else vec);
          (ni, vec) = dedupSharedDRAGpus ne ni task vec;
          vec = zeroUnallocatable ni vec;
          ni = ni\<lparr>UsedVector := Vector_Add (UsedVector ni) vec\<rparr>;
          ni = (if pod_Status task = Releasing
                then ni\<lparr>ReleasingVector := Vector_Add (ReleasingVector ni) vec, IdleVector := Vector_Sub (IdleVector ni) vec\<rparr>
                else if pod_Status task = Pipelined
                then ni\<lparr>ReleasingVector := Vector_Sub (ReleasingVector ni) vec\<rparr>
                else ni\<lparr>IdleVector := Vector_Sub (IdleVector ni) vec\<rparr>)
      in addSharedGPUTaskResources ne ni task)"

definition removeTaskResources :: "'aff node_env \<Rightarrow> 'aff NodeInfo \<Rightarrow> PodInfo \<Rightarrow> 'aff NodeInfo" where
  "removeTaskResources ne ni task =
     (let vec = getAcceptedTaskResourceVectorWithoutSharedGPU task;
          vec = (if IsResourceReservationTask ne task then Set vec GPUIndex 0 else vec);
          (ni, vec) = releaseSharedDRAGpus ne ni task vec;
          vec = zeroUnallocatable ni vec;
          ni = ni\<lparr>UsedVector := Vector_Sub (UsedVector ni) vec\<rparr>;
          ni = (if pod_Status task = Releasing
                then ni\<lparr>ReleasingVector := Vector_Sub (ReleasingVector ni) vec, IdleVector := Vector_Add (IdleVector ni) vec\<rparr>
                else if pod_Status task = Pipelined
                then ni\<lparr>ReleasingVector := Vector_Add (ReleasingVector ni) vec\<rparr>
                else ni\<lparr>IdleVector := Vector_Add (IdleVector ni) vec\<rparr>)
      in removeSharedTaskResources ne ni task)"

text \<open>The claims that a task still has to get, each with the capacities of its class that the node reaches; the store
  is updated in place. An identifier of the node that is not in the store stands for no capacity.\<close>

definition updateCapacities :: "(StorageCapacityInfo \<Rightarrow> StorageCapacityInfo) \<Rightarrow> string list \<Rightarrow> capStore \<Rightarrow> capStore" where
  "updateCapacities f ids caps =
     fold (\<lambda>uid caps. case map_of caps uid of None \<Rightarrow> caps | Some sc \<Rightarrow> AList.update uid (f sc) caps) ids caps"

definition forTaskClaims ::
  "(StorageClaimInfo \<Rightarrow> StorageCapacityInfo \<Rightarrow> StorageCapacityInfo) \<Rightarrow> 'aff NodeInfo \<Rightarrow> PodInfo \<Rightarrow> capStore \<Rightarrow> capStore" where
  "forTaskClaims f ni task caps =
     fold (\<lambda>(storageClass, storageClassClaims) caps.
         fold (\<lambda>claim caps.
             case map_of (AccessibleStorageCapacities ni) storageClass of
               None \<Rightarrow> caps
             | Some capacities \<Rightarrow> updateCapacities (f claim) capacities caps)
           storageClassClaims caps)
       (GetUnboundOrReleasingStorageClaimsByStorageClass task) caps"

definition addTaskStorage :: "'aff NodeInfo \<Rightarrow> PodInfo \<Rightarrow> capStore \<Rightarrow> capStore" where
  "addTaskStorage ni task caps = forTaskClaims provision ni task caps"

definition removeTaskStorage :: "'aff NodeInfo \<Rightarrow> PodInfo \<Rightarrow> capStore \<Rightarrow> capStore" where
  "removeTaskStorage ni task caps = forTaskClaims unprovision ni task caps"

definition addTask ::
  "'aff node_env \<Rightarrow> 'aff NodeInfo \<Rightarrow> capStore \<Rightarrow> PodInfo \<Rightarrow> bool \<Rightarrow> 'aff NodeInfo \<times> capStore \<times> PodInfo \<times> node_error option" where
  "addTask ne ni caps task allowTaskToExistOnDifferentGPU =
     (let task = setAcceptedResources ne ni task;
          key = PodKey task;
          move = (IsSharedGPUAllocation task \<and> allowTaskToExistOnDifferentGPU);
          ni = (if move then ni\<lparr>PodInfos := AList.delete key (PodInfos ni)\<rparr> else ni)
      in if \<not> move \<and> map_of (PodInfos ni) key \<noteq> None then (ni, caps, task, Some (TaskAlreadyOnNode key (ni_Name ni)))
         else let ni = ni\<lparr>PodInfos := AList.update key (PodInfo_Clone task) (PodInfos ni)\<rparr>
              in if ni_Node ni = None then (ni, caps, task, Some (NodeIsNil (ni_Name ni)))
                 else let ni = (if IsLegacyMIGtask task
                                then ni\<lparr>LegacyMIGTasks := AList.update (pod_UID task) (PodKey task) (LegacyMIGTasks ni)\<rparr> else ni);
                          ni = addTaskResources ne ni task;
                          caps = addTaskStorage ni task caps;
                          ni = (if \<not> excludedFromPodAffinity task
                                then ni\<lparr>PodAffinityInfo := AddPod ne (PodAffinityInfo ni) task\<rparr> else ni)
                      in (ni, caps, task, None))"

definition AddTask ::
  "'aff node_env \<Rightarrow> 'aff NodeInfo \<Rightarrow> capStore \<Rightarrow> PodInfo \<Rightarrow> 'aff NodeInfo \<times> capStore \<times> PodInfo \<times> node_error option" where
  "AddTask ne ni caps task = addTask ne ni caps task False"

definition ConsolidateSharedPodInfoToDifferentGPU ::
  "'aff node_env \<Rightarrow> 'aff NodeInfo \<Rightarrow> capStore \<Rightarrow> PodInfo \<Rightarrow> 'aff NodeInfo \<times> capStore \<times> PodInfo \<times> node_error option" where
  "ConsolidateSharedPodInfoToDifferentGPU ne ni caps ti = addTask ne ni caps ti True"

definition RemoveTask ::
  "'aff node_env \<Rightarrow> 'aff NodeInfo \<Rightarrow> capStore \<Rightarrow> PodInfo \<Rightarrow> 'aff NodeInfo \<times> capStore \<times> node_error option" where
  "RemoveTask ne ni caps ti =
     (let key = PodKey ti
      in case map_of (PodInfos ni) key of
           None \<Rightarrow> (ni, caps, Some (TaskNotFound key (ni_Name ni)))
         | Some task \<Rightarrow>
             let ni = ni\<lparr>PodInfos := AList.delete key (PodInfos ni)\<rparr>
             in if ni_Node ni = None then (ni, caps, Some (NodeIsNil (ni_Name ni)))
                else let caps = removeTaskStorage ni task caps;
                         ni = removeTaskResources ne ni task
                     in if excludedFromPodAffinity task then (ni, caps, None)
                        else let (aff, err) = RemovePod ne (PodAffinityInfo ni) task
                             in (ni\<lparr>PodAffinityInfo := aff\<rparr>, caps, map_option AffinityError err))"

definition UpdateTask ::
  "'aff node_env \<Rightarrow> 'aff NodeInfo \<Rightarrow> capStore \<Rightarrow> PodInfo \<Rightarrow> 'aff NodeInfo \<times> capStore \<times> PodInfo \<times> node_error option" where
  "UpdateTask ne ni caps ti =
     (let (ni, caps, err) = RemoveTask ne ni caps ti
      in case err of
           Some e \<Rightarrow> (ni, caps, ti, Some e)
         | None \<Rightarrow> addTask ne ni caps ti False)"

text \<open>\<open>existingPodsMap\<close> and the returned pods hold the task objects, which adding to the node has changed.\<close>

definition AddTasksToNode ::
  "'aff node_env \<Rightarrow> 'aff NodeInfo \<Rightarrow> capStore \<Rightarrow> PodInfo list \<Rightarrow> PodsMap \<Rightarrow> 'aff NodeInfo \<times> capStore \<times> PodsMap \<times> PodInfo list" where
  "AddTasksToNode ne ni caps podInfos existingPodsMap =
     foldl (\<lambda>(ni, caps, existing, resultPods) podInfo.
         let (ni, caps, podInfo) = (if IsActiveUsedStatus (pod_Status podInfo)
                                    then (let (ni, caps, podInfo, _) = AddTask ne ni caps podInfo in (ni, caps, podInfo))
                                    else (ni, caps, podInfo))
         in (ni, caps, AList.update (pod_UID podInfo) podInfo existing, resultPods @ [podInfo]))
       (ni, caps, existingPodsMap, []) podInfos"

subsection \<open>Can a task be placed?\<close>

definition lessEqualTaskToNodeResources :: "'aff node_env \<Rightarrow> 'aff NodeInfo \<Rightarrow> PodInfo \<Rightarrow> ResourceVector \<Rightarrow> bool" where
  "lessEqualTaskToNodeResources ne ni task nodeResourcesVector =
     (if \<not> isValidGpuPortion ni (GpuRequirement task) then False
      else let discount = sharedDRAGpuDiscount ne ni task
           in if discount > 0
              then Vector_LessEqual (ResReqVector task)
                     (Set nodeResourcesVector GPUIndex (Get nodeResourcesVector GPUIndex + discount))
              else Vector_LessEqual (ResReqVector task) nodeResourcesVector)"

definition lessEqualVectorsExcludingGPU :: "'aff node_env \<Rightarrow> 'aff NodeInfo \<Rightarrow> ResourceVector \<Rightarrow> ResourceVector \<Rightarrow> bool" where
  "lessEqualVectorsExcludingGPU ne ni a b =
     list_all (\<lambda>i. if i = GPUIndex then True
                   else if Get (AllocatableVector ni) i = 0 \<and> hasDeviceClass ne (ResourceAt (ni_VectorMap ni) i) then True
                   else \<not> Get a i > Get b i) [0 .. int (length a) - 1]"

definition EnoughIdleResourcesOnGpu :: "'aff NodeInfo \<Rightarrow> GpuResourceRequirement \<Rightarrow> string \<Rightarrow> bool" where
  "EnoughIdleResourcesOnGpu ni res gpuGroup =
     (case map_of (AllocatedSharedGPUsMemory ni) gpuGroup of
        None \<Rightarrow> False
      | Some allocated \<Rightarrow> int64_of (MemoryOfEveryGpuOnNode ni - allocated - GetResourceGpuMemory ni res) \<ge> 0)"

definition enoughResourcesOnGpu :: "'aff NodeInfo \<Rightarrow> GpuResourceRequirement \<Rightarrow> string \<Rightarrow> bool" where
  "enoughResourcesOnGpu ni res gpuGroup \<longleftrightarrow>
     int64_of (MemoryOfEveryGpuOnNode ni - gomap_get (AllocatedSharedGPUsMemory ni) gpuGroup +
       gomap_get (ReleasingSharedGPUsMemory ni) gpuGroup - GetResourceGpuMemory ni res) \<ge> 0"

definition isAllGpuReleased :: "'aff NodeInfo \<Rightarrow> string \<Rightarrow> bool" where
  "isAllGpuReleased ni gpuGroup \<longleftrightarrow>
     gomap_get (AllocatedSharedGPUsMemory ni) gpuGroup = gomap_get (ReleasingSharedGPUsMemory ni) gpuGroup"

text \<open>The first reservation pod of the GPU group, in the order the map is visited.\<close>

definition getReservationPodGpuGroupComputeSharingMode :: "'aff node_env \<Rightarrow> 'aff NodeInfo \<Rightarrow> string \<Rightarrow> string option" where
  "getReservationPodGpuGroupComputeSharingMode ne ni gpuGroup =
     (let reserves = (\<lambda>task. take (length (GPUReservationPodPrefix ne)) (pod_Name task) = GPUReservationPodPrefix ne \<and>
            (case map_of (pod_Labels task) (GPUGroupLabel ne) of None \<Rightarrow> '''' | Some g \<Rightarrow> g) = gpuGroup)
      in case filter reserves (map snd (PodInfos ni)) of
           [] \<Rightarrow> None
         | task # _ \<Rightarrow> Some (if pod_Annotations task = None then TimeSlicing ne else DefaultMode ne (rawMode ne task)))"

definition getGpuGroupComputeSharingMode :: "'aff node_env \<Rightarrow> 'aff NodeInfo \<Rightarrow> string \<Rightarrow> string option" where
  "getGpuGroupComputeSharingMode ne ni gpuGroup =
     (case filter (\<lambda>g. group_ID g = gpuGroup) (concat (map (FractionalGpuGroupsOrDefault ne \<circ> snd) (PodInfos ni))) of
        [] \<Rightarrow> None
      | g # _ \<Rightarrow> Some (ComputeSharingMode (GroupWithDefaults ne g)))"

definition IsGpuGroupComputeSharingModeCompatible :: "'aff node_env \<Rightarrow> 'aff NodeInfo \<Rightarrow> string \<Rightarrow> PodInfo \<Rightarrow> bool" where
  "IsGpuGroupComputeSharingModeCompatible ne ni gpuGroup task =
     (let requestedMode = RequestedGPUComputeSharingMode ne task
      in case getReservationPodGpuGroupComputeSharingMode ne ni gpuGroup of
           Some mode \<Rightarrow> mode = requestedMode
         | None \<Rightarrow>
             (case getGpuGroupComputeSharingMode ne ni gpuGroup of
                Some mode \<Rightarrow> mode = requestedMode
              | None \<Rightarrow>
                  (case filter (\<lambda>g. group_ID g = gpuGroup) (map (GroupWithDefaults ne) (FractionalGpuGroupsOrDefault ne task)) of
                     g # _ \<Rightarrow> ComputeSharingMode g = requestedMode
                   | [] \<Rightarrow> requestedMode = TimeSlicing ne)))"

definition IsTaskFitOnGpuGroup :: "'aff node_env \<Rightarrow> 'aff NodeInfo \<Rightarrow> PodInfo \<Rightarrow> string \<Rightarrow> bool" where
  "IsTaskFitOnGpuGroup ne ni task gpuGroup \<longleftrightarrow>
     gomap_get (UsedSharedGPUsMemory ni) gpuGroup \<noteq> 0 \<and> enoughResourcesOnGpu ni (GpuRequirement task) gpuGroup \<and>
     \<not> isAllGpuReleased ni gpuGroup \<and> IsGpuGroupComputeSharingModeCompatible ne ni gpuGroup task"

fun countFitting :: "(string \<Rightarrow> bool) \<Rightarrow> int \<Rightarrow> string list \<Rightarrow> int \<Rightarrow> int" where
  "countFitting fits wanted [] matching = matching"
| "countFitting fits wanted (g # gs) matching =
     (if fits g
      then (if matching + 1 \<ge> wanted then matching + 1 else countFitting fits wanted gs (matching + 1))
      else countFitting fits wanted gs matching)"

definition fractionTaskGpusAllocatableDeviceCount :: "'aff node_env \<Rightarrow> 'aff NodeInfo \<Rightarrow> PodInfo \<Rightarrow> int" where
  "fractionTaskGpusAllocatableDeviceCount ne ni pod =
     countFitting (IsTaskFitOnGpuGroup ne ni pod) (GetNumOfGpuDevices (GpuRequirement pod)) (gokeys (UsedSharedGPUsMemory ni)) 0"

definition isTaskAllocatableOnNonAllocatedResources :: "'aff node_env \<Rightarrow> 'aff NodeInfo \<Rightarrow> PodInfo \<Rightarrow> ResourceVector \<Rightarrow> bool" where
  "isTaskAllocatableOnNonAllocatedResources ne ni task nodeNonAllocatedVector =
     (if IsRegularGPURequest task \<or> IsMigProfileRequest task then lessEqualTaskToNodeResources ne ni task nodeNonAllocatedVector
      else if \<not> lessEqualVectorsExcludingGPU ne ni (ResReqVector task) nodeNonAllocatedVector then False
      else if \<not> isValidGpuPortion ni (GpuRequirement task) then False
      else \<lfloor>Get nodeNonAllocatedVector GPUIndex\<rfloor> + fractionTaskGpusAllocatableDeviceCount ne ni task
             \<ge> GetNumOfGpuDevices (GpuRequirement task))"

definition isTaskStorageAllocatableOnCapacities :: "StorageClaimInfo list \<Rightarrow> StorageCapacityInfo list \<Rightarrow> bool" where
  "isTaskStorageAllocatableOnCapacities pvcs capacities = list_ex (\<lambda>capacity. ArePVCsAllocatable capacity pvcs = None) capacities"

definition capacitiesOf :: "capStore \<Rightarrow> string list \<Rightarrow> StorageCapacityInfo list" where
  "capacitiesOf caps ids = List.map_filter (map_of caps) ids"

datatype task_storage_error =
    DeletedStorageClaims string
  | NoStorageClass string
  | NotEnoughStorage string
  | CapacityError storage_error

definition isTaskStorageAllocatable :: "'aff NodeInfo \<Rightarrow> capStore \<Rightarrow> PodInfo \<Rightarrow> bool \<times> task_storage_error list" where
  "isTaskStorageAllocatable ni caps task =
     (let deletedStorageClaims = GetDeletedStorageClaimsNames task
      in if length deletedStorageClaims > 0 then (False, [DeletedStorageClaims deletedStorageClaims])
         else let errs = fold (\<lambda>(storageClass, pvcs) err.
                    case map_of (AccessibleStorageCapacities ni) storageClass of
                      None \<Rightarrow> err @ [NoStorageClass storageClass]
                    | Some capacities \<Rightarrow>
                        if \<not> isTaskStorageAllocatableOnCapacities pvcs (capacitiesOf caps capacities)
                        then err @ [NotEnoughStorage storageClass] else err)
                  (GetUnboundOrReleasingStorageClaimsByStorageClass task) []
              in (errs = [], errs))"

fun firstError :: "('a \<Rightarrow> 'e option) \<Rightarrow> 'a list \<Rightarrow> 'e option" where
  "firstError f [] = None"
| "firstError f (x # xs) = (case f x of None \<Rightarrow> firstError f xs | Some e \<Rightarrow> Some e)"

definition isTaskStorageAllocatableOnReleasingOrIdle ::
  "'aff NodeInfo \<Rightarrow> capStore \<Rightarrow> PodInfo \<Rightarrow> bool \<times> task_storage_error option" where
  "isTaskStorageAllocatableOnReleasingOrIdle ni caps task =
     (let err = firstError (\<lambda>(storageClass, pvcs).
            case map_of (AccessibleStorageCapacities ni) storageClass of
              None \<Rightarrow> Some (CapacityError (MissingStorageClassError storageClass))
            | Some capacities \<Rightarrow>
                map_option CapacityError
                  (firstError (\<lambda>capacity. ArePVCsAllocatableOnReleasingOrIdle capacity pvcs (PodInfos ni)) (capacitiesOf caps capacities)))
          (GetUnboundOrReleasingStorageClaimsByStorageClass task)
      in (err = None, err))"

definition IsTaskAllocatable :: "'aff node_env \<Rightarrow> 'aff NodeInfo \<Rightarrow> capStore \<Rightarrow> PodInfo \<Rightarrow> bool" where
  "IsTaskAllocatable ne ni caps task =
     (if GpuReq_IsEmpty (GpuRequirement task) \<and> IsZero (ResReqVector task) \<and> length (storageClaims task) = 0 \<and>
         \<not> IsGpuMemoryRequest task then True
      else if \<not> isTaskAllocatableOnNonAllocatedResources ne ni task (IdleVector ni) then False
      else fst (isTaskStorageAllocatable ni caps task))"

definition IsTaskAllocatableOnReleasingOrIdle :: "'aff node_env \<Rightarrow> 'aff NodeInfo \<Rightarrow> capStore \<Rightarrow> PodInfo \<Rightarrow> bool" where
  "IsTaskAllocatableOnReleasingOrIdle ne ni caps task =
     (if \<not> isTaskAllocatableOnNonAllocatedResources ne ni task (nonAllocatedVector ni) then False
      else fst (isTaskStorageAllocatableOnReleasingOrIdle ni caps task))"

subsection \<open>Sums over shared GPUs\<close>

definition AvailableSharedGPUFractions :: "'aff NodeInfo \<Rightarrow> float64" where
  "AvailableSharedGPUFractions ni =
     (if MemoryOfEveryGpuOnNode ni \<le> 0 then 0
      else fold (\<lambda>(gpuGroup, usedMemory) t.
             if usedMemory \<le> 0 then t
             else let available = int64_of (MemoryOfEveryGpuOnNode ni - gomap_get (AllocatedSharedGPUsMemory ni) gpuGroup +
                                    gomap_get (ReleasingSharedGPUsMemory ni) gpuGroup)
                  in if available > 0 then t + of_int available / of_int (MemoryOfEveryGpuOnNode ni) else t)
             (UsedSharedGPUsMemory ni) 0)"

definition getSumOfAvailableSharedGPUs :: "'aff NodeInfo \<Rightarrow> float64 \<times> int" where
  "getSumOfAvailableSharedGPUs ni =
     fold (\<lambda>(_, allocated) (gpus, mem).
         if allocated > 0
         then (gpus + (1 - getGpuMemoryFractionalOnNode ni allocated), int64_of (mem + (MemoryOfEveryGpuOnNode ni - allocated)))
         else (gpus, mem)) (AllocatedSharedGPUsMemory ni) (0, 0)"

definition getSumOfReleasingSharedGPUs :: "'aff NodeInfo \<Rightarrow> float64 \<times> int" where
  "getSumOfReleasingSharedGPUs ni =
     fold (\<lambda>(gpuGroup, releasing) (gpus, mem).
         if releasing > 0 \<and> \<not> isGpuReleasingFromSharedTasks ni gpuGroup
         then (gpus + getGpuMemoryFractionalOnNode ni releasing, int64_of (mem + releasing))
         else (gpus, mem)) (ReleasingSharedGPUsMemory ni) (0, 0)"

definition GetSumOfIdleGPUs :: "'aff NodeInfo \<Rightarrow> float64 \<times> int" where
  "GetSumOfIdleGPUs ni =
     (let (sumOfSharedGPUs, sumOfSharedGPUsMemory) = getSumOfAvailableSharedGPUs ni;
          idleGPUs = TotalGPUs (IdleVector ni) (ni_VectorMap ni)
      in (sumOfSharedGPUs + idleGPUs, int64_of (sumOfSharedGPUsMemory + int64_trunc idleGPUs * MemoryOfEveryGpuOnNode ni)))"

definition GetSumOfReleasingGPUs :: "'aff NodeInfo \<Rightarrow> float64 \<times> int" where
  "GetSumOfReleasingGPUs ni =
     (let (sumOfSharedGPUs, sumOfSharedGPUsMemory) = getSumOfReleasingSharedGPUs ni;
          releasingGPUs = TotalGPUs (ReleasingVector ni) (ni_VectorMap ni)
      in (sumOfSharedGPUs + releasingGPUs, int64_of (sumOfSharedGPUsMemory + int64_trunc releasingGPUs * MemoryOfEveryGpuOnNode ni)))"

text \<open>\<open>None\<close> is the error for an invalid GPU memory.\<close>

definition GetUsedGpuPortion :: "'aff NodeInfo \<Rightarrow> string \<Rightarrow> float64 option" where
  "GetUsedGpuPortion ni gpuIdx =
     (if MemoryOfEveryGpuOnNode ni < DefaultGpuMemory \<or> MemoryOfEveryGpuOnNode ni = 0 then None
      else Some (of_int (gomap_get (UsedSharedGPUsMemory ni) gpuIdx) / of_int (MemoryOfEveryGpuOnNode ni)))"

end
