(* ===== verification/Node_Laws.thy ===== *)
theory Node_Laws
  imports Node_Info
begin

text \<open>
  Laws of nodes. The books of a node (the memory on every shared GPU, the vectors at all resources but GPUs, the
  reference counts of DRA devices) are the sums over the tasks it stores, after every sequence of additions,
  removals and updates, whatever errors the operations return.
\<close>

subsection \<open>Wrapping sums\<close>

lemma int64_of_add [simp]: "int64_of (int64_of a + b) = int64_of (a + b)" "int64_of (b + int64_of a) = int64_of (b + a)"
  by (simp_all add: int64_of_mod mod_simps algebra_simps)

declare gomap_get_update [simp]

lemma gomap_get_delete [simp]: "gomap_get (AList.delete g m) h = (if h = g then 0 else gomap_get m h)"
  by (simp add: gomap_get_def)

lemma gomap_get_Nil [simp]: "gomap_get [] h = 0"
  by (simp add: gomap_get_def)

lemma sum_values_delete:
  fixes f :: "'v \<Rightarrow> 'n :: ab_group_add"
  assumes "wf_gomap m" and "map_of m k = Some v"
  shows "(\<Sum>x\<leftarrow>map snd (AList.delete k m). f x) = (\<Sum>x\<leftarrow>map snd m. f x) - f v"
  using assms
proof (induction m)
  case (Cons e m)
  obtain k' v' where e: "e = (k', v')" by (cases e)
  show ?case
  proof (cases "k' = k")
    case True
    then have "map_of m k = None" using Cons.prems(1) e by (auto simp: wf_gomap_def map_of_eq_None_iff)
    then show ?thesis using True Cons.prems(2) e by (simp add: AList_delete_absent)
  next
    case False
    then show ?thesis using Cons e by (simp add: wf_gomap_def)
  qed
qed simp

lemma sum_values_update_new:
  fixes f :: "'v \<Rightarrow> 'n :: ab_group_add"
  shows "map_of m k = None \<Longrightarrow> (\<Sum>x\<leftarrow>map snd (AList.update k v m). f x) = (\<Sum>x\<leftarrow>map snd m. f x) + f v"
  by (simp add: AList_update_new)

subsection \<open>What the operations leave alone\<close>

lemmas shared_defs = addSharedGPUTaskResourcesPerPodGroup_def removeSharedTaskResourcesPerPodGroup_def
  markSharedGpuAsReleasing_def unmarkSharedGpuAsReleasing_def

definition sameFrame :: "'aff NodeInfo \<Rightarrow> 'aff NodeInfo \<Rightarrow> bool" where
  "sameFrame ni ni' \<longleftrightarrow>
     ni_Name ni' = ni_Name ni \<and> ni_Node ni' = ni_Node ni \<and> AllocatableVector ni' = AllocatableVector ni \<and>
     UsedVector ni' = UsedVector ni \<and> ni_VectorMap ni' = ni_VectorMap ni \<and>
     AccessibleStorageCapacities ni' = AccessibleStorageCapacities ni \<and> PodInfos ni' = PodInfos ni \<and>
     MemoryOfEveryGpuOnNode ni' = MemoryOfEveryGpuOnNode ni \<and> LegacyMIGTasks ni' = LegacyMIGTasks ni \<and>
     PodAffinityInfo ni' = PodAffinityInfo ni \<and> DRASharedDeviceRefCount ni' = DRASharedDeviceRefCount ni"

lemma sameFrame_refl [simp]: "sameFrame ni ni"
  by (simp add: sameFrame_def)

lemma sameFrame_trans: "sameFrame a b \<Longrightarrow> sameFrame b c \<Longrightarrow> sameFrame a c"
  by (simp add: sameFrame_def)

lemma addShared_frame: "sameFrame ni (addSharedGPUTaskResourcesPerPodGroup task ni g)"
  by (simp add: sameFrame_def shared_defs Let_def)

lemma removeShared_frame: "sameFrame ni (removeSharedTaskResourcesPerPodGroup task ni g)"
  by (simp add: sameFrame_def shared_defs Let_def)

lemma foldl_frame:
  assumes "\<And>ni g. sameFrame ni (f ni g)"
  shows "sameFrame ni (foldl f ni gs)"
proof (induction gs arbitrary: ni)
  case (Cons g gs)
  then show ?case using assms sameFrame_trans by fastforce
qed simp

lemma GetResourceGpuMemory_frame: "sameFrame ni ni' \<Longrightarrow> GetResourceGpuMemory ni' r = GetResourceGpuMemory ni r"
  by (simp add: sameFrame_def GetResourceGpuMemory_def)

subsection \<open>The memory books of one task\<close>

datatype book = UsedBook | AllocatedBook | ReleasingBook

fun memBook :: "book \<Rightarrow> 'aff NodeInfo \<Rightarrow> (string, int) gomap" where
  "memBook UsedBook ni = UsedSharedGPUsMemory ni"
| "memBook AllocatedBook ni = AllocatedSharedGPUsMemory ni"
| "memBook ReleasingBook ni = ReleasingSharedGPUsMemory ni"

text \<open>How a task of a status counts in a book: a pipelined task is not allocated, and it takes from what is released.\<close>

fun bookSign :: "book \<Rightarrow> PodStatus \<Rightarrow> int" where
  "bookSign UsedBook st = 1"
| "bookSign AllocatedBook st = (if st = Pipelined then 0 else 1)"
| "bookSign ReleasingBook st = (if st = Releasing then 1 else if st = Pipelined then - 1 else 0)"

lemma addShared_maps:
  "memBook k (addSharedGPUTaskResourcesPerPodGroup task ni g) =
     (if bookSign k (pod_Status task) = 0 then memBook k ni
      else addScalar g (bookSign k (pod_Status task) * GetResourceGpuMemory ni (GpuRequirement task)) (memBook k ni))"
  by (cases k) (simp_all add: shared_defs Let_def)

lemma removeShared_maps:
  "memBook k (removeSharedTaskResourcesPerPodGroup task ni g) =
     (if bookSign k (pod_Status task) = 0 then memBook k ni
      else addScalar g (- bookSign k (pod_Status task) * GetResourceGpuMemory ni (GpuRequirement task)) (memBook k ni))"
  by (cases k) (simp_all add: shared_defs Let_def)

lemma addShared_book:
  assumes "gomap_get (memBook k ni) h = int64_of b"
  shows "gomap_get (memBook k (addSharedGPUTaskResourcesPerPodGroup task ni g)) h =
    int64_of (b + (if h = g then bookSign k (pod_Status task) * GetResourceGpuMemory ni (GpuRequirement task) else 0))"
  using assms by (auto simp: addShared_maps gomap_get_addScalar)

lemma removeShared_book:
  assumes "gomap_get (memBook k ni) h = int64_of b"
  shows "gomap_get (memBook k (removeSharedTaskResourcesPerPodGroup task ni g)) h =
    int64_of (b + (if h = g then - bookSign k (pod_Status task) * GetResourceGpuMemory ni (GpuRequirement task) else 0))"
  using assms int64_of_add(1) [of b] by (auto simp: removeShared_maps gomap_get_addScalar simp flip: add_uminus_conv_diff)

lemma foldl_books:
  assumes step: "\<And>ni g b. gomap_get (memBook k ni) h = int64_of b \<Longrightarrow>
      gomap_get (memBook k (f ni g)) h = int64_of (b + (if h = g then c * GetResourceGpuMemory ni r else 0))"
    and frame: "\<And>ni g. sameFrame ni (f ni g)"
    and "gomap_get (memBook k ni) h = int64_of b"
  shows "gomap_get (memBook k (foldl f ni gs)) h = int64_of (b + c * (int (count_list gs h) * GetResourceGpuMemory ni r))"
  using assms(3)
proof (induction gs arbitrary: ni b)
  case (Cons g gs)
  have "gomap_get (memBook k (f ni g)) h = int64_of (b + (if h = g then c * GetResourceGpuMemory ni r else 0))"
    using step Cons.prems by blast
  from Cons.IH [OF this] show ?case
    by (simp add: GetResourceGpuMemory_frame [OF frame] algebra_simps)
qed simp

definition memOn :: "'aff node_env \<Rightarrow> 'aff NodeInfo \<Rightarrow> PodInfo \<Rightarrow> string \<Rightarrow> int" where
  "memOn ne ni t g =
     (if IsSharedGPUAllocation t then int (count_list (GPUGroupIDs ne t) g) * GetResourceGpuMemory ni (GpuRequirement t) else 0)"

lemma addSharedGPUTaskResources_book:
  assumes "gomap_get (memBook k ni) h = int64_of b"
  shows "gomap_get (memBook k (addSharedGPUTaskResources ne ni task)) h =
    int64_of (b + bookSign k (pod_Status task) * memOn ne ni task h)"
proof (cases "IsSharedGPUAllocation task")
  case True
  have "gomap_get (memBook k (foldl (addSharedGPUTaskResourcesPerPodGroup task) ni (GPUGroupIDs ne task))) h =
      int64_of (b + bookSign k (pod_Status task) * (int (count_list (GPUGroupIDs ne task) h) * GetResourceGpuMemory ni (GpuRequirement task)))"
    by (rule foldl_books [OF addShared_book addShared_frame assms])
  then show ?thesis by (simp add: addSharedGPUTaskResources_def memOn_def True)
qed (simp add: addSharedGPUTaskResources_def memOn_def assms)

lemma removeSharedTaskResources_book:
  assumes "gomap_get (memBook k ni) h = int64_of b"
  shows "gomap_get (memBook k (removeSharedTaskResources ne ni task)) h =
    int64_of (b - bookSign k (pod_Status task) * memOn ne ni task h)"
proof (cases "IsSharedGPUAllocation task")
  case True
  have "gomap_get (memBook k (foldl (removeSharedTaskResourcesPerPodGroup task) ni (GPUGroupIDs ne task))) h =
      int64_of (b + - bookSign k (pod_Status task) * (int (count_list (GPUGroupIDs ne task) h) * GetResourceGpuMemory ni (GpuRequirement task)))"
    by (rule foldl_books [OF removeShared_book removeShared_frame assms])
  then show ?thesis by (simp add: removeSharedTaskResources_def memOn_def True)
qed (simp add: removeSharedTaskResources_def memOn_def assms)

subsection \<open>The vectors\<close>

fun bookVector :: "book \<Rightarrow> 'aff NodeInfo \<Rightarrow> ResourceVector" where
  "bookVector UsedBook ni = UsedVector ni"
| "bookVector AllocatedBook ni = IdleVector ni"
| "bookVector ReleasingBook ni = ReleasingVector ni"

text \<open>What a task is charged with before shared devices are taken into account.\<close>

definition chargedVector :: "'aff node_env \<Rightarrow> PodInfo \<Rightarrow> ResourceVector" where
  "chargedVector ne task =
     (let vec = getAcceptedTaskResourceVectorWithoutSharedGPU task
      in if IsResourceReservationTask ne task then Set vec GPUIndex 0 else vec)"

lemma Get_chargedVector: "i \<noteq> GPUIndex \<Longrightarrow> Get (chargedVector ne task) i = Get (AcceptedResourceVector task) i"
  by (simp add: chargedVector_def getAcceptedTaskResourceVectorWithoutSharedGPU_def Let_def Get_Set)

lemma Get_zeroUnallocatable:
  "Get (zeroUnallocatable ni vec) i = (if Get (AllocatableVector ni) i = 0 then 0 else Get vec i)"
proof -
  let ?f = "\<lambda>i v. if Get (AllocatableVector ni) (int i) = 0 then Set v (int i) 0 else v"
  have len: "length (fold ?f is v) = length v" for "is" v
    by (induction "is" arbitrary: v) auto
  have upto: "Get (fold ?f [0 ..< n] vec) i = (if 0 \<le> i \<and> i < int n \<and> Get (AllocatableVector ni) i = 0 then 0 else Get vec i)" for n
  proof (induction n)
    case (Suc n)
    then show ?case by (auto simp: Get_Set len)
  qed simp
  show ?thesis unfolding zeroUnallocatable_def upto by (auto simp: Get_def)
qed

lemma Get_singleGpu: "i \<noteq> GPUIndex \<Longrightarrow> Get (NewSingleGpuVector m) i = 0"
  by (simp add: NewSingleGpuVector_def Get_Set)

lemma addShared_vectors:
  "i \<noteq> GPUIndex \<Longrightarrow> Get (bookVector k (addSharedGPUTaskResourcesPerPodGroup task ni g)) i = Get (bookVector k ni) i"
  by (cases k) (simp_all add: shared_defs Let_def Get_singleGpu)

lemma removeShared_vectors:
  "i \<noteq> GPUIndex \<Longrightarrow> Get (bookVector k (removeSharedTaskResourcesPerPodGroup task ni g)) i = Get (bookVector k ni) i"
  by (cases k) (simp_all add: shared_defs Let_def Get_singleGpu)

lemma foldl_vectors:
  assumes "\<And>ni g. Get (bookVector k (f ni g)) i = Get (bookVector k ni) i"
  shows "Get (bookVector k (foldl f ni gs)) i = Get (bookVector k ni) i"
  using assms by (induction gs arbitrary: ni) auto

fun vectorSign :: "book \<Rightarrow> PodStatus \<Rightarrow> float64" where
  "vectorSign AllocatedBook st = - of_int (bookSign AllocatedBook st)"
| "vectorSign b st = of_int (bookSign b st)"

definition tracked :: "'aff NodeInfo \<Rightarrow> PodInfo \<Rightarrow> int \<Rightarrow> float64" where
  "tracked ni t i = (if Get (AllocatableVector ni) i = 0 then 0 else Get (AcceptedResourceVector t) i)"

lemma dedup_frame:
  assumes "dedupSharedDRAGpus ne ni task vec = (ni', vec')"
  shows "ni' = ni\<lparr>DRASharedDeviceRefCount := DRASharedDeviceRefCount ni'\<rparr>" "length vec' = length vec"
    "i \<noteq> GPUIndex \<Longrightarrow> Get vec' i = Get vec i"
  using assms by (auto simp: dedupSharedDRAGpus_def Let_def Get_Set split: prod.splits if_splits)

lemma release_frame:
  assumes "releaseSharedDRAGpus ne ni task vec = (ni', vec')"
  shows "ni' = ni\<lparr>DRASharedDeviceRefCount := DRASharedDeviceRefCount ni'\<rparr>" "length vec' = length vec"
    "i \<noteq> GPUIndex \<Longrightarrow> Get vec' i = Get vec i"
  using assms by (auto simp: releaseSharedDRAGpus_def Let_def Get_Set split: prod.splits if_splits)

text \<open>The two operations on resources, after the shared devices are settled.\<close>

definition chargeVector :: "'aff NodeInfo \<Rightarrow> PodStatus \<Rightarrow> ResourceVector \<Rightarrow> 'aff NodeInfo" where
  "chargeVector ni st vec =
     (let ni = ni\<lparr>UsedVector := Vector_Add (UsedVector ni) vec\<rparr>
      in if st = Releasing
         then ni\<lparr>ReleasingVector := Vector_Add (ReleasingVector ni) vec, IdleVector := Vector_Sub (IdleVector ni) vec\<rparr>
         else if st = Pipelined then ni\<lparr>ReleasingVector := Vector_Sub (ReleasingVector ni) vec\<rparr>
         else ni\<lparr>IdleVector := Vector_Sub (IdleVector ni) vec\<rparr>)"

definition dischargeVector :: "'aff NodeInfo \<Rightarrow> PodStatus \<Rightarrow> ResourceVector \<Rightarrow> 'aff NodeInfo" where
  "dischargeVector ni st vec =
     (let ni = ni\<lparr>UsedVector := Vector_Sub (UsedVector ni) vec\<rparr>
      in if st = Releasing
         then ni\<lparr>ReleasingVector := Vector_Sub (ReleasingVector ni) vec, IdleVector := Vector_Add (IdleVector ni) vec\<rparr>
         else if st = Pipelined then ni\<lparr>ReleasingVector := Vector_Add (ReleasingVector ni) vec\<rparr>
         else ni\<lparr>IdleVector := Vector_Add (IdleVector ni) vec\<rparr>)"

lemma addTaskResources_eq:
  "addTaskResources ne ni task =
     (case dedupSharedDRAGpus ne ni task (chargedVector ne task) of
        (ni', vec) \<Rightarrow> addSharedGPUTaskResources ne (chargeVector ni' (pod_Status task) (zeroUnallocatable ni' vec)) task)"
  unfolding addTaskResources_def chargedVector_def chargeVector_def Let_def ..

lemma removeTaskResources_eq:
  "removeTaskResources ne ni task =
     (case releaseSharedDRAGpus ne ni task (chargedVector ne task) of
        (ni', vec) \<Rightarrow> removeSharedTaskResources ne (dischargeVector ni' (pod_Status task) (zeroUnallocatable ni' vec)) task)"
  unfolding removeTaskResources_def chargedVector_def dischargeVector_def Let_def ..

lemma chargeVector_books [simp]:
  "memBook b (chargeVector ni st vec) = memBook b ni"
  "Get (bookVector b (chargeVector ni st vec)) i = Get (bookVector b ni) i + vectorSign b st * Get vec i"
  "memBook b (dischargeVector ni st vec) = memBook b ni"
  "Get (bookVector b (dischargeVector ni st vec)) i = Get (bookVector b ni) i - vectorSign b st * Get vec i"
  by (cases b; simp add: chargeVector_def dischargeVector_def Let_def)+

lemma chargeVector_frame [simp]:
  "DRASharedDeviceRefCount (chargeVector ni st vec) = DRASharedDeviceRefCount ni"
  "AllocatableVector (chargeVector ni st vec) = AllocatableVector ni"
  "MemoryOfEveryGpuOnNode (chargeVector ni st vec) = MemoryOfEveryGpuOnNode ni"
  "PodInfos (chargeVector ni st vec) = PodInfos ni" "ni_Node (chargeVector ni st vec) = ni_Node ni"
  "ni_VectorMap (chargeVector ni st vec) = ni_VectorMap ni"
  "DRASharedDeviceRefCount (dischargeVector ni st vec) = DRASharedDeviceRefCount ni"
  "AllocatableVector (dischargeVector ni st vec) = AllocatableVector ni"
  "MemoryOfEveryGpuOnNode (dischargeVector ni st vec) = MemoryOfEveryGpuOnNode ni"
  "PodInfos (dischargeVector ni st vec) = PodInfos ni" "ni_Node (dischargeVector ni st vec) = ni_Node ni"
  "ni_VectorMap (dischargeVector ni st vec) = ni_VectorMap ni"
  by (simp_all add: chargeVector_def dischargeVector_def Let_def)

lemma addSharedGPUTaskResources_rest:
  "sameFrame ni (addSharedGPUTaskResources ne ni task)"
  "i \<noteq> GPUIndex \<Longrightarrow> Get (bookVector b (addSharedGPUTaskResources ne ni task)) i = Get (bookVector b ni) i"
  by (simp_all add: addSharedGPUTaskResources_def foldl_frame addShared_frame foldl_vectors addShared_vectors)

lemma removeSharedTaskResources_rest:
  "sameFrame ni (removeSharedTaskResources ne ni task)"
  "i \<noteq> GPUIndex \<Longrightarrow> Get (bookVector b (removeSharedTaskResources ne ni task)) i = Get (bookVector b ni) i"
  by (simp_all add: removeSharedTaskResources_def foldl_frame removeShared_frame foldl_vectors removeShared_vectors)

subsection \<open>Device references\<close>

definition draRefs :: "'aff node_env \<Rightarrow> PodInfo \<Rightarrow> string \<Rightarrow> int" where
  "draRefs ne t d =
     (if Get (chargedVector ne t) GPUIndex > 0 then int (count_list (allocatedGPUDeviceKeys ne t) d) else 0)"

lemma dedup_refs:
  assumes "dedupSharedDRAGpus ne ni task (chargedVector ne task) = (ni', vec)"
  shows "gomap_get (DRASharedDeviceRefCount ni') d = gomap_get (DRASharedDeviceRefCount ni) d + draRefs ne task d"
proof -
  let ?f = "\<lambda>key (m, c). (AList.update key (gomap_get m key + 1) m, if gomap_get m key > 0 then c + 1 else c :: float64)"
  have "gomap_get (fst (fold ?f keys (m, c))) d = gomap_get m d + int (count_list keys d)" for keys m c
    by (induction keys arbitrary: m c) auto
  from this [of "allocatedGPUDeviceKeys ne task" "DRASharedDeviceRefCount ni" 0] show ?thesis
    using assms by (auto simp: dedupSharedDRAGpus_def draRefs_def Let_def split: prod.splits if_splits)
qed

lemma gomap_get_releaseDevice:
  "0 < gomap_get m k \<Longrightarrow> gomap_get (releaseDevice k m) d = gomap_get m d - (if d = k then 1 else 0)"
  by (auto simp: releaseDevice_def Let_def)

lemma release_refs:
  assumes "releaseSharedDRAGpus ne ni task (chargedVector ne task) = (ni', vec)"
    and "\<And>d. draRefs ne task d \<le> gomap_get (DRASharedDeviceRefCount ni) d"
  shows "gomap_get (DRASharedDeviceRefCount ni') d = gomap_get (DRASharedDeviceRefCount ni) d - draRefs ne task d"
proof -
  let ?f = "\<lambda>key (m, c). (releaseDevice key m, if gomap_get m key > 1 then c + 1 else c :: float64)"
  have fold: "gomap_get (fst (fold ?f keys (m, c))) d = gomap_get m d - int (count_list keys d)"
    if "\<And>d. int (count_list keys d) \<le> gomap_get m d" for keys m c
    using that
  proof (induction keys arbitrary: m c)
    case (Cons k keys)
    have k: "0 < gomap_get m k" using Cons.prems [of k] by (simp split: if_splits)
    have "int (count_list keys d) \<le> gomap_get (releaseDevice k m) d" for d
      using Cons.prems [of d] by (simp add: gomap_get_releaseDevice [OF k] split: if_splits)
    from Cons.IH [OF this] show ?case by (simp add: gomap_get_releaseDevice [OF k])
  qed simp
  show ?thesis
  proof (cases "Get (chargedVector ne task) GPUIndex > 0")
    case True
    then have "int (count_list (allocatedGPUDeviceKeys ne task) d) \<le> gomap_get (DRASharedDeviceRefCount ni) d" for d
      using assms(2) [of d] by (simp add: draRefs_def)
    from fold [OF this, of 0] show ?thesis
      using assms(1) True by (auto simp: releaseSharedDRAGpus_def draRefs_def Let_def split: prod.splits if_splits)
  qed (use assms(1) in \<open>simp add: releaseSharedDRAGpus_def draRefs_def Let_def\<close>)
qed

subsection \<open>The books are sums over tasks\<close>

definition node_sums :: "'aff node_env \<Rightarrow> 'aff NodeInfo \<Rightarrow> PodInfo list \<Rightarrow> bool" where
  "node_sums ne ni ts \<longleftrightarrow>
     (\<forall>b g. gomap_get (memBook b ni) g = int64_of (\<Sum>t\<leftarrow>ts. bookSign b (pod_Status t) * memOn ne ni t g)) \<and>
     (\<forall>b i. i \<noteq> GPUIndex \<longrightarrow> Get (bookVector b ni) i =
        (if b = AllocatedBook then Get (AllocatableVector ni) i else 0) + (\<Sum>t\<leftarrow>ts. vectorSign b (pod_Status t) * tracked ni t i)) \<and>
     (\<forall>d. gomap_get (DRASharedDeviceRefCount ni) d = (\<Sum>t\<leftarrow>ts. draRefs ne t d))"

lemma node_sumsD:
  assumes "node_sums ne ni ts"
  shows "gomap_get (memBook b ni) g = int64_of (\<Sum>t\<leftarrow>ts. bookSign b (pod_Status t) * memOn ne ni t g)"
    "i \<noteq> GPUIndex \<Longrightarrow> Get (bookVector b ni) i =
        (if b = AllocatedBook then Get (AllocatableVector ni) i else 0) + (\<Sum>t\<leftarrow>ts. vectorSign b (pod_Status t) * tracked ni t i)"
    "gomap_get (DRASharedDeviceRefCount ni) d = (\<Sum>t\<leftarrow>ts. draRefs ne t d)"
  using assms unfolding node_sums_def by blast+

lemma node_sums_mset: "mset ts = mset ts' \<Longrightarrow> node_sums ne ni ts = node_sums ne ni ts'"
  by (simp only: node_sums_def sum_list_mset_eq [of ts ts'])

lemma memOn_frame: "MemoryOfEveryGpuOnNode ni' = MemoryOfEveryGpuOnNode ni \<Longrightarrow> memOn ne ni' t g = memOn ne ni t g"
  by (simp add: memOn_def GetResourceGpuMemory_def)

lemma tracked_frame: "AllocatableVector ni' = AllocatableVector ni \<Longrightarrow> tracked ni' t i = tracked ni t i"
  by (simp add: tracked_def)

text \<open>Fields that the sums do not read.\<close>

lemma node_sums_upd [simp]:
  "node_sums ne (ni\<lparr>PodInfos := ps\<rparr>) ts = node_sums ne ni ts"
  "node_sums ne (ni\<lparr>LegacyMIGTasks := ls\<rparr>) ts = node_sums ne ni ts"
  "node_sums ne (ni\<lparr>PodAffinityInfo := a\<rparr>) ts = node_sums ne ni ts"
proof -
  have mb: "memBook b (ni\<lparr>PodInfos := ps\<rparr>) = memBook b ni" "memBook b (ni\<lparr>LegacyMIGTasks := ls\<rparr>) = memBook b ni"
    "memBook b (ni\<lparr>PodAffinityInfo := a\<rparr>) = memBook b ni"
    "bookVector b (ni\<lparr>PodInfos := ps\<rparr>) = bookVector b ni" "bookVector b (ni\<lparr>LegacyMIGTasks := ls\<rparr>) = bookVector b ni"
    "bookVector b (ni\<lparr>PodAffinityInfo := a\<rparr>) = bookVector b ni" for b
    by (cases b; simp)+
  have fr: "memOn ne (ni\<lparr>PodInfos := ps\<rparr>) = memOn ne ni" "memOn ne (ni\<lparr>LegacyMIGTasks := ls\<rparr>) = memOn ne ni"
    "memOn ne (ni\<lparr>PodAffinityInfo := a\<rparr>) = memOn ne ni" "tracked (ni\<lparr>PodInfos := ps\<rparr>) = tracked ni"
    "tracked (ni\<lparr>LegacyMIGTasks := ls\<rparr>) = tracked ni" "tracked (ni\<lparr>PodAffinityInfo := a\<rparr>) = tracked ni"
    by (simp_all add: fun_eq_iff memOn_def tracked_def GetResourceGpuMemory_def)
  show "node_sums ne (ni\<lparr>PodInfos := ps\<rparr>) ts = node_sums ne ni ts"
    "node_sums ne (ni\<lparr>LegacyMIGTasks := ls\<rparr>) ts = node_sums ne ni ts"
    "node_sums ne (ni\<lparr>PodAffinityInfo := a\<rparr>) ts = node_sums ne ni ts"
    unfolding node_sums_def
    by (simp_all add: mb fr)
qed

text \<open>One pass over a task: with sign 1 it is added to the sums, with sign -1 it is taken out.\<close>

lemma node_sums_step:
  assumes old: "node_sums ne ni ts"
    and frame: "MemoryOfEveryGpuOnNode ni' = MemoryOfEveryGpuOnNode ni" "AllocatableVector ni' = AllocatableVector ni"
    and mem: "\<And>b g x. gomap_get (memBook b ni) g = int64_of x \<Longrightarrow>
        gomap_get (memBook b ni') g = int64_of (x + sg * (bookSign b (pod_Status t) * memOn ne ni t g))"
    and vec: "\<And>b i. i \<noteq> GPUIndex \<Longrightarrow>
        Get (bookVector b ni') i = Get (bookVector b ni) i + of_int sg * (vectorSign b (pod_Status t) * tracked ni t i)"
    and dra: "\<And>d. gomap_get (DRASharedDeviceRefCount ni') d = gomap_get (DRASharedDeviceRefCount ni) d + sg * draRefs ne t d"
    and int_sums: "\<And>f. (\<Sum>t\<leftarrow>ts'. (f t :: int)) = (\<Sum>t\<leftarrow>ts. f t) + sg * f t"
    and rat_sums: "\<And>f. (\<Sum>t\<leftarrow>ts'. (f t :: float64)) = (\<Sum>t\<leftarrow>ts. f t) + of_int sg * f t"
  shows "node_sums ne ni' ts'"
  unfolding node_sums_def
proof (intro conjI allI impI)
  fix b g d and i :: int
  show "gomap_get (memBook b ni') g = int64_of (\<Sum>t\<leftarrow>ts'. bookSign b (pod_Status t) * memOn ne ni' t g)"
    using mem [OF node_sumsD(1) [OF old]] by (simp add: int_sums memOn_frame [OF frame(1)])
  show "gomap_get (DRASharedDeviceRefCount ni') d = (\<Sum>t\<leftarrow>ts'. draRefs ne t d)"
    by (simp add: dra int_sums node_sumsD(3) [OF old])
  show "Get (bookVector b ni') i = (if b = AllocatedBook then Get (AllocatableVector ni') i else 0) +
      (\<Sum>t\<leftarrow>ts'. vectorSign b (pod_Status t) * tracked ni' t i)" if "i \<noteq> GPUIndex"
    using vec [OF that, of b] node_sumsD(2) [OF old that, of b] by (simp add: rat_sums tracked_frame [OF frame(2)] frame(2))
qed

lemma addTaskResources_frame:
  "AllocatableVector (addTaskResources ne ni t) = AllocatableVector ni"
  "MemoryOfEveryGpuOnNode (addTaskResources ne ni t) = MemoryOfEveryGpuOnNode ni"
  "PodInfos (addTaskResources ne ni t) = PodInfos ni"
  "ni_Node (addTaskResources ne ni t) = ni_Node ni"
  "ni_VectorMap (addTaskResources ne ni t) = ni_VectorMap ni"
proof -
  obtain ni1 vec where d: "dedupSharedDRAGpus ne ni t (chargedVector ne t) = (ni1, vec)" by fastforce
  note 1 = dedup_frame(1) [OF d]
  note 2 = addSharedGPUTaskResources_rest(1) [of "chargeVector ni1 (pod_Status t) (zeroUnallocatable ni1 vec)" ne t]
  show "AllocatableVector (addTaskResources ne ni t) = AllocatableVector ni"
    "MemoryOfEveryGpuOnNode (addTaskResources ne ni t) = MemoryOfEveryGpuOnNode ni"
    "PodInfos (addTaskResources ne ni t) = PodInfos ni"
    "ni_Node (addTaskResources ne ni t) = ni_Node ni"
    "ni_VectorMap (addTaskResources ne ni t) = ni_VectorMap ni"
    using 2 by (simp_all add: addTaskResources_eq d sameFrame_def) (subst 1, simp)+
qed

lemma removeTaskResources_frame:
  "AllocatableVector (removeTaskResources ne ni t) = AllocatableVector ni"
  "MemoryOfEveryGpuOnNode (removeTaskResources ne ni t) = MemoryOfEveryGpuOnNode ni"
  "PodInfos (removeTaskResources ne ni t) = PodInfos ni"
  "ni_Node (removeTaskResources ne ni t) = ni_Node ni"
  "ni_VectorMap (removeTaskResources ne ni t) = ni_VectorMap ni"
proof -
  obtain ni1 vec where d: "releaseSharedDRAGpus ne ni t (chargedVector ne t) = (ni1, vec)" by fastforce
  note 1 = release_frame(1) [OF d]
  note 2 = removeSharedTaskResources_rest(1) [of "dischargeVector ni1 (pod_Status t) (zeroUnallocatable ni1 vec)" ne t]
  show "AllocatableVector (removeTaskResources ne ni t) = AllocatableVector ni"
    "MemoryOfEveryGpuOnNode (removeTaskResources ne ni t) = MemoryOfEveryGpuOnNode ni"
    "PodInfos (removeTaskResources ne ni t) = PodInfos ni"
    "ni_Node (removeTaskResources ne ni t) = ni_Node ni"
    "ni_VectorMap (removeTaskResources ne ni t) = ni_VectorMap ni"
    using 2 by (simp_all add: removeTaskResources_eq d sameFrame_def) (subst 1, simp)+
qed

lemmas resources_frame = addTaskResources_frame removeTaskResources_frame

lemma books_DRA_upd:
  "memBook b (ni\<lparr>DRASharedDeviceRefCount := c\<rparr>) = memBook b ni" "bookVector b (ni\<lparr>DRASharedDeviceRefCount := c\<rparr>) = bookVector b ni"
  by (cases b; simp)+

lemma addTaskResources_sums:
  assumes "node_sums ne ni ts"
  shows "node_sums ne (addTaskResources ne ni t) (t # ts)"
proof -
  obtain ni1 vec where d: "dedupSharedDRAGpus ne ni t (chargedVector ne t) = (ni1, vec)" by fastforce
  define ni2 where "ni2 = chargeVector ni1 (pod_Status t) (zeroUnallocatable ni1 vec)"
  note eq = dedup_frame(1) [OF d]
  have res: "addTaskResources ne ni t = addSharedGPUTaskResources ne ni2 t" by (simp add: addTaskResources_eq d ni2_def)
  have mb: "memBook b ni2 = memBook b ni" for b unfolding ni2_def by (subst eq) (simp add: books_DRA_upd)
  have mo: "memOn ne ni2 t g = memOn ne ni t g" for g
    unfolding ni2_def by (rule memOn_frame, subst eq) simp
  have bv: "bookVector b ni1 = bookVector b ni" for b by (subst eq) (simp add: books_DRA_upd)
  have al: "AllocatableVector ni1 = AllocatableVector ni" by (subst eq) simp
  show ?thesis
  proof (rule node_sums_step [where sg = 1 and t = t, OF assms])
    show "gomap_get (memBook b (addTaskResources ne ni t)) g = int64_of (x + 1 * (bookSign b (pod_Status t) * memOn ne ni t g))"
      if "gomap_get (memBook b ni) g = int64_of x" for b g x
      using addSharedGPUTaskResources_book [of b ni2 g x ne t] that by (simp add: res mb mo)
    show "Get (bookVector b (addTaskResources ne ni t)) i = Get (bookVector b ni) i + of_int 1 * (vectorSign b (pod_Status t) * tracked ni t i)"
      if "i \<noteq> GPUIndex" for b i
      using dedup_frame(3) [OF d that] that
      by (simp add: res addSharedGPUTaskResources_rest(2) ni2_def bv Get_zeroUnallocatable al tracked_def Get_chargedVector)
    show "gomap_get (DRASharedDeviceRefCount (addTaskResources ne ni t)) dv = gomap_get (DRASharedDeviceRefCount ni) dv + 1 * draRefs ne t dv" for dv
      using addSharedGPUTaskResources_rest(1) [of ni2 ne t] dedup_refs [OF d] by (simp add: res sameFrame_def ni2_def)
  qed (simp_all add: resources_frame)
qed

lemma draRefs_nonneg [simp]: "0 \<le> draRefs ne t d"
  by (simp add: draRefs_def)

lemma removeTaskResources_sums:
  assumes sums: "node_sums ne ni ts" and ts: "mset ts = add_mset t (mset ts')"
  shows "node_sums ne (removeTaskResources ne ni t) ts'"
proof -
  have split: "(\<Sum>t\<leftarrow>ts. f t) = f t + (\<Sum>t\<leftarrow>ts'. f t)" for f :: "PodInfo \<Rightarrow> 'n :: ab_group_add"
    using sum_list_mset_eq [of ts "t # ts'" f] ts by simp
  obtain ni1 vec where d: "releaseSharedDRAGpus ne ni t (chargedVector ne t) = (ni1, vec)" by fastforce
  define ni2 where "ni2 = dischargeVector ni1 (pod_Status t) (zeroUnallocatable ni1 vec)"
  note eq = release_frame(1) [OF d]
  have res: "removeTaskResources ne ni t = removeSharedTaskResources ne ni2 t" by (simp add: removeTaskResources_eq d ni2_def)
  have mb: "memBook b ni2 = memBook b ni" for b unfolding ni2_def by (subst eq) (simp add: books_DRA_upd)
  have mo: "memOn ne ni2 t g = memOn ne ni t g" for g
    unfolding ni2_def by (rule memOn_frame, subst eq) simp
  have bv: "bookVector b ni1 = bookVector b ni" for b by (subst eq) (simp add: books_DRA_upd)
  have al: "AllocatableVector ni1 = AllocatableVector ni" by (subst eq) simp
  have refs: "draRefs ne t d \<le> gomap_get (DRASharedDeviceRefCount ni) d" for d
  proof -
    have "0 \<le> (\<Sum>t\<leftarrow>ts'. draRefs ne t d)" by (rule sum_list_nonneg) auto
    then show ?thesis using node_sumsD(3) [OF sums, of d] split [of "\<lambda>t. draRefs ne t d"] by simp
  qed
  show ?thesis
  proof (rule node_sums_step [where sg = "- 1" and t = t, OF sums])
    show "gomap_get (memBook b (removeTaskResources ne ni t)) g = int64_of (x + - 1 * (bookSign b (pod_Status t) * memOn ne ni t g))"
      if "gomap_get (memBook b ni) g = int64_of x" for b g x
      using removeSharedTaskResources_book [of b ni2 g x ne t] that by (simp add: res mb mo)
    show "Get (bookVector b (removeTaskResources ne ni t)) i =
        Get (bookVector b ni) i + of_int (- 1) * (vectorSign b (pod_Status t) * tracked ni t i)" if "i \<noteq> GPUIndex" for b i
      using release_frame(3) [OF d that] that
      by (simp add: res removeSharedTaskResources_rest(2) ni2_def bv Get_zeroUnallocatable al tracked_def Get_chargedVector)
    show "gomap_get (DRASharedDeviceRefCount (removeTaskResources ne ni t)) dv =
        gomap_get (DRASharedDeviceRefCount ni) dv + - 1 * draRefs ne t dv" for dv
      using removeSharedTaskResources_rest(1) [of ni2 ne t] release_refs [OF d refs] by (simp add: res sameFrame_def ni2_def)
  qed (simp_all add: resources_frame split)
qed

subsection \<open>Sequences of operations\<close>

definition node_books :: "'aff node_env \<Rightarrow> 'aff NodeInfo \<Rightarrow> bool" where
  "node_books ne ni \<longleftrightarrow> ni_Node ni \<noteq> None \<and> wf_gomap (PodInfos ni) \<and> node_sums ne ni (map snd (PodInfos ni))"

lemma PodKey_setAccepted [simp]: "PodKey (setAcceptedResources ne ni t) = PodKey t"
  by (simp add: setAcceptedResources_def PodKey_def Let_def)

lemma mset_values_delete:
  "wf_gomap m \<Longrightarrow> map_of m k = Some v \<Longrightarrow> mset (map snd m) = add_mset v (mset (map snd (AList.delete k m)))"
proof (induction m)
  case (Cons e m)
  obtain k' v' where e: "e = (k', v')" by (cases e)
  show ?case
  proof (cases "k' = k")
    case True
    then have "map_of m k = None" using Cons.prems(1) e by (auto simp: wf_gomap_def map_of_eq_None_iff)
    then show ?thesis using True Cons.prems(2) e by (simp add: AList_delete_absent)
  qed (use Cons e in \<open>simp add: wf_gomap_def add_mset_commute\<close>)
qed simp

text \<open>Adding: the error leaves the books alone; without one the stored copy is charged.\<close>

lemma AddTask_shape:
  assumes "AddTask ne ni caps task = (ni', caps', task', err)" and "ni_Node ni \<noteq> None"
  shows "task' = setAcceptedResources ne ni task"
    and "map_of (PodInfos ni) (PodKey task) \<noteq> None \<Longrightarrow> ni' = ni \<and> caps' = caps \<and> err \<noteq> None"
    and "map_of (PodInfos ni) (PodKey task) = None \<Longrightarrow> err = None \<and>
      (\<exists>ls aff. ni' = (addTaskResources ne (ni\<lparr>PodInfos := AList.update (PodKey task) task' (PodInfos ni), LegacyMIGTasks := ls\<rparr>) task')
          \<lparr>PodAffinityInfo := aff\<rparr>)"
proof -
  let ?t = "setAcceptedResources ne ni task"
  let ?ni1 = "ni\<lparr>PodInfos := AList.update (PodKey task) ?t (PodInfos ni)\<rparr>"
  let ?ls = "if IsLegacyMIGtask ?t then AList.update (pod_UID ?t) (PodKey task) (LegacyMIGTasks ni) else LegacyMIGTasks ni"
  let ?ni3 = "addTaskResources ne (?ni1\<lparr>LegacyMIGTasks := ?ls\<rparr>) ?t"
  have legacy: "(if IsLegacyMIGtask ?t then ?ni1\<lparr>LegacyMIGTasks := AList.update (pod_UID ?t) (PodKey task) (LegacyMIGTasks ?ni1)\<rparr> else ?ni1) =
      ?ni1\<lparr>LegacyMIGTasks := ?ls\<rparr>"
    by simp
  have r: "AddTask ne ni caps task =
    (if map_of (PodInfos ni) (PodKey task) \<noteq> None then (ni, caps, ?t, Some (TaskAlreadyOnNode (PodKey task) (ni_Name ni)))
     else (?ni3\<lparr>PodAffinityInfo := if excludedFromPodAffinity ?t then PodAffinityInfo ?ni3 else AddPod ne (PodAffinityInfo ?ni3) ?t\<rparr>,
           addTaskStorage ?ni3 ?t caps, ?t, None))"
    using assms(2) unfolding AddTask_def addTask_def Let_def by (simp del: not_None_eq add: legacy)
  show "task' = ?t" "map_of (PodInfos ni) (PodKey task) \<noteq> None \<Longrightarrow> ni' = ni \<and> caps' = caps \<and> err \<noteq> None"
    using r assms(1) by (simp_all split: if_split_asm)
  show "err = None \<and>
      (\<exists>ls aff. ni' = (addTaskResources ne (ni\<lparr>PodInfos := AList.update (PodKey task) task' (PodInfos ni), LegacyMIGTasks := ls\<rparr>) task')
          \<lparr>PodAffinityInfo := aff\<rparr>)" if "map_of (PodInfos ni) (PodKey task) = None"
    using r assms(1) that by (simp only: not_True_eq_False if_False prod.inject simp_thms) blast
qed

lemma RemoveTask_shape:
  assumes "RemoveTask ne ni caps ti = (ni', caps', err)" and "ni_Node ni \<noteq> None"
  shows "map_of (PodInfos ni) (PodKey ti) = None \<Longrightarrow> ni' = ni \<and> caps' = caps \<and> err \<noteq> None"
    and "map_of (PodInfos ni) (PodKey ti) = Some t \<Longrightarrow>
      \<exists>aff. ni' = (removeTaskResources ne (ni\<lparr>PodInfos := AList.delete (PodKey ti) (PodInfos ni)\<rparr>) t)\<lparr>PodAffinityInfo := aff\<rparr>"
proof -
  show "map_of (PodInfos ni) (PodKey ti) = None \<Longrightarrow> ni' = ni \<and> caps' = caps \<and> err \<noteq> None"
    using assms by (auto simp: RemoveTask_def Let_def)
  let ?ni1 = "ni\<lparr>PodInfos := AList.delete (PodKey ti) (PodInfos ni)\<rparr>"
  let ?ni2 = "removeTaskResources ne ?ni1 t"
  assume t: "map_of (PodInfos ni) (PodKey ti) = Some t"
  have "RemoveTask ne ni caps ti =
    (if excludedFromPodAffinity t then (?ni2, removeTaskStorage ?ni1 t caps, None)
     else case RemovePod ne (PodAffinityInfo ?ni2) t of
       (aff, err) \<Rightarrow> (?ni2\<lparr>PodAffinityInfo := aff\<rparr>, removeTaskStorage ?ni1 t caps, map_option AffinityError err))"
    using t assms(2) by (simp add: RemoveTask_def Let_def del: not_None_eq)
  then have "ni' = ?ni2\<lparr>PodAffinityInfo := PodAffinityInfo ?ni2\<rparr> \<or> (\<exists>aff. ni' = ?ni2\<lparr>PodAffinityInfo := aff\<rparr>)"
    using assms(1) by (auto split: if_split_asm prod.splits)
  then show "\<exists>aff. ni' = ?ni2\<lparr>PodAffinityInfo := aff\<rparr>" by blast
qed

text \<open>The operations that other components call, as a sequence; errors are returned to the caller, who may go on.\<close>

datatype node_op = OpAdd PodInfo | OpRemove PodInfo | OpUpdate PodInfo

fun runNodeOp :: "'aff node_env \<Rightarrow> 'aff NodeInfo \<times> capStore \<Rightarrow> node_op \<Rightarrow> 'aff NodeInfo \<times> capStore" where
  "runNodeOp ne (ni, caps) (OpAdd t) = (let (ni, caps, _, _) = AddTask ne ni caps t in (ni, caps))"
| "runNodeOp ne (ni, caps) (OpRemove t) = (let (ni, caps, _) = RemoveTask ne ni caps t in (ni, caps))"
| "runNodeOp ne (ni, caps) (OpUpdate t) = (let (ni, caps, _, _) = UpdateTask ne ni caps t in (ni, caps))"

lemma AddTask_books:
  assumes "AddTask ne ni caps t = (ni', caps', t', err)" and "node_books ne ni"
  shows "node_books ne ni'"
proof -
  have n: "ni_Node ni \<noteq> None" "wf_gomap (PodInfos ni)" "node_sums ne ni (map snd (PodInfos ni))"
    using assms(2) by (simp_all add: node_books_def del: not_None_eq)
  note a = AddTask_shape [OF assms(1) n(1)]
  show ?thesis
  proof (cases "map_of (PodInfos ni) (PodKey t)")
    case None
    then obtain ls aff where ni': "ni' = (addTaskResources ne (ni\<lparr>PodInfos := AList.update (PodKey t) t' (PodInfos ni), LegacyMIGTasks := ls\<rparr>) t')
        \<lparr>PodAffinityInfo := aff\<rparr>"
      using a(3) by blast
    have ms: "mset (map snd (AList.update (PodKey t) t' (PodInfos ni))) = mset (t' # map snd (PodInfos ni))"
      using None by (simp add: AList_update_new)
    show ?thesis
      using n addTaskResources_sums [of ne "ni\<lparr>PodInfos := AList.update (PodKey t) t' (PodInfos ni), LegacyMIGTasks := ls\<rparr>"
          "map snd (PodInfos ni)" t']
      unfolding node_books_def ni' by (simp add: resources_frame node_sums_mset [OF ms] del: not_None_eq)
  next
    case (Some s)
    then show ?thesis using a(2) assms(2) by simp
  qed
qed

lemma RemoveTask_books:
  assumes "RemoveTask ne ni caps t = (ni', caps', err)" and "node_books ne ni"
  shows "node_books ne ni'"
proof -
  have n: "ni_Node ni \<noteq> None" "wf_gomap (PodInfos ni)" "node_sums ne ni (map snd (PodInfos ni))"
    using assms(2) by (simp_all add: node_books_def del: not_None_eq)
  note r = RemoveTask_shape [OF assms(1) n(1)]
  show ?thesis
  proof (cases "map_of (PodInfos ni) (PodKey t)")
    case None
    then show ?thesis using r(1) assms(2) by simp
  next
    case (Some s)
    then obtain aff where ni': "ni' = (removeTaskResources ne (ni\<lparr>PodInfos := AList.delete (PodKey t) (PodInfos ni)\<rparr>) s)\<lparr>PodAffinityInfo := aff\<rparr>"
      using r(2) by blast
    show ?thesis
      using n removeTaskResources_sums [of ne "ni\<lparr>PodInfos := AList.delete (PodKey t) (PodInfos ni)\<rparr>", OF _ mset_values_delete [OF n(2) Some]]
      unfolding node_books_def ni' by (simp add: resources_frame del: not_None_eq)
  qed
qed

lemma UpdateTask_books:
  assumes "UpdateTask ne ni caps t = (ni', caps', t', err)" and "node_books ne ni"
  shows "node_books ne ni'"
proof -
  obtain ni1 caps1 err1 where r: "RemoveTask ne ni caps t = (ni1, caps1, err1)" by (metis prod_cases3)
  note b = RemoveTask_books [OF r assms(2)]
  show ?thesis
  proof (cases err1)
    case None
    then have "AddTask ne ni1 caps1 t = (ni', caps', t', err)" using assms(1) r by (simp add: UpdateTask_def AddTask_def)
    then show ?thesis using AddTask_books b by blast
  qed (use assms(1) r b in \<open>simp add: UpdateTask_def\<close>)
qed

lemma runNodeOps_books:
  assumes "node_books ne ni"
  shows "node_books ne (fst (foldl (runNodeOp ne) (ni, caps) ops))"
  using assms
proof (induction ops arbitrary: ni caps)
  case (Cons op ops)
  obtain ni1 caps1 where r: "runNodeOp ne (ni, caps) op = (ni1, caps1)" by fastforce
  then have "node_books ne ni1"
    using Cons.prems AddTask_books RemoveTask_books UpdateTask_books by (cases op) (auto simp: Let_def split: prod.splits)
  then show ?case using Cons.IH r by simp
qed simp

lemma NewNodeInfo_fields:
  assumes "ni = NewNodeInfo ne sn isc isz mv vl name ls alloc aff vm"
  shows "PodInfos ni = []" "ni_Node ni = Some ls" "ni_VectorMap ni = vm" "IdleVector ni = AllocatableVector ni"
    "UsedVector ni = NewResourceVector vm" "ReleasingVector ni = NewResourceVector vm" "memBook b ni = []"
    "DRASharedDeviceRefCount ni = []" "ReleasingSharedGPUs ni = []" "length (AllocatableVector ni) = length (resourceNames vm)"
  unfolding assms by (cases b; simp add: NewNodeInfo_def Let_def split: prod.split)+

lemma NewNodeInfo_books:
  "node_books ne (NewNodeInfo ne sn isc isz mv vl name ls alloc aff vm)" (is "node_books ne ?ni")
proof -
  have "Get (bookVector b ?ni) i = (if b = AllocatedBook then Get (AllocatableVector ?ni) i else 0)" for b i
    by (cases b) (simp_all add: NewNodeInfo_fields [OF refl])
  moreover have "int64_of 0 = 0" by (simp add: int64_of_mod)
  ultimately show ?thesis by (simp add: node_books_def node_sums_def NewNodeInfo_fields [OF refl])
qed

text \<open>The same, with the signs written out.\<close>

lemma node_sums_explicit:
  assumes "node_sums ne ni ts"
  shows "gomap_get (UsedSharedGPUsMemory ni) g = int64_of (\<Sum>t\<leftarrow>ts. memOn ne ni t g)"
    "gomap_get (AllocatedSharedGPUsMemory ni) g = int64_of (\<Sum>t\<leftarrow>ts. (if pod_Status t = Pipelined then 0 else memOn ne ni t g))"
    "gomap_get (ReleasingSharedGPUsMemory ni) g =
       int64_of (\<Sum>t\<leftarrow>ts. (if pod_Status t = Releasing then memOn ne ni t g
                      else if pod_Status t = Pipelined then - memOn ne ni t g else 0))"
    "i \<noteq> GPUIndex \<Longrightarrow> Get (UsedVector ni) i = (\<Sum>t\<leftarrow>ts. tracked ni t i)"
    "i \<noteq> GPUIndex \<Longrightarrow> Get (IdleVector ni) i =
       Get (AllocatableVector ni) i - (\<Sum>t\<leftarrow>ts. (if pod_Status t = Pipelined then 0 else tracked ni t i))"
    "i \<noteq> GPUIndex \<Longrightarrow> Get (ReleasingVector ni) i = (\<Sum>t\<leftarrow>ts. (if pod_Status t = Releasing then tracked ni t i
                      else if pod_Status t = Pipelined then - tracked ni t i else 0))"
proof -
  have sg: "bookSign AllocatedBook (pod_Status t) * x = (if pod_Status t = Pipelined then 0 else x)"
    "bookSign ReleasingBook (pod_Status t) * x = (if pod_Status t = Releasing then x else if pod_Status t = Pipelined then - x else 0)"
    "vectorSign AllocatedBook (pod_Status t) * y = - (if pod_Status t = Pipelined then 0 else y)"
    "vectorSign ReleasingBook (pod_Status t) * y = (if pod_Status t = Releasing then y else if pod_Status t = Pipelined then - y else 0)"
    for t x y by simp_all
  note D = node_sumsD [OF assms]
  show "gomap_get (UsedSharedGPUsMemory ni) g = int64_of (\<Sum>t\<leftarrow>ts. memOn ne ni t g)" using D(1) [of UsedBook] by simp
  show "gomap_get (AllocatedSharedGPUsMemory ni) g = int64_of (\<Sum>t\<leftarrow>ts. (if pod_Status t = Pipelined then 0 else memOn ne ni t g))"
    using D(1) [of AllocatedBook g] by (simp only: sg memBook.simps)
  show "gomap_get (ReleasingSharedGPUsMemory ni) g =
       int64_of (\<Sum>t\<leftarrow>ts. (if pod_Status t = Releasing then memOn ne ni t g
                      else if pod_Status t = Pipelined then - memOn ne ni t g else 0))"
    using D(1) [of ReleasingBook g] by (simp only: sg memBook.simps)
  assume i: "i \<noteq> GPUIndex"
  show "Get (UsedVector ni) i = (\<Sum>t\<leftarrow>ts. tracked ni t i)" using D(2) [OF i, of UsedBook] by simp
  show "Get (IdleVector ni) i = Get (AllocatableVector ni) i - (\<Sum>t\<leftarrow>ts. (if pod_Status t = Pipelined then 0 else tracked ni t i))"
    using D(2) [OF i, of AllocatedBook] by (simp only: sg bookVector.simps uminus_sum_list_map [symmetric, unfolded comp_def]) simp
  show "Get (ReleasingVector ni) i = (\<Sum>t\<leftarrow>ts. (if pod_Status t = Releasing then tracked ni t i
                      else if pod_Status t = Pipelined then - tracked ni t i else 0))"
    using D(2) [OF i, of ReleasingBook] by (simp only: sg bookVector.simps) simp
qed


end
