(* ===== verification/Node_Gpus.thy ===== *)
theory Node_Gpus
  imports Node_Laws
begin

text \<open>
  The GPU entries of a node's vectors. A shared GPU is one whole GPU for the vectors: it leaves the idle vector with the
  first task on it, counts as releasing while all tasks on it are, and comes back with the last one. The code finds these
  moments by comparing memory amounts and by counting GPUs; the theory shows that, for tasks that are not pipelined and
  use no DRA devices, the entries are exactly what these counts mean, after any sequence of operations. It then gives the
  cases where the accounting of the code does not return to where it started.
\<close>

subsection \<open>Counting shared GPUs\<close>

abbreviation used_on :: "'aff NodeInfo \<Rightarrow> string \<Rightarrow> int" where
  "used_on ni g \<equiv> gomap_get (UsedSharedGPUsMemory ni) g"

abbreviation releasing_on :: "'aff NodeInfo \<Rightarrow> string \<Rightarrow> int" where
  "releasing_on ni g \<equiv> gomap_get (ReleasingSharedGPUsMemory ni) g"

definition sharedUsed :: "'aff NodeInfo \<Rightarrow> string set" where
  "sharedUsed ni = {g. 0 < used_on ni g}"

definition fullyReleasing :: "'aff NodeInfo \<Rightarrow> string set" where
  "fullyReleasing ni = {g. 0 < used_on ni g \<and> releasing_on ni g = used_on ni g}"

lemma finite_positive: "finite {g. 0 < gomap_get m g}"
proof (rule finite_subset)
  show "{g. 0 < gomap_get m g} \<subseteq> fst ` set m"
    by (auto simp: gomap_get_def split: option.splits dest: map_of_SomeD intro: rev_image_eqI)
qed simp

lemma finite_shared [simp]: "finite (sharedUsed ni)" "finite (fullyReleasing ni)"
proof -
  show "finite (sharedUsed ni)" by (simp add: sharedUsed_def finite_positive)
  then show "finite (fullyReleasing ni)" by (rule rev_finite_subset) (auto simp: sharedUsed_def fullyReleasing_def)
qed

lemma count_if_card:
  assumes "wf_gomap m"
  shows "count_if (\<lambda>(_, v). v > 0) m = int (card {g. 0 < gomap_get m g})"
  using assms
proof (induction m)
  case Nil
  then show ?case by simp
next
  case (Cons e m)
  obtain k v where e: "e = (k, v)" by (cases e)
  have k: "map_of m k = None" and wf: "wf_gomap m" using Cons.prems e by (auto simp: wf_gomap_def map_of_eq_None_iff)
  have "{g. 0 < gomap_get (e # m) g} = (if 0 < v then insert k {g. 0 < gomap_get m g} else {g. 0 < gomap_get m g})"
    using k e by (auto simp: gomap_get_def split: option.splits)
  moreover have "k \<notin> {g. 0 < gomap_get m g}" using k by (simp add: gomap_get_def)
  ultimately show ?case using Cons.IH [OF wf] e by (simp add: finite_positive)
qed

lemma getNumberOfUsedSharedGPUs_card:
  "wf_gomap (UsedSharedGPUsMemory ni) \<Longrightarrow> getNumberOfUsedSharedGPUs ni = int (card (sharedUsed ni))"
  by (simp add: getNumberOfUsedSharedGPUs_def sharedUsed_def count_if_card)

lemma trunc_of_int [simp]: "int64_trunc (of_int n) = n"
  by (simp add: int64_trunc_def)

definition numbersAgree :: "'aff NodeInfo \<Rightarrow> bool" where
  "numbersAgree ni \<longleftrightarrow> of_int (GetNumberOfGPUsInNode ni) = Get (AllocatableVector ni) GPUIndex"

abbreviation gpu_of :: "ResourceVector \<Rightarrow> float64" where
  "gpu_of v \<equiv> Get v GPUIndex"

lemma overcounted_iff:
  assumes "wf_gomap (UsedSharedGPUsMemory ni)" and "gpu_of (IdleVector ni) \<in> \<int>" and "gpu_of (UsedVector ni) \<in> \<int>"
    and "numbersAgree ni"
  shows "idleGpuOvercounted ni \<longleftrightarrow>
    gpu_of (AllocatableVector ni) < gpu_of (IdleVector ni) + gpu_of (UsedVector ni) + of_nat (card (sharedUsed ni))"
proof -
  obtain a b where ab: "gpu_of (IdleVector ni) = of_int a" "gpu_of (UsedVector ni) = of_int b"
    using assms(2,3) by (auto elim!: Ints_cases)
  have "idleGpuOvercounted ni \<longleftrightarrow> GetNumberOfGPUsInNode ni < a + b + int (card (sharedUsed ni))"
    by (simp add: idleGpuOvercounted_def getNumberOfUsedGPUs_def ab getNumberOfUsedSharedGPUs_card [OF assms(1)] add.assoc)
  also have "\<dots> \<longleftrightarrow> of_int (GetNumberOfGPUsInNode ni) < (of_int (a + b + int (card (sharedUsed ni))) :: float64)"
    by (rule of_int_less_iff [symmetric])
  also have "\<dots> \<longleftrightarrow> gpu_of (AllocatableVector ni) < gpu_of (IdleVector ni) + gpu_of (UsedVector ni) + of_nat (card (sharedUsed ni))"
    using assms(4) by (simp add: ab numbersAgree_def)
  finally show ?thesis .
qed

subsection \<open>The state of the GPU entries\<close>

text \<open>\<open>w\<close> is the whole GPUs in use, \<open>c\<close> the whole GPUs being released.\<close>

definition gpu_state :: "'aff NodeInfo \<Rightarrow> float64 \<Rightarrow> float64 \<Rightarrow> bool" where
  "gpu_state ni w c \<longleftrightarrow>
     wf_gomap (UsedSharedGPUsMemory ni) \<and> (\<forall>g. 0 \<le> releasing_on ni g \<and> releasing_on ni g \<le> used_on ni g) \<and>
     (\<forall>g. isSharedGpuMarkedAsReleasing ni g \<longleftrightarrow> g \<in> fullyReleasing ni) \<and>
     numbersAgree ni \<and> gpu_of (NewSingleGpuVector (ni_VectorMap ni)) = 1 \<and> gpu_of (AllocatableVector ni) \<in> \<int> \<and> w \<in> \<int> \<and>
     gpu_of (UsedVector ni) = w \<and>
     gpu_of (IdleVector ni) = gpu_of (AllocatableVector ni) - w - of_nat (card (sharedUsed ni)) \<and>
     gpu_of (ReleasingVector ni) = c + of_nat (card (fullyReleasing ni))"

lemma wf_addScalar [simp]: "wf_gomap m \<Longrightarrow> wf_gomap (addScalar g v m)"
  by (simp add: addScalar_def)

lemma numbersAgree_frame: "sameFrame ni ni' \<Longrightarrow> numbersAgree ni' = numbersAgree ni"
  by (simp add: sameFrame_def numbersAgree_def GetNumberOfGPUsInNode_def getNodeGpuCountLabelValue_def cong: option.case_cong)

lemma set_add_positive:
  fixes u :: "string \<Rightarrow> int"
  assumes "finite {g. 0 < u g}" and "0 \<le> u g" and "0 < m"
  shows "card {h. 0 < (u(g := u g + m)) h} = card {h. 0 < u h} + (if u g = 0 then 1 else 0)"
proof -
  have "{h. 0 < (u(g := u g + m)) h} = insert g {h. 0 < u h}" using assms by auto
  then show ?thesis using assms by (simp add: card_insert_if)
qed

lemma overcounted_state:
  assumes "gpu_state ni w c" and "sameFrame ni ni'" and "wf_gomap (UsedSharedGPUsMemory ni')"
    and "IdleVector ni' = IdleVector ni"
  shows "idleGpuOvercounted ni' \<longleftrightarrow> card (sharedUsed ni) < card (sharedUsed ni')"
proof -
  have "gpu_of (AllocatableVector ni) - w - of_nat (card (sharedUsed ni)) \<in> \<int>"
    using assms(1) unfolding gpu_state_def by (intro Ints_diff) auto
  then have "idleGpuOvercounted ni' \<longleftrightarrow>
      gpu_of (AllocatableVector ni') < gpu_of (IdleVector ni') + gpu_of (UsedVector ni') + of_nat (card (sharedUsed ni'))"
    using assms numbersAgree_frame [OF assms(2)] by (intro overcounted_iff) (auto simp: gpu_state_def sameFrame_def)
  then show ?thesis using assms by (simp add: gpu_state_def sameFrame_def)
qed

text \<open>What one group contributes: the fields after the operation, for a task that is not pipelined.\<close>

lemma addShared_gpu_fields:
  assumes st: "gpu_state ni w c" and m: "m = GetResourceGpuMemory ni (GpuRequirement task)" "0 < m"
    and fits: "used_on ni g + m \<le> MaxInt64" and notp: "pod_Status task \<noteq> Pipelined"
  defines "ni' \<equiv> addSharedGPUTaskResourcesPerPodGroup task ni g"
  shows "used_on ni' h = used_on ni h + (if h = g then m else 0)"
    "releasing_on ni' h = releasing_on ni h + (if h = g \<and> pod_Status task = Releasing then m else 0)"
    "gpu_of (IdleVector ni') = gpu_of (IdleVector ni) - (if used_on ni g = 0 then 1 else 0)"
    "gpu_of (ReleasingVector ni') = gpu_of (ReleasingVector ni) +
       (if pod_Status task = Releasing then (if used_on ni g = 0 then 1 else 0) else if g \<in> fullyReleasing ni then - 1 else 0)"
    "isSharedGpuMarkedAsReleasing ni' h \<longleftrightarrow>
       (if h \<noteq> g then h \<in> fullyReleasing ni else pod_Status task = Releasing \<and> used_on ni g = releasing_on ni g)"
proof -
  have S: "0 \<le> releasing_on ni g" "releasing_on ni g \<le> used_on ni g" "gpu_of (NewSingleGpuVector (ni_VectorMap ni)) = 1"
    "\<And>h. isSharedGpuMarkedAsReleasing ni h \<longleftrightarrow> h \<in> fullyReleasing ni" "wf_gomap (UsedSharedGPUsMemory ni)"
    using st by (auto simp: gpu_state_def)
  have id: "int64_of (used_on ni g + m) = used_on ni g + m" "int64_of (releasing_on ni g + m) = releasing_on ni g + m" "int64_of m = m"
    using S fits m(2) by (auto intro!: int64_of_id simp: int64_range_def int64_defs)
  have u: "used_on ni' h = used_on ni h + (if h = g then m else 0)" for h
    using addShared_maps [of UsedBook task ni g] by (simp add: ni'_def gomap_get_addScalar id m(1) [symmetric])
  show "used_on ni' h = used_on ni h + (if h = g then m else 0)" by (rule u)
  show "releasing_on ni' h = releasing_on ni h + (if h = g \<and> pod_Status task = Releasing then m else 0)"
    using addShared_maps [of ReleasingBook task ni g] notp by (auto simp add: ni'_def gomap_get_addScalar id m(1) [symmetric])
  have ov: "idleGpuOvercounted x = (used_on ni g = 0)"
    if "sameFrame ni x" "UsedSharedGPUsMemory x = addScalar g m (UsedSharedGPUsMemory ni)" "IdleVector x = IdleVector ni" for x
  proof -
    have "sharedUsed x = insert g (sharedUsed ni)"
      using that(2) S(1,2) m(2) id(1) by (auto simp: sharedUsed_def gomap_get_addScalar)
    then have "card (sharedUsed x) = card (sharedUsed ni) + (if used_on ni g = 0 then 1 else 0)"
      using S(1,2) by (auto simp: card_insert_if sharedUsed_def finite_positive)
    then show ?thesis using overcounted_state [OF st that(1) _ that(3)] that(2) S(5) by simp
  qed
  have F: "g \<in> fullyReleasing ni \<longleftrightarrow> 0 < used_on ni g \<and> releasing_on ni g = used_on ni g" by (simp add: fullyReleasing_def)
  have mk: "isSharedGpuMarkedAsReleasing x h = (h \<in> fullyReleasing ni)" if "ReleasingSharedGPUs x = ReleasingSharedGPUs ni" for x h
    using S(4) that by (simp add: isSharedGpuMarkedAsReleasing_def)
  note eval = ni'_def addSharedGPUTaskResourcesPerPodGroup_def markSharedGpuAsReleasing_def unmarkSharedGpuAsReleasing_def
    Let_def m(1) [symmetric] ov sameFrame_def mk gomap_get_addScalar id S(3) notp F
  show "gpu_of (IdleVector ni') = gpu_of (IdleVector ni) - (if used_on ni g = 0 then 1 else 0)"
    using S(1,2) m(2) by (auto simp: eval)
  show "gpu_of (ReleasingVector ni') = gpu_of (ReleasingVector ni) +
       (if pod_Status task = Releasing then (if used_on ni g = 0 then 1 else 0) else if g \<in> fullyReleasing ni then - 1 else 0)"
    using S(1,2) m(2) by (auto simp: eval)
  have upd: "isSharedGpuMarkedAsReleasing x h = (h = g \<or> h \<in> fullyReleasing ni)"
    if "ReleasingSharedGPUs x = AList.update g True (ReleasingSharedGPUs ni)" for x h
    using S(4) [of h] that by (simp add: isSharedGpuMarkedAsReleasing_def)
  have del: "isSharedGpuMarkedAsReleasing x h = (h \<noteq> g \<and> h \<in> fullyReleasing ni)"
    if "ReleasingSharedGPUs x = AList.delete g (ReleasingSharedGPUs ni)" for x h
    using S(4) [of h] that by (simp add: isSharedGpuMarkedAsReleasing_def)
  show "isSharedGpuMarkedAsReleasing ni' h \<longleftrightarrow>
       (if h \<noteq> g then h \<in> fullyReleasing ni else pod_Status task = Releasing \<and> used_on ni g = releasing_on ni g)"
    using S(1,2,4) m(2) by (auto simp: eval upd del)
qed

lemma removeShared_gpu_fields:
  assumes st: "gpu_state ni w c" and m: "m = GetResourceGpuMemory ni (GpuRequirement task)" "0 < m"
    and has: "m \<le> (if pod_Status task = Releasing then releasing_on ni g else used_on ni g - releasing_on ni g)"
    and fits: "used_on ni g \<le> MaxInt64" and notp: "pod_Status task \<noteq> Pipelined"
  defines "ni' \<equiv> removeSharedTaskResourcesPerPodGroup task ni g"
  shows "used_on ni' h = used_on ni h - (if h = g then m else 0)"
    "releasing_on ni' h = releasing_on ni h - (if h = g \<and> pod_Status task = Releasing then m else 0)"
    "gpu_of (IdleVector ni') = gpu_of (IdleVector ni) + (if used_on ni g = m then 1 else 0)"
    "gpu_of (ReleasingVector ni') = gpu_of (ReleasingVector ni) +
       (if pod_Status task = Releasing then (if used_on ni g = m then - 1 else 0)
        else if used_on ni g \<noteq> m \<and> used_on ni g - m = releasing_on ni g then 1 else 0)"
    "isSharedGpuMarkedAsReleasing ni' h \<longleftrightarrow>
       (if h \<noteq> g then h \<in> fullyReleasing ni
        else used_on ni g \<noteq> m \<and> used_on ni g - m = releasing_on ni g - (if pod_Status task = Releasing then m else 0))"
proof -
  have S: "0 \<le> releasing_on ni g" "releasing_on ni g \<le> used_on ni g" "gpu_of (NewSingleGpuVector (ni_VectorMap ni)) = 1"
    "\<And>h. isSharedGpuMarkedAsReleasing ni h \<longleftrightarrow> h \<in> fullyReleasing ni" "wf_gomap (UsedSharedGPUsMemory ni)"
    using st by (auto simp: gpu_state_def)
  have id: "int64_of (used_on ni g - m) = used_on ni g - m"
    "pod_Status task = Releasing \<Longrightarrow> int64_of (releasing_on ni g - m) = releasing_on ni g - m"
    "int64_of 0 = 0" "int64_of m = m" "int64_of (used_on ni g) = used_on ni g" "int64_of (releasing_on ni g) = releasing_on ni g"
    using S fits m(2) has by (auto intro!: int64_of_id simp: int64_range_def int64_defs split: if_splits)
  have mu: "m \<le> used_on ni g" using has S by (simp split: if_splits)
  show u: "used_on ni' h = used_on ni h - (if h = g then m else 0)" for h
    using removeShared_maps [of UsedBook task ni g] by (simp add: ni'_def gomap_get_addScalar id m(1) [symmetric])
  show "releasing_on ni' h = releasing_on ni h - (if h = g \<and> pod_Status task = Releasing then m else 0)"
    using removeShared_maps [of ReleasingBook task ni g] notp by (auto simp add: ni'_def gomap_get_addScalar id m(1) [symmetric])
  have ov: "idleGpuOvercounted x = False"
    if "sameFrame ni x" "UsedSharedGPUsMemory x = addScalar g (- m) (UsedSharedGPUsMemory ni)" "IdleVector x = IdleVector ni" for x
  proof -
    have "sharedUsed x \<subseteq> sharedUsed ni"
      using that(2) S(1,2) m(2) id(1) by (auto simp: sharedUsed_def gomap_get_addScalar split: if_splits)
    then have "card (sharedUsed x) \<le> card (sharedUsed ni)" by (simp add: card_mono)
    then show ?thesis using overcounted_state [OF st that(1) _ that(3)] that(2) S(5) by simp
  qed
  have F: "g \<in> fullyReleasing ni \<longleftrightarrow> 0 < used_on ni g \<and> releasing_on ni g = used_on ni g" by (simp add: fullyReleasing_def)
  have mk: "isSharedGpuMarkedAsReleasing x h = (h \<in> fullyReleasing ni)" if "ReleasingSharedGPUs x = ReleasingSharedGPUs ni" for x h
    using S(4) that by (simp add: isSharedGpuMarkedAsReleasing_def)
  have upd: "isSharedGpuMarkedAsReleasing x h = (h = g \<or> h \<in> fullyReleasing ni)"
    if "ReleasingSharedGPUs x = AList.update g True (ReleasingSharedGPUs ni)" for x h
    using S(4) [of h] that by (simp add: isSharedGpuMarkedAsReleasing_def)
  have del: "isSharedGpuMarkedAsReleasing x h = (h \<noteq> g \<and> h \<in> fullyReleasing ni)"
    if "ReleasingSharedGPUs x = AList.delete g (ReleasingSharedGPUs ni)" for x h
    using S(4) [of h] that by (simp add: isSharedGpuMarkedAsReleasing_def)
  have rel: "isGpuReleasingFromSharedTasks x g = (used_on ni g \<noteq> m \<and> used_on ni g - m = releasing_on ni g)"
    if "UsedSharedGPUsMemory x = addScalar g (- m) (UsedSharedGPUsMemory ni)" "ReleasingSharedGPUsMemory x = ReleasingSharedGPUsMemory ni" for x
    using that id(1) by (auto simp: isGpuReleasingFromSharedTasks_def addScalar_def gomap_get_def split: option.splits)
  note eval = ni'_def removeSharedTaskResourcesPerPodGroup_def markSharedGpuAsReleasing_def unmarkSharedGpuAsReleasing_def
    Let_def m(1) [symmetric] ov sameFrame_def mk gomap_get_addScalar id S(3) notp F upd del rel
  show "gpu_of (IdleVector ni') = gpu_of (IdleVector ni) + (if used_on ni g = m then 1 else 0)"
    using S(1,2) m(2) mu by (auto simp: eval)
  show "gpu_of (ReleasingVector ni') = gpu_of (ReleasingVector ni) +
       (if pod_Status task = Releasing then (if used_on ni g = m then - 1 else 0)
        else if used_on ni g \<noteq> m \<and> used_on ni g - m = releasing_on ni g then 1 else 0)"
    using S(1,2) m(2) mu has by (auto simp: eval)
  show "isSharedGpuMarkedAsReleasing ni' h \<longleftrightarrow>
       (if h \<noteq> g then h \<in> fullyReleasing ni
        else used_on ni g \<noteq> m \<and> used_on ni g - m = releasing_on ni g - (if pod_Status task = Releasing then m else 0))"
    using S(1,2) m(2) mu has by (auto simp: eval)
qed

text \<open>So each pass keeps the state.\<close>

lemma gpu_state_next:
  assumes "gpu_state ni w c" and fr: "sameFrame ni ni'" and "wf_gomap (UsedSharedGPUsMemory ni')"
    and "\<And>h. 0 \<le> releasing_on ni' h \<and> releasing_on ni' h \<le> used_on ni' h"
    and "\<And>h. isSharedGpuMarkedAsReleasing ni' h \<longleftrightarrow> h \<in> fullyReleasing ni'"
    and "gpu_of (IdleVector ni') + of_nat (card (sharedUsed ni')) = gpu_of (IdleVector ni) + of_nat (card (sharedUsed ni))"
    and "gpu_of (ReleasingVector ni') - of_nat (card (fullyReleasing ni')) = gpu_of (ReleasingVector ni) - of_nat (card (fullyReleasing ni))"
  shows "gpu_state ni' w c"
proof -
  have fr': "UsedVector ni' = UsedVector ni" "AllocatableVector ni' = AllocatableVector ni" "ni_VectorMap ni' = ni_VectorMap ni"
    using fr by (simp_all add: sameFrame_def)
  show ?thesis
    using assms numbersAgree_frame [OF fr] unfolding gpu_state_def fr' by (auto simp: algebra_simps)
qed

lemma addShared_gpu_state:
  assumes st: "gpu_state ni w c" and m: "m = GetResourceGpuMemory ni (GpuRequirement task)" "0 < m"
    and fits: "used_on ni g + m \<le> MaxInt64" and notp: "pod_Status task \<noteq> Pipelined"
  shows "gpu_state (addSharedGPUTaskResourcesPerPodGroup task ni g) w c" (is "gpu_state ?ni w c")
proof -
  note f = addShared_gpu_fields [OF assms] and fr = addShared_frame [of ni task g]
  have S: "0 \<le> releasing_on ni g" "releasing_on ni g \<le> used_on ni g" using st by (simp_all add: gpu_state_def)
  have sU: "sharedUsed ?ni = insert g (sharedUsed ni)"
    using S m(2) by (auto simp: sharedUsed_def f(1))
  have fR: "fullyReleasing ?ni = (if pod_Status task = Releasing then (if used_on ni g = releasing_on ni g then insert g (fullyReleasing ni)
      else fullyReleasing ni) else fullyReleasing ni - {g})"
    using S m(2) by (auto simp: fullyReleasing_def f(1,2) split: if_splits)
  have cU: "card (sharedUsed ?ni) = card (sharedUsed ni) + (if used_on ni g = 0 then 1 else 0)"
    using S unfolding sU by (auto simp: card_insert_if sharedUsed_def finite_positive)
  have wf: "wf_gomap (UsedSharedGPUsMemory ?ni)"
    using st addShared_maps [of UsedBook task ni g] by (simp add: gpu_state_def)
  have cR: "of_nat (card (fullyReleasing ?ni)) = of_nat (card (fullyReleasing ni)) +
      (if pod_Status task = Releasing then (if used_on ni g = 0 then 1 else 0) else if g \<in> fullyReleasing ni then - 1 else (0 :: float64))"
  proof (cases "g \<in> fullyReleasing ni")
    case True
    then have u: "0 < used_on ni g" "releasing_on ni g = used_on ni g" by (simp_all add: fullyReleasing_def)
    have "0 < card (fullyReleasing ni)" using True by (auto simp: card_gt_0_iff)
    then show ?thesis using True u unfolding fR by (simp add: insert_absorb of_nat_diff)
  next
    case False
    then have "used_on ni g = releasing_on ni g \<longleftrightarrow> used_on ni g = 0" using S by (auto simp: fullyReleasing_def)
    then show ?thesis using False unfolding fR by simp
  qed
  have all: "0 \<le> releasing_on ni h" "releasing_on ni h \<le> used_on ni h" for h using st by (simp_all add: gpu_state_def)
  show ?thesis
  proof (rule gpu_state_next [OF st fr wf])
    show "0 \<le> releasing_on ?ni h \<and> releasing_on ?ni h \<le> used_on ?ni h" for h
      using all [of h] m(2) by (auto simp: f(1,2))
    show "isSharedGpuMarkedAsReleasing ?ni h \<longleftrightarrow> h \<in> fullyReleasing ?ni" for h
      using S m(2) by (auto simp: f(1,2,5) fullyReleasing_def)
  qed (simp_all add: f(3,4) cU cR)
qed

lemma removeShared_gpu_state:
  assumes st: "gpu_state ni w c" and m: "m = GetResourceGpuMemory ni (GpuRequirement task)" "0 < m"
    and has: "m \<le> (if pod_Status task = Releasing then releasing_on ni g else used_on ni g - releasing_on ni g)"
    and fits: "used_on ni g \<le> MaxInt64" and notp: "pod_Status task \<noteq> Pipelined"
  shows "gpu_state (removeSharedTaskResourcesPerPodGroup task ni g) w c" (is "gpu_state ?ni w c")
proof -
  note f = removeShared_gpu_fields [OF assms] and fr = removeShared_frame [of ni task g]
  have S: "0 \<le> releasing_on ni g" "releasing_on ni g \<le> used_on ni g" using st by (simp_all add: gpu_state_def)
  have mu: "m \<le> used_on ni g" using has S by (simp split: if_splits)
  have g: "g \<in> sharedUsed ni" using mu m(2) by (simp add: sharedUsed_def)
  have sU: "sharedUsed ?ni = (if used_on ni g = m then sharedUsed ni - {g} else sharedUsed ni)"
    using mu m(2) by (auto simp: sharedUsed_def f(1) split: if_splits)
  have "0 < card (sharedUsed ni)" using g by (auto simp: card_gt_0_iff)
  then have cU: "of_nat (card (sharedUsed ?ni)) = of_nat (card (sharedUsed ni)) - (if used_on ni g = m then 1 else (0 :: float64))"
    using g unfolding sU by (simp add: of_nat_diff)
  have fR: "fullyReleasing ?ni = (if used_on ni g = m then fullyReleasing ni - {g}
      else if pod_Status task = Releasing then fullyReleasing ni
      else if used_on ni g - m = releasing_on ni g then insert g (fullyReleasing ni) else fullyReleasing ni - {g})"
    using mu m(2) has by (auto simp: fullyReleasing_def f(1,2) split: if_splits)
  have cR: "of_nat (card (fullyReleasing ?ni)) = of_nat (card (fullyReleasing ni)) +
      (if pod_Status task = Releasing then (if used_on ni g = m then - 1 else 0)
       else if used_on ni g \<noteq> m \<and> used_on ni g - m = releasing_on ni g then 1 else (0 :: float64))"
  proof (cases "pod_Status task = Releasing")
    case True
    then have "used_on ni g = m \<Longrightarrow> g \<in> fullyReleasing ni" using has S m(2) by (simp add: fullyReleasing_def)
    then show ?thesis using True card_gt_0_iff [of "fullyReleasing ni"] unfolding fR by (auto simp: of_nat_diff Suc_le_eq)
  next
    case False
    then have "g \<notin> fullyReleasing ni" using has m(2) by (simp add: fullyReleasing_def)
    then show ?thesis using False unfolding fR by simp
  qed
  have wf: "wf_gomap (UsedSharedGPUsMemory ?ni)"
    using st removeShared_maps [of UsedBook task ni g] by (simp add: gpu_state_def)
  have all: "0 \<le> releasing_on ni h" "releasing_on ni h \<le> used_on ni h" for h using st by (simp_all add: gpu_state_def)
  show ?thesis
  proof (rule gpu_state_next [OF st fr wf])
    show "0 \<le> releasing_on ?ni h \<and> releasing_on ?ni h \<le> used_on ?ni h" for h
      using all [of h] has by (auto simp: f(1,2) split: if_splits)
    show "isSharedGpuMarkedAsReleasing ?ni h \<longleftrightarrow> h \<in> fullyReleasing ?ni" for h
      using mu m(2) by (auto simp: f(1,2,5) fullyReleasing_def)
  qed (simp_all add: f(3,4) cU cR)
qed

lemma addSharedGPUTaskResources_gpu_state:
  assumes "gpu_state ni w c" and notp: "pod_Status t \<noteq> Pipelined"
    and pos: "IsSharedGPUAllocation t \<Longrightarrow> 0 < GetResourceGpuMemory ni (GpuRequirement t)"
    and "\<And>g. used_on ni g + memOn ne ni t g \<le> MaxInt64"
  shows "gpu_state (addSharedGPUTaskResources ne ni t) w c"
proof (cases "IsSharedGPUAllocation t")
  case True
  let ?m = "GetResourceGpuMemory ni (GpuRequirement t)"
  have "gpu_state (foldl (addSharedGPUTaskResourcesPerPodGroup t) x gs) w c"
    if "gpu_state x w c" "GetResourceGpuMemory x (GpuRequirement t) = ?m" "\<And>g. used_on x g + int (count_list gs g) * ?m \<le> MaxInt64" for gs x
    using that
  proof (induction gs arbitrary: x)
    case (Cons g gs)
    let ?x = "addSharedGPUTaskResourcesPerPodGroup t x g"
    have m: "?m = GetResourceGpuMemory x (GpuRequirement t)" "0 < ?m" using Cons.prems(2) pos True by simp_all
    have "used_on x g + ?m \<le> used_on x g + int (count_list (g # gs) g) * ?m" using m(2) by (simp add: algebra_simps)
    then have fits: "used_on x g + ?m \<le> MaxInt64" using Cons.prems(3) [of g] by linarith
    have "used_on ?x h + int (count_list gs h) * ?m \<le> MaxInt64" for h
      using Cons.prems(3) [of h] by (auto simp: addShared_gpu_fields(1) [OF Cons.prems(1) m fits notp] algebra_simps)
    moreover have "GetResourceGpuMemory ?x (GpuRequirement t) = ?m"
      using GetResourceGpuMemory_frame [OF addShared_frame [of x t g]] m(1) by simp
    ultimately show ?case using Cons.IH [of ?x] addShared_gpu_state [OF Cons.prems(1) m fits notp] by simp
  qed simp
  from this [of ni "GPUGroupIDs ne t"] show ?thesis
    using assms(1,4) by (simp add: addSharedGPUTaskResources_def True memOn_def)
qed (simp add: addSharedGPUTaskResources_def assms(1))

lemma removeSharedTaskResources_gpu_state:
  assumes "gpu_state ni w c" and notp: "pod_Status t \<noteq> Pipelined"
    and pos: "IsSharedGPUAllocation t \<Longrightarrow> 0 < GetResourceGpuMemory ni (GpuRequirement t)"
    and "\<And>g. memOn ne ni t g \<le> (if pod_Status t = Releasing then releasing_on ni g else used_on ni g - releasing_on ni g)"
    and "\<And>g. used_on ni g \<le> MaxInt64"
  shows "gpu_state (removeSharedTaskResources ne ni t) w c"
proof (cases "IsSharedGPUAllocation t")
  case True
  let ?m = "GetResourceGpuMemory ni (GpuRequirement t)"
  have "gpu_state (foldl (removeSharedTaskResourcesPerPodGroup t) x gs) w c"
    if "gpu_state x w c" "GetResourceGpuMemory x (GpuRequirement t) = ?m"
      "\<And>g. int (count_list gs g) * ?m \<le> (if pod_Status t = Releasing then releasing_on x g else used_on x g - releasing_on x g)"
      "\<And>g. used_on x g \<le> MaxInt64" for gs x
    using that
  proof (induction gs arbitrary: x)
    case (Cons g gs)
    let ?x = "removeSharedTaskResourcesPerPodGroup t x g"
    have m: "?m = GetResourceGpuMemory x (GpuRequirement t)" "0 < ?m" using Cons.prems(2) pos True by simp_all
    have "?m \<le> int (count_list (g # gs) g) * ?m" using m(2) by (simp add: algebra_simps)
    then have has: "?m \<le> (if pod_Status t = Releasing then releasing_on x g else used_on x g - releasing_on x g)"
      using Cons.prems(3) [of g] by linarith
    note f = removeShared_gpu_fields [OF Cons.prems(1) m has Cons.prems(4) notp]
    have "int (count_list gs h) * ?m \<le> (if pod_Status t = Releasing then releasing_on ?x h else used_on ?x h - releasing_on ?x h)" for h
      using Cons.prems(3) [of h] by (auto simp: f(1,2) algebra_simps)
    moreover have "used_on ?x h \<le> MaxInt64" for h using Cons.prems(4) [of h] m(2) by (auto simp: f(1))
    moreover have "GetResourceGpuMemory ?x (GpuRequirement t) = ?m"
      using GetResourceGpuMemory_frame [OF removeShared_frame [of x t g]] m(1) by simp
    ultimately show ?case
      using Cons.IH [of ?x] removeShared_gpu_state [OF Cons.prems(1) m has Cons.prems(4) notp] by simp
  qed simp
  from this [of ni "GPUGroupIDs ne t"] show ?thesis
    using assms(1,4,5) by (simp add: removeSharedTaskResources_def True memOn_def)
qed (simp add: removeSharedTaskResources_def assms(1))

subsection \<open>Whole GPUs\<close>

definition wholeGpus :: "'aff node_env \<Rightarrow> 'aff NodeInfo \<Rightarrow> PodInfo \<Rightarrow> float64" where
  "wholeGpus ne ni t = (if gpu_of (AllocatableVector ni) = 0 then 0 else gpu_of (chargedVector ne t))"

text \<open>The tasks that the closed form is about.\<close>

definition plainTask :: "'aff node_env \<Rightarrow> 'aff NodeInfo \<Rightarrow> PodInfo \<Rightarrow> bool" where
  "plainTask ne ni t \<longleftrightarrow>
     pod_Status t \<noteq> Pipelined \<and> allocatedGPUDeviceKeys ne t = [] \<and> gpu_of (chargedVector ne t) \<in> \<int> \<and>
     (IsSharedGPUAllocation t \<longrightarrow> 0 < GetResourceGpuMemory ni (GpuRequirement t))"

lemma chargeVector_gpu_state:
  assumes "gpu_state ni w c" and "st \<noteq> Pipelined" and "gpu_of vec \<in> \<int>"
  shows "gpu_state (chargeVector ni st vec) (w + gpu_of vec) (c + (if st = Releasing then gpu_of vec else 0))"
    "gpu_state (dischargeVector ni st vec) (w - gpu_of vec) (c - (if st = Releasing then gpu_of vec else 0))"
  using assms
  by (auto simp: gpu_state_def chargeVector_def dischargeVector_def Let_def numbersAgree_def GetNumberOfGPUsInNode_def
      getNodeGpuCountLabelValue_def isSharedGpuMarkedAsReleasing_def sharedUsed_def fullyReleasing_def cong: option.case_cong)

lemma no_devices:
  assumes "allocatedGPUDeviceKeys ne t = []"
  shows "dedupSharedDRAGpus ne ni t vec = (ni, vec)" "releaseSharedDRAGpus ne ni t vec = (ni, vec)"
  using assms by (simp_all add: dedupSharedDRAGpus_def releaseSharedDRAGpus_def Let_def)

lemma plain_resources:
  assumes "plainTask ne ni t"
  shows "addTaskResources ne ni t =
      addSharedGPUTaskResources ne (chargeVector ni (pod_Status t) (zeroUnallocatable ni (chargedVector ne t))) t"
    "removeTaskResources ne ni t =
      removeSharedTaskResources ne (dischargeVector ni (pod_Status t) (zeroUnallocatable ni (chargedVector ne t))) t"
  using assms by (simp_all add: addTaskResources_eq removeTaskResources_eq no_devices plainTask_def)

lemma gpu_of_zeroed: "gpu_of (zeroUnallocatable ni (chargedVector ne t)) = wholeGpus ne ni t"
  by (simp add: wholeGpus_def Get_zeroUnallocatable)

text \<open>Books without wrap-around.\<close>

definition gpu_books :: "'aff node_env \<Rightarrow> 'aff NodeInfo \<Rightarrow> PodInfo list \<Rightarrow> bool" where
  "gpu_books ne ni ts \<longleftrightarrow>
     node_sums ne ni ts \<and> (\<forall>t\<in>set ts. plainTask ne ni t) \<and> (\<forall>g. (\<Sum>t\<leftarrow>ts. memOn ne ni t g) \<le> MaxInt64) \<and>
     gpu_state ni (\<Sum>t\<leftarrow>ts. wholeGpus ne ni t) (\<Sum>t\<leftarrow>ts. if pod_Status t = Releasing then wholeGpus ne ni t else 0)"

lemma memOn_nonneg: "plainTask ne ni t \<Longrightarrow> 0 \<le> memOn ne ni t g"
  by (auto simp: plainTask_def memOn_def)

lemma charged_maps [simp]:
  "UsedSharedGPUsMemory (chargeVector ni st vec) = UsedSharedGPUsMemory ni"
  "UsedSharedGPUsMemory (dischargeVector ni st vec) = UsedSharedGPUsMemory ni"
  "ReleasingSharedGPUsMemory (dischargeVector ni st vec) = ReleasingSharedGPUsMemory ni"
  by (simp_all add: chargeVector_def dischargeVector_def Let_def)

lemma gpu_books_amounts:
  assumes "gpu_books ne ni ts"
  shows "used_on ni g = (\<Sum>t\<leftarrow>ts. memOn ne ni t g)"
    "releasing_on ni g = (\<Sum>t\<leftarrow>ts. if pod_Status t = Releasing then memOn ne ni t g else 0)"
proof -
  have plain: "\<forall>t\<in>set ts. plainTask ne ni t" and s: "node_sums ne ni ts" and up: "(\<Sum>t\<leftarrow>ts. memOn ne ni t g) \<le> MaxInt64"
    using assms by (simp_all add: gpu_books_def)
  then have ts: "\<And>t. t \<in> set ts \<Longrightarrow> 0 \<le> memOn ne ni t g \<and> pod_Status t \<noteq> Pipelined"
    using memOn_nonneg [of ne ni] by (metis plainTask_def)
  have "0 \<le> (\<Sum>t\<leftarrow>ts. memOn ne ni t g)" using ts by (intro sum_list_nonneg) auto
  then show "used_on ni g = (\<Sum>t\<leftarrow>ts. memOn ne ni t g)"
    using node_sums_explicit(1) [OF s] up by (simp add: int64_range_def int64_defs)
  have eq: "(\<Sum>t\<leftarrow>ts. if pod_Status t = Releasing then memOn ne ni t g else if pod_Status t = Pipelined then - memOn ne ni t g else 0) =
      (\<Sum>t\<leftarrow>ts. if pod_Status t = Releasing then memOn ne ni t g else 0)"
    using ts by (intro arg_cong [of _ _ sum_list] map_cong) auto
  have "(\<Sum>t\<leftarrow>ts. if pod_Status t = Releasing then memOn ne ni t g else 0) \<le> (\<Sum>t\<leftarrow>ts. memOn ne ni t g)"
    using ts by (intro sum_list_mono) auto
  moreover have "0 \<le> (\<Sum>t\<leftarrow>ts. if pod_Status t = Releasing then memOn ne ni t g else 0)"
    using ts by (intro sum_list_nonneg) auto
  ultimately show "releasing_on ni g = (\<Sum>t\<leftarrow>ts. if pod_Status t = Releasing then memOn ne ni t g else 0)"
    using node_sums_explicit(3) [OF s, of g] up unfolding eq by (simp add: int64_range_def int64_defs)
qed

lemma frame_functions:
  assumes "AllocatableVector ni' = AllocatableVector ni" and "MemoryOfEveryGpuOnNode ni' = MemoryOfEveryGpuOnNode ni"
  shows "wholeGpus ne ni' = wholeGpus ne ni" "plainTask ne ni' = plainTask ne ni" "memOn ne ni' = memOn ne ni"
  using assms by (simp_all add: fun_eq_iff wholeGpus_def plainTask_def memOn_def GetResourceGpuMemory_def)

lemma addTaskResources_gpu_books:
  assumes b: "gpu_books ne ni ts" and t: "plainTask ne ni t" and fits: "\<And>g. memOn ne ni t g + (\<Sum>t\<leftarrow>ts. memOn ne ni t g) \<le> MaxInt64"
  shows "gpu_books ne (addTaskResources ne ni t) (t # ts)"
proof -
  let ?v = "zeroUnallocatable ni (chargedVector ne t)"
  let ?c = "chargeVector ni (pod_Status t) ?v"
  have c: "used_on ?c g = used_on ni g" "memOn ne ?c t g = memOn ne ni t g" "GetResourceGpuMemory ?c r = GetResourceGpuMemory ni r" for g r
    by (simp_all add: memOn_def GetResourceGpuMemory_def)
  have p: "pod_Status t \<noteq> Pipelined" "gpu_of ?v \<in> \<int>" using t by (simp_all add: plainTask_def gpu_of_zeroed wholeGpus_def)
  note fr = frame_functions [OF addTaskResources_frame(1,2) [of ne ni t]]
  have gs: "gpu_state (addTaskResources ne ni t) ((\<Sum>t\<leftarrow>ts. wholeGpus ne ni t) + gpu_of ?v)
     ((\<Sum>t\<leftarrow>ts. if pod_Status t = Releasing then wholeGpus ne ni t else 0) + (if pod_Status t = Releasing then gpu_of ?v else 0))"
    unfolding plain_resources(1) [OF t]
    using b t fits p gpu_books_amounts(1) [OF b]
    by (intro addSharedGPUTaskResources_gpu_state chargeVector_gpu_state) (auto simp: gpu_books_def c plainTask_def add.commute)
  show ?thesis
    using b t fits addTaskResources_sums [of ne ni ts t] gs [unfolded gpu_of_zeroed] unfolding gpu_books_def fr by (simp add: add.commute)
qed

lemma removeTaskResources_gpu_books:
  assumes b: "gpu_books ne ni ts" and ts: "mset ts = add_mset t (mset ts')"
  shows "gpu_books ne (removeTaskResources ne ni t) ts'"
proof -
  have split: "(\<Sum>t\<leftarrow>ts. f t) = f t + (\<Sum>t\<leftarrow>ts'. f t)" for f :: "PodInfo \<Rightarrow> 'n :: ab_group_add"
    using sum_list_mset_eq [of ts "t # ts'" f] ts by simp
  have "set ts = insert t (set ts')" using ts by (metis set_mset_add_mset_insert set_mset_mset)
  then have t: "plainTask ne ni t" and ts': "\<And>s. s \<in> set ts' \<Longrightarrow> plainTask ne ni s" using b by (auto simp: gpu_books_def)
  let ?v = "zeroUnallocatable ni (chargedVector ne t)"
  let ?c = "dischargeVector ni (pod_Status t) ?v"
  have c: "used_on ?c g = used_on ni g" "releasing_on ?c g = releasing_on ni g" "memOn ne ?c t g = memOn ne ni t g"
    "GetResourceGpuMemory ?c r = GetResourceGpuMemory ni r" for g r
    by (simp_all add: memOn_def GetResourceGpuMemory_def)
  have p: "pod_Status t \<noteq> Pipelined" "gpu_of ?v \<in> \<int>" using t by (simp_all add: plainTask_def gpu_of_zeroed wholeGpus_def)
  have nn: "0 \<le> (\<Sum>t\<leftarrow>ts'. if pod_Status t = Releasing then memOn ne ni t g else 0)"
    "(\<Sum>t\<leftarrow>ts'. if pod_Status t = Releasing then memOn ne ni t g else 0) \<le> (\<Sum>t\<leftarrow>ts'. memOn ne ni t g)" for g
    using ts' memOn_nonneg [of ne ni] by (auto intro!: sum_list_nonneg sum_list_mono)
  have has: "memOn ne ni t g \<le> (if pod_Status t = Releasing then releasing_on ni g else used_on ni g - releasing_on ni g)" for g
    using nn [of g] by (simp add: gpu_books_amounts [OF b] split)
  note fr = frame_functions [OF removeTaskResources_frame(1,2) [of ne ni t]]
  have gs: "gpu_state (removeTaskResources ne ni t) ((\<Sum>t\<leftarrow>ts. wholeGpus ne ni t) - gpu_of ?v)
     ((\<Sum>t\<leftarrow>ts. if pod_Status t = Releasing then wholeGpus ne ni t else 0) - (if pod_Status t = Releasing then gpu_of ?v else 0))"
    unfolding plain_resources(2) [OF t]
    using b t p has gpu_books_amounts(1) [OF b]
    by (intro removeSharedTaskResources_gpu_state chargeVector_gpu_state) (auto simp: gpu_books_def c plainTask_def)
  have up: "(\<Sum>t\<leftarrow>ts. memOn ne ni t g) \<le> MaxInt64" for g using b by (simp add: gpu_books_def)
  have "(\<Sum>t\<leftarrow>ts'. memOn ne ni t g) \<le> MaxInt64" for g
    using up [of g] memOn_nonneg [OF t, of g] split [of "\<lambda>t. memOn ne ni t g"] by linarith
  then show ?thesis
    using b ts' removeTaskResources_sums [of ne ni ts t ts', OF _ ts] gs [unfolded gpu_of_zeroed] unfolding gpu_books_def fr by (simp add: split)
qed

subsection \<open>Sequences of operations\<close>

lemma gpu_state_upd [simp]:
  "gpu_state (ni\<lparr>PodInfos := ps\<rparr>) w c = gpu_state ni w c" "gpu_state (ni\<lparr>LegacyMIGTasks := ls\<rparr>) w c = gpu_state ni w c"
  "gpu_state (ni\<lparr>PodAffinityInfo := a\<rparr>) w c = gpu_state ni w c"
  by (simp_all add: gpu_state_def numbersAgree_def GetNumberOfGPUsInNode_def getNodeGpuCountLabelValue_def
      isSharedGpuMarkedAsReleasing_def sharedUsed_def fullyReleasing_def cong: option.case_cong)

lemma gpu_books_upd [simp]:
  "gpu_books ne (ni\<lparr>PodInfos := ps\<rparr>) ts = gpu_books ne ni ts" "gpu_books ne (ni\<lparr>LegacyMIGTasks := ls\<rparr>) ts = gpu_books ne ni ts"
  "gpu_books ne (ni\<lparr>PodAffinityInfo := a\<rparr>) ts = gpu_books ne ni ts"
proof -
  have f: "wholeGpus ne (ni\<lparr>PodInfos := ps\<rparr>) = wholeGpus ne ni" "wholeGpus ne (ni\<lparr>LegacyMIGTasks := ls\<rparr>) = wholeGpus ne ni"
    "wholeGpus ne (ni\<lparr>PodAffinityInfo := a\<rparr>) = wholeGpus ne ni" "memOn ne (ni\<lparr>PodInfos := ps\<rparr>) = memOn ne ni"
    "memOn ne (ni\<lparr>LegacyMIGTasks := ls\<rparr>) = memOn ne ni" "memOn ne (ni\<lparr>PodAffinityInfo := a\<rparr>) = memOn ne ni"
    "plainTask ne (ni\<lparr>PodInfos := ps\<rparr>) = plainTask ne ni" "plainTask ne (ni\<lparr>LegacyMIGTasks := ls\<rparr>) = plainTask ne ni"
    "plainTask ne (ni\<lparr>PodAffinityInfo := a\<rparr>) = plainTask ne ni"
    by (rule frame_functions; simp)+
  show "gpu_books ne (ni\<lparr>PodInfos := ps\<rparr>) ts = gpu_books ne ni ts" "gpu_books ne (ni\<lparr>LegacyMIGTasks := ls\<rparr>) ts = gpu_books ne ni ts"
    "gpu_books ne (ni\<lparr>PodAffinityInfo := a\<rparr>) ts = gpu_books ne ni ts"
    unfolding gpu_books_def f by simp_all
qed

lemma gpu_books_mset: "mset ts = mset ts' \<Longrightarrow> gpu_books ne ni ts = gpu_books ne ni ts'"
  by (simp only: gpu_books_def node_sums_mset [of ts ts'] sum_list_mset_eq [of ts ts'] mset_eq_setD [of ts ts'])

lemma setAccepted_frame:
  "MemoryOfEveryGpuOnNode ni' = MemoryOfEveryGpuOnNode ni \<Longrightarrow> setAcceptedResources ne ni' t = setAcceptedResources ne ni t"
  by (simp add: setAcceptedResources_def getResourceGpuPortion_def getGpuMemoryFractionalOnNode_def GetResourceGpuMemory_def Let_def)

definition demand :: "'aff node_env \<Rightarrow> 'aff NodeInfo \<Rightarrow> PodInfo list \<Rightarrow> string \<Rightarrow> int" where
  "demand ne ni ts g = (\<Sum>t\<leftarrow>ts. memOn ne ni (setAcceptedResources ne ni t) g)"

definition gpu_run :: "'aff node_env \<Rightarrow> 'aff NodeInfo \<Rightarrow> 'aff NodeInfo \<Rightarrow> PodInfo list \<Rightarrow> bool" where
  "gpu_run ne ni0 ni added \<longleftrightarrow>
     ni_Node ni \<noteq> None \<and> wf_gomap (PodInfos ni) \<and> gpu_books ne ni (map snd (PodInfos ni)) \<and>
     AllocatableVector ni = AllocatableVector ni0 \<and> MemoryOfEveryGpuOnNode ni = MemoryOfEveryGpuOnNode ni0 \<and>
     (\<forall>g. (\<Sum>t\<leftarrow>map snd (PodInfos ni). memOn ne ni0 t g) \<le> demand ne ni0 added g)"

lemma gpu_runD:
  assumes "gpu_run ne ni0 ni added"
  shows "ni_Node ni \<noteq> None" "wf_gomap (PodInfos ni)" "gpu_books ne ni (map snd (PodInfos ni))"
    "AllocatableVector ni = AllocatableVector ni0" "MemoryOfEveryGpuOnNode ni = MemoryOfEveryGpuOnNode ni0"
    "(\<Sum>t\<leftarrow>map snd (PodInfos ni). memOn ne ni0 t g) \<le> demand ne ni0 added g"
  using assms unfolding gpu_run_def by blast+

lemma AddTask_gpu_run:
  assumes run: "gpu_run ne ni0 ni added" and r: "AddTask ne ni caps t = (ni', caps', t', err)"
    and plain: "plainTask ne ni0 (setAcceptedResources ne ni0 t)" and fits: "\<And>g. demand ne ni0 (added @ [t]) g \<le> MaxInt64"
  shows "gpu_run ne ni0 ni' (added @ [t])"
proof -
  note D = gpu_runD [OF run]
  note a = AddTask_shape [OF r D(1)]
  have t': "t' = setAcceptedResources ne ni0 t" using a(1) setAccepted_frame [OF D(5)] by simp
  note fr = frame_functions [OF D(4,5), of ne]
  have dem: "demand ne ni0 (added @ [t]) g = demand ne ni0 added g + memOn ne ni0 t' g" for g by (simp add: demand_def t')
  have nn: "0 \<le> memOn ne ni0 t' g" for g using memOn_nonneg [OF plain] t' by simp
  show ?thesis
  proof (cases "map_of (PodInfos ni) (PodKey t)")
    case None
    then obtain ls aff where ni': "ni' = (addTaskResources ne (ni\<lparr>PodInfos := AList.update (PodKey t) t' (PodInfos ni), LegacyMIGTasks := ls\<rparr>) t')
        \<lparr>PodAffinityInfo := aff\<rparr>" (is "ni' = (addTaskResources ne ?n t')\<lparr>PodAffinityInfo := aff\<rparr>")
      using a(3) by blast
    have ms: "mset (map snd (AList.update (PodKey t) t' (PodInfos ni))) = mset (t' # map snd (PodInfos ni))"
      using None by (simp add: AList_update_new)
    have n: "AllocatableVector ?n = AllocatableVector ni0" "MemoryOfEveryGpuOnNode ?n = MemoryOfEveryGpuOnNode ni0"
      using D(4,5) by simp_all
    note nf = frame_functions [OF n, of ne]
    have "memOn ne ni0 t' g + (\<Sum>t\<leftarrow>map snd (PodInfos ni). memOn ne ni0 t g) \<le> MaxInt64" for g
      using fits [of g] D(6) [of g] dem [of g] by linarith
    moreover have "gpu_books ne ?n (map snd (PodInfos ni))" using D(3) by simp
    moreover have "plainTask ne ?n t'" unfolding nf using plain t' by simp
    ultimately have b: "gpu_books ne (addTaskResources ne ?n t') (t' # map snd (PodInfos ni))"
      by (intro addTaskResources_gpu_books) (simp_all only: nf)
    have "(\<Sum>t\<leftarrow>map snd (AList.update (PodKey t) t' (PodInfos ni)). memOn ne ni0 t g) \<le> demand ne ni0 (added @ [t]) g" for g
      unfolding sum_list_mset_eq [OF ms] dem using D(6) [of g] by simp
    then show ?thesis
      using D(1,2,4,5) b unfolding gpu_run_def ni' by (simp add: resources_frame gpu_books_mset [OF ms] del: not_None_eq)
  next
    case (Some s)
    then have "ni' = ni" using a(2) by simp
    moreover have "demand ne ni0 added g \<le> demand ne ni0 (added @ [t]) g" for g using dem nn by simp
    ultimately show ?thesis using run unfolding gpu_run_def by (meson order_trans)
  qed
qed

lemma RemoveTask_gpu_run:
  assumes run: "gpu_run ne ni0 ni added" and r: "RemoveTask ne ni caps t = (ni', caps', err)"
  shows "gpu_run ne ni0 ni' added"
proof -
  note D = gpu_runD [OF run]
  note a = RemoveTask_shape [OF r D(1)]
  show ?thesis
  proof (cases "map_of (PodInfos ni) (PodKey t)")
    case None
    then show ?thesis using a(1) run by simp
  next
    case (Some s)
    then obtain aff where ni': "ni' = (removeTaskResources ne (ni\<lparr>PodInfos := AList.delete (PodKey t) (PodInfos ni)\<rparr>) s)\<lparr>PodAffinityInfo := aff\<rparr>"
      (is "ni' = (removeTaskResources ne ?n s)\<lparr>PodAffinityInfo := aff\<rparr>")
      using a(2) by blast
    note ms = mset_values_delete [OF D(2) Some]
    have "gpu_books ne (removeTaskResources ne ?n s) (map snd (AList.delete (PodKey t) (PodInfos ni)))"
      using D(3) by (intro removeTaskResources_gpu_books [OF _ ms]) simp
    moreover have "(\<Sum>t\<leftarrow>map snd (AList.delete (PodKey t) (PodInfos ni)). memOn ne ni0 t g) \<le> demand ne ni0 added g" for g
    proof -
      have "s \<in> set (map snd (PodInfos ni))" using map_of_SomeD [OF Some] by force
      then have "plainTask ne ni s" using D(3) unfolding gpu_books_def by blast
      then have "0 \<le> memOn ne ni0 s g" using memOn_nonneg [of ne ni s g] frame_functions(3) [OF D(4,5), of ne] by simp
      then show ?thesis using D(6) [of g] sum_values_delete [OF D(2) Some, of "\<lambda>t. memOn ne ni0 t g"] by linarith
    qed
    ultimately show ?thesis using D(1,2,4,5) unfolding gpu_run_def ni' by (simp add: resources_frame del: not_None_eq)
  qed
qed

fun addedTasks :: "node_op \<Rightarrow> PodInfo list" where
  "addedTasks (OpAdd t) = [t]"
| "addedTasks (OpUpdate t) = [t]"
| "addedTasks (OpRemove t) = []"

lemma demand_more:
  "\<forall>t\<in>set ts'. plainTask ne ni0 (setAcceptedResources ne ni0 t) \<Longrightarrow> demand ne ni0 ts g \<le> demand ne ni0 (ts @ ts') g"
  by (auto simp: demand_def intro!: sum_list_nonneg memOn_nonneg)

lemma runNodeOp_gpu_run:
  assumes run: "gpu_run ne ni0 ni added" and r: "runNodeOp ne (ni, caps) op = (ni', caps')"
    and plain: "\<forall>t\<in>set (addedTasks op). plainTask ne ni0 (setAcceptedResources ne ni0 t)"
    and fits: "\<And>g. demand ne ni0 (added @ addedTasks op) g \<le> MaxInt64"
  shows "gpu_run ne ni0 ni' (added @ addedTasks op)"
proof (cases op)
  case (OpAdd t)
  then show ?thesis
    using AddTask_gpu_run [OF run] r plain fits by (auto simp: Let_def split: prod.splits)
next
  case (OpRemove t)
  then show ?thesis using RemoveTask_gpu_run [OF run] r by (auto simp: Let_def split: prod.splits)
next
  case (OpUpdate t)
  obtain ni1 caps1 err where rm: "RemoveTask ne ni caps t = (ni1, caps1, err)" by (metis prod_cases3)
  note run1 = RemoveTask_gpu_run [OF run rm]
  show ?thesis
  proof (cases err)
    case None
    then show ?thesis
      using AddTask_gpu_run [OF run1] rm r plain fits OpUpdate by (auto simp: UpdateTask_def AddTask_def Let_def split: prod.splits)
  next
    case (Some e)
    then have "ni' = ni1" using rm r OpUpdate by (simp add: UpdateTask_def)
    then show ?thesis
      using run1 demand_more [of "addedTasks op" ne ni0 added] plain unfolding gpu_run_def by (meson order_trans)
  qed
qed

lemma runNodeOps_gpu_run:
  assumes "gpu_run ne ni0 ni added" and "\<forall>t\<in>set (concat (map addedTasks ops)). plainTask ne ni0 (setAcceptedResources ne ni0 t)"
    and "\<And>g. demand ne ni0 (added @ concat (map addedTasks ops)) g \<le> MaxInt64"
  shows "gpu_run ne ni0 (fst (foldl (runNodeOp ne) (ni, caps) ops)) (added @ concat (map addedTasks ops))"
  using assms
proof (induction ops arbitrary: ni caps added)
  case (Cons op ops)
  obtain ni1 caps1 where r: "runNodeOp ne (ni, caps) op = (ni1, caps1)" by fastforce
  have more: "demand ne ni0 (added @ addedTasks op) g \<le> demand ne ni0 (added @ concat (map addedTasks (op # ops))) g" for g
    using demand_more [of "concat (map addedTasks ops)" ne ni0 "added @ addedTasks op"] Cons.prems(2) by simp
  have "gpu_run ne ni0 ni1 (added @ addedTasks op)"
    using Cons.prems(2) order_trans [OF more Cons.prems(3)] by (intro runNodeOp_gpu_run [OF Cons.prems(1) r]) auto
  then show ?case using Cons.IH [of ni1 "added @ addedTasks op" caps1] Cons.prems r by simp
qed simp

lemma NewNodeInfo_gpu_run:
  assumes "ni0 = NewNodeInfo ne sn isc isz mv vl name ls alloc aff vm" and "GPUIndex < Map_Len vm" and "numbersAgree ni0"
  shows "gpu_run ne ni0 ni0 []"
proof -
  note f = NewNodeInfo_fields [OF assms(1)]
  have b: "UsedSharedGPUsMemory ni0 = []" "ReleasingSharedGPUsMemory ni0 = []"
    using f(7) [of UsedBook] f(7) [of ReleasingBook] by simp_all
  have "gpu_of (NewSingleGpuVector vm) = 1"
    using assms(2) by (simp add: NewSingleGpuVector_def NewResourceVector_def Get_Set GPUIndex_def Map_Len_def)
  moreover have "gpu_of (AllocatableVector ni0) \<in> \<int>" using assms(3) unfolding numbersAgree_def by (metis Ints_of_int)
  ultimately have "gpu_state ni0 0 0"
    using assms(3) f by (simp add: gpu_state_def isSharedGpuMarkedAsReleasing_def sharedUsed_def fullyReleasing_def b)
  then show ?thesis
    using NewNodeInfo_books [of ne sn isc isz mv vl name ls alloc aff vm] f(1) assms(1)
    by (simp add: gpu_run_def gpu_books_def node_books_def demand_def int64_defs del: not_None_eq)
qed

text \<open>The sets of groups in terms of the stored tasks.\<close>

lemma sum_list_pos_iff:
  fixes f :: "'a \<Rightarrow> int"
  shows "\<forall>x\<in>set xs. 0 \<le> f x \<Longrightarrow> 0 < (\<Sum>x\<leftarrow>xs. f x) \<longleftrightarrow> (\<exists>x\<in>set xs. 0 < f x)"
proof (induction xs)
  case (Cons x xs)
  then have "0 \<le> (\<Sum>x\<leftarrow>xs. f x)" by (auto intro!: sum_list_nonneg)
  then show ?case using Cons by (auto simp: add_pos_nonneg add_nonneg_pos)
qed simp

lemma shared_sets:
  assumes "gpu_books ne ni ts"
  shows "sharedUsed ni = {g. \<exists>t\<in>set ts. 0 < memOn ne ni t g}"
    "fullyReleasing ni = {g. (\<exists>t\<in>set ts. 0 < memOn ne ni t g) \<and> (\<forall>t\<in>set ts. 0 < memOn ne ni t g \<longrightarrow> pod_Status t = Releasing)}"
proof -
  have plain: "\<forall>t\<in>set ts. plainTask ne ni t" using assms by (simp add: gpu_books_def)
  then have nn: "\<forall>t\<in>set ts. 0 \<le> memOn ne ni t g" for g using memOn_nonneg [of ne ni] by blast
  have pos: "0 < used_on ni g \<longleftrightarrow> (\<exists>t\<in>set ts. 0 < memOn ne ni t g)" for g
    by (simp add: gpu_books_amounts(1) [OF assms] sum_list_pos_iff nn)
  have diff: "used_on ni g - releasing_on ni g = (\<Sum>t\<leftarrow>ts. if pod_Status t = Releasing then 0 else memOn ne ni t g)" for g
    unfolding gpu_books_amounts [OF assms] sum_list_subtractf [symmetric] by (intro arg_cong [of _ _ sum_list] map_cong) auto
  have some: "0 < (\<Sum>t\<leftarrow>ts. if pod_Status t = Releasing then 0 else memOn ne ni t g) \<longleftrightarrow>
      (\<exists>t\<in>set ts. pod_Status t \<noteq> Releasing \<and> 0 < memOn ne ni t g)" for g
    using nn [of g] by (subst sum_list_pos_iff) (auto split: if_splits)
  have "releasing_on ni g \<le> used_on ni g" for g using assms by (simp add: gpu_books_def gpu_state_def)
  then have "releasing_on ni g = used_on ni g \<longleftrightarrow> \<not> 0 < used_on ni g - releasing_on ni g" for g
    by (simp add: order_eq_iff)
  then have rel: "releasing_on ni g = used_on ni g \<longleftrightarrow> (\<forall>t\<in>set ts. 0 < memOn ne ni t g \<longrightarrow> pod_Status t = Releasing)" for g
    unfolding diff some by blast
  show "sharedUsed ni = {g. \<exists>t\<in>set ts. 0 < memOn ne ni t g}" by (simp add: sharedUsed_def pos)
  show "fullyReleasing ni = {g. (\<exists>t\<in>set ts. 0 < memOn ne ni t g) \<and> (\<forall>t\<in>set ts. 0 < memOn ne ni t g \<longrightarrow> pod_Status t = Releasing)}"
    unfolding fullyReleasing_def pos rel ..
qed


subsection \<open>An example node\<close>

text \<open>The affinity index of the example is the list of the keys of the indexed pods.\<close>

definition exampleEnv :: "string list node_env" where
  "exampleEnv =
     \<lparr>ne_rc = \<lparr>ResourceCPU = ''cpu'', ResourceMemory = ''memory'', constants_GpuResource = ''gpu'', ResourcePods = ''pods''\<rparr>,
      TimeSlicing = ''TimeSlicing'', DefaultMode = (\<lambda>m. if m = '''' then ''TimeSlicing'' else m), rawMode = (\<lambda>_. ''''),
      GroupWithDefaults = (\<lambda>g. if ComputeSharingMode g = '''' then g\<lparr>ComputeSharingMode := ''TimeSlicing''\<rparr> else g),
      GPUReservationPodPrefix = ''gpu-reservation'', GPUGroupLabel = ''gpu-group'', MigStrategyLabel = ''mig.strategy'',
      AppLabelName = ''app'', ResourceReservationAppLabelValue = ''reservation'', ScalingPodAppLabelValue = ''scaling'',
      MIGWorkerNodeLabelKey = ''mig-worker'', IsGPUDeviceClass = (\<lambda>d. d = ''gpu.nvidia.com''), hasDeviceClass = (\<lambda>_. False),
      AddPod = (\<lambda>a p. PodKey p # a),
      RemovePod = (\<lambda>a p. if PodKey p \<in> set a then (remove1 (PodKey p) a, None) else (a, Some ''no corresponding pod''))\<rparr>"

definition exampleNode :: "string list NodeInfo" where
  "exampleNode =
     NewNodeInfo exampleEnv [] (\<lambda>_. False) (\<lambda>q. q = 0) (\<lambda>q :: int. q * 1000) (\<lambda>q. q) ''n''
       [(GpuMemoryLabel, ''100'')] [(''cpu'', 8), (''memory'', 8192), (GPUResourceName, 2), (''pods'', 10)] []
       (VectorMap (examplePod ''p'' Pending))"

text \<open>A task with half of a GPU.\<close>

definition exampleShared :: "PodStatus \<Rightarrow> string \<Rightarrow> PodInfo" where
  "exampleShared st g =
     (examplePod ''p'' st)\<lparr>RequestType := RequestTypeFraction,
        GpuRequirement := NewGpuResourceRequirementWithMultiFraction 1 (1 / 2) 0,
        FractionalGpuGroups := [\<lparr>group_ID = g, ComputeSharingMode = ''''\<rparr>]\<rparr>"

lemma example_facts:
  "GPUIndex < Map_Len (VectorMap (examplePod ''p'' Pending))"
  "of_int (GetNumberOfGPUsInNode exampleNode) = Get (AllocatableVector exampleNode) GPUIndex"
  "gpu_of (chargedVector exampleEnv (setAcceptedResources exampleEnv exampleNode (exampleShared Running ''g1''))) = 0"
  "pod_Status (setAcceptedResources exampleEnv exampleNode (exampleShared Running ''g1'')) \<noteq> Pipelined \<and>
   allocatedGPUDeviceKeys exampleEnv (setAcceptedResources exampleEnv exampleNode (exampleShared Running ''g1'')) = [] \<and>
   GetResourceGpuMemory exampleNode (GpuRequirement (setAcceptedResources exampleEnv exampleNode (exampleShared Running ''g1''))) = 50 \<and>
   GPUGroupIDs exampleEnv (setAcceptedResources exampleEnv exampleNode (exampleShared Running ''g1'')) = [''g1'']"
  by code_simp+


end
