(* ===== verification/Node_Placement.thy ===== *)
theory Node_Placement
  imports Node_Gpus
begin

text \<open>
  Placing tasks on nodes. A task that the node accepts does not overcommit it; moving a task that was evicted to another
  GPU of its node and undoing both steps leaves a charge behind; the two storage tests disagree; and a task pipelined
  to a GPU that is being released does not give it back.
\<close>

subsection \<open>Accepted amounts\<close>

lemma length_ResReq_frame: "length (AcceptedResourceVector (setAcceptedResources ne ni t)) = length (ResReqVector t)"
  if "IsActiveUsedStatus (pod_Status t)"
  using that by (simp add: setAcceptedResources_def Let_def)

lemma accepted_entries:
  assumes "IsActiveUsedStatus (pod_Status t)" and "\<not> IsMigCandidate t" and "i \<noteq> GPUIndex"
  shows "Get (AcceptedResourceVector (setAcceptedResources ne ni t)) i = Get (ResReqVector t) i"
proof -
  have "migResources (NewGpuResourceRequirementWithMultiFraction c p m) = []"
    "migResources (SetDraGpus d (NewGpuResourceRequirementWithGpus x 0)) = []" for c p m d x
    by (simp_all add: NewGpuResourceRequirementWithMultiFraction_def SetDraGpus_def NewGpuResourceRequirementWithGpus_def
        NewGpuResourceRequirement_def Let_def)
  then show ?thesis using assms by (simp add: setAcceptedResources_def setAmounts_def Let_def Get_Set)
qed

lemma setAccepted_keeps [simp]:
  "pod_Status (setAcceptedResources ne ni t) = pod_Status t" "GpuRequirement (setAcceptedResources ne ni t) = GpuRequirement t"
  "FractionalGpuGroups (setAcceptedResources ne ni t) = FractionalGpuGroups t"
  "ResourceClaimInfo (setAcceptedResources ne ni t) = ResourceClaimInfo t" "pod_Labels (setAcceptedResources ne ni t) = pod_Labels t"
  by (simp_all add: setAcceptedResources_def Let_def)

lemma GPUGroupIDs_setAccepted [simp]: "GPUGroupIDs ne (setAcceptedResources ne ni t) = GPUGroupIDs ne t"
  by (simp add: GPUGroupIDs_def FractionalGpuGroupsOrDefault_def)

subsection \<open>No overcommitment\<close>

text \<open>What the test on vectors says at an index other than the GPUs.\<close>

lemma allocatable_entries:
  assumes "isTaskAllocatableOnNonAllocatedResources ne ni t v" and "i \<noteq> GPUIndex"
  shows "Get (ResReqVector t) i \<le> Get v i \<or> (Get (AllocatableVector ni) i = 0 \<and> hasDeviceClass ne (ResourceAt (ni_VectorMap ni) i)) \<or>
    int (length (ResReqVector t)) \<le> i \<or> i < 0"
proof (cases "IsRegularGPURequest t \<or> IsMigProfileRequest t")
  case True
  then have "Vector_LessEqual (ResReqVector t) v \<or>
      (\<exists>d. Vector_LessEqual (ResReqVector t) (Set v GPUIndex (Get v GPUIndex + d)))"
    using assms(1) by (auto simp: isTaskAllocatableOnNonAllocatedResources_def lessEqualTaskToNodeResources_def Let_def split: if_splits)
  then have "Get (ResReqVector t) i \<le> Get v i"
    using assms(2) unfolding Vector_LessEqual_pointwise by (auto simp: Get_Set dest!: spec [of _ i])
  then show ?thesis by blast
next
  case False
  then have "lessEqualVectorsExcludingGPU ne ni (ResReqVector t) v"
    using assms(1) by (auto simp: isTaskAllocatableOnNonAllocatedResources_def split: if_splits)
  then show ?thesis using assms(2) by (auto simp: lessEqualVectorsExcludingGPU_def list_all_iff not_less split: if_splits)
qed

lemma AddTask_idle:
  assumes "AddTask ne ni caps t = (ni', caps', t', None)" and "ni_Node ni \<noteq> None" and "i \<noteq> GPUIndex"
    and "pod_Status t \<noteq> Pipelined"
  shows "Get (IdleVector ni') i = Get (IdleVector ni) i - tracked ni t' i"
proof -
  note a = AddTask_shape [OF assms(1,2)]
  have "map_of (PodInfos ni) (PodKey t) = None" using a(2) by blast
  then obtain ls aff where ni': "ni' = (addTaskResources ne (ni\<lparr>PodInfos := AList.update (PodKey t) t' (PodInfos ni), LegacyMIGTasks := ls\<rparr>) t')
      \<lparr>PodAffinityInfo := aff\<rparr>" (is "ni' = (addTaskResources ne ?n t')\<lparr>PodAffinityInfo := aff\<rparr>")
    using a(3) by blast
  obtain ni1 vec where d: "dedupSharedDRAGpus ne ?n t' (chargedVector ne t') = (ni1, vec)" by fastforce
  note eq = dedup_frame(1) [OF d]
  have "IdleVector ni1 = IdleVector ni" "AllocatableVector ni1 = AllocatableVector ni" by (subst eq, simp)+
  moreover have "pod_Status t' \<noteq> Pipelined" using a(1) assms(4) by simp
  ultimately show ?thesis
    using addSharedGPUTaskResources_rest(2) [OF assms(3), of AllocatedBook ne "chargeVector ni1 (pod_Status t') (zeroUnallocatable ni1 vec)" t']
      chargeVector_books(2) [of AllocatedBook ni1 "pod_Status t'" "zeroUnallocatable ni1 vec" i] dedup_frame(3) [OF d assms(3)]
    by (simp add: ni' addTaskResources_eq d Get_zeroUnallocatable tracked_def Get_chargedVector [OF assms(3)])
qed

lemma AddTask_allocated_book:
  assumes "AddTask ne ni caps t = (ni', caps', t', None)" and "ni_Node ni \<noteq> None" and "pod_Status t \<noteq> Pipelined"
    and "gomap_get (AllocatedSharedGPUsMemory ni) g = int64_of b"
  shows "gomap_get (AllocatedSharedGPUsMemory ni') g = int64_of (b + memOn ne ni t' g)"
proof -
  note a = AddTask_shape [OF assms(1,2)]
  have "map_of (PodInfos ni) (PodKey t) = None" using a(2) by blast
  then obtain ls aff where ni': "ni' = (addTaskResources ne (ni\<lparr>PodInfos := AList.update (PodKey t) t' (PodInfos ni), LegacyMIGTasks := ls\<rparr>) t')
      \<lparr>PodAffinityInfo := aff\<rparr>" (is "ni' = (addTaskResources ne ?n t')\<lparr>PodAffinityInfo := aff\<rparr>")
    using a(3) by blast
  obtain ni1 vec where d: "dedupSharedDRAGpus ne ?n t' (chargedVector ne t') = (ni1, vec)" by fastforce
  let ?c = "chargeVector ni1 (pod_Status t') (zeroUnallocatable ni1 vec)"
  note eq = dedup_frame(1) [OF d]
  have c: "memBook AllocatedBook ?c = AllocatedSharedGPUsMemory ni" "memOn ne ?c t' g = memOn ne ni t' g"
    by (simp, subst eq, simp) (rule memOn_frame, simp, subst eq, simp)
  have "pod_Status t' \<noteq> Pipelined" using a(1) assms(3) by simp
  then show ?thesis
    using addSharedGPUTaskResources_book [of AllocatedBook ?c g b ne t'] c assms(4)
    by (simp add: ni' addTaskResources_eq d)
qed


definition exampleQueued :: PodInfo where
  "exampleQueued = (exampleShared Pending ''g1'')\<lparr>pod_UID := ''q'', pod_Name := ''q''\<rparr>"

definition exampleBusy :: "string list NodeInfo" where
  "exampleBusy = fst (AddTask exampleEnv exampleNode [] (exampleShared Running ''g1''))"


subsection \<open>Evicting, moving and undoing\<close>

lemma RemoveTask_sums:
  assumes "RemoveTask ne ni caps ti = (ni', caps', err)" and "ni_Node ni \<noteq> None" and "map_of (PodInfos ni) (PodKey ti) = Some t"
    and "node_sums ne ni ts" and "mset ts = add_mset t (mset ts')"
  shows "node_sums ne ni' ts'" "PodInfos ni' = AList.delete (PodKey ti) (PodInfos ni)" "ni_Node ni' = ni_Node ni"
  using RemoveTask_shape(2) [OF assms(1-3)] removeTaskResources_sums [OF _ assms(5), of ne "ni\<lparr>PodInfos := AList.delete (PodKey ti) (PodInfos ni)\<rparr>"]
    assms(4) by (auto simp: resources_frame)

lemma AddTask_sums:
  assumes "AddTask ne ni caps t = (ni', caps', t', None)" and "ni_Node ni \<noteq> None" and "node_sums ne ni ts"
  shows "node_sums ne ni' (t' # ts)" "PodInfos ni' = AList.update (PodKey t) t' (PodInfos ni)" "ni_Node ni' = ni_Node ni"
    "map_of (PodInfos ni) (PodKey t) = None"
proof -
  note a = AddTask_shape [OF assms(1,2)]
  show none: "map_of (PodInfos ni) (PodKey t) = None" using a(2) by blast
  then obtain ls aff where "ni' = (addTaskResources ne (ni\<lparr>PodInfos := AList.update (PodKey t) t' (PodInfos ni), LegacyMIGTasks := ls\<rparr>) t')
      \<lparr>PodAffinityInfo := aff\<rparr>" (is "ni' = (addTaskResources ne ?n t')\<lparr>PodAffinityInfo := aff\<rparr>")
    using a(3) by blast
  then show "node_sums ne ni' (t' # ts)" "PodInfos ni' = AList.update (PodKey t) t' (PodInfos ni)" "ni_Node ni' = ni_Node ni"
    using addTaskResources_sums [of ne ?n ts t'] assms(3) by (simp_all add: resources_frame)
qed

text \<open>The move to another GPU drops the stored copy of the task, not what it was charged.\<close>

lemma Consolidate_sums:
  assumes r: "ConsolidateSharedPodInfoToDifferentGPU ne ni caps t = (ni', caps', t', None)" and node: "ni_Node ni \<noteq> None"
    and shared: "IsSharedGPUAllocation t'" and sums: "node_sums ne ni ts"
  shows "node_sums ne ni' (t' # ts)" "PodInfos ni' = AList.update (PodKey t) t' (AList.delete (PodKey t) (PodInfos ni))"
    "ni_Node ni' = ni_Node ni"
proof -
  let ?t = "setAcceptedResources ne ni t"
  have t': "t' = ?t" using r by (auto simp: ConsolidateSharedPodInfoToDifferentGPU_def addTask_def Let_def split: if_splits)
  let ?ni1 = "ni\<lparr>PodInfos := AList.update (PodKey t) ?t (AList.delete (PodKey t) (PodInfos ni))\<rparr>"
  let ?ls = "if IsLegacyMIGtask ?t then AList.update (pod_UID ?t) (PodKey t) (LegacyMIGTasks ni) else LegacyMIGTasks ni"
  let ?ni2 = "?ni1\<lparr>LegacyMIGTasks := ?ls\<rparr>"
  have legacy: "(if IsLegacyMIGtask ?t then ?ni1\<lparr>LegacyMIGTasks := AList.update (pod_UID ?t) (PodKey t) (LegacyMIGTasks ?ni1)\<rparr> else ?ni1) = ?ni2"
    by simp
  have "ConsolidateSharedPodInfoToDifferentGPU ne ni caps t =
      (let ni3 = addTaskResources ne ?ni2 ?t
       in (ni3\<lparr>PodAffinityInfo := if excludedFromPodAffinity ?t then PodAffinityInfo ni3 else AddPod ne (PodAffinityInfo ni3) ?t\<rparr>,
           addTaskStorage ni3 ?t caps, ?t, None))"
    using node shared unfolding t' ConsolidateSharedPodInfoToDifferentGPU_def addTask_def Let_def
    by (simp del: not_None_eq add: legacy)
  then have "\<exists>aff. ni' = (addTaskResources ne ?ni2 ?t)\<lparr>PodAffinityInfo := aff\<rparr>" unfolding r Let_def prod.inject by blast
  then show "node_sums ne ni' (t' # ts)" "PodInfos ni' = AList.update (PodKey t) t' (AList.delete (PodKey t) (PodInfos ni))"
    "ni_Node ni' = ni_Node ni"
    using addTaskResources_sums [of ne ?ni2 ts ?t] sums t' by (auto simp: resources_frame simp del: not_None_eq)
qed


text \<open>The run on the example node: the errors of the steps, then the CPU in the used vector, the CPU of the stored tasks, and
  the CPU that the evicted copy was charged.\<close>

definition exampleUndoRun :: "node_error option \<times> node_error option \<times> bool \<times> node_error option \<times> float64 \<times> float64 \<times> float64" where
  "exampleUndoRun =
     (let t = exampleShared Running ''g1'' in
      case UpdateTask exampleEnv exampleBusy [] ((exampleShared Releasing ''g1'')\<lparr>IsVirtualStatus := True\<rparr>) of
        (n2, c2, te, e2) \<Rightarrow>
      case ConsolidateSharedPodInfoToDifferentGPU exampleEnv n2 c2 ((exampleShared Pipelined ''g2'')\<lparr>IsVirtualStatus := True\<rparr>) of
        (n3, c3, tp, e3) \<Rightarrow>
      case RemoveTask exampleEnv n3 c3 t of (n4, c4, e4) \<Rightarrow>
      case AddTask exampleEnv n4 c4 t of (n5, c5, t5, e5) \<Rightarrow>
        (e2, e3, IsSharedGPUAllocation tp, e5, Get (UsedVector n5) CPUIndex,
         \<Sum>s\<leftarrow>map snd (PodInfos n5). tracked n5 s CPUIndex, tracked n5 te CPUIndex))"


subsection \<open>Storage\<close>

lemma firstError_None: "firstError f xs = None \<longleftrightarrow> (\<forall>x\<in>set xs. f x = None)"
  by (induction xs) (auto split: option.splits)

lemma storage_errors_fold:
  "fold (\<lambda>(cls, pvcs) err. case map_of m cls of None \<Rightarrow> err @ [f cls] | Some ids \<Rightarrow> if \<not> ok ids pvcs then err @ [h cls] else err) xs acc = [] \<longleftrightarrow>
     acc = [] \<and> (\<forall>(cls, pvcs)\<in>set xs. case map_of m cls of None \<Rightarrow> False | Some ids \<Rightarrow> ok ids pvcs)"
  by (induction xs arbitrary: acc) (auto split: option.splits if_splits)

text \<open>The two storage tests of a node. For a task to be allocated now, no claim of it may have lost its owner, and for each
  storage class of its pending claims the node reaches some capacity with room for all of them together. For a task
  to be pipelined, each class has to be reached and \<^emph>\<open>every\<close> capacity of the class has to have room, counting what is being
  released, and lost owners are not looked at. So a task can be allocatable and still not be allocatable on releasing
  resources.\<close>

lemma storage_tests:
  "(fst (isTaskStorageAllocatable ni caps t) \<longleftrightarrow>
      GetDeletedStorageClaimsNames t = '''' \<and>
      list_all (\<lambda>(cls, pvcs). case map_of (AccessibleStorageCapacities ni) cls of None \<Rightarrow> False
         | Some ids \<Rightarrow> list_ex (\<lambda>sc. (\<Sum>pvc\<leftarrow>pvcs. claim_Size pvc) \<le> Allocatable sc) (capacitiesOf caps ids))
        (GetUnboundOrReleasingStorageClaimsByStorageClass t)) \<and>
   (fst (isTaskStorageAllocatableOnReleasingOrIdle ni caps t) \<longleftrightarrow>
      list_all (\<lambda>(cls, pvcs). case map_of (AccessibleStorageCapacities ni) cls of None \<Rightarrow> False
         | Some ids \<Rightarrow> list_all (\<lambda>sc. (\<Sum>pvc\<leftarrow>pvcs. claim_Size pvc) \<le> Allocatable sc + Capacity_Releasing sc (PodInfos ni)) (capacitiesOf caps ids))
        (GetUnboundOrReleasingStorageClaimsByStorageClass t))"
  unfolding isTaskStorageAllocatable_def isTaskStorageAllocatableOnReleasingOrIdle_def Let_def
  by (auto simp: storage_errors_fold firstError_None isTaskStorageAllocatableOnCapacities_def list_all_iff list_ex_iff
      ArePVCsAllocatable_iff ArePVCsAllocatableOnReleasingOrIdle_iff split: option.splits)

definition exampleClaims :: PodInfo where
  "exampleClaims = (examplePod ''p'' Pending)\<lparr>storageClaims :=
     [(''ns/c'', NewStorageClaimInfo ''ns/c'' ClaimPending 10 ''fast'' None)]\<rparr>"

definition exampleCaps :: capStore where
  "exampleCaps = List.map_filter (\<lambda>(uid, cap). map_option (\<lambda>sc. (uid, sc)) (NewStorageCapacityInfo uid uid ''fast'' cap None None))
     [(''small'', Some 5), (''large'', Some 50)]"

lemma allocatable_but_not_on_releasing:
  "let ni = exampleNode\<lparr>AccessibleStorageCapacities := [(''fast'', [''small'', ''large''])]\<rparr> in
     IsTaskAllocatable exampleEnv ni exampleCaps exampleClaims \<and>
     \<not> IsTaskAllocatableOnReleasingOrIdle exampleEnv ni exampleCaps exampleClaims"
  by code_simp

end
