(* ===== verification/Session.thy ===== *)
theory Session
  imports Fair_Hierarchy Node_Placement
begin

text \<open>
  The state of a scheduling session, \<^verbatim>\<open>framework/session.go\<close>, as far as tasks, jobs and nodes change in it.

  The code shares a task object between its job and the statement that moves it, and nodes keep clones. So task
  objects live in a store (\<open>taskRef\<close> is a pointer), and \<open>ssn_held\<close> says which object the job of a task
  currently stores for its UID: the one last given to \<^verbatim>\<open>UpdateTaskStatus\<close>. \<open>writeTask\<close> writes the fields of an
  object; where the job stores that object, its copies in the job change too. Node objects are named by their
  key in \<^verbatim>\<open>ClusterInfo.Nodes\<close>.

  Plugins take part through event handlers, which may change their own state \<open>'p\<close> and the task. What the cache does
  outside of the session is recorded in \<open>ssn_calls\<close>; whether a call fails may depend on all calls before it
  (\<open>cache_Evict\<close> and \<open>cache_Bind\<close>). Logs and metrics are not modelled.
\<close>

type_synonym taskRef = nat

record EvictionMetadata =
  EvictionGangSize :: int
  evict_Action :: string
  Preemptor :: "(string \<times> string) option"

datatype cacheCall =
    CacheEvict PodInfo string EvictionMetadata string
  | CacheBind PodInfo string "(string, string) gomap"
  | TaskPipelined PodInfo string
  | RecordPodGroupEvictionEvent string string

record ('aff, 'p) Session =
  ssn_PodGroupInfos :: "(string, PodGroupInfo) gomap"
  ssn_Nodes :: "(string, 'aff NodeInfo) gomap"
  ssn_caps :: capStore
  ssn_task :: "taskRef \<Rightarrow> PodInfo"
  ssn_held :: "PodID \<Rightarrow> taskRef option"
  ssn_next :: taskRef
  ssn_plugins :: 'p
  ssn_calls :: "cacheCall list"

record ('aff, 'p) EventHandler =
  AllocateFunc :: "(('aff, 'p) Session \<Rightarrow> PodInfo \<Rightarrow> 'p \<times> PodInfo) option"
  DeallocateFunc :: "(('aff, 'p) Session \<Rightarrow> PodInfo \<Rightarrow> 'p \<times> PodInfo) option"

record ('aff, 'p) ssn_env =
  se_node :: "'aff node_env"
  eventHandlers :: "('aff, 'p) EventHandler list"
  BindRequestMutateFns :: "(PodInfo \<Rightarrow> string \<Rightarrow> (string, string) gomap) list"
  cache_Evict :: "cacheCall list \<Rightarrow> PodInfo \<Rightarrow> string option"
  cache_Bind :: "cacheCall list \<Rightarrow> PodInfo \<Rightarrow> string \<Rightarrow> string option"
  se_now :: int

datatype ssn_error =
    JobMissing string
  | NodeMissing string
  | NodeOrJobMissing string string
  | JobFailed job_error
  | NodeFailed node_error
  | CacheFailed string
  | NothingToUndo string string
  | InvalidCheckpoint int int
  | ReverseFailed string ssn_error
  | RollbackFailed nat ssn_error

subsection \<open>Task objects\<close>

text \<open>All places in a job that hold task objects.\<close>

definition mapPodSet :: "(PodInfo \<Rightarrow> PodInfo) \<Rightarrow> PodSet \<Rightarrow> PodSet" where
  "mapPodSet f ps =
     ps\<lparr>podInfos := map (\<lambda>(u, p). (u, f p)) (podInfos ps),
        podStatusIndex := map (\<lambda>(s, m). (s, map (\<lambda>(u, p). (u, f p)) m)) (podStatusIndex ps)\<rparr>"

definition mapPods :: "(PodInfo \<Rightarrow> PodInfo) \<Rightarrow> PodGroupInfo \<Rightarrow> PodGroupInfo" where
  "mapPods f pgi =
     pgi\<lparr>PodSets := map (\<lambda>(n, ps). (n, mapPodSet f ps)) (PodSets pgi),
         InvalidSubGroupTasks := map (\<lambda>(u, p). (u, f p)) (InvalidSubGroupTasks pgi),
         allPodsMap := map_option (map (\<lambda>(u, p). (u, f p))) (allPodsMap pgi),
         tasksToAllocateByMode := map (\<lambda>(m, ts). (m, map f ts)) (tasksToAllocateByMode pgi),
         PodStatusIndex := map (\<lambda>(s, m). (s, map (\<lambda>(u, p). (u, f p)) m)) (PodStatusIndex pgi)\<rparr>"

definition storePod :: "PodInfo \<Rightarrow> PodGroupInfo \<Rightarrow> PodGroupInfo" where
  "storePod t pgi = mapPods (\<lambda>p. if pod_UID p = pod_UID t then t else p) pgi"

definition writeTask :: "taskRef \<Rightarrow> PodInfo \<Rightarrow> ('aff, 'p) Session \<Rightarrow> ('aff, 'p) Session" where
  "writeTask ref t ssn =
     ssn\<lparr>ssn_task := (ssn_task ssn)(ref := t),
         ssn_PodGroupInfos :=
           (if ssn_held ssn (pod_UID t) = Some ref
            then (case map_of (ssn_PodGroupInfos ssn) (pod_Job t) of
                    None \<Rightarrow> ssn_PodGroupInfos ssn
                  | Some job \<Rightarrow> AList.update (pod_Job t) (storePod t job) (ssn_PodGroupInfos ssn))
            else ssn_PodGroupInfos ssn)\<rparr>"

text \<open>\<^verbatim>\<open>PodInfo.Clone\<close> makes a new object.\<close>

definition newTask :: "PodInfo \<Rightarrow> ('aff, 'p) Session \<Rightarrow> taskRef \<times> ('aff, 'p) Session" where
  "newTask t ssn =
     (ssn_next ssn, ssn\<lparr>ssn_task := (ssn_task ssn)(ssn_next ssn := t), ssn_next := ssn_next ssn + 1\<rparr>)"

text \<open>\<open>job.UpdateTaskStatus\<close> on an object, for a job that is there.\<close>

definition updateStatus :: "taskRef \<Rightarrow> PodStatus \<Rightarrow> PodGroupInfo \<Rightarrow> ('aff, 'p) Session \<Rightarrow> job_error option \<times> ('aff, 'p) Session" where
  "updateStatus ref status job ssn =
     (let (err, t, job') = UpdateTaskStatus (ssn_task ssn ref) status job;
          ssn = ssn\<lparr>ssn_PodGroupInfos := AList.update (pod_Job t) job' (ssn_PodGroupInfos ssn),
                    ssn_task := (ssn_task ssn)(ref := t)\<rparr>
      in (err, if err = None then ssn\<lparr>ssn_held := (ssn_held ssn)(pod_UID t \<mapsto> ref)\<rparr> else ssn))"

text \<open>Node operations on an object; the node changes the accepted resources of the task.\<close>

definition onNode ::
  "('aff NodeInfo \<Rightarrow> capStore \<Rightarrow> PodInfo \<Rightarrow> 'aff NodeInfo \<times> capStore \<times> PodInfo \<times> node_error option) \<Rightarrow>
     string \<Rightarrow> 'aff NodeInfo \<Rightarrow> taskRef \<Rightarrow> ('aff, 'p) Session \<Rightarrow> node_error option \<times> ('aff, 'p) Session" where
  "onNode f host node ref ssn =
     (let (ni, caps, t, err) = f node (ssn_caps ssn) (ssn_task ssn ref)
      in (err, writeTask ref t (ssn\<lparr>ssn_Nodes := AList.update host ni (ssn_Nodes ssn), ssn_caps := caps\<rparr>)))"

definition nodeAddTask :: "('aff, 'p) ssn_env \<Rightarrow> string \<Rightarrow> 'aff NodeInfo \<Rightarrow> taskRef \<Rightarrow> ('aff, 'p) Session \<Rightarrow> node_error option \<times> ('aff, 'p) Session" where
  "nodeAddTask env = onNode (AddTask (se_node env))"

definition nodeUpdateTask :: "('aff, 'p) ssn_env \<Rightarrow> string \<Rightarrow> 'aff NodeInfo \<Rightarrow> taskRef \<Rightarrow> ('aff, 'p) Session \<Rightarrow> node_error option \<times> ('aff, 'p) Session" where
  "nodeUpdateTask env = onNode (UpdateTask (se_node env))"

definition nodeConsolidate :: "('aff, 'p) ssn_env \<Rightarrow> string \<Rightarrow> 'aff NodeInfo \<Rightarrow> taskRef \<Rightarrow> ('aff, 'p) Session \<Rightarrow> node_error option \<times> ('aff, 'p) Session" where
  "nodeConsolidate env = onNode (ConsolidateSharedPodInfoToDifferentGPU (se_node env))"

definition nodeRemoveTask :: "('aff, 'p) ssn_env \<Rightarrow> string \<Rightarrow> 'aff NodeInfo \<Rightarrow> taskRef \<Rightarrow> ('aff, 'p) Session \<Rightarrow> node_error option \<times> ('aff, 'p) Session" where
  "nodeRemoveTask env =
     onNode (\<lambda>node caps t. let (ni, caps, err) = RemoveTask (se_node env) node caps t in (ni, caps, t, err))"

subsection \<open>Event handlers\<close>

definition runHandlers ::
  "(('aff, 'p) Session \<Rightarrow> PodInfo \<Rightarrow> 'p \<times> PodInfo) option list \<Rightarrow> taskRef \<Rightarrow> ('aff, 'p) Session \<Rightarrow> ('aff, 'p) Session" where
  "runHandlers hs ref ssn =
     fold (\<lambda>h ssn. case h of
                     None \<Rightarrow> ssn
                   | Some f \<Rightarrow> let (p, t) = f ssn (ssn_task ssn ref) in writeTask ref t (ssn\<lparr>ssn_plugins := p\<rparr>)) hs ssn"

definition fireAllocate :: "('aff, 'p) ssn_env \<Rightarrow> taskRef \<Rightarrow> ('aff, 'p) Session \<Rightarrow> ('aff, 'p) Session" where
  "fireAllocate env = runHandlers (map AllocateFunc (eventHandlers env))"

definition fireDeallocate :: "('aff, 'p) ssn_env \<Rightarrow> taskRef \<Rightarrow> ('aff, 'p) Session \<Rightarrow> ('aff, 'p) Session" where
  "fireDeallocate env = runHandlers (map DeallocateFunc (eventHandlers env))"

subsection \<open>Operations of the session\<close>

definition updatePodOnSession :: "taskRef \<Rightarrow> PodStatus \<Rightarrow> ('aff, 'p) Session \<Rightarrow> ssn_error option \<times> ('aff, 'p) Session" where
  "updatePodOnSession ref status ssn =
     (let jobID = pod_Job (ssn_task ssn ref)
      in case map_of (ssn_PodGroupInfos ssn) jobID of
           None \<Rightarrow> (Some (JobMissing jobID), ssn)
         | Some job \<Rightarrow> let (err, ssn) = updateStatus ref status job ssn in (map_option JobFailed err, ssn))"

definition updatePodOnNode :: "('aff, 'p) ssn_env \<Rightarrow> taskRef \<Rightarrow> ('aff, 'p) Session \<Rightarrow> ssn_error option \<times> ('aff, 'p) Session" where
  "updatePodOnNode env ref ssn =
     (let host = NodeName (ssn_task ssn ref)
      in case map_of (ssn_Nodes ssn) host of
           None \<Rightarrow> (Some (NodeMissing host), ssn)
         | Some node \<Rightarrow> let (err, ssn) = nodeUpdateTask env host node ref ssn in (map_option NodeFailed err, ssn))"

definition MutateBindRequestAnnotations :: "('aff, 'p) ssn_env \<Rightarrow> PodInfo \<Rightarrow> string \<Rightarrow> (string, string) gomap" where
  "MutateBindRequestAnnotations env pod nodeName =
     fold (\<lambda>fn annotations. fold (\<lambda>(k, v) m. AList.update k v m) (fn pod nodeName) annotations) (BindRequestMutateFns env) []"

definition recordCall :: "cacheCall \<Rightarrow> ('aff, 'p) Session \<Rightarrow> ('aff, 'p) Session" where
  "recordCall c ssn = ssn\<lparr>ssn_calls := ssn_calls ssn @ [c]\<rparr>"

definition BindPod :: "('aff, 'p) ssn_env \<Rightarrow> taskRef \<Rightarrow> ('aff, 'p) Session \<Rightarrow> ssn_error option \<times> ('aff, 'p) Session" where
  "BindPod env ref ssn =
     (let pod = ssn_task ssn ref;
          bindRequestAnnotations = MutateBindRequestAnnotations env pod (NodeName pod);
          err = cache_Bind env (ssn_calls ssn) pod (NodeName pod);
          ssn = recordCall (CacheBind pod (NodeName pod) bindRequestAnnotations) ssn
      in case err of
           Some e \<Rightarrow> (Some (CacheFailed e), ssn)
         | None \<Rightarrow> updatePodOnSession ref Binding ssn)"

definition ssn_Evict ::
  "('aff, 'p) ssn_env \<Rightarrow> taskRef \<Rightarrow> string \<Rightarrow> EvictionMetadata \<Rightarrow> ('aff, 'p) Session \<Rightarrow> ssn_error option \<times> ('aff, 'p) Session" where
  "ssn_Evict env ref message metadata ssn =
     (let pod = ssn_task ssn ref
      in case map_of (ssn_PodGroupInfos ssn) (pod_Job pod) of
           None \<Rightarrow> (Some (JobMissing (pod_Job pod)), ssn)
         | Some podGroup \<Rightarrow>
             let failed = cache_Evict env (ssn_calls ssn) pod;
                 ssn = recordCall (CacheEvict pod (pg_UID podGroup) metadata message) ssn
             in case failed of
                  Some e \<Rightarrow> (Some (CacheFailed e), ssn)
                | None \<Rightarrow>
                    let (err, ssn) = updatePodOnSession ref Releasing ssn
                    in if err \<noteq> None then (err, ssn)
                       else let (err, ssn) = updatePodOnNode env ref ssn
                            in if err \<noteq> None then (err, ssn) else (None, fireDeallocate env ref ssn))"

end
