(* ===== verification/Session_Fit.thy ===== *)
theory Session_Fit
  imports Session
begin

text \<open>
  Where a task of a session can go: \<^verbatim>\<open>framework/session.go\<close> (fitting GPUs, fitting nodes, the order of nodes) and the
  plugin calls of \<^verbatim>\<open>framework/session_plugins.go\<close> it uses, with \<^verbatim>\<open>NodeInfo.FittingError\<close>.

  Functions that plugins register are fields of \<open>alloc_env\<close>. A function that may change the state of its plugin, or
  record fit errors in a job, returns the changed session; scores are only read. Jobs, nodes and tasks
  are passed as keys and references into the session, as the code passes pointers. A worker of the scoring pool fills
  its own range of the array of scores.

  The lemmas show that splitting the scoring among workers, in whatever order they run, gives the scores of all nodes,
  that nodes come in the order of their scores, ties by name, and that the GPUs offered to a task are those it fits.
\<close>

type_synonym NodeSet = "string list"

record ('aff, 'p, 'q) alloc_env =
  ae_ssn :: "('aff, 'p) ssn_env"
  ae_fit :: "'q fit_env"
  PreJobAllocationFns :: "(('aff, 'p) Session \<Rightarrow> string \<Rightarrow> ('aff, 'p) Session) list"
  IsJobOverCapacityFns :: "(('aff, 'p) Session \<Rightarrow> string \<Rightarrow> taskRef list \<Rightarrow> SchedulableResult \<times> ('aff, 'p) Session) list"
  SubsetNodesFns ::
    "(('aff, 'p) Session \<Rightarrow> string \<Rightarrow> string \<Rightarrow> string list \<Rightarrow> taskRef list \<Rightarrow> NodeSet \<Rightarrow> (string + NodeSet list) \<times> ('aff, 'p) Session) list"
  PrePredicateFns :: "(('aff, 'p) Session \<Rightarrow> taskRef \<Rightarrow> string \<Rightarrow> string option \<times> ('aff, 'p) Session) list"
  PredicateFns :: "(('aff, 'p) Session \<Rightarrow> taskRef \<Rightarrow> string \<Rightarrow> string \<Rightarrow> go_error option \<times> ('aff, 'p) Session) list"
  NodePreOrderFns :: "(('aff, 'p) Session \<Rightarrow> taskRef \<Rightarrow> NodeSet \<Rightarrow> ('aff, 'p) Session) list"
  NodeOrderFns :: "(('aff, 'p) Session \<Rightarrow> PodInfo \<Rightarrow> 'aff NodeInfo \<Rightarrow> float64 option) list"
  GpuOrderFns :: "(('aff, 'p) Session \<Rightarrow> PodInfo \<Rightarrow> 'aff NodeInfo \<Rightarrow> string \<Rightarrow> float64 option) list"
  NumaPlacementFn :: "(('aff, 'p) Session \<Rightarrow> taskRef \<Rightarrow> string \<Rightarrow> (string + NUMAPlacement) \<times> ('aff, 'p) Session) option"
  NewUUID :: "('aff, 'p) Session \<Rightarrow> string \<times> ('aff, 'p) Session"
  scoringPoolWorkerCount :: int
  ae_orders :: OrderFns

subsection \<open>Calls of plugins\<close>

definition PreJobAllocation :: "('aff, 'p, 'q) alloc_env \<Rightarrow> string \<Rightarrow> ('aff, 'p) Session \<Rightarrow> ('aff, 'p) Session" where
  "PreJobAllocation ae job ssn = fold (\<lambda>fn ssn. fn ssn job) (PreJobAllocationFns ae) ssn"

definition IsJobOverQueueCapacityFn ::
  "('aff, 'p, 'q) alloc_env \<Rightarrow> string \<Rightarrow> taskRef list \<Rightarrow> ('aff, 'p) Session \<Rightarrow> SchedulableResult \<times> ('aff, 'p) Session" where
  "IsJobOverQueueCapacityFn ae job tasksToAllocate ssn =
     (case IsJobOverCapacityFns ae of
        fn # _ \<Rightarrow> fn ssn job tasksToAllocate
      | [] \<Rightarrow> (\<lparr>IsSchedulable = True, Reason = None, Message = [], Details = None\<rparr>, ssn))"

fun subsetEach ::
  "(('aff, 'p) Session \<Rightarrow> NodeSet \<Rightarrow> (string + NodeSet list) \<times> ('aff, 'p) Session) \<Rightarrow> NodeSet list \<Rightarrow> ('aff, 'p) Session \<Rightarrow>
     (string + NodeSet list) \<times> ('aff, 'p) Session" where
  "subsetEach fn [] ssn = (Inr [], ssn)"
| "subsetEach fn (nodeSet # nodeSets) ssn =
     (case fn ssn nodeSet of
        (Inl err, ssn) \<Rightarrow> (Inl err, ssn)
      | (Inr nodeSubsets, ssn) \<Rightarrow>
          (case subsetEach fn nodeSets ssn of
             (Inl err, ssn) \<Rightarrow> (Inl err, ssn)
           | (Inr rest, ssn) \<Rightarrow> (Inr (nodeSubsets @ rest), ssn)))"

fun subsetLoop ::
  "(('aff, 'p) Session \<Rightarrow> string \<Rightarrow> string \<Rightarrow> string list \<Rightarrow> taskRef list \<Rightarrow> NodeSet \<Rightarrow> (string + NodeSet list) \<times> ('aff, 'p) Session) list \<Rightarrow>
     string \<Rightarrow> string \<Rightarrow> string list \<Rightarrow> taskRef list \<Rightarrow> NodeSet list \<Rightarrow> ('aff, 'p) Session \<Rightarrow> (string + NodeSet list) \<times> ('aff, 'p) Session" where
  "subsetLoop [] podGroup subGroup podSets tasks nodeSets ssn = (Inr nodeSets, ssn)"
| "subsetLoop (fn # fns) podGroup subGroup podSets tasks nodeSets ssn =
     (case subsetEach (\<lambda>ssn. fn ssn podGroup subGroup podSets tasks) nodeSets ssn of
        (Inl err, ssn) \<Rightarrow> (Inl err, ssn)
      | (Inr newNodeSets, ssn) \<Rightarrow> subsetLoop fns podGroup subGroup podSets tasks newNodeSets ssn)"

definition SubsetNodesFn ::
  "('aff, 'p, 'q) alloc_env \<Rightarrow> string \<Rightarrow> string \<Rightarrow> string list \<Rightarrow> taskRef list \<Rightarrow> NodeSet \<Rightarrow> ('aff, 'p) Session \<Rightarrow>
     (string + NodeSet list) \<times> ('aff, 'p) Session" where
  "SubsetNodesFn ae podGroup subGroup podSets tasks initNodeSet ssn =
     subsetLoop (SubsetNodesFns ae) podGroup subGroup podSets tasks [initNodeSet] ssn"

fun firstErrorOf :: "(('aff, 'p) Session \<Rightarrow> 'e option \<times> ('aff, 'p) Session) list \<Rightarrow> ('aff, 'p) Session \<Rightarrow> 'e option \<times> ('aff, 'p) Session" where
  "firstErrorOf [] ssn = (None, ssn)"
| "firstErrorOf (fn # fns) ssn = (case fn ssn of (Some err, ssn) \<Rightarrow> (Some err, ssn) | (None, ssn) \<Rightarrow> firstErrorOf fns ssn)"

definition PrePredicateFn :: "('aff, 'p, 'q) alloc_env \<Rightarrow> taskRef \<Rightarrow> string \<Rightarrow> ('aff, 'p) Session \<Rightarrow> string option \<times> ('aff, 'p) Session" where
  "PrePredicateFn ae task job ssn = firstErrorOf (map (\<lambda>fn ssn. fn ssn task job) (PrePredicateFns ae)) ssn"

definition PredicateFn :: "('aff, 'p, 'q) alloc_env \<Rightarrow> taskRef \<Rightarrow> string \<Rightarrow> string \<Rightarrow> ('aff, 'p) Session \<Rightarrow> go_error option \<times> ('aff, 'p) Session" where
  "PredicateFn ae task job node ssn = firstErrorOf (map (\<lambda>fn ssn. fn ssn task job node) (PredicateFns ae)) ssn"

text \<open>The sum of the scores, or an error (\<open>None\<close>).\<close>

fun sumScores :: "float64 option list \<Rightarrow> float64 \<Rightarrow> float64 option" where
  "sumScores [] score = Some score"
| "sumScores (None # rest) score = None"
| "sumScores (Some x # rest) score = sumScores rest (score + x)"

definition GpuOrderFn :: "('aff, 'p, 'q) alloc_env \<Rightarrow> ('aff, 'p) Session \<Rightarrow> PodInfo \<Rightarrow> 'aff NodeInfo \<Rightarrow> string \<Rightarrow> float64 option" where
  "GpuOrderFn ae ssn task node gpuIdx = sumScores (map (\<lambda>gof. gof ssn task node gpuIdx) (GpuOrderFns ae)) 0"

definition NodeOrderFn :: "('aff, 'p, 'q) alloc_env \<Rightarrow> ('aff, 'p) Session \<Rightarrow> PodInfo \<Rightarrow> 'aff NodeInfo \<Rightarrow> float64 option" where
  "NodeOrderFn ae ssn task node = sumScores (map (\<lambda>nof. nof ssn task node) (NodeOrderFns ae)) 0"

definition NodePreOrderFn :: "('aff, 'p, 'q) alloc_env \<Rightarrow> taskRef \<Rightarrow> NodeSet \<Rightarrow> ('aff, 'p) Session \<Rightarrow> ('aff, 'p) Session" where
  "NodePreOrderFn ae task fittingNodes ssn = fold (\<lambda>fn ssn. fn ssn task fittingNodes) (NodePreOrderFns ae) ssn"

definition GetNumaPlacement :: "('aff, 'p, 'q) alloc_env \<Rightarrow> taskRef \<Rightarrow> string \<Rightarrow> ('aff, 'p) Session \<Rightarrow> (string + NUMAPlacement) \<times> ('aff, 'p) Session" where
  "GetNumaPlacement ae task node ssn =
     (case NumaPlacementFn ae of None \<Rightarrow> (Inr NoPlacement, ssn) | Some fn \<Rightarrow> fn ssn task node)"

subsection \<open>Fit errors of a node\<close>

definition storageErrorText :: "task_storage_error \<Rightarrow> string" where
  "storageErrorText e =
     (case e of
        DeletedStorageClaims names \<Rightarrow> ''task has deleted storage claims: '' @ names
      | NoStorageClass cls \<Rightarrow> ''no allocatable storage from storageclass '' @ cls @ '' found''
      | NotEnoughStorage cls \<Rightarrow> ''node(s) did not have enough free storage for storageclass '' @ cls
      | CapacityError _ \<Rightarrow> [])"

definition overheadSuffix :: "'q fit_env \<Rightarrow> 'aff node_env \<Rightarrow> 'aff NodeInfo \<Rightarrow> PodInfo \<Rightarrow> string" where
  "overheadSuffix fe ne ni task =
     (if Overhead fe task \<noteq> [] \<and>
         lessEqualTaskToNodeResources ne ni task (Vector_Add (IdleVector ni) (NewResourceVectorFromResourceList (fit_rc fe)
           (convertResourceToFloat64 (fit_rc fe) (Quantity_MilliValue fe) (Quantity_Value fe)) (Overhead fe task) (ni_VectorMap ni)))
      then OverheadMessage @ ''. The overhead resources are '' @ StringResourceList fe (Overhead fe task)
      else [])"

definition FittingError :: "'q fit_env \<Rightarrow> 'aff node_env \<Rightarrow> 'aff NodeInfo \<Rightarrow> capStore \<Rightarrow> PodInfo \<Rightarrow> bool \<Rightarrow> TasksFitError option" where
  "FittingError fe ne ni caps task isGangTask =
     (if \<not> lessEqualTaskToNodeResources ne ni task (IdleVector ni)
      then let totalUsedVector = Set (UsedVector ni) GPUIndex (Get (UsedVector ni) GPUIndex + of_int (getNumberOfUsedSharedGPUs ni));
               requestedGpuReq = (if gpuMemory (GpuRequirement task) > 0
                  then NewGpuResourceRequirementWithMultiFraction (GetNumOfGpuDevices (GpuRequirement task))
                         (getResourceGpuPortion ni (GpuRequirement task)) (gpuMemory (GpuRequirement task))
                  else GpuRequirement task)
           in Some (NewFitErrorInsufficientResource fe (pod_Name task) (pod_Namespace task) (ni_Name ni) requestedGpuReq (ResReqVector task)
                totalUsedVector (AllocatableVector ni) (ni_VectorMap ni) (MemoryOfEveryGpuOnNode ni) isGangTask (overheadSuffix fe ne ni task))
      else let (allocatable, errs) = isTaskStorageAllocatable ni caps task;
               err = Multierr_Error fe (map storageErrorText errs)
           in if \<not> allocatable then Some (NewFitErrorByReasons (pod_Name task) (pod_Namespace task) (ni_Name ni) (Some err) [err]) else None)"

subsection \<open>Fitting GPUs\<close>

definition WholeGpuIndicator :: string where "WholeGpuIndicator = ''-2''"

definition filterGpusByEnoughResources :: "'aff node_env \<Rightarrow> 'aff NodeInfo \<Rightarrow> PodInfo \<Rightarrow> string list" where
  "filterGpusByEnoughResources ne node pod =
     (let filteredGPUs = filter (\<lambda>gpuIdx. IsTaskFitOnGpuGroup ne node pod gpuIdx) (gokeys (UsedSharedGPUsMemory node));
          idleGPUs = Get (IdleVector node) GPUIndex;
          releasingGPUs = Get (ReleasingVector node) GPUIndex
      in if idleGPUs > 0 \<or> releasingGPUs > 0
         then filteredGPUs @ replicate (nat (int64_trunc idleGPUs + int64_trunc releasingGPUs)) WholeGpuIndicator
         else filteredGPUs)"

definition groupByScore :: "(string \<Rightarrow> float64 option) \<Rightarrow> string list \<Rightarrow> (float64, string list) gomap" where
  "groupByScore score gpus =
     fold (\<lambda>gpuIdx gpuScores. case score gpuIdx of
             None \<Rightarrow> gpuScores
           | Some s \<Rightarrow> AList.update s ((case map_of gpuScores s of None \<Rightarrow> [] | Some gs \<Rightarrow> gs) @ [gpuIdx]) gpuScores) gpus []"

definition sortGPUs :: "(float64, string list) gomap \<Rightarrow> string list" where
  "sortGPUs gpuScores =
     concat (map (\<lambda>s. case map_of gpuScores s of None \<Rightarrow> [] | Some gs \<Rightarrow> gs) (go_sort (\<lambda>x y. y < x) (gokeys gpuScores)))"

definition ssn_sortGPUs :: "('aff, 'p, 'q) alloc_env \<Rightarrow> ('aff, 'p) Session \<Rightarrow> string list \<Rightarrow> PodInfo \<Rightarrow> 'aff NodeInfo \<Rightarrow> string list" where
  "ssn_sortGPUs ae ssn filteredGPUs pod node = sortGPUs (groupByScore (GpuOrderFn ae ssn pod node) filteredGPUs)"

definition FittingGPUs :: "('aff, 'p, 'q) alloc_env \<Rightarrow> ('aff, 'p) Session \<Rightarrow> 'aff NodeInfo \<Rightarrow> PodInfo \<Rightarrow> string list" where
  "FittingGPUs ae ssn node pod = ssn_sortGPUs ae ssn (filterGpusByEnoughResources (se_node (ae_ssn ae)) node pod) pod node"

subsection \<open>Fitting nodes\<close>

definition putJob :: "string \<Rightarrow> PodGroupInfo \<Rightarrow> ('aff, 'p) Session \<Rightarrow> ('aff, 'p) Session" where
  "putJob key job ssn = ssn\<lparr>ssn_PodGroupInfos := AList.update key job (ssn_PodGroupInfos ssn)\<rparr>"

text \<open>\<open>job\<close> is the job under the key \<open>jobID\<close>; the cached map of its pods may be filled on the way.\<close>

definition isTaskAllocatableOnNode ::
  "('aff, 'p, 'q) alloc_env \<Rightarrow> PodInfo \<Rightarrow> string \<Rightarrow> PodGroupInfo \<Rightarrow> 'aff NodeInfo \<Rightarrow> bool \<Rightarrow> ('aff, 'p) Session \<Rightarrow>
     bool \<times> TasksFitError option \<times> ('aff, 'p) Session" where
  "isTaskAllocatableOnNode ae task jobID job node writeFittingDelta ssn =
     (let ne = se_node (ae_ssn ae)
      in if IsTaskAllocatableOnReleasingOrIdle ne node (ssn_caps ssn) task then (True, None, ssn)
         else if writeFittingDelta \<and> \<not> IsTaskAllocatable ne node (ssn_caps ssn) task
         then let (podsMap, job) = GetAllPodsMap job
              in (False, FittingError (ae_fit ae) ne node (ssn_caps ssn) task (length podsMap > 1), putJob jobID job ssn)
         else (False, None, ssn))"

definition addNodeFitError :: "PodInfo \<Rightarrow> string \<Rightarrow> go_error \<Rightarrow> ('aff, 'p) Session \<Rightarrow> ('aff, 'p) Session" where
  "addNodeFitError task jobID err ssn =
     (case map_of (ssn_PodGroupInfos ssn) jobID of
        None \<Rightarrow> ssn
      | Some job \<Rightarrow> putJob jobID (AddTaskFitErrors task (AddNodeError (Some err) NewFitErrors) job) ssn)"

text \<open>The code dereferences the job and the node; both are there when \<open>allocateTask\<close> calls.\<close>

definition FittingNode :: "('aff, 'p, 'q) alloc_env \<Rightarrow> taskRef \<Rightarrow> string \<Rightarrow> bool \<Rightarrow> ('aff, 'p) Session \<Rightarrow> bool \<times> ('aff, 'p) Session" where
  "FittingNode ae ref host writeFittingDelta ssn =
     (let task = ssn_task ssn ref; jobID = pod_Job task
      in case (map_of (ssn_PodGroupInfos ssn) jobID, map_of (ssn_Nodes ssn) host) of
           (Some job, Some node) \<Rightarrow>
             (case isTaskAllocatableOnNode ae task jobID job node writeFittingDelta ssn of
                (False, fitError, ssn) \<Rightarrow>
                  (case fitError of
                     Some e \<Rightarrow> (False, if writeFittingDelta then addNodeFitError task jobID (FitError e) ssn else ssn)
                   | None \<Rightarrow> (False, ssn))
              | (True, _, ssn) \<Rightarrow>
                  (case PredicateFn ae ref jobID host ssn of
                     (Some err, ssn) \<Rightarrow> (False, if writeFittingDelta then addNodeFitError task jobID err ssn else ssn)
                   | (None, ssn) \<Rightarrow> (True, ssn)))
         | _ \<Rightarrow> (False, ssn))"

definition taskFitErrorFromError :: "PodInfo \<Rightarrow> 'aff NodeInfo \<Rightarrow> go_error \<Rightarrow> TasksFitError" where
  "taskFitErrorFromError task node err =
     (case err of
        FitError fitError \<Rightarrow> fitError\<lparr>fit_NodeName := ni_Name node\<rparr>
      | OtherError text \<Rightarrow> NewFitError (pod_Name task) (pod_Namespace task) (ni_Name node) text)"

definition recomputeOnNode ::
  "('aff, 'p, 'q) alloc_env \<Rightarrow> taskRef \<Rightarrow> string \<Rightarrow> string \<times> 'aff NodeInfo \<Rightarrow> TasksFitError list \<times> ('aff, 'p) Session \<Rightarrow> TasksFitError list \<times> ('aff, 'p) Session" where
  "recomputeOnNode ae ref jobID hostNode acc =
     (case (hostNode, acc) of ((host, node), (nodeErrors, ssn)) \<Rightarrow>
        let task = ssn_task ssn ref
        in case map_of (ssn_PodGroupInfos ssn) jobID of
             None \<Rightarrow> (nodeErrors, ssn)
           | Some job \<Rightarrow>
               (case isTaskAllocatableOnNode ae task jobID job node True ssn of
                  (False, fitError, ssn) \<Rightarrow> (nodeErrors @ (case fitError of None \<Rightarrow> [] | Some e \<Rightarrow> [e]), ssn)
                | (True, _, ssn) \<Rightarrow>
                    (case PredicateFn ae ref jobID host ssn of
                       (Some err, ssn) \<Rightarrow> (nodeErrors @ [taskFitErrorFromError task node err], ssn)
                     | (None, ssn) \<Rightarrow> (nodeErrors, ssn))))"

definition RecomputeDetailedFitErrors ::
  "('aff, 'p, 'q) alloc_env \<Rightarrow> string \<Rightarrow> taskRef \<Rightarrow> ('aff, 'p) Session \<Rightarrow> TasksFitError list \<times> ('aff, 'p) Session" where
  "RecomputeDetailedFitErrors ae jobID ref ssn =
     (case PrePredicateFn ae ref jobID ssn of
        (Some _, ssn) \<Rightarrow> ([], ssn)
      | (None, ssn) \<Rightarrow> fold (recomputeOnNode ae ref jobID) (ssn_Nodes ssn) ([], ssn))"

subsection \<open>The order of nodes\<close>

text \<open>A score of a node, or a hole where scoring failed.\<close>

type_synonym nodeScore = "(string \<times> string \<times> float64) option"

text \<open>The node is named by its key; its name, for ties, is read from the node.\<close>

definition scoreNode :: "('aff, 'p, 'q) alloc_env \<Rightarrow> ('aff, 'p) Session \<Rightarrow> PodInfo \<Rightarrow> string \<Rightarrow> nodeScore" where
  "scoreNode ae ssn task host =
     (case map_of (ssn_Nodes ssn) host of
        None \<Rightarrow> None
      | Some node \<Rightarrow> map_option (\<lambda>score. (host, ni_Name node, score)) (NodeOrderFn ae ssn task node))"

definition numWorkers :: "int \<Rightarrow> nat \<Rightarrow> nat" where
  "numWorkers poolWorkers n = nat (max (min poolWorkers (int n)) 1)"

definition chunkIndices :: "nat \<Rightarrow> nat \<Rightarrow> nat \<Rightarrow> nat list" where
  "chunkIndices n chunkSize idx = [idx * chunkSize ..< min (idx * chunkSize + chunkSize) n]"

definition scoreChunk :: "('a \<Rightarrow> 'b) \<Rightarrow> 'a list \<Rightarrow> nat list \<Rightarrow> 'b list \<Rightarrow> 'b list" where
  "scoreChunk score nodes indices scores = fold (\<lambda>i scores. scores[i := score (nodes ! i)]) indices scores"

definition nodeBefore :: "string \<times> string \<times> float64 \<Rightarrow> string \<times> string \<times> float64 \<Rightarrow> bool" where
  "nodeBefore a b \<longleftrightarrow> snd (snd a) > snd (snd b) \<or> (snd (snd a) = snd (snd b) \<and> fst (snd a) < fst (snd b))"

definition sortNodesByScore :: "nodeScore list \<Rightarrow> string list" where
  "sortNodesByScore scores = map fst (go_sort nodeBefore (map the (filter (\<lambda>s. s \<noteq> None) scores)))"

definition OrderedNodesByTask :: "('aff, 'p, 'q) alloc_env \<Rightarrow> NodeSet \<Rightarrow> taskRef \<Rightarrow> ('aff, 'p) Session \<Rightarrow> string list \<times> ('aff, 'p) Session" where
  "OrderedNodesByTask ae nodes ref ssn =
     (let ssn = NodePreOrderFn ae ref nodes ssn;
          workers = numWorkers (scoringPoolWorkerCount ae) (length nodes);
          chunkSize = (length nodes + workers - 1) div workers;
          scores = fold (\<lambda>idx. scoreChunk (scoreNode ae ssn (ssn_task ssn ref)) nodes (chunkIndices (length nodes) chunkSize idx))
                     [0 ..< workers] (replicate (length nodes) None)
      in (sortNodesByScore scores, ssn))"

subsection \<open>Laws of the order\<close>

text \<open>The scores do not depend on which worker fills which entry when, as long as every entry is filled.\<close>

lemma scoreChunk_length [simp]: "length (scoreChunk score nodes indices scores) = length scores"
  unfolding scoreChunk_def by (induction indices arbitrary: scores) simp_all

lemma scoreChunk_nth:
  "i < length scores \<Longrightarrow> scoreChunk score nodes indices scores ! i = (if i \<in> set indices then score (nodes ! i) else scores ! i)"
  unfolding scoreChunk_def by (induction indices arbitrary: scores) (auto simp: nth_list_update)

lemma scoreChunk_any_order:
  assumes "set indices = {..<length nodes}" and "length scores = length nodes"
  shows "scoreChunk score nodes indices scores = map score nodes"
  by (rule nth_equalityI) (use assms in \<open>simp_all add: scoreChunk_nth\<close>)

lemma scoreChunk_fold: "fold (\<lambda>idx. scoreChunk score nodes (is idx)) idxs scores = scoreChunk score nodes (concat (map is idxs)) scores"
  by (induction idxs arbitrary: scores) (simp_all add: scoreChunk_def)

lemma chunks_cover:
  assumes "0 < w"
  shows "set (concat (map (chunkIndices n ((n + w - 1) div w)) [0 ..< w])) = {..<n}"
proof -
  let ?c = "(n + w - 1) div w"
  have enough: "n \<le> w * ?c"
  proof -
    have "n + w - 1 < w * ?c + w" using assms by (metis mult.commute dividend_less_times_div mult_Suc_right add.commute)
    then show ?thesis by simp
  qed
  have "\<exists>idx<w. idx * ?c \<le> i \<and> i < idx * ?c + ?c" if "i < n" for i
  proof (intro exI conjI)
    have c: "0 < ?c" using that enough by (cases "?c = 0") auto
    show "i div ?c < w" using that enough c by (simp add: less_mult_imp_div_less)
    show "i div ?c * ?c \<le> i" by simp
    show "i < i div ?c * ?c + ?c" using c by (metis add.commute dividend_less_div_times)
  qed
  then show ?thesis by (auto simp: chunkIndices_def; fastforce)
qed

lemma numWorkers_pos [simp]: "0 < numWorkers p n"
  by (simp add: numWorkers_def)

lemma OrderedNodesByTask_scores:
  "OrderedNodesByTask ae nodes ref ssn =
     (let ssn = NodePreOrderFn ae ref nodes ssn in (sortNodesByScore (map (scoreNode ae ssn (ssn_task ssn ref)) nodes), ssn))"
  unfolding OrderedNodesByTask_def Let_def scoreChunk_fold
  by (subst scoreChunk_any_order [OF chunks_cover]) simp_all

interpretation node_order: less_fn nodeBefore
  by unfold_locales (auto simp: nodeBefore_def)

lemma sortNodesByScore_mset:
  assumes "\<forall>h x. f h = Some x \<longrightarrow> fst x = h"
  shows "mset (sortNodesByScore (map f nodes)) = mset (filter (\<lambda>h. f h \<noteq> None) nodes)"
proof -
  have "map fst (map the (filter (\<lambda>s. s \<noteq> None) (map f nodes))) = filter (\<lambda>h. f h \<noteq> None) nodes"
    by (induction nodes) (use assms in auto)
  moreover have "mset (map fst (go_sort nodeBefore xs)) = mset (map fst xs)" for xs by simp
  ultimately show ?thesis unfolding sortNodesByScore_def by (simp only:)
qed

lemma scoreNode_key: "\<forall>h x. scoreNode ae ssn task h = Some x \<longrightarrow> fst x = h"
  by (auto simp: scoreNode_def split: option.splits)

lemma sortNodesByScore_sorted:
  assumes "\<forall>h x. f h = Some x \<longrightarrow> fst x = h"
  shows "sorted_wrt (\<lambda>a b. \<not> nodeBefore (the (f b)) (the (f a))) (sortNodesByScore (map f nodes))"
proof -
  let ?xs = "go_sort nodeBefore (map the (filter (\<lambda>s. s \<noteq> None) (map f nodes)))"
  have x: "the (f (fst x)) = x" if "x \<in> set ?xs" for x using that assms by (auto; metis fst_conv option.sel)
  have "sorted_wrt (\<lambda>x y. \<not> nodeBefore y x) ?xs" by (rule node_order.sorted_go_sort)
  then have "sorted_wrt (\<lambda>x y. \<not> nodeBefore (the (f (fst y))) (the (f (fst x)))) ?xs"
    by (rule sorted_wrt_mono_rel [rotated]) (metis x)
  then show ?thesis by (simp add: sortNodesByScore_def sorted_wrt_map)
qed

text \<open>C37. The order of nodes for a task. However the workers of the scoring pool are scheduled, and however often an entry
  is filled, if every entry of the array of scores is filled with the score of its node then the
  nodes come out in one and the same order: each node whose scoring succeeds as often as it is in the list, by
  falling score and, among equal scores, by name.\<close>

theorem ordered_nodes_by_task:
  "let (hosts, ssn') = OrderedNodesByTask ae nodes ref ssn; score = scoreNode ae ssn' (ssn_task ssn' ref) in
     ssn' = NodePreOrderFn ae ref nodes ssn \<and>
     (\<forall>schedule. set schedule = {..<length nodes} \<longrightarrow>
        sortNodesByScore (scoreChunk score nodes schedule (replicate (length nodes) None)) = hosts) \<and>
     mset hosts = mset (filter (\<lambda>h. score h \<noteq> None) nodes) \<and>
     sorted_wrt (\<lambda>a b. \<not> nodeBefore (the (score b)) (the (score a))) hosts"
proof -
  define ssn' where "ssn' = NodePreOrderFn ae ref nodes ssn"
  let ?score = "scoreNode ae ssn' (ssn_task ssn' ref)"
  have "\<forall>schedule. set schedule = {..<length nodes} \<longrightarrow>
      sortNodesByScore (scoreChunk ?score nodes schedule (replicate (length nodes) None)) = sortNodesByScore (map ?score nodes)"
    by (simp add: scoreChunk_any_order)
  then show ?thesis
    using sortNodesByScore_mset [OF scoreNode_key, of ae ssn' "ssn_task ssn' ref" nodes]
      sortNodesByScore_sorted [OF scoreNode_key, of ae ssn' "ssn_task ssn' ref" nodes]
    by (simp add: OrderedNodesByTask_scores Let_def flip: ssn'_def)
qed

text \<open>A session with two nodes and a scheduler without plugins.\<close>

definition exampleFit :: "int fit_env" where
  "exampleFit =
     \<lparr>FormatFloat = (\<lambda>_. []), FtoaWithDigits = (\<lambda>_. []), InsufficientResourceError_Error = (\<lambda>_ _ _ _. []),
      Multierr_Error = (\<lambda>es. strings_Join es ''; ''), Quantity_String = Itoa, Quantity_MilliValue = (\<lambda>q. q * 1000), Quantity_Value = (\<lambda>q. q),
      Overhead = (\<lambda>_. []), fit_rc = ne_rc exampleEnv\<rparr>"

definition bareAlloc :: "('aff, 'p) ssn_env \<Rightarrow> ('aff, 'p, int) alloc_env" where
  "bareAlloc env =
     \<lparr>ae_ssn = env, ae_fit = exampleFit, PreJobAllocationFns = [], IsJobOverCapacityFns = [], SubsetNodesFns = [], PrePredicateFns = [],
      PredicateFns = [], NodePreOrderFns = [], NodeOrderFns = [], GpuOrderFns = [], NumaPlacementFn = None,
      NewUUID = (\<lambda>ssn. (''c8a3'', ssn)), scoringPoolWorkerCount = 4, ae_orders = exampleFns\<rparr>"

definition bareEnv :: "(string list, 'p) ssn_env" where
  "bareEnv = \<lparr>se_node = exampleEnv, eventHandlers = [], BindRequestMutateFns = [], cache_Evict = (\<lambda>_ _. None),
     cache_Bind = (\<lambda>_ _ _. None), se_now = 0\<rparr>"

definition twoNodes :: "'p \<Rightarrow> (string list, 'p) Session" where
  "twoNodes plugins =
     \<lparr>ssn_PodGroupInfos = [(''job'', exampleJob)], ssn_Nodes = [(''n'', exampleNode), (''m'', exampleNode\<lparr>ni_Name := ''m''\<rparr>)], ssn_caps = [],
      ssn_task = (\<lambda>_. examplePod ''b'' Pending), ssn_held = [''b'' \<mapsto> 0], ssn_next = 1, ssn_plugins = plugins, ssn_calls = []\<rparr>"

theorem ordered_nodes_by_task_witness:
  "let ae = (bareAlloc bareEnv)\<lparr>NodeOrderFns := [\<lambda>_ _ node. Some (if ni_Name node = ''m'' then 1 else 0)]\<rparr>;
       score = scoreNode ae (twoNodes ()) (ssn_task (twoNodes ()) 0)
   in sortNodesByScore (scoreChunk score [''n'', ''m''] [1, 0, 1] (replicate 2 None)) = fst (OrderedNodesByTask ae [''n'', ''m''] 0 (twoNodes ()))"
proof -
  define ae where "ae = (bareAlloc (bareEnv :: (string list, unit) ssn_env))\<lparr>NodeOrderFns := [\<lambda>_ _ node. Some (if ni_Name node = ''m'' then 1 else 0)]\<rparr>"
  obtain hosts ssn' where o1: "OrderedNodesByTask ae [''n'', ''m''] 0 (twoNodes ()) = (hosts, ssn')" by fastforce
  have "NodePreOrderFn ae 0 [''n'', ''m''] (twoNodes ()) = twoNodes ()" by (simp add: ae_def NodePreOrderFn_def bareAlloc_def)
  then have "\<forall>schedule. set schedule = {..<length [''n'', ''m'']} \<longrightarrow>
      sortNodesByScore (scoreChunk (scoreNode ae (twoNodes ()) (ssn_task (twoNodes ()) 0)) [''n'', ''m''] schedule (replicate (length [''n'', ''m'']) None)) = hosts"
    using ordered_nodes_by_task [of ae "[''n'', ''m'']" 0 "twoNodes ()"] unfolding o1 Let_def prod.case by metis
  moreover have "set [1, 0, 1] = {..<length [''n'', ''m'']}" "length [''n'', ''m''] = 2" by auto
  ultimately show ?thesis using o1 unfolding ae_def [symmetric] Let_def by (metis fst_conv)
qed

text \<open>The GPUs offered for sharing: each GPU the task fits on, and one entry per whole GPU that is idle or becomes so, best first.\<close>

lemma groupByScore_entries:
  "map_of (groupByScore score gpus) s = (let gs = filter (\<lambda>g. score g = Some s) gpus in if gs = [] then None else Some gs)"
  "wf_gomap (groupByScore score gpus)"
proof -
  let ?step = "\<lambda>gpuIdx gpuScores. case score gpuIdx of None \<Rightarrow> gpuScores
     | Some s \<Rightarrow> AList.update s ((case map_of gpuScores s of None \<Rightarrow> [] | Some gs \<Rightarrow> gs) @ [gpuIdx]) gpuScores"
  have "wf_gomap (fold ?step gpus []) \<and>
    (\<forall>s. map_of (fold ?step gpus []) s = (let gs = filter (\<lambda>g. score g = Some s) gpus in if gs = [] then None else Some gs))"
    by (induction gpus rule: rev_induct) (auto simp: Let_def split: option.split)
  then show "map_of (groupByScore score gpus) s = (let gs = filter (\<lambda>g. score g = Some s) gpus in if gs = [] then None else Some gs)"
    "wf_gomap (groupByScore score gpus)" unfolding groupByScore_def by blast+
qed

lemma concat_groups:
  assumes "sorted_wrt (\<lambda>x y. \<not> y > x) ks" and "distinct ks"
  shows "mset (concat (map (\<lambda>s. filter (\<lambda>g. f g = Some s) gpus) ks)) = mset (filter (\<lambda>g. \<exists>s\<in>set ks. f g = Some s) gpus)"
    and "sorted_wrt (\<lambda>a b. \<not> the (f b) > (the (f a) :: float64)) (concat (map (\<lambda>s. filter (\<lambda>g. f g = Some s) gpus) ks))"
proof -
  show "mset (concat (map (\<lambda>s. filter (\<lambda>g. f g = Some s) gpus) ks)) = mset (filter (\<lambda>g. \<exists>s\<in>set ks. f g = Some s) gpus)"
    using assms(2)
  proof (induction ks)
    case (Cons k ks)
    have "filter_mset (\<lambda>g. f g = Some k \<or> (\<exists>s\<in>set ks. f g = Some s)) (mset gpus) =
        filter_mset (\<lambda>g. f g = Some k) (mset gpus) + filter_mset (\<lambda>g. \<exists>s\<in>set ks. f g = Some s) (mset gpus)"
      using Cons.prems by (intro multiset_eqI) auto
    then show ?case using Cons by (simp add: mset_filter)
  qed simp
  show "sorted_wrt (\<lambda>a b. \<not> the (f b) > the (f a)) (concat (map (\<lambda>s. filter (\<lambda>g. f g = Some s) gpus) ks))"
    using assms(1)
  proof (induction ks)
    case (Cons k ks)
    have "sorted_wrt (\<lambda>a b. \<not> the (f b) > the (f a)) (filter (\<lambda>g. f g = Some k) gpus)"
      by (induction gpus) auto
    then show ?case using Cons by (auto simp: sorted_wrt_append)
  qed simp
qed

interpretation score_desc: less_fn "\<lambda>x y :: float64. y < x"
  by unfold_locales auto

lemma sortGPUs_groupByScore:
  "mset (sortGPUs (groupByScore f gpus)) = mset (filter (\<lambda>g. f g \<noteq> None) gpus)"
  "sorted_wrt (\<lambda>a b. \<not> the (f b) > the (f a)) (sortGPUs (groupByScore f gpus))"
proof -
  let ?ks = "go_sort (\<lambda>x y. y < x) (gokeys (groupByScore f gpus))"
  have d: "distinct ?ks" using groupByScore_entries(2) by (simp add: wf_gomap_def)
  have "(\<lambda>s. case map_of (groupByScore f gpus) s of None \<Rightarrow> [] | Some gs \<Rightarrow> gs) = (\<lambda>s. filter (\<lambda>g. f g = Some s) gpus)"
    by (rule ext) (simp add: groupByScore_entries(1) Let_def)
  then have c: "sortGPUs (groupByScore f gpus) = concat (map (\<lambda>s. filter (\<lambda>g. f g = Some s) gpus) ?ks)" by (simp add: sortGPUs_def)
  have keys: "s \<in> set ?ks \<longleftrightarrow> (\<exists>g\<in>set gpus. f g = Some s)" for s
  proof -
    have "s \<in> set ?ks \<longleftrightarrow> map_of (groupByScore f gpus) s \<noteq> None" by (simp add: map_of_eq_None_iff)
    then show ?thesis by (auto simp: groupByScore_entries(1) Let_def filter_empty_conv)
  qed
  have "filter (\<lambda>g. \<exists>s\<in>set ?ks. f g = Some s) gpus = filter (\<lambda>g. f g \<noteq> None) gpus"
    by (rule filter_cong [OF refl]) (use keys in blast)
  then show "mset (sortGPUs (groupByScore f gpus)) = mset (filter (\<lambda>g. f g \<noteq> None) gpus)"
    using concat_groups(1) [OF score_desc.sorted_go_sort d, of f gpus] unfolding c by simp
  show "sorted_wrt (\<lambda>a b. \<not> the (f b) > the (f a)) (sortGPUs (groupByScore f gpus))"
    unfolding c by (rule concat_groups(2) [OF score_desc.sorted_go_sort d])
qed

lemma FittingGPUs_fit:
  assumes "g \<in> set (FittingGPUs ae ssn node pod)"
  shows "g = WholeGpuIndicator \<or> IsTaskFitOnGpuGroup (se_node (ae_ssn ae)) node pod g"
proof -
  have "g \<in> set (filterGpusByEnoughResources (se_node (ae_ssn ae)) node pod)"
    using assms sortGPUs_groupByScore(1) [of "GpuOrderFn ae ssn pod node"] unfolding FittingGPUs_def ssn_sortGPUs_def
    by (metis (no_types, lifting) filter_is_subset set_mset_mset subsetD)
  then show ?thesis by (auto simp: filterGpusByEnoughResources_def Let_def split: if_splits)
qed

end
