(* ===== verification/Statement.thy ===== *)
theory Statement
  imports Session
begin

text \<open>
  Statements, \<^verbatim>\<open>framework/statement.go\<close> and \<^verbatim>\<open>framework/operations.go\<close>: transactions over a session. A statement logs
  what it does to tasks, can undo any logged operation, roll back to a checkpoint, and commit.

  An operation stores what its closure \<^verbatim>\<open>reverseOperation\<close> captures; an undo operation stores the redo
  operation as data (\<open>ReverseOperation\<close>). Each operation is a function on the session that also returns the
  operation to log; \<open>Statement\<close> pairs the log with the session. \<open>operationValid\<close> and \<open>undoOperation\<close> recurse along
  the log without a bound in the code, so here they are partial functions: \<open>None\<close> means that the call does not return
  (or indexes out of range).
\<close>

subsection \<open>Operations\<close>

record evictOperation =
  ev_taskInfo :: taskRef
  ev_previousStatus :: PodStatus
  ev_previousNode :: string
  ev_previousFractionalGpuGroups :: "FractionalGpuGroup list"
  ev_previousNumaPlacement :: NUMAPlacement
  ev_previousResourceClaimInfo :: "(string, DeviceRequestAllocationResult list option) gomap"
  ev_previousIsVirtualStatus :: bool
  ev_message :: string
  evictionMetadata :: EvictionMetadata

record pipelineOperation =
  pl_taskInfo :: taskRef
  pl_previousStatus :: PodStatus
  pl_previousNode :: string
  pl_previousFractionalGpuGroups :: "FractionalGpuGroup list"
  pl_previousNumaPlacement :: NUMAPlacement
  pl_previousResourceClaimInfo :: "(string, DeviceRequestAllocationResult list option) gomap"
  pl_previousIsVirtualStatus :: bool
  pl_nextNode :: string
  pl_message :: string

text \<open>The task of an allocate operation is a clone; its reverse closure works on the original (\<open>al_task\<close>).\<close>

record allocateOperation =
  al_taskInfo :: taskRef
  al_nextNode :: string
  al_task :: taskRef
  al_previousNumaPlacement :: NUMAPlacement
  al_previousIsVirtualStatus :: bool

datatype ReverseOperation =
    RedoEvict taskRef string EvictionMetadata
  | RedoPipeline taskRef string
  | RedoAllocate taskRef string
  | RedoUndo nat

datatype Operation =
    EvictOp evictOperation
  | PipelineOp pipelineOperation
  | AllocateOp allocateOperation
  | UndoOp nat ReverseOperation

fun Op_Name :: "Operation \<Rightarrow> string" where
  "Op_Name (EvictOp _) = ''evict''"
| "Op_Name (PipelineOp _) = ''pipeline''"
| "Op_Name (AllocateOp _) = ''allocate''"
| "Op_Name (UndoOp _ _) = ''undo''"

text \<open>The task object of an operation; an undo operation answers an empty task (\<open>None\<close>).\<close>

fun TaskInfo :: "Operation \<Rightarrow> taskRef option" where
  "TaskInfo (EvictOp op) = Some (ev_taskInfo op)"
| "TaskInfo (PipelineOp op) = Some (pl_taskInfo op)"
| "TaskInfo (AllocateOp op) = Some (al_taskInfo op)"
| "TaskInfo (UndoOp _ _) = None"

record ('aff, 'p) Statement =
  operations :: "Operation list"
  stmt_ssn :: "('aff, 'p) Session"

definition newStatement :: "('aff, 'p) Session \<Rightarrow> ('aff, 'p) Statement" where
  "newStatement ssn = \<lparr>operations = [], stmt_ssn = ssn\<rparr>"

definition cloneFractionalGpuGroups :: "FractionalGpuGroup list \<Rightarrow> FractionalGpuGroup list" where
  "cloneFractionalGpuGroups fractionalGpuGroups = map (\<lambda>g. g) fractionalGpuGroups"

type_synonym ('aff, 'p) op_result = "ssn_error option \<times> Operation option \<times> ('aff, 'p) Session"

subsection \<open>Evict\<close>

definition stmt_Evict ::
  "('aff, 'p) ssn_env \<Rightarrow> taskRef \<Rightarrow> string \<Rightarrow> EvictionMetadata \<Rightarrow> ('aff, 'p) Session \<Rightarrow> ('aff, 'p) op_result" where
  "stmt_Evict env ref message metadata ssn =
     (let task = ssn_task ssn ref
      in case map_of (ssn_PodGroupInfos ssn) (pod_Job task) of
           None \<Rightarrow> (Some (JobMissing (pod_Job task)), None, ssn)
         | Some job \<Rightarrow>
      case map_of (ssn_Nodes ssn) (NodeName task) of
           None \<Rightarrow> (Some (NodeMissing (NodeName task)), None, ssn)
         | Some node \<Rightarrow>
      let op = \<lparr>ev_taskInfo = ref, ev_previousStatus = pod_Status task, ev_previousNode = NodeName task,
                ev_previousFractionalGpuGroups = cloneFractionalGpuGroups (FractionalGpuGroups task),
                ev_previousNumaPlacement = Placement_Clone (pod_NUMAPlacement task),
                ev_previousResourceClaimInfo = ResourceClaimInfo task,
                ev_previousIsVirtualStatus = IsVirtualStatus task, ev_message = message, evictionMetadata = metadata\<rparr>;
          (err, ssn) = updateStatus ref Releasing job ssn
      in case err of
           Some e \<Rightarrow> (Some (JobFailed e), None, ssn)
         | None \<Rightarrow>
      let ssn = writeTask ref ((ssn_task ssn ref)\<lparr>IsVirtualStatus := True\<rparr>) ssn;
          (err, ssn) = nodeUpdateTask env (NodeName task) node ref ssn
      in case err of
           Some e \<Rightarrow> (Some (NodeFailed e), None, writeTask ref ((ssn_task ssn ref)\<lparr>IsVirtualStatus := IsVirtualStatus task\<rparr>) ssn)
         | None \<Rightarrow> (None, Some (EvictOp op), fireDeallocate env ref ssn))"

text \<open>Errors of the job and the node are only logged.\<close>

definition unevict ::
  "('aff, 'p) ssn_env \<Rightarrow> taskRef \<Rightarrow> PodStatus \<Rightarrow> string \<Rightarrow> FractionalGpuGroup list \<Rightarrow> NUMAPlacement \<Rightarrow>
     (string, DeviceRequestAllocationResult list option) gomap \<Rightarrow> bool \<Rightarrow> ('aff, 'p) Session \<Rightarrow> ('aff, 'p) Session" where
  "unevict env ref previousStatus host groups numa claims virtual ssn =
     (let ssn = (case map_of (ssn_PodGroupInfos ssn) (pod_Job (ssn_task ssn ref)) of
                   None \<Rightarrow> ssn
                 | Some job \<Rightarrow> snd (updateStatus ref previousStatus job ssn));
          ssn = writeTask ref ((ssn_task ssn ref)\<lparr>FractionalGpuGroups := groups, pod_NUMAPlacement := Placement_Clone numa,
                                 IsVirtualStatus := virtual, ResourceClaimInfo := claims\<rparr>) ssn;
          ssn = (case map_of (ssn_Nodes ssn) host of
                   None \<Rightarrow> ssn
                 | Some node \<Rightarrow>
                     if map_of (PodInfos node) (PodKey (ssn_task ssn ref)) \<noteq> None
                     then snd (nodeUpdateTask env host node ref ssn)
                     else snd (nodeAddTask env host node ref ssn))
      in fireAllocate env ref ssn)"

subsection \<open>Pipeline\<close>

definition gpuPlacementChanged :: "'aff node_env \<Rightarrow> PodInfo \<Rightarrow> PodInfo \<Rightarrow> bool" where
  "gpuPlacementChanged ne task taskOnNode \<longleftrightarrow>
     length (GPUGroupIDs ne task) > 0 \<and> IsSharedGPUAllocation task \<and> GPUGroupIDs ne task \<noteq> [''-1''] \<and>
     GPUGroupIDs ne task \<noteq> GPUGroupIDs ne taskOnNode"

definition numaPlacementChanged :: "PodInfo \<Rightarrow> PodInfo \<Rightarrow> bool" where
  "numaPlacementChanged task taskOnNode \<longleftrightarrow>
     \<not> Placement_IsEmpty (pod_NUMAPlacement task) \<and> \<not> Placement_Equal (pod_NUMAPlacement task) (pod_NUMAPlacement taskOnNode)"

text \<open>What \<open>Pipeline\<close> does when it does not undo an eviction; \<open>copy\<close> is the copy on the node, if there is one.
  When the task on the node only has to be updated, an error of the node is logged and ignored.\<close>

definition pipelineTask ::
  "('aff, 'p) ssn_env \<Rightarrow> taskRef \<Rightarrow> string \<Rightarrow> PodGroupInfo \<Rightarrow> 'aff NodeInfo \<Rightarrow> PodInfo option \<Rightarrow> ('aff, 'p) Session \<Rightarrow> ('aff, 'p) op_result" where
  "pipelineTask env ref host job node copy ssn =
     (let previous = ssn_task ssn ref;
          gpuChanged = (case copy of None \<Rightarrow> False | Some t \<Rightarrow> gpuPlacementChanged (se_node env) previous t);
          numaChanged = (case copy of None \<Rightarrow> False | Some t \<Rightarrow> numaPlacementChanged previous t);
          (err, ssn) = updateStatus ref Pipelined job ssn
      in case err of
           Some e \<Rightarrow> (Some (JobFailed e), None, ssn)
         | None \<Rightarrow>
      let ssn = writeTask ref ((ssn_task ssn ref)\<lparr>NodeName := host\<rparr>) ssn;
          op = \<lparr>pl_taskInfo = ref, pl_previousStatus = pod_Status previous, pl_previousNode = NodeName previous,
                pl_previousFractionalGpuGroups =
                  (if gpuChanged then cloneFractionalGpuGroups (FractionalGpuGroups (the copy)) else cloneFractionalGpuGroups (FractionalGpuGroups previous)),
                pl_previousNumaPlacement =
                  (if numaChanged then Placement_Clone (pod_NUMAPlacement (the copy)) else Placement_Clone (pod_NUMAPlacement previous)),
                pl_previousResourceClaimInfo = ResourceClaimInfo previous,
                pl_previousIsVirtualStatus = IsVirtualStatus previous, pl_nextNode = host,
                pl_message = ''Pod '' @ pod_Namespace previous @ ''/'' @ pod_Name previous @ '' was pipelined to node '' @ ni_Name node\<rparr>;
          (err, ssn) =
            (if gpuChanged then nodeConsolidate env host node ref ssn
             else if copy \<noteq> None then (None, snd (nodeUpdateTask env host node ref ssn))
             else nodeAddTask env host node ref ssn)
      in case err of
           Some e \<Rightarrow> (Some (NodeFailed e), None, ssn)
         | None \<Rightarrow>
      let ssn = fireAllocate env ref ssn
      in (None, Some (PipelineOp op), writeTask ref ((ssn_task ssn ref)\<lparr>IsVirtualStatus := True\<rparr>) ssn))"

definition unpipeline ::
  "('aff, 'p) ssn_env \<Rightarrow> taskRef \<Rightarrow> string \<Rightarrow> PodStatus \<Rightarrow> FractionalGpuGroup list \<Rightarrow> NUMAPlacement \<Rightarrow>
     (string, DeviceRequestAllocationResult list option) gomap \<Rightarrow> bool \<Rightarrow> ('aff, 'p) Session \<Rightarrow> ssn_error option \<times> ('aff, 'p) Session" where
  "unpipeline env ref previousNode previousStatus groups numa claims virtual ssn =
     (let ssn = (case map_of (ssn_PodGroupInfos ssn) (pod_Job (ssn_task ssn ref)) of
                   None \<Rightarrow> ssn
                 | Some job \<Rightarrow> snd (updateStatus ref previousStatus job ssn));
          host = NodeName (ssn_task ssn ref);
          ssn = writeTask ref ((ssn_task ssn ref)\<lparr>FractionalGpuGroups := groups, ResourceClaimInfo := claims, IsVirtualStatus := virtual\<rparr>) ssn
      in case map_of (ssn_Nodes ssn) host of
           None \<Rightarrow> (Some (NodeMissing host), ssn)
         | Some node \<Rightarrow>
             let ssn = snd (nodeRemoveTask env host node ref ssn);
                 ssn = fireDeallocate env ref ssn
             in (None, writeTask ref ((ssn_task ssn ref)\<lparr>NodeName := previousNode, pod_NUMAPlacement := Placement_Clone numa\<rparr>) ssn))"

subsection \<open>Allocate\<close>

definition stmt_Allocate :: "('aff, 'p) ssn_env \<Rightarrow> taskRef \<Rightarrow> string \<Rightarrow> ('aff, 'p) Session \<Rightarrow> ('aff, 'p) op_result" where
  "stmt_Allocate env ref host ssn =
     (let jobID = pod_Job (ssn_task ssn ref)
      in case map_of (ssn_PodGroupInfos ssn) jobID of
           None \<Rightarrow> (Some (JobMissing jobID), None, ssn)
         | Some job \<Rightarrow>
      let (err, ssn) = updateStatus ref Allocated job ssn
      in case err of
           Some e \<Rightarrow> (Some (JobFailed e), None, ssn)
         | None \<Rightarrow>
      let ssn = writeTask ref ((ssn_task ssn ref)\<lparr>NodeName := host\<rparr>) ssn
      in case map_of (ssn_Nodes ssn) host of
           None \<Rightarrow> (Some (NodeMissing host), None, ssn)
         | Some node \<Rightarrow>
      let (err, ssn) = nodeAddTask env host node ref ssn
      in case err of
           Some e \<Rightarrow> (Some (NodeFailed e), None, ssn)
         | None \<Rightarrow>
      let previousNumaPlacement = Placement_Clone (pod_NUMAPlacement (ssn_task ssn ref));
          ssn = fireAllocate env ref ssn;
          previousIsVirtualStatus = IsVirtualStatus (ssn_task ssn ref);
          (clone, ssn) = newTask (PodInfo_Clone (ssn_task ssn ref)) ssn;
          op = \<lparr>al_taskInfo = clone, al_nextNode = ni_Name node, al_task = ref,
                al_previousNumaPlacement = previousNumaPlacement, al_previousIsVirtualStatus = previousIsVirtualStatus\<rparr>
      in (None, Some (AllocateOp op), writeTask ref ((ssn_task ssn ref)\<lparr>IsVirtualStatus := True\<rparr>) ssn))"

definition unallocate ::
  "('aff, 'p) ssn_env \<Rightarrow> taskRef \<Rightarrow> NUMAPlacement \<Rightarrow> bool \<Rightarrow> ('aff, 'p) Session \<Rightarrow> ssn_error option \<times> ('aff, 'p) Session" where
  "unallocate env ref numa virtual ssn =
     (let ssn = (case map_of (ssn_PodGroupInfos ssn) (pod_Job (ssn_task ssn ref)) of
                   None \<Rightarrow> ssn
                 | Some job \<Rightarrow> snd (updateStatus ref Pending job ssn));
          host = NodeName (ssn_task ssn ref)
      in case map_of (ssn_Nodes ssn) host of
           None \<Rightarrow> (Some (NodeMissing host), ssn)
         | Some node \<Rightarrow>
             let ssn = snd (nodeRemoveTask env host node ref ssn);
                 ssn = writeTask ref ((ssn_task ssn ref)\<lparr>IsVirtualStatus := virtual\<rparr>) ssn;
                 ssn = fireDeallocate env ref ssn
             in (None, writeTask ref ((ssn_task ssn ref)\<lparr>NodeName := [], pod_NUMAPlacement := Placement_Clone numa\<rparr>) ssn))"

subsection \<open>Valid operations and undoing them\<close>

fun findUndo :: "nat \<Rightarrow> nat \<Rightarrow> Operation list \<Rightarrow> nat option" where
  "findUndo i undoIndex [] = None"
| "findUndo i undoIndex (op # ops) =
     (case op of
        UndoOp operationIndex _ \<Rightarrow> if operationIndex = i then Some undoIndex else findUndo i (Suc undoIndex) ops
      | _ \<Rightarrow> findUndo i (Suc undoIndex) ops)"

partial_function (option) operationValid :: "Operation list \<Rightarrow> nat \<Rightarrow> bool option" where
  [code]: "operationValid ops i =
     (case findUndo i 0 ops of
        None \<Rightarrow> Some True
      | Some undoIndex \<Rightarrow> Option.bind (operationValid ops undoIndex) (\<lambda>valid. Some (\<not> valid)))"

text \<open>\<open>Pipeline\<close> with \<open>canUndoEviction\<close> false: what redoing a pipeline operation runs.\<close>

definition pipelineAnew ::
  "('aff, 'p) ssn_env \<Rightarrow> taskRef \<Rightarrow> string \<Rightarrow> ('aff, 'p) Session \<Rightarrow> ('aff, 'p) op_result" where
  "pipelineAnew env ref host ssn =
     (case (map_of (ssn_PodGroupInfos ssn) (pod_Job (ssn_task ssn ref)), map_of (ssn_Nodes ssn) host) of
        (Some job, Some node) \<Rightarrow> pipelineTask env ref host job node (map_of (PodInfos node) (PodKey (ssn_task ssn ref))) ssn
      | _ \<Rightarrow> (Some (NodeOrJobMissing host (pod_Job (ssn_task ssn ref))), None, ssn))"

text \<open>The reverse closures of the three kinds of operations.\<close>

fun reverseOp :: "('aff, 'p) ssn_env \<Rightarrow> Operation \<Rightarrow> ('aff, 'p) Session \<Rightarrow> ssn_error option \<times> ('aff, 'p) Session" where
  "reverseOp env (EvictOp op) ssn =
     (None, unevict env (ev_taskInfo op) (ev_previousStatus op) (ev_previousNode op) (ev_previousFractionalGpuGroups op)
        (ev_previousNumaPlacement op) (ev_previousResourceClaimInfo op) (ev_previousIsVirtualStatus op) ssn)"
| "reverseOp env (PipelineOp op) ssn =
     unpipeline env (pl_taskInfo op) (pl_previousNode op) (pl_previousStatus op) (pl_previousFractionalGpuGroups op)
       (pl_previousNumaPlacement op) (pl_previousResourceClaimInfo op) (pl_previousIsVirtualStatus op) ssn"
| "reverseOp env (AllocateOp op) ssn =
     unallocate env (al_task op) (al_previousNumaPlacement op) (al_previousIsVirtualStatus op) ssn"
| "reverseOp env (UndoOp _ _) ssn = (None, ssn)"

fun redoOf :: "Operation \<Rightarrow> ReverseOperation" where
  "redoOf (EvictOp op) = RedoEvict (ev_taskInfo op) (ev_message op) (evictionMetadata op)"
| "redoOf (PipelineOp op) = RedoPipeline (pl_taskInfo op) (pl_nextNode op)"
| "redoOf (AllocateOp op) = RedoAllocate (al_taskInfo op) (al_nextNode op)"
| "redoOf (UndoOp operationIndex _) = RedoUndo operationIndex"

fun redoOp :: "('aff, 'p) ssn_env \<Rightarrow> ReverseOperation \<Rightarrow> ('aff, 'p) Session \<Rightarrow> ('aff, 'p) op_result" where
  "redoOp env (RedoEvict ref message metadata) ssn = stmt_Evict env ref message metadata ssn"
| "redoOp env (RedoPipeline ref host) ssn = pipelineAnew env ref host ssn"
| "redoOp env (RedoAllocate ref host) ssn = stmt_Allocate env ref host ssn"
| "redoOp env (RedoUndo _) ssn = (None, None, ssn)"

definition logged :: "('aff, 'p) op_result \<Rightarrow> ('aff, 'p) Statement \<Rightarrow> ssn_error option \<times> ('aff, 'p) Statement" where
  "logged r s =
     (let (err, op, ssn) = r
      in (err, s\<lparr>stmt_ssn := ssn, operations := operations s @ (case op of None \<Rightarrow> [] | Some op \<Rightarrow> [op])\<rparr>))"

definition finishUndo ::
  "nat \<Rightarrow> Operation \<Rightarrow> ssn_error option \<times> ('aff, 'p) Statement \<Rightarrow> ssn_error option \<times> ('aff, 'p) Statement" where
  "finishUndo index op r =
     (case r of
        (Some e, s) \<Rightarrow> (Some (ReverseFailed (Op_Name op) e), s)
      | (None, s) \<Rightarrow> (None, s\<lparr>operations := operations s @ [UndoOp index (redoOf op)]\<rparr>))"

partial_function (option) undoOperation ::
  "('aff, 'p) ssn_env \<Rightarrow> ('aff, 'p) Statement \<Rightarrow> nat \<Rightarrow> (ssn_error option \<times> ('aff, 'p) Statement) option" where
  [code]: "undoOperation env s index =
     Option.bind (operationValid (operations s) index) (\<lambda>valid.
       if \<not> valid then Some (None, s)
       else if index \<ge> length (operations s) then None
       else Option.bind
              (case operations s ! index of
                 UndoOp _ redo \<Rightarrow>
                   (case redo of
                      RedoUndo operationIndex \<Rightarrow> undoOperation env s operationIndex
                    | RedoEvict ref message metadata \<Rightarrow> Some (logged (redoOp env (RedoEvict ref message metadata) (stmt_ssn s)) s)
                    | RedoPipeline ref host \<Rightarrow> Some (logged (redoOp env (RedoPipeline ref host) (stmt_ssn s)) s)
                    | RedoAllocate ref host \<Rightarrow> Some (logged (redoOp env (RedoAllocate ref host) (stmt_ssn s)) s))
               | EvictOp op \<Rightarrow> Some (let (err, ssn) = reverseOp env (EvictOp op) (stmt_ssn s) in (err, s\<lparr>stmt_ssn := ssn\<rparr>))
               | PipelineOp op \<Rightarrow> Some (let (err, ssn) = reverseOp env (PipelineOp op) (stmt_ssn s) in (err, s\<lparr>stmt_ssn := ssn\<rparr>))
               | AllocateOp op \<Rightarrow> Some (let (err, ssn) = reverseOp env (AllocateOp op) (stmt_ssn s) in (err, s\<lparr>stmt_ssn := ssn\<rparr>)))
              (\<lambda>r. Some (finishUndo index (operations s ! index) r)))"

text \<open>The search for the first valid operation of a kind on a task; an undo operation has the empty UID.\<close>

definition opUID :: "('aff, 'p) Session \<Rightarrow> Operation \<Rightarrow> PodID" where
  "opUID ssn op = (case TaskInfo op of None \<Rightarrow> [] | Some ref \<Rightarrow> pod_UID (ssn_task ssn ref))"

definition opJob :: "('aff, 'p) Session \<Rightarrow> Operation \<Rightarrow> string" where
  "opJob ssn op = (case TaskInfo op of None \<Rightarrow> [] | Some ref \<Rightarrow> pod_Job (ssn_task ssn ref))"

fun findEarliest :: "('aff, 'p) Statement \<Rightarrow> PodID \<Rightarrow> string \<Rightarrow> nat \<Rightarrow> Operation list \<Rightarrow> nat option option" where
  "findEarliest s uid opName index [] = Some None"
| "findEarliest s uid opName index (op # rest) =
     Option.bind (operationValid (operations s) index) (\<lambda>valid.
       if \<not> valid \<or> uid \<noteq> opUID (stmt_ssn s) op \<or> opName \<noteq> Op_Name op
       then findEarliest s uid opName (Suc index) rest else Some (Some index))"

definition undoEarliestValidOperation ::
  "('aff, 'p) ssn_env \<Rightarrow> ('aff, 'p) Statement \<Rightarrow> taskRef \<Rightarrow> string \<Rightarrow> (ssn_error option \<times> ('aff, 'p) Statement) option" where
  "undoEarliestValidOperation env s ref opName =
     Option.bind (findEarliest s (pod_UID (ssn_task (stmt_ssn s) ref)) opName 0 (operations s)) (\<lambda>found.
       case found of
         None \<Rightarrow> Some (Some (NothingToUndo opName (PodKey (ssn_task (stmt_ssn s) ref))), s)
       | Some index \<Rightarrow> undoOperation env s index)"

definition Unevict :: "('aff, 'p) ssn_env \<Rightarrow> ('aff, 'p) Statement \<Rightarrow> taskRef \<Rightarrow> (ssn_error option \<times> ('aff, 'p) Statement) option" where
  "Unevict env s ref = undoEarliestValidOperation env s ref ''evict''"

subsection \<open>The interface of a statement\<close>

definition Evict ::
  "('aff, 'p) ssn_env \<Rightarrow> ('aff, 'p) Statement \<Rightarrow> taskRef \<Rightarrow> string \<Rightarrow> EvictionMetadata \<Rightarrow> ssn_error option \<times> ('aff, 'p) Statement" where
  "Evict env s ref message metadata = logged (stmt_Evict env ref message metadata (stmt_ssn s)) s"

definition Allocate ::
  "('aff, 'p) ssn_env \<Rightarrow> ('aff, 'p) Statement \<Rightarrow> taskRef \<Rightarrow> string \<Rightarrow> ssn_error option \<times> ('aff, 'p) Statement" where
  "Allocate env s ref host = logged (stmt_Allocate env ref host (stmt_ssn s)) s"

definition undoesEviction :: "'aff node_env \<Rightarrow> bool \<Rightarrow> PodInfo \<Rightarrow> PodInfo \<Rightarrow> bool" where
  "undoesEviction ne canUndoEviction task taskOnNode \<longleftrightarrow>
     canUndoEviction \<and> \<not> gpuPlacementChanged ne task taskOnNode \<and> \<not> numaPlacementChanged task taskOnNode"

definition Pipeline ::
  "('aff, 'p) ssn_env \<Rightarrow> ('aff, 'p) Statement \<Rightarrow> taskRef \<Rightarrow> string \<Rightarrow> bool \<Rightarrow> (ssn_error option \<times> ('aff, 'p) Statement) option" where
  "Pipeline env s ref host canUndoEviction =
     (let ssn = stmt_ssn s; task = ssn_task ssn ref
      in case (map_of (ssn_PodGroupInfos ssn) (pod_Job task), map_of (ssn_Nodes ssn) host) of
           (Some job, Some node) \<Rightarrow>
             (case map_of (PodInfos node) (PodKey task) of
                None \<Rightarrow> Some (logged (pipelineTask env ref host job node None ssn) s)
              | Some taskOnNode \<Rightarrow>
                  if undoesEviction (se_node env) canUndoEviction task taskOnNode
                  then Unevict env (s\<lparr>stmt_ssn := writeTask ref (task\<lparr>
                           FractionalGpuGroups := cloneFractionalGpuGroups (FractionalGpuGroups taskOnNode),
                           pod_NUMAPlacement := Placement_Clone (pod_NUMAPlacement taskOnNode)\<rparr>) ssn\<rparr>) ref
                  else Some (logged (pipelineTask env ref host job node (Some taskOnNode) ssn) s))
         | _ \<Rightarrow> Some (Some (NodeOrJobMissing host (pod_Job task)), s))"

definition stmt_Checkpoint :: "('aff, 'p) Statement \<Rightarrow> int" where
  "stmt_Checkpoint s = int (length (operations s))"

text \<open>The loops count down: \<open>Suc i\<close> undoes operation \<open>i\<close> next.\<close>

fun rollbackLoop ::
  "('aff, 'p) ssn_env \<Rightarrow> nat \<Rightarrow> nat \<Rightarrow> ('aff, 'p) Statement \<Rightarrow> (ssn_error option \<times> ('aff, 'p) Statement) option" where
  "rollbackLoop env cp 0 s = Some (None, s)"
| "rollbackLoop env cp (Suc i) s =
     (if i < cp then Some (None, s)
      else Option.bind (undoOperation env s i) (\<lambda>(err, s).
             case err of Some e \<Rightarrow> Some (Some (RollbackFailed i e), s) | None \<Rightarrow> rollbackLoop env cp i s))"

definition Rollback ::
  "('aff, 'p) ssn_env \<Rightarrow> ('aff, 'p) Statement \<Rightarrow> int \<Rightarrow> (ssn_error option \<times> ('aff, 'p) Statement) option" where
  "Rollback env s cp =
     (if cp < 0 \<or> cp > int (length (operations s)) then Some (Some (InvalidCheckpoint cp (int (length (operations s)))), s)
      else Option.bind (rollbackLoop env (nat cp) (length (operations s)) s) (\<lambda>(err, s).
             case err of Some e \<Rightarrow> Some (Some e, s) | None \<Rightarrow> Some (None, s\<lparr>operations := take (nat cp) (operations s)\<rparr>)))"

definition clearOperations :: "('aff, 'p) Statement \<Rightarrow> ('aff, 'p) Statement" where
  "clearOperations s = s\<lparr>operations := []\<rparr>"

fun discardLoop :: "('aff, 'p) ssn_env \<Rightarrow> nat \<Rightarrow> ('aff, 'p) Statement \<Rightarrow> ('aff, 'p) Statement option" where
  "discardLoop env 0 s = Some s"
| "discardLoop env (Suc i) s = Option.bind (undoOperation env s i) (\<lambda>(_, s). discardLoop env i s)"

definition Discard :: "('aff, 'p) ssn_env \<Rightarrow> ('aff, 'p) Statement \<Rightarrow> ('aff, 'p) Statement option" where
  "Discard env s =
     (if length (operations s) = 0 then Some s
      else map_option clearOperations (discardLoop env (length (operations s)) s))"

subsection \<open>Commit\<close>

definition commitEvict ::
  "('aff, 'p) ssn_env \<Rightarrow> evictOperation \<Rightarrow> ('aff, 'p) Session \<Rightarrow> ssn_error option \<times> ('aff, 'p) Session" where
  "commitEvict env op ssn =
     (let ref = ev_taskInfo op; reclaimee = ssn_task ssn ref
      in case map_of (ssn_PodGroupInfos ssn) (pod_Job reclaimee) of
           None \<Rightarrow> (Some (JobMissing (pod_Job reclaimee)), ssn)
         | Some podGroup \<Rightarrow>
             let failed = cache_Evict env (ssn_calls ssn) reclaimee;
                 ssn = recordCall (CacheEvict reclaimee (pg_UID podGroup) (evictionMetadata op) (ev_message op)) ssn
             in case failed of
                  Some e \<Rightarrow>
                    (Some (CacheFailed e),
                     unevict env ref (pod_Status reclaimee) (ev_previousNode op) (cloneFractionalGpuGroups (FractionalGpuGroups reclaimee))
                       (Placement_Clone (pod_NUMAPlacement reclaimee)) (ResourceClaimInfo reclaimee) (IsVirtualStatus reclaimee) ssn)
                | None \<Rightarrow>
                    let ssn = writeTask ref (reclaimee\<lparr>IsVirtualStatus := False\<rparr>) ssn
                    in (None, ssn\<lparr>ssn_PodGroupInfos :=
                          (case map_of (ssn_PodGroupInfos ssn) (pod_Job reclaimee) of
                             None \<Rightarrow> ssn_PodGroupInfos ssn
                           | Some podGroup \<Rightarrow> AList.update (pod_Job reclaimee) (podGroup\<lparr>LastEvictionTimestamp := Some (se_now env)\<rparr>)
                                                (ssn_PodGroupInfos ssn))\<rparr>))"

definition cleanupFailedAllocation :: "('aff, 'p) ssn_env \<Rightarrow> taskRef \<Rightarrow> ('aff, 'p) Session \<Rightarrow> ('aff, 'p) Session" where
  "cleanupFailedAllocation env ref ssn = snd (unallocate env ref NoPlacement False ssn)"

definition commitAllocate ::
  "('aff, 'p) ssn_env \<Rightarrow> taskRef \<Rightarrow> ('aff, 'p) Session \<Rightarrow> ssn_error option \<times> ('aff, 'p) Session" where
  "commitAllocate env ref ssn =
     (let task = ssn_task ssn ref; host = NodeName task
      in case map_of (ssn_Nodes ssn) host of
           None \<Rightarrow> (Some (NodeMissing host), ssn)
         | Some node \<Rightarrow>
             let node = (if IsFractionAllocation task
                         then node\<lparr>UsedSharedGPUsMemory :=
                                fold (\<lambda>gpuGroup m. if map_of m gpuGroup = None then AList.update gpuGroup 0 m else m)
                                  (GPUGroupIDs (se_node env) task) (UsedSharedGPUsMemory node)\<rparr>
                         else node);
                 ssn = ssn\<lparr>ssn_Nodes := AList.update host node (ssn_Nodes ssn)\<rparr>;
                 (err, ssn) = BindPod env ref ssn
             in (err, if err \<noteq> None then cleanupFailedAllocation env ref ssn else ssn))"

definition commitPipeline :: "taskRef \<Rightarrow> string \<Rightarrow> ('aff, 'p) Session \<Rightarrow> ('aff, 'p) Session" where
  "commitPipeline ref message ssn = recordCall (TaskPipelined (ssn_task ssn ref) message) ssn"

text \<open>\<open>err\<close> is the variable of \<open>Commit\<close>, \<open>committed\<close> its map of evictions to report; the result says how the loop ended.\<close>

type_synonym committed = "(string \<times> string, string) gomap"

fun commitLoop ::
  "('aff, 'p) ssn_env \<Rightarrow> Operation list \<Rightarrow> nat \<Rightarrow> Operation list \<Rightarrow> ssn_error option \<Rightarrow> committed \<Rightarrow> ('aff, 'p) Session \<Rightarrow>
     (ssn_error option \<times> committed \<times> ('aff, 'p) Session) option" where
  "commitLoop env ops i [] err committed ssn = Some (err, committed, ssn)"
| "commitLoop env ops i (op # rest) err committed ssn =
     Option.bind (operationValid ops i) (\<lambda>valid.
       if \<not> valid then commitLoop env ops (Suc i) rest err committed ssn
       else case op of
              EvictOp e \<Rightarrow>
                let jobID = pod_Job (ssn_task ssn (ev_taskInfo e)); (err, ssn) = commitEvict env e ssn
                in commitLoop env ops (Suc i) rest err
                     (if err = None then AList.update (jobID, evict_Action (evictionMetadata e)) jobID committed else committed) ssn
            | PipelineOp p \<Rightarrow> commitLoop env ops (Suc i) rest err committed (commitPipeline (pl_taskInfo p) (pl_message p) ssn)
            | AllocateOp a \<Rightarrow>
                let (err, ssn) = commitAllocate env (al_taskInfo a) ssn
                in if err \<noteq> None then Some (err, committed, ssn)
                   else commitLoop env ops (Suc i) rest err committed ssn
            | UndoOp _ _ \<Rightarrow> commitLoop env ops (Suc i) rest err committed ssn)"

definition Commit :: "('aff, 'p) ssn_env \<Rightarrow> ('aff, 'p) Statement \<Rightarrow> (ssn_error option \<times> ('aff, 'p) Statement) option" where
  "Commit env s =
     (if length (operations s) = 0 then Some (None, s)
      else Option.bind (commitLoop env (operations s) 0 (operations s) None [] (stmt_ssn s)) (\<lambda>(err, committed, ssn).
             Some (err, clearOperations (s\<lparr>stmt_ssn :=
               fold (\<lambda>((_, action), podGroup). recordCall (RecordPodGroupEvictionEvent podGroup action)) committed ssn\<rparr>))))"

subsection \<open>From allocated to pipelined\<close>

fun convertLoop ::
  "('aff, 'p) ssn_env \<Rightarrow> string \<Rightarrow> Operation list \<Rightarrow> ('aff, 'p) Statement \<Rightarrow> (ssn_error option \<times> ('aff, 'p) Statement) option" where
  "convertLoop env jobID [] s = Some (None, s)"
| "convertLoop env jobID (op # rest) s =
     (case op of
        AllocateOp a \<Rightarrow>
          if opJob (stmt_ssn s) op \<noteq> jobID then convertLoop env jobID rest s
          else let task = ssn_task (stmt_ssn s) (al_taskInfo a);
                   (err, ssn) = unallocate env (al_taskInfo a) (pod_NUMAPlacement task) True (stmt_ssn s);
                   s = s\<lparr>stmt_ssn := ssn\<rparr>
               in if err \<noteq> None then Some (err, s)
                  else Option.bind (Pipeline env s (al_taskInfo a) (NodeName task) False) (\<lambda>(err, s).
                         if err \<noteq> None then Some (err, s) else convertLoop env jobID rest s)
      | _ \<Rightarrow> convertLoop env jobID rest s)"

definition ConvertAllAllocatedToPipelined ::
  "('aff, 'p) ssn_env \<Rightarrow> ('aff, 'p) Statement \<Rightarrow> string \<Rightarrow> (ssn_error option \<times> ('aff, 'p) Statement) option" where
  "ConvertAllAllocatedToPipelined env s jobID =
     Option.bind (convertLoop env jobID (operations s) s) (\<lambda>(err, s).
       if err \<noteq> None then Some (err, s)
       else Some (None, s\<lparr>operations :=
              filter (\<lambda>op. \<not> (opJob (stmt_ssn s) op = jobID \<and> Op_Name op = ''allocate'')) (operations s)\<rparr>))"

end
