(* ===== verification/Statement_Log.thy ===== *)
theory Statement_Log
  imports Statement
begin

text \<open>
  The log of a statement. \<open>operationValid\<close> and \<open>undoOperation\<close> follow undo operations through the log with no bound;
  they return because every undo points to an earlier operation (\<open>wf_ops\<close>), and every call of the
  statement keeps that. Between calls a log is even \<open>strict_log\<close>: its undo operations undo different evictions. On such a
  log \<open>Rollback\<close> and \<open>Discard\<close> run the reverse operations, last first, each exactly once. Converting
  allocations to pipelined tasks filters the log and can break this.
\<close>

subsection \<open>Undo operations point backwards\<close>

fun undoOk :: "nat \<Rightarrow> Operation \<Rightarrow> bool" where
  "undoOk k (UndoOp i redo) \<longleftrightarrow> i < k \<and> (case redo of RedoUndo j \<Rightarrow> j < i | _ \<Rightarrow> True)"
| "undoOk k _ \<longleftrightarrow> True"

definition wf_ops :: "Operation list \<Rightarrow> bool" where
  "wf_ops ops \<longleftrightarrow> (\<forall>k < length ops. undoOk k (ops ! k))"

lemma wf_ops_simps [simp]:
  "wf_ops []"
  "wf_ops (ops @ [op]) \<longleftrightarrow> wf_ops ops \<and> undoOk (length ops) op"
  by (auto simp: wf_ops_def nth_append less_Suc_eq)

lemma wf_ops_take: "wf_ops ops \<Longrightarrow> wf_ops (take n ops)"
  by (simp add: wf_ops_def)

lemma findUndo_SomeD:
  "findUndo i n ops = Some u \<Longrightarrow> n \<le> u \<and> u < n + length ops \<and> (\<exists>r. ops ! (u - n) = UndoOp i r)"
proof (induction ops arbitrary: n)
  case (Cons op ops)
  then show ?case by (cases op) (fastforce simp: nth_Cons' split: if_splits)+
qed simp

lemma findUndo_NoneD:
  "findUndo i n ops = None \<longleftrightarrow> (\<forall>u < length ops. \<forall>r. ops ! u \<noteq> UndoOp i r)"
proof (induction ops arbitrary: n)
  case (Cons op ops)
  have "(\<forall>u < length (op # ops). \<forall>r. (op # ops) ! u \<noteq> UndoOp i r) \<longleftrightarrow>
      (\<forall>r. op \<noteq> UndoOp i r) \<and> (\<forall>u < length ops. \<forall>r. ops ! u \<noteq> UndoOp i r)"
    by (auto simp: nth_Cons' less_Suc_eq_0_disj)
  then show ?case using Cons [of "Suc n"] by (cases op) auto
qed simp

lemma operationValid_step:
  "findUndo i 0 ops = None \<Longrightarrow> operationValid ops i = Some True"
  "findUndo i 0 ops = Some u \<Longrightarrow> operationValid ops u = Some b \<Longrightarrow> operationValid ops i = Some (\<not> b)"
  by (subst operationValid.simps, simp)+

lemma operationValid_returns:
  assumes "wf_ops ops"
  shows "\<exists>b. operationValid ops i = Some b"
proof (induction "length ops - i" arbitrary: i rule: less_induct)
  case less
  show ?case
  proof (cases "findUndo i 0 ops")
    case (Some u)
    with findUndo_SomeD [OF Some] assms have "i < u" "u < length ops" by (fastforce simp: wf_ops_def)+
    then have "\<exists>b. operationValid ops u = Some b" by (intro less) simp
    then show ?thesis using operationValid_step(2) [OF Some] by blast
  next
    case None
    then show ?thesis using operationValid_step(1) by blast
  qed
qed

subsection \<open>Every call returns\<close>

lemma logged_ops:
  assumes "logged r s = (err, s')"
  shows "operations s' = operations s \<or> (\<exists>op. operations s' = operations s @ [op] \<and> fst (snd r) = Some op)"
  using assms by (cases r) (auto simp: logged_def split: option.splits)

definition plainOp :: "Operation option \<Rightarrow> bool" where
  "plainOp op \<longleftrightarrow> (case op of Some (UndoOp _ _) \<Rightarrow> False | _ \<Rightarrow> True)"

lemma plainOp_simps [simp]:
  "plainOp None" "plainOp (Some (EvictOp e))" "plainOp (Some (PipelineOp p))" "plainOp (Some (AllocateOp a))" "\<not> plainOp (Some (UndoOp i r))"
  by (simp_all add: plainOp_def)

lemma stmt_Evict_plain: "plainOp (fst (snd (stmt_Evict env ref m md ssn)))"
  by (simp add: stmt_Evict_def Let_def split: option.split prod.split)

lemma stmt_Allocate_plain: "plainOp (fst (snd (stmt_Allocate env ref host ssn)))"
  by (simp add: stmt_Allocate_def Let_def split: option.split prod.split)

lemma pipelineTask_plain: "plainOp (fst (snd (pipelineTask env ref host job node copy ssn)))"
  by (simp add: pipelineTask_def Let_def split: option.split prod.split)

lemma pipelineAnew_plain: "plainOp (fst (snd (pipelineAnew env ref host ssn)))"
  by (simp add: pipelineAnew_def pipelineTask_plain split: option.split)

lemma redoOp_plain: "plainOp (fst (snd (redoOp env redo ssn)))"
  by (cases redo) (simp_all add: stmt_Evict_plain stmt_Allocate_plain pipelineAnew_plain)

lemma plain_undoOk: "plainOp (Some op) \<Longrightarrow> undoOk k op"
  by (cases op) simp_all

text \<open>What a call leaves of the log: it stays well formed and only grows.\<close>

definition extendsLog :: "('aff, 'p) Statement \<Rightarrow> ('aff, 'p) Statement \<Rightarrow> bool" where
  "extendsLog s s' \<longleftrightarrow> wf_ops (operations s') \<and> (\<exists>more. operations s' = operations s @ more)"

lemma extendsLog_refl: "wf_ops (operations s) \<Longrightarrow> extendsLog s s"
  by (simp add: extendsLog_def)

lemma extendsLog_trans: "extendsLog s s' \<Longrightarrow> extendsLog s' s'' \<Longrightarrow> extendsLog s s''"
  by (auto simp: extendsLog_def)

lemma logged_extends:
  assumes "wf_ops (operations s)" and "plainOp (fst (snd r))" and "logged r s = (err, s')"
  shows "extendsLog s s'"
  using logged_ops [OF assms(3)] assms(1,2) plain_undoOk by (auto simp: extendsLog_def)

lemma finishUndo_extends:
  assumes "extendsLog s s1" and "undoOk (length (operations s1)) (UndoOp index (redoOf op))" and "finishUndo index op (err, s1) = (err', s')"
  shows "extendsLog s s'"
proof (cases err)
  case None
  then have s': "s' = s1\<lparr>operations := operations s1 @ [UndoOp index (redoOf op)]\<rparr>" using assms(3) by (simp add: finishUndo_def)
  then have "wf_ops (operations s')" using assms(1,2) by (simp add: extendsLog_def)
  then show ?thesis using assms(1) s' by (auto simp: extendsLog_def)
qed (use assms(1,3) in \<open>simp add: finishUndo_def\<close>)

lemma undoOperation_returns:
  assumes "wf_ops (operations s)" and "index < length (operations s)"
  shows "\<exists>err s'. undoOperation env s index = Some (err, s') \<and> extendsLog s s'"
  using assms
proof (induction index rule: less_induct)
  case (less index)
  obtain b where b: "operationValid (operations s) index = Some b" using operationValid_returns [OF less.prems(1)] by blast
  let ?op = "operations s ! index"
  have ok: "undoOk index ?op" using less.prems by (simp add: wf_ops_def)
  define body where "body = (case ?op of
                 UndoOp _ redo \<Rightarrow>
                   (case redo of
                      RedoUndo operationIndex \<Rightarrow> undoOperation env s operationIndex
                    | RedoEvict ref message metadata \<Rightarrow> Some (logged (redoOp env (RedoEvict ref message metadata) (stmt_ssn s)) s)
                    | RedoPipeline ref host \<Rightarrow> Some (logged (redoOp env (RedoPipeline ref host) (stmt_ssn s)) s)
                    | RedoAllocate ref host \<Rightarrow> Some (logged (redoOp env (RedoAllocate ref host) (stmt_ssn s)) s))
               | EvictOp op \<Rightarrow> Some (let (err, ssn) = reverseOp env (EvictOp op) (stmt_ssn s) in (err, s\<lparr>stmt_ssn := ssn\<rparr>))
               | PipelineOp op \<Rightarrow> Some (let (err, ssn) = reverseOp env (PipelineOp op) (stmt_ssn s) in (err, s\<lparr>stmt_ssn := ssn\<rparr>))
               | AllocateOp op \<Rightarrow> Some (let (err, ssn) = reverseOp env (AllocateOp op) (stmt_ssn s) in (err, s\<lparr>stmt_ssn := ssn\<rparr>)))"
  have same: "extendsLog s (s\<lparr>stmt_ssn := ssn\<rparr>)" for ssn using less.prems(1) by (simp add: extendsLog_def)
  have redone: "extendsLog s (snd (logged (redoOp env redo (stmt_ssn s)) s))" for redo
    using logged_extends [OF less.prems(1) redoOp_plain] by (metis prod.collapse)
  have "\<exists>err s1. body = Some (err, s1) \<and> extendsLog s s1"
  proof (cases ?op)
    case (UndoOp i redo)
    show ?thesis
    proof (cases redo)
      case (RedoUndo j)
      have "j < index" using ok UndoOp RedoUndo by simp
      then show ?thesis using less.IH [of j] less.prems UndoOp RedoUndo by (simp add: body_def)
    next
      case (RedoEvict ref m md)
      then show ?thesis using redone [of redo] UndoOp by (cases "logged (redoOp env redo (stmt_ssn s)) s") (simp add: body_def)
    next
      case (RedoPipeline ref host)
      then show ?thesis using redone [of redo] UndoOp by (cases "logged (redoOp env redo (stmt_ssn s)) s") (simp add: body_def)
    next
      case (RedoAllocate ref host)
      then show ?thesis using redone [of redo] UndoOp by (cases "logged (redoOp env redo (stmt_ssn s)) s") (simp add: body_def)
    qed
  qed (simp_all add: body_def same split: prod.split)
  then obtain err s1 where body: "body = Some (err, s1)" "extendsLog s s1" by blast
  have "undoOk (length (operations s1)) (UndoOp index (redoOf ?op))"
    using less.prems(2) body(2) ok by (cases ?op) (auto simp: extendsLog_def)
  note fin = finishUndo_extends [OF body(2) this]
  have "undoOperation env s index = (if b then Some (finishUndo index ?op (err, s1)) else Some (None, s))"
    using less.prems(2) b body(1) by (subst undoOperation.simps) (simp add: body_def)
  then show ?case using fin extendsLog_refl [OF less.prems(1)] by (cases "finishUndo index ?op (err, s1)") auto
qed

lemma findEarliest_returns:
  assumes "wf_ops (operations s)"
  shows "\<exists>r. findEarliest s uid name index ops = Some r \<and> (\<forall>i. r = Some i \<longrightarrow> index \<le> i \<and> i < index + length ops)"
proof (induction ops arbitrary: index)
  case (Cons op ops)
  obtain b where "operationValid (operations s) index = Some b" using operationValid_returns [OF assms] by blast
  then show ?case using Cons [of "Suc index"] by auto
qed simp

lemma Unevict_returns:
  assumes "wf_ops (operations s)"
  shows "\<exists>err s'. Unevict env s ref = Some (err, s') \<and> extendsLog s s'"
proof -
  obtain r where r: "findEarliest s (pod_UID (ssn_task (stmt_ssn s) ref)) ''evict'' 0 (operations s) = Some r"
    and i: "\<And>i. r = Some i \<Longrightarrow> i < length (operations s)"
    using findEarliest_returns [OF assms, of _ _ 0 "operations s"] by (metis add_0)
  show ?thesis
  proof (cases r)
    case (Some index)
    then show ?thesis using undoOperation_returns [OF assms i] r by (simp add: Unevict_def undoEarliestValidOperation_def)
  qed (simp add: Unevict_def undoEarliestValidOperation_def r extendsLog_refl [OF assms])
qed

lemma extendsLog_session: "extendsLog (s\<lparr>stmt_ssn := ssn\<rparr>) s' \<longleftrightarrow> extendsLog s s'"
  by (simp add: extendsLog_def)

lemma Pipeline_returns:
  assumes "wf_ops (operations s)"
  shows "\<exists>err s'. Pipeline env s ref host b = Some (err, s') \<and> extendsLog s s'"
proof -
  have piped: "\<exists>err s'. Some (logged (pipelineTask env ref host job node copy (stmt_ssn s)) s) = Some (err, s') \<and> extendsLog s s'" for job node copy
    using logged_extends [OF assms pipelineTask_plain] by (metis prod.collapse)
  have "\<exists>err s'. Unevict env (s\<lparr>stmt_ssn := ssn\<rparr>) ref = Some (err, s') \<and> extendsLog s s'" for ssn
    using Unevict_returns [of "s\<lparr>stmt_ssn := ssn\<rparr>" env ref] assms by (simp add: extendsLog_session)
  then show ?thesis
    unfolding Pipeline_def Let_def
    by (auto simp: extendsLog_refl [OF assms] piped [simplified] split: option.split)
qed

lemma rollbackLoop_returns:
  "wf_ops (operations s) \<Longrightarrow> n \<le> length (operations s) \<Longrightarrow> \<exists>err s'. rollbackLoop env cp n s = Some (err, s') \<and> extendsLog s s'"
proof (induction n arbitrary: s)
  case (Suc i)
  obtain err s1 where u: "undoOperation env s i = Some (err, s1)" "extendsLog s s1"
    using undoOperation_returns [OF Suc.prems(1)] Suc.prems(2) by (meson Suc_le_lessD)
  then have "wf_ops (operations s1)" "i \<le> length (operations s1)" using Suc.prems(2) by (auto simp: extendsLog_def)
  from Suc.IH [OF this] u show ?case
    using extendsLog_refl [OF Suc.prems(1)] extendsLog_trans by (fastforce split: option.split)
qed (simp add: extendsLog_refl)

lemma Rollback_returns:
  assumes "wf_ops (operations s)"
  shows "\<exists>err s'. Rollback env s cp = Some (err, s') \<and> wf_ops (operations s')"
proof -
  obtain err s1 where "rollbackLoop env (nat cp) (length (operations s)) s = Some (err, s1)" "extendsLog s s1"
    using rollbackLoop_returns [OF assms order_refl] by blast
  then show ?thesis using assms by (auto simp: Rollback_def extendsLog_def wf_ops_take split: option.split)
qed

lemma discardLoop_returns:
  "wf_ops (operations s) \<Longrightarrow> n \<le> length (operations s) \<Longrightarrow> \<exists>s'. discardLoop env n s = Some s' \<and> extendsLog s s'"
proof (induction n arbitrary: s)
  case (Suc i)
  obtain err s1 where u: "undoOperation env s i = Some (err, s1)" "extendsLog s s1"
    using undoOperation_returns [OF Suc.prems(1)] Suc.prems(2) by (meson Suc_le_lessD)
  then have "wf_ops (operations s1)" "i \<le> length (operations s1)" using Suc.prems(2) by (auto simp: extendsLog_def)
  from Suc.IH [OF this] u show ?case using extendsLog_trans by fastforce
qed (simp add: extendsLog_refl)

lemma commitLoop_returns:
  assumes "wf_ops ops"
  shows "\<exists>r. commitLoop env ops i rest err cm ssn = Some r"
proof (induction rest arbitrary: i err cm ssn)
  case (Cons op rest)
  obtain b where "operationValid ops i = Some b" using operationValid_returns [OF assms] by blast
  then show ?case
    using Cons by (cases op) (auto simp: Let_def split: prod.split)
qed simp

text \<open>The calls of a statement, and what code outside of it does to the session between them.\<close>

datatype ('aff, 'p) stmt_call =
    CallEvict taskRef string EvictionMetadata
  | CallPipeline taskRef string bool
  | CallAllocate taskRef string
  | CallUnevict taskRef
  | CallRollback int
  | CallDiscard
  | CallCommit
  | Elsewhere "('aff, 'p) Session"

fun runCall :: "('aff, 'p) ssn_env \<Rightarrow> ('aff, 'p) stmt_call \<Rightarrow> ('aff, 'p) Statement \<Rightarrow> ('aff, 'p) Statement option" where
  "runCall env (CallEvict ref m md) s = Some (snd (Evict env s ref m md))"
| "runCall env (CallPipeline ref host b) s = map_option snd (Pipeline env s ref host b)"
| "runCall env (CallAllocate ref host) s = Some (snd (Allocate env s ref host))"
| "runCall env (CallUnevict ref) s = map_option snd (Unevict env s ref)"
| "runCall env (CallRollback cp) s = map_option snd (Rollback env s cp)"
| "runCall env CallDiscard s = Discard env s"
| "runCall env CallCommit s = map_option snd (Commit env s)"
| "runCall env (Elsewhere ssn) s = Some (s\<lparr>stmt_ssn := ssn\<rparr>)"

fun runCalls :: "('aff, 'p) ssn_env \<Rightarrow> ('aff, 'p) stmt_call list \<Rightarrow> ('aff, 'p) Statement \<Rightarrow> ('aff, 'p) Statement option" where
  "runCalls env [] s = Some s"
| "runCalls env (c # cs) s = Option.bind (runCall env c s) (runCalls env cs)"

lemma runCall_returns:
  assumes "wf_ops (operations s)"
  shows "\<exists>s'. runCall env c s = Some s' \<and> wf_ops (operations s')"
proof -
  have wf: "extendsLog s s' \<Longrightarrow> wf_ops (operations s')" for s' by (simp add: extendsLog_def)
  show ?thesis
  proof (cases c)
    case (CallEvict ref m md)
    then show ?thesis using logged_extends [OF assms stmt_Evict_plain [of env ref m md]] wf by (simp add: Evict_def) (metis prod.collapse)
  next
    case (CallPipeline ref host b)
    then show ?thesis using Pipeline_returns [OF assms, of env ref host b] wf by auto
  next
    case (CallAllocate ref host)
    then show ?thesis using logged_extends [OF assms stmt_Allocate_plain [of env ref host]] wf by (simp add: Allocate_def) (metis prod.collapse)
  next
    case (CallUnevict ref)
    then show ?thesis using Unevict_returns [OF assms, of env ref] wf by auto
  next
    case (CallRollback cp)
    then show ?thesis using Rollback_returns [OF assms, of env cp] by auto
  next
    case CallDiscard
    then show ?thesis
      using discardLoop_returns [OF assms order_refl, of env] assms by (auto simp: Discard_def clearOperations_def)
  next
    case CallCommit
    then show ?thesis
      using commitLoop_returns [OF assms, of env 0 "operations s" None "[]" "stmt_ssn s"] assms
      by (auto simp: Commit_def clearOperations_def split: prod.split)
  qed (use assms in simp)
qed


subsection \<open>Strict logs\<close>

text \<open>Undo operations undo different evictions, and redoing one evicts the task of that eviction.\<close>

definition strict_log :: "Operation list \<Rightarrow> bool" where
  "strict_log ops \<longleftrightarrow>
     (\<forall>k < length ops. \<forall>i r. ops ! k = UndoOp i r \<longrightarrow> i < k \<and> (\<exists>e. ops ! i = EvictOp e \<and> r = redoOf (EvictOp e))) \<and>
     (\<forall>k < length ops. \<forall>l < length ops. \<forall>i r r'. ops ! k = UndoOp i r \<and> ops ! l = UndoOp i r' \<longrightarrow> k = l)"

lemma strict_logD:
  assumes "strict_log ops" and "k < length ops" and "ops ! k = UndoOp i r"
  shows "i < k" and "\<exists>e. ops ! i = EvictOp e \<and> r = redoOf (EvictOp e)"
  using assms unfolding strict_log_def by blast+

lemma strict_log_Nil [simp]: "strict_log []"
  by (simp add: strict_log_def)

lemma strict_log_take: "strict_log ops \<Longrightarrow> strict_log (take n ops)"
  by (auto simp: strict_log_def)

lemma strict_log_plain: "strict_log ops \<Longrightarrow> plainOp (Some op) \<Longrightarrow> strict_log (ops @ [op])"
  by (cases op) (auto simp: strict_log_def nth_append less_Suc_eq)

lemma strict_log_wf: "strict_log ops \<Longrightarrow> wf_ops ops"
proof -
  assume s: "strict_log ops"
  have "undoOk k (ops ! k)" if "k < length ops" for k
  proof (cases "ops ! k")
    case (UndoOp i r)
    then show ?thesis using strict_logD [OF s that UndoOp] by auto
  qed simp_all
  then show "wf_ops ops" by (simp add: wf_ops_def)
qed

text \<open>An eviction that counts as valid in a strict log has not been undone.\<close>

lemma strict_log_undo:
  assumes s: "strict_log ops" and v: "operationValid ops i = Some True" and i: "i < length ops" "ops ! i = EvictOp e"
  shows "strict_log (ops @ [UndoOp i (redoOf (EvictOp e))])"
proof -
  have "findUndo i 0 ops = None"
  proof (rule ccontr)
    assume "findUndo i 0 ops \<noteq> None"
    then obtain u where u: "findUndo i 0 ops = Some u" by blast
    then obtain r where r: "u < length ops" "ops ! u = UndoOp i r" using findUndo_SomeD [OF u] by auto
    have "findUndo u 0 ops = None"
    proof (rule ccontr)
      assume "findUndo u 0 ops \<noteq> None"
      then obtain w where "findUndo u 0 ops = Some w" by blast
      from findUndo_SomeD [OF this] obtain r' where "w < length ops" "ops ! w = UndoOp u r'" by auto
      then show False using strict_logD(2) [OF s] r(2) by fastforce
    qed
    then have "operationValid ops i = Some False" using operationValid_step [of _ ops] u by fastforce
    then show False using v by simp
  qed
  then have "\<forall>u < length ops. \<forall>r. ops ! u \<noteq> UndoOp i r" by (simp add: findUndo_NoneD)
  then show ?thesis
    using s i by (auto simp: strict_log_def nth_append less_Suc_eq)
qed

subsection \<open>Rolling back\<close>

text \<open>What rolling back means for the session: run the reverse of every operation, the last first; the reverse of an
  undone eviction is the eviction.\<close>

fun reverseStep :: "('aff, 'p) ssn_env \<Rightarrow> Operation \<Rightarrow> ('aff, 'p) Session \<Rightarrow> ssn_error option \<times> ('aff, 'p) Session" where
  "reverseStep env (UndoOp i redo) ssn = (let (err, _, ssn) = redoOp env redo ssn in (err, ssn))"
| "reverseStep env op ssn = reverseOp env op ssn"

fun reverseAll :: "('aff, 'p) ssn_env \<Rightarrow> Operation list \<Rightarrow> ('aff, 'p) Session \<Rightarrow> ssn_error option \<times> ('aff, 'p) Session" where
  "reverseAll env [] ssn = (None, ssn)"
| "reverseAll env (op # ops) ssn =
     (case reverseStep env op ssn of (None, ssn) \<Rightarrow> reverseAll env ops ssn | (Some e, ssn) \<Rightarrow> (Some e, ssn))"

text \<open>The log while a rollback has undone the operations from \<open>i\<close> on: behind the old log there is one undo operation for each.\<close>

definition rolledTo :: "Operation list \<Rightarrow> nat \<Rightarrow> Operation list \<Rightarrow> bool" where
  "rolledTo ops i L \<longleftrightarrow> take (length ops) L = ops \<and> length ops \<le> length L \<and>
     (\<forall>u < length L. \<forall>t r. length ops \<le> u \<and> L ! u = UndoOp t r \<longrightarrow> i \<le> t \<and> t < length ops) \<and>
     (\<forall>t < length ops. i \<le> t \<longrightarrow> (\<exists>u < length L. length ops \<le> u \<and> (\<exists>r. L ! u = UndoOp t r)))"

lemma rolledTo_start: "rolledTo ops (length ops) ops"
  by (simp add: rolledTo_def)

lemma rolledTo_nth: "rolledTo ops i L \<Longrightarrow> u < length ops \<Longrightarrow> L ! u = ops ! u"
  unfolding rolledTo_def by (metis nth_take)

lemma rolledTo_plain: "rolledTo ops i L \<Longrightarrow> plainOp (Some op) \<Longrightarrow> rolledTo ops i (L @ [op])"
  unfolding rolledTo_def by (cases op) (fastforce simp: nth_append less_Suc_eq)+

lemma rolledTo_undo: "rolledTo ops (Suc i) L \<Longrightarrow> i < length ops \<Longrightarrow> rolledTo ops i (L @ [UndoOp i r])"
proof -
  assume L: "rolledTo ops (Suc i) L" and i: "i < length ops"
  let ?L = "L @ [UndoOp i r]"
  have len: "length ops \<le> length L" "take (length ops) ?L = ops" using L by (simp_all add: rolledTo_def)
  have targets: "i \<le> t \<and> t < length ops" if "u < length ?L" "length ops \<le> u" "?L ! u = UndoOp t r'" for u t r'
  proof (cases "u < length L")
    case True
    then have "Suc i \<le> t \<and> t < length ops" using L that unfolding rolledTo_def by (metis nth_append)
    then show ?thesis by simp
  next
    case False
    then show ?thesis using that i by (simp add: nth_append less_Suc_eq)
  qed
  have "\<exists>u < length ?L. length ops \<le> u \<and> (\<exists>r. ?L ! u = UndoOp t r)" if t: "t < length ops" "i \<le> t" for t
  proof (cases "t = i")
    case True
    then show ?thesis using len(1) by (intro exI [of _ "length L"]) simp
  next
    case False
    then have "Suc i \<le> t" using t by simp
    then obtain u r' where "u < length L" "length ops \<le> u" "L ! u = UndoOp t r'" using L t unfolding rolledTo_def by blast
    then show ?thesis by (intro exI [of _ u]) (simp add: nth_append)
  qed
  then show "rolledTo ops i ?L" unfolding rolledTo_def using len targets by auto
qed

lemma rolledTo_valid:
  assumes s: "strict_log ops" and L: "rolledTo ops (Suc i) L" and i: "i < length ops"
  shows "operationValid L i = Some True"
proof (cases "findUndo i 0 L")
  case (Some j)
  from findUndo_SomeD [OF Some] obtain r where j: "j < length L" "L ! j = UndoOp i r" by auto
  then have jo: "j < length ops" using L unfolding rolledTo_def by (metis Suc_n_not_le_n not_less)
  then have oj: "ops ! j = UndoOp i r" using rolledTo_nth [OF L] j by simp
  have "i < j" by (rule strict_logD(1) [OF s jo oj])
  then obtain u r' where "u < length L" "L ! u = UndoOp j r'" using L jo unfolding rolledTo_def by (metis Suc_leI)
  then obtain w where w: "findUndo j 0 L = Some w" using findUndo_NoneD [of j 0 L] by (metis not_None_eq)
  from findUndo_SomeD [OF w] obtain r'' where w': "w < length L" "L ! w = UndoOp j r''" by auto
  have "length ops \<le> w"
  proof (rule ccontr)
    assume "\<not> length ops \<le> w"
    then have "w < length ops" "ops ! w = UndoOp j r''" using rolledTo_nth [OF L] w' by auto
    then show False using strict_logD(2) [OF s] oj by fastforce
  qed
  have "findUndo w 0 L = None"
    unfolding findUndo_NoneD
  proof (intro allI impI notI)
    fix v r3 assume v: "v < length L" "L ! v = UndoOp w r3"
    show False
    proof (cases "v < length ops")
      case True
      then have "ops ! v = UndoOp w r3" using rolledTo_nth [OF L] v by simp
      then show False using strict_logD(1) [OF s True] True \<open>length ops \<le> w\<close> by fastforce
    next
      case False
      then have "w < length ops" using L v unfolding rolledTo_def by (metis not_less)
      then show False using \<open>length ops \<le> w\<close> by simp
    qed
  qed
  then have "operationValid L w = Some True" by (rule operationValid_step)
  then have "operationValid L j = Some False" using operationValid_step(2) [OF w, of True] by simp
  then show ?thesis using operationValid_step(2) [OF Some, of False] by simp
qed (simp add: operationValid_step)

lemma undoOperation_strict:
  assumes s: "strict_log ops" and L: "rolledTo ops (Suc i) (operations st)" and i: "i < length ops"
  shows "\<exists>st'. undoOperation env st i = Some (map_option (ReverseFailed (Op_Name (ops ! i))) (fst (reverseStep env (ops ! i) (stmt_ssn st))), st') \<and>
    stmt_ssn st' = snd (reverseStep env (ops ! i) (stmt_ssn st)) \<and>
    (fst (reverseStep env (ops ! i) (stmt_ssn st)) = None \<longrightarrow> rolledTo ops i (operations st'))"
proof -
  have v: "operationValid (operations st) i = Some True" by (rule rolledTo_valid [OF assms])
  have op: "operations st ! i = ops ! i" by (rule rolledTo_nth [OF L i])
  have len: "\<not> length (operations st) \<le> i" using L i by (simp add: rolledTo_def)
  note [simp] = rolledTo_undo [OF L i]
  show ?thesis
  proof (cases "ops ! i")
    case (UndoOp t redo)
    obtain e where redo: "redo = redoOf (EvictOp e)" using strict_logD(2) [OF s i UndoOp] by blast
    obtain err op' ssn where r: "redoOp env redo (stmt_ssn st) = (err, op', ssn)" by (metis prod_cases3)
    have p: "plainOp op'" using redoOp_plain [of env redo "stmt_ssn st"] r by simp
    let ?L = "operations st @ (case op' of None \<Rightarrow> [] | Some op \<Rightarrow> [op])"
    have "rolledTo ops (Suc i) ?L" using rolledTo_plain [OF L] p L by (cases op') auto
    then have "rolledTo ops i (?L @ [UndoOp i (redoOf (UndoOp t redo))])" by (rule rolledTo_undo [OF _ i])
    then show ?thesis
      using v len op UndoOp redo r by (subst undoOperation.simps) (auto simp: logged_def finishUndo_def split: option.split)
  qed (use v len op in \<open>subst undoOperation.simps, auto simp: finishUndo_def split: option.split prod.split\<close>)+
qed

lemma rollbackLoop_strict:
  assumes s: "strict_log ops" and "rolledTo ops n (operations st)" and "n \<le> length ops" and "cp \<le> n"
  shows "\<exists>err st'. rollbackLoop env cp n st = Some (err, st') \<and>
    stmt_ssn st' = snd (reverseAll env (rev (take (n - cp) (drop cp ops))) (stmt_ssn st)) \<and>
    (err = None \<longleftrightarrow> fst (reverseAll env (rev (take (n - cp) (drop cp ops))) (stmt_ssn st)) = None) \<and>
    (err = None \<longrightarrow> rolledTo ops cp (operations st'))"
  using assms(2-4)
proof (induction n arbitrary: st)
  case (Suc i)
  show ?case
  proof (cases "i < cp")
    case True
    then show ?thesis using Suc.prems by (auto simp: le_Suc_eq)
  next
    case False
    have i: "i < length ops" using Suc.prems(2) by simp
    have rv: "rev (take (Suc i - cp) (drop cp ops)) = ops ! i # rev (take (i - cp) (drop cp ops))"
      using False i by (simp add: Suc_diff_le take_Suc_conv_app_nth)
    obtain st1 where u: "undoOperation env st i = Some (map_option (ReverseFailed (Op_Name (ops ! i))) (fst (reverseStep env (ops ! i) (stmt_ssn st))), st1)"
      "stmt_ssn st1 = snd (reverseStep env (ops ! i) (stmt_ssn st))"
      "fst (reverseStep env (ops ! i) (stmt_ssn st)) = None \<longrightarrow> rolledTo ops i (operations st1)"
      using undoOperation_strict [OF s Suc.prems(1) i] by blast
    obtain err ssn1 where r: "reverseStep env (ops ! i) (stmt_ssn st) = (err, ssn1)" by fastforce
    show ?thesis
    proof (cases err)
      case None
      then have "rolledTo ops i (operations st1)" using u r by simp
      from Suc.IH [OF this] i False None u r show ?thesis unfolding rv by simp
    qed (use u r False in \<open>simp add: rv\<close>)
  qed
qed (simp add: rolledTo_def)

text \<open>C33. Rolling back. On a log whose undo operations undo different evictions, which is what the calls of a statement
  leave behind (\<open>strict_log\<close>), \<open>Rollback\<close> to a checkpoint returns and does to the session exactly what the reverse
  operations of the logged operations after the checkpoint do, each run once, in reverse order, stopping at the
  first that fails; without a failure the log is cut back to the checkpoint. \<open>Discard\<close> is the rollback of all.\<close>

theorem rollback_reverses:
  assumes "strict_log (operations s)" and "cp \<le> length (operations s)"
  shows "(\<exists>err s'. Rollback env s (int cp) = Some (err, s') \<and>
      stmt_ssn s' = snd (reverseAll env (rev (drop cp (operations s))) (stmt_ssn s)) \<and>
      (err = None \<longleftrightarrow> fst (reverseAll env (rev (drop cp (operations s))) (stmt_ssn s)) = None) \<and>
      (err = None \<longrightarrow> operations s' = take cp (operations s))) \<and>
    (\<forall>ssn. reverseAll env (rev (operations s)) (stmt_ssn s) = (None, ssn) \<longrightarrow> Discard env s = Some \<lparr>operations = [], stmt_ssn = ssn\<rparr>)"
proof
  let ?ops = "operations s"
  obtain err s1 where r: "rollbackLoop env cp (length ?ops) s = Some (err, s1)"
      "stmt_ssn s1 = snd (reverseAll env (rev (drop cp ?ops)) (stmt_ssn s))"
      "err = None \<longleftrightarrow> fst (reverseAll env (rev (drop cp ?ops)) (stmt_ssn s)) = None"
      "err = None \<longrightarrow> rolledTo ?ops cp (operations s1)"
    using rollbackLoop_strict [OF assms(1) rolledTo_start order_refl assms(2), of env] by auto
  have "err = None \<longrightarrow> take cp (operations s1) = take cp ?ops"
    using r(4) assms(2) by (metis min.absorb1 rolledTo_def take_take)
  then show "\<exists>err s'. Rollback env s (int cp) = Some (err, s') \<and>
      stmt_ssn s' = snd (reverseAll env (rev (drop cp ?ops)) (stmt_ssn s)) \<and>
      (err = None \<longleftrightarrow> fst (reverseAll env (rev (drop cp ?ops)) (stmt_ssn s)) = None) \<and>
      (err = None \<longrightarrow> operations s' = take cp ?ops)"
    using r assms(2) by (cases err) (simp_all add: Rollback_def)
next
  let ?ops = "operations s"
  have loop: "\<exists>st'. discardLoop env n st = Some st' \<and> stmt_ssn st' = ssn"
    if "rolledTo ?ops n (operations st)" "n \<le> length ?ops" "reverseAll env (rev (take n ?ops)) (stmt_ssn st) = (None, ssn)" for n st ssn
    using that
  proof (induction n arbitrary: st)
    case (Suc i)
    have i: "i < length ?ops" using Suc.prems(2) by simp
    obtain ssn1 where r: "reverseStep env (?ops ! i) (stmt_ssn st) = (None, ssn1)" "reverseAll env (rev (take i ?ops)) ssn1 = (None, ssn)"
      using Suc.prems(3) i by (auto simp: take_Suc_conv_app_nth split: prod.splits option.splits)
    then obtain st1 where "undoOperation env st i = Some (None, st1)" "stmt_ssn st1 = ssn1" "rolledTo ?ops i (operations st1)"
      using undoOperation_strict [OF assms(1) Suc.prems(1) i, of env] by auto
    then show ?case using Suc.IH [of st1] i r(2) by simp
  qed simp
  show "\<forall>ssn. reverseAll env (rev ?ops) (stmt_ssn s) = (None, ssn) \<longrightarrow> Discard env s = Some \<lparr>operations = [], stmt_ssn = ssn\<rparr>"
    using loop [OF rolledTo_start order_refl] by (cases s) (force simp: Discard_def clearOperations_def)
qed

text \<open>A session with one job, one node and one registered task, and calls on it with no handlers.\<close>

definition exampleSession :: "'p \<Rightarrow> (string list, 'p) Session" where
  "exampleSession plugins =
     \<lparr>ssn_PodGroupInfos = [(''job'', exampleJob)], ssn_Nodes = [(''n'', exampleNode)], ssn_caps = [],
      ssn_task = (\<lambda>_. examplePod ''b'' Pending), ssn_held = [''b'' \<mapsto> 0], ssn_next = 1, ssn_plugins = plugins, ssn_calls = []\<rparr>"

definition quietEnv :: "(string list, unit) ssn_env" where
  "quietEnv = \<lparr>se_node = exampleEnv, eventHandlers = [], BindRequestMutateFns = [], cache_Evict = (\<lambda>_ _. None),
     cache_Bind = (\<lambda>_ _ _. None), se_now = 0\<rparr>"

definition exampleRollback :: "string list \<times> (ssn_error option \<times> PodStatus \<times> string) option" where
  "exampleRollback =
     (let s = snd (Allocate quietEnv (newStatement (exampleSession ())) 0 ''n'')
      in (map Op_Name (operations s),
          map_option (\<lambda>(err, s). (err, pod_Status (ssn_task (stmt_ssn s) 0), NodeName (ssn_task (stmt_ssn s) 0))) (Rollback quietEnv s 0)))"

theorem rollback_reverses_witness:
  "let s = snd (Allocate quietEnv (newStatement (exampleSession ())) 0 ''n'') in
     \<exists>s'. Rollback quietEnv s 0 = Some (None, s') \<and> stmt_ssn s' = snd (reverseAll quietEnv (rev (operations s)) (stmt_ssn s)) \<and>
       operations s' = [] \<and> length (operations s) = 1 \<and> pod_Status (ssn_task (stmt_ssn s') 0) = Pending"
proof -
  define s where "s = snd (Allocate quietEnv (newStatement (exampleSession ())) 0 ''n'')"
  have "exampleRollback = ([''allocate''], Some (None, Pending, []))" by code_simp
  then have names: "map Op_Name (operations s) = [''allocate'']"
    and run: "map_option (\<lambda>(err, s). (err, pod_Status (ssn_task (stmt_ssn s) 0), NodeName (ssn_task (stmt_ssn s) 0))) (Rollback quietEnv s 0) = Some (None, Pending, [])"
    by (simp_all add: exampleRollback_def Let_def s_def)
  then obtain op where op: "operations s = [op]" "plainOp (Some op)" by (cases "hd (operations s)") auto
  then have "strict_log (operations s)" using strict_log_plain [of "[]" op] by simp
  from rollback_reverses [OF this, of 0 quietEnv] run op(1) show ?thesis unfolding s_def [symmetric] Let_def by auto
qed

end
