(* ===== verification/Session_Laws.thy ===== *)
theory Session_Laws
  imports Session
begin

text \<open>
  What the operations on the task objects of a session keep: jobs stay consistent and store the objects
  that are registered for their pods, and nodes keep their books.
\<close>

subsection \<open>Writing to the tasks of a job\<close>

text \<open>The fields of a task on which a job builds its indexes and sums.\<close>

definition sameCore :: "PodInfo \<Rightarrow> PodInfo \<Rightarrow> bool" where
  "sameCore p q \<longleftrightarrow> pod_UID p = pod_UID q \<and> pod_Job p = pod_Job q \<and> PodKey p = PodKey q \<and> SubGroupName p = SubGroupName q \<and>
     pod_Status p = pod_Status q \<and> ResReqVector p = ResReqVector q"

lemma sameCore_refl [simp]: "sameCore p p"
  by (simp add: sameCore_def)

lemma sameCore_taskSubGroup: "sameCore p q \<Longrightarrow> taskSubGroup p = taskSubGroup q"
  by (simp add: sameCore_def taskSubGroup_def)

lemma map_of_values: "map_of (map (\<lambda>(u, p). (u, f p)) m) u = map_option f (map_of m u)"
  by (induction m) auto

lemma wf_gomap_values [simp]: "wf_gomap (map (\<lambda>(u, p). (u, f p)) m) = wf_gomap m"
  by (simp add: wf_gomap_def case_prod_unfold comp_def)

lemma statusPods_values:
  "statusPods (map (\<lambda>(s, m). (s, map (\<lambda>(u, p). (u, f p)) m)) idx) s = map (\<lambda>(u, p). (u, f p)) (statusPods idx s)"
  by (simp add: statusPods_def map_of_values split: option.split)

lemma pods_mapPodSet: "pods (mapPodSet f ps) = map f (pods ps)"
  by (simp add: pods_def mapPodSet_def case_prod_unfold comp_def)

lemma job_pods_mapPods: "job_pods (mapPods f pgi) = map f (job_pods pgi)"
  by (simp add: job_pods_def mapPods_def map_concat case_prod_unfold comp_def pods_mapPodSet)

lemma count_if_map_cong: "(\<And>p. p \<in> set ps \<Longrightarrow> P (f p) = P p) \<Longrightarrow> count_if P (map f ps) = count_if P ps"
  by (induction ps) (auto simp: count_if_def)

lemma mapPodSet_ok:
  assumes ok: "podset_ok ps" and f: "\<And>p. p \<in> set (pods ps) \<Longrightarrow> sameCore (f p) p"
  shows "podset_ok (mapPodSet f ps)"
proof -
  have look: "pod_UID (f p) = pod_UID p \<and> pod_Status (f p) = pod_Status p" if "map_of (podInfos ps) u = Some p" for u p
    using f [of p] map_of_SomeD [OF that] by (force simp: pods_def sameCore_def)
  have entries: "\<forall>(u, p)\<in>set (map (\<lambda>(u, p). (u, f p)) (podInfos ps)). pod_UID p = u"
    using ok f by (fastforce simp: podset_ok_def pods_def sameCore_def)
  have counts: "count_if (\<lambda>p. Q (pod_Status p)) (map f (pods ps)) = count_if (\<lambda>p. Q (pod_Status p)) (pods ps)" for Q
    using f by (intro count_if_map_cong) (simp add: sameCore_def)
  have idx: "map_of (statusPods (podStatusIndex (mapPodSet f ps)) s) u =
      (case map_of (podInfos (mapPodSet f ps)) u of Some p \<Rightarrow> if pod_Status p = s then Some p else None | None \<Rightarrow> None)" for s u
    using ok look [of u] by (simp add: mapPodSet_def statusPods_values map_of_values podset_ok_def split: option.split)
  have st: "map_of (podStatusMap (mapPodSet f ps)) u = map_option pod_Status (map_of (podInfos (mapPodSet f ps)) u)" for u
    using ok look [of u] by (cases "map_of (podInfos ps) u") (simp_all add: mapPodSet_def map_of_values podset_ok_def)
  show ?thesis
    using ok idx st entries counts unfolding podset_ok_def pods_mapPodSet
    by (simp add: mapPodSet_def statusPods_values)
qed

lemma lookups_values:
  assumes "lookups m M" and "\<And>p. p \<in># M \<Longrightarrow> pod_UID (f p) = pod_UID p"
  shows "lookups (map (\<lambda>(u, p). (u, f p)) m) (image_mset f M)"
  using assms unfolding lookups_def map_of_values wf_gomap_values
  by (auto simp: map_option_case split: option.splits) (metis option.distinct(1) option.inject)+

lemma filter_image_mset_cong:
  "(\<And>p. p \<in># M \<Longrightarrow> P (f p) = P p) \<Longrightarrow> filter_mset P (image_mset f M) = image_mset f (filter_mset P M)"
  by (induction M) auto

lemma mapPods_ok:
  assumes ok: "job_ok pgi" and f: "\<And>p. p \<in># podsBag pgi \<Longrightarrow> sameCore (f p) p"
  shows "job_ok (mapPods f pgi)"
proof -
  let ?p = "mapPods f pgi" and ?M = "podsBag pgi"
  have s: "stores_ok pgi" and x: "indexed pgi ?M" using ok by (simp_all add: job_ok_def)
  have inbag: "p \<in># ?M" if "(n, ps) \<in> set (PodSets pgi)" "p \<in> set (pods ps)" for n ps p
    using that by (auto simp: job_pods_def)
  have "podset_ok (mapPodSet f ps) \<and> ps_name (mapPodSet f ps) = n \<and> (\<forall>p\<in>set (pods (mapPodSet f ps)). taskSubGroup p = n)"
    if m: "(n, ps) \<in> set (PodSets pgi)" for n ps
  proof (intro conjI ballI)
    have ps: "podset_ok ps" "ps_name ps = n" "\<forall>p\<in>set (pods ps). taskSubGroup p = n" using s m unfolding stores_ok_def by blast+
    show "podset_ok (mapPodSet f ps)" by (rule mapPodSet_ok [OF ps(1) f [OF inbag [OF m]]])
    show "ps_name (mapPodSet f ps) = n" using ps(2) by (simp add: mapPodSet_def)
    fix q assume "q \<in> set (pods (mapPodSet f ps))"
    then obtain p where "p \<in> set (pods ps)" "q = f p" by (auto simp: pods_mapPodSet)
    then show "taskSubGroup q = n" using ps(3) sameCore_taskSubGroup [OF f [OF inbag [OF m]]] by metis
  qed
  moreover have "map pod_UID (map f (job_pods pgi)) = map pod_UID (job_pods pgi)"
    using f by (simp add: sameCore_def)
  then have "distinct (map pod_UID (map f (job_pods pgi)))" using s by (simp only: stores_ok_def)
  ultimately have "stores_ok ?p"
    using s unfolding stores_ok_def job_pods_mapPods by (auto simp: mapPods_def simp del: map_map)
  moreover have "indexed ?p (image_mset f ?M)"
  proof -
    have st: "pod_Status (f p) = pod_Status p" "pod_UID (f p) = pod_UID p" "ResReqVector (f p) = ResReqVector p" if "p \<in># ?M" for p
      using f [OF that] by (simp_all add: sameCore_def)
    have filt: "filter_mset (\<lambda>p. Q (pod_Status p)) (image_mset f ?M) = image_mset f (filter_mset (\<lambda>p. Q (pod_Status p)) ?M)" for Q
      using st by (intro filter_image_mset_cong) simp
    have sums: "(\<Sum>p\<in>#image_mset f (filter_mset Q ?M). Get (ResReqVector p) i) = (\<Sum>p\<in>#filter_mset Q ?M. Get (ResReqVector p) i)" for Q i
      using st by (simp add: image_mset.compositionality comp_def) (intro arg_cong [of _ _ sum_mset] image_mset_cong, simp)
    have lk: "lookups (statusPods (PodStatusIndex ?p) s) (filter_mset (\<lambda>p. pod_Status p = s) (image_mset f ?M))" for s
    proof -
      have "lookups (statusPods (PodStatusIndex pgi) s) (filter_mset (\<lambda>p. pod_Status p = s) ?M)" using x unfolding indexed_def by blast
      from lookups_values [OF this, of f] st show ?thesis
        by (simp add: mapPods_def statusPods_values filt [of "\<lambda>t. t = s"])
    qed
    have all: "case allPodsMap ?p of None \<Rightarrow> True | Some m \<Rightarrow> lookups m (image_mset f ?M)"
    proof (cases "allPodsMap pgi")
      case (Some m)
      then have "lookups m ?M" using x by (simp add: indexed_def)
      from lookups_values [OF this, of f] st Some show ?thesis by (simp add: mapPods_def)
    qed (simp add: mapPods_def)
    have keys: "wf_gomap (PodStatusIndex ?p)" "\<forall>s m. map_of (PodStatusIndex ?p) s = Some m \<longrightarrow> m \<noteq> []"
      using x by (auto simp: indexed_def mapPods_def map_of_values)
    have fields: "activeAllocatedCount ?p = activeAllocatedCount pgi" "AllocatedVector ?p = AllocatedVector pgi"
      "aliveTasksRequestedGPUs ?p = aliveTasksRequestedGPUs pgi" by (simp_all add: mapPods_def)
    show ?thesis
      unfolding indexed_def fields filt size_image_mset sums
      using x lk all keys unfolding indexed_def by (simp only: simp_thms)
  qed
  ultimately show ?thesis by (simp add: job_ok_def job_pods_mapPods)
qed

lemma storePod_ok:
  assumes ok: "job_ok pgi" and p: "p \<in># podsBag pgi" and t: "sameCore t p"
  shows "job_ok (storePod t pgi)" and "podsBag (storePod t pgi) = add_mset t (without (pod_UID t) (podsBag pgi))"
proof -
  have one: "q = p" if "q \<in># podsBag pgi" "pod_UID q = pod_UID t" for q
    using ok p t that by (auto simp: job_ok_def stores_ok_def distinct_map sameCore_def dest: inj_onD)
  show "job_ok (storePod t pgi)" unfolding storePod_def using one t by (intro mapPods_ok ok) auto
  let ?f = "\<lambda>p. if pod_UID p = pod_UID t then t else p"
  have bag: "podsBag pgi = add_mset p (without (pod_UID p) (podsBag pgi))"
    using ok p by (intro bag_unique) (simp_all add: job_ok_def)
  have "image_mset ?f (without (pod_UID p) (podsBag pgi)) = without (pod_UID p) (podsBag pgi)"
    using t by (intro multiset.map_ident_strong) (auto simp: sameCore_def)
  moreover have "image_mset ?f (podsBag pgi) = add_mset t (image_mset ?f (without (pod_UID p) (podsBag pgi)))"
    using t by (subst bag) (simp add: sameCore_def)
  ultimately show "podsBag (storePod t pgi) = add_mset t (without (pod_UID t) (podsBag pgi))"
    using t by (simp add: storePod_def job_pods_mapPods sameCore_def)
qed

subsection \<open>Consistent sessions\<close>

text \<open>The jobs are consistent and store, for each registered pod, exactly the registered object.\<close>

definition heldTask :: "('aff, 'p) Session \<Rightarrow> taskRef \<Rightarrow> bool" where
  "heldTask ssn r \<longleftrightarrow> ssn_held ssn (pod_UID (ssn_task ssn r)) = Some r"

definition jobs_ok :: "('aff, 'p) Session \<Rightarrow> bool" where
  "jobs_ok ssn \<longleftrightarrow> wf_gomap (ssn_PodGroupInfos ssn) \<and> (\<forall>(k, job)\<in>set (ssn_PodGroupInfos ssn). job_ok job) \<and>
     (\<forall>u r. ssn_held ssn u = Some r \<longrightarrow> r < ssn_next ssn \<and> pod_UID (ssn_task ssn r) = u \<and>
        (\<exists>job. map_of (ssn_PodGroupInfos ssn) (pod_Job (ssn_task ssn r)) = Some job \<and> ssn_task ssn r \<in># podsBag job))"

definition nodes_ok :: "'aff node_env \<Rightarrow> ('aff, 'p) Session \<Rightarrow> bool" where
  "nodes_ok ne ssn \<longleftrightarrow> (\<forall>(h, ni)\<in>set (ssn_Nodes ssn). node_books ne ni)"

definition session_ok :: "'aff node_env \<Rightarrow> ('aff, 'p) Session \<Rightarrow> bool" where
  "session_ok ne ssn \<longleftrightarrow> jobs_ok ssn \<and> nodes_ok ne ssn"

text \<open>What an operation on object \<open>r\<close> leaves alone: other objects, the identity of the task, and which objects, jobs and
  nodes there are.\<close>

definition sameId :: "PodInfo \<Rightarrow> PodInfo \<Rightarrow> bool" where
  "sameId p q \<longleftrightarrow> sameCore (p\<lparr>pod_Status := pod_Status q\<rparr>) q"

definition opFrame :: "taskRef \<Rightarrow> ('aff, 'p) Session \<Rightarrow> ('aff, 'p) Session \<Rightarrow> bool" where
  "opFrame r ssn ssn' \<longleftrightarrow> ssn_held ssn' = ssn_held ssn \<and> ssn_next ssn \<le> ssn_next ssn' \<and>
     (\<forall>q < ssn_next ssn. q \<noteq> r \<longrightarrow> ssn_task ssn' q = ssn_task ssn q) \<and> sameId (ssn_task ssn' r) (ssn_task ssn r) \<and>
     dom (map_of (ssn_Nodes ssn')) = dom (map_of (ssn_Nodes ssn)) \<and>
     dom (map_of (ssn_PodGroupInfos ssn')) = dom (map_of (ssn_PodGroupInfos ssn))"

lemma sameId_simps [simp]:
  "sameId p p"
  "sameCore p q \<Longrightarrow> sameId p q"
  "sameId (p\<lparr>pod_Status := st\<rparr>) q \<longleftrightarrow> sameId p q"
  by (auto simp: sameId_def sameCore_def PodKey_def)

lemma sameIdD: "sameId p q \<Longrightarrow> pod_UID p = pod_UID q" "sameId p q \<Longrightarrow> pod_Job p = pod_Job q" "sameId p q \<Longrightarrow> PodKey p = PodKey q"
  by (auto simp: sameId_def sameCore_def PodKey_def)

lemma sameId_trans: "sameId p q \<Longrightarrow> sameId q r \<Longrightarrow> sameId p r"
  by (auto simp: sameId_def sameCore_def PodKey_def)

lemma sameCore_upd [simp]:
  "sameCore (p\<lparr>NodeName := n\<rparr>) q \<longleftrightarrow> sameCore p q" "sameCore (p\<lparr>IsVirtualStatus := b\<rparr>) q \<longleftrightarrow> sameCore p q"
  "sameCore (p\<lparr>FractionalGpuGroups := g\<rparr>) q \<longleftrightarrow> sameCore p q" "sameCore (p\<lparr>pod_NUMAPlacement := z\<rparr>) q \<longleftrightarrow> sameCore p q"
  "sameCore (p\<lparr>ResourceClaimInfo := c\<rparr>) q \<longleftrightarrow> sameCore p q"
  by (auto simp: sameCore_def PodKey_def)

lemma sameCore_setAccepted [simp]: "sameCore (setAcceptedResources ne ni t) t"
  by (simp add: sameCore_def setAcceptedResources_def PodKey_def Let_def)

definition keeps :: "'aff node_env \<Rightarrow> taskRef \<Rightarrow> ('aff, 'p) Session \<Rightarrow> ('aff, 'p) Session \<Rightarrow> bool" where
  "keeps ne r ssn ssn' \<longleftrightarrow>
     (session_ok ne ssn \<and> heldTask ssn r \<longrightarrow> session_ok ne ssn' \<and> heldTask ssn' r \<and> opFrame r ssn ssn')"

lemma opFrame_refl [simp]: "opFrame r ssn ssn"
  by (simp add: opFrame_def)

lemma opFrame_trans: "opFrame r ssn ssn1 \<Longrightarrow> opFrame r ssn1 ssn2 \<Longrightarrow> opFrame r ssn ssn2"
  unfolding opFrame_def using sameId_trans by (metis (no_types, lifting) order_less_le_trans order_trans)

lemma keeps_refl [simp]: "keeps ne r ssn ssn"
  by (simp add: keeps_def)

lemma keeps_trans: "keeps ne r ssn ssn1 \<Longrightarrow> keeps ne r ssn1 ssn2 \<Longrightarrow> keeps ne r ssn ssn2"
  unfolding keeps_def using opFrame_trans by blast

lemma opFrame_held: "opFrame r ssn ssn' \<Longrightarrow> heldTask ssn r \<Longrightarrow> heldTask ssn' r"
  by (auto simp: opFrame_def heldTask_def dest: sameIdD)

lemma jobs_okD:
  assumes "jobs_ok ssn" and "heldTask ssn r"
  obtains job where "map_of (ssn_PodGroupInfos ssn) (pod_Job (ssn_task ssn r)) = Some job" and "job_ok job"
    and "ssn_task ssn r \<in># podsBag job" and "r < ssn_next ssn"
proof -
  obtain job where job: "map_of (ssn_PodGroupInfos ssn) (pod_Job (ssn_task ssn r)) = Some job" "ssn_task ssn r \<in># podsBag job" "r < ssn_next ssn"
    using assms unfolding jobs_ok_def heldTask_def by blast
  moreover have "job_ok job" using assms(1) map_of_SomeD [OF job(1)] unfolding jobs_ok_def by blast
  ultimately show ?thesis using that by blast
qed

lemma set_update_subset: "set (AList.update k v m) \<subseteq> insert (k, v) (set m)"
  by (induction m) auto

text \<open>Replacing the object of one pod in its job: the other registered objects stay where they are.\<close>

lemma jobs_ok_replace:
  assumes ok: "jobs_ok ssn" and r: "heldTask ssn r" and job: "map_of (ssn_PodGroupInfos ssn) (pod_Job (ssn_task ssn r)) = Some job"
    and t: "sameId t (ssn_task ssn r)" and job': "job_ok job'" "podsBag job' = add_mset t (without (pod_UID t) (podsBag job))"
    and ssn': "ssn_PodGroupInfos ssn' = AList.update (pod_Job t) job' (ssn_PodGroupInfos ssn)" "ssn_task ssn' = (ssn_task ssn)(r := t)"
      "ssn_held ssn' = ssn_held ssn" "ssn_next ssn' = ssn_next ssn" "ssn_Nodes ssn' = ssn_Nodes ssn"
  shows "jobs_ok ssn'" and "opFrame r ssn ssn'"
proof -
  note id = sameIdD [OF t]
  have bag: "p \<in> set (job_pods job') \<longleftrightarrow> p = t \<or> p \<in> set (job_pods job) \<and> pod_UID p \<noteq> pod_UID t" for p
    using arg_cong [OF job'(2), of set_mset] by auto
  have "r' < ssn_next ssn' \<and> pod_UID (ssn_task ssn' r') = u \<and>
      (\<exists>j. map_of (ssn_PodGroupInfos ssn') (pod_Job (ssn_task ssn' r')) = Some j \<and> ssn_task ssn' r' \<in># podsBag j)"
    if "ssn_held ssn' u = Some r'" for u r'
  proof -
    from that ok obtain j where u: "r' < ssn_next ssn" "pod_UID (ssn_task ssn r') = u"
      "map_of (ssn_PodGroupInfos ssn) (pod_Job (ssn_task ssn r')) = Some j" "ssn_task ssn r' \<in># podsBag j"
      unfolding jobs_ok_def ssn'(3) by blast
    show ?thesis
    proof (cases "r' = r")
      case True
      then show ?thesis using u id ssn' bag by simp
    next
      case False
      then have "pod_UID (ssn_task ssn r') \<noteq> pod_UID t" using that r u(2) ssn'(3) id(1) by (auto simp: heldTask_def)
      then have "ssn_task ssn r' \<in># podsBag job'" if "j = job" using u(4) that bag by simp
      then show ?thesis using False u job id(2) ssn' by auto
    qed
  qed
  moreover have "\<forall>(k, j)\<in>set (ssn_PodGroupInfos ssn'). job_ok j"
  proof -
    have "set (ssn_PodGroupInfos ssn') \<subseteq> insert (pod_Job t, job') (set (ssn_PodGroupInfos ssn))"
      unfolding ssn'(1) by (rule set_update_subset)
    then show ?thesis using ok job'(1) unfolding jobs_ok_def by fastforce
  qed
  ultimately show "jobs_ok ssn'" using ok ssn' unfolding jobs_ok_def by (simp add: wf_gomap_update)
  show "opFrame r ssn ssn'" using t job id(2) ssn' by (auto simp: opFrame_def)
qed

subsection \<open>The operations on task objects\<close>

lemma writeTask_fields [simp]:
  "ssn_task (writeTask r t ssn) = (ssn_task ssn)(r := t)" "ssn_Nodes (writeTask r t ssn) = ssn_Nodes ssn"
  "ssn_held (writeTask r t ssn) = ssn_held ssn" "ssn_next (writeTask r t ssn) = ssn_next ssn"
  "ssn_calls (writeTask r t ssn) = ssn_calls ssn" "ssn_plugins (writeTask r t ssn) = ssn_plugins ssn"
  by (simp_all add: writeTask_def)

lemma nodes_ok_cong: "ssn_Nodes ssn' = ssn_Nodes ssn \<Longrightarrow> nodes_ok ne ssn' = nodes_ok ne ssn"
  by (simp add: nodes_ok_def)

lemma keepsI:
  assumes "\<And>job. session_ok ne ssn \<Longrightarrow> heldTask ssn r \<Longrightarrow> job_ok job \<Longrightarrow> ssn_task ssn r \<in># podsBag job \<Longrightarrow>
      map_of (ssn_PodGroupInfos ssn) (pod_Job (ssn_task ssn r)) = Some job \<Longrightarrow>
      jobs_ok ssn' \<and> nodes_ok ne ssn' \<and> opFrame r ssn ssn'"
  shows "keeps ne r ssn ssn'"
proof -
  have "jobs_ok ssn' \<and> nodes_ok ne ssn' \<and> opFrame r ssn ssn'" if ok: "session_ok ne ssn" "heldTask ssn r"
  proof -
    have "jobs_ok ssn" using ok(1) by (simp add: session_ok_def)
    then obtain job where "map_of (ssn_PodGroupInfos ssn) (pod_Job (ssn_task ssn r)) = Some job" "job_ok job" "ssn_task ssn r \<in># podsBag job"
      using jobs_okD [OF _ ok(2)] by metis
    then show ?thesis using assms [OF ok, of job] by blast
  qed
  then show ?thesis unfolding keeps_def using opFrame_held by (auto simp: session_ok_def)
qed

lemma writeTask_keeps:
  assumes "sameCore t (ssn_task ssn r)"
  shows "keeps ne r ssn (writeTask r t ssn)"
proof (rule keepsI)
  fix job
  assume a: "session_ok ne ssn" "heldTask ssn r" "job_ok job" "ssn_task ssn r \<in># podsBag job"
    "map_of (ssn_PodGroupInfos ssn) (pod_Job (ssn_task ssn r)) = Some job"
  have id: "sameId t (ssn_task ssn r)" using assms by simp
  have held: "ssn_held ssn (pod_UID t) = Some r" using a(2) sameIdD(1) [OF id] by (simp add: heldTask_def)
  have upd: "ssn_PodGroupInfos (writeTask r t ssn) = AList.update (pod_Job t) (storePod t job) (ssn_PodGroupInfos ssn)"
    using held a(5) sameIdD(2) [OF id] by (simp add: writeTask_def)
  have "jobs_ok ssn" using a(1) by (simp add: session_ok_def)
  from jobs_ok_replace [OF this a(2,5) id storePod_ok [OF a(3,4) assms] upd]
  show "jobs_ok (writeTask r t ssn) \<and> nodes_ok ne (writeTask r t ssn) \<and> opFrame r ssn (writeTask r t ssn)"
    using a(1) nodes_ok_cong [of "writeTask r t ssn" ssn ne] by (simp add: session_ok_def)
qed

lemma updateStatus_keeps:
  assumes "session_ok ne ssn" and "heldTask ssn r" and job: "map_of (ssn_PodGroupInfos ssn) (pod_Job (ssn_task ssn r)) = Some job"
  shows "fst (updateStatus r st job ssn) = None"
    and "ssn_task (snd (updateStatus r st job ssn)) = (ssn_task ssn)(r := (ssn_task ssn r)\<lparr>pod_Status := st\<rparr>)"
    and "keeps ne r ssn (snd (updateStatus r st job ssn))"
proof -
  have jobs: "jobs_ok ssn" using assms(1) by (simp add: session_ok_def)
  obtain job1 where j: "job_ok job" "ssn_task ssn r \<in># podsBag job"
    using jobs_okD [OF jobs assms(2)] job by (metis option.inject)
  obtain job' where u: "UpdateTaskStatus (ssn_task ssn r) st job = (None, (ssn_task ssn r)\<lparr>pod_Status := st\<rparr>, job')" "job_ok job'"
    "podsBag job' = add_mset ((ssn_task ssn r)\<lparr>pod_Status := st\<rparr>) (without (pod_UID (ssn_task ssn r)) (podsBag job))"
    by (rule UpdateTaskStatus_post [OF j])
  let ?ssn = "snd (updateStatus r st job ssn)"
  have held: "(ssn_held ssn)(pod_UID (ssn_task ssn r) \<mapsto> r) = ssn_held ssn" using assms(2) by (auto simp: heldTask_def)
  then have f: "fst (updateStatus r st job ssn) = None" "ssn_held ?ssn = ssn_held ssn" "ssn_next ?ssn = ssn_next ssn" "ssn_Nodes ?ssn = ssn_Nodes ssn"
    "ssn_task ?ssn = (ssn_task ssn)(r := (ssn_task ssn r)\<lparr>pod_Status := st\<rparr>)"
    "ssn_PodGroupInfos ?ssn = AList.update (pod_Job ((ssn_task ssn r)\<lparr>pod_Status := st\<rparr>)) job' (ssn_PodGroupInfos ssn)"
    by (simp_all add: updateStatus_def u)
  then show "fst (updateStatus r st job ssn) = None" "ssn_task ?ssn = (ssn_task ssn)(r := (ssn_task ssn r)\<lparr>pod_Status := st\<rparr>)" by simp_all
  have "jobs_ok ?ssn" "opFrame r ssn ?ssn"
    by (rule jobs_ok_replace [OF jobs assms(2) job _ u(2) _ f(6,5,2,3,4)], simp, simp add: u(3))+
  then show "keeps ne r ssn ?ssn"
    using assms(1) nodes_ok_cong [OF f(4), of ne] opFrame_held unfolding keeps_def session_ok_def by blast
qed

lemma updateStatus_nodes [simp]: "ssn_Nodes (snd (updateStatus r st job ssn)) = ssn_Nodes ssn"
  by (simp add: updateStatus_def Let_def split: prod.split)

lemma nodes_update_keeps:
  assumes "map_of (ssn_Nodes ssn) host = Some node" and "node_books ne node \<Longrightarrow> node_books ne ni"
  shows "keeps ne r ssn (ssn\<lparr>ssn_Nodes := AList.update host ni (ssn_Nodes ssn), ssn_caps := caps\<rparr>)" (is "keeps ne r ssn ?ssn")
proof (rule keepsI)
  fix job assume a: "session_ok ne ssn" "heldTask ssn r"
  have "nodes_ok ne ?ssn"
    using a(1) assms set_update_subset [of host ni "ssn_Nodes ssn"] map_of_SomeD [OF assms(1)]
    unfolding session_ok_def nodes_ok_def by fastforce
  moreover have "jobs_ok ?ssn" using a(1) by (simp add: session_ok_def jobs_ok_def)
  ultimately show "jobs_ok ?ssn \<and> nodes_ok ne ?ssn \<and> opFrame r ssn ?ssn"
    using assms(1) by (auto simp: opFrame_def)
qed

lemma onNode_keeps:
  assumes "map_of (ssn_Nodes ssn) host = Some node" and "f node (ssn_caps ssn) (ssn_task ssn r) = (ni, caps, t, err)"
    and "node_books ne node \<Longrightarrow> node_books ne ni" and "sameCore t (ssn_task ssn r)"
  shows "keeps ne r ssn (snd (onNode f host node r ssn))"
proof -
  have "keeps ne r ssn (ssn\<lparr>ssn_Nodes := AList.update host ni (ssn_Nodes ssn), ssn_caps := caps\<rparr>)"
    by (rule nodes_update_keeps [OF assms(1,3)])
  from keeps_trans [OF this writeTask_keeps, of t] assms(2,4) show ?thesis by (simp add: onNode_def)
qed

lemma AddTask_task: "AddTask ne ni caps t = (ni', caps', t', err) \<Longrightarrow> t' = setAcceptedResources ne ni t"
  by (auto simp: AddTask_def addTask_def Let_def split: if_splits)

lemma UpdateTask_task:
  assumes "UpdateTask ne ni caps t = (ni', caps', t', err)"
  obtains n where "t' = t \<or> t' = setAcceptedResources ne n t"
proof -
  obtain n caps1 e where r: "RemoveTask ne ni caps t = (n, caps1, e)" by (metis prod_cases3)
  show ?thesis
  proof (cases e)
    case None
    then have "AddTask ne n caps1 t = (ni', caps', t', err)" using assms r by (simp add: UpdateTask_def AddTask_def)
    from that [OF disjI2 [OF AddTask_task [OF this]]] show ?thesis .
  qed (use that assms r in \<open>simp add: UpdateTask_def\<close>)
qed

lemma node_ops_keep:
  assumes "map_of (ssn_Nodes ssn) host = Some node"
  shows "keeps (se_node env) r ssn (snd (nodeAddTask env host node r ssn))"
    and "keeps (se_node env) r ssn (snd (nodeUpdateTask env host node r ssn))"
    and "keeps (se_node env) r ssn (snd (nodeRemoveTask env host node r ssn))"
proof -
  obtain ni caps t err where a: "AddTask (se_node env) node (ssn_caps ssn) (ssn_task ssn r) = (ni, caps, t, err)" by (metis prod_cases4)
  show "keeps (se_node env) r ssn (snd (nodeAddTask env host node r ssn))"
    unfolding nodeAddTask_def
    by (rule onNode_keeps [where f = "AddTask (se_node env)", OF assms a AddTask_books [OF a]]) (simp_all add: AddTask_task [OF a])
  obtain ni caps t err where u: "UpdateTask (se_node env) node (ssn_caps ssn) (ssn_task ssn r) = (ni, caps, t, err)" by (metis prod_cases4)
  obtain n where "t = ssn_task ssn r \<or> t = setAcceptedResources (se_node env) n (ssn_task ssn r)" by (rule UpdateTask_task [OF u])
  then have "sameCore t (ssn_task ssn r)" using sameCore_refl sameCore_setAccepted by metis
  then show "keeps (se_node env) r ssn (snd (nodeUpdateTask env host node r ssn))"
    unfolding nodeUpdateTask_def using UpdateTask_books [OF u]
    by (intro onNode_keeps [where f = "UpdateTask (se_node env)", OF assms u]) simp_all
  obtain ni caps err where m: "RemoveTask (se_node env) node (ssn_caps ssn) (ssn_task ssn r) = (ni, caps, err)" by (metis prod_cases3)
  show "keeps (se_node env) r ssn (snd (nodeRemoveTask env host node r ssn))"
    unfolding nodeRemoveTask_def using RemoveTask_books [OF m]
    by (intro onNode_keeps [OF assms, where ni = ni and caps = caps and t = "ssn_task ssn r" and err = err]) (simp_all add: m)
qed

subsection \<open>Event handlers\<close>

text \<open>Where and how a task is placed.\<close>

definition placement :: "PodInfo \<Rightarrow> PodStatus \<times> string \<times> FractionalGpuGroup list \<times> bool" where
  "placement t = (pod_Status t, NodeName t, FractionalGpuGroups t, IsVirtualStatus t)"

text \<open>Handlers keep the identity and the placement of the task; they may fill in its resource claims and its NUMA
  placement, as the plugins for dynamic resources and NUMA do.\<close>

definition handlersKeep :: "('aff, 'p) ssn_env \<Rightarrow> bool" where
  "handlersKeep env \<longleftrightarrow>
     (\<forall>h\<in>set (eventHandlers env). \<forall>f. AllocateFunc h = Some f \<or> DeallocateFunc h = Some f \<longrightarrow>
        (\<forall>ssn t. sameCore (snd (f ssn t)) t \<and> placement (snd (f ssn t)) = placement t))"

locale session_handlers =
  fixes env :: "('aff, 'p) ssn_env"
  assumes handlers: "handlersKeep env"
begin

lemma handler_run:
  assumes "\<forall>f. Some f \<in> set hs \<longrightarrow> (\<forall>ssn t. sameCore (snd (f ssn t)) t \<and> placement (snd (f ssn t)) = placement t)"
  shows "keeps (se_node env) r ssn (runHandlers hs r ssn) \<and> ssn_Nodes (runHandlers hs r ssn) = ssn_Nodes ssn \<and>
    ssn_calls (runHandlers hs r ssn) = ssn_calls ssn \<and> placement (ssn_task (runHandlers hs r ssn) r) = placement (ssn_task ssn r)"
  using assms
proof (induction hs arbitrary: ssn)
  case Nil
  then show ?case by (simp add: runHandlers_def)
next
  case (Cons h hs)
  have "\<forall>f. Some f \<in> set hs \<longrightarrow> (\<forall>ssn t. sameCore (snd (f ssn t)) t \<and> placement (snd (f ssn t)) = placement t)"
    using Cons.prems by simp
  note IH = Cons.IH [OF this]
  show ?case
  proof (cases h)
    case None
    then show ?thesis using IH [of ssn] by (simp add: runHandlers_def)
  next
    case (Some f)
    obtain p t where f: "f ssn (ssn_task ssn r) = (p, t)" by fastforce
    then have t: "sameCore t (ssn_task ssn r)" "placement t = placement (ssn_task ssn r)"
      using Cons.prems [rule_format, of f] Some by (metis list.set_intros(1) snd_conv)+
    let ?s = "writeTask r t (ssn\<lparr>ssn_plugins := p\<rparr>)"
    have "keeps (se_node env) r ssn (ssn\<lparr>ssn_plugins := p\<rparr>)"
      by (simp add: keeps_def session_ok_def jobs_ok_def nodes_ok_def heldTask_def opFrame_def)
    then have "keeps (se_node env) r ssn ?s" using t(1) by (intro keeps_trans [OF _ writeTask_keeps]) simp_all
    moreover have "runHandlers (h # hs) r ssn = runHandlers hs r ?s" using Some f by (simp add: runHandlers_def)
    ultimately show ?thesis using IH [of ?s] t(2) keeps_trans by auto
  qed
qed

lemma kept:
  "\<forall>f. Some f \<in> set (map AllocateFunc (eventHandlers env)) \<longrightarrow> (\<forall>ssn t. sameCore (snd (f ssn t)) t \<and> placement (snd (f ssn t)) = placement t)"
  "\<forall>f. Some f \<in> set (map DeallocateFunc (eventHandlers env)) \<longrightarrow> (\<forall>ssn t. sameCore (snd (f ssn t)) t \<and> placement (snd (f ssn t)) = placement t)"
  using handlers unfolding handlersKeep_def set_map by (metis (no_types, lifting) imageE)+

lemma fireAllocate_run:
  "keeps (se_node env) r ssn (fireAllocate env r ssn)" "ssn_Nodes (fireAllocate env r ssn) = ssn_Nodes ssn"
  "ssn_calls (fireAllocate env r ssn) = ssn_calls ssn" "placement (ssn_task (fireAllocate env r ssn) r) = placement (ssn_task ssn r)"
proof -
  note run = handler_run [of "map AllocateFunc (eventHandlers env)", OF kept(1), of r ssn]
  show "keeps (se_node env) r ssn (fireAllocate env r ssn)" "ssn_Nodes (fireAllocate env r ssn) = ssn_Nodes ssn"
    "ssn_calls (fireAllocate env r ssn) = ssn_calls ssn" "placement (ssn_task (fireAllocate env r ssn) r) = placement (ssn_task ssn r)"
    unfolding fireAllocate_def using run by blast+
qed

lemma fireDeallocate_run:
  "keeps (se_node env) r ssn (fireDeallocate env r ssn)" "ssn_Nodes (fireDeallocate env r ssn) = ssn_Nodes ssn"
  "ssn_calls (fireDeallocate env r ssn) = ssn_calls ssn" "placement (ssn_task (fireDeallocate env r ssn) r) = placement (ssn_task ssn r)"
proof -
  note run = handler_run [of "map DeallocateFunc (eventHandlers env)", OF kept(2), of r ssn]
  show "keeps (se_node env) r ssn (fireDeallocate env r ssn)" "ssn_Nodes (fireDeallocate env r ssn) = ssn_Nodes ssn"
    "ssn_calls (fireDeallocate env r ssn) = ssn_calls ssn" "placement (ssn_task (fireDeallocate env r ssn) r) = placement (ssn_task ssn r)"
    unfolding fireDeallocate_def using run by blast+
qed

end

text \<open>The handlers that the proportion plugin registers.\<close>

definition proportionHandler :: "('aff, proportionPlugin option) EventHandler" where
  "proportionHandler =
     \<lparr>AllocateFunc = Some (\<lambda>ssn t. (Option.bind (ssn_plugins ssn) (allocateHandlerFn (ssn_PodGroupInfos ssn) t), t)),
      DeallocateFunc = Some (\<lambda>ssn t. (Option.bind (ssn_plugins ssn) (deallocateHandlerFn (ssn_PodGroupInfos ssn) t), t))\<rparr>"

definition proportionEnv :: "'aff node_env \<Rightarrow> (cacheCall list \<Rightarrow> PodInfo \<Rightarrow> string option) \<Rightarrow> (cacheCall list \<Rightarrow> PodInfo \<Rightarrow> string \<Rightarrow> string option)
     \<Rightarrow> ('aff, proportionPlugin option) ssn_env" where
  "proportionEnv ne cacheEvict cacheBind =
     \<lparr>se_node = ne, eventHandlers = [proportionHandler], BindRequestMutateFns = [], cache_Evict = cacheEvict,
      cache_Bind = cacheBind, se_now = 0\<rparr>"

lemma proportionEnv_handlers: "handlersKeep (proportionEnv ne ce cb)"
  by (auto simp: handlersKeep_def proportionEnv_def proportionHandler_def)

interpretation proportion_session: session_handlers "proportionEnv ne ce cb" for ne ce cb
  by unfold_locales (rule proportionEnv_handlers)

text \<open>Node operations keep the placement of the task.\<close>

lemma placement_setAccepted [simp]: "placement (setAcceptedResources ne ni t) = placement t"
  by (simp add: placement_def setAcceptedResources_def Let_def)

lemma placement_upd [simp]:
  "placement (t\<lparr>pod_NUMAPlacement := z\<rparr>) = placement t" "placement (t\<lparr>ResourceClaimInfo := c\<rparr>) = placement t"
  by (simp_all add: placement_def)

lemma node_ops_placement:
  "placement (ssn_task (snd (nodeAddTask env host node r ssn)) r) = placement (ssn_task ssn r)"
  "placement (ssn_task (snd (nodeUpdateTask env host node r ssn)) r) = placement (ssn_task ssn r)"
  "placement (ssn_task (snd (nodeRemoveTask env host node r ssn)) r) = placement (ssn_task ssn r)"
proof -
  obtain ni caps t err where a: "AddTask (se_node env) node (ssn_caps ssn) (ssn_task ssn r) = (ni, caps, t, err)" by (metis prod_cases4)
  then show "placement (ssn_task (snd (nodeAddTask env host node r ssn)) r) = placement (ssn_task ssn r)"
    using AddTask_task [OF a] by (simp add: nodeAddTask_def onNode_def)
  obtain ni caps t err where u: "UpdateTask (se_node env) node (ssn_caps ssn) (ssn_task ssn r) = (ni, caps, t, err)" by (metis prod_cases4)
  obtain n where "t = ssn_task ssn r \<or> t = setAcceptedResources (se_node env) n (ssn_task ssn r)" by (rule UpdateTask_task [OF u])
  then have "placement t = placement (ssn_task ssn r)" using placement_setAccepted by metis
  then show "placement (ssn_task (snd (nodeUpdateTask env host node r ssn)) r) = placement (ssn_task ssn r)"
    using u by (simp add: nodeUpdateTask_def onNode_def)
  show "placement (ssn_task (snd (nodeRemoveTask env host node r ssn)) r) = placement (ssn_task ssn r)"
    by (simp add: nodeRemoveTask_def onNode_def Let_def split: prod.split)
qed

lemma keepsD:
  assumes "keeps ne r ssn ssn'" and "session_ok ne ssn" and "heldTask ssn r"
  shows "session_ok ne ssn'" and "heldTask ssn' r" and "opFrame r ssn ssn'"
  using assms by (simp_all add: keeps_def)

lemma session_okD:
  assumes "session_ok ne ssn" and "heldTask ssn r"
  obtains job where "map_of (ssn_PodGroupInfos ssn) (pod_Job (ssn_task ssn r)) = Some job"
  using assms jobs_okD unfolding session_ok_def by metis

end
