(* ===== verification/Statement_Laws.thy ===== *)
theory Statement_Laws
  imports Statement_Log Session_Laws
begin

text \<open>
  What the operations of a statement and their reverses do to the session. Each keeps jobs consistent and the
  books of nodes, and leaves all tasks but one alone (\<open>keeps\<close>); its effect on the placement of that task is given
  exactly. From this follow that a session stays consistent through a transaction, and that rolling back puts
  every task back where it was.
\<close>

subsection \<open>Effects on a task\<close>

lemma writeTask_task: "ssn_task (writeTask r t ssn) r = t"
  by simp

lemma placement_fields:
  "placement t = (st, n, g, v) \<longleftrightarrow> pod_Status t = st \<and> NodeName t = n \<and> FractionalGpuGroups t = g \<and> IsVirtualStatus t = v"
  by (simp add: placement_def)

context session_handlers
begin

text \<open>The first step of all operations, and of all reverses.\<close>

lemma status_step:
  assumes ok: "session_ok (se_node env) ssn" "heldTask ssn r"
    and job: "map_of (ssn_PodGroupInfos ssn) (pod_Job (ssn_task ssn r)) = Some job"
  obtains ssn1 where "updateStatus r st job ssn = (None, ssn1)" and "keeps (se_node env) r ssn ssn1"
    and "session_ok (se_node env) ssn1" and "heldTask ssn1 r" and "ssn_Nodes ssn1 = ssn_Nodes ssn"
    and "ssn_task ssn1 = (ssn_task ssn)(r := (ssn_task ssn r)\<lparr>pod_Status := st\<rparr>)"
proof -
  note u = updateStatus_keeps [OF assms, of st]
  have "updateStatus r st job ssn = (None, snd (updateStatus r st job ssn))" using u(1) by (metis prod.collapse)
  then show ?thesis by (rule that) (use u keepsD [OF u(3) ok] in simp_all)
qed

text \<open>Writing fields that jobs do not look at.\<close>

lemma write_step:
  assumes "sameCore t (ssn_task ssn r)" and "session_ok (se_node env) ssn" "heldTask ssn r"
  shows "keeps (se_node env) r ssn (writeTask r t ssn)" "session_ok (se_node env) (writeTask r t ssn)" "heldTask (writeTask r t ssn) r"
  using writeTask_keeps [OF assms(1)] keepsD [OF writeTask_keeps [OF assms(1)] assms(2,3)] by blast+

lemma stmt_Evict_effect:
  assumes ok: "session_ok (se_node env) ssn" "heldTask ssn r" and res: "stmt_Evict env r m md ssn = (err, op, ssn')"
  shows "keeps (se_node env) r ssn ssn'"
    and "err = None \<Longrightarrow> \<exists>e. op = Some (EvictOp e) \<and> ev_taskInfo e = r \<and> ev_previousNode e = NodeName (ssn_task ssn r) \<and>
      placement (ssn_task ssn r) = (ev_previousStatus e, NodeName (ssn_task ssn r), ev_previousFractionalGpuGroups e, ev_previousIsVirtualStatus e) \<and>
      placement (ssn_task ssn' r) = (Releasing, NodeName (ssn_task ssn r), ev_previousFractionalGpuGroups e, True)"
    and "err \<noteq> None \<Longrightarrow> op = None"
proof -
  let ?t = "ssn_task ssn r"
  obtain job where job: "map_of (ssn_PodGroupInfos ssn) (pod_Job ?t) = Some job" by (rule session_okD [OF ok])
  obtain ssn1 where u: "updateStatus r Releasing job ssn = (None, ssn1)" "keeps (se_node env) r ssn ssn1"
    "session_ok (se_node env) ssn1" "heldTask ssn1 r" "ssn_Nodes ssn1 = ssn_Nodes ssn"
    "ssn_task ssn1 = (ssn_task ssn)(r := ?t\<lparr>pod_Status := Releasing\<rparr>)"
    by (rule status_step [OF ok job])
  define ssn2 where "ssn2 = writeTask r ((ssn_task ssn1 r)\<lparr>IsVirtualStatus := True\<rparr>) ssn1"
  have w: "keeps (se_node env) r ssn1 ssn2" "session_ok (se_node env) ssn2" "heldTask ssn2 r"
    unfolding ssn2_def using u(3,4) by (auto intro!: write_step)
  have p2: "placement (ssn_task ssn2 r) = (Releasing, NodeName ?t, FractionalGpuGroups ?t, True)"
    by (simp add: ssn2_def u(6) placement_def)
  have "keeps (se_node env) r ssn ssn' \<and> (err = None \<longrightarrow> (\<exists>e. op = Some (EvictOp e) \<and> ev_taskInfo e = r \<and> ev_previousNode e = NodeName ?t \<and>
      placement ?t = (ev_previousStatus e, NodeName ?t, ev_previousFractionalGpuGroups e, ev_previousIsVirtualStatus e) \<and>
      placement (ssn_task ssn' r) = (Releasing, NodeName ?t, ev_previousFractionalGpuGroups e, True))) \<and> (err \<noteq> None \<longrightarrow> op = None)"
  proof (cases "map_of (ssn_Nodes ssn) (NodeName ?t)")
    case None
    then show ?thesis using res job by (auto simp: stmt_Evict_def Let_def)
  next
    case (Some node)
    obtain nerr ssn3 where n: "nodeUpdateTask env (NodeName ?t) node r ssn2 = (nerr, ssn3)" by fastforce
    have lk: "map_of (ssn_Nodes ssn2) (NodeName ?t) = Some node" using Some u(5) by (simp add: ssn2_def)
    have k3: "keeps (se_node env) r ssn2 ssn3" using node_ops_keep(2) [OF lk, of env r] n by simp
    have p3: "placement (ssn_task ssn3 r) = placement (ssn_task ssn2 r)" using node_ops_placement(2) [of env "NodeName ?t" node r ssn2] n by simp
    have k: "keeps (se_node env) r ssn ssn3" using keeps_trans u(2) w(1) k3 by blast
    show ?thesis
    proof (cases nerr)
      case None
      then show ?thesis
        using res job Some u(1) n p2 p3 keeps_trans [OF k fireDeallocate_run(1)] fireDeallocate_run(4) [of r ssn3]
        by (auto simp: stmt_Evict_def Let_def ssn2_def [symmetric] cloneFractionalGpuGroups_def placement_fields)
    next
      case (Some e)
      have "keeps (se_node env) r ssn3 (writeTask r ((ssn_task ssn3 r)\<lparr>IsVirtualStatus := IsVirtualStatus ?t\<rparr>) ssn3)"
        by (rule writeTask_keeps) simp
      then show ?thesis
        using res job \<open>map_of (ssn_Nodes ssn) (NodeName ?t) = Some node\<close> u(1) n Some keeps_trans [OF k]
        by (auto simp: stmt_Evict_def Let_def ssn2_def [symmetric])
    qed
  qed
  then show "keeps (se_node env) r ssn ssn'"
    and "err = None \<Longrightarrow> \<exists>e. op = Some (EvictOp e) \<and> ev_taskInfo e = r \<and> ev_previousNode e = NodeName (ssn_task ssn r) \<and>
      placement (ssn_task ssn r) = (ev_previousStatus e, NodeName (ssn_task ssn r), ev_previousFractionalGpuGroups e, ev_previousIsVirtualStatus e) \<and>
      placement (ssn_task ssn' r) = (Releasing, NodeName (ssn_task ssn r), ev_previousFractionalGpuGroups e, True)"
    and "err \<noteq> None \<Longrightarrow> op = None" by blast+
qed

lemma unevict_effect:
  assumes ok: "session_ok (se_node env) ssn" "heldTask ssn r"
  shows "keeps (se_node env) r ssn (unevict env r st host groups numa claims virtual ssn)"
    and "placement (ssn_task (unevict env r st host groups numa claims virtual ssn) r) = (st, NodeName (ssn_task ssn r), groups, virtual)"
proof -
  let ?t = "ssn_task ssn r"
  obtain job where job: "map_of (ssn_PodGroupInfos ssn) (pod_Job ?t) = Some job" by (rule session_okD [OF ok])
  obtain ssn1 where u: "updateStatus r st job ssn = (None, ssn1)" "keeps (se_node env) r ssn ssn1"
    "session_ok (se_node env) ssn1" "heldTask ssn1 r" "ssn_Nodes ssn1 = ssn_Nodes ssn" "ssn_task ssn1 = (ssn_task ssn)(r := ?t\<lparr>pod_Status := st\<rparr>)"
    by (rule status_step [OF ok job])
  define ssn2 where "ssn2 = writeTask r ((ssn_task ssn1 r)\<lparr>FractionalGpuGroups := groups, pod_NUMAPlacement := Placement_Clone numa,
                                 IsVirtualStatus := virtual, ResourceClaimInfo := claims\<rparr>) ssn1"
  have w: "keeps (se_node env) r ssn1 ssn2" unfolding ssn2_def by (rule writeTask_keeps) simp
  have p2: "placement (ssn_task ssn2 r) = (st, NodeName ?t, groups, virtual)" by (simp add: ssn2_def u(6) placement_def)
  define ssn3 where "ssn3 = (case map_of (ssn_Nodes ssn2) host of
                   None \<Rightarrow> ssn2
                 | Some node \<Rightarrow>
                     if map_of (PodInfos node) (PodKey (ssn_task ssn2 r)) \<noteq> None
                     then snd (nodeUpdateTask env host node r ssn2)
                     else snd (nodeAddTask env host node r ssn2))"
  have k3: "keeps (se_node env) r ssn2 ssn3 \<and> placement (ssn_task ssn3 r) = placement (ssn_task ssn2 r)"
    using node_ops_keep [of ssn2 host _ env r] node_ops_placement [of env host _ r ssn2] unfolding ssn3_def by (simp split: option.split)
  have un: "unevict env r st host groups numa claims virtual ssn = fireAllocate env r ssn3"
    unfolding unevict_def Let_def job option.case u(1) snd_conv ssn2_def [symmetric] ssn3_def ..
  show "keeps (se_node env) r ssn (unevict env r st host groups numa claims virtual ssn)"
    unfolding un using keeps_trans u(2) w k3 fireAllocate_run(1) by blast
  show "placement (ssn_task (unevict env r st host groups numa claims virtual ssn) r) = (st, NodeName (ssn_task ssn r), groups, virtual)"
    unfolding un fireAllocate_run(4) using k3 p2 by simp
qed

lemma unpipeline_effect:
  assumes ok: "session_ok (se_node env) ssn" "heldTask ssn r"
    and res: "unpipeline env r prev st groups numa claims virtual ssn = (err, ssn')"
  shows "keeps (se_node env) r ssn ssn'"
    and "NodeName (ssn_task ssn r) \<in> dom (map_of (ssn_Nodes ssn)) \<Longrightarrow> err = None \<and> placement (ssn_task ssn' r) = (st, prev, groups, virtual)"
proof -
  let ?t = "ssn_task ssn r"
  obtain job where job: "map_of (ssn_PodGroupInfos ssn) (pod_Job ?t) = Some job" by (rule session_okD [OF ok])
  obtain ssn1 where u: "updateStatus r st job ssn = (None, ssn1)" "keeps (se_node env) r ssn ssn1"
    "session_ok (se_node env) ssn1" "heldTask ssn1 r" "ssn_Nodes ssn1 = ssn_Nodes ssn" "ssn_task ssn1 = (ssn_task ssn)(r := ?t\<lparr>pod_Status := st\<rparr>)"
    by (rule status_step [OF ok job])
  define ssn2 where "ssn2 = writeTask r ((ssn_task ssn1 r)\<lparr>FractionalGpuGroups := groups, ResourceClaimInfo := claims, IsVirtualStatus := virtual\<rparr>) ssn1"
  have w: "keeps (se_node env) r ssn1 ssn2" unfolding ssn2_def by (rule writeTask_keeps) simp
  have p2: "placement (ssn_task ssn2 r) = (st, NodeName ?t, groups, virtual)" "ssn_Nodes ssn2 = ssn_Nodes ssn" by (simp_all add: ssn2_def u(5,6) placement_def)
  have k2: "keeps (se_node env) r ssn ssn2" by (rule keeps_trans [OF u(2) w])
  have host: "NodeName (ssn_task ssn1 r) = NodeName ?t" by (simp add: u(6))
  have un: "unpipeline env r prev st groups numa claims virtual ssn =
      (case map_of (ssn_Nodes ssn) (NodeName ?t) of
           None \<Rightarrow> (Some (NodeMissing (NodeName ?t)), ssn2)
         | Some node \<Rightarrow>
             let ssn = fireDeallocate env r (snd (nodeRemoveTask env (NodeName ?t) node r ssn2))
             in (None, writeTask r ((ssn_task ssn r)\<lparr>NodeName := prev, pod_NUMAPlacement := Placement_Clone numa\<rparr>) ssn))"
    unfolding unpipeline_def Let_def job option.case u(1) snd_conv ssn2_def [symmetric] host p2(2) ..
  have "keeps (se_node env) r ssn ssn' \<and> (NodeName ?t \<in> dom (map_of (ssn_Nodes ssn)) \<longrightarrow> err = None \<and> placement (ssn_task ssn' r) = (st, prev, groups, virtual))"
  proof (cases "map_of (ssn_Nodes ssn) (NodeName ?t)")
    case None
    then show ?thesis using res k2 unfolding un by auto
  next
    case (Some node)
    define ssn4 where "ssn4 = fireDeallocate env r (snd (nodeRemoveTask env (NodeName ?t) node r ssn2))"
    have k4: "keeps (se_node env) r ssn2 ssn4"
      unfolding ssn4_def by (rule keeps_trans [OF node_ops_keep(3) fireDeallocate_run(1)]) (simp add: p2(2) Some)
    have p4: "placement (ssn_task ssn4 r) = (st, NodeName ?t, groups, virtual)"
      unfolding ssn4_def fireDeallocate_run(4) node_ops_placement(3) by (rule p2(1))
    have s': "err = None" "ssn' = writeTask r ((ssn_task ssn4 r)\<lparr>NodeName := prev, pod_NUMAPlacement := Placement_Clone numa\<rparr>) ssn4"
      using res Some unfolding un by (auto simp: Let_def ssn4_def)
    have "keeps (se_node env) r ssn4 ssn'" unfolding s'(2) by (rule writeTask_keeps) simp
    then have "keeps (se_node env) r ssn ssn'" using keeps_trans k2 k4 by blast
    then show ?thesis using s' p4 by (simp add: placement_def)
  qed
  then show "keeps (se_node env) r ssn ssn'"
    and "NodeName ?t \<in> dom (map_of (ssn_Nodes ssn)) \<Longrightarrow> err = None \<and> placement (ssn_task ssn' r) = (st, prev, groups, virtual)" by blast+
qed

lemma unallocate_effect:
  assumes ok: "session_ok (se_node env) ssn" "heldTask ssn r"
    and res: "unallocate env r numa virtual ssn = (err, ssn')"
  shows "keeps (se_node env) r ssn ssn'"
    and "NodeName (ssn_task ssn r) \<in> dom (map_of (ssn_Nodes ssn)) \<Longrightarrow>
      err = None \<and> placement (ssn_task ssn' r) = (Pending, [], FractionalGpuGroups (ssn_task ssn r), virtual)"
proof -
  let ?t = "ssn_task ssn r"
  obtain job where job: "map_of (ssn_PodGroupInfos ssn) (pod_Job ?t) = Some job" by (rule session_okD [OF ok])
  obtain ssn1 where u: "updateStatus r Pending job ssn = (None, ssn1)" "keeps (se_node env) r ssn ssn1"
    "session_ok (se_node env) ssn1" "heldTask ssn1 r" "ssn_Nodes ssn1 = ssn_Nodes ssn" "ssn_task ssn1 = (ssn_task ssn)(r := ?t\<lparr>pod_Status := Pending\<rparr>)"
    by (rule status_step [OF ok job])
  have host: "NodeName (ssn_task ssn1 r) = NodeName ?t" by (simp add: u(6))
  have un: "unallocate env r numa virtual ssn =
      (case map_of (ssn_Nodes ssn) (NodeName ?t) of
           None \<Rightarrow> (Some (NodeMissing (NodeName ?t)), ssn1)
         | Some node \<Rightarrow>
             let ssn = snd (nodeRemoveTask env (NodeName ?t) node r ssn1);
                 ssn = fireDeallocate env r (writeTask r ((ssn_task ssn r)\<lparr>IsVirtualStatus := virtual\<rparr>) ssn)
             in (None, writeTask r ((ssn_task ssn r)\<lparr>NodeName := [], pod_NUMAPlacement := Placement_Clone numa\<rparr>) ssn))"
    unfolding unallocate_def Let_def job option.case u(1) snd_conv host u(5) ..
  have "keeps (se_node env) r ssn ssn' \<and> (NodeName ?t \<in> dom (map_of (ssn_Nodes ssn)) \<longrightarrow>
      err = None \<and> placement (ssn_task ssn' r) = (Pending, [], FractionalGpuGroups ?t, virtual))"
  proof (cases "map_of (ssn_Nodes ssn) (NodeName ?t)")
    case None
    then show ?thesis using res u(2) unfolding un by auto
  next
    case (Some node)
    define ssn2 where "ssn2 = snd (nodeRemoveTask env (NodeName ?t) node r ssn1)"
    define ssn3 where "ssn3 = writeTask r ((ssn_task ssn2 r)\<lparr>IsVirtualStatus := virtual\<rparr>) ssn2"
    define ssn4 where "ssn4 = fireDeallocate env r ssn3"
    have k2: "keeps (se_node env) r ssn1 ssn2" unfolding ssn2_def by (rule node_ops_keep(3)) (simp add: u(5) Some)
    have p2: "placement (ssn_task ssn2 r) = (Pending, NodeName ?t, FractionalGpuGroups ?t, IsVirtualStatus ?t)"
      unfolding ssn2_def node_ops_placement(3) by (simp add: u(6) placement_def)
    have k3: "keeps (se_node env) r ssn2 ssn3" unfolding ssn3_def by (rule writeTask_keeps) simp
    have p4: "placement (ssn_task ssn4 r) = (Pending, NodeName ?t, FractionalGpuGroups ?t, virtual)"
      unfolding ssn4_def fireDeallocate_run(4) using p2 by (simp add: ssn3_def placement_def)
    have s': "err = None" "ssn' = writeTask r ((ssn_task ssn4 r)\<lparr>NodeName := [], pod_NUMAPlacement := Placement_Clone numa\<rparr>) ssn4"
      using res Some unfolding un by (auto simp: Let_def ssn4_def ssn3_def ssn2_def)
    have "keeps (se_node env) r ssn4 ssn'" unfolding s'(2) by (rule writeTask_keeps) simp
    then have "keeps (se_node env) r ssn ssn'"
      using keeps_trans u(2) k2 k3 fireDeallocate_run(1) [of r ssn3, folded ssn4_def] by blast
    then show ?thesis using s' p4 by (simp add: placement_def)
  qed
  then show "keeps (se_node env) r ssn ssn'"
    and "NodeName ?t \<in> dom (map_of (ssn_Nodes ssn)) \<Longrightarrow>
      err = None \<and> placement (ssn_task ssn' r) = (Pending, [], FractionalGpuGroups ?t, virtual)" by blast+
qed

text \<open>Pipelining, when the task does not move to another GPU of the node it is on.\<close>

lemma pipelineTask_effect:
  assumes ok: "session_ok (se_node env) ssn" "heldTask ssn r"
    and job: "map_of (ssn_PodGroupInfos ssn) (pod_Job (ssn_task ssn r)) = Some job" and node: "map_of (ssn_Nodes ssn) host = Some node"
    and stay: "\<And>c. copy = Some c \<Longrightarrow> \<not> gpuPlacementChanged (se_node env) (ssn_task ssn r) c"
    and res: "pipelineTask env r host job node copy ssn = (err, op, ssn')"
  shows "keeps (se_node env) r ssn ssn'"
    and "err = None \<Longrightarrow> \<exists>p. op = Some (PipelineOp p) \<and> pl_taskInfo p = r \<and> pl_nextNode p = host \<and>
      placement (ssn_task ssn r) = (pl_previousStatus p, pl_previousNode p, pl_previousFractionalGpuGroups p, pl_previousIsVirtualStatus p) \<and>
      placement (ssn_task ssn' r) = (Pipelined, host, pl_previousFractionalGpuGroups p, True)"
    and "err \<noteq> None \<Longrightarrow> op = None"
proof -
  let ?t = "ssn_task ssn r"
  obtain ssn1 where u: "updateStatus r Pipelined job ssn = (None, ssn1)" "keeps (se_node env) r ssn ssn1"
    "session_ok (se_node env) ssn1" "heldTask ssn1 r" "ssn_Nodes ssn1 = ssn_Nodes ssn" "ssn_task ssn1 = (ssn_task ssn)(r := ?t\<lparr>pod_Status := Pipelined\<rparr>)"
    by (rule status_step [OF ok job])
  define ssn2 where "ssn2 = writeTask r ((ssn_task ssn1 r)\<lparr>NodeName := host\<rparr>) ssn1"
  have w: "keeps (se_node env) r ssn1 ssn2" unfolding ssn2_def by (rule writeTask_keeps) simp
  have p2: "placement (ssn_task ssn2 r) = (Pipelined, host, FractionalGpuGroups ?t, IsVirtualStatus ?t)" by (simp add: ssn2_def u(6) placement_def)
  have lk: "map_of (ssn_Nodes ssn2) host = Some node" using node u(5) by (simp add: ssn2_def)
  define r3 where "r3 = (if copy \<noteq> None then (None, snd (nodeUpdateTask env host node r ssn2)) else nodeAddTask env host node r ssn2)"
  have k3: "keeps (se_node env) r ssn2 (snd r3)" "placement (ssn_task (snd r3) r) = placement (ssn_task ssn2 r)"
    using node_ops_keep [OF lk, of env r] node_ops_placement [of env host node r ssn2] by (simp_all add: r3_def)
  have stay': "(case copy of None \<Rightarrow> False | Some t \<Rightarrow> gpuPlacementChanged (se_node env) ?t t) = False"
    using stay by (cases copy) simp_all
  have k: "keeps (se_node env) r ssn (snd r3)" using keeps_trans u(2) w k3(1) by blast
  obtain nerr ssn3 where r3: "r3 = (nerr, ssn3)" by fastforce
  define ssn4 where "ssn4 = fireAllocate env r ssn3"
  define ssn5 where "ssn5 = writeTask r ((ssn_task ssn4 r)\<lparr>IsVirtualStatus := True\<rparr>) ssn4"
  have k5: "keeps (se_node env) r ssn ssn5"
    unfolding ssn5_def ssn4_def using k r3 fireAllocate_run(1) [of r ssn3]
    by (intro keeps_trans [OF keeps_trans [of _ _ ssn ssn3] writeTask_keeps]) simp_all
  have p5: "placement (ssn_task ssn5 r) = (Pipelined, host, FractionalGpuGroups ?t, True)"
    using fireAllocate_run(4) [of r ssn3] k3(2) p2 r3 by (simp add: ssn5_def ssn4_def placement_def)
  have form: "pipelineTask env r host job node copy ssn =
      (case nerr of Some e \<Rightarrow> (Some (NodeFailed e), None, ssn3)
       | None \<Rightarrow> (None, Some (PipelineOp
            \<lparr>pl_taskInfo = r, pl_previousStatus = pod_Status ?t, pl_previousNode = NodeName ?t,
             pl_previousFractionalGpuGroups = cloneFractionalGpuGroups (FractionalGpuGroups ?t),
             pl_previousNumaPlacement =
               (if (case copy of None \<Rightarrow> False | Some t \<Rightarrow> numaPlacementChanged ?t t) then Placement_Clone (pod_NUMAPlacement (the copy))
                else Placement_Clone (pod_NUMAPlacement ?t)),
             pl_previousResourceClaimInfo = ResourceClaimInfo ?t, pl_previousIsVirtualStatus = IsVirtualStatus ?t, pl_nextNode = host,
             pl_message = ''Pod '' @ pod_Namespace ?t @ ''/'' @ pod_Name ?t @ '' was pipelined to node '' @ ni_Name node\<rparr>), ssn5))"
    unfolding pipelineTask_def Let_def u(1) case_prod_conv option.case ssn2_def [symmetric] stay' if_False r3_def [symmetric] r3
      ssn4_def [symmetric] ssn5_def [symmetric] ..
  have "keeps (se_node env) r ssn ssn3" using k r3 by simp
  then show "keeps (se_node env) r ssn ssn'" using res k5 unfolding form by (cases nerr) auto
  show "err = None \<Longrightarrow> \<exists>p. op = Some (PipelineOp p) \<and> pl_taskInfo p = r \<and> pl_nextNode p = host \<and>
      placement (ssn_task ssn r) = (pl_previousStatus p, pl_previousNode p, pl_previousFractionalGpuGroups p, pl_previousIsVirtualStatus p) \<and>
      placement (ssn_task ssn' r) = (Pipelined, host, pl_previousFractionalGpuGroups p, True)"
    using res p5 unfolding form by (cases nerr) (auto simp: cloneFractionalGpuGroups_def placement_fields)
  show "err \<noteq> None \<Longrightarrow> op = None" using res unfolding form by (cases nerr) auto
qed

lemma newTask_keeps: "keeps ne r ssn (snd (newTask t ssn))"
proof (rule keepsI)
  fix job assume a: "session_ok ne ssn" "heldTask ssn r"
  have j: "jobs_ok ssn" using a(1) by (simp add: session_ok_def)
  have r: "r < ssn_next ssn" by (rule jobs_okD [OF j a(2)])
  have "jobs_ok (snd (newTask t ssn))"
    using j unfolding jobs_ok_def newTask_def by (auto simp: less_Suc_eq)
  then show "jobs_ok (snd (newTask t ssn)) \<and> nodes_ok ne (snd (newTask t ssn)) \<and> opFrame r ssn (snd (newTask t ssn))"
    using a(1) r by (simp add: session_ok_def nodes_ok_def opFrame_def newTask_def)
qed

lemma stmt_Allocate_effect:
  assumes ok: "session_ok (se_node env) ssn" "heldTask ssn r" and res: "stmt_Allocate env r host ssn = (err, op, ssn')"
  shows "keeps (se_node env) r ssn ssn'"
    and "err = None \<Longrightarrow> host \<in> dom (map_of (ssn_Nodes ssn)) \<and> (\<exists>a. op = Some (AllocateOp a) \<and> al_task a = r \<and>
      al_previousIsVirtualStatus a = IsVirtualStatus (ssn_task ssn r) \<and>
      placement (ssn_task ssn' r) = (Allocated, host, FractionalGpuGroups (ssn_task ssn r), True))"
    and "err \<noteq> None \<Longrightarrow> op = None"
proof -
  let ?t = "ssn_task ssn r"
  obtain job where job: "map_of (ssn_PodGroupInfos ssn) (pod_Job ?t) = Some job" by (rule session_okD [OF ok])
  obtain ssn1 where u: "updateStatus r Allocated job ssn = (None, ssn1)" "keeps (se_node env) r ssn ssn1"
    "session_ok (se_node env) ssn1" "heldTask ssn1 r" "ssn_Nodes ssn1 = ssn_Nodes ssn" "ssn_task ssn1 = (ssn_task ssn)(r := ?t\<lparr>pod_Status := Allocated\<rparr>)"
    by (rule status_step [OF ok job])
  define ssn2 where "ssn2 = writeTask r ((ssn_task ssn1 r)\<lparr>NodeName := host\<rparr>) ssn1"
  have w: "keeps (se_node env) r ssn1 ssn2" unfolding ssn2_def by (rule writeTask_keeps) simp
  have k2: "keeps (se_node env) r ssn ssn2" by (rule keeps_trans [OF u(2) w])
  have p2: "placement (ssn_task ssn2 r) = (Allocated, host, FractionalGpuGroups ?t, IsVirtualStatus ?t)" "ssn_Nodes ssn2 = ssn_Nodes ssn"
    by (simp_all add: ssn2_def u(5,6) placement_def)
  have start: "stmt_Allocate env r host ssn =
     (case map_of (ssn_Nodes ssn) host of
           None \<Rightarrow> (Some (NodeMissing host), None, ssn2)
         | Some node \<Rightarrow>
      let (err, ssn) = nodeAddTask env host node r ssn2
      in case err of
           Some e \<Rightarrow> (Some (NodeFailed e), None, ssn)
         | None \<Rightarrow>
      let previousNumaPlacement = Placement_Clone (pod_NUMAPlacement (ssn_task ssn r));
          ssn = fireAllocate env r ssn;
          previousIsVirtualStatus = IsVirtualStatus (ssn_task ssn r);
          (clone, ssn) = newTask (PodInfo_Clone (ssn_task ssn r)) ssn;
          op = \<lparr>al_taskInfo = clone, al_nextNode = ni_Name node, al_task = r,
                al_previousNumaPlacement = previousNumaPlacement, al_previousIsVirtualStatus = previousIsVirtualStatus\<rparr>
      in (None, Some (AllocateOp op), writeTask r ((ssn_task ssn r)\<lparr>IsVirtualStatus := True\<rparr>) ssn))"
    unfolding stmt_Allocate_def Let_def job option.case u(1) case_prod_conv ssn2_def [symmetric] p2(2) ..
  have "keeps (se_node env) r ssn ssn' \<and> (err = None \<longrightarrow> host \<in> dom (map_of (ssn_Nodes ssn)) \<and> (\<exists>a. op = Some (AllocateOp a) \<and> al_task a = r \<and>
      al_previousIsVirtualStatus a = IsVirtualStatus ?t \<and>
      placement (ssn_task ssn' r) = (Allocated, host, FractionalGpuGroups ?t, True))) \<and> (err \<noteq> None \<longrightarrow> op = None)"
  proof (cases "map_of (ssn_Nodes ssn) host")
    case None
    then show ?thesis using res k2 unfolding start by auto
  next
    case (Some node)
    obtain nerr ssn3 where n: "nodeAddTask env host node r ssn2 = (nerr, ssn3)" by fastforce
    have lk: "map_of (ssn_Nodes ssn2) host = Some node" using Some p2(2) by simp
    have k3: "keeps (se_node env) r ssn ssn3" using keeps_trans [OF k2 node_ops_keep(1) [OF lk, of env r]] n by simp
    have p3: "placement (ssn_task ssn3 r) = placement (ssn_task ssn2 r)" using node_ops_placement(1) [of env host node r ssn2] n by simp
    show ?thesis
    proof (cases nerr)
      case (Some e)
      then show ?thesis using res k3 n \<open>map_of (ssn_Nodes ssn) host = Some node\<close> unfolding start by auto
    next
      case None
      define ssn4 where "ssn4 = fireAllocate env r ssn3"
      define ssn5 where "ssn5 = snd (newTask (PodInfo_Clone (ssn_task ssn4 r)) ssn4)"
      define ssn6 where "ssn6 = writeTask r ((ssn_task ssn5 r)\<lparr>IsVirtualStatus := True\<rparr>) ssn5"
      have k4: "keeps (se_node env) r ssn ssn4" unfolding ssn4_def by (rule keeps_trans [OF k3 fireAllocate_run(1)])
      have k5: "keeps (se_node env) r ssn ssn5" unfolding ssn5_def by (rule keeps_trans [OF k4 newTask_keeps])
      have k6: "keeps (se_node env) r ssn ssn6"
        unfolding ssn6_def by (rule keeps_trans [OF k5 writeTask_keeps]) simp
      have p4: "placement (ssn_task ssn4 r) = (Allocated, host, FractionalGpuGroups ?t, IsVirtualStatus ?t)"
        unfolding ssn4_def fireAllocate_run(4) p3 p2(1) ..
      have "heldTask ssn4 r" "session_ok (se_node env) ssn4" using keepsD [OF k4 ok] by blast+
      then have "r < ssn_next ssn4" unfolding session_ok_def using jobs_okD by metis
      then have t5: "ssn_task ssn5 r = ssn_task ssn4 r" by (simp add: ssn5_def newTask_def)
      have c: "newTask (PodInfo_Clone (ssn_task ssn4 r)) ssn4 = (ssn_next ssn4, ssn5)" by (simp add: ssn5_def newTask_def)
      have "err = None" "ssn' = ssn6"
        "op = Some (AllocateOp \<lparr>al_taskInfo = ssn_next ssn4, al_nextNode = ni_Name node, al_task = r,
           al_previousNumaPlacement = Placement_Clone (pod_NUMAPlacement (ssn_task ssn3 r)), al_previousIsVirtualStatus = IsVirtualStatus (ssn_task ssn4 r)\<rparr>)"
        using res \<open>map_of (ssn_Nodes ssn) host = Some node\<close> n None c
        unfolding start by (simp_all add: Let_def ssn6_def flip: ssn4_def)
      then show ?thesis using k6 p4 t5 Some by (auto simp: ssn6_def placement_fields)
    qed
  qed
  then show "keeps (se_node env) r ssn ssn'"
    and "err = None \<Longrightarrow> host \<in> dom (map_of (ssn_Nodes ssn)) \<and> (\<exists>a. op = Some (AllocateOp a) \<and> al_task a = r \<and>
      al_previousIsVirtualStatus a = IsVirtualStatus (ssn_task ssn r) \<and>
      placement (ssn_task ssn' r) = (Allocated, host, FractionalGpuGroups (ssn_task ssn r), True))"
    and "err \<noteq> None \<Longrightarrow> op = None" by blast+
qed

end

subsection \<open>Transactions\<close>

definition movesGpu :: "('aff, 'p) ssn_env \<Rightarrow> ('aff, 'p) Statement \<Rightarrow> taskRef \<Rightarrow> string \<Rightarrow> bool" where
  "movesGpu env s r host =
     (let task = ssn_task (stmt_ssn s) r
      in case map_of (ssn_Nodes (stmt_ssn s)) host of
           None \<Rightarrow> False
         | Some node \<Rightarrow> (case map_of (PodInfos node) (PodKey task) of None \<Rightarrow> False | Some c \<Rightarrow> gpuPlacementChanged (se_node env) task c))"

text \<open>The steps of a transaction: calls of the statement on tasks that their jobs hold, whether they succeed or fail, a
  rollback that succeeds, and what callers write to a task between calls.\<close>

inductive stmt_step :: "('aff, 'p) ssn_env \<Rightarrow> ('aff, 'p) Statement \<Rightarrow> ('aff, 'p) Statement \<Rightarrow> bool" for env where
  step_evict: "heldTask (stmt_ssn s) r \<Longrightarrow> Evict env s r m md = (err, s') \<Longrightarrow> stmt_step env s s'"
| step_pipeline: "heldTask (stmt_ssn s) r \<Longrightarrow> \<not> movesGpu env s r host \<Longrightarrow> Pipeline env s r host b = Some (err, s') \<Longrightarrow> stmt_step env s s'"
| step_allocate: "heldTask (stmt_ssn s) r \<Longrightarrow> Allocate env s r host = (err, s') \<Longrightarrow> stmt_step env s s'"
| step_unevict: "Unevict env s r = Some (err, s') \<Longrightarrow> stmt_step env s s'"
| step_rollback: "Rollback env s cp = Some (None, s') \<Longrightarrow> stmt_step env s s'"
| step_discard: "Discard env s = Some s' \<Longrightarrow> stmt_step env s s'"
| step_write: "heldTask (stmt_ssn s) r \<Longrightarrow> sameCore t (ssn_task (stmt_ssn s) r) \<Longrightarrow>
    stmt_step env s (s\<lparr>stmt_ssn := writeTask r t (stmt_ssn s)\<rparr>)"

text \<open>The tasks that the operations of a log would move again are held by their jobs.\<close>

fun safeOp :: "('aff, 'p) Session \<Rightarrow> Operation \<Rightarrow> bool" where
  "safeOp ssn (EvictOp e) \<longleftrightarrow> heldTask ssn (ev_taskInfo e)"
| "safeOp ssn (PipelineOp p) \<longleftrightarrow> heldTask ssn (pl_taskInfo p)"
| "safeOp ssn (AllocateOp a) \<longleftrightarrow> heldTask ssn (al_task a)"
| "safeOp ssn (UndoOp _ redo) \<longleftrightarrow> (\<exists>ref m md. redo = RedoEvict ref m md \<and> heldTask ssn ref)"

definition heldGrow :: "('aff, 'p) Session \<Rightarrow> ('aff, 'p) Session \<Rightarrow> bool" where
  "heldGrow ssn ssn' \<longleftrightarrow> (\<forall>q. heldTask ssn q \<longrightarrow> heldTask ssn' q)"

lemma heldGrow_refl [simp]: "heldGrow ssn ssn" and heldGrow_trans: "heldGrow a b \<Longrightarrow> heldGrow b c \<Longrightarrow> heldGrow a c"
  by (simp_all add: heldGrow_def)

lemma safeOp_mono: "heldGrow ssn ssn' \<Longrightarrow> safeOp ssn op \<Longrightarrow> safeOp ssn' op"
  by (cases op) (auto simp: heldGrow_def)

lemma keeps_goes:
  assumes "keeps ne r ssn ssn'" and "session_ok ne ssn" and "heldTask ssn r"
  shows "session_ok ne ssn' \<and> heldGrow ssn ssn'"
proof -
  note k = keepsD [OF assms]
  have "heldTask ssn' q" if q: "heldTask ssn q" for q
  proof (cases "q = r")
    case False
    have "q < ssn_next ssn" using q assms(2) jobs_okD unfolding session_ok_def by metis
    then show ?thesis using q k(3) False by (simp add: opFrame_def heldTask_def)
  qed (use k(2) in simp)
  then show ?thesis using k(1) by (simp add: heldGrow_def)
qed

definition transaction_ok :: "('aff, 'p) ssn_env \<Rightarrow> ('aff, 'p) Statement \<Rightarrow> bool" where
  "transaction_ok env s \<longleftrightarrow> session_ok (se_node env) (stmt_ssn s) \<and> strict_log (operations s) \<and> (\<forall>op\<in>set (operations s). safeOp (stmt_ssn s) op)"

lemma findEarliest_SomeD:
  "findEarliest s uid name n ops = Some (Some i) \<Longrightarrow>
     n \<le> i \<and> i - n < length ops \<and> operationValid (operations s) i = Some True \<and> Op_Name (ops ! (i - n)) = name"
proof (induction ops arbitrary: n)
  case (Cons op ops)
  then obtain b where b: "operationValid (operations s) n = Some b" by (cases "operationValid (operations s) n") auto
  show ?case
  proof (cases "\<not> b \<or> uid \<noteq> opUID (stmt_ssn s) op \<or> name \<noteq> Op_Name op")
    case True
    then have "findEarliest s uid name (Suc n) ops = Some (Some i)" using Cons.prems b by simp
    from Cons.IH [OF this] show ?thesis by (auto simp: nth_Cons')
  next
    case False
    then show ?thesis using Cons.prems b by simp
  qed
qed simp

lemma evict_name: "Op_Name op = ''evict'' \<Longrightarrow> \<exists>e. op = EvictOp e"
  by (cases op) simp_all

context session_handlers
begin

lemma logged_ok:
  assumes s: "transaction_ok env s" and r: "heldTask (stmt_ssn s) r" and res: "res = (err, op, ssn')" "logged res s = (err, s')"
    and k: "keeps (se_node env) r (stmt_ssn s) ssn'" and op: "\<And>o'. op = Some o' \<Longrightarrow> plainOp (Some o') \<and> (heldTask ssn' r \<longrightarrow> safeOp ssn' o')"
  shows "transaction_ok env s'"
proof -
  have ok: "session_ok (se_node env) (stmt_ssn s)" "strict_log (operations s)" using s by (simp_all add: transaction_ok_def)
  have g: "session_ok (se_node env) ssn'" "heldGrow (stmt_ssn s) ssn'" using keeps_goes [OF k ok(1) r] by blast+
  have h: "heldTask ssn' r" using keepsD(2) [OF k ok(1) r] .
  have s': "stmt_ssn s' = ssn'" "operations s' = operations s @ (case op of None \<Rightarrow> [] | Some op \<Rightarrow> [op])"
    using res by (auto simp: logged_def)
  have "strict_log (operations s')" using ok(2) op strict_log_plain by (cases op) (auto simp: s'(2))
  moreover have "\<forall>o'\<in>set (operations s'). safeOp ssn' o'"
    using s op h safeOp_mono [OF g(2)] unfolding s'(2) transaction_ok_def by (cases op) auto
  ultimately show ?thesis using g(1) by (simp add: transaction_ok_def s'(1))
qed

lemma Evict_ok:
  assumes "transaction_ok env s" and r: "heldTask (stmt_ssn s) r" and "Evict env s r m md = (err, s')"
  shows "transaction_ok env s'"
proof -
  obtain err1 op ssn' where res: "stmt_Evict env r m md (stmt_ssn s) = (err1, op, ssn')" by (metis prod_cases3)
  have ok: "session_ok (se_node env) (stmt_ssn s)" using assms(1) by (simp add: transaction_ok_def)
  note e = stmt_Evict_effect [OF ok r res]
  have "plainOp (Some o') \<and> (heldTask ssn' r \<longrightarrow> safeOp ssn' o')" if "op = Some o'" for o'
    using e(2,3) that by (cases err1) auto
  then show ?thesis
    using logged_ok [OF assms(1) r refl _ e(1), of err1 op s'] assms(3) res by (auto simp: Evict_def logged_def)
qed

lemma Allocate_ok:
  assumes "transaction_ok env s" and r: "heldTask (stmt_ssn s) r" and "Allocate env s r host = (err, s')"
  shows "transaction_ok env s'"
proof -
  obtain err1 op ssn' where res: "stmt_Allocate env r host (stmt_ssn s) = (err1, op, ssn')" by (metis prod_cases3)
  have ok: "session_ok (se_node env) (stmt_ssn s)" using assms(1) by (simp add: transaction_ok_def)
  note e = stmt_Allocate_effect [OF ok r res]
  have "plainOp (Some o') \<and> (heldTask ssn' r \<longrightarrow> safeOp ssn' o')" if "op = Some o'" for o'
    using e(2,3) that by (cases err1) auto
  then show ?thesis
    using logged_ok [OF assms(1) r refl _ e(1), of err1 op s'] assms(3) res by (auto simp: Allocate_def logged_def)
qed

text \<open>Undoing a logged operation whose task is held.\<close>

lemma reverseOp_goes:
  assumes ok: "session_ok (se_node env) ssn" and op: "safeOp ssn op" and res: "reverseStep env op ssn = (err, ssn')"
  shows "session_ok (se_node env) ssn' \<and> heldGrow ssn ssn'"
proof (cases op)
  case (EvictOp e)
  then show ?thesis using keeps_goes [OF unevict_effect(1) [OF ok] ok] op res by auto
next
  case (PipelineOp p)
  then show ?thesis using keeps_goes [OF unpipeline_effect(1) [OF ok] ok] op res by auto
next
  case (AllocateOp a)
  then show ?thesis using keeps_goes [OF unallocate_effect(1) [OF ok] ok] op res by auto
next
  case (UndoOp i redo)
  then obtain r m md where r: "redo = RedoEvict r m md" "heldTask ssn r" using op by auto
  obtain err1 op1 ssn1 where e: "stmt_Evict env r m md ssn = (err1, op1, ssn1)" by (metis prod_cases3)
  then show ?thesis using keeps_goes [OF stmt_Evict_effect(1) [OF ok r(2) e] ok r(2)] res UndoOp r(1) by auto
qed

lemma undoOperation_goes:
  assumes wf: "wf_ops (operations s)" and i: "i < length (operations s)" and ok: "session_ok (se_node env) (stmt_ssn s)"
    and op: "safeOp (stmt_ssn s) (operations s ! i)" and res: "undoOperation env s i = Some (err, s')"
  shows "session_ok (se_node env) (stmt_ssn s') \<and> heldGrow (stmt_ssn s) (stmt_ssn s')"
proof -
  obtain b where b: "operationValid (operations s) i = Some b" using operationValid_returns [OF wf] by blast
  obtain err1 ssn1 where r: "reverseStep env (operations s ! i) (stmt_ssn s) = (err1, ssn1)" by fastforce
  have "\<not> b \<and> s' = s \<or> stmt_ssn s' = ssn1"
  proof (cases b)
    case True
    then show ?thesis
      using res b i r op
      by (cases "operations s ! i"; subst (asm) undoOperation.simps) (auto simp: finishUndo_def logged_def split: option.splits prod.splits)
  next
    case False
    then show ?thesis using res b by (subst (asm) undoOperation.simps) simp
  qed
  then show ?thesis using reverseOp_goes [OF ok op r] ok by auto
qed

end

context session_handlers
begin

lemma Unevict_ok:
  assumes s: "transaction_ok env s" and res: "Unevict env s r = Some (err, s')"
  shows "transaction_ok env s'"
proof -
  have ok: "session_ok (se_node env) (stmt_ssn s)" "strict_log (operations s)" "\<forall>op\<in>set (operations s). safeOp (stmt_ssn s) op"
    using s by (simp_all add: transaction_ok_def)
  note wf = strict_log_wf [OF ok(2)]
  obtain found where f: "findEarliest s (pod_UID (ssn_task (stmt_ssn s) r)) ''evict'' 0 (operations s) = Some found"
    using findEarliest_returns [OF wf] by blast
  show ?thesis
  proof (cases found)
    case None
    then show ?thesis using res f s by (simp add: Unevict_def undoEarliestValidOperation_def)
  next
    case (Some i)
    then have i: "i < length (operations s)" "operationValid (operations s) i = Some True" "Op_Name (operations s ! i) = ''evict''"
      using findEarliest_SomeD f by (metis diff_zero)+
    then obtain e where e: "operations s ! i = EvictOp e" using evict_name by blast
    have u: "undoOperation env s i = Some (err, s')" using res f Some by (simp add: Unevict_def undoEarliestValidOperation_def)
    have safe: "safeOp (stmt_ssn s) (operations s ! i)" using ok(3) i(1) nth_mem by blast
    have ops: "operations s' = operations s @ [UndoOp i (redoOf (EvictOp e))]"
      using u i e by (subst (asm) undoOperation.simps) (auto simp: finishUndo_def)
    note g = undoOperation_goes [OF wf i(1) ok(1) safe u]
    have "safeOp (stmt_ssn s') (UndoOp i (redoOf (EvictOp e)))" using g safe e by (auto simp: heldGrow_def)
    then have "\<forall>op\<in>set (operations s'). safeOp (stmt_ssn s') op" using ok(3) g safeOp_mono unfolding ops by auto
    moreover have "strict_log (operations s')" unfolding ops by (rule strict_log_undo [OF ok(2) i(2,1) e])
    ultimately show ?thesis using g by (simp add: transaction_ok_def)
  qed
qed

lemma Pipeline_ok:
  assumes s: "transaction_ok env s" and r: "heldTask (stmt_ssn s) r" and stay: "\<not> movesGpu env s r host"
    and res: "Pipeline env s r host b = Some (err, s')"
  shows "transaction_ok env s'"
proof -
  let ?ssn = "stmt_ssn s" and ?t = "ssn_task (stmt_ssn s) r"
  have ok: "session_ok (se_node env) ?ssn" using s by (simp add: transaction_ok_def)
  obtain job where job: "map_of (ssn_PodGroupInfos ?ssn) (pod_Job ?t) = Some job" by (rule session_okD [OF ok r])
  show ?thesis
  proof (cases "map_of (ssn_Nodes ?ssn) host")
    case None
    then show ?thesis using res s job by (simp add: Pipeline_def Let_def)
  next
    case (Some node)
    let ?copy = "map_of (PodInfos node) (PodKey ?t)"
    have stays: "\<not> gpuPlacementChanged (se_node env) ?t c" if "?copy = Some c" for c
      using stay Some that by (simp add: movesGpu_def Let_def)
    have piped: "transaction_ok env s1" if l: "logged (pipelineTask env r host job node ?copy ?ssn) s = (err1, s1)" for err1 s1
    proof -
      obtain err2 op ssn' where p: "pipelineTask env r host job node ?copy ?ssn = (err2, op, ssn')" by (metis prod_cases3)
      note e = pipelineTask_effect [OF ok r job Some stays p]
      have "plainOp (Some o') \<and> (heldTask ssn' r \<longrightarrow> safeOp ssn' o')" if "op = Some o'" for o'
        using e(2,3) that by (cases err2) auto
      then show ?thesis using logged_ok [OF s r refl _ e(1), of err2 op s1] l p by (auto simp: logged_def)
    qed
    show ?thesis
    proof (cases "\<exists>c. ?copy = Some c \<and> undoesEviction (se_node env) b ?t c")
      case True
      then obtain c where c: "?copy = Some c" "undoesEviction (se_node env) b ?t c" by blast
      define t' where "t' = ?t\<lparr>FractionalGpuGroups := cloneFractionalGpuGroups (FractionalGpuGroups c),
                           pod_NUMAPlacement := Placement_Clone (pod_NUMAPlacement c)\<rparr>"
      have "keeps (se_node env) r ?ssn (writeTask r t' ?ssn)" by (rule writeTask_keeps) (simp add: t'_def)
      from keeps_goes [OF this ok r] have "transaction_ok env (s\<lparr>stmt_ssn := writeTask r t' ?ssn\<rparr>)"
        using s safeOp_mono by (auto simp: transaction_ok_def)
      moreover have "Unevict env (s\<lparr>stmt_ssn := writeTask r t' ?ssn\<rparr>) r = Some (err, s')"
        using res job Some c by (simp add: Pipeline_def Let_def t'_def)
      ultimately show ?thesis by (rule Unevict_ok)
    next
      case False
      then have "Pipeline env s r host b = Some (logged (pipelineTask env r host job node ?copy ?ssn) s)"
        using job Some by (cases ?copy) (auto simp: Pipeline_def Let_def)
      then have "logged (pipelineTask env r host job node ?copy ?ssn) s = (err, s')" using res by simp
      then show ?thesis by (rule piped)
    qed
  qed
qed

text \<open>The loops of a rollback and a discard.\<close>

lemma undo_loop_invariant:
  assumes "wf_ops (operations s)" and "i < length (operations s)" and "n \<le> i" and "session_ok (se_node env) (stmt_ssn s)"
    and "\<forall>k \<le> i. safeOp (stmt_ssn s) (operations s ! k)" and "undoOperation env s i = Some (err, s')"
  shows "session_ok (se_node env) (stmt_ssn s')" "heldGrow (stmt_ssn s) (stmt_ssn s')" "extendsLog s s'"
    "\<forall>k \<le> i. safeOp (stmt_ssn s') (operations s' ! k)"
proof -
  note g = undoOperation_goes [OF assms(1,2,4) _ assms(6)]
  show g': "session_ok (se_node env) (stmt_ssn s')" "heldGrow (stmt_ssn s) (stmt_ssn s')" using g assms(5) by blast+
  show e: "extendsLog s s'" using undoOperation_returns [OF assms(1,2), of env] assms(6) by auto
  have "operations s' ! k = operations s ! k" if "k \<le> i" for k
    using e that assms(2) by (auto simp: extendsLog_def nth_append)
  then show "\<forall>k \<le> i. safeOp (stmt_ssn s') (operations s' ! k)" using assms(5) safeOp_mono [OF g'(2)] by simp
qed

lemma rollbackLoop_ok:
  assumes "wf_ops (operations s)" and "n \<le> length (operations s)" and "session_ok (se_node env) (stmt_ssn s)"
    and "\<forall>k < n. safeOp (stmt_ssn s) (operations s ! k)" and "rollbackLoop env cp n s = Some (err, s')"
  shows "session_ok (se_node env) (stmt_ssn s') \<and> heldGrow (stmt_ssn s) (stmt_ssn s') \<and> extendsLog s s'"
  using assms
proof (induction n arbitrary: s)
  case (Suc i)
  show ?case
  proof (cases "i < cp")
    case True
    then show ?thesis using Suc.prems extendsLog_refl by auto
  next
    case False
    have i: "i < length (operations s)" "\<forall>k \<le> i. safeOp (stmt_ssn s) (operations s ! k)" using Suc.prems by auto
    obtain err1 s1 where u: "undoOperation env s i = Some (err1, s1)" using undoOperation_returns [OF Suc.prems(1) i(1)] by blast
    note inv = undo_loop_invariant [OF Suc.prems(1) i(1) order_refl Suc.prems(3) i(2) u]
    show ?thesis
    proof (cases err1)
      case None
      then have "rollbackLoop env cp i s1 = Some (err, s')" using Suc.prems(5) False u by simp
      moreover have "wf_ops (operations s1)" "i \<le> length (operations s1)" using inv(3) i(1) by (auto simp: extendsLog_def)
      moreover have "\<forall>k < i. safeOp (stmt_ssn s1) (operations s1 ! k)" using inv(4) by simp
      ultimately show ?thesis using Suc.IH [of s1] inv heldGrow_trans extendsLog_trans by blast
    qed (use Suc.prems(5) False u inv in simp)
  qed
qed (auto simp: extendsLog_refl)

lemma discardLoop_ok:
  assumes "wf_ops (operations s)" and "n \<le> length (operations s)" and "session_ok (se_node env) (stmt_ssn s)"
    and "\<forall>k < n. safeOp (stmt_ssn s) (operations s ! k)" and "discardLoop env n s = Some s'"
  shows "session_ok (se_node env) (stmt_ssn s')"
  using assms
proof (induction n arbitrary: s)
  case (Suc i)
  have i: "i < length (operations s)" "\<forall>k \<le> i. safeOp (stmt_ssn s) (operations s ! k)" using Suc.prems by auto
  obtain err1 s1 where u: "undoOperation env s i = Some (err1, s1)" using undoOperation_returns [OF Suc.prems(1) i(1)] by blast
  note inv = undo_loop_invariant [OF Suc.prems(1) i(1) order_refl Suc.prems(3) i(2) u]
  have "wf_ops (operations s1)" "i \<le> length (operations s1)" "\<forall>k < i. safeOp (stmt_ssn s1) (operations s1 ! k)"
    using inv(3,4) i(1) by (auto simp: extendsLog_def)
  then show ?case using Suc.IH [of s1] Suc.prems(5) u inv(1) by simp
qed auto

lemma transaction_okD:
  assumes "transaction_ok env s"
  shows "wf_ops (operations s)" "session_ok (se_node env) (stmt_ssn s)" "\<forall>k < length (operations s). safeOp (stmt_ssn s) (operations s ! k)"
  using assms strict_log_wf nth_mem by (auto simp: transaction_ok_def)

lemma stmt_step_ok:
  assumes "stmt_step env s s'" and "transaction_ok env s"
  shows "transaction_ok env s'"
  using assms
proof cases
  case (step_rollback cp)
  note D = transaction_okD [OF assms(2)]
  from step_rollback obtain s1 where r: "rollbackLoop env (nat cp) (length (operations s)) s = Some (None, s1)"
      "s' = s1\<lparr>operations := take (nat cp) (operations s1)\<rparr>" "0 \<le> cp" "cp \<le> int (length (operations s))"
    by (auto simp: Rollback_def split: if_splits Option.bind_splits option.splits)
  note g = rollbackLoop_ok [OF D(1) order_refl D(2,3) r(1)]
  have ops: "operations s' = take (nat cp) (operations s)" using g r by (auto simp: extendsLog_def)
  have "\<forall>op\<in>set (operations s'). safeOp (stmt_ssn s') op"
    using assms(2) g r(2) safeOp_mono in_set_takeD unfolding ops transaction_ok_def by fastforce
  then show ?thesis using g r(2) ops assms(2) strict_log_take by (simp add: transaction_ok_def)
next
  case step_discard
  note D = transaction_okD [OF assms(2)]
  show ?thesis
    using step_discard assms(2) discardLoop_ok [OF D(1) order_refl D(2,3)]
    by (auto simp: Discard_def clearOperations_def transaction_ok_def split: if_splits)
next
  case (step_write r t)
  have "session_ok (se_node env) (stmt_ssn s)" using assms(2) by (simp add: transaction_ok_def)
  from keeps_goes [OF writeTask_keeps [OF step_write(3)] this step_write(2)] show ?thesis
    using assms(2) safeOp_mono by (auto simp: transaction_ok_def step_write(1))
next
  case (step_evict r m md err)
  then show ?thesis using Evict_ok [OF assms(2)] by blast
next
  case (step_pipeline r host b err)
  then show ?thesis using Pipeline_ok [OF assms(2)] by blast
next
  case (step_allocate r host err)
  then show ?thesis using Allocate_ok [OF assms(2)] by blast
next
  case (step_unevict r err)
  then show ?thesis using Unevict_ok [OF assms(2)] by blast
qed

end


subsection \<open>A run\<close>

lemma exampleSession_ok: "session_ok exampleEnv (exampleSession plugins)" "heldTask (exampleSession plugins) 0"
proof -
  have m: "examplePod ''b'' Pending \<in># podsBag exampleJob" using exampleJob_pods by simp
  have n: "node_books exampleEnv exampleNode" unfolding exampleNode_def by (rule NewNodeInfo_books)
  have "wf_gomap [(''job'', exampleJob)]" by (simp add: wf_gomap_def)
  then show "session_ok exampleEnv (exampleSession plugins)"
    using job_ok_exampleJob m n by (auto simp: session_ok_def jobs_ok_def nodes_ok_def exampleSession_def examplePod_def split: if_splits)
  show "heldTask (exampleSession plugins) 0" by (simp add: heldTask_def exampleSession_def examplePod_def)
qed

text \<open>Whether an allocation fails is decided before handlers run.\<close>

lemma stmt_Allocate_error: "fst (stmt_Allocate env r host ssn) = fst (stmt_Allocate (env\<lparr>eventHandlers := []\<rparr>) r host ssn)"
  by (simp add: stmt_Allocate_def nodeAddTask_def onNode_def Let_def split: option.split prod.split)

abbreviation runEnv :: "(string list, proportionPlugin option) ssn_env" where
  "runEnv \<equiv> proportionEnv exampleEnv (\<lambda>_ _. None) (\<lambda>_ _ _. None)"

abbreviation runStart :: "(string list, proportionPlugin option) Statement" where
  "runStart \<equiv> newStatement (exampleSession (Some examplePlugin))"

definition exampleAllocate :: "'p \<Rightarrow> bool" where
  "exampleAllocate p \<longleftrightarrow>
     fst (stmt_Allocate \<lparr>se_node = exampleEnv, eventHandlers = [], BindRequestMutateFns = [], cache_Evict = (\<lambda>_ _. None),
            cache_Bind = (\<lambda>_ _ _. None), se_now = 0\<rparr> 0 ''n'' (exampleSession p)) = None"

lemma exampleAllocate_ok:
  obtains s where "Allocate runEnv runStart 0 ''n'' = (None, s)" "pod_Status (ssn_task (stmt_ssn s) 0) = Allocated" "NodeName (ssn_task (stmt_ssn s) 0) = ''n''"
proof -
  obtain err op ssn where r: "stmt_Allocate runEnv 0 ''n'' (exampleSession (Some examplePlugin)) = (err, op, ssn)" by (metis prod_cases3)
  have "exampleAllocate (Some examplePlugin)" by code_simp
  then have "err = None" using stmt_Allocate_error [of runEnv 0 "''n''" "exampleSession (Some examplePlugin)"] r
    by (simp add: exampleAllocate_def proportionEnv_def)
  moreover have "session_ok (se_node runEnv) (exampleSession (Some examplePlugin))" by (simp add: proportionEnv_def exampleSession_ok)
  ultimately show ?thesis
    using proportion_session.stmt_Allocate_effect(2) [OF _ exampleSession_ok(2) r] that [of "(snd (logged (err, op, ssn) runStart))"] r
    by (auto simp: Allocate_def logged_def newStatement_def placement_fields)
qed

lemma runStart_simps: "stmt_ssn runStart = exampleSession (Some examplePlugin)" "operations runStart = []" "se_node runEnv = exampleEnv"
  "ssn_task (exampleSession plugins) 0 = examplePod ''b'' Pending"
  by (simp_all add: newStatement_def proportionEnv_def exampleSession_def)


end
