(* ===== verification/Statement_Restore.thy ===== *)
theory Statement_Restore
  imports Statement_Laws
begin

text \<open>
  Rolling a statement back puts the tasks back. The operations that succeed after a checkpoint are followed by the
  placement they give a task and the placement their reverse gives it (\<open>agrees\<close>); what holds for one step holds for
  a run of steps, and for the loop of \<open>Rollback\<close>.
\<close>

subsection \<open>Sessions in which tasks are placed alike\<close>

text \<open>\<open>ssn'\<close> is consistent, has the nodes of \<open>ssn\<close>, and holds the tasks of \<open>ssn\<close> where \<open>ssn\<close> has them.\<close>

definition agrees :: "'aff node_env \<Rightarrow> ('aff, 'p) Session \<Rightarrow> ('aff, 'p) Session \<Rightarrow> bool" where
  "agrees ne ssn ssn' \<longleftrightarrow> session_ok ne ssn' \<and> dom (map_of (ssn_Nodes ssn')) = dom (map_of (ssn_Nodes ssn)) \<and>
     (\<forall>q. heldTask ssn q \<longrightarrow> heldTask ssn' q \<and> placement (ssn_task ssn' q) = placement (ssn_task ssn q))"

lemma agrees_refl: "session_ok ne ssn \<Longrightarrow> agrees ne ssn ssn"
  by (simp add: agrees_def)

lemma agreesD:
  assumes "agrees ne ssn ssn'"
  shows "session_ok ne ssn'" and "dom (map_of (ssn_Nodes ssn')) = dom (map_of (ssn_Nodes ssn))"
    and "heldTask ssn q \<Longrightarrow> heldTask ssn' q" and "heldTask ssn q \<Longrightarrow> placement (ssn_task ssn' q) = placement (ssn_task ssn q)"
  using assms by (simp_all add: agrees_def)

lemma keeps_others:
  assumes "keeps ne r ssn ssn'" and "session_ok ne ssn" and "heldTask ssn r" and "heldTask ssn q"
  shows "heldTask ssn' q" and "q \<noteq> r \<Longrightarrow> ssn_task ssn' q = ssn_task ssn q"
    and "dom (map_of (ssn_Nodes ssn')) = dom (map_of (ssn_Nodes ssn))"
proof -
  show "heldTask ssn' q" using keeps_goes [OF assms(1-3)] assms(4) by (simp add: heldGrow_def)
  have "q < ssn_next ssn" using assms(2,4) jobs_okD unfolding session_ok_def by metis
  then show "q \<noteq> r \<Longrightarrow> ssn_task ssn' q = ssn_task ssn q" and "dom (map_of (ssn_Nodes ssn')) = dom (map_of (ssn_Nodes ssn))"
    using keepsD(3) [OF assms(1-3)] by (simp_all add: opFrame_def)
qed

text \<open>A step away on a task, and one back that restores the placement of that task.\<close>

lemma agrees_undo:
  assumes away: "keeps ne r ssn ssn1" "session_ok ne ssn" "heldTask ssn r" and agree: "agrees ne ssn1 ssn2"
    and undo: "keeps ne r ssn2 ssn3" "placement (ssn_task ssn3 r) = placement (ssn_task ssn r)"
  shows "agrees ne ssn ssn3"
proof -
  note A = agreesD [OF agree]
  have r2: "heldTask ssn2 r" by (rule A(3) [OF keeps_others(1) [OF away away(3)]])
  have "heldTask ssn3 q \<and> placement (ssn_task ssn3 q) = placement (ssn_task ssn q)" if q: "heldTask ssn q" for q
  proof -
    note o1 = keeps_others [OF away q]
    note o2 = keeps_others [OF undo(1) A(1) r2 A(3) [OF o1(1)]]
    show ?thesis using o1 o2 A(4) undo(2) by (cases "q = r") auto
  qed
  moreover have "dom (map_of (ssn_Nodes ssn3)) = dom (map_of (ssn_Nodes ssn))"
    using keeps_others(3) [OF away away(3)] keeps_others(3) [OF undo(1) A(1) r2 r2] A(2) by simp
  ultimately show ?thesis using keepsD(1) [OF undo(1) A(1) r2] by (simp add: agrees_def)
qed

subsection \<open>Steps that succeed, and their reverses\<close>

text \<open>The placing calls of an attempt to schedule: evictions, pipelinings that do not take an eviction back and do not
  move a task between GPUs of one node, and allocations of pending tasks.\<close>

definition takesEvictionBack :: "('aff, 'p) ssn_env \<Rightarrow> ('aff, 'p) Statement \<Rightarrow> taskRef \<Rightarrow> string \<Rightarrow> bool \<Rightarrow> bool" where
  "takesEvictionBack env s r host b =
     (let task = ssn_task (stmt_ssn s) r
      in case map_of (ssn_Nodes (stmt_ssn s)) host of
           None \<Rightarrow> False
         | Some node \<Rightarrow> (case map_of (PodInfos node) (PodKey task) of None \<Rightarrow> False | Some c \<Rightarrow> undoesEviction (se_node env) b task c))"

inductive placing_step :: "('aff, 'p) ssn_env \<Rightarrow> ('aff, 'p) Statement \<Rightarrow> ('aff, 'p) Statement \<Rightarrow> bool" for env where
  place_evict: "heldTask (stmt_ssn s) r \<Longrightarrow> Evict env s r m md = (None, s') \<Longrightarrow> placing_step env s s'"
| place_pipeline: "heldTask (stmt_ssn s) r \<Longrightarrow> \<not> movesGpu env s r host \<Longrightarrow> \<not> takesEvictionBack env s r host b \<Longrightarrow>
    Pipeline env s r host b = Some (None, s') \<Longrightarrow> placing_step env s s'"
| place_allocate: "heldTask (stmt_ssn s) r \<Longrightarrow> pod_Status (ssn_task (stmt_ssn s) r) = Pending \<Longrightarrow> NodeName (ssn_task (stmt_ssn s) r) = [] \<Longrightarrow>
    Allocate env s r host = (None, s') \<Longrightarrow> placing_step env s s'"

text \<open>What one step leaves: one more operation in the log, whose reverse leads back from any session that agrees.\<close>

definition revertible :: "('aff, 'p) ssn_env \<Rightarrow> ('aff, 'p) Session \<Rightarrow> Operation list \<Rightarrow> ('aff, 'p) Session \<Rightarrow> bool" where
  "revertible env ssn ops ssn' \<longleftrightarrow> session_ok (se_node env) ssn' \<and> (\<forall>op\<in>set ops. plainOp (Some op)) \<and>
     (\<forall>ssn2. agrees (se_node env) ssn' ssn2 \<longrightarrow> (\<exists>ssn3. reverseAll env (rev ops) ssn2 = (None, ssn3) \<and> agrees (se_node env) ssn ssn3))"

lemma reverseAll_append:
  "reverseAll env (ops @ ops') ssn = (case reverseAll env ops ssn of (None, ssn) \<Rightarrow> reverseAll env ops' ssn | (Some e, ssn) \<Rightarrow> (Some e, ssn))"
  by (induction ops arbitrary: ssn) (auto split: prod.splits option.splits)

lemma revertible_trans:
  assumes "revertible env ssn ops ssn1" and "revertible env ssn1 ops' ssn2"
  shows "revertible env ssn (ops @ ops') ssn2"
  using assms unfolding revertible_def rev_append reverseAll_append by (auto; fastforce)

lemma strict_log_plains: "strict_log ops \<Longrightarrow> \<forall>op\<in>set ops'. plainOp (Some op) \<Longrightarrow> strict_log (ops @ ops')"
  by (induction ops' rule: rev_induct) (use strict_log_plain in \<open>force simp flip: append_assoc\<close>)+

lemma revertible_refl: "session_ok (se_node env) ssn \<Longrightarrow> revertible env ssn [] ssn"
  by (simp add: revertible_def)

context session_handlers
begin

lemma revertible_step:
  assumes away: "keeps (se_node env) r ssn ssn'" "session_ok (se_node env) ssn" "heldTask ssn r" and plain: "plainOp (Some op)"
    and undo: "\<And>ssn2 err ssn3. session_ok (se_node env) ssn2 \<Longrightarrow> heldTask ssn2 r \<Longrightarrow> dom (map_of (ssn_Nodes ssn2)) = dom (map_of (ssn_Nodes ssn)) \<Longrightarrow>
      placement (ssn_task ssn2 r) = placement (ssn_task ssn' r) \<Longrightarrow> reverseOp env op ssn2 = (err, ssn3) \<Longrightarrow>
      err = None \<and> keeps (se_node env) r ssn2 ssn3 \<and> placement (ssn_task ssn3 r) = placement (ssn_task ssn r)"
  shows "revertible env ssn [op] ssn'"
proof -
  have "\<exists>ssn3. reverseAll env [op] ssn2 = (None, ssn3) \<and> agrees (se_node env) ssn ssn3" if a: "agrees (se_node env) ssn' ssn2" for ssn2
  proof -
    note A = agreesD [OF a] and o1 = keeps_others [OF away away(3)]
    obtain err ssn3 where r: "reverseOp env op ssn2 = (err, ssn3)" by fastforce
    have b: "err = None" "keeps (se_node env) r ssn2 ssn3" "placement (ssn_task ssn3 r) = placement (ssn_task ssn r)"
      using undo [OF A(1) A(3) [OF o1(1)] _ A(4) [OF o1(1)] r] A(2) o1(3) by simp_all
    have "reverseStep env op ssn2 = (None, ssn3)" using r b(1) plain by (cases op) simp_all
    then show ?thesis using agrees_undo [OF away a b(2,3)] by simp
  qed
  then show ?thesis using plain keepsD(1) [OF away] by (simp add: revertible_def)
qed

lemma placing_evict:
  assumes ok: "session_ok (se_node env) (stmt_ssn s)" and r: "heldTask (stmt_ssn s) r" and res: "Evict env s r m md = (None, s')"
  shows "\<exists>op. operations s' = operations s @ [op] \<and> revertible env (stmt_ssn s) [op] (stmt_ssn s')"
proof -
  obtain err1 op ssn' where e: "stmt_Evict env r m md (stmt_ssn s) = (err1, op, ssn')" by (metis prod_cases3)
  have l: "logged (err1, op, ssn') s = (None, s')" using res e by (simp add: Evict_def)
  note E = stmt_Evict_effect [OF ok r e]
  have "err1 = None" using l by (simp add: logged_def)
  then obtain ev where ev: "op = Some (EvictOp ev)" "ev_taskInfo ev = r"
      "placement (ssn_task (stmt_ssn s) r) = (ev_previousStatus ev, NodeName (ssn_task (stmt_ssn s) r), ev_previousFractionalGpuGroups ev, ev_previousIsVirtualStatus ev)"
      "placement (ssn_task ssn' r) = (Releasing, NodeName (ssn_task (stmt_ssn s) r), ev_previousFractionalGpuGroups ev, True)"
    using E(2) by blast
  have "revertible env (stmt_ssn s) [EvictOp ev] ssn'"
  proof (rule revertible_step [OF E(1) ok r])
    fix ssn2 err ssn3 assume a: "session_ok (se_node env) ssn2" "heldTask ssn2 r" "placement (ssn_task ssn2 r) = placement (ssn_task ssn' r)"
      "reverseOp env (EvictOp ev) ssn2 = (err, ssn3)"
    have "NodeName (ssn_task ssn2 r) = NodeName (ssn_task (stmt_ssn s) r)" using a(3) ev(4) by (simp add: placement_def)
    then show "err = None \<and> keeps (se_node env) r ssn2 ssn3 \<and> placement (ssn_task ssn3 r) = placement (ssn_task (stmt_ssn s) r)"
      using a(4) ev(2,3) unevict_effect [OF a(1,2)] by auto
  qed simp
  then show ?thesis using l ev(1) by (auto simp: logged_def)
qed


lemma placing_pipeline:
  assumes ok: "session_ok (se_node env) (stmt_ssn s)" and r: "heldTask (stmt_ssn s) r"
    and new: "\<not> movesGpu env s r host" "\<not> takesEvictionBack env s r host b" and res: "Pipeline env s r host b = Some (None, s')"
  shows "\<exists>op. operations s' = operations s @ [op] \<and> revertible env (stmt_ssn s) [op] (stmt_ssn s')"
proof -
  let ?ssn = "stmt_ssn s" and ?t = "ssn_task (stmt_ssn s) r"
  obtain job where job: "map_of (ssn_PodGroupInfos ?ssn) (pod_Job ?t) = Some job" by (rule session_okD [OF ok r])
  obtain node where node: "map_of (ssn_Nodes ?ssn) host = Some node"
    using res job by (cases "map_of (ssn_Nodes ?ssn) host") (simp_all add: Pipeline_def Let_def)
  let ?copy = "map_of (PodInfos node) (PodKey ?t)"
  have stays: "\<not> gpuPlacementChanged (se_node env) ?t c" and fresh: "\<not> undoesEviction (se_node env) b ?t c" if "?copy = Some c" for c
    using new node that by (simp_all add: movesGpu_def takesEvictionBack_def Let_def)
  obtain err1 op ssn' where p: "pipelineTask env r host job node ?copy ?ssn = (err1, op, ssn')" by (metis prod_cases3)
  have l: "logged (err1, op, ssn') s = (None, s')"
    using res job node fresh p by (cases ?copy) (simp_all add: Pipeline_def Let_def)
  note E = pipelineTask_effect [OF ok r job node stays p]
  have "err1 = None" using l by (simp add: logged_def)
  then obtain pl where pl: "op = Some (PipelineOp pl)" "pl_taskInfo pl = r"
      "placement ?t = (pl_previousStatus pl, pl_previousNode pl, pl_previousFractionalGpuGroups pl, pl_previousIsVirtualStatus pl)"
      "placement (ssn_task ssn' r) = (Pipelined, host, pl_previousFractionalGpuGroups pl, True)"
    using E(2) by blast
  have "revertible env ?ssn [PipelineOp pl] ssn'"
  proof (rule revertible_step [OF E(1) ok r])
    fix ssn2 err ssn3 assume a: "session_ok (se_node env) ssn2" "heldTask ssn2 r" "dom (map_of (ssn_Nodes ssn2)) = dom (map_of (ssn_Nodes ?ssn))"
      "placement (ssn_task ssn2 r) = placement (ssn_task ssn' r)" "reverseOp env (PipelineOp pl) ssn2 = (err, ssn3)"
    have "NodeName (ssn_task ssn2 r) \<in> dom (map_of (ssn_Nodes ssn2))" using a(3,4) pl(4) node by (auto simp: placement_def)
    then show "err = None \<and> keeps (se_node env) r ssn2 ssn3 \<and> placement (ssn_task ssn3 r) = placement ?t"
      using a(5) pl(2,3) unpipeline_effect [OF a(1,2)] by fastforce
  qed simp_all
  then show ?thesis using l pl(1) by (auto simp: logged_def)
qed

lemma placing_allocate:
  assumes ok: "session_ok (se_node env) (stmt_ssn s)" and r: "heldTask (stmt_ssn s) r"
    and pending: "pod_Status (ssn_task (stmt_ssn s) r) = Pending" "NodeName (ssn_task (stmt_ssn s) r) = []"
    and res: "Allocate env s r host = (None, s')"
  shows "\<exists>op. operations s' = operations s @ [op] \<and> revertible env (stmt_ssn s) [op] (stmt_ssn s')"
proof -
  let ?ssn = "stmt_ssn s" and ?t = "ssn_task (stmt_ssn s) r"
  obtain err1 op ssn' where e: "stmt_Allocate env r host ?ssn = (err1, op, ssn')" by (metis prod_cases3)
  have l: "logged (err1, op, ssn') s = (None, s')" using res e by (simp add: Allocate_def)
  note E = stmt_Allocate_effect [OF ok r e]
  have "err1 = None" using l by (simp add: logged_def)
  then obtain al where al: "op = Some (AllocateOp al)" "al_task al = r" "al_previousIsVirtualStatus al = IsVirtualStatus ?t"
      "placement (ssn_task ssn' r) = (Allocated, host, FractionalGpuGroups ?t, True)" "host \<in> dom (map_of (ssn_Nodes ?ssn))"
    using E(2) by blast
  have "revertible env ?ssn [AllocateOp al] ssn'"
  proof (rule revertible_step [OF E(1) ok r])
    fix ssn2 err ssn3 assume a: "session_ok (se_node env) ssn2" "heldTask ssn2 r" "dom (map_of (ssn_Nodes ssn2)) = dom (map_of (ssn_Nodes ?ssn))"
      "placement (ssn_task ssn2 r) = placement (ssn_task ssn' r)" "reverseOp env (AllocateOp al) ssn2 = (err, ssn3)"
    have "NodeName (ssn_task ssn2 r) \<in> dom (map_of (ssn_Nodes ssn2))" "FractionalGpuGroups (ssn_task ssn2 r) = FractionalGpuGroups ?t"
      using a(3,4) al(4,5) by (auto simp: placement_def)
    moreover have "placement ?t = (Pending, [], FractionalGpuGroups ?t, IsVirtualStatus ?t)" using pending by (simp add: placement_def)
    ultimately show "err = None \<and> keeps (se_node env) r ssn2 ssn3 \<and> placement (ssn_task ssn3 r) = placement ?t"
      using a(5) al(2,3) unallocate_effect [OF a(1,2)] by fastforce
  qed simp
  then show ?thesis using l al(1) by (auto simp: logged_def)
qed

lemma placing_run:
  assumes "(placing_step env)\<^sup>*\<^sup>* s s'" and "session_ok (se_node env) (stmt_ssn s)"
  shows "\<exists>ops. operations s' = operations s @ ops \<and> revertible env (stmt_ssn s) ops (stmt_ssn s')"
  using assms
proof (induction rule: rtranclp_induct)
  case base
  then show ?case using revertible_refl by auto
next
  case (step s1 s2)
  then obtain ops where ops: "operations s1 = operations s @ ops" "revertible env (stmt_ssn s) ops (stmt_ssn s1)" by blast
  have ok: "session_ok (se_node env) (stmt_ssn s1)" using ops(2) by (simp add: revertible_def)
  have "\<exists>op. operations s2 = operations s1 @ [op] \<and> revertible env (stmt_ssn s1) [op] (stmt_ssn s2)"
    using step.hyps(2) by cases (use ok placing_evict placing_pipeline placing_allocate in blast)+
  then show ?case using revertible_trans [OF ops(2)] ops(1) by fastforce
qed

end



end
