(* ===== verification/Job_Allocation.thy ===== *)
theory Job_Allocation
  imports Session_Fit Statement_Restore
begin

text \<open>
  Allocating a job: \<^verbatim>\<open>actions/common/allocate.go\<close>, \<^verbatim>\<open>gpu_sharing/gpuSharing.go\<close> and \<^verbatim>\<open>attemptToAllocateJob\<close> of
  \<^verbatim>\<open>actions/allocate/allocate.go\<close>. The tree of subgroups is walked from its root; at each level plugins split the nodes
  into sets, which are tried one after the other, each from a checkpoint of the statement.

  A task that the job selects is a pointer in the code; \<open>holdTasks\<close> gives the reference of its object. The code
  logs the error of a rollback and goes on; such errors are collected in \<open>as_rollbackErrs\<close>. \<open>None\<close> stands for a call
  that does not return.

  The lemmas show that an allocation always returns and only appends to the log, that without a failed rollback a
  failed allocation leaves the log as it was, and that a successful one has placed every task it was to place.
\<close>

subsection \<open>State\<close>

record ('aff, 'p) alloc_state =
  as_stmt :: "('aff, 'p) Statement"
  as_rollbackErrs :: "ssn_error list"

definition putSsn :: "('aff, 'p) Session \<Rightarrow> ('aff, 'p) Statement \<Rightarrow> ('aff, 'p) Statement" where
  "putSsn ssn s = s\<lparr>stmt_ssn := ssn\<rparr>"

definition putStmt :: "('aff, 'p) Statement \<Rightarrow> ('aff, 'p) alloc_state \<Rightarrow> ('aff, 'p) alloc_state" where
  "putStmt s st = st\<lparr>as_stmt := s\<rparr>"

definition holdTask :: "PodInfo \<Rightarrow> ('aff, 'p) Session \<Rightarrow> taskRef \<times> ('aff, 'p) Session" where
  "holdTask p ssn =
     (case ssn_held ssn (pod_UID p) of
        Some r \<Rightarrow> (r, ssn)
      | None \<Rightarrow> let (r, ssn) = newTask p ssn in (r, ssn\<lparr>ssn_held := (ssn_held ssn)(pod_UID p \<mapsto> r)\<rparr>))"

fun holdTasks :: "PodInfo list \<Rightarrow> ('aff, 'p) Session \<Rightarrow> taskRef list \<times> ('aff, 'p) Session" where
  "holdTasks [] ssn = ([], ssn)"
| "holdTasks (p # ps) ssn = (let (r, ssn) = holdTask p ssn; (rs, ssn) = holdTasks ps ssn in (r # rs, ssn))"

subsection \<open>Sharing GPUs\<close>

record nodeGpuForSharing =
  gfs_FractionalGpuGroups :: "FractionalGpuGroup list"
  gfs_IsReleasing :: bool

definition findGpuForSharingOnNode ::
  "('aff, 'p, 'q) alloc_env \<Rightarrow> PodInfo \<Rightarrow> 'aff NodeInfo \<Rightarrow> bool \<Rightarrow> ('aff, 'p) Session \<Rightarrow> nodeGpuForSharing \<times> ('aff, 'p) Session" where
  "findGpuForSharingOnNode ae task node isSimulation ssn =
     (let ne = se_node (ae_ssn ae);
          isReleasing = \<not> (\<not> isSimulation \<and> IsTaskAllocatable ne node (ssn_caps ssn) task);
          (uuid, ssn) = NewUUID ae ssn
      in (\<lparr>gfs_FractionalGpuGroups = [\<lparr>group_ID = uuid, ComputeSharingMode = RequestedGPUComputeSharingMode ne task\<rparr>],
           gfs_IsReleasing = isReleasing\<rparr>, ssn))"

definition addSharedGpu :: "'aff node_env \<Rightarrow> capStore \<Rightarrow> 'aff NodeInfo \<Rightarrow> PodInfo \<Rightarrow> string \<Rightarrow> nodeGpuForSharing \<Rightarrow> nodeGpuForSharing" where
  "addSharedGpu ne caps node pod gpuIdx n =
     n\<lparr>gfs_IsReleasing := gfs_IsReleasing n \<or> \<not> EnoughIdleResourcesOnGpu node (GpuRequirement pod) gpuIdx \<or> \<not> IsTaskAllocatable ne node caps pod,
       gfs_FractionalGpuGroups := gfs_FractionalGpuGroups n @ [\<lparr>group_ID = gpuIdx, ComputeSharingMode = RequestedGPUComputeSharingMode ne pod\<rparr>]\<rparr>"

fun preferableLoop ::
  "('aff, 'p, 'q) alloc_env \<Rightarrow> 'aff NodeInfo \<Rightarrow> PodInfo \<Rightarrow> bool \<Rightarrow> nodeGpuForSharing \<Rightarrow> string list \<Rightarrow> ('aff, 'p) Session \<Rightarrow>
     nodeGpuForSharing option \<times> ('aff, 'p) Session" where
  "preferableLoop ae node pod isSimulation n [] ssn = (None, ssn)"
| "preferableLoop ae node pod isSimulation n (gpuIdx # gpus) ssn =
     (let (n, ssn) =
        (if gpuIdx = WholeGpuIndicator
         then let (w, ssn) = findGpuForSharingOnNode ae pod node isSimulation ssn
              in (n\<lparr>gfs_IsReleasing := gfs_IsReleasing n \<or> gfs_IsReleasing w,
                    gfs_FractionalGpuGroups := gfs_FractionalGpuGroups n @ gfs_FractionalGpuGroups w\<rparr>, ssn)
         else (addSharedGpu (se_node (ae_ssn ae)) (ssn_caps ssn) node pod gpuIdx n, ssn))
      in if int (length (gfs_FractionalGpuGroups n)) = GetNumOfGpuDevices (GpuRequirement pod) then (Some n, ssn)
         else preferableLoop ae node pod isSimulation n gpus ssn)"

definition GetNodePreferableGpuForSharing ::
  "('aff, 'p, 'q) alloc_env \<Rightarrow> string list \<Rightarrow> 'aff NodeInfo \<Rightarrow> PodInfo \<Rightarrow> bool \<Rightarrow> ('aff, 'p) Session \<Rightarrow> nodeGpuForSharing option \<times> ('aff, 'p) Session" where
  "GetNodePreferableGpuForSharing ae fittingGPUsOnNode node pod isSimulation ssn =
     preferableLoop ae node pod isSimulation \<lparr>gfs_FractionalGpuGroups = [], gfs_IsReleasing = False\<rparr> fittingGPUsOnNode ssn"

type_synonym ('aff, 'p) attempt = "(bool \<times> ('aff, 'p) Statement) option"

definition allocateSharedGPUTask :: "('aff, 'p, 'q) alloc_env \<Rightarrow> string \<Rightarrow> taskRef \<Rightarrow> bool \<Rightarrow> ('aff, 'p) Statement \<Rightarrow> ('aff, 'p) attempt" where
  "allocateSharedGPUTask ae nodeName task isSimulation s =
     (if isSimulation then map_option (\<lambda>(err, s). (err = None, s)) (Pipeline (ae_ssn ae) s task nodeName True)
      else let (err, s) = Allocate (ae_ssn ae) s task nodeName in Some (err = None, s))"

definition AllocateFractionalGPUTaskToNode ::
  "('aff, 'p, 'q) alloc_env \<Rightarrow> taskRef \<Rightarrow> 'aff NodeInfo \<Rightarrow> bool \<Rightarrow> ('aff, 'p) Statement \<Rightarrow> ('aff, 'p) attempt" where
  "AllocateFractionalGPUTaskToNode ae pod node isSimulation s =
     (let ssn = stmt_ssn s;
          fittingGPUs = FittingGPUs ae ssn node (ssn_task ssn pod);
          (gpuForSharing, ssn) = GetNodePreferableGpuForSharing ae fittingGPUs node (ssn_task ssn pod) isSimulation ssn
      in case gpuForSharing of
           None \<Rightarrow> Some (False, putSsn ssn s)
         | Some g \<Rightarrow>
             let ssn = writeTask pod (SetFractionalGpuGroups (ssn_task ssn pod) (gfs_FractionalGpuGroups g)) ssn
             in Option.bind (allocateSharedGPUTask ae (ni_Name node) pod (isSimulation \<or> gfs_IsReleasing g) (putSsn ssn s)) (\<lambda>(success, s).
                  if success then Some (True, s)
                  else Some (False, putSsn (writeTask pod ((ssn_task (stmt_ssn s) pod)\<lparr>FractionalGpuGroups := []\<rparr>) (stmt_ssn s)) s)))"

subsection \<open>One task\<close>

definition bindTaskToNode :: "('aff, 'p, 'q) alloc_env \<Rightarrow> taskRef \<Rightarrow> string \<Rightarrow> ('aff, 'p) Statement \<Rightarrow> ('aff, 'p) attempt" where
  "bindTaskToNode ae task nodeName s = (let (err, s) = Allocate (ae_ssn ae) s task nodeName in Some (err = None, s))"

definition pipelineTaskToNode :: "('aff, 'p, 'q) alloc_env \<Rightarrow> taskRef \<Rightarrow> string \<Rightarrow> bool \<Rightarrow> ('aff, 'p) Statement \<Rightarrow> ('aff, 'p) attempt" where
  "pipelineTaskToNode ae task nodeName canUndoEviction s =
     map_option (\<lambda>(err, s). (err = None, s)) (Pipeline (ae_ssn ae) s task nodeName canUndoEviction)"

definition allocateTaskToNode :: "('aff, 'p, 'q) alloc_env \<Rightarrow> taskRef \<Rightarrow> string \<Rightarrow> bool \<Rightarrow> ('aff, 'p) Statement \<Rightarrow> ('aff, 'p) attempt" where
  "allocateTaskToNode ae task host isSimulation s =
     (case GetNumaPlacement ae task host (stmt_ssn s) of
        (Inl err, ssn) \<Rightarrow> Some (False, putSsn ssn s)
      | (Inr numaPlacement, ssn) \<Rightarrow>
          let ssn = writeTask task ((ssn_task ssn task)\<lparr>pod_NUMAPlacement := numaPlacement\<rparr>) ssn; t = ssn_task ssn task; s = putSsn ssn s
          in case map_of (ssn_Nodes ssn) host of
               None \<Rightarrow> Some (False, s)
             | Some node \<Rightarrow>
                 if IsFractionRequest t \<or> IsGpuMemoryRequest t then AllocateFractionalGPUTaskToNode ae task node isSimulation s
                 else if \<not> isSimulation \<and> IsTaskAllocatable (se_node (ae_ssn ae)) node (ssn_caps ssn) t then bindTaskToNode ae task (ni_Name node) s
                 else pipelineTaskToNode ae task (ni_Name node) isSimulation s)"

fun allocateOnNodes :: "('aff, 'p, 'q) alloc_env \<Rightarrow> taskRef \<Rightarrow> bool \<Rightarrow> string list \<Rightarrow> ('aff, 'p) Statement \<Rightarrow> ('aff, 'p) attempt" where
  "allocateOnNodes ae task isSimulation [] s = Some (False, s)"
| "allocateOnNodes ae task isSimulation (host # hosts) s =
     (let (fits, ssn) = FittingNode ae task host (\<not> isSimulation) (stmt_ssn s); s = putSsn ssn s
      in if \<not> fits then allocateOnNodes ae task isSimulation hosts s
         else Option.bind (allocateTaskToNode ae task host isSimulation s) (\<lambda>(success, s).
                if success then Some (True, s) else allocateOnNodes ae task isSimulation hosts s))"

definition addTaskError :: "PodInfo \<Rightarrow> string \<Rightarrow> string \<Rightarrow> ('aff, 'p) Session \<Rightarrow> ('aff, 'p) Session" where
  "addTaskError task jobID err ssn =
     (case map_of (ssn_PodGroupInfos ssn) jobID of
        None \<Rightarrow> ssn
      | Some job \<Rightarrow> putJob jobID (AddTaskFitErrors task (SetError err NewFitErrors) job) ssn)"

definition allocateTask :: "('aff, 'p, 'q) alloc_env \<Rightarrow> NodeSet \<Rightarrow> taskRef \<Rightarrow> bool \<Rightarrow> ('aff, 'p) Statement \<Rightarrow> ('aff, 'p) attempt" where
  "allocateTask ae nodes task isSimulation s =
     (let ssn = stmt_ssn s; t = ssn_task ssn task
      in if map_of (ssn_PodGroupInfos ssn) (pod_Job t) = None then Some (False, s)
         else case PrePredicateFn ae task (pod_Job t) ssn of
                (Some err, ssn) \<Rightarrow> Some (False, putSsn (addTaskError t (pod_Job t) err ssn) s)
              | (None, ssn) \<Rightarrow>
                  let (orderedNodes, ssn) = OrderedNodesByTask ae nodes task ssn
                  in allocateOnNodes ae task isSimulation orderedNodes (putSsn ssn s))"

subsection \<open>Pod sets and subgroups\<close>

definition isGangScheduling :: "PodGroupInfo \<Rightarrow> bool" where
  "isGangScheduling job \<longleftrightarrow> list_ex (\<lambda>(_, subGroup). minAvailable subGroup > 1) (PodSets job)"

text \<open>The code dereferences the pod set of the task, which its job has.\<close>

definition handleFailedTaskAllocation :: "PodInfo \<Rightarrow> nat \<Rightarrow> PodGroupInfo \<Rightarrow> PodGroupInfo" where
  "handleFailedTaskAllocation unschedulableTask numSchedulableTasks job =
     (let allocationError = (case map_of (job_TasksFitErrors job) (pod_UID unschedulableTask) of
            Some e \<Rightarrow> e | None \<Rightarrow> SetError DefaultPodError NewFitErrors);
          gangScheduling = isGangScheduling job;
          notFound = (\<lambda>_ :: unit. AddSimpleJobFitError PodSchedulingErrors
            (''Resources were not found for pod '' @ pod_Namespace unschedulableTask @ ''/'' @ pod_Name unschedulableTask @
             '' due to: '' @ TasksFitErrors_Error allocationError) job)
      in case map_of (PodSets job) (taskSubGroup unschedulableTask) of
           None \<Rightarrow> if \<not> gangScheduling then notFound () else job
         | Some subGroup \<Rightarrow>
             if \<not> gangScheduling \<or> numActiveUsedTasks subGroup \<ge> minAvailable subGroup then notFound ()
             else if length (PodSets job) = 1 \<and> ps_name subGroup = DefaultSubGroup
             then AddSimpleJobFitError PodSchedulingErrors
                    (''Resources were found for '' @ Itoa (int numSchedulableTasks) @ '' pods while '' @ Itoa (minAvailable subGroup) @
                     '' are required for gang scheduling. Additional pods cannot be scheduled due to: '' @
                     TasksFitErrors_Error allocationError) job
             else AddSimpleJobFitError PodSchedulingErrors
                    (''Resources were found for '' @ Itoa (int numSchedulableTasks) @ '' pods from all sub-groups while sub-group '' @
                     ps_name subGroup @ '' requires '' @ Itoa (minAvailable subGroup) @
                     '' pods for gang scheduling. Additional pods cannot be scheduled in this sub-group due to: '' @
                     TasksFitErrors_Error allocationError) job)"

fun allocateTasksOnNodeSet ::
  "('aff, 'p, 'q) alloc_env \<Rightarrow> NodeSet \<Rightarrow> string \<Rightarrow> bool \<Rightarrow> nat \<Rightarrow> taskRef list \<Rightarrow> ('aff, 'p) Statement \<Rightarrow> ('aff, 'p) attempt" where
  "allocateTasksOnNodeSet ae nodes jobID isSimulation index [] s = Some (True, s)"
| "allocateTasksOnNodeSet ae nodes jobID isSimulation index (task # tasks) s =
     Option.bind (allocateTask ae nodes task isSimulation s) (\<lambda>(success, s).
       if \<not> success
       then Some (False, case map_of (ssn_PodGroupInfos (stmt_ssn s)) jobID of
                           None \<Rightarrow> s
                         | Some job \<Rightarrow> putSsn (putJob jobID (handleFailedTaskAllocation (ssn_task (stmt_ssn s) task) index job) (stmt_ssn s)) s)
       else allocateTasksOnNodeSet ae nodes jobID isSimulation (Suc index) tasks s)"

definition filterTasksForPodSets :: "string list \<Rightarrow> ('aff, 'p) Session \<Rightarrow> taskRef list \<Rightarrow> taskRef list" where
  "filterTasksForPodSets podSets ssn tasks = filter (\<lambda>task. taskSubGroup (ssn_task ssn task) \<in> set podSets) tasks"

definition subtreePodSetsContainingTasks :: "string SubGroupSet \<Rightarrow> ('aff, 'p) Session \<Rightarrow> taskRef list \<Rightarrow> string list" where
  "subtreePodSetsContainingTasks subGroupSet ssn tasks =
     remdups (filter (\<lambda>name. name \<in> set (leaves subGroupSet)) (map (\<lambda>task. taskSubGroup (ssn_task ssn task)) tasks))"

text \<open>The loop over sets of nodes that both levels share: each set is tried from a checkpoint and rolled back if it fails.\<close>

fun tryNodeSets ::
  "('aff, 'p) ssn_env \<Rightarrow> (NodeSet \<Rightarrow> ('aff, 'p) alloc_state \<Rightarrow> (bool \<times> ('aff, 'p) alloc_state) option) \<Rightarrow> NodeSet list \<Rightarrow>
     ('aff, 'p) alloc_state \<Rightarrow> (bool \<times> ('aff, 'p) alloc_state) option" where
  "tryNodeSets env f [] st = Some (False, st)"
| "tryNodeSets env f (nodeSet # nodeSets) st =
     Option.bind (f nodeSet st) (\<lambda>(success, st').
       if success then Some (True, st')
       else Option.bind (Rollback env (as_stmt st') (stmt_Checkpoint (as_stmt st))) (\<lambda>(err, s).
              tryNodeSets env f nodeSets \<lparr>as_stmt = s, as_rollbackErrs = as_rollbackErrs st' @ (case err of None \<Rightarrow> [] | Some e \<Rightarrow> [e])\<rparr>))"

definition allocatePodSet ::
  "('aff, 'p, 'q) alloc_env \<Rightarrow> NodeSet \<Rightarrow> string \<Rightarrow> string \<Rightarrow> taskRef list \<Rightarrow> bool \<Rightarrow> ('aff, 'p) alloc_state \<Rightarrow> (bool \<times> ('aff, 'p) alloc_state) option" where
  "allocatePodSet ae nodes jobID podSet podsetTasksToAllocate isSimulation st =
     (if podsetTasksToAllocate = [] then Some (True, st)
      else case SubsetNodesFn ae jobID podSet [podSet] podsetTasksToAllocate nodes (stmt_ssn (as_stmt st)) of
             (Inl err, ssn) \<Rightarrow> Some (False, putStmt (putSsn ssn (as_stmt st)) st)
           | (Inr nodeSets, ssn) \<Rightarrow>
               tryNodeSets (ae_ssn ae)
                 (\<lambda>nodeSet st. map_option (\<lambda>(success, s). (success, putStmt s st))
                    (allocateTasksOnNodeSet ae nodeSet jobID isSimulation 0 podsetTasksToAllocate (as_stmt st)))
                 nodeSets (putStmt (putSsn ssn (as_stmt st)) st))"

fun membersLoop ::
  "(string SubGroupMember \<Rightarrow> ('aff, 'p) alloc_state \<Rightarrow> (bool \<times> ('aff, 'p) alloc_state) option) \<Rightarrow> string SubGroupMember list \<Rightarrow>
     ('aff, 'p) alloc_state \<Rightarrow> (bool \<times> ('aff, 'p) alloc_state) option" where
  "membersLoop f [] st = Some (True, st)"
| "membersLoop f (m # ms) st = Option.bind (f m st) (\<lambda>(success, st). if success then membersLoop f ms st else Some (False, st))"

definition derefMember :: "PodGroupInfo \<Rightarrow> string SubGroupMember \<Rightarrow> PodSet SubGroupMember" where
  "derefMember job = map_SubGroupMember (derefPodSet job)"

definition orderedMembers :: "('aff, 'p, 'q) alloc_env \<Rightarrow> string \<Rightarrow> string SubGroupSet \<Rightarrow> ('aff, 'p) Session \<Rightarrow> string SubGroupMember list" where
  "orderedMembers ae jobID subGroupSet ssn =
     (case map_of (ssn_PodGroupInfos ssn) jobID of
        None \<Rightarrow> GetMembers subGroupSet
      | Some job \<Rightarrow> go_sort (\<lambda>a b. of_subGroupOrderFn (ae_orders ae) (derefMember job a) (derefMember job b)) (GetMembers subGroupSet))"

lemma membersLoop_cong [fundef_cong]:
  assumes "ms = ms'" and "st = st'" and "\<And>m st. m \<in> set ms' \<Longrightarrow> f m st = g m st"
  shows "membersLoop f ms st = membersLoop g ms' st'"
  using assms(3) unfolding assms(1,2) by (induction ms' arbitrary: st') (auto intro!: Option.bind_cong)

lemma tryNodeSets_cong [fundef_cong]:
  assumes "env = env'" and "nss = nss'" and "st = st'" and "\<And>ns st. f ns st = g ns st"
  shows "tryNodeSets env f nss st = tryNodeSets env' g nss' st'"
proof -
  have "f = g" using assms(4) by blast
  then show ?thesis by (simp add: assms(1-3))
qed

lemma orderedMembers_set: "set (orderedMembers ae jobID g ssn) = set (GetMembers g)"
  by (simp add: orderedMembers_def split: option.split)

lemma sgs_group_size: "g \<in> set (sgs_groups G) \<Longrightarrow> size g < size G"
  by (cases G) (auto simp: less_Suc_eq_le intro!: trans_le_add1 size_list_estimation')

function allocateSubGroupSet ::
  "('aff, 'p, 'q) alloc_env \<Rightarrow> string \<Rightarrow> bool \<Rightarrow> string SubGroupSet \<Rightarrow> NodeSet \<Rightarrow> taskRef list \<Rightarrow> ('aff, 'p) alloc_state \<Rightarrow>
     (bool \<times> ('aff, 'p) alloc_state) option" where
  "allocateSubGroupSet ae jobID isSimulation subGroupSet nodes tasks st =
     (if tasks = [] then Some (True, st)
      else case SubsetNodesFn ae jobID (sgs_name subGroupSet) (subtreePodSetsContainingTasks subGroupSet (stmt_ssn (as_stmt st)) tasks)
                  tasks nodes (stmt_ssn (as_stmt st)) of
             (Inl err, ssn) \<Rightarrow> Some (False, putStmt (putSsn ssn (as_stmt st)) st)
           | (Inr nodeSets, ssn) \<Rightarrow>
               tryNodeSets (ae_ssn ae)
                 (\<lambda>nodeSet st.
                    membersLoop (\<lambda>member st.
                        case member of
                          PodSetMember podSet \<Rightarrow>
                            allocatePodSet ae nodeSet jobID podSet (filterTasksForPodSets [podSet] (stmt_ssn (as_stmt st)) tasks) isSimulation st
                        | GroupMember subGroup \<Rightarrow>
                            allocateSubGroupSet ae jobID isSimulation subGroup nodeSet
                              (filterTasksForPodSets (leaves subGroup) (stmt_ssn (as_stmt st)) tasks) st)
                      (orderedMembers ae jobID subGroupSet (stmt_ssn (as_stmt st))) st)
                 nodeSets (putStmt (putSsn ssn (as_stmt st)) st))"
  by pat_completeness auto
termination
  by (relation "measure (\<lambda>(_, _, _, g, _). size g)") (auto simp: orderedMembers_set GetMembers_def sgs_group_size)

subsection \<open>A job\<close>

definition isResizeStandInAllocatable :: "('aff, 'p, 'q) alloc_env \<Rightarrow> NodeSet \<Rightarrow> taskRef list \<Rightarrow> ('aff, 'p) Session \<Rightarrow> bool" where
  "isResizeStandInAllocatable ae nodes tasks ssn \<longleftrightarrow>
     list_all (\<lambda>task. list_ex (\<lambda>host. case map_of (ssn_Nodes ssn) host of
         None \<Rightarrow> False | Some node \<Rightarrow> IsInPlaceResizeAllocatable (se_node (ae_ssn ae)) node (ssn_task ssn task)) nodes) tasks"

definition overCapacityError :: "SchedulableResult \<Rightarrow> PodGroupInfo \<Rightarrow> PodGroupInfo" where
  "overCapacityError result job =
     AddJobFitError (NewJobFitErrorWithQueueContext (pg_Name job) DefaultSubGroup (pg_Namespace job)
       (case Reason result of None \<Rightarrow> OtherReason [] | Some r \<Rightarrow> r) (Message result) (Details result)) job"

text \<open>\<open>job\<close> is there when the code calls, and has a tree whenever tasks were selected from it.\<close>

definition AllocateJob ::
  "('aff, 'p, 'q) alloc_env \<Rightarrow> NodeSet \<Rightarrow> string \<Rightarrow> TaskAllocationMode \<Rightarrow> ('aff, 'p) alloc_state \<Rightarrow> (bool \<times> ('aff, 'p) alloc_state) option" where
  "AllocateJob ae nodes jobID allocationMode st =
     (let ssn = PreJobAllocation ae jobID (stmt_ssn (as_stmt st)); put = (\<lambda>ssn. putStmt (putSsn ssn (as_stmt st)) st)
      in case map_of (ssn_PodGroupInfos ssn) jobID of
           None \<Rightarrow> Some (False, put ssn)
         | Some job \<Rightarrow>
      let (tasks, job) = GetTasksToAllocate (of_subGroupOrderFn (ae_orders ae)) (of_taskOrderFn (ae_orders ae)) allocationMode job;
          (tasksToAllocate, ssn) = holdTasks tasks (putJob jobID job ssn)
      in if tasksToAllocate = [] then Some (False, put ssn)
         else if Job_IsResizeStandIn job then Some (isResizeStandInAllocatable ae nodes tasksToAllocate ssn, put ssn)
         else let isSimulation = (allocationMode \<noteq> RealTaskAllocation);
                  (result, ssn) = IsJobOverQueueCapacityFn ae jobID tasksToAllocate ssn
              in if \<not> IsSchedulable result
                 then Some (False, put (if isSimulation then ssn
                        else case map_of (ssn_PodGroupInfos ssn) jobID of None \<Rightarrow> ssn | Some job \<Rightarrow> putJob jobID (overCapacityError result job) ssn))
                 else case RootSubGroupSet job of
                        None \<Rightarrow> Some (False, put ssn)
                      | Some subGroupSet \<Rightarrow> allocateSubGroupSet ae jobID isSimulation subGroupSet nodes tasksToAllocate (put ssn))"

text \<open>The vector of requested resources is only logged, but filling its cache changes the job.\<close>

definition attemptToAllocateJob ::
  "('aff, 'p, 'q) alloc_env \<Rightarrow> string \<Rightarrow> ('aff, 'p) alloc_state \<Rightarrow> (bool \<times> bool \<times> ('aff, 'p) alloc_state) option" where
  "attemptToAllocateJob ae jobID st =
     (let ssn = stmt_ssn (as_stmt st);
          ssn = (case map_of (ssn_PodGroupInfos ssn) jobID of
                   None \<Rightarrow> ssn
                 | Some job \<Rightarrow> putJob jobID (snd (GetTasksToAllocateInitResourceVector (of_subGroupOrderFn (ae_orders ae)) (of_taskOrderFn (ae_orders ae))
                                  RealTaskAllocation (of_minNodeGPUMemory (ae_orders ae)) job)) ssn)
      in Option.bind (AllocateJob ae (gokeys (ssn_Nodes ssn)) jobID RealTaskAllocation (putStmt (putSsn ssn (as_stmt st)) st)) (\<lambda>(allocated, st).
           if \<not> allocated then Some (False, False, st)
           else case map_of (ssn_PodGroupInfos (stmt_ssn (as_stmt st))) jobID of
                  None \<Rightarrow> Some (True, False, st)
                | Some job \<Rightarrow>
                    if \<not> ShouldPipelineJob job then Some (True, False, st)
                    else Option.bind (ConvertAllAllocatedToPipelined (ae_ssn ae) (as_stmt st) (pg_UID job)) (\<lambda>(err, s).
                           if err \<noteq> None then Some (False, False, putStmt s st) else Some (True, True, putStmt s st))))"

end
