(* ===== verification/Node_Scores.thy ===== *)
theory Node_Scores
  imports Job_Allocation "HOL-Library.List_Lexorder"
begin

text \<open>
  The plugins that score nodes and GPUs: \<^verbatim>\<open>plugins/scores\<close>, \<^verbatim>\<open>gpupack\<close>, \<^verbatim>\<open>gpuspread\<close>, \<^verbatim>\<open>nodeplacement\<close>,
  \<^verbatim>\<open>nodeavailability\<close>, \<^verbatim>\<open>resourcetype\<close>, \<^verbatim>\<open>nominatednode\<close> and \<^verbatim>\<open>gpusharingorder\<close>, and the check of a node for a
  shared GPU, \<^verbatim>\<open>gpusharingnodevalidation\<close>. What they only log is left out, and so are \<^verbatim>\<open>New\<close> and \<^verbatim>\<open>Name\<close> of plugins without state.

  The lemmas show that packing gives scores between 0 and 9, less for nodes with more room, so that the scores of the
  plugins are tiers: the order of the nodes is decided by the first tier in which two nodes differ.
\<close>

subsection \<open>Scores\<close>

definition MaxHighDensity :: float64 where "MaxHighDensity = 9"
definition ResourceTypeScore :: float64 where "ResourceTypeScore = 10"
definition Availability :: float64 where "Availability = 1000"
definition GpuSharingScore :: float64 where "GpuSharingScore = 10000"
definition NominatedNodeScore :: float64 where "NominatedNodeScore = 10000000"

definition SpreadStrategy :: string where "SpreadStrategy = ''spread''"
definition BinpackStrategy :: string where "BinpackStrategy = ''binpack''"
definition GPUResource :: string where "GPUResource = ''gpu''"
definition CPUResource :: string where "CPUResource = ''cpu''"

text \<open>\<^verbatim>\<open>math.MaxFloat64\<close>.\<close>

definition MaxFloat64 :: float64 where "MaxFloat64 = 2 ^ 1024 - 2 ^ 971"

subsection \<open>GPUs\<close>

definition gpupack_gpuOrderFn :: "PodInfo \<Rightarrow> 'aff NodeInfo \<Rightarrow> string \<Rightarrow> float64 option" where
  "gpupack_gpuOrderFn task node gpuIdx = (if gpuIdx = WholeGpuIndicator then Some 0 else GetUsedGpuPortion node gpuIdx)"

definition gpuspread_gpuOrderFn :: "PodInfo \<Rightarrow> 'aff NodeInfo \<Rightarrow> string \<Rightarrow> float64 option" where
  "gpuspread_gpuOrderFn task node gpuIdx =
     (if gpuIdx = WholeGpuIndicator then Some 1 else map_option (\<lambda>usedGpuPortion. 1 - usedGpuPortion) (GetUsedGpuPortion node gpuIdx))"

subsection \<open>Nodes\<close>

definition nodeavailability_nodeOrderFn :: "'aff node_env \<Rightarrow> capStore \<Rightarrow> PodInfo \<Rightarrow> 'aff NodeInfo \<Rightarrow> float64 option" where
  "nodeavailability_nodeOrderFn ne caps task node = Some (if IsTaskAllocatable ne node caps task then Availability else 0)"

definition resourcetype_nodeOrderFn :: "'aff node_env \<Rightarrow> PodInfo \<Rightarrow> 'aff NodeInfo \<Rightarrow> float64 option" where
  "resourcetype_nodeOrderFn ne task node = Some (if IsCPUOnlyRequest task \<and> IsCPUOnlyNode ne node then ResourceTypeScore else 0)"

text \<open>\<open>nominatedNodeName\<close> reads the status of the Kubernetes pod.\<close>

definition nominatednode_nodeOrderFn :: "(PodInfo \<Rightarrow> string) \<Rightarrow> PodInfo \<Rightarrow> 'aff NodeInfo \<Rightarrow> float64 option" where
  "nominatednode_nodeOrderFn nominatedNodeName task node =
     Some (if nominatedNodeName task = ni_Name node then NominatedNodeScore else 0)"

definition gpusharingorder_nodeOrderFn :: "'aff node_env \<Rightarrow> PodInfo \<Rightarrow> 'aff NodeInfo \<Rightarrow> float64 option" where
  "gpusharingorder_nodeOrderFn ne pod node =
     (if \<not> IsSharedGPURequest pod then Some 0
      else Some (fold (\<lambda>gpuGroup score. if \<not> IsTaskFitOnGpuGroup ne node pod gpuGroup then score else GpuSharingScore)
                   (gokeys (UsedSharedGPUsMemory node)) 0))"

subsection \<open>Packing and spreading\<close>

record allocationRange =
  minAllocatable :: float64
  maxAllocatable :: float64

record nodePlacementPlugin =
  pluginArguments :: PluginArguments
  podAllocatableRange :: "(string, allocationRange) gomap"

definition nodeplacement_New :: "PluginArguments \<Rightarrow> nodePlacementPlugin" where
  "nodeplacement_New arguments =
     \<lparr>pluginArguments = fold (\<lambda>jobType args. if map_of args jobType = None then AList.update jobType BinpackStrategy args else args)
        [GPUResource, CPUResource] arguments, podAllocatableRange = []\<rparr>"

definition spreads :: "nodePlacementPlugin \<Rightarrow> string \<Rightarrow> bool" where
  "spreads pp jobType \<longleftrightarrow> map_of (pluginArguments pp) jobType = Some SpreadStrategy"

definition getScoreOfCurrentNode :: "float64 \<Rightarrow> float64 \<Rightarrow> float64 \<Rightarrow> float64 \<Rightarrow> float64" where
  "getScoreOfCurrentNode minAlloc maxAlloc currentNodeNonAllocated nodeOverallResource =
     (if nodeOverallResource = 0 then 0
      else if maxAlloc = 0 then 0
      else if minAlloc = maxAlloc then MaxHighDensity
      else MaxHighDensity * (1 - (currentNodeNonAllocated - minAlloc) / (maxAlloc - minAlloc)))"

definition overallResource :: "'aff node_env \<Rightarrow> 'aff NodeInfo \<Rightarrow> string \<Rightarrow> float64" where
  "overallResource ne node resourceName = Get (AllocatableVector node) (GetIndex (ne_rc ne) (ni_VectorMap node) resourceName)"

definition getMinMaxPerNode :: "'aff node_env \<Rightarrow> string \<Rightarrow> 'aff NodeInfo list \<Rightarrow> float64 \<times> float64" where
  "getMinMaxPerNode ne resourceName nodes =
     fold (\<lambda>node (minAlloc, maxAlloc).
         let current = NonAllocatedResource ne node resourceName
         in if overallResource ne node resourceName = 0 then (minAlloc, maxAlloc)
            else (if current < minAlloc then current else minAlloc, if current > maxAlloc then current else maxAlloc))
       nodes (MaxFloat64, 0)"

definition jobTypeFromTask :: "PodInfo \<Rightarrow> string" where
  "jobTypeFromTask task = (if IsCPUOnlyRequest task then CPUResource else GPUResource)"

definition resourceTypeFromJobType :: "'aff node_env \<Rightarrow> string \<Rightarrow> string" where
  "resourceTypeFromJobType ne jobType = (if jobType = GPUResource then GPUResourceName else ResourceCPU (ne_rc ne))"

definition nodeResourcePack :: "'aff node_env \<Rightarrow> nodePlacementPlugin \<Rightarrow> string \<Rightarrow> PodInfo \<Rightarrow> 'aff NodeInfo \<Rightarrow> float64 option" where
  "nodeResourcePack ne pp resourceName task node =
     (let range = (case map_of (podAllocatableRange pp) (pod_UID task) of None \<Rightarrow> \<lparr>minAllocatable = 0, maxAllocatable = 0\<rparr> | Some r \<Rightarrow> r)
      in Some (getScoreOfCurrentNode (minAllocatable range) (maxAllocatable range) (NonAllocatedResource ne node resourceName)
                 (overallResource ne node resourceName)))"

definition setBinpackPreOrder :: "'aff node_env \<Rightarrow> PodInfo \<Rightarrow> 'aff NodeInfo list \<Rightarrow> nodePlacementPlugin \<Rightarrow> nodePlacementPlugin" where
  "setBinpackPreOrder ne task fittingNodes pp =
     (let (mn, mx) = getMinMaxPerNode ne (resourceTypeFromJobType ne (jobTypeFromTask task)) fittingNodes
      in pp\<lparr>podAllocatableRange := AList.update (pod_UID task) \<lparr>minAllocatable = mn, maxAllocatable = mx\<rparr> (podAllocatableRange pp)\<rparr>)"

definition spreadCount :: "'aff node_env \<Rightarrow> string \<Rightarrow> 'aff NodeInfo \<Rightarrow> float64" where
  "spreadCount ne resourceName node =
     (if resourceName = GPUResourceName then of_int (GetNumberOfGPUsInNode node) else overallResource ne node resourceName)"

definition nodeResourceSpread :: "'aff node_env \<Rightarrow> string \<Rightarrow> PodInfo \<Rightarrow> 'aff NodeInfo \<Rightarrow> float64 option" where
  "nodeResourceSpread ne resourceName task node =
     (let resourceCount = spreadCount ne resourceName node
      in if resourceCount = 0 then Some 0 else Some (NonAllocatedResource ne node resourceName / resourceCount))"

text \<open>The four functions that \<^verbatim>\<open>OnSessionOpen\<close> chooses are chosen here where they are called.\<close>

definition nodeplacement_OnSessionOpen :: "nodePlacementPlugin \<Rightarrow> nodePlacementPlugin" where
  "nodeplacement_OnSessionOpen pp = pp\<lparr>podAllocatableRange := []\<rparr>"

definition nodeplacement_nodeOrderFn :: "'aff node_env \<Rightarrow> nodePlacementPlugin \<Rightarrow> PodInfo \<Rightarrow> 'aff NodeInfo \<Rightarrow> float64 option" where
  "nodeplacement_nodeOrderFn ne pp task node =
     (if IsCPUOnlyRequest task
      then (if spreads pp CPUResource then nodeResourceSpread ne (ResourceCPU (ne_rc ne)) task node
            else nodeResourcePack ne pp (ResourceCPU (ne_rc ne)) task node)
      else (if spreads pp GPUResource then nodeResourceSpread ne GPUResourceName task node
            else nodeResourcePack ne pp GPUResourceName task node))"

definition nodeplacement_nodePreOrderFn :: "'aff node_env \<Rightarrow> PodInfo \<Rightarrow> 'aff NodeInfo list \<Rightarrow> nodePlacementPlugin \<Rightarrow> nodePlacementPlugin" where
  "nodeplacement_nodePreOrderFn ne task fittingNodes pp =
     (if IsCPUOnlyRequest task
      then (if spreads pp CPUResource then pp else setBinpackPreOrder ne task fittingNodes pp)
      else (if spreads pp GPUResource then pp else setBinpackPreOrder ne task fittingNodes pp))"

subsection \<open>Registration\<close>

text \<open>The callbacks as the session holds them. The state of \<^verbatim>\<open>nodeplacement\<close> is the first part of the state of plugins.\<close>

definition nodeOrderFns ::
  "'aff node_env \<Rightarrow> (PodInfo \<Rightarrow> string) \<Rightarrow> (('aff, nodePlacementPlugin \<times> 'r) Session \<Rightarrow> PodInfo \<Rightarrow> 'aff NodeInfo \<Rightarrow> float64 option) list" where
  "nodeOrderFns ne nominatedNodeName =
     [\<lambda>ssn. nodeavailability_nodeOrderFn ne (ssn_caps ssn), \<lambda>ssn. gpusharingorder_nodeOrderFn ne, \<lambda>ssn. resourcetype_nodeOrderFn ne,
      \<lambda>ssn. nominatednode_nodeOrderFn nominatedNodeName, \<lambda>ssn. nodeplacement_nodeOrderFn ne (fst (ssn_plugins ssn))]"

definition nodesOf :: "('aff, 'p) Session \<Rightarrow> NodeSet \<Rightarrow> 'aff NodeInfo list" where
  "nodesOf ssn hosts = List.map_filter (map_of (ssn_Nodes ssn)) hosts"

definition nodePreOrderFns :: "'aff node_env \<Rightarrow> (('aff, nodePlacementPlugin \<times> 'r) Session \<Rightarrow> taskRef \<Rightarrow> NodeSet \<Rightarrow> ('aff, nodePlacementPlugin \<times> 'r) Session) list" where
  "nodePreOrderFns ne =
     [\<lambda>ssn task hosts. ssn\<lparr>ssn_plugins := apfst (nodeplacement_nodePreOrderFn ne (ssn_task ssn task) (nodesOf ssn hosts)) (ssn_plugins ssn)\<rparr>]"

subsection \<open>Bounds\<close>

lemma minMax_step:
  assumes "fold (\<lambda>node (mn, mx). let c = f node in if g node = 0 then (mn, mx) else (if c < mn then c else mn, if mx < c then c else mx))
      nodes (mn0, mx0) = (mn, mx)"
  shows "mn \<le> (mn0 :: float64) \<and> mx0 \<le> mx \<and> (\<forall>node\<in>set nodes. g node \<noteq> (0 :: float64) \<longrightarrow> mn \<le> f node \<and> f node \<le> mx)"
  using assms by (induction nodes arbitrary: mn0 mx0) (fastforce simp: Let_def split: if_splits)+

lemma getMinMaxPerNode_bounds:
  assumes "getMinMaxPerNode ne r nodes = (mn, mx)" and "node \<in> set nodes" and "overallResource ne node r \<noteq> 0"
  shows "mn \<le> NonAllocatedResource ne node r" "NonAllocatedResource ne node r \<le> mx"
  using minMax_step [OF assms(1) [unfolded getMinMaxPerNode_def]] assms(2,3) by blast+

lemma getScoreOfCurrentNode_portion:
  "getScoreOfCurrentNode mn mx cur overall =
     (let x = (cur - mn) / (mx - mn) in if overall = 0 \<or> mx = 0 then 0 else if mn = mx then 9 else 9 - 9 * x)"
  by (simp add: getScoreOfCurrentNode_def MaxHighDensity_def Let_def right_diff_distrib)

lemma getScoreOfCurrentNode_bounds:
  assumes "overall \<noteq> 0 \<Longrightarrow> mn \<le> cur \<and> cur \<le> mx"
  shows "0 \<le> getScoreOfCurrentNode mn mx cur overall \<and> getScoreOfCurrentNode mn mx cur overall \<le> 9"
proof -
  define x where "x = (cur - mn) / (mx - mn)"
  have "0 \<le> x \<and> x \<le> 1" if "mn \<le> cur" "cur \<le> mx" "mn \<noteq> mx" unfolding x_def using that by (simp add: divide_le_eq)
  then show ?thesis unfolding getScoreOfCurrentNode_portion x_def [symmetric] Let_def using assms by auto
qed

lemma getScoreOfCurrentNode_antimono:
  assumes "mn \<le> cur" and "cur \<le> cur'" and "cur' \<le> mx" and "overall \<noteq> 0" and "overall' \<noteq> 0"
  shows "getScoreOfCurrentNode mn mx cur' overall' \<le> getScoreOfCurrentNode mn mx cur overall"
proof -
  define x x' where "x = (cur - mn) / (mx - mn)" and "x' = (cur' - mn) / (mx - mn)"
  have "x \<le> x'" unfolding x_def x'_def using assms by (intro divide_right_mono) auto
  then show ?thesis unfolding getScoreOfCurrentNode_portion x_def [symmetric] x'_def [symmetric] Let_def using assms(4,5) by auto
qed

definition spreadInRange :: "'aff node_env \<Rightarrow> nodePlacementPlugin \<Rightarrow> PodInfo \<Rightarrow> 'aff NodeInfo \<Rightarrow> bool" where
  "spreadInRange ne pp task node \<longleftrightarrow>
     (let r = resourceTypeFromJobType ne (jobTypeFromTask task)
      in spreads pp (jobTypeFromTask task) \<longrightarrow> 0 \<le> NonAllocatedResource ne node r \<and> NonAllocatedResource ne node r \<le> spreadCount ne r node)"

lemma nodeplacement_bounds:
  assumes "node \<in> set nodes" and "spreadInRange ne pp task node"
  obtains d where "nodeplacement_nodeOrderFn ne (nodeplacement_nodePreOrderFn ne task nodes pp) task node = Some d" "0 \<le> d" "d \<le> 9"
proof -
  let ?job = "jobTypeFromTask task"
  let ?r = "resourceTypeFromJobType ne ?job"
  have r: "?r = (if IsCPUOnlyRequest task then ResourceCPU (ne_rc ne) else GPUResourceName)"
    by (simp add: jobTypeFromTask_def resourceTypeFromJobType_def CPUResource_def GPUResource_def)
  obtain mn mx where m: "getMinMaxPerNode ne ?r nodes = (mn, mx)" by fastforce
  let ?d = "if spreads pp ?job then (if spreadCount ne ?r node = 0 then 0 else NonAllocatedResource ne node ?r / spreadCount ne ?r node)
      else getScoreOfCurrentNode mn mx (NonAllocatedResource ne node ?r) (overallResource ne node ?r)"
  have args: "spreads (setBinpackPreOrder ne task nodes pp) j = spreads pp j" for j
    by (simp add: spreads_def setBinpackPreOrder_def case_prod_beta)
  have "nodeplacement_nodeOrderFn ne (nodeplacement_nodePreOrderFn ne task nodes pp) task node = Some ?d"
    using m r by (auto simp: nodeplacement_nodeOrderFn_def nodeplacement_nodePreOrderFn_def args nodeResourceSpread_def nodeResourcePack_def
        setBinpackPreOrder_def jobTypeFromTask_def Let_def spreads_def update_conv' split: if_splits)
  moreover have "0 \<le> ?d \<and> ?d \<le> 9"
  proof (cases "spreads pp ?job")
    case True
    then have "0 \<le> NonAllocatedResource ne node ?r" "NonAllocatedResource ne node ?r \<le> spreadCount ne ?r node"
      using assms(2) by (simp_all add: spreadInRange_def Let_def)
    then have "0 \<le> ?d \<and> ?d \<le> 1" using True by (simp add: divide_le_eq)
    then show ?thesis by linarith
  next
    case False
    then show ?thesis using getScoreOfCurrentNode_bounds getMinMaxPerNode_bounds [OF m assms(1)] by auto
  qed
  ultimately show ?thesis using that by blast
qed

subsection \<open>Tiers\<close>

definition tiers :: "'aff node_env \<Rightarrow> (PodInfo \<Rightarrow> string) \<Rightarrow> capStore \<Rightarrow> PodInfo \<Rightarrow> 'aff NodeInfo \<Rightarrow> bool list" where
  "tiers ne nominatedNodeName caps task node =
     [nominatedNodeName task = ni_Name node,
      IsSharedGPURequest task \<and> list_ex (\<lambda>g. IsTaskFitOnGpuGroup ne node task g) (gokeys (UsedSharedGPUsMemory node)),
      IsTaskAllocatable ne node caps task,
      IsCPUOnlyRequest task \<and> IsCPUOnlyNode ne node]"

definition tierScore :: "bool list \<Rightarrow> float64" where
  "tierScore bs = sum_list (map2 (\<lambda>b s. if b then s else 0) bs [NominatedNodeScore, GpuSharingScore, Availability, ResourceTypeScore])"

definition lowerTier :: "bool list \<Rightarrow> bool list \<Rightarrow> bool" where
  "lowerTier as bs \<longleftrightarrow> (as, bs) \<in> lexord {(False, True)}"

lemma lowerTier_score:
  assumes "lowerTier [a1, a2, a3, a4] [b1, b2, b3, b4]"
  shows "tierScore [a1, a2, a3, a4] + 9 < tierScore [b1, b2, b3, b4]"
  using assms unfolding lowerTier_def tierScore_def NominatedNodeScore_def GpuSharingScore_def Availability_def ResourceTypeScore_def
  by (cases a1; cases a2; cases a3; cases a4; cases b1; cases b2; cases b3; cases b4) simp_all

lemma gpusharing_score:
  "gpusharingorder_nodeOrderFn ne task node =
     Some (if IsSharedGPURequest task \<and> list_ex (\<lambda>g. IsTaskFitOnGpuGroup ne node task g) (gokeys (UsedSharedGPUsMemory node)) then GpuSharingScore else 0)"
proof -
  have "fold (\<lambda>g score. if \<not> P g then score else x) gs y = (if list_ex P gs then x else y)" for P :: "string \<Rightarrow> bool" and gs and x y :: float64
    by (induction gs arbitrary: y) auto
  then show ?thesis by (simp add: gpusharingorder_nodeOrderFn_def)
qed

lemma nodeOrderFns_score:
  fixes ae :: "('aff, nodePlacementPlugin \<times> 'r, 'q) alloc_env"
  assumes "NodeOrderFns ae = nodeOrderFns ne nominated" and "nodeplacement_nodeOrderFn ne (fst (ssn_plugins ssn)) task node = Some d"
  shows "NodeOrderFn ae ssn task node = Some (tierScore (tiers ne nominated (ssn_caps ssn) task node) + d)"
  using assms(2)
  by (simp add: NodeOrderFn_def assms(1) nodeOrderFns_def gpusharing_score nodeavailability_nodeOrderFn_def resourcetype_nodeOrderFn_def
      nominatednode_nodeOrderFn_def tierScore_def tiers_def add_ac)

text \<open>A node's score after the preparation: that of its tier and at most 9 more.\<close>

lemma preordered_score:
  fixes ae :: "('aff, nodePlacementPlugin \<times> 'r, 'q) alloc_env"
  defines "ne \<equiv> se_node (ae_ssn ae)"
  assumes "NodeOrderFns ae = nodeOrderFns ne nominated" and "NodePreOrderFns ae = nodePreOrderFns ne"
    and "\<forall>node\<in>set (nodesOf ssn hosts). spreadInRange ne (fst (ssn_plugins ssn)) (ssn_task ssn ref) node"
    and h: "h \<in> set hosts" "map_of (ssn_Nodes ssn) h = Some node"
  shows "\<exists>d. scoreNode ae (NodePreOrderFn ae ref hosts ssn) (ssn_task ssn ref) h =
      Some (h, ni_Name node, tierScore (tiers ne nominated (ssn_caps ssn) (ssn_task ssn ref) node) + d) \<and> 0 \<le> d \<and> d \<le> 9"
proof -
  let ?t = "ssn_task ssn ref" and ?ssn = "NodePreOrderFn ae ref hosts ssn"
  define pp where "pp = nodeplacement_nodePreOrderFn ne ?t (nodesOf ssn hosts) (fst (ssn_plugins ssn))"
  have pre: "?ssn = ssn\<lparr>ssn_plugins := (pp, snd (ssn_plugins ssn))\<rparr>"
    by (simp add: NodePreOrderFn_def assms(3) nodePreOrderFns_def pp_def apfst_def map_prod_def case_prod_beta)
  have mem: "node \<in> set (nodesOf ssn hosts)" using h by (force simp: nodesOf_def List.map_filter_def)
  obtain d where d: "nodeplacement_nodeOrderFn ne pp ?t node = Some d" "0 \<le> d" "d \<le> 9"
    using nodeplacement_bounds [OF mem] assms(4) mem unfolding pp_def by blast
  have "NodeOrderFn ae ?ssn ?t node = Some (tierScore (tiers ne nominated (ssn_caps ?ssn) ?t node) + d)"
    by (rule nodeOrderFns_score [OF assms(2)]) (simp add: pre d)
  then show ?thesis using h(2) d(2,3) by (simp add: scoreNode_def pre)
qed

lemma preorder_frame:
  fixes ae :: "('aff, nodePlacementPlugin \<times> 'r, 'q) alloc_env"
  assumes "NodePreOrderFns ae = nodePreOrderFns ne"
  shows "ssn_task (NodePreOrderFn ae ref hosts ssn) = ssn_task ssn" "ssn_Nodes (NodePreOrderFn ae ref hosts ssn) = ssn_Nodes ssn"
  by (simp_all add: NodePreOrderFn_def assms nodePreOrderFns_def)

text \<open>C38. Nodes are tried tier by tier. With the scoring plugins of this theory, whatever the resources of the nodes: a node
  the pod is nominated to comes first, then one with a shared GPU the task fits on, then one with room now, then one
  without GPUs for a task without GPUs; no node is tried after one that is worse in the first tier in which they differ.
  Packing only decides within a tier. For a job type that is spread, the free part of a node is in range.\<close>
theorem nodes_ordered_by_tier:
  fixes ae :: "('aff, nodePlacementPlugin \<times> 'r, 'q) alloc_env"
  defines "ne \<equiv> se_node (ae_ssn ae)"
  assumes "NodeOrderFns ae = nodeOrderFns ne nominated" and "NodePreOrderFns ae = nodePreOrderFns ne"
    and "\<forall>node\<in>set (nodesOf ssn hosts). spreadInRange ne (fst (ssn_plugins ssn)) (ssn_task ssn ref) node"
  defines "tier \<equiv> \<lambda>host. tiers ne nominated (ssn_caps ssn) (ssn_task ssn ref) (the (map_of (ssn_Nodes ssn) host))"
  shows "mset (fst (OrderedNodesByTask ae hosts ref ssn)) = mset (filter (\<lambda>h. map_of (ssn_Nodes ssn) h \<noteq> None) hosts) \<and>
    sorted_wrt (\<lambda>a b. \<not> lowerTier (tier a) (tier b)) (fst (OrderedNodesByTask ae hosts ref ssn))"
proof -
  let ?t = "ssn_task ssn ref" and ?ssn = "NodePreOrderFn ae ref hosts ssn"
  let ?score = "scoreNode ae ?ssn ?t"
  note frame = preorder_frame [OF assms(3)] and scored = preordered_score [OF assms(2-4) [unfolded ne_def], folded ne_def]
  have order: "fst (OrderedNodesByTask ae hosts ref ssn) = sortNodesByScore (map ?score hosts)"
    by (simp add: OrderedNodesByTask_scores frame Let_def)
  have some: "?score h \<noteq> None \<longleftrightarrow> map_of (ssn_Nodes ssn) h \<noteq> None" if "h \<in> set hosts" for h
    using scored [OF that] by (cases "map_of (ssn_Nodes ssn) h") (auto simp: scoreNode_def frame)
  have set: "mset (fst (OrderedNodesByTask ae hosts ref ssn)) = mset (filter (\<lambda>h. map_of (ssn_Nodes ssn) h \<noteq> None) hosts)"
    unfolding order sortNodesByScore_mset [OF scoreNode_key] using some by (simp cong: filter_cong)
  have better: "\<not> lowerTier (tier a) (tier b)" if "\<not> nodeBefore (the (?score b)) (the (?score a))"
    and ab: "a \<in> set (sortNodesByScore (map ?score hosts))" "b \<in> set (sortNodesByScore (map ?score hosts))" for a b
  proof -
    have "a \<in> set hosts \<and> map_of (ssn_Nodes ssn) a \<noteq> None" "b \<in> set hosts \<and> map_of (ssn_Nodes ssn) b \<noteq> None"
      using ab set [THEN mset_eq_setD] unfolding order by auto
    then obtain da db where "snd (snd (the (?score a))) = tierScore (tier a) + da" "da \<le> 9"
        "snd (snd (the (?score b))) = tierScore (tier b) + db" "0 \<le> db"
      using scored unfolding tier_def by (metis option.exhaust_sel option.sel snd_conv)
    then have "tierScore (tier b) \<le> tierScore (tier a) + 9" using that(1) by (simp add: nodeBefore_def)
    then show ?thesis using lowerTier_score unfolding tier_def tiers_def by (metis not_le)
  qed
  have "sorted_wrt (\<lambda>a b. \<not> lowerTier (tier a) (tier b)) (sortNodesByScore (map ?score hosts))"
    by (rule sorted_wrt_mono_rel [OF _ sortNodesByScore_sorted [OF scoreNode_key, of ae ?ssn ?t hosts]]) (rule better)
  then show ?thesis using set unfolding order by blast
qed

definition tierAlloc :: "(string list, nodePlacementPlugin \<times> unit, int) alloc_env" where
  "tierAlloc = (bareAlloc bareEnv)\<lparr>NodePreOrderFns := nodePreOrderFns exampleEnv, NodeOrderFns := nodeOrderFns exampleEnv (\<lambda>_. ''m'')\<rparr>"

definition tierSession :: "(string list, nodePlacementPlugin \<times> unit) Session" where
  "tierSession = twoNodes (nodeplacement_New [], ())"

theorem nodes_ordered_by_tier_witness: "fst (OrderedNodesByTask tierAlloc [''n'', ''m''] 0 tierSession) = [''m'', ''n'']"
proof -
  let ?hosts = "fst (OrderedNodesByTask tierAlloc [''n'', ''m''] 0 tierSession)"
  have ae: "se_node (ae_ssn tierAlloc) = exampleEnv" "NodeOrderFns tierAlloc = nodeOrderFns exampleEnv (\<lambda>_. ''m'')"
    "NodePreOrderFns tierAlloc = nodePreOrderFns exampleEnv" by (simp_all add: tierAlloc_def bareAlloc_def bareEnv_def)
  have "\<not> spreads (nodeplacement_New []) j" for j by (simp add: spreads_def nodeplacement_New_def SpreadStrategy_def BinpackStrategy_def)
  then have "\<forall>node\<in>set (nodesOf tierSession [''n'', ''m'']). spreadInRange exampleEnv (fst (ssn_plugins tierSession)) (ssn_task tierSession 0) node"
    by (simp add: spreadInRange_def tierSession_def twoNodes_def Let_def)
  note nodes_ordered_by_tier [of tierAlloc, unfolded ae, OF refl refl this]
  then have "mset ?hosts = {#''n'', ''m''#}" and sorted: "sorted_wrt (\<lambda>a b.
      \<not> lowerTier (tiers exampleEnv (\<lambda>_. ''m'') (ssn_caps tierSession) (ssn_task tierSession 0) (the (map_of (ssn_Nodes tierSession) a)))
          (tiers exampleEnv (\<lambda>_. ''m'') (ssn_caps tierSession) (ssn_task tierSession 0) (the (map_of (ssn_Nodes tierSession) b)))) ?hosts"
    by (simp_all add: tierSession_def twoNodes_def)
  then have "?hosts = [''n'', ''m''] \<or> ?hosts = [''m'', ''n'']"
    by (cases ?hosts rule: remdups_adj.cases) (auto simp: add_eq_conv_ex)
  then show ?thesis
  proof
    assume h: "?hosts = [''n'', ''m'']"
    have "ni_Name exampleNode = ''n''" by code_simp
    then show ?thesis using sorted unfolding h by (simp add: lowerTier_def tiers_def tierSession_def twoNodes_def)
  qed
qed

subsection \<open>Nodes for a shared GPU\<close>

record nodeCondition =
  cond_Type :: string
  cond_Status :: string
  cond_Reason :: string
  cond_Message :: string

text \<open>What the check reads of the configuration and of the Kubernetes node.\<close>

record 'aff sharing_env =
  nvFractionsMode :: bool
  fractionalGPUReadyConditionType :: string
  nodeConditions :: "'aff NodeInfo \<Rightarrow> nodeCondition list"

definition NodePodNumberExceeded :: string where "NodePodNumberExceeded = ''node(s) pod number exceeded''"

definition checkNvFractionalGPUReadyCondition :: "'aff sharing_env \<Rightarrow> PodInfo \<Rightarrow> 'aff NodeInfo \<Rightarrow> TasksFitError option" where
  "checkNvFractionalGPUReadyCondition se task node =
     (if \<not> nvFractionsMode se \<or> \<not> IsSharedGPURequest task then None
      else let failed = (\<lambda>status reason message. Some (NewFitError (pod_Name task) (pod_Namespace task) (ni_Name node)
                 (''node is not ready for fractional GPU scheduling. Condition '' @ fractionalGPUReadyConditionType se @ '' is '' @ status @
                  ''. Reason: '' @ reason @ ''. Message: '' @ message)))
           in case find (\<lambda>c. cond_Type c = fractionalGPUReadyConditionType se) (nodeConditions se node) of
                None \<Rightarrow> failed ''Unknown'' ''ConditionNotFound'' []
              | Some c \<Rightarrow> if cond_Status c = ''True'' then None else failed (cond_Status c) (cond_Reason c) (cond_Message c))"

definition isNewGpuGroup :: "string \<Rightarrow> bool" where
  "isNewGpuGroup gpuGroup \<longleftrightarrow> ParseInt gpuGroup = None"

definition containsNewGpuGroup :: "string list \<Rightarrow> bool" where
  "containsNewGpuGroup groups \<longleftrightarrow> list_ex isNewGpuGroup groups"

definition GroupIDs :: "nodeGpuForSharing \<Rightarrow> string list" where
  "GroupIDs n = map group_ID (gfs_FractionalGpuGroups n)"

definition willCreateNewGpuGroup :: "('aff, 'p, 'q) alloc_env \<Rightarrow> PodInfo \<Rightarrow> 'aff NodeInfo \<Rightarrow> ('aff, 'p) Session \<Rightarrow> bool \<times> ('aff, 'p) Session" where
  "willCreateNewGpuGroup ae task node ssn =
     (let fittingGPUs = FittingGPUs ae ssn node task;
          (immediate, ssn) = GetNodePreferableGpuForSharing ae fittingGPUs node task False ssn
      in case immediate of
           Some n \<Rightarrow> if \<not> gfs_IsReleasing n then (containsNewGpuGroup (GroupIDs n), ssn)
             else (case GetNodePreferableGpuForSharing ae fittingGPUs node task True ssn of
                     (Some n, ssn) \<Rightarrow> (containsNewGpuGroup (GroupIDs n), ssn) | (None, ssn) \<Rightarrow> (True, ssn))
         | None \<Rightarrow>
             (case GetNodePreferableGpuForSharing ae fittingGPUs node task True ssn of
                (Some n, ssn) \<Rightarrow> (containsNewGpuGroup (GroupIDs n), ssn) | (None, ssn) \<Rightarrow> (True, ssn)))"

definition checkMaxPodsWithGpuGroupReservation ::
  "('aff, 'p, 'q) alloc_env \<Rightarrow> PodInfo \<Rightarrow> 'aff NodeInfo \<Rightarrow> ('aff, 'p) Session \<Rightarrow> TasksFitError option \<times> ('aff, 'p) Session" where
  "checkMaxPodsWithGpuGroupReservation ae task node ssn =
     (let availablePods = Get (IdleVector node) PodsIndex + Get (ReleasingVector node) PodsIndex;
          exceeded = Some (NewFitError (pod_Name task) (pod_Namespace task) (ni_Name node) NodePodNumberExceeded)
      in if \<not> IsSharedGPURequest task then (if availablePods > 0 then None else exceeded, ssn)
         else let (needsNewGpuGroup, ssn) = willCreateNewGpuGroup ae task node ssn
              in if \<not> needsNewGpuGroup then (None, ssn) else if availablePods < 2 then (exceeded, ssn) else (None, ssn))"

definition gpusharing_Validate ::
  "('aff, 'p, 'q) alloc_env \<Rightarrow> 'aff sharing_env \<Rightarrow> PodInfo \<Rightarrow> 'aff NodeInfo \<Rightarrow> ('aff, 'p) Session \<Rightarrow> TasksFitError option \<times> ('aff, 'p) Session" where
  "gpusharing_Validate ae se task node ssn =
     (case checkMaxPodsWithGpuGroupReservation ae task node ssn of
        (Some err, ssn) \<Rightarrow> (Some err, ssn)
      | (None, ssn) \<Rightarrow> (checkNvFractionalGPUReadyCondition se task node, ssn))"

text \<open>The check takes every group whose name is not a number for a new one. A group that was created here is named by a
  UUID and keeps that name, so a pod that joins it is refused on a node with room for one more pod.\<close>

lemma existing_group_counts_as_new:
  assumes "IsSharedGPURequest task" and "Get (IdleVector node) PodsIndex + Get (ReleasingVector node) PodsIndex = 1"
    and "GetNodePreferableGpuForSharing ae (FittingGPUs ae ssn node task) node task False ssn = (Some n, ssn')" and "\<not> gfs_IsReleasing n"
    and "g \<in> set (GroupIDs n)" and "g \<in> set (gokeys (UsedSharedGPUsMemory node))" and "ParseInt g = None"
  shows "fst (gpusharing_Validate ae se task node ssn) \<noteq> None"
  using assms by (auto simp: gpusharing_Validate_def checkMaxPodsWithGpuGroupReservation_def willCreateNewGpuGroup_def containsNewGpuGroup_def
      isNewGpuGroup_def list_ex_iff)

end
