(* ===== verification/Allocation_Laws.thy ===== *)
theory Allocation_Laws
  imports Node_Scores
begin

text \<open>
  What an attempt to allocate a job does to the log of its statement, for arbitrary plugins. Every function of
  \<open>Job_Allocation\<close> returns, appends to the log, and, if it succeeds, has logged an operation for each of its tasks.
  That all tasks of a subtree are reached needs that tasks stay in their subgroups, which all operations keep (\<open>subKept\<close>).
\<close>

subsection \<open>Tasks stay in their subgroups\<close>

definition subKept :: "('aff, 'p) Session \<Rightarrow> ('aff, 'p) Session \<Rightarrow> bool" where
  "subKept ssn ssn' \<longleftrightarrow> ssn_next ssn \<le> ssn_next ssn' \<and> (\<forall>r < ssn_next ssn. SubGroupName (ssn_task ssn' r) = SubGroupName (ssn_task ssn r))"

named_theorems sub_kept \<open>operations after which tasks are in the subgroups they were in\<close>

lemma subKept_refl [simp]: "subKept ssn ssn"
  by (simp add: subKept_def)

lemma subKept_trans: "subKept a b \<Longrightarrow> subKept b c \<Longrightarrow> subKept a c"
  unfolding subKept_def by (metis (no_types, lifting) order_less_le_trans order_trans)

lemma writeTask_sub [sub_kept]:
  "subKept s0 ssn \<Longrightarrow> SubGroupName t = SubGroupName (ssn_task ssn r) \<Longrightarrow> subKept s0 (writeTask r t ssn)"
  by (auto simp: subKept_def writeTask_def)

lemma newTask_sub [sub_kept]: "subKept s0 ssn \<Longrightarrow> subKept s0 (snd (newTask t ssn))"
  by (auto simp: subKept_def newTask_def)

lemma updateStatus_sub [sub_kept]: "subKept s0 ssn \<Longrightarrow> subKept s0 (snd (updateStatus r st job ssn))"
  by (auto simp: subKept_def updateStatus_def UpdateTaskStatus_def Let_def split: prod.split option.split)

lemma setAccepted_sub: "SubGroupName (setAcceptedResources ne ni t) = SubGroupName t"
  using sameCore_setAccepted [of ne ni t] by (simp add: sameCore_def)

lemma onNode_sub:
  assumes "subKept s0 ssn" and "SubGroupName (fst (snd (snd (f node (ssn_caps ssn) (ssn_task ssn r))))) = SubGroupName (ssn_task ssn r)"
  shows "subKept s0 (snd (onNode f host node r ssn))"
  using assms by (auto simp: subKept_def onNode_def writeTask_def split: prod.split)

lemma nodeAddTask_sub [sub_kept]: "subKept s0 ssn \<Longrightarrow> subKept s0 (snd (nodeAddTask env host node r ssn))"
  unfolding nodeAddTask_def
  by (rule onNode_sub, assumption) (metis AddTask_task prod.collapse setAccepted_sub)

lemma nodeUpdateTask_sub [sub_kept]: "subKept s0 ssn \<Longrightarrow> subKept s0 (snd (nodeUpdateTask env host node r ssn))"
  unfolding nodeUpdateTask_def
  by (rule onNode_sub, assumption) (metis UpdateTask_task prod.collapse setAccepted_sub)

lemma nodeRemoveTask_sub [sub_kept]: "subKept s0 ssn \<Longrightarrow> subKept s0 (snd (nodeRemoveTask env host node r ssn))"
  unfolding nodeRemoveTask_def by (rule onNode_sub, assumption) (simp add: case_prod_beta Let_def)

lemma nodeConsolidate_sub [sub_kept]: "subKept s0 ssn \<Longrightarrow> subKept s0 (snd (nodeConsolidate env host node r ssn))"
  unfolding nodeConsolidate_def
  by (rule onNode_sub, assumption)
    (auto simp: ConsolidateSharedPodInfoToDifferentGPU_def addTask_def setAccepted_sub Let_def split: if_splits option.split prod.split)

context session_handlers
begin

lemma runHandlers_sub:
  assumes "\<forall>f. Some f \<in> set hs \<longrightarrow> (\<forall>ssn t. sameCore (snd (f ssn t)) t \<and> placement (snd (f ssn t)) = placement t)" and "subKept s0 ssn"
  shows "subKept s0 (runHandlers hs r ssn)"
  using assms
proof (induction hs arbitrary: ssn)
  case (Cons h hs)
  show ?case
  proof (cases h)
    case (Some f)
    have "SubGroupName (snd (f ssn (ssn_task ssn r))) = SubGroupName (ssn_task ssn r)"
      using Cons.prems(1) Some by (auto simp: sameCore_def)
    then have "subKept s0 (writeTask r (snd (f ssn (ssn_task ssn r))) (ssn\<lparr>ssn_plugins := fst (f ssn (ssn_task ssn r))\<rparr>))"
      using Cons.prems(2) by (auto simp: subKept_def writeTask_def)
    then show ?thesis using Cons Some by (simp add: runHandlers_def case_prod_beta Let_def)
  qed (use Cons in \<open>simp add: runHandlers_def\<close>)
qed (simp add: runHandlers_def)

lemma fire_sub:
  "subKept s0 ssn \<Longrightarrow> subKept s0 (fireAllocate env r ssn)" "subKept s0 ssn \<Longrightarrow> subKept s0 (fireDeallocate env r ssn)"
  unfolding fireAllocate_def fireDeallocate_def using runHandlers_sub [OF kept(1)] runHandlers_sub [OF kept(2)] by blast+

lemmas ops_sub = sub_kept fire_sub

lemma stmt_Evict_sub: "subKept s0 ssn \<Longrightarrow> subKept s0 (snd (snd (stmt_Evict env r m md ssn)))"
  by (simp add: stmt_Evict_def Let_def case_prod_beta split: option.split) (auto intro!: ops_sub)

lemma stmt_Allocate_sub: "subKept s0 ssn \<Longrightarrow> subKept s0 (snd (snd (stmt_Allocate env r host ssn)))"
  by (simp add: stmt_Allocate_def Let_def case_prod_beta split: option.split) (auto intro!: ops_sub)

lemma pipelineTask_sub: "subKept s0 ssn \<Longrightarrow> subKept s0 (snd (snd (pipelineTask env r host job node copy ssn)))"
  by (simp add: pipelineTask_def Let_def case_prod_beta split: option.split) (auto intro!: ops_sub)

lemma unevict_sub: "subKept s0 ssn \<Longrightarrow> subKept s0 (unevict env r st host groups numa claims virtual ssn)"
  by (simp add: unevict_def Let_def case_prod_beta split: option.split) (auto intro!: ops_sub)

lemma unpipeline_sub: "subKept s0 ssn \<Longrightarrow> subKept s0 (snd (unpipeline env r prev st groups numa claims virtual ssn))"
  by (simp add: unpipeline_def Let_def case_prod_beta split: option.split) (auto intro!: ops_sub)

lemma unallocate_sub: "subKept s0 ssn \<Longrightarrow> subKept s0 (snd (unallocate env r numa virtual ssn))"
  by (simp add: unallocate_def Let_def case_prod_beta split: option.split) (auto intro!: ops_sub)

lemma reverseOp_sub: "subKept s0 ssn \<Longrightarrow> subKept s0 (snd (reverseOp env op ssn))"
  by (cases op) (simp_all add: unevict_sub unpipeline_sub unallocate_sub)

lemma redoOp_sub: "subKept s0 ssn \<Longrightarrow> subKept s0 (snd (snd (redoOp env redo ssn)))"
  by (cases redo) (simp_all add: stmt_Evict_sub stmt_Allocate_sub pipelineAnew_def pipelineTask_sub split: option.split)

lemma logged_sub: "subKept s0 (snd (snd res)) \<Longrightarrow> subKept s0 (stmt_ssn (snd (logged res s)))"
  by (cases res) (auto simp: logged_def split: option.split)

lemma finishUndo_sub: "stmt_ssn (snd (finishUndo i op r)) = stmt_ssn (snd r)"
  by (cases r) (simp add: finishUndo_def split: option.split)

lemma undoOperation_sub:
  assumes "undoOperation env s i = Some res" and "subKept s0 (stmt_ssn s)"
  shows "subKept s0 (stmt_ssn (snd res))"
proof -
  have "env = env \<longrightarrow> subKept s0 (stmt_ssn s) \<longrightarrow> subKept s0 (stmt_ssn (snd res))"
  proof (rule undoOperation.raw_induct [where P = "\<lambda>e s i res. e = env \<longrightarrow> subKept s0 (stmt_ssn s) \<longrightarrow> subKept s0 (stmt_ssn (snd res))", OF _ assms(1)], intro impI)
    fix undo env' s i res
    assume IH: "\<And>env' s i res. undo env' s i = Some res \<Longrightarrow> env' = env \<longrightarrow> subKept s0 (stmt_ssn s) \<longrightarrow> subKept s0 (stmt_ssn (snd res))"
      and body: "Option.bind (operationValid (operations s) i) (\<lambda>valid.
       if \<not> valid then Some (None, s)
       else if length (operations s) \<le> i then None
       else Option.bind
              (case operations s ! i of
                 EvictOp op \<Rightarrow> Some (let (err, ssn) = reverseOp env' (EvictOp op) (stmt_ssn s) in (err, s\<lparr>stmt_ssn := ssn\<rparr>))
               | PipelineOp op \<Rightarrow> Some (let (err, ssn) = reverseOp env' (PipelineOp op) (stmt_ssn s) in (err, s\<lparr>stmt_ssn := ssn\<rparr>))
               | AllocateOp op \<Rightarrow> Some (let (err, ssn) = reverseOp env' (AllocateOp op) (stmt_ssn s) in (err, s\<lparr>stmt_ssn := ssn\<rparr>))
               | UndoOp _ redo \<Rightarrow>
                   (case redo of
                      RedoEvict ref message metadata \<Rightarrow> Some (logged (redoOp env' (RedoEvict ref message metadata) (stmt_ssn s)) s)
                    | RedoPipeline ref host \<Rightarrow> Some (logged (redoOp env' (RedoPipeline ref host) (stmt_ssn s)) s)
                    | RedoAllocate ref host \<Rightarrow> Some (logged (redoOp env' (RedoAllocate ref host) (stmt_ssn s)) s)
                    | RedoUndo operationIndex \<Rightarrow> undo env' s operationIndex))
              (\<lambda>r. Some (finishUndo i (operations s ! i) r))) = Some res"
      and a: "env' = env" "subKept s0 (stmt_ssn s)"
    have redo: "subKept s0 (stmt_ssn b)" if "logged (redoOp env redo (stmt_ssn s)) s = (err, b)" for redo err b
      using logged_sub [OF redoOp_sub [OF a(2)], of redo s] that by simp
    have undone: "subKept s0 (stmt_ssn b)" if "undo env s k = Some (err, b)" for k err b using IH [OF that] a(2) by simp
    show "subKept s0 (stmt_ssn (snd res))"
      using body a(2) reverseOp_sub [OF a(2)] unfolding a(1)
      by (auto simp: Option.bind_eq_Some_conv finishUndo_sub case_prod_beta Let_def simp del: redoOp.simps reverseOp.simps
          split: if_splits Operation.splits ReverseOperation.splits dest: redo undone)
  qed
  then show ?thesis using assms(2) by simp
qed

lemma Unevict_sub:
  assumes "Unevict env s r = Some (err, s')" and "subKept s0 (stmt_ssn s)"
  shows "subKept s0 (stmt_ssn s')"
  using assms undoOperation_sub [OF _ assms(2)]
  by (auto simp: Unevict_def undoEarliestValidOperation_def Option.bind_eq_Some_conv split: option.splits)

lemma Allocate_sub: "Allocate env s r host = (err, s') \<Longrightarrow> subKept s0 (stmt_ssn s) \<Longrightarrow> subKept s0 (stmt_ssn s')"
  unfolding Allocate_def using logged_sub [OF stmt_Allocate_sub] by (metis snd_conv)

lemma Pipeline_sub:
  assumes "Pipeline env s r host b = Some (err, s')" and "subKept s0 (stmt_ssn s)"
  shows "subKept s0 (stmt_ssn s')"
proof -
  have piped: "subKept s0 (stmt_ssn s1)" if "logged (pipelineTask env r host job node copy (stmt_ssn s)) s = (err1, s1)" for job node copy err1 s1
    using logged_sub [OF pipelineTask_sub [OF assms(2)]] that by (metis snd_conv)
  have un: "subKept s0 (stmt_ssn s1)" if "Unevict env (s\<lparr>stmt_ssn := writeTask r t (stmt_ssn s)\<rparr>) r = Some (err1, s1)"
    "SubGroupName t = SubGroupName (ssn_task (stmt_ssn s) r)" for t err1 s1
    using Unevict_sub [OF that(1)] that(2) assms(2) by (auto intro: writeTask_sub)
  show ?thesis
    using assms by (auto simp: Pipeline_def Let_def split: option.splits if_splits dest!: piped un)
qed

lemma rollbackLoop_sub:
  "rollbackLoop env cp n s = Some (err, s') \<Longrightarrow> subKept s0 (stmt_ssn s) \<Longrightarrow> subKept s0 (stmt_ssn s')"
proof (induction n arbitrary: s)
  case (Suc i)
  show ?case
  proof (cases "i < cp")
    case False
    then obtain err1 s1 where u: "undoOperation env s i = Some (err1, s1)" using Suc.prems(1) by (auto simp: Option.bind_eq_Some_conv)
    from undoOperation_sub [OF this Suc.prems(2)] have "subKept s0 (stmt_ssn s1)" by simp
    then show ?thesis using Suc.IH [of s1] Suc.prems(1) False u by (auto split: option.splits)
  qed (use Suc.prems in simp)
qed simp

lemma Rollback_sub: "Rollback env s cp = Some (err, s') \<Longrightarrow> subKept s0 (stmt_ssn s) \<Longrightarrow> subKept s0 (stmt_ssn s')"
  by (auto simp: Rollback_def Option.bind_eq_Some_conv split: if_splits option.splits dest!: rollbackLoop_sub)

end

subsection \<open>Operations that place a task\<close>

fun places :: "Operation list \<Rightarrow> taskRef \<Rightarrow> Operation \<Rightarrow> bool" where
  "places ops r (AllocateOp a) \<longleftrightarrow> al_task a = r"
| "places ops r (PipelineOp p) \<longleftrightarrow> pl_taskInfo p = r"
| "places ops r (UndoOp i _) \<longleftrightarrow> i < length ops \<and> Op_Name (ops ! i) = ''evict''"
| "places ops r (EvictOp _) \<longleftrightarrow> False"

text \<open>The log has, after its first \<open>n\<close> operations, one that places the task: an allocation, a pipelining, or an eviction taken back.\<close>

definition placedAfter :: "nat \<Rightarrow> Operation list \<Rightarrow> taskRef \<Rightarrow> bool" where
  "placedAfter n ops r \<longleftrightarrow> (\<exists>op\<in>set (drop n ops). places ops r op)"

lemma places_append: "places ops r op \<Longrightarrow> places (ops @ rest) r op"
  by (cases op) (auto simp: nth_append)

lemma placedAfter_append: "placedAfter n ops r \<Longrightarrow> placedAfter n (ops @ rest) r"
  unfolding placedAfter_def using places_append by fastforce

lemma placedAfter_mono:
  assumes "placedAfter n ops r" and "m \<le> n"
  shows "placedAfter m ops r"
proof -
  have "set (drop n ops) \<subseteq> set (drop m ops)" using assms(2) by (rule set_drop_subset_set_drop)
  then show ?thesis using assms(1) unfolding placedAfter_def by blast
qed

lemma placedAfter_snoc: "places (ops @ [op]) r op \<Longrightarrow> placedAfter (length ops) (ops @ [op]) r"
  by (simp add: placedAfter_def)

lemma stmt_Allocate_op:
  "stmt_Allocate env r host ssn = (err, op, ssn') \<Longrightarrow> (err = None \<longrightarrow> (\<exists>a. op = Some (AllocateOp a) \<and> al_task a = r)) \<and> (err \<noteq> None \<longrightarrow> op = None)"
  by (auto simp: stmt_Allocate_def Let_def split: option.splits prod.splits)

lemma pipelineTask_op:
  "pipelineTask env r host job node copy ssn = (err, op, ssn') \<Longrightarrow>
     (err = None \<longrightarrow> (\<exists>p. op = Some (PipelineOp p) \<and> pl_taskInfo p = r)) \<and> (err \<noteq> None \<longrightarrow> op = None)"
  by (auto simp: pipelineTask_def Let_def split: option.splits prod.splits)

text \<open>What a call that tries to place a task leaves of the log.\<close>

definition placesOrKeeps :: "taskRef \<Rightarrow> ('aff, 'p) Statement \<Rightarrow> bool \<Rightarrow> ('aff, 'p) Statement \<Rightarrow> bool" where
  "placesOrKeeps r s ok s' \<longleftrightarrow> extendsLog s s' \<and>
     (if ok then placedAfter (length (operations s)) (operations s') r else operations s' = operations s)"

lemma Allocate_places:
  assumes "wf_ops (operations s)" and "Allocate env s r host = (err, s')"
  shows "placesOrKeeps r s (err = None) s'"
proof -
  obtain err1 op ssn' where a: "stmt_Allocate env r host (stmt_ssn s) = (err1, op, ssn')" by (metis prod_cases3)
  have "extendsLog s s'" using logged_extends [OF assms(1) stmt_Allocate_plain] assms(2) by (simp add: Allocate_def)
  then show ?thesis
    using stmt_Allocate_op [OF a] assms(2) a by (auto simp: placesOrKeeps_def Allocate_def logged_def placedAfter_def)
qed

lemma Unevict_places:
  assumes wf: "wf_ops (operations s)" and res: "Unevict env s r = Some (err, s')"
  shows "placesOrKeeps q s (err = None) s'"
proof -
  have ext: "extendsLog s s'" using Unevict_returns [OF wf, of env r] res by auto
  obtain found where f: "findEarliest s (pod_UID (ssn_task (stmt_ssn s) r)) ''evict'' 0 (operations s) = Some found"
    using findEarliest_returns [OF wf] by blast
  show ?thesis
  proof (cases found)
    case None
    then show ?thesis using res f ext by (auto simp: placesOrKeeps_def Unevict_def undoEarliestValidOperation_def)
  next
    case (Some i)
    then have i: "i < length (operations s)" "operationValid (operations s) i = Some True" "Op_Name (operations s ! i) = ''evict''"
      using findEarliest_SomeD f by (metis diff_zero)+
    then obtain e where e: "operations s ! i = EvictOp e" using evict_name by blast
    have u: "undoOperation env s i = Some (err, s')" using res f Some by (simp add: Unevict_def undoEarliestValidOperation_def)
    have "err = None \<and> operations s' = operations s @ [UndoOp i (redoOf (EvictOp e))]"
      using u i e by (subst (asm) undoOperation.simps) (auto simp: finishUndo_def)
    then show ?thesis using ext i by (auto simp: placesOrKeeps_def placedAfter_def nth_append)
  qed
qed

lemma Pipeline_places:
  assumes wf: "wf_ops (operations s)" and res: "Pipeline env s r host b = Some (err, s')"
  shows "placesOrKeeps r s (err = None) s'"
proof -
  have piped: "placesOrKeeps r s (err1 = None) s1" if l: "logged (pipelineTask env r host job node copy (stmt_ssn s)) s = (err1, s1)" for job node copy err1 s1
  proof -
    obtain err2 op ssn' where p: "pipelineTask env r host job node copy (stmt_ssn s) = (err2, op, ssn')" by (metis prod_cases3)
    have "extendsLog s s1" by (rule logged_extends [OF wf pipelineTask_plain l])
    then show ?thesis using pipelineTask_op [OF p] l p by (auto simp: placesOrKeeps_def logged_def placedAfter_def)
  qed
  have un: "placesOrKeeps r s (err1 = None) s1" if "Unevict env (s\<lparr>stmt_ssn := ssn\<rparr>) r = Some (err1, s1)" for ssn err1 s1
    using Unevict_places [OF _ that, of r] wf by (auto simp: placesOrKeeps_def extendsLog_session split: if_splits)
  have id: "placesOrKeeps r s False s" using extendsLog_refl [OF wf] by (simp add: placesOrKeeps_def)
  show ?thesis
    using res id by (auto simp: Pipeline_def Let_def split: option.splits if_splits dest!: piped un)
qed

subsection \<open>Plugins leave tasks alone\<close>

definition sameTasks :: "('aff, 'p) Session \<Rightarrow> ('aff, 'p) Session \<Rightarrow> bool" where
  "sameTasks ssn ssn' \<longleftrightarrow> ssn_task ssn' = ssn_task ssn \<and> ssn_next ssn' = ssn_next ssn"

text \<open>The hypothesis on plugins: no function they register writes to a task.\<close>

definition pluginsLeaveTasks :: "('aff, 'p, 'q) alloc_env \<Rightarrow> bool" where
  "pluginsLeaveTasks ae \<longleftrightarrow>
     (\<forall>f\<in>set (PreJobAllocationFns ae). \<forall>ssn j. sameTasks ssn (f ssn j)) \<and>
     (\<forall>f\<in>set (IsJobOverCapacityFns ae). \<forall>ssn j ts. sameTasks ssn (snd (f ssn j ts))) \<and>
     (\<forall>f\<in>set (SubsetNodesFns ae). \<forall>ssn j g ps ts ns. sameTasks ssn (snd (f ssn j g ps ts ns))) \<and>
     (\<forall>f\<in>set (PrePredicateFns ae). \<forall>ssn t j. sameTasks ssn (snd (f ssn t j))) \<and>
     (\<forall>f\<in>set (PredicateFns ae). \<forall>ssn t j n. sameTasks ssn (snd (f ssn t j n))) \<and>
     (\<forall>f\<in>set (NodePreOrderFns ae). \<forall>ssn t ns. sameTasks ssn (f ssn t ns)) \<and>
     (\<forall>f. NumaPlacementFn ae = Some f \<longrightarrow> (\<forall>ssn t n. sameTasks ssn (snd (f ssn t n)))) \<and>
     (\<forall>ssn. sameTasks ssn (snd (NewUUID ae ssn)))"

lemma sameTasks_refl [simp]: "sameTasks ssn ssn" and sameTasks_trans: "sameTasks a b \<Longrightarrow> sameTasks b c \<Longrightarrow> sameTasks a c"
  by (simp_all add: sameTasks_def)

lemma sameTasks_sub: "sameTasks ssn ssn' \<Longrightarrow> subKept s0 ssn \<Longrightarrow> subKept s0 ssn'"
  by (simp add: sameTasks_def subKept_def)

lemma putJob_tasks [simp]: "sameTasks ssn (putJob k job ssn)"
  by (simp add: sameTasks_def putJob_def)

lemma fold_tasks: "\<forall>f\<in>set fs. \<forall>ssn. sameTasks ssn (g f ssn) \<Longrightarrow> sameTasks ssn (fold g fs ssn)"
  by (induction fs arbitrary: ssn) (auto intro: sameTasks_trans)

lemma firstErrorOf_tasks: "\<forall>f\<in>set fs. \<forall>ssn. sameTasks ssn (snd (f ssn)) \<Longrightarrow> sameTasks ssn (snd (firstErrorOf fs ssn))"
proof (induction fs arbitrary: ssn)
  case (Cons f fs)
  have "sameTasks ssn (snd (f ssn))" using Cons.prems by simp
  moreover have "sameTasks (snd (f ssn)) (snd (firstErrorOf fs (snd (f ssn))))" using Cons by simp
  ultimately show ?case using sameTasks_trans by (cases "f ssn") (auto split: option.split)
qed simp

lemma subsetEach_tasks: "\<forall>ssn ns. sameTasks ssn (snd (f ssn ns)) \<Longrightarrow> sameTasks ssn (snd (subsetEach f nss ssn))"
proof (induction nss arbitrary: ssn)
  case (Cons ns nss)
  obtain res ssn1 where f: "f ssn ns = (res, ssn1)" by fastforce
  obtain res2 ssn2 where r: "subsetEach f nss ssn1 = (res2, ssn2)" by fastforce
  have "sameTasks ssn ssn1" using Cons.prems f by (metis snd_conv)
  moreover have "sameTasks ssn1 ssn2" using Cons.IH [OF Cons.prems, of ssn1] r by simp
  ultimately show ?case using f r sameTasks_trans by (cases res; cases res2) auto
qed simp

lemma subsetLoop_tasks:
  "\<forall>f\<in>set fs. \<forall>ssn j g ps ts ns. sameTasks ssn (snd (f ssn j g ps ts ns)) \<Longrightarrow> sameTasks ssn (snd (subsetLoop fs j g ps ts nss ssn))"
proof (induction fs arbitrary: nss ssn)
  case (Cons f fs)
  obtain res ssn1 where f: "subsetEach (\<lambda>ssn. f ssn j g ps ts) nss ssn = (res, ssn1)" by fastforce
  have "sameTasks ssn ssn1" using subsetEach_tasks [of "\<lambda>ssn. f ssn j g ps ts" ssn nss] Cons.prems f by simp
  moreover have "sameTasks ssn1 (snd (subsetLoop fs j g ps ts nss1 ssn1))" for nss1 using Cons by simp
  ultimately have "sameTasks ssn (snd (subsetLoop fs j g ps ts nss1 ssn1))" for nss1 using sameTasks_trans by blast
  with \<open>sameTasks ssn ssn1\<close> f show ?case by (cases res) auto
qed simp

locale quiet_plugins = session_handlers "ae_ssn ae" for ae :: "('aff, 'p, 'q) alloc_env" +
  assumes quiet: "pluginsLeaveTasks ae"
begin

lemma plugin_calls:
  "sameTasks ssn (PreJobAllocation ae j ssn)"
  "sameTasks ssn (snd (IsJobOverQueueCapacityFn ae j ts ssn))"
  "sameTasks ssn (snd (SubsetNodesFn ae j g ps ts ns ssn))"
  "sameTasks ssn (snd (PrePredicateFn ae t j ssn))"
  "sameTasks ssn (snd (PredicateFn ae t j n ssn))"
  "sameTasks ssn (NodePreOrderFn ae t ns ssn)"
  "sameTasks ssn (snd (GetNumaPlacement ae t n ssn))"
  "sameTasks ssn (snd (NewUUID ae ssn))"
proof -
  note q = quiet [unfolded pluginsLeaveTasks_def]
  show "sameTasks ssn (PreJobAllocation ae j ssn)" unfolding PreJobAllocation_def using q by (intro fold_tasks) simp
  show "sameTasks ssn (NodePreOrderFn ae t ns ssn)" unfolding NodePreOrderFn_def using q by (intro fold_tasks) simp
  show "sameTasks ssn (snd (IsJobOverQueueCapacityFn ae j ts ssn))" using q by (simp add: IsJobOverQueueCapacityFn_def split: list.split)
  show "sameTasks ssn (snd (SubsetNodesFn ae j g ps ts ns ssn))" unfolding SubsetNodesFn_def by (rule subsetLoop_tasks) (rule q [THEN conjunct2, THEN conjunct2, THEN conjunct1])
  show "sameTasks ssn (snd (PrePredicateFn ae t j ssn))" unfolding PrePredicateFn_def using q by (intro firstErrorOf_tasks) auto
  show "sameTasks ssn (snd (PredicateFn ae t j n ssn))" unfolding PredicateFn_def using q by (intro firstErrorOf_tasks) auto
  show "sameTasks ssn (snd (GetNumaPlacement ae t n ssn))" using q by (simp add: GetNumaPlacement_def split: option.split)
  show "sameTasks ssn (snd (NewUUID ae ssn))" using q by blast
qed

lemma FittingNode_tasks: "sameTasks ssn (snd (FittingNode ae r host w ssn))"
proof -
  have alloc: "sameTasks ssn (snd (snd (isTaskAllocatableOnNode ae t j job node w ssn)))" for t j job node
    by (simp add: isTaskAllocatableOnNode_def Let_def case_prod_beta)
  have err: "sameTasks ssn (addNodeFitError t j e ssn)" for t j e and ssn :: "('aff, 'p) Session"
    by (simp add: addNodeFitError_def split: option.split)
  let ?t = "ssn_task ssn r"
  show ?thesis
  proof (cases "map_of (ssn_PodGroupInfos ssn) (pod_Job ?t) = None \<or> map_of (ssn_Nodes ssn) host = None")
    case True
    then show ?thesis by (auto simp: FittingNode_def Let_def split: option.split)
  next
    case False
    then obtain job node where jn: "map_of (ssn_PodGroupInfos ssn) (pod_Job ?t) = Some job" "map_of (ssn_Nodes ssn) host = Some node" by (metis not_None_eq)
    obtain ok fe ssn1 where a: "isTaskAllocatableOnNode ae ?t (pod_Job ?t) job node w ssn = (ok, fe, ssn1)" by (metis prod_cases3)
    obtain e ssn2 where p: "PredicateFn ae r (pod_Job ?t) host ssn1 = (e, ssn2)" by fastforce
    have t1: "sameTasks ssn ssn1" using alloc [of ?t "pod_Job ?t" job node] a by simp
    have t2: "sameTasks ssn ssn2" using sameTasks_trans [OF t1] plugin_calls(5) [of ssn1 r "pod_Job ?t" host] p by simp
    show ?thesis
      using jn a p t1 t2 sameTasks_trans [OF t1 err] sameTasks_trans [OF t2 err]
      by (cases ok; cases fe; cases e) (simp_all add: FittingNode_def Let_def)
  qed
qed

lemma preferableLoop_tasks: "sameTasks ssn (snd (preferableLoop ae node pod b n gpus ssn))"
proof (induction gpus arbitrary: n ssn)
  case (Cons g gpus)
  have "sameTasks ssn (snd (findGpuForSharingOnNode ae pod node b ssn))"
    using plugin_calls(8) [of ssn] by (simp add: findGpuForSharingOnNode_def Let_def case_prod_beta)
  then show ?case using Cons sameTasks_trans by (simp add: Let_def case_prod_beta) blast
qed simp

end

subsection \<open>Attempts to place a task\<close>

definition goodAttempt :: "('aff, 'p) Session \<Rightarrow> taskRef \<Rightarrow> ('aff, 'p) Statement \<Rightarrow> ('aff, 'p) attempt \<Rightarrow> bool" where
  "goodAttempt s0 r s res \<longleftrightarrow> (\<exists>ok s'. res = Some (ok, s') \<and> placesOrKeeps r s ok s' \<and> subKept s0 (stmt_ssn s'))"

lemma goodAttempt_Some: "goodAttempt s0 r s (Some (ok, s')) \<longleftrightarrow> placesOrKeeps r s ok s' \<and> subKept s0 (stmt_ssn s')"
  by (auto simp: goodAttempt_def)

lemma goodAttempt_fail: "wf_ops (operations s) \<Longrightarrow> subKept s0 ssn \<Longrightarrow> goodAttempt s0 r s (Some (False, putSsn ssn s))"
  unfolding goodAttempt_Some by (simp add: placesOrKeeps_def putSsn_def extendsLog_def)

lemma goodAttempt_putSsn: "goodAttempt s0 r (putSsn ssn s) res \<longleftrightarrow> goodAttempt s0 r s res"
  by (simp add: goodAttempt_def placesOrKeeps_def putSsn_def extendsLog_def)

lemma goodAttempt_retry:
  assumes "goodAttempt s0 r s res"
    and "\<And>s1. operations s1 = operations s \<Longrightarrow> subKept s0 (stmt_ssn s1) \<Longrightarrow> goodAttempt s0 r s1 (f s1)"
  shows "goodAttempt s0 r s (Option.bind res (\<lambda>(ok, s1). if ok then Some (True, s1) else f s1))"
proof -
  obtain ok s1 where res: "res = Some (ok, s1)" "placesOrKeeps r s ok s1" "subKept s0 (stmt_ssn s1)"
    using assms(1) by (auto simp: goodAttempt_def)
  show ?thesis
  proof (cases ok)
    case False
    then have "operations s1 = operations s" using res(2) by (simp add: placesOrKeeps_def)
    then have "placesOrKeeps r s1 b s2 = placesOrKeeps r s b s2" for b s2 by (simp add: placesOrKeeps_def extendsLog_def)
    with assms(2) [OF \<open>operations s1 = operations s\<close> res(3)] False res(1) show ?thesis by (simp add: goodAttempt_def)
  qed (use res in \<open>simp add: goodAttempt_Some\<close>)
qed

context quiet_plugins
begin

lemma Allocate_good:
  assumes "wf_ops (operations s)" and "subKept s0 (stmt_ssn s)"
  shows "goodAttempt s0 r s (let (err, s') = Allocate (ae_ssn ae) s r host in Some (err = None, s'))"
proof -
  obtain err s' where a: "Allocate (ae_ssn ae) s r host = (err, s')" by fastforce
  then show ?thesis using Allocate_places [OF assms(1) a] Allocate_sub [OF a assms(2)] by (simp add: goodAttempt_def)
qed

lemma Pipeline_good:
  assumes "wf_ops (operations s)" and "subKept s0 (stmt_ssn s)"
  shows "goodAttempt s0 r s (map_option (\<lambda>(err, s'). (err = None, s')) (Pipeline (ae_ssn ae) s r host b))"
proof -
  obtain err s' where a: "Pipeline (ae_ssn ae) s r host b = Some (err, s')" using Pipeline_returns [OF assms(1)] by blast
  then show ?thesis using Pipeline_places [OF assms(1) a] Pipeline_sub [OF a assms(2)] by (simp add: goodAttempt_def)
qed

lemma AllocateFractionalGPUTaskToNode_good:
  assumes wf: "wf_ops (operations s)" and sub: "subKept s0 (stmt_ssn s)"
  shows "goodAttempt s0 r s (AllocateFractionalGPUTaskToNode ae r node b s)"
proof -
  let ?ssn = "stmt_ssn s"
  obtain g ssn1 where g: "GetNodePreferableGpuForSharing ae (FittingGPUs ae ?ssn node (ssn_task ?ssn r)) node (ssn_task ?ssn r) b ?ssn = (g, ssn1)" by fastforce
  have s1: "subKept s0 ssn1"
    using sameTasks_sub [OF preferableLoop_tasks sub] g unfolding GetNodePreferableGpuForSharing_def by (metis snd_conv)
  show ?thesis
  proof (cases g)
    case None
    then show ?thesis using g goodAttempt_fail [OF wf s1] by (simp add: AllocateFractionalGPUTaskToNode_def)
  next
    case (Some gs)
    define ssn2 where "ssn2 = writeTask r (SetFractionalGpuGroups (ssn_task ssn1 r) (gfs_FractionalGpuGroups gs)) ssn1"
    define sim where "sim = (b \<or> gfs_IsReleasing gs)"
    have s2: "subKept s0 (stmt_ssn (putSsn ssn2 s))"
      using s1 by (auto simp: ssn2_def putSsn_def SetFractionalGpuGroups_def intro!: writeTask_sub)
    have wf2: "wf_ops (operations (putSsn ssn2 s))" using wf by (simp add: putSsn_def)
    have "goodAttempt s0 r (putSsn ssn2 s) (allocateSharedGPUTask ae (ni_Name node) r sim (putSsn ssn2 s))"
      using Allocate_good [OF wf2 s2] Pipeline_good [OF wf2 s2] by (simp add: allocateSharedGPUTask_def)
    then have "goodAttempt s0 r s (Option.bind (allocateSharedGPUTask ae (ni_Name node) r sim (putSsn ssn2 s)) (\<lambda>(ok, s1).
        if ok then Some (True, s1) else Some (False, putSsn (writeTask r ((ssn_task (stmt_ssn s1) r)\<lparr>FractionalGpuGroups := []\<rparr>) (stmt_ssn s1)) s1)))"
      using wf by (intro goodAttempt_retry goodAttempt_fail writeTask_sub) (simp_all add: goodAttempt_putSsn)
    then show ?thesis using g Some by (simp add: AllocateFractionalGPUTaskToNode_def ssn2_def sim_def)
  qed
qed

lemma allocateTaskToNode_good:
  assumes wf: "wf_ops (operations s)" and sub: "subKept s0 (stmt_ssn s)"
  shows "goodAttempt s0 r s (allocateTaskToNode ae r host b s)"
proof -
  obtain res ssn1 where n: "GetNumaPlacement ae r host (stmt_ssn s) = (res, ssn1)" by fastforce
  have s1: "subKept s0 ssn1" using sameTasks_sub [OF plugin_calls(7) sub] n by (metis snd_conv)
  show ?thesis
  proof (cases res)
    case (Inl e)
    then show ?thesis using n goodAttempt_fail [OF wf s1] by (simp add: allocateTaskToNode_def)
  next
    case (Inr p)
    define ssn2 where "ssn2 = writeTask r ((ssn_task ssn1 r)\<lparr>pod_NUMAPlacement := p\<rparr>) ssn1"
    have s2: "subKept s0 ssn2" using s1 by (auto simp: ssn2_def intro!: writeTask_sub)
    have s2': "subKept s0 (stmt_ssn (putSsn ssn2 s))" "wf_ops (operations (putSsn ssn2 s))" using s2 wf by (simp_all add: putSsn_def)
    note good = AllocateFractionalGPUTaskToNode_good [OF s2'(2,1)] Allocate_good [OF s2'(2,1)] Pipeline_good [OF s2'(2,1)]
    have eq: "allocateTaskToNode ae r host b s =
        (case map_of (ssn_Nodes ssn2) host of
           None \<Rightarrow> Some (False, putSsn ssn2 s)
         | Some node \<Rightarrow>
             if IsFractionRequest (ssn_task ssn2 r) \<or> IsGpuMemoryRequest (ssn_task ssn2 r) then AllocateFractionalGPUTaskToNode ae r node b (putSsn ssn2 s)
             else if \<not> b \<and> IsTaskAllocatable (se_node (ae_ssn ae)) node (ssn_caps ssn2) (ssn_task ssn2 r)
             then let (err, s) = Allocate (ae_ssn ae) (putSsn ssn2 s) r (ni_Name node) in Some (err = None, s)
             else map_option (\<lambda>(err, s). (err = None, s)) (Pipeline (ae_ssn ae) (putSsn ssn2 s) r (ni_Name node) b))"
      unfolding allocateTaskToNode_def bindTaskToNode_def pipelineTaskToNode_def n Inr ssn2_def Let_def by (simp only: prod.case sum.case)
    show ?thesis
    proof (cases "map_of (ssn_Nodes ssn2) host")
      case None
      then show ?thesis using goodAttempt_fail [OF wf s2] by (simp add: eq)
    next
      case (Some node)
      then have "goodAttempt s0 r (putSsn ssn2 s) (allocateTaskToNode ae r host b s)"
        unfolding eq option.case using good by (simp split del: if_split) (simp split: if_split)
      then show ?thesis by (simp add: goodAttempt_putSsn)
    qed
  qed
qed

lemma allocateOnNodes_good:
  assumes "wf_ops (operations s)" and "subKept s0 (stmt_ssn s)"
  shows "goodAttempt s0 r s (allocateOnNodes ae r b hosts s)"
  using assms
proof (induction hosts arbitrary: s)
  case Nil
  then show ?case using goodAttempt_fail [of s s0 "stmt_ssn s" r] by (simp add: putSsn_def)
next
  case (Cons host hosts)
  obtain fits ssn1 where f: "FittingNode ae r host (\<not> b) (stmt_ssn s) = (fits, ssn1)" by fastforce
  have s1: "subKept s0 ssn1" using sameTasks_sub [OF FittingNode_tasks Cons.prems(2)] f by (metis snd_conv)
  let ?s = "putSsn ssn1 s"
  have s1': "wf_ops (operations ?s)" "subKept s0 (stmt_ssn ?s)" using s1 Cons.prems(1) by (simp_all add: putSsn_def)
  have "goodAttempt s0 r ?s (allocateOnNodes ae r b (host # hosts) s)"
  proof (cases fits)
    case True
    have "goodAttempt s0 r ?s (Option.bind (allocateTaskToNode ae r host b ?s) (\<lambda>(ok, s1). if ok then Some (True, s1) else allocateOnNodes ae r b hosts s1))"
      using s1'(1) by (intro goodAttempt_retry allocateTaskToNode_good [OF s1'] Cons.IH) simp_all
    then show ?thesis using f True by simp
  qed (use f Cons.IH [OF s1'] in simp)
  then show ?case by (simp add: goodAttempt_putSsn)
qed

lemma allocateTask_good:
  assumes wf: "wf_ops (operations s)" and sub: "subKept s0 (stmt_ssn s)"
  shows "goodAttempt s0 r s (allocateTask ae nodes r b s)"
proof -
  let ?t = "ssn_task (stmt_ssn s) r"
  obtain e ssn1 where p: "PrePredicateFn ae r (pod_Job ?t) (stmt_ssn s) = (e, ssn1)" by fastforce
  have s1: "subKept s0 ssn1" using sameTasks_sub [OF plugin_calls(4) sub] p by (metis snd_conv)
  obtain hosts ssn2 where o1: "OrderedNodesByTask ae nodes r ssn1 = (hosts, ssn2)" by fastforce
  have "sameTasks ssn1 ssn2" using plugin_calls(6) [of ssn1 r nodes] o1 by (simp add: OrderedNodesByTask_scores Let_def)
  then have s2: "subKept s0 (stmt_ssn (putSsn ssn2 s))" "wf_ops (operations (putSsn ssn2 s))"
    using sameTasks_sub s1 wf by (auto simp: putSsn_def)
  have err: "subKept s0 (addTaskError ?t j x ssn1)" for j x
    using s1 sameTasks_sub [OF putJob_tasks s1] by (simp add: addTaskError_def split: option.split)
  have "goodAttempt s0 r s (allocateOnNodes ae r b hosts (putSsn ssn2 s))"
    using allocateOnNodes_good [OF s2(2,1)] by (simp add: goodAttempt_putSsn)
  then show ?thesis
    using goodAttempt_fail [OF wf sub] goodAttempt_fail [OF wf err] p o1 by (cases e) (auto simp: allocateTask_def Let_def putSsn_def)
qed

end

subsection \<open>Levels of the tree\<close>

text \<open>What every level leaves, and what a level that rolls back its failed attempts leaves in addition.\<close>

definition levelDone :: "('aff, 'p) Session \<Rightarrow> taskRef list \<Rightarrow> ('aff, 'p) alloc_state \<Rightarrow> bool \<Rightarrow> ('aff, 'p) alloc_state \<Rightarrow> bool" where
  "levelDone s0 tasks st ok st' \<longleftrightarrow>
     extendsLog (as_stmt st) (as_stmt st') \<and> subKept s0 (stmt_ssn (as_stmt st')) \<and>
     (\<exists>errs. as_rollbackErrs st' = as_rollbackErrs st @ errs) \<and>
     (ok \<longrightarrow> (\<forall>r\<in>set tasks. placedAfter (length (operations (as_stmt st))) (operations (as_stmt st')) r))"

definition undoesFailure :: "('aff, 'p) alloc_state \<Rightarrow> bool \<Rightarrow> ('aff, 'p) alloc_state \<Rightarrow> bool" where
  "undoesFailure st ok st' \<longleftrightarrow>
     (\<not> ok \<and> as_rollbackErrs st' = as_rollbackErrs st \<longrightarrow> operations (as_stmt st') = operations (as_stmt st))"

definition ready :: "('aff, 'p) Session \<Rightarrow> ('aff, 'p) alloc_state \<Rightarrow> bool" where
  "ready s0 st \<longleftrightarrow> wf_ops (operations (as_stmt st)) \<and> subKept s0 (stmt_ssn (as_stmt st))"

definition doesLevel ::
  "('aff, 'p) Session \<Rightarrow> taskRef list \<Rightarrow> (('aff, 'p) alloc_state \<Rightarrow> (bool \<times> ('aff, 'p) alloc_state) option) \<Rightarrow> bool" where
  "doesLevel s0 tasks f \<longleftrightarrow> (\<forall>st. ready s0 st \<longrightarrow> (\<exists>ok st'. f st = Some (ok, st') \<and> levelDone s0 tasks st ok st'))"

lemma doesLevelE:
  assumes "doesLevel s0 tasks f" and "ready s0 st"
  obtains ok st' where "f st = Some (ok, st')" "levelDone s0 tasks st ok st'"
  using assms by (auto simp: doesLevel_def)

lemma levelDone_ready: "levelDone s0 tasks st ok st' \<Longrightarrow> ready s0 st'"
  by (simp add: levelDone_def ready_def extendsLog_def)

lemma levelDone_idle: "ready s0 st \<Longrightarrow> \<not> ok \<or> tasks = [] \<Longrightarrow> levelDone s0 tasks st ok st"
  by (auto simp: levelDone_def ready_def extendsLog_def)

lemma levelDone_trans:
  assumes a: "levelDone s0 ts st ok st1" and b: "levelDone s0 us st1 ok' st2" and c: "ok' \<Longrightarrow> set vs \<subseteq> set us \<or> ok \<and> set vs \<subseteq> set ts \<union> set us"
  shows "levelDone s0 vs st ok' st2"
proof -
  have ext: "extendsLog (as_stmt st) (as_stmt st1)" "extendsLog (as_stmt st1) (as_stmt st2)" using a b by (auto simp: levelDone_def)
  then obtain rest where rest: "operations (as_stmt st2) = operations (as_stmt st1) @ rest"
      and len: "length (operations (as_stmt st)) \<le> length (operations (as_stmt st1))" by (auto simp: extendsLog_def)
  have "placedAfter (length (operations (as_stmt st))) (operations (as_stmt st2)) r" if ok': ok' and r: "r \<in> set vs" for r
  proof (cases "r \<in> set us")
    case True
    then show ?thesis using b ok' placedAfter_mono [OF _ len] by (simp add: levelDone_def)
  next
    case False
    then have "ok" "r \<in> set ts" using c [OF ok'] r by auto
    then show ?thesis using a placedAfter_append unfolding rest levelDone_def by blast
  qed
  then show ?thesis using a b extendsLog_trans [OF ext] by (auto simp: levelDone_def)
qed

lemma levelDone_putSsn: "levelDone s0 ts (putStmt (putSsn ssn (as_stmt st)) st) ok st' \<longleftrightarrow> levelDone s0 ts st ok st'"
    "undoesFailure (putStmt (putSsn ssn (as_stmt st)) st) ok st' \<longleftrightarrow> undoesFailure st ok st'"
  by (simp_all add: levelDone_def undoesFailure_def putStmt_def putSsn_def extendsLog_def)

lemma ready_putSsn: "ready s0 st \<Longrightarrow> subKept s0 ssn \<Longrightarrow> ready s0 (putStmt (putSsn ssn (as_stmt st)) st)"
  by (simp add: ready_def putStmt_def putSsn_def)

lemma membersLoop_level:
  assumes "\<forall>m\<in>set ms. doesLevel s0 (T m) (f m)" and "ready s0 st"
  shows "\<exists>ok st'. membersLoop f ms st = Some (ok, st') \<and> levelDone s0 (concat (map T ms)) st ok st'"
  using assms
proof (induction ms arbitrary: st)
  case Nil
  then show ?case using levelDone_idle [of s0 st True "[]"] by fastforce
next
  case (Cons m ms)
  obtain ok st1 where f: "f m st = Some (ok, st1)" "levelDone s0 (T m) st ok st1"
    by (rule doesLevelE [of s0 "T m" "f m" st]) (use Cons.prems in simp_all)
  show ?case
  proof (cases ok)
    case True
    obtain ok' st2 where l: "membersLoop f ms st1 = Some (ok', st2)" "levelDone s0 (concat (map T ms)) st1 ok' st2"
      using Cons.IH [OF _ levelDone_ready [OF f(2)]] Cons.prems(1) by auto
    have "levelDone s0 (concat (map T (m # ms))) st ok' st2" by (rule levelDone_trans [OF f(2) l(2)]) (simp add: True)
    then show ?thesis using f(1) l(1) True by simp
  next
    case False
    then have "levelDone s0 (concat (map T (m # ms))) st False st1" using f(2) by (simp add: levelDone_def)
    moreover have "membersLoop f (m # ms) st = Some (False, st1)" using f(1) False by simp
    ultimately show ?thesis by blast
  qed
qed

context session_handlers
begin

lemma Rollback_level:
  assumes "ready s0 st" and "levelDone s0 ts st False st1" 
  obtains err s where "Rollback env (as_stmt st1) (stmt_Checkpoint (as_stmt st)) = Some (err, s)"
    "levelDone s0 [] st False \<lparr>as_stmt = s, as_rollbackErrs = as_rollbackErrs st1 @ (case err of None \<Rightarrow> [] | Some e \<Rightarrow> [e])\<rparr>"
    "err = None \<Longrightarrow> operations s = operations (as_stmt st)"
proof -
  let ?ops = "operations (as_stmt st)" and ?s1 = "as_stmt st1"
  from assms(2) obtain rest where rest: "operations ?s1 = ?ops @ rest" and wf: "wf_ops (operations ?s1)" and sub: "subKept s0 (stmt_ssn ?s1)"
    and errs: "\<exists>es. as_rollbackErrs st1 = as_rollbackErrs st @ es"
    by (auto simp: levelDone_def extendsLog_def)
  obtain err s2 where loop: "rollbackLoop env (length ?ops) (length (operations ?s1)) ?s1 = Some (err, s2)" "extendsLog ?s1 s2"
    using rollbackLoop_returns [OF wf order_refl] by blast
  obtain rest2 where ops2: "operations s2 = ?ops @ rest @ rest2" "wf_ops (operations s2)" using loop(2) rest by (auto simp: extendsLog_def)
  define s where "s = (if err = None then s2\<lparr>operations := ?ops\<rparr> else s2)"
  have roll: "Rollback env ?s1 (stmt_Checkpoint (as_stmt st)) = Some (err, s)"
    using loop(1) ops2 by (auto simp: Rollback_def stmt_Checkpoint_def rest s_def split: option.split)
  have "subKept s0 (stmt_ssn s)" using Rollback_sub [OF roll sub] .
  moreover have "wf_ops (operations s)" using ops2 assms(1) by (simp add: s_def ready_def)
  ultimately show ?thesis
    using that [OF roll] ops2(1) errs by (auto simp: levelDone_def extendsLog_def s_def)
qed

lemma tryNodeSets_level:
  assumes "\<forall>ns. doesLevel s0 ts (f ns)" and "ready s0 st"
  shows "\<exists>ok st'. tryNodeSets env f nss st = Some (ok, st') \<and> levelDone s0 ts st ok st' \<and> undoesFailure st ok st'"
  using assms(2)
proof (induction nss arbitrary: st)
  case Nil
  then show ?case using levelDone_idle [of s0 st False ts] by (fastforce simp: undoesFailure_def)
next
  case (Cons ns nss)
  obtain ok st1 where f: "f ns st = Some (ok, st1)" "levelDone s0 ts st ok st1"
    by (rule doesLevelE [of s0 ts "f ns" st]) (use assms(1) Cons.prems in simp_all)
  show ?case
  proof (cases ok)
    case True
    then have "tryNodeSets env f (ns # nss) st = Some (True, st1)" using f by simp
    then show ?thesis using f True by (auto simp: undoesFailure_def simp del: tryNodeSets.simps)
  next
    case False
    with f obtain err s where roll: "Rollback env (as_stmt st1) (stmt_Checkpoint (as_stmt st)) = Some (err, s)"
      "levelDone s0 [] st False \<lparr>as_stmt = s, as_rollbackErrs = as_rollbackErrs st1 @ (case err of None \<Rightarrow> [] | Some e \<Rightarrow> [e])\<rparr>"
      (is "levelDone s0 [] st False ?st2") "err = None \<Longrightarrow> operations s = operations (as_stmt st)"
      using Rollback_level [OF Cons.prems] by metis
    obtain ok' st3 where IH: "tryNodeSets env f nss ?st2 = Some (ok', st3)" "levelDone s0 ts ?st2 ok' st3" "undoesFailure ?st2 ok' st3"
      using Cons.IH [OF levelDone_ready [OF roll(2)]] by blast
    have "levelDone s0 ts st ok' st3" using levelDone_trans [OF roll(2) IH(2)] by simp
    moreover have "undoesFailure st ok' st3"
      using IH(2,3) roll(3) f(2) by (cases err) (auto simp: undoesFailure_def levelDone_def)
    ultimately show ?thesis using f(1) False roll(1) IH(1) by simp
  qed
qed

end
context quiet_plugins
begin

lemma allocateTasksOnNodeSet_level:
  assumes "wf_ops (operations s)" and "subKept s0 (stmt_ssn s)"
  shows "\<exists>ok s'. allocateTasksOnNodeSet ae nodes jobID b i tasks s = Some (ok, s') \<and> extendsLog s s' \<and> subKept s0 (stmt_ssn s') \<and>
    (ok \<longrightarrow> (\<forall>r\<in>set tasks. placedAfter (length (operations s)) (operations s') r))"
  using assms
proof (induction tasks arbitrary: i s)
  case Nil
  then show ?case by (fastforce simp: extendsLog_refl)
next
  case (Cons r tasks)
  obtain ok s1 where t: "allocateTask ae nodes r b s = Some (ok, s1)" "placesOrKeeps r s ok s1" "subKept s0 (stmt_ssn s1)"
    using allocateTask_good [OF Cons.prems, of r nodes b] unfolding goodAttempt_def by blast
  have ext: "extendsLog s s1" using t(2) by (simp add: placesOrKeeps_def)
  then have wf: "wf_ops (operations s1)" and len: "length (operations s) \<le> length (operations s1)" by (auto simp: extendsLog_def)
  show ?case
  proof (cases ok)
    case False
    define s2 where "s2 = (case map_of (ssn_PodGroupInfos (stmt_ssn s1)) jobID of None \<Rightarrow> s1
      | Some job \<Rightarrow> putSsn (putJob jobID (handleFailedTaskAllocation (ssn_task (stmt_ssn s1) r) i job) (stmt_ssn s1)) s1)"
    have "operations s2 = operations s1" "subKept s0 (stmt_ssn s2)"
      using t(3) sameTasks_sub [OF putJob_tasks t(3)] by (auto simp: s2_def putSsn_def split: option.split)
    moreover have "allocateTasksOnNodeSet ae nodes jobID b i (r # tasks) s = Some (False, s2)" using t(1) False by (simp add: s2_def)
    moreover have "extendsLog s s2" using ext \<open>operations s2 = operations s1\<close> by (simp add: extendsLog_def)
    ultimately show ?thesis by blast
  next
    case True
    obtain ok' s2 where IH: "allocateTasksOnNodeSet ae nodes jobID b (Suc i) tasks s1 = Some (ok', s2)" "extendsLog s1 s2" "subKept s0 (stmt_ssn s2)"
      "ok' \<longrightarrow> (\<forall>r\<in>set tasks. placedAfter (length (operations s1)) (operations s2) r)" using Cons.IH [OF wf t(3)] by blast
    have "placedAfter (length (operations s)) (operations s2) r"
      using t(2) True IH(2) placedAfter_append [of "length (operations s)" "operations s1" r] by (auto simp: placesOrKeeps_def extendsLog_def)
    then show ?thesis
      using IH t(1) True extendsLog_trans [OF ext IH(2)] placedAfter_mono [OF _ len] by simp
  qed
qed

lemma allocatePodSet_level:
  assumes "ready s0 st"
  shows "\<exists>ok st'. allocatePodSet ae nodes jobID podSet tasks b st = Some (ok, st') \<and> levelDone s0 tasks st ok st' \<and> undoesFailure st ok st'"
proof (cases "tasks = []")
  case True
  then show ?thesis using levelDone_idle [OF assms, of True tasks] by (fastforce simp: allocatePodSet_def undoesFailure_def)
next
  case False
  let ?put = "\<lambda>ssn. putStmt (putSsn ssn (as_stmt st)) st"
  obtain res ssn1 where n: "SubsetNodesFn ae jobID podSet [podSet] tasks nodes (stmt_ssn (as_stmt st)) = (res, ssn1)" by fastforce
  have sub: "subKept s0 ssn1" using sameTasks_sub [OF plugin_calls(3)] assms n unfolding ready_def by (metis snd_conv)
  note put = ready_putSsn [OF assms sub]
  have tries: "doesLevel s0 tasks (\<lambda>st. map_option (\<lambda>(success, s). (success, putStmt s st))
      (allocateTasksOnNodeSet ae ns jobID b 0 tasks (as_stmt st)))" for ns
    unfolding doesLevel_def
  proof (intro allI impI)
    fix st :: "('aff, 'p) alloc_state"
    assume "ready s0 st"
    then show "\<exists>ok st'. map_option (\<lambda>(success, s). (success, putStmt s st)) (allocateTasksOnNodeSet ae ns jobID b 0 tasks (as_stmt st)) = Some (ok, st')
        \<and> levelDone s0 tasks st ok st'"
      using allocateTasksOnNodeSet_level [of "as_stmt st" s0 ns jobID b 0 tasks] by (auto simp: ready_def levelDone_def putStmt_def)
  qed
  show ?thesis
  proof (cases res)
    case (Inl e)
    have "levelDone s0 tasks st False (?put ssn1)" using levelDone_idle [OF put] by (simp only: levelDone_putSsn simp_thms)
    moreover have "undoesFailure st False (?put ssn1)" by (simp add: undoesFailure_def putStmt_def putSsn_def)
    moreover have "allocatePodSet ae nodes jobID podSet tasks b st = Some (False, ?put ssn1)" using False n Inl by (simp add: allocatePodSet_def)
    ultimately show ?thesis by blast
  next
    case (Inr nss)
    have "\<forall>ns. doesLevel s0 tasks (\<lambda>st. map_option (\<lambda>(success, s). (success, putStmt s st)) (allocateTasksOnNodeSet ae ns jobID b 0 tasks (as_stmt st)))"
      using tries by blast
    from tryNodeSets_level [OF this put, of nss] show ?thesis using False n Inr by (simp add: allocatePodSet_def levelDone_putSsn)
  qed
qed

end

definition inSubtree :: "('aff, 'p) Session \<Rightarrow> string list \<Rightarrow> taskRef list \<Rightarrow> bool" where
  "inSubtree s0 names tasks \<longleftrightarrow> (\<forall>r\<in>set tasks. r < ssn_next s0 \<and> taskSubGroup (ssn_task s0 r) \<in> set names)"

definition memberTasks :: "('aff, 'p) Session \<Rightarrow> taskRef list \<Rightarrow> string SubGroupMember \<Rightarrow> taskRef list" where
  "memberTasks s0 tasks m = filterTasksForPodSets (member_leaves m) s0 tasks"

lemma filterTasks_kept: "inSubtree s0 names tasks \<Longrightarrow> subKept s0 ssn \<Longrightarrow> filterTasksForPodSets ps ssn tasks = filterTasksForPodSets ps s0 tasks"
  unfolding filterTasksForPodSets_def by (rule filter_cong) (auto simp: inSubtree_def subKept_def taskSubGroup_def)

lemma memberTasks_in: "inSubtree s0 names tasks \<Longrightarrow> inSubtree s0 (member_leaves m) (memberTasks s0 tasks m)"
  by (auto simp: inSubtree_def memberTasks_def filterTasksForPodSets_def)

lemma memberTasks_all:
  assumes "inSubtree s0 (leaves g) tasks" and "set ms = set (GetMembers g)"
  shows "set tasks \<subseteq> set (concat (map (memberTasks s0 tasks) ms))"
  using assms by (auto simp: inSubtree_def leaves_members memberTasks_def filterTasksForPodSets_def)

context quiet_plugins
begin

lemma allocateSubGroupSet_level:
  assumes "ready s0 st" and "inSubtree s0 (leaves g) tasks"
  shows "\<exists>ok st'. allocateSubGroupSet ae jobID b g nodes tasks st = Some (ok, st') \<and> levelDone s0 tasks st ok st' \<and> undoesFailure st ok st'"
  using assms
proof (induction g arbitrary: nodes tasks st rule: SubGroupSet_member_induct)
  case (node g)
  let ?put = "\<lambda>ssn. putStmt (putSsn ssn (as_stmt st)) st"
  let ?names = "subtreePodSetsContainingTasks g (stmt_ssn (as_stmt st)) tasks"
  let ?member = "\<lambda>ns member st. case member of
        PodSetMember podSet \<Rightarrow> allocatePodSet ae ns jobID podSet (filterTasksForPodSets [podSet] (stmt_ssn (as_stmt st)) tasks) b st
      | GroupMember subGroup \<Rightarrow> allocateSubGroupSet ae jobID b subGroup ns (filterTasksForPodSets (leaves subGroup) (stmt_ssn (as_stmt st)) tasks) st"
  let ?attempt = "\<lambda>ns st. membersLoop (?member ns) (orderedMembers ae jobID g (stmt_ssn (as_stmt st))) st"
  obtain res ssn1 where n: "SubsetNodesFn ae jobID (sgs_name g) ?names tasks nodes (stmt_ssn (as_stmt st)) = (res, ssn1)" by fastforce
  have sub: "subKept s0 ssn1" using sameTasks_sub [OF plugin_calls(3)] node.prems(1) n unfolding ready_def by (metis snd_conv)
  note put = ready_putSsn [OF node.prems(1) sub]
  have member: "doesLevel s0 (memberTasks s0 tasks m) (?member ns m)" if m: "m \<in> set (GetMembers g)" for m ns
    unfolding doesLevel_def
  proof (intro allI impI)
    fix st :: "('aff, 'p) alloc_state"
    assume r: "ready s0 st"
    then have same: "filterTasksForPodSets (member_leaves m) (stmt_ssn (as_stmt st)) tasks = memberTasks s0 tasks m"
      using filterTasks_kept [OF node.prems(2)] unfolding ready_def memberTasks_def by blast
    show "\<exists>ok st'. ?member ns m st = Some (ok, st') \<and> levelDone s0 (memberTasks s0 tasks m) st ok st'"
    proof (cases m)
      case (PodSetMember ps)
      then show ?thesis using allocatePodSet_level [OF r] same by (metis (no_types, lifting) SubGroupMember.simps(6) member_leaves.simps(2))
    next
      case (GroupMember h)
      have "inSubtree s0 (leaves h) (memberTasks s0 tasks m)" using memberTasks_in [OF node.prems(2), of m] GroupMember by simp
      then show ?thesis using node.IH [OF m [unfolded GroupMember] r, of "memberTasks s0 tasks m" ns] same GroupMember
        by (metis (no_types, lifting) SubGroupMember.simps(5) member_leaves.simps(1))
    qed
  qed
  have tries: "doesLevel s0 tasks (?attempt ns)" for ns
    unfolding doesLevel_def
  proof (intro allI impI)
    fix st :: "('aff, 'p) alloc_state"
    assume r: "ready s0 st"
    let ?ms = "orderedMembers ae jobID g (stmt_ssn (as_stmt st))"
    have "\<forall>m\<in>set ?ms. doesLevel s0 (memberTasks s0 tasks m) (?member ns m)" using member by (simp add: orderedMembers_set)
    from membersLoop_level [OF this r] obtain ok st'
      where l: "?attempt ns st = Some (ok, st')" "levelDone s0 (concat (map (memberTasks s0 tasks) ?ms)) st ok st'" by blast
    have "levelDone s0 tasks st ok st'"
      using l(2) memberTasks_all [OF node.prems(2) orderedMembers_set [of ae jobID g "stmt_ssn (as_stmt st)"]] by (auto simp: levelDone_def)
    then show "\<exists>ok st'. ?attempt ns st = Some (ok, st') \<and> levelDone s0 tasks st ok st'" using l(1) by blast
  qed
  show ?case
  proof (cases "tasks = []")
    case True
    then show ?thesis using levelDone_idle [OF node.prems(1), of True tasks] by (fastforce simp: undoesFailure_def)
  next
    case False
    show ?thesis
    proof (cases res)
      case (Inl e)
      have "levelDone s0 tasks st False (?put ssn1)" using levelDone_idle [OF put] by (simp only: levelDone_putSsn simp_thms)
      moreover have "undoesFailure st False (?put ssn1)" by (simp add: undoesFailure_def putStmt_def putSsn_def)
      moreover have "allocateSubGroupSet ae jobID b g nodes tasks st = Some (False, ?put ssn1)" using False n Inl by simp
      ultimately show ?thesis by blast
    next
      case (Inr nss)
      have "allocateSubGroupSet ae jobID b g nodes tasks st = tryNodeSets (ae_ssn ae) ?attempt nss (?put ssn1)"
        using False n Inr by simp
      then show ?thesis using tryNodeSets_level [of s0 tasks ?attempt "?put ssn1" nss] tries put by (simp add: levelDone_putSsn)
    qed
  qed
qed

end

subsection \<open>A job\<close>

text \<open>The tasks an attempt selects, the job and the session it then works on.\<close>

definition selectedTasks ::
  "('aff, 'p, 'q) alloc_env \<Rightarrow> string \<Rightarrow> TaskAllocationMode \<Rightarrow> ('aff, 'p) Session \<Rightarrow> (taskRef list \<times> PodGroupInfo \<times> ('aff, 'p) Session) option" where
  "selectedTasks ae jobID mode ssn =
     (let ssn = PreJobAllocation ae jobID ssn
      in case map_of (ssn_PodGroupInfos ssn) jobID of
           None \<Rightarrow> None
         | Some job \<Rightarrow>
             let (tasks, job) = GetTasksToAllocate (of_subGroupOrderFn (ae_orders ae)) (of_taskOrderFn (ae_orders ae)) mode job;
                 (rs, ssn) = holdTasks tasks (putJob jobID job ssn)
             in Some (rs, job, ssn))"

lemma AllocateJob_selected:
  assumes "selectedTasks ae jobID mode (stmt_ssn (as_stmt st)) = Some (tasks, job, ssn)"
    and "\<not> Job_IsResizeStandIn job" and "RootSubGroupSet job = Some g"
  shows "AllocateJob ae nodes jobID mode st =
    (let put = (\<lambda>ssn. putStmt (putSsn ssn (as_stmt st)) st); sim = (mode \<noteq> RealTaskAllocation);
         (result, ssn2) = IsJobOverQueueCapacityFn ae jobID tasks ssn
     in if tasks = [] then Some (False, put ssn)
        else if \<not> IsSchedulable result
        then Some (False, put (if sim then ssn2 else case map_of (ssn_PodGroupInfos ssn2) jobID of
               None \<Rightarrow> ssn2 | Some job \<Rightarrow> putJob jobID (overCapacityError result job) ssn2))
        else allocateSubGroupSet ae jobID sim g nodes tasks (put ssn2))"
proof -
  let ?ssn = "PreJobAllocation ae jobID (stmt_ssn (as_stmt st))"
  let ?sel = "GetTasksToAllocate (of_subGroupOrderFn (ae_orders ae)) (of_taskOrderFn (ae_orders ae)) mode"
  obtain job0 where job0: "map_of (ssn_PodGroupInfos ?ssn) jobID = Some job0"
    using assms(1) by (auto simp: selectedTasks_def Let_def split: option.splits)
  obtain ts job1 where ts: "?sel job0 = (ts, job1)" by fastforce
  have "job1 = job" and hold: "holdTasks ts (putJob jobID job ?ssn) = (tasks, ssn)"
    using assms(1) job0 ts by (auto simp: selectedTasks_def Let_def split: prod.splits)
  then have ts': "?sel job0 = (ts, job)" using ts by simp
  show ?thesis
    unfolding AllocateJob_def Let_def job0 option.case ts' prod.case hold assms(3) using assms(2)
    by (cases "IsJobOverQueueCapacityFn ae jobID tasks ssn") (simp only: prod.case if_False)
qed

context quiet_plugins
begin

lemma AllocateJob_level:
  assumes wf: "wf_ops (operations (as_stmt st))"
    and sel: "selectedTasks ae jobID mode (stmt_ssn (as_stmt st)) = Some (tasks, job, ssn)" "\<not> Job_IsResizeStandIn job" "RootSubGroupSet job = Some g"
    and tree: "inSubtree ssn (leaves g) tasks"
  shows "\<exists>ok st'. AllocateJob ae nodes jobID mode st = Some (ok, st') \<and> levelDone ssn tasks st ok st' \<and> undoesFailure st ok st' \<and> (ok \<longrightarrow> tasks \<noteq> [])"
proof -
  let ?put = "\<lambda>ssn. putStmt (putSsn ssn (as_stmt st)) st"
  obtain result ssn2 where cap: "IsJobOverQueueCapacityFn ae jobID tasks ssn = (result, ssn2)" by fastforce
  have sub: "subKept ssn ssn2" using sameTasks_sub [OF plugin_calls(2) subKept_refl] cap by (metis snd_conv)
  have put: "ready ssn (?put x)" if "subKept ssn x" for x using wf that by (simp add: ready_def putStmt_def putSsn_def)
  have fail: "\<exists>ok st'. Some (False, ?put x) = Some (ok, st') \<and> levelDone ssn tasks st ok st' \<and> undoesFailure st ok st' \<and> (ok \<longrightarrow> tasks \<noteq> [])"
    if "subKept ssn x" for x
  proof -
    have "levelDone ssn tasks st False (?put x)" using levelDone_idle [OF put [OF that]] by (simp only: levelDone_putSsn simp_thms)
    moreover have "undoesFailure st False (?put x)" by (simp add: undoesFailure_def putStmt_def putSsn_def)
    ultimately show ?thesis by blast
  qed
  define ssn3 where "ssn3 = (if mode \<noteq> RealTaskAllocation then ssn2 else case map_of (ssn_PodGroupInfos ssn2) jobID of
               None \<Rightarrow> ssn2 | Some job \<Rightarrow> putJob jobID (overCapacityError result job) ssn2)"
  have over: "subKept ssn ssn3" using sub sameTasks_sub [OF putJob_tasks sub] by (simp add: ssn3_def split: option.split)
  have job: "AllocateJob ae nodes jobID mode st =
      (if tasks = [] then Some (False, ?put ssn) else if \<not> IsSchedulable result then Some (False, ?put ssn3)
       else allocateSubGroupSet ae jobID (mode \<noteq> RealTaskAllocation) g nodes tasks (?put ssn2))"
    unfolding AllocateJob_selected [OF sel] cap ssn3_def Let_def by (simp only: prod.case)
  consider "tasks = []" | "tasks \<noteq> []" "\<not> IsSchedulable result" | "tasks \<noteq> []" "IsSchedulable result" by blast
  then show ?thesis
  proof cases
    case 3
    then show ?thesis
      using allocateSubGroupSet_level [OF put [OF sub] tree, of jobID "mode \<noteq> RealTaskAllocation" nodes]
      unfolding job levelDone_putSsn by (simp only: if_False simp_thms if_True)
  qed (use fail [OF subKept_refl] fail [OF over] in \<open>simp_all only: job if_True if_False simp_thms\<close>)
qed

end

text \<open>The proportion plugin together with the plugins that score nodes: its handlers, its capacity check, their scores. A queue that
  is missing makes the check of the code dereference a nil pointer; here it is read as schedulable.\<close>

definition kaiHandler :: "('aff, nodePlacementPlugin \<times> proportionPlugin option) EventHandler" where
  "kaiHandler =
     \<lparr>AllocateFunc = Some (\<lambda>ssn t. (apsnd (\<lambda>pp. Option.bind pp (allocateHandlerFn (ssn_PodGroupInfos ssn) t)) (ssn_plugins ssn), t)),
      DeallocateFunc = Some (\<lambda>ssn t. (apsnd (\<lambda>pp. Option.bind pp (deallocateHandlerFn (ssn_PodGroupInfos ssn) t)) (ssn_plugins ssn), t))\<rparr>"

definition kaiCapacity ::
  "resource_consts \<Rightarrow> formats \<Rightarrow> int option \<Rightarrow> ('aff, nodePlacementPlugin \<times> proportionPlugin option) Session \<Rightarrow> string \<Rightarrow> taskRef list \<Rightarrow> SchedulableResult" where
  "kaiCapacity rc fm maxMemory ssn jobID tasks =
     (case Option.bind (snd (ssn_plugins ssn)) (\<lambda>pp. Option.bind (map_of (ssn_PodGroupInfos ssn) jobID) (\<lambda>job.
             IsJobOverQueueCapacity rc fm (- 1) \<lparr>cp_queues = pp_queues pp, maxNodeGPUMemoryMiB = maxMemory\<rparr> job (map (ssn_task ssn) tasks))) of
        None \<Rightarrow> Schedulable | Some result \<Rightarrow> result)"

definition kaiAlloc ::
  "'aff node_env \<Rightarrow> (cacheCall list \<Rightarrow> PodInfo \<Rightarrow> string option) \<Rightarrow> (cacheCall list \<Rightarrow> PodInfo \<Rightarrow> string \<Rightarrow> string option) \<Rightarrow> 'q fit_env \<Rightarrow> formats \<Rightarrow>
     int option \<Rightarrow> (PodInfo \<Rightarrow> string) \<Rightarrow> (('aff, nodePlacementPlugin \<times> proportionPlugin option) Session \<Rightarrow> string) \<Rightarrow> int \<Rightarrow> OrderFns \<Rightarrow>
     ('aff, nodePlacementPlugin \<times> proportionPlugin option, 'q) alloc_env" where
  "kaiAlloc ne cacheEvict cacheBind fe fm maxMemory nominatedNodeName uuid workers fns =
     \<lparr>ae_ssn = \<lparr>se_node = ne, eventHandlers = [kaiHandler], BindRequestMutateFns = [], cache_Evict = cacheEvict, cache_Bind = cacheBind, se_now = 0\<rparr>,
      ae_fit = fe, PreJobAllocationFns = [], IsJobOverCapacityFns = [\<lambda>ssn job tasks. (kaiCapacity (ne_rc ne) fm maxMemory ssn job tasks, ssn)],
      SubsetNodesFns = [], PrePredicateFns = [], PredicateFns = [], NodePreOrderFns = nodePreOrderFns ne,
      NodeOrderFns = nodeOrderFns ne nominatedNodeName, GpuOrderFns = [\<lambda>ssn. gpupack_gpuOrderFn], NumaPlacementFn = None,
      NewUUID = (\<lambda>ssn. (uuid ssn, ssn)), scoringPoolWorkerCount = workers, ae_orders = fns\<rparr>"

lemma kaiAlloc_quiet:
  "handlersKeep (ae_ssn (kaiAlloc ne ce cb fe fm mm nominated uuid w fns))" "pluginsLeaveTasks (kaiAlloc ne ce cb fe fm mm nominated uuid w fns)"
  by (auto simp: kaiAlloc_def handlersKeep_def kaiHandler_def pluginsLeaveTasks_def nodePreOrderFns_def sameTasks_def)

interpretation kai_plugins: quiet_plugins "kaiAlloc ne ce cb fe fm mm nominated uuid w fns" for ne ce cb fe fm mm nominated uuid w fns
  by unfold_locales (rule kaiAlloc_quiet)+


abbreviation exampleAlloc :: "(string list, nodePlacementPlugin \<times> proportionPlugin option, int) alloc_env" where
  "exampleAlloc \<equiv> kaiAlloc exampleEnv (\<lambda>_ _. None) (\<lambda>_ _ _. None) exampleFit \<lparr>FtoaWithDigits3 = (\<lambda>_. []), fmt_v = (\<lambda>_. [])\<rparr> None
     (\<lambda>_. []) (\<lambda>_. ''c8a3'') 4 exampleFns"

abbreviation exampleStart :: "(string list, nodePlacementPlugin \<times> proportionPlugin option) Session" where
  "exampleStart \<equiv> twoNodes (nodeplacement_New [], Some examplePlugin)"

definition exampleSelected :: "(taskRef list \<times> bool \<times> string list option \<times> nat \<times> string list) option" where
  "exampleSelected =
     map_option (\<lambda>(rs, job, ssn). (rs, Job_IsResizeStandIn job, map_option leaves (RootSubGroupSet job), ssn_next ssn, map (\<lambda>r. taskSubGroup (ssn_task ssn r)) rs))
       (selectedTasks exampleAlloc ''job'' RealTaskAllocation exampleStart)"


end
