(* ===== verification/Min_Runtime.thy ===== *)
theory Min_Runtime
  imports Proportion
begin

text \<open>
  The plugin that protects jobs for a minimal run time, \<^verbatim>\<open>plugins/minruntime\<close>: the resolver that finds the time that holds
  between two queues, with its caches, the filters of victims and the checks of scenarios. Times are numbers, \<open>now\<close> is the
  clock and \<open>zeroTime\<close> the zero value of a time; \<open>None\<close> stands for a call that does not return (a cycle of parents) or that
  dereferences a missing pod set or, outside a session, the missing resolver.

  The lemmas show that the time for a reclaim is that of the nearest queue with one, from the child of the lowest common
  ancestor upwards, that the caches do not change any answer, and what a job keeps that is still protected.
\<close>

subsection \<open>The resolver\<close>

record resolver =
  preemptMinRuntimeCache :: "(QueueID, int) gomap"
  reclaimMinRuntimeCache :: "(QueueID, (QueueID, int) gomap) gomap"
  defaultPreemptMinRuntime :: int
  defaultReclaimMinRuntime :: int
  res_queues :: "(QueueID, QueueInfo) gomap"

definition NewResolver :: "(QueueID, QueueInfo) gomap \<Rightarrow> int \<Rightarrow> int \<Rightarrow> resolver" where
  "NewResolver queues defaultPreempt defaultReclaim =
     \<lparr>preemptMinRuntimeCache = [], reclaimMinRuntimeCache = [], defaultPreemptMinRuntime = defaultPreempt,
      defaultReclaimMinRuntime = defaultReclaim, res_queues = queues\<rparr>"

text \<open>The loop \<^verbatim>\<open>for currentQueue != nil\<close> from a queue to the top.\<close>

definition queueWalk :: "(QueueID, QueueInfo) gomap \<Rightarrow> (QueueInfo \<Rightarrow> 's \<Rightarrow> 's + 'r) \<Rightarrow> QueueInfo \<Rightarrow> 's \<Rightarrow> ('s + 'r) option" where
  "queueWalk queues body q s =
     (case body q s of
        Inr r \<Rightarrow> Some (Inr r)
      | Inl s \<Rightarrow> parentWalk (\<lambda>_. map_of queues) qi_ParentQueue (\<lambda>_. body) (qi_ParentQueue q) s)"

definition nearestOverride :: "(QueueID, QueueInfo) gomap \<Rightarrow> (QueueInfo \<Rightarrow> int option) \<Rightarrow> int \<Rightarrow> QueueInfo \<Rightarrow> int option" where
  "nearestOverride queues minRuntime dflt leafQueue =
     map_option (case_sum (\<lambda>_. dflt) (\<lambda>d. d))
       (queueWalk queues (\<lambda>q s. case minRuntime q of None \<Rightarrow> Inl s | Some d \<Rightarrow> Inr d) leafQueue ())"

definition cachePreemptMinRuntime :: "QueueInfo \<Rightarrow> int \<Rightarrow> resolver \<Rightarrow> resolver" where
  "cachePreemptMinRuntime leafQueue minRuntime r = r\<lparr>preemptMinRuntimeCache := AList.update (qi_UID leafQueue) minRuntime (preemptMinRuntimeCache r)\<rparr>"

definition cachedReclaim :: "resolver \<Rightarrow> QueueID \<Rightarrow> (QueueID, int) gomap" where
  "cachedReclaim r preemptor = (case map_of (reclaimMinRuntimeCache r) preemptor of None \<Rightarrow> [] | Some m \<Rightarrow> m)"

definition cacheReclaimMinRuntime :: "QueueInfo \<Rightarrow> QueueInfo \<Rightarrow> int \<Rightarrow> resolver \<Rightarrow> resolver" where
  "cacheReclaimMinRuntime preemptorQueue preempteeQueue minRuntime r =
     r\<lparr>reclaimMinRuntimeCache := AList.update (qi_UID preemptorQueue)
         (AList.update (qi_UID preempteeQueue) minRuntime (cachedReclaim r (qi_UID preemptorQueue))) (reclaimMinRuntimeCache r)\<rparr>"

definition resolvePreemptMinRuntime :: "resolver \<Rightarrow> QueueInfo \<Rightarrow> (int \<times> resolver) option" where
  "resolvePreemptMinRuntime r leafQueue =
     map_option (\<lambda>d. (d, cachePreemptMinRuntime leafQueue d r))
       (nearestOverride (res_queues r) qi_PreemptMinRuntime (defaultPreemptMinRuntime r) leafQueue)"

definition getPreemptMinRuntime :: "resolver \<Rightarrow> QueueInfo option \<Rightarrow> ((string + int) \<times> resolver) option" where
  "getPreemptMinRuntime r leafQueue =
     (case leafQueue of
        None \<Rightarrow> Some (Inl ''queue is nil'', r)
      | Some q \<Rightarrow>
          (case map_of (preemptMinRuntimeCache r) (qi_UID q) of
             Some d \<Rightarrow> Some (Inr d, r)
           | None \<Rightarrow> map_option (\<lambda>(d, r). (Inr d, r)) (resolvePreemptMinRuntime r q)))"

definition resolveReclaimMinRuntimeQueue :: "resolver \<Rightarrow> QueueInfo \<Rightarrow> QueueInfo \<Rightarrow> (int \<times> resolver) option" where
  "resolveReclaimMinRuntimeQueue r preemptorQueue preempteeQueue =
     map_option (\<lambda>d. (d, cacheReclaimMinRuntime preemptorQueue preempteeQueue d r))
       (nearestOverride (res_queues r) qi_ReclaimMinRuntime (defaultReclaimMinRuntime r) preempteeQueue)"

definition getQueueHierarchyPath :: "(QueueID, QueueInfo) gomap \<Rightarrow> QueueInfo \<Rightarrow> QueueInfo list option" where
  "getQueueHierarchyPath queues leafQueue =
     map_option (case_sum (\<lambda>path. path) (\<lambda>_ :: unit. [])) (queueWalk queues (\<lambda>q path. Inl (q # path)) leafQueue [])"

text \<open>The loop that looks for the lowest common ancestor, at index \<open>i\<close>, and the one that climbs from there.\<close>

fun lcaLoop :: "QueueInfo list \<Rightarrow> QueueInfo list \<Rightarrow> nat \<Rightarrow> nat \<Rightarrow> nat" where
  "lcaLoop (p # ps) (q # qs) i lcaIndex = (if qi_UID p \<noteq> qi_UID q then lcaIndex else lcaLoop ps qs (Suc i) i)"
| "lcaLoop _ _ i lcaIndex = lcaIndex"

fun overrideUp :: "QueueInfo list \<Rightarrow> nat \<Rightarrow> int option" where
  "overrideUp path i =
     (case qi_ReclaimMinRuntime (path ! i) of
        Some d \<Rightarrow> Some d
      | None \<Rightarrow> (case i of 0 \<Rightarrow> None | Suc j \<Rightarrow> overrideUp path j))"

definition lcaOverride :: "QueueInfo list \<Rightarrow> QueueInfo list \<Rightarrow> int option" where
  "lcaOverride preemptorPath preempteePath =
     (if qi_UID (hd preemptorPath) \<noteq> qi_UID (hd preempteePath) then qi_ReclaimMinRuntime (hd preempteePath)
      else let lcaIndex = lcaLoop preemptorPath preempteePath 0 0;
               lcaIndex = (if lcaIndex + 1 < length preempteePath then lcaIndex + 1 else lcaIndex)
           in overrideUp preempteePath lcaIndex)"

definition resolveReclaimMinRuntimeLCA :: "resolver \<Rightarrow> QueueInfo \<Rightarrow> QueueInfo \<Rightarrow> (int \<times> resolver) option" where
  "resolveReclaimMinRuntimeLCA r preemptorQueue preempteeQueue =
     Option.bind (getQueueHierarchyPath (res_queues r) preemptorQueue) (\<lambda>preemptorPath.
       Option.bind (getQueueHierarchyPath (res_queues r) preempteeQueue) (\<lambda>preempteePath.
         let d = (case lcaOverride preemptorPath preempteePath of None \<Rightarrow> defaultReclaimMinRuntime r | Some d \<Rightarrow> d)
         in Some (d, cacheReclaimMinRuntime preemptorQueue preempteeQueue d r)))"

definition resolveMethodLCA :: string where "resolveMethodLCA = ''lca''"
definition resolveMethodQueue :: string where "resolveMethodQueue = ''queue''"

definition getReclaimMinRuntime :: "string \<Rightarrow> resolver \<Rightarrow> QueueInfo option \<Rightarrow> QueueInfo option \<Rightarrow> ((string + int) \<times> resolver) option" where
  "getReclaimMinRuntime resolveMethod r preemptorQueue preempteeQueue =
     (case (preemptorQueue, preempteeQueue) of
        (None, _) \<Rightarrow> Some (Inl ''preemptorQueue is nil'', r)
      | (Some p, None) \<Rightarrow> Some (Inl ''preempteeQueue is nil'', r)
      | (Some p, Some q) \<Rightarrow>
          (case map_of (cachedReclaim r (qi_UID p)) (qi_UID q) of
             Some d \<Rightarrow> Some (Inr d, r)
           | None \<Rightarrow> map_option (\<lambda>(d, r). (Inr d, r))
               (if resolveMethod = resolveMethodLCA then resolveReclaimMinRuntimeLCA r p q else resolveReclaimMinRuntimeQueue r p q)))"

subsection \<open>The plugin\<close>

record minruntimePlugin =
  mr_defaultReclaim :: int
  mr_defaultPreempt :: int
  reclaimResolveMethod :: string
  mr_queues :: "(QueueID, QueueInfo) gomap"
  mr_resolver :: "resolver option"

text \<open>\<open>parseDuration\<close> is \<^verbatim>\<open>str2duration.ParseDuration\<close>; the second component tells whether an error was returned.\<close>

definition GetDuration :: "(string \<Rightarrow> int option) \<Rightarrow> PluginArguments \<Rightarrow> string \<Rightarrow> int \<Rightarrow> int \<times> bool" where
  "GetDuration parseDuration pa key defaultValue =
     (case map_of pa key of
        None \<Rightarrow> (defaultValue, False)
      | Some val \<Rightarrow> (case parseDuration val of None \<Rightarrow> (defaultValue, True) | Some parsed \<Rightarrow> (parsed, False)))"

definition parseMinRuntime :: "(string \<Rightarrow> int option) \<Rightarrow> PluginArguments \<Rightarrow> string \<Rightarrow> int" where
  "parseMinRuntime parseDuration arguments minRuntimeConfig =
     (let (minRuntime, err) = GetDuration parseDuration arguments minRuntimeConfig 0
      in if err then 0 else if minRuntime < 0 then 0 else minRuntime)"

definition minruntime_New :: "(string \<Rightarrow> int option) \<Rightarrow> PluginArguments \<Rightarrow> minruntimePlugin" where
  "minruntime_New parseDuration arguments =
     (let method = (case map_of arguments ''reclaimResolveMethod'' of None \<Rightarrow> [] | Some m \<Rightarrow> m);
          method = (if length method = 0 then resolveMethodLCA else method);
          method = (if method \<notin> set [resolveMethodLCA, resolveMethodQueue] then resolveMethodLCA else method)
      in \<lparr>mr_defaultReclaim = parseMinRuntime parseDuration arguments ''defaultReclaimMinRuntime'',
          mr_defaultPreempt = parseMinRuntime parseDuration arguments ''defaultPreemptMinRuntime'',
          reclaimResolveMethod = method, mr_queues = [], mr_resolver = None\<rparr>)"

definition minruntime_OnSessionOpen :: "(QueueID, QueueInfo) gomap \<Rightarrow> minruntimePlugin \<Rightarrow> minruntimePlugin" where
  "minruntime_OnSessionOpen queues mr = mr\<lparr>mr_queues := queues, mr_resolver := Some (NewResolver queues (mr_defaultPreempt mr) (mr_defaultReclaim mr))\<rparr>"

definition minruntime_OnSessionClose :: "minruntimePlugin \<Rightarrow> minruntimePlugin" where
  "minruntime_OnSessionClose mr = mr\<lparr>mr_queues := [], mr_resolver := None\<rparr>"

text \<open>The end of both tests: whether the victim started less than \<open>minRuntime\<close> ago.\<close>

definition protectedUntil :: "int \<Rightarrow> int \<Rightarrow> PodGroupInfo \<Rightarrow> int \<Rightarrow> bool" where
  "protectedUntil zeroTime now victim minRuntime =
     (case LastStartTimestamp victim of None \<Rightarrow> False | Some start \<Rightarrow> start \<noteq> zeroTime \<and> now < start + minRuntime)"

definition isReclaimMinRuntimeProtected ::
  "int \<Rightarrow> int \<Rightarrow> PodGroupInfo \<Rightarrow> PodGroupInfo \<Rightarrow> minruntimePlugin \<Rightarrow> (bool \<times> minruntimePlugin) option" where
  "isReclaimMinRuntimeProtected zeroTime now pendingJob victim mr =
     Option.bind (mr_resolver mr) (\<lambda>r. map_option (\<lambda>(res, r).
         (protectedUntil zeroTime now victim (case res of Inl _ \<Rightarrow> mr_defaultReclaim mr | Inr d \<Rightarrow> d), mr\<lparr>mr_resolver := Some r\<rparr>))
       (getReclaimMinRuntime (reclaimResolveMethod mr) r (map_of (mr_queues mr) (pg_Queue pendingJob))
          (map_of (mr_queues mr) (pg_Queue victim))))"

definition isPreemptMinRuntimeProtected ::
  "int \<Rightarrow> int \<Rightarrow> PodGroupInfo \<Rightarrow> PodGroupInfo \<Rightarrow> minruntimePlugin \<Rightarrow> (bool \<times> minruntimePlugin) option" where
  "isPreemptMinRuntimeProtected zeroTime now pendingJob victim mr =
     Option.bind (mr_resolver mr) (\<lambda>r. map_option (\<lambda>(res, r).
         (protectedUntil zeroTime now victim (case res of Inl _ \<Rightarrow> mr_defaultPreempt mr | Inr d \<Rightarrow> d), mr\<lparr>mr_resolver := Some r\<rparr>))
       (getPreemptMinRuntime r (map_of (mr_queues mr) (pg_Queue victim))))"

text \<open>The two filters and the two checks differ only in the test they use.\<close>

type_synonym protection = "PodGroupInfo \<Rightarrow> PodGroupInfo \<Rightarrow> minruntimePlugin \<Rightarrow> (bool \<times> minruntimePlugin) option"

definition minruntimeFilterFn :: "protection \<Rightarrow> PodGroupInfo \<Rightarrow> PodGroupInfo \<Rightarrow> minruntimePlugin \<Rightarrow> (bool \<times> minruntimePlugin) option" where
  "minruntimeFilterFn isProtected pendingJob victim mr =
     (if Job_IsElastic victim then Some (True, mr)
      else map_option (\<lambda>(protect, mr). (\<not> protect, mr)) (isProtected pendingJob victim mr))"

definition countVictims :: "PodInfo list \<Rightarrow> (string, int) gomap" where
  "countVictims tasks = fold (\<lambda>task m. AList.update (taskSubGroup task) (int32_of (gomap_get m (taskSubGroup task) + 1)) m) tasks []"

definition validVictimForMinAvailable :: "VictimInfo \<Rightarrow> bool option" where
  "validVictimForMinAvailable victim =
     (let counts = countVictims (vi_Tasks victim); podSets = PodSets (vi_Job victim)
      in if list_ex (\<lambda>(name, _). map_of podSets name = None) counts then None
         else Some (list_all (\<lambda>(name, numVictims). case map_of podSets name of
                None \<Rightarrow> True
              | Some ps \<Rightarrow> \<not> minAvailable ps > int32_of (int32_of (numActiveUsedTasks ps) - numVictims)) counts))"

fun scenarioLoop :: "protection \<Rightarrow> PodGroupInfo \<Rightarrow> VictimInfo list \<Rightarrow> minruntimePlugin \<Rightarrow> (bool \<times> minruntimePlugin) option" where
  "scenarioLoop isProtected preemptor [] mr = Some (True, mr)"
| "scenarioLoop isProtected preemptor (victim # victims) mr =
     (if \<not> Job_IsElastic (vi_Job victim) then scenarioLoop isProtected preemptor victims mr
      else Option.bind (isProtected preemptor (vi_Job victim) mr) (\<lambda>(protect, mr).
             if \<not> protect then scenarioLoop isProtected preemptor victims mr
             else Option.bind (validVictimForMinAvailable victim) (\<lambda>valid.
                    if \<not> valid then Some (False, mr) else scenarioLoop isProtected preemptor victims mr)))"

definition reclaimFilterFn :: "int \<Rightarrow> int \<Rightarrow> protection" where
  "reclaimFilterFn zeroTime now = minruntimeFilterFn (isReclaimMinRuntimeProtected zeroTime now)"

definition preemptFilterFn :: "int \<Rightarrow> int \<Rightarrow> protection" where
  "preemptFilterFn zeroTime now = minruntimeFilterFn (isPreemptMinRuntimeProtected zeroTime now)"

definition reclaimScenarioValidatorFn :: "int \<Rightarrow> int \<Rightarrow> PodGroupInfo \<Rightarrow> (string, VictimInfo) gomap \<Rightarrow> minruntimePlugin \<Rightarrow> (bool \<times> minruntimePlugin) option" where
  "reclaimScenarioValidatorFn zeroTime now reclaimer victims = scenarioLoop (isReclaimMinRuntimeProtected zeroTime now) reclaimer (map snd victims)"

definition preemptScenarioValidatorFn :: "int \<Rightarrow> int \<Rightarrow> PodGroupInfo \<Rightarrow> (string, VictimInfo) gomap \<Rightarrow> minruntimePlugin \<Rightarrow> (bool \<times> minruntimePlugin) option" where
  "preemptScenarioValidatorFn zeroTime now preemptor victims = scenarioLoop (isPreemptMinRuntimeProtected zeroTime now) preemptor (map snd victims)"

subsection \<open>Climbing\<close>

abbreviation infos :: "(QueueID, QueueInfo) gomap \<Rightarrow> QueueID list \<Rightarrow> QueueInfo list" where
  "infos queues ps \<equiv> map (\<lambda>p. the (map_of queues p)) ps"

definition keyed :: "(QueueID, QueueInfo) gomap \<Rightarrow> bool" where
  "keyed queues \<longleftrightarrow> (\<forall>k q. map_of queues k = Some q \<longrightarrow> qi_UID q = k)"

interpretation climb: parent_walk "\<lambda>_ :: 's. map_of queues" qi_ParentQueue "\<lambda>_. body" "\<lambda>_. True" "infoParents queues"
  for queues and body :: "QueueInfo \<Rightarrow> 's \<Rightarrow> 's + 'r"
  by unfold_locales (simp_all add: infoParents_def)

lemma queueWalk_parentWalk:
  assumes "map_of queues k = Some q"
  shows "queueWalk queues body q s = parentWalk (\<lambda>_. map_of queues) qi_ParentQueue (\<lambda>_. body) k s"
  using assms by (subst parentWalk.simps) (simp add: queueWalk_def split: sum.split)

lemma path_of_chain:
  assumes "queue_chain (infoParents queues) k ps" and "map_of queues k = Some q"
  shows "getQueueHierarchyPath queues q = Some (rev (infos queues ps))"
proof -
  have "walkChain (\<lambda>_ :: QueueInfo list. map_of queues) (\<lambda>_ q path. Inl (q # path) :: QueueInfo list + unit) ps s = Inl (rev (infos queues ps) @ s)"
    if "set ps \<subseteq> dom (infoParents queues)" for ps s
    using that by (induction ps arbitrary: s) (auto simp: dom_def infoParents_def)
  then show ?thesis
    using queue_chain_dom [OF assms(1)]
    unfolding getQueueHierarchyPath_def queueWalk_parentWalk [OF assms(2)] climb.walk_chain [OF assms(1) TrueI] by simp
qed

subsection \<open>The lowest common ancestor\<close>

text \<open>The first time set in a list of queues.\<close>

fun firstReclaim :: "QueueInfo list \<Rightarrow> int option" where
  "firstReclaim [] = None"
| "firstReclaim (q # qs) = (case qi_ReclaimMinRuntime q of None \<Rightarrow> firstReclaim qs | Some d \<Rightarrow> Some d)"

text \<open>The queues that decide about a reclaim from \<open>qs\<close> for \<open>ps\<close> (both chains, lowest first): the one below the lowest
  common ancestor, if there is one, and the common ancestors.\<close>

definition decidingQueues :: "QueueID list \<Rightarrow> QueueID list \<Rightarrow> QueueID list" where
  "decidingQueues ps qs =
     (let own = takeWhile (\<lambda>q. q \<notin> set ps) qs in (if own = [] then [] else [last own]) @ dropWhile (\<lambda>q. q \<notin> set ps) qs)"

lemma queue_chain_tail: "queue_chain par q (xs @ c # ys) \<Longrightarrow> queue_chain par c (c # ys)"
proof (induction xs arbitrary: q)
  case Nil
  then show ?case by (auto split: option.splits)
next
  case (Cons x xs)
  then obtain q' where "queue_chain par q' (xs @ c # ys)" by (auto split: option.splits)
  then show ?case by (rule Cons.IH)
qed

lemma common_suffix:
  assumes "queue_chain par p ps" and "queue_chain par q qs"
  obtains xs where "ps = xs @ dropWhile (\<lambda>q. q \<notin> set ps) qs"
proof (cases "dropWhile (\<lambda>q. q \<notin> set ps) qs")
  case Nil
  then show ?thesis using that [of ps] by simp
next
  case (Cons c C)
  then have c: "c \<in> set ps" by (metis hd_dropWhile list.distinct(1) list.sel(1))
  have "qs = takeWhile (\<lambda>q. q \<notin> set ps) qs @ c # C" using takeWhile_dropWhile_id [of "\<lambda>q. q \<notin> set ps" qs] Cons by simp
  then have "queue_chain par c (c # C)" using assms(2) queue_chain_tail by metis
  moreover obtain xs ys where "ps = xs @ ys" "queue_chain par c ys" using queue_chain_suffix [OF assms(1) c] by blast
  ultimately show ?thesis using that [of xs] Cons queue_chain_unique by metis
qed

lemma lcaLoop_common:
  assumes "map qi_UID cs = map qi_UID ds" and "xs = [] \<or> ys = [] \<or> qi_UID (hd xs) \<noteq> qi_UID (hd ys)"
  shows "lcaLoop (cs @ xs) (ds @ ys) i lca = (if cs = [] then lca else i + length cs - 1)"
  using assms(1)
proof (induction cs arbitrary: ds i lca)
  case Nil
  then show ?case using assms(2) by (cases xs; cases ys) auto
next
  case (Cons c cs)
  then obtain d ds' where "ds = d # ds'" by (cases ds) auto
  with Cons show ?case by auto
qed

lemma overrideUp_take: "i < length path \<Longrightarrow> overrideUp path i = firstReclaim (rev (take (Suc i) path))"
proof (induction i)
  case 0
  then show ?case by (cases path) (auto split: option.split)
next
  case (Suc i)
  then show ?case by (subst overrideUp.simps) (simp add: take_Suc_conv_app_nth [of "Suc i"] split: option.split)
qed

declare overrideUp.simps [simp del]

lemma lcaOverride_chains:
  assumes k: "keyed queues" and p: "queue_chain (infoParents queues) p ps" "ps \<noteq> []" and q: "queue_chain (infoParents queues) q qs" "qs \<noteq> []"
  shows "lcaOverride (rev (infos queues ps)) (rev (infos queues qs)) = firstReclaim (infos queues (decidingQueues ps qs))"
proof -
  let ?P = "\<lambda>q. q \<notin> set ps"
  define own C where "own = takeWhile ?P qs" and "C = dropWhile ?P qs"
  have qs: "qs = own @ C" by (simp add: own_def C_def)
  obtain rest where ps: "ps = rest @ C" using common_suffix [OF p(1) q(1)] by (auto simp: C_def)
  have uid: "qi_UID (the (map_of queues z)) = z" if "z \<in> set ps \<union> set qs" for z
  proof -
    have "z \<in> dom (infoParents queues)" using that queue_chain_dom [OF p(1)] queue_chain_dom [OF q(1)] by blast
    then show ?thesis using k by (auto simp: keyed_def infoParents_def)
  qed
  have hd: "hd (rev (infos queues zs)) = the (map_of queues (last zs))" if "zs \<noteq> []" for zs using that by (simp add: hd_rev last_map)
  have top: "qi_UID (hd (rev (infos queues ps))) = last ps" "qi_UID (hd (rev (infos queues qs))) = last qs"
    using uid p(2) q(2) by (simp_all add: hd)
  have dec: "decidingQueues ps qs = (if own = [] then [] else [last own]) @ C" by (simp add: decidingQueues_def own_def C_def)
  have lone: "last own \<notin> set ps" if "own \<noteq> []" using that by (metis last_in_set own_def set_takeWhileD)
  show ?thesis
  proof (cases "C = []")
    case True
    then have "own \<noteq> []" "last qs = last own" using q(2) qs by auto
    then have "last ps \<noteq> last qs" using lone p(2) by (metis last_in_set)
    moreover have "hd (rev (infos queues qs)) = the (map_of queues (last qs))" using q(2) by (rule hd)
    ultimately show ?thesis using top True \<open>own \<noteq> []\<close> \<open>last qs = last own\<close> by (simp add: lcaOverride_def dec split: option.split)
  next
    case False
    then have same: "last ps = last qs" by (simp add: ps qs)
    let ?X = "rev (infos queues rest)" and ?Y = "rev (infos queues own)"
    have "?X = [] \<or> ?Y = [] \<or> qi_UID (hd ?X) \<noteq> qi_UID (hd ?Y)"
    proof (cases "rest = [] \<or> own = []")
      case False
      have "last rest \<in> set ps" "last own \<in> set qs" using False ps qs by simp_all
      then have "qi_UID (hd ?X) = last rest" "qi_UID (hd ?Y) = last own" using False uid by (simp_all add: hd)
      moreover have "last rest \<in> set ps" using False ps by simp
      ultimately show ?thesis using lone False by metis
    qed auto
    from lcaLoop_common [OF refl this, of "rev (infos queues C)" 0 0]
    have lca: "lcaLoop (rev (infos queues ps)) (rev (infos queues qs)) 0 0 = length C - 1" using False by (simp add: ps qs)
    define i where "i = (if own = [] then length C - 1 else length C)"
    have i: "i < length qs" and len: "length qs = length own + length C" using False by (auto simp: i_def qs)
    have "lcaOverride (rev (infos queues ps)) (rev (infos queues qs)) = overrideUp (rev (infos queues qs)) i"
      using False by (auto simp: lcaOverride_def top same lca Let_def i_def len)
    also have "\<dots> = firstReclaim (drop (length qs - Suc i) (infos queues qs))" using i by (simp add: overrideUp_take take_rev)
    also have "drop (length qs - Suc i) (infos queues qs) = infos queues (decidingQueues ps qs)"
      unfolding dec using False by (cases own rule: rev_cases) (auto simp: i_def qs Suc_diff_le)
    finally show ?thesis .
  qed
qed

text \<open>C39. The time that protects a job of one queue from a reclaim by a job of another, on every hierarchy of queues: the
  nearest time that is set, looked for at the child of the lowest common ancestor that leads to the victim's queue and
  from there upwards, and the default if there is none. Queues at the top are siblings: with no common ancestor only the
  top queue of the victim counts.\<close>
theorem reclaim_min_runtime_lca:
  assumes "keyed (res_queues r)" and "map_of (res_queues r) p = Some preemptor" and "map_of (res_queues r) q = Some preemptee"
    and "queue_chain (infoParents (res_queues r)) p ps" and "queue_chain (infoParents (res_queues r)) q qs"
  defines "d \<equiv> (case firstReclaim (infos (res_queues r) (decidingQueues ps qs)) of None \<Rightarrow> defaultReclaimMinRuntime r | Some d \<Rightarrow> d)"
  shows "resolveReclaimMinRuntimeLCA r preemptor preemptee = Some (d, cacheReclaimMinRuntime preemptor preemptee d r)"
proof -
  have "ps \<noteq> []" "qs \<noteq> []" using assms(2-5) by (auto simp: infoParents_def)
  then show ?thesis
    using lcaOverride_chains [OF assms(1,4) _ assms(5)] path_of_chain [OF assms(4,2)] path_of_chain [OF assms(5,3)]
    by (simp add: resolveReclaimMinRuntimeLCA_def d_def Let_def)
qed

definition minRuntimeQueues :: "(QueueID, QueueInfo) gomap" where
  "minRuntimeQueues =
     map (\<lambda>(name, parent, d). (name, NewQueueInfo 0 \<lparr>cr_Name = name, cr_CreationTimestamp = 0, cr_DisplayName = '''', cr_ParentQueue = parent,
            cr_Resources = None, cr_Priority = None, cr_PreemptMinRuntime = None, cr_ReclaimMinRuntime = d\<rparr>))
       [(''root'', '''', Some 60), (''b'', ''root'', Some 600), (''c'', ''b'', None), (''leaf1'', ''c'', Some 5), (''leaf3'', ''b'', None)]"

theorem reclaim_min_runtime_lca_witness:
  "map_option fst (resolveReclaimMinRuntimeLCA (NewResolver minRuntimeQueues 0 0)
     (the (map_of minRuntimeQueues ''leaf3'')) (the (map_of minRuntimeQueues ''leaf1''))) = Some 600"
proof -
  let ?r = "NewResolver minRuntimeQueues 0 0"
  have qs: "res_queues ?r = minRuntimeQueues" by (simp add: NewResolver_def)
  have keyed: "keyed (res_queues ?r)" unfolding qs by (auto simp: keyed_def minRuntimeQueues_def NewQueueInfo_def split: if_splits)
  have chains: "queue_chain (infoParents (res_queues ?r)) ''leaf3'' [''leaf3'', ''b'', ''root'']"
    "queue_chain (infoParents (res_queues ?r)) ''leaf1'' [''leaf1'', ''c'', ''b'', ''root'']"
    unfolding qs by (simp_all add: infoParents_def minRuntimeQueues_def NewQueueInfo_def)
  have found: "map_of (res_queues ?r) ''leaf3'' = Some (the (map_of minRuntimeQueues ''leaf3''))"
    "map_of (res_queues ?r) ''leaf1'' = Some (the (map_of minRuntimeQueues ''leaf1''))" unfolding qs by (simp_all add: minRuntimeQueues_def)
  have "firstReclaim (infos (res_queues ?r) (decidingQueues [''leaf3'', ''b'', ''root''] [''leaf1'', ''c'', ''b'', ''root''])) = Some 600"
    unfolding qs by (simp add: decidingQueues_def minRuntimeQueues_def NewQueueInfo_def)
  then show ?thesis using reclaim_min_runtime_lca [OF keyed found chains] by simp
qed

subsection \<open>The caches\<close>

text \<open>What the resolver answers without its caches.\<close>

definition reclaimTime :: "string \<Rightarrow> resolver \<Rightarrow> QueueInfo \<Rightarrow> QueueInfo \<Rightarrow> int option" where
  "reclaimTime method r p q =
     map_option fst (if method = resolveMethodLCA then resolveReclaimMinRuntimeLCA r p q else resolveReclaimMinRuntimeQueue r p q)"

definition preemptTime :: "resolver \<Rightarrow> QueueInfo \<Rightarrow> int option" where
  "preemptTime r q = map_option fst (resolvePreemptMinRuntime r q)"

definition cachesOk :: "string \<Rightarrow> resolver \<Rightarrow> bool" where
  "cachesOk method r \<longleftrightarrow>
     (\<forall>k d. map_of (preemptMinRuntimeCache r) k = Some d \<longrightarrow> (\<forall>q. map_of (res_queues r) k = Some q \<longrightarrow> preemptTime r q = Some d)) \<and>
     (\<forall>k l d. map_of (cachedReclaim r k) l = Some d \<longrightarrow>
        (\<forall>p q. map_of (res_queues r) k = Some p \<longrightarrow> map_of (res_queues r) l = Some q \<longrightarrow> reclaimTime method r p q = Some d))"

definition sameConfig :: "resolver \<Rightarrow> resolver \<Rightarrow> bool" where
  "sameConfig r r' \<longleftrightarrow> res_queues r' = res_queues r \<and> defaultPreemptMinRuntime r' = defaultPreemptMinRuntime r \<and>
     defaultReclaimMinRuntime r' = defaultReclaimMinRuntime r"

lemma sameConfig_times:
  assumes "sameConfig r r'"
  shows "reclaimTime method r' = reclaimTime method r" "preemptTime r' = preemptTime r"
proof -
  have same: "res_queues r' = res_queues r" "defaultPreemptMinRuntime r' = defaultPreemptMinRuntime r" "defaultReclaimMinRuntime r' = defaultReclaimMinRuntime r"
    using assms by (simp_all add: sameConfig_def)
  show "reclaimTime method r' = reclaimTime method r" "preemptTime r' = preemptTime r"
    unfolding reclaimTime_def preemptTime_def resolveReclaimMinRuntimeLCA_def resolveReclaimMinRuntimeQueue_def resolvePreemptMinRuntime_def same
    by (intro ext, simp add: Let_def option.map_comp comp_def split: bind_split)+
qed

lemma cachesOk_New: "cachesOk method (NewResolver queues dp dr)"
  by (simp add: cachesOk_def NewResolver_def cachedReclaim_def)

lemma cachedReclaim_update:
  "cachedReclaim (cacheReclaimMinRuntime p q d r) k =
     (if k = qi_UID p then AList.update (qi_UID q) d (cachedReclaim r (qi_UID p)) else cachedReclaim r k)"
  by (simp add: cachedReclaim_def cacheReclaimMinRuntime_def)

lemma cacheReclaim_frame [simp]:
  "res_queues (cacheReclaimMinRuntime p q d r) = res_queues r" "preemptMinRuntimeCache (cacheReclaimMinRuntime p q d r) = preemptMinRuntimeCache r"
  by (simp_all add: cacheReclaimMinRuntime_def)

lemma sameConfig_cache: "sameConfig r (cacheReclaimMinRuntime p q d r)" "sameConfig r (cachePreemptMinRuntime q d r)"
  by (simp_all add: sameConfig_def cacheReclaimMinRuntime_def cachePreemptMinRuntime_def)

definition chainsEnd :: "(QueueID, QueueInfo) gomap \<Rightarrow> bool" where
  "chainsEnd queues \<longleftrightarrow> (\<forall>k q. map_of queues k = Some q \<longrightarrow> (\<exists>ps. queue_chain (infoParents queues) k ps))"

lemma nearestOverride_returns:
  assumes "chainsEnd queues" and "map_of queues k = Some q"
  shows "\<exists>d. nearestOverride queues f dflt q = Some d"
proof -
  obtain ps where "queue_chain (infoParents queues) k ps" using assms by (auto simp: chainsEnd_def)
  then show ?thesis unfolding nearestOverride_def queueWalk_parentWalk [OF assms(2)] climb.walk_chain [OF _ TrueI] by (subst climb.walk_chain) simp_all
qed

lemma times_returned:
  assumes "chainsEnd (res_queues r)" and "map_of (res_queues r) l = Some q"
  shows "\<exists>d. preemptTime r q = Some d" and "map_of (res_queues r) k = Some p \<Longrightarrow> \<exists>d. reclaimTime method r p q = Some d"
proof -
  show "\<exists>d. preemptTime r q = Some d"
    using nearestOverride_returns [OF assms] by (auto simp: preemptTime_def resolvePreemptMinRuntime_def)
  assume p: "map_of (res_queues r) k = Some p"
  obtain ps qs where "queue_chain (infoParents (res_queues r)) k ps" "queue_chain (infoParents (res_queues r)) l qs"
    using assms p unfolding chainsEnd_def by blast
  then have "getQueueHierarchyPath (res_queues r) p \<noteq> None" "getQueueHierarchyPath (res_queues r) q \<noteq> None"
    using path_of_chain p assms(2) by auto
  then show "\<exists>d. reclaimTime method r p q = Some d"
    using nearestOverride_returns [OF assms]
    by (auto simp: reclaimTime_def resolveReclaimMinRuntimeLCA_def resolveReclaimMinRuntimeQueue_def Let_def)
qed

lemma getReclaim_cached:
  assumes ok: "cachesOk method r" "keyed (res_queues r)" "chainsEnd (res_queues r)"
    and pq: "map_of (res_queues r) k = Some p" "map_of (res_queues r) l = Some q"
  shows "\<exists>d r'. getReclaimMinRuntime method r (Some p) (Some q) = Some (Inr d, r') \<and> reclaimTime method r p q = Some d \<and> cachesOk method r' \<and> sameConfig r r'"
proof -
  have uid: "qi_UID p = k" "qi_UID q = l" using ok(2) pq by (auto simp: keyed_def)
  show ?thesis
  proof (cases "map_of (cachedReclaim r k) l")
    case (Some d)
    then show ?thesis using ok(1) pq uid by (auto simp: getReclaimMinRuntime_def cachesOk_def sameConfig_def)
  next
    case None
    obtain d where d: "reclaimTime method r p q = Some d" using times_returned(2) [OF ok(3) pq(2,1)] by blast
    let ?r = "cacheReclaimMinRuntime p q d r"
    have g: "getReclaimMinRuntime method r (Some p) (Some q) = Some (Inr d, ?r)"
      using d uid None
      by (auto simp: getReclaimMinRuntime_def reclaimTime_def resolveReclaimMinRuntimeLCA_def resolveReclaimMinRuntimeQueue_def Let_def
          Option.bind_eq_Some_conv split: if_splits)
    note same = sameConfig_cache(1) [of r p q d]
    have "cachesOk method ?r"
      using ok(1) d pq uid unfolding cachesOk_def sameConfig_times [OF same] by (auto simp: cachedReclaim_update split: if_splits)
    then show ?thesis using g d same by blast
  qed
qed

lemma getPreempt_cached:
  assumes ok: "cachesOk method r" "keyed (res_queues r)" "chainsEnd (res_queues r)" and q: "map_of (res_queues r) k = Some q"
  shows "\<exists>d r'. getPreemptMinRuntime r (Some q) = Some (Inr d, r') \<and> preemptTime r q = Some d \<and> cachesOk method r' \<and> sameConfig r r'"
proof -
  have uid: "qi_UID q = k" using ok(2) q by (auto simp: keyed_def)
  show ?thesis
  proof (cases "map_of (preemptMinRuntimeCache r) k")
    case (Some d)
    then show ?thesis using ok(1) q uid by (auto simp: getPreemptMinRuntime_def cachesOk_def sameConfig_def)
  next
    case None
    obtain d where d: "preemptTime r q = Some d" using times_returned(1) [OF ok(3) q] by blast
    let ?r = "cachePreemptMinRuntime q d r"
    have g: "getPreemptMinRuntime r (Some q) = Some (Inr d, ?r)"
      using d uid None by (auto simp: getPreemptMinRuntime_def preemptTime_def resolvePreemptMinRuntime_def)
    note same = sameConfig_cache(2) [of r q d]
    have "cachesOk method ?r"
      using ok(1) d q uid unfolding cachesOk_def sameConfig_times [OF same]
      by (auto simp: cachePreemptMinRuntime_def cachedReclaim_def split: if_splits)
    then show ?thesis using g d same by blast
  qed
qed

subsection \<open>Protection\<close>

text \<open>The plugin within a session: its resolver has the session's queues, whose chains of parents end, and caches that agree
  with them.\<close>

definition minruntime_ok :: "minruntimePlugin \<Rightarrow> bool" where
  "minruntime_ok mr \<longleftrightarrow> keyed (mr_queues mr) \<and> chainsEnd (mr_queues mr) \<and>
     (\<exists>r. mr_resolver mr = Some r \<and> res_queues r = mr_queues mr \<and> cachesOk (reclaimResolveMethod mr) r)"

text \<open>Whether a victim is protected, as a function of the queues and of the configuration only.\<close>

definition reclaimProtected :: "int \<Rightarrow> int \<Rightarrow> PodGroupInfo \<Rightarrow> PodGroupInfo \<Rightarrow> minruntimePlugin \<Rightarrow> bool" where
  "reclaimProtected zeroTime now pendingJob victim mr =
     protectedUntil zeroTime now victim
       (case (map_of (mr_queues mr) (pg_Queue pendingJob), map_of (mr_queues mr) (pg_Queue victim)) of
          (Some p, Some q) \<Rightarrow> the (reclaimTime (reclaimResolveMethod mr) (the (mr_resolver mr)) p q)
        | _ \<Rightarrow> mr_defaultReclaim mr)"

definition preemptProtected :: "int \<Rightarrow> int \<Rightarrow> PodGroupInfo \<Rightarrow> PodGroupInfo \<Rightarrow> minruntimePlugin \<Rightarrow> bool" where
  "preemptProtected zeroTime now pendingJob victim mr =
     protectedUntil zeroTime now victim
       (case map_of (mr_queues mr) (pg_Queue victim) of Some q \<Rightarrow> the (preemptTime (the (mr_resolver mr)) q) | None \<Rightarrow> mr_defaultPreempt mr)"

text \<open>The contract of both tests: they return, and the answer is that of a function that the caches do not change.\<close>

locale protection_test =
  fixes isProtected :: protection
    and holds :: "PodGroupInfo \<Rightarrow> PodGroupInfo \<Rightarrow> minruntimePlugin \<Rightarrow> bool"
  assumes test: "minruntime_ok mr \<Longrightarrow> \<exists>mr'. isProtected pending victim mr = Some (holds pending victim mr, mr') \<and>
    minruntime_ok mr' \<and> (\<forall>p v. holds p v mr' = holds p v mr)"
begin

lemma scenario:
  assumes "minruntime_ok mr" and "\<forall>v\<in>set victims. \<exists>b. validVictimForMinAvailable v = Some b"
  shows "\<exists>mr'. scenarioLoop isProtected preemptor victims mr =
    Some (\<forall>v\<in>set victims. Job_IsElastic (vi_Job v) \<longrightarrow> holds preemptor (vi_Job v) mr \<longrightarrow> validVictimForMinAvailable v = Some True, mr')"
  using assms
proof (induction victims arbitrary: mr)
  case (Cons v vs)
  obtain mr1 where t: "isProtected preemptor (vi_Job v) mr = Some (holds preemptor (vi_Job v) mr, mr1)" and ok: "minruntime_ok mr1"
    and same: "\<And>p v. holds p v mr1 = holds p v mr" using test [OF Cons.prems(1)] by blast
  obtain b where b: "validVictimForMinAvailable v = Some b" using Cons.prems(2) by auto
  have rest: "\<forall>v\<in>set vs. \<exists>b. validVictimForMinAvailable v = Some b" using Cons.prems(2) by simp
  from Cons.IH [OF Cons.prems(1) rest] Cons.IH [OF ok rest] show ?case using t b same by (auto split: if_splits)
qed simp

lemma filter:
  assumes "minruntime_ok mr"
  shows "\<exists>mr'. minruntimeFilterFn isProtected pending victim mr = Some (Job_IsElastic victim \<or> \<not> holds pending victim mr, mr')"
  using test [OF assms, of pending victim] by (auto simp: minruntimeFilterFn_def)

end

lemma reclaim_test:
  assumes ok: "minruntime_ok mr"
  shows "\<exists>mr'. isReclaimMinRuntimeProtected zt now pending victim mr = Some (reclaimProtected zt now pending victim mr, mr') \<and>
    minruntime_ok mr' \<and> (\<forall>p v. reclaimProtected zt now p v mr' = reclaimProtected zt now p v mr)"
proof -
  let ?p = "map_of (mr_queues mr) (pg_Queue pending)" and ?q = "map_of (mr_queues mr) (pg_Queue victim)"
  obtain r where r: "mr_resolver mr = Some r" "res_queues r = mr_queues mr" "cachesOk (reclaimResolveMethod mr) r" using ok by (auto simp: minruntime_ok_def)
  have queues: "keyed (res_queues r)" "chainsEnd (res_queues r)" using ok r(2) by (simp_all add: minruntime_ok_def)
  show ?thesis
  proof (cases "?p = None \<or> ?q = None")
    case True
    then have "isReclaimMinRuntimeProtected zt now pending victim mr = Some (reclaimProtected zt now pending victim mr, mr\<lparr>mr_resolver := Some r\<rparr>)"
      using r(1) by (auto simp: isReclaimMinRuntimeProtected_def getReclaimMinRuntime_def reclaimProtected_def split: option.splits)
    moreover have "mr\<lparr>mr_resolver := Some r\<rparr> = mr" using r(1) by simp
    ultimately show ?thesis using ok by metis
  next
    case False
    then obtain p q where pq: "?p = Some p" "?q = Some q" by (metis not_None_eq)
    obtain d r' where d: "getReclaimMinRuntime (reclaimResolveMethod mr) r (Some p) (Some q) = Some (Inr d, r')"
        "reclaimTime (reclaimResolveMethod mr) r p q = Some d" "cachesOk (reclaimResolveMethod mr) r'" "sameConfig r r'"
      using getReclaim_cached [OF r(3) queues, of _ p _ q] pq r(2) by metis
    have "isReclaimMinRuntimeProtected zt now pending victim mr = Some (reclaimProtected zt now pending victim mr, mr\<lparr>mr_resolver := Some r'\<rparr>)"
      using d(1,2) r(1) pq by (simp add: isReclaimMinRuntimeProtected_def reclaimProtected_def)
    moreover have "minruntime_ok (mr\<lparr>mr_resolver := Some r'\<rparr>)" using ok d(3,4) r(2) by (simp add: minruntime_ok_def sameConfig_def)
    moreover have "reclaimProtected zt now p v (mr\<lparr>mr_resolver := Some r'\<rparr>) = reclaimProtected zt now p v mr" for p v
      using r(1) sameConfig_times [OF d(4)] by (simp add: reclaimProtected_def cong: option.case_cong)
    ultimately show ?thesis by blast
  qed
qed

lemma preempt_test:
  assumes ok: "minruntime_ok mr"
  shows "\<exists>mr'. isPreemptMinRuntimeProtected zt now pending victim mr = Some (preemptProtected zt now pending victim mr, mr') \<and>
    minruntime_ok mr' \<and> (\<forall>p v. preemptProtected zt now p v mr' = preemptProtected zt now p v mr)"
proof -
  let ?q = "map_of (mr_queues mr) (pg_Queue victim)"
  obtain r where r: "mr_resolver mr = Some r" "res_queues r = mr_queues mr" "cachesOk (reclaimResolveMethod mr) r" using ok by (auto simp: minruntime_ok_def)
  have queues: "keyed (res_queues r)" "chainsEnd (res_queues r)" using ok r(2) by (simp_all add: minruntime_ok_def)
  show ?thesis
  proof (cases ?q)
    case None
    then have "isPreemptMinRuntimeProtected zt now pending victim mr = Some (preemptProtected zt now pending victim mr, mr\<lparr>mr_resolver := Some r\<rparr>)"
      using r(1) by (simp add: isPreemptMinRuntimeProtected_def getPreemptMinRuntime_def preemptProtected_def)
    moreover have "mr\<lparr>mr_resolver := Some r\<rparr> = mr" using r(1) by simp
    ultimately show ?thesis using ok by metis
  next
    case (Some q)
    obtain d r' where d: "getPreemptMinRuntime r (Some q) = Some (Inr d, r')" "preemptTime r q = Some d"
        "cachesOk (reclaimResolveMethod mr) r'" "sameConfig r r'"
      using getPreempt_cached [OF r(3) queues, of _ q] Some r(2) by metis
    have "isPreemptMinRuntimeProtected zt now pending victim mr = Some (preemptProtected zt now pending victim mr, mr\<lparr>mr_resolver := Some r'\<rparr>)"
      using d(1,2) r(1) Some by (simp add: isPreemptMinRuntimeProtected_def preemptProtected_def)
    moreover have "minruntime_ok (mr\<lparr>mr_resolver := Some r'\<rparr>)" using ok d(3,4) r(2) by (simp add: minruntime_ok_def sameConfig_def)
    moreover have "preemptProtected zt now p v (mr\<lparr>mr_resolver := Some r'\<rparr>) = preemptProtected zt now p v mr" for p v
      using r(1) sameConfig_times [OF d(4)] by (simp add: preemptProtected_def cong: option.case_cong)
    ultimately show ?thesis by blast
  qed
qed

interpretation reclaim_protection: protection_test "isReclaimMinRuntimeProtected zt now" "reclaimProtected zt now" for zt now
  by unfold_locales (rule reclaim_test)

interpretation preempt_protection: protection_test "isPreemptMinRuntimeProtected zt now" "preemptProtected zt now" for zt now
  by unfold_locales (rule preempt_test)

lemma count_victims:
  assumes "int (length tasks) < 2 ^ 31"
  shows "map_of (countVictims tasks) name =
    (let n = count_if (\<lambda>t. taskSubGroup t = name) tasks in if n = 0 then None else Some n)"
  using assms
proof (induction tasks arbitrary: name rule: rev_induct)
  case (snoc t tasks)
  have IH: "map_of (countVictims tasks) name = (let n = count_if (\<lambda>t. taskSubGroup t = name) tasks in if n = 0 then None else Some n)" for name
    using snoc by simp
  let ?c = "count_if (\<lambda>u. taskSubGroup u = taskSubGroup t) tasks"
  have "0 \<le> ?c" "?c \<le> int (length tasks)" by (simp_all add: count_if_le_length)
  then have "int32_of (?c + 1) = ?c + 1" using snoc.prems by (intro int32_of_id) simp_all
  moreover have "gomap_get (countVictims tasks) (taskSubGroup t) = ?c" using IH by (simp add: gomap_get_def Let_def)
  ultimately have "countVictims (tasks @ [t]) = AList.update (taskSubGroup t) (?c + 1) (countVictims tasks)" by (simp add: countVictims_def)
  moreover have "?c + 1 \<noteq> 0" using \<open>0 \<le> ?c\<close> by linarith
  ultimately show ?case using IH [of name] by (auto simp: Let_def)
qed (simp add: countVictims_def)

text \<open>Counts fit into 32 bits, and every victim belongs to a pod set of its job.\<close>

definition victimOk :: "VictimInfo \<Rightarrow> bool" where
  "victimOk v \<longleftrightarrow> int (length (vi_Tasks v)) < 2 ^ 31 \<and>
     list_all (\<lambda>(_, ps). 0 \<le> numActiveUsedTasks ps \<and> numActiveUsedTasks ps < 2 ^ 31) (PodSets (vi_Job v)) \<and>
     list_all (\<lambda>t. map_of (PodSets (vi_Job v)) (taskSubGroup t) \<noteq> None) (vi_Tasks v)"

text \<open>Every pod set that loses tasks keeps its minimum.\<close>

definition keepsMinimum :: "VictimInfo \<Rightarrow> bool" where
  "keepsMinimum v \<longleftrightarrow>
     list_all (\<lambda>t. case map_of (PodSets (vi_Job v)) (taskSubGroup t) of
         None \<Rightarrow> False
       | Some ps \<Rightarrow> minAvailable ps \<le> numActiveUsedTasks ps - count_if (\<lambda>u. taskSubGroup u = taskSubGroup t) (vi_Tasks v)) (vi_Tasks v)"

lemma set_countVictims:
  assumes "int (length tasks) < 2 ^ 31"
  shows "set (countVictims tasks) = (\<lambda>t. (taskSubGroup t, count_if (\<lambda>u. taskSubGroup u = taskSubGroup t) tasks)) ` set tasks"
proof -
  have d: "distinct (map fst (countVictims tasks))"
    unfolding countVictims_def by (induction tasks rule: rev_induct) (simp_all add: distinct_update)
  have "(name, n) \<in> set (countVictims tasks) \<longleftrightarrow> n = count_if (\<lambda>u. taskSubGroup u = name) tasks \<and> n \<noteq> 0" for name n
    unfolding map_of_eq_Some_iff [OF d, symmetric] count_victims [OF assms] by (auto simp: Let_def)
  moreover have "count_if (\<lambda>u. taskSubGroup u = name) tasks \<noteq> 0 \<longleftrightarrow> name \<in> taskSubGroup ` set tasks" for name
    by (auto simp: count_if_def filter_empty_conv)
  ultimately show ?thesis by auto
qed

lemma running_left:
  assumes "victimOk v" and "map_of (PodSets (vi_Job v)) name = Some ps"
  shows "int32_of (int32_of (numActiveUsedTasks ps) - count_if P (vi_Tasks v)) = numActiveUsedTasks ps - count_if P (vi_Tasks v)"
proof -
  have used: "0 \<le> numActiveUsedTasks ps" "numActiveUsedTasks ps < 2 ^ 31"
    using assms(1) map_of_SomeD [OF assms(2)] by (auto simp: victimOk_def list_all_iff)
  have n0: "0 \<le> count_if P (vi_Tasks v)" by (simp add: count_if_def)
  have n: "count_if P (vi_Tasks v) < 2 ^ 31" using assms(1) count_if_le_length [of P "vi_Tasks v"] by (simp add: victimOk_def)
  have "int32_of (numActiveUsedTasks ps) = numActiveUsedTasks ps" using used by (intro int32_of_id) simp_all
  moreover have "int32_of (numActiveUsedTasks ps - count_if P (vi_Tasks v)) = numActiveUsedTasks ps - count_if P (vi_Tasks v)"
    using used n n0 by (intro int32_of_id) linarith+
  ultimately show ?thesis by simp
qed

lemma validVictim_keeps:
  assumes ok: "victimOk v"
  shows "validVictimForMinAvailable v = Some (keepsMinimum v)"
proof -
  have counts: "set (countVictims (vi_Tasks v)) = (\<lambda>t. (taskSubGroup t, count_if (\<lambda>u. taskSubGroup u = taskSubGroup t) (vi_Tasks v))) ` set (vi_Tasks v)"
    using ok by (intro set_countVictims) (simp add: victimOk_def)
  have sets: "\<exists>ps. map_of (PodSets (vi_Job v)) (taskSubGroup t) = Some ps" if "t \<in> set (vi_Tasks v)" for t
    using ok that by (auto simp: victimOk_def list_all_iff)
  have same: "(case map_of (PodSets (vi_Job v)) (taskSubGroup t) of None \<Rightarrow> True
      | Some ps \<Rightarrow> \<not> minAvailable ps > int32_of (int32_of (numActiveUsedTasks ps) - count_if P (vi_Tasks v))) \<longleftrightarrow>
    (case map_of (PodSets (vi_Job v)) (taskSubGroup t) of None \<Rightarrow> False
      | Some ps \<Rightarrow> minAvailable ps \<le> numActiveUsedTasks ps - count_if P (vi_Tasks v))" if "t \<in> set (vi_Tasks v)" for t P
    using sets [OF that] running_left [OF ok] by (auto simp: not_less)
  have "\<not> list_ex (\<lambda>(name, _). map_of (PodSets (vi_Job v)) name = None) (countVictims (vi_Tasks v))"
    using sets by (fastforce simp: list_ex_iff counts)
  moreover have "list_all (\<lambda>(name, numVictims). case map_of (PodSets (vi_Job v)) name of None \<Rightarrow> True
      | Some ps \<Rightarrow> \<not> minAvailable ps > int32_of (int32_of (numActiveUsedTasks ps) - numVictims)) (countVictims (vi_Tasks v)) \<longleftrightarrow> keepsMinimum v"
    unfolding list_all_iff counts keepsMinimum_def ball_simps prod.case by (intro ball_cong refl) (rule same)
  ultimately show ?thesis unfolding validVictimForMinAvailable_def Let_def by (simp only: if_False option.inject)
qed


definition minRuntimePlugin :: minruntimePlugin where
  "minRuntimePlugin = minruntime_OnSessionOpen minRuntimeQueues (minruntime_New (\<lambda>_. None) [])"

definition minRuntimeVictim :: VictimInfo where
  "minRuntimeVictim = \<lparr>vi_Job = exampleJob\<lparr>pg_Queue := ''leaf1'', LastStartTimestamp := Some 1000\<rparr>, vi_Tasks = [examplePod ''a'' Running]\<rparr>"


end
