(* ===== verification/Spec2Isabelle.thy ===== *)
theory Spec2Isabelle
  imports Allocation_Laws Min_Runtime
begin

text \<open>
  A verification development for the scheduler of KAI, \<^verbatim>\<open>src/pkg/scheduler\<close>: a Kubernetes scheduler for GPU clusters that
  shares them fairly between a hierarchy of queues and places gangs of pods.

  \<^bold>\<open>The program.\<close> In every cycle the scheduler takes a snapshot of the cluster and opens a session on it. The snapshot holds
  nodes with vectors of resources, jobs (pod groups) with trees of subgroups over sets of pods, and queues. Plugins register
  functions with the session: comparisons of queues, jobs and tasks, scores of nodes, checks of capacity and of reclaims,
  handlers of events. The proportion plugin divides the cluster among the queues, keeps their books during the session and
  answers whether a job may allocate or reclaim. Actions then take jobs in order, select tasks of a job, look for nodes, and
  move tasks within a statement, a transaction whose log can be rolled back, discarded or committed to the cluster.

  \<^bold>\<open>Theories and sources.\<close> Paths are relative to \<^verbatim>\<open>src/pkg/scheduler\<close>. Records are the structs, with the fields that the
  modelled code reads or writes; every operation is a function with the name of the Go function, with a prefix where Go
  distinguishes by receiver or package (\<open>Vector_Add\<close>, \<open>nodeplacement_New\<close>).

  \<^item> \<open>Kai_Prelude\<close>: numbers, Go maps, stable sorting and orders, for all other theories.
  \<^item> \<open>Priority_Queue\<close>: \<^verbatim>\<open>scheduler_util/priority_queue.go\<close> over \<^verbatim>\<open>container/heap\<close>. The slice is a heap after every operation;
    a drained queue is sorted; a bounded queue may drop an item better than one it keeps.
  \<^item> \<open>Pod_Status\<close>, \<open>Resource_Vector\<close>, \<open>Gpu_Requirement\<close>, \<open>Resources\<close>: \<^verbatim>\<open>api/pod_status\<close>, \<^verbatim>\<open>api/resource_info\<close>. Status masks,
    vectors with their index map, requirements, and the round trip of adding and subtracting amounts.
  \<^item> \<open>Pod_Info\<close>, \<open>Numa_Placement\<close>, \<open>Fit_Errors\<close>, \<open>Storage_Capacity\<close>: \<^verbatim>\<open>api/pod_info\<close>, \<^verbatim>\<open>api/common_info\<close> (reasons why tasks and
    jobs do not fit), \<^verbatim>\<open>api/storagecapacity_info\<close>, \<^verbatim>\<open>api/storageclaim_info\<close>.
  \<^item> \<open>Subgroups\<close>, \<open>Task_Allocation\<close>, \<open>Core_Eviction\<close>, \<open>Pod_Group\<close>, \<open>Job_Laws\<close>: \<^verbatim>\<open>api/podgroup_info\<close>. Indexes, counters, sums and
    caches of a job agree with its pods after every run of operations; selected tasks bring a gang to its minimum; victims
    never break a gang that they do not dissolve; the caches are transparent.
  \<^item> \<open>Task_Order\<close>, \<open>Job_Order\<close>: the plugins that compare tasks, subgroups and jobs, and the chains of
    \<^verbatim>\<open>framework/session_plugins.go\<close>. They are strict orders for every choice of plugins.
  \<^item> \<open>Resource_Share\<close>, \<open>Resource_Division\<close>, \<open>Fair_Share_Laws\<close>: \<^verbatim>\<open>plugins/proportion/resource_share\<close> and
    \<^verbatim>\<open>resource_division\<close>. The division returns, conserves the resource, keeps its bounds, leaves nothing while a queue
    wants more, respects priorities, and does not depend on the order in which Go visits maps.
  \<^item> \<open>Queue_Tree\<close>, \<open>Capacity_Policy\<close>, \<open>Reclaimable\<close>, \<open>Queue_Order\<close>, \<open>Proportion\<close>, \<open>Fair_Hierarchy\<close>: \<^verbatim>\<open>api/queue_info\<close>,
    \<^verbatim>\<open>cache/cluster_info/queue.go\<close> and the rest of \<^verbatim>\<open>plugins/proportion\<close>. When the loops up the hierarchy return; the books of
    every queue are the sums over its subtree; what an admitted job and a granted reclaim guarantee; the order of queues as a
    lexicographic one and where it has cycles; the recursive division of the hierarchy.
  \<^item> \<open>Min_Runtime\<close>: \<^verbatim>\<open>plugins/minruntime\<close>. Which time protects a victim, and what a protected job keeps.
  \<^item> \<open>Node_Info\<close>, \<open>Node_Laws\<close>, \<open>Node_Gpus\<close>, \<open>Node_Placement\<close>: \<^verbatim>\<open>api/node_info\<close>. The books of a node, vectors and memory of shared
    GPUs, are sums over its tasks; GPU entries count free devices; an accepted task fits; where undoing a move leaks memory.
  \<^item> \<open>Session\<close>, \<open>Session_Laws\<close>, \<open>Statement\<close>, \<open>Statement_Log\<close>, \<open>Statement_Laws\<close>, \<open>Statement_Restore\<close>: \<^verbatim>\<open>framework/session.go\<close>,
    \<^verbatim>\<open>statement.go\<close>, \<^verbatim>\<open>operations.go\<close>. Task objects are shared, so they live in a store. Every call returns; rolling back runs
    the reverse operations once each; sessions stay consistent; rolling back puts every task back where it was.
  \<^item> \<open>Session_Fit\<close>, \<open>Job_Allocation\<close>, \<open>Node_Scores\<close>, \<open>Allocation_Laws\<close>: fitting nodes and their order in \<^verbatim>\<open>framework/session.go\<close>,
    \<^verbatim>\<open>actions/common/allocate.go\<close>, \<^verbatim>\<open>gpu_sharing\<close>, the plugins that score nodes. Parallel scoring gives one order for every
    schedule of its workers; scores are tiers; a job is allocated with all its selected tasks or the log is as before.

  \<^bold>\<open>Interfaces.\<close> Contracts between components are locales, and each is interpreted on the definitions of the model:
  \<open>less_fn\<close> (what sorting needs of a comparison: the orders of nodes, of scores, of the remainder), \<open>pq_contract\<close> (what
  clients use of the priority queue), \<open>task_order\<close> (the order that selection of tasks uses), \<open>compare_fn\<close> (what a chain of
  plugins needs of one comparator), \<open>parent_walk\<close> (what the body of a loop up the hierarchy may do: capacity, reclaim, books
  of queues, minimal run time), \<open>session_handlers\<close> (event handlers, interpreted on the proportion plugin), \<open>quiet_plugins\<close>
  (plugins of an allocation, interpreted on a session with the proportion plugin) and \<open>protection_test\<close> (both tests of the
  minimal run time).

  \<^bold>\<open>Numbers, maps and loops.\<close> A \<^verbatim>\<open>float64\<close> is an exact rational: rounding, infinities and NaN are not modelled. Machine integers
  wrap where the width matters (\<open>int32_of\<close>, \<open>int64_of\<close>, words for masks). A Go map that the code ranges over is an association
  list, whose order is the order of the visit; theorems hold for every order unless they say otherwise. Loops with no bound
  in the code are \<^theory_text>\<open>partial_function\<close>s with \<open>None\<close> for a run that does not return (or that dereferences nil), and separate
  theorems show that they return: \<open>divideUpToFairShare\<close>, \<open>parentWalk\<close>, \<open>operationValid\<close>, \<open>undoOperation\<close>, the recursion over the
  children of queues. There is no fuel that a result could depend on.

  \<^bold>\<open>Parameters.\<close> Code outside of the sources is an argument: the constants of the API module, the quantities and selectors of
  Kubernetes, formatting of numbers, the parser of durations, the clock, the calls of the cache, and the functions that
  plugins outside of the model register.

  \<^bold>\<open>Not modelled.\<close> The loops of the actions and the search for victims (\<^verbatim>\<open>actions/common/solvers\<close>), the tree of queues of jobs
  (\<^verbatim>\<open>actions/utils\<close>), the topology, NUMA, dynamic resources and affinity plugins, which enter as arbitrary callbacks, the
  snapshot and the cache, which talk to the Kubernetes API, logs, metrics and configuration, and the programs around the
  scheduler: binder, pod grouper, controllers, webhooks and operator.
\<close>

end
